(* ===== verification/Prelude.thy ===== *)
theory Prelude
  imports Main "HOL-Library.AList" "HOL-Library.Word"
begin

text \<open>
  What the component theories share: Go's integers, time and maps, the two interfaces that
  most components rely on (a map, a machine with an invariant), and the lemma collections.

  A Go map is an association list. Its order is the order in which a \<open>range\<close> loop visits
  the entries; Go leaves that order open, so a theorem that quantifies over all well-formed
  association lists holds for every order the runtime may choose.
\<close>

section \<open>Integers and time\<close>

type_synonym u8 = "8 word"
type_synonym u16 = "16 word"
type_synonym u32 = "32 word"
type_synonym u64 = "64 word"

text \<open>
  A \<open>time.Time\<close> is the number of nanoseconds since Go's zero time, so \<open>IsZero\<close> is
  equality with 0. A \<open>time.Duration\<close> is a number of nanoseconds.
\<close>

type_synonym time = int
type_synonym duration = int

abbreviation nanosecond :: duration where "nanosecond \<equiv> 1"
abbreviation millisecond :: duration where "millisecond \<equiv> 1000000"
abbreviation second :: duration where "second \<equiv> 1000000000"
abbreviation minute :: duration where "minute \<equiv> 60000000000"
abbreviation hour :: duration where "hour \<equiv> 3600000000000"

abbreviation zero_time :: time where "zero_time \<equiv> 0"

named_theorems gomap_simps \<open>lookups after updates of a Go map\<close>
named_theorems rt_simps \<open>facts about the timers of the runtime\<close>

section \<open>Interfaces\<close>

text \<open>
  The map interface: what a component may rely on when it stores entries under keys.
\<close>

locale map_store =
  fixes lookup :: "'m \<Rightarrow> 'k \<Rightarrow> 'v option"
    and insert_at :: "'k \<Rightarrow> 'v \<Rightarrow> 'm \<Rightarrow> 'm"
    and remove_at :: "'k \<Rightarrow> 'm \<Rightarrow> 'm"
    and count :: "'m \<Rightarrow> nat"
    and wf :: "'m \<Rightarrow> bool"
  assumes lookup_insert: "lookup (insert_at k v m) = (lookup m)(k \<mapsto> v)"
    and lookup_remove: "lookup (remove_at k m) = (lookup m)(k := None)"
    and wf_insert: "wf m \<Longrightarrow> wf (insert_at k v m)"
    and wf_remove: "wf m \<Longrightarrow> wf (remove_at k m)"
    and count_card: "wf m \<Longrightarrow> count m = card (dom (lookup m))"
    and finite_store: "finite (dom (lookup m))"
begin

lemma lookup_insert_same: "lookup (insert_at k v m) k = Some v"
  by (simp add: lookup_insert)

lemma lookup_insert_other: "k \<noteq> k' \<Longrightarrow> lookup (insert_at k v m) k' = lookup m k'"
  by (simp add: lookup_insert)

lemma lookup_remove_same: "lookup (remove_at k m) k = None"
  by (simp add: lookup_remove)

lemma lookup_remove_other: "k \<noteq> k' \<Longrightarrow> lookup (remove_at k m) k' = lookup m k'"
  by (simp add: lookup_remove)

lemma count_insert_new:
  "wf m \<Longrightarrow> lookup m k = None \<Longrightarrow> count (insert_at k v m) = Suc (count m)"
  by (simp add: count_card wf_insert lookup_insert finite_store domIff)

lemma count_insert_old:
  assumes "wf m" and "lookup m k = Some w"
  shows "count (insert_at k v m) = count m"
proof -
  from assms(2) have "insert k (dom (lookup m)) = dom (lookup m)" by auto
  with assms(1) show ?thesis by (simp add: count_card wf_insert lookup_insert)
qed

lemma count_insert_le: "wf m \<Longrightarrow> count (insert_at k v m) \<le> Suc (count m)"
  by (cases "lookup m k") (simp_all add: count_insert_new count_insert_old)

lemma count_remove_old:
  "wf m \<Longrightarrow> lookup m k = Some w \<Longrightarrow> Suc (count (remove_at k m)) = count m"
  by (simp add: count_card wf_remove lookup_remove finite_store)
    (metis card_Suc_Diff1 domI finite_store)

lemma count_remove_le: "wf m \<Longrightarrow> count (remove_at k m) \<le> count m"
  by (simp add: count_card wf_remove lookup_remove card_Diff1_le finite_store)

end

text \<open>
  A machine with an invariant: a state, its step on an event, and a predicate that every
  step keeps. Every run then keeps it.
\<close>

locale invariant_machine =
  fixes step :: "'s \<Rightarrow> 'e \<Rightarrow> 's"
    and inv :: "'s \<Rightarrow> bool"
  assumes step_inv: "inv s \<Longrightarrow> inv (step s e)"
begin

lemma run_inv: "inv s \<Longrightarrow> inv (foldl step s es)"
  by (induction es arbitrary: s) (auto intro: step_inv)

lemma run_prefix_inv: "inv s \<Longrightarrow> inv (foldl step s (take n es))"
  by (rule run_inv)

end

text \<open>
  A machine whose invariant holds as long as a bounded supply (of identifiers, say) lasts:
  the invariant speaks of the number of steps taken so far.
\<close>

locale supply_machine =
  fixes step :: "'s \<Rightarrow> 'e \<Rightarrow> 's"
    and inv :: "nat \<Rightarrow> 's \<Rightarrow> bool"
    and budget :: nat
  assumes step_within: "inv n s \<Longrightarrow> n < budget \<Longrightarrow> inv (Suc n) (step s e)"
begin

lemma run_within:
  "inv n s \<Longrightarrow> n + length es \<le> budget \<Longrightarrow> inv (n + length es) (foldl step s es)"
proof (induction es arbitrary: n s)
  case Nil
  then show ?case by simp
next
  case (Cons e es)
  then have "inv (Suc n) (step s e)" by (intro step_within) auto
  from Cons.IH [OF this] Cons.prems(2) show ?case by simp
qed

end

text \<open>
  Such a machine whose counter (the last identifier given out) never goes back as long as
  the supply lasts.
\<close>

locale counter_machine = supply_machine step inv budget
  for step :: "'s \<Rightarrow> 'e \<Rightarrow> 's" and inv :: "nat \<Rightarrow> 's \<Rightarrow> bool" and budget :: nat +
  fixes counter :: "'s \<Rightarrow> nat"
  assumes step_counter: "inv n s \<Longrightarrow> n < budget \<Longrightarrow> counter s \<le> counter (step s e)"
begin

lemma run_counter:
  "inv n s \<Longrightarrow> n + length es \<le> budget \<Longrightarrow> counter s \<le> counter (foldl step s es)"
proof (induction es arbitrary: n s)
  case Nil
  then show ?case by simp
next
  case (Cons e es)
  then have n: "n < budget" and rest: "Suc n + length es \<le> budget" by simp_all
  have "counter s \<le> counter (step s e)" by (rule step_counter) (rule Cons.prems(1), rule n)
  also have "\<dots> \<le> counter (foldl step (step s e) es)"
    by (rule Cons.IH) (rule step_within [OF Cons.prems(1) n], rule rest)
  finally show ?case by simp
qed

end

section \<open>Go maps\<close>

type_synonym ('k, 'v) gomap = "('k \<times> 'v) list"

definition gm_wf :: "('k, 'v) gomap \<Rightarrow> bool" where
  "gm_wf m \<longleftrightarrow> distinct (map fst m)"

abbreviation gm_get :: "('k, 'v) gomap \<Rightarrow> 'k \<Rightarrow> 'v option" where
  "gm_get \<equiv> map_of"

abbreviation gm_put :: "'k \<Rightarrow> 'v \<Rightarrow> ('k, 'v) gomap \<Rightarrow> ('k, 'v) gomap" where
  "gm_put \<equiv> AList.update"

abbreviation gm_del :: "'k \<Rightarrow> ('k, 'v) gomap \<Rightarrow> ('k, 'v) gomap" where
  "gm_del \<equiv> AList.delete"

text \<open>A loop that deletes the entries a condition selects (deleting while ranging is
  allowed in Go).\<close>

definition gm_purge :: "('k \<Rightarrow> 'v \<Rightarrow> bool) \<Rightarrow> ('k, 'v) gomap \<Rightarrow> ('k, 'v) gomap" where
  "gm_purge P m = filter (\<lambda>(k, v). \<not> P k v) m"

lemma gm_wf_Nil [simp]: "gm_wf []"
  by (simp add: gm_wf_def)

lemma gm_wf_put [simp, intro]: "gm_wf m \<Longrightarrow> gm_wf (gm_put k v m)"
  by (simp add: gm_wf_def distinct_update)

lemma gm_wf_del [simp, intro]: "gm_wf m \<Longrightarrow> gm_wf (gm_del k m)"
  by (simp add: gm_wf_def distinct_delete)

lemma gm_wf_filter: "gm_wf m \<Longrightarrow> gm_wf (filter P m)"
  by (auto simp: gm_wf_def intro: distinct_map_filter)

lemma gm_wf_purge [simp, intro]: "gm_wf m \<Longrightarrow> gm_wf (gm_purge P m)"
  unfolding gm_purge_def by (rule gm_wf_filter)

lemma gm_get_put [gomap_simps]: "gm_get (gm_put k v m) = (gm_get m)(k \<mapsto> v)"
  by (rule update_conv')

lemma gm_get_del [gomap_simps]: "gm_get (gm_del k m) = (gm_get m)(k := None)"
  by (rule delete_conv')

lemma gm_get_in: "gm_wf m \<Longrightarrow> gm_get m k = Some v \<longleftrightarrow> (k, v) \<in> set m"
  by (simp add: gm_wf_def)

lemma gm_get_purge:
  "gm_wf m \<Longrightarrow> gm_get (gm_purge P m) k
     = (case gm_get m k of None \<Rightarrow> None | Some v \<Rightarrow> if P k v then None else Some v)"
proof (induction m)
  case Nil
  then show ?case by (simp add: gm_purge_def)
next
  case (Cons e m)
  obtain k' v' where e: "e = (k', v')" by (cases e)
  from Cons.prems have wf: "gm_wf m" and fresh: "gm_get m k' = None"
    by (auto simp: e gm_wf_def map_of_eq_None_iff)
  note IH = Cons.IH [OF wf]
  from fresh have "gm_get (gm_purge P m) k' = None" if "k = k'"
    using IH that by simp
  with IH show ?case by (auto simp: e gm_purge_def fresh split: option.splits)
qed

lemma gm_purge_id: "(\<And>k v. (k, v) \<in> set m \<Longrightarrow> \<not> P k v) \<Longrightarrow> gm_purge P m = m"
  by (auto simp: gm_purge_def intro!: filter_True)

lemma gm_set_purge: "set (gm_purge P m) = {(k, v) \<in> set m. \<not> P k v}"
  by (auto simp: gm_purge_def)

lemma gm_set_del: "set (gm_del k m) = {e \<in> set m. fst e \<noteq> k}"
  by (auto simp: AList.delete_eq)

lemma gm_set_put_subset: "set (gm_put k v m) \<subseteq> insert (k, v) (set m)"
  by (induction m) auto

lemma gm_put_new: "gm_get m k = None \<Longrightarrow> gm_put k v m = m @ [(k, v)]"
  by (induction m) (auto split: if_splits)

interpretation gm: map_store gm_get gm_put gm_del length gm_wf
proof unfold_locales
  fix m :: "('a, 'b) gomap"
  assume "gm_wf m"
  then show "length m = card (dom (gm_get m))"
    by (metis distinct_card dom_map_of_conv_image_fst gm_wf_def length_map set_map)
qed (auto simp: gomap_simps finite_dom_map_of)

end
