(* ===== verification/GoTime.thy ===== *)
theory GoTime
  imports Prelude
begin

text \<open>
  The one-shot timers of Go's runtime (\<open>time.AfterFunc\<close> and \<open>Timer.Stop\<close>), which
  the failsafe timer, the duration timers and the commissioning window are built on.

  A timer is armed until its deadline. Then the runtime starts its function in a goroutine
  of its own, which first has to get the component's lock: between these two moments the
  timer has fired and has not run. \<open>Stop\<close> takes an armed timer away and has no effect on
  a fired one. The model keeps the two stages apart, so an interleaving in which a handler
  runs between them is an ordinary sequence of steps.
\<close>

record 'k runtime =
  rt_next :: nat
  rt_armed :: "(nat, time \<times> 'k) gomap"
  rt_fired :: "(nat, 'k) gomap"

definition new_runtime :: "'k runtime" where
  "new_runtime = \<lparr>rt_next = 0, rt_armed = [], rt_fired = []\<rparr>"

definition after_func :: "time \<Rightarrow> duration \<Rightarrow> 'k \<Rightarrow> 'k runtime \<Rightarrow> nat \<times> 'k runtime" where
  "after_func now d k rt =
     (rt_next rt,
      rt\<lparr>rt_next := Suc (rt_next rt), rt_armed := gm_put (rt_next rt) (now + d, k) (rt_armed rt)\<rparr>)"

definition stop_timer :: "nat \<Rightarrow> 'k runtime \<Rightarrow> 'k runtime" where
  "stop_timer i rt = rt\<lparr>rt_armed := gm_del i (rt_armed rt)\<rparr>"

text \<open>\<open>if t != nil { t.Stop() }\<close>\<close>

definition stop_opt :: "nat option \<Rightarrow> 'k runtime \<Rightarrow> 'k runtime" where
  "stop_opt h rt = (case h of None \<Rightarrow> rt | Some i \<Rightarrow> stop_timer i rt)"

text \<open>The runtime starts the function of a timer whose deadline has come.\<close>

definition fire_timer :: "time \<Rightarrow> nat \<Rightarrow> 'k runtime \<Rightarrow> 'k runtime" where
  "fire_timer now i rt =
     (case gm_get (rt_armed rt) i of
        None \<Rightarrow> rt
      | Some (dl, k) \<Rightarrow>
          if dl \<le> now
          then rt\<lparr>rt_armed := gm_del i (rt_armed rt), rt_fired := gm_put i k (rt_fired rt)\<rparr>
          else rt)"

text \<open>A fired function gets the lock: it is handed to the component, once.\<close>

definition take_fired :: "nat \<Rightarrow> 'k runtime \<Rightarrow> ('k \<times> 'k runtime) option" where
  "take_fired i rt =
     (case gm_get (rt_fired rt) i of
        None \<Rightarrow> None
      | Some k \<Rightarrow> Some (k, rt\<lparr>rt_fired := gm_del i (rt_fired rt)\<rparr>))"

text \<open>Timer identities are never reused.\<close>

definition rt_wf :: "'k runtime \<Rightarrow> bool" where
  "rt_wf rt \<longleftrightarrow>
     gm_wf (rt_armed rt) \<and> gm_wf (rt_fired rt) \<and>
     (\<forall>i. rt_next rt \<le> i \<longrightarrow> gm_get (rt_armed rt) i = None \<and> gm_get (rt_fired rt) i = None) \<and>
     (\<forall>i. gm_get (rt_armed rt) i = None \<or> gm_get (rt_fired rt) i = None)"

abbreviation armed_at :: "'k runtime \<Rightarrow> nat \<Rightarrow> (time \<times> 'k) option" where
  "armed_at rt \<equiv> gm_get (rt_armed rt)"

abbreviation fired_at :: "'k runtime \<Rightarrow> nat \<Rightarrow> 'k option" where
  "fired_at rt \<equiv> gm_get (rt_fired rt)"

lemma rt_wf_new [simp]: "rt_wf new_runtime"
  by (simp add: rt_wf_def new_runtime_def)

lemma rt_wf_after_func [simp]: "rt_wf rt \<Longrightarrow> rt_wf (snd (after_func now d k rt))"
  by (auto simp: rt_wf_def after_func_def gomap_simps)

lemma rt_wf_stop [simp]: "rt_wf rt \<Longrightarrow> rt_wf (stop_timer i rt)"
  by (auto simp: rt_wf_def stop_timer_def gomap_simps)

lemma rt_wf_stop_opt [simp]: "rt_wf rt \<Longrightarrow> rt_wf (stop_opt h rt)"
  by (simp add: stop_opt_def split: option.split)

lemma rt_wf_fire [simp]: "rt_wf rt \<Longrightarrow> rt_wf (fire_timer now i rt)"
  by (auto simp: rt_wf_def fire_timer_def gomap_simps split: option.split)

lemma rt_wf_take: "rt_wf rt \<Longrightarrow> take_fired i rt = Some (k, rt') \<Longrightarrow> rt_wf rt'"
  by (auto simp: rt_wf_def take_fired_def gomap_simps split: option.splits if_splits)

lemma armed_after_func [rt_simps]:
  "armed_at (snd (after_func now d k rt)) = (armed_at rt)(rt_next rt \<mapsto> (now + d, k))"
  by (simp add: after_func_def gomap_simps)

lemma fired_after_func [rt_simps]: "rt_fired (snd (after_func now d k rt)) = rt_fired rt"
  by (simp add: after_func_def)

lemma id_after_func [rt_simps]: "fst (after_func now d k rt) = rt_next rt"
  by (simp add: after_func_def)

lemma armed_stop [rt_simps]: "armed_at (stop_timer i rt) = (armed_at rt)(i := None)"
  by (simp add: stop_timer_def gomap_simps)

lemma fired_stop [rt_simps]: "rt_fired (stop_timer i rt) = rt_fired rt"
  by (simp add: stop_timer_def)

lemma next_stop [rt_simps]: "rt_next (stop_timer i rt) = rt_next rt"
  by (simp add: stop_timer_def)

lemma armed_stop_opt [rt_simps]:
  "armed_at (stop_opt h rt) = (case h of None \<Rightarrow> armed_at rt | Some i \<Rightarrow> (armed_at rt)(i := None))"
  by (simp add: stop_opt_def rt_simps split: option.split)

lemma fired_stop_opt [rt_simps]: "rt_fired (stop_opt h rt) = rt_fired rt"
  by (simp add: stop_opt_def rt_simps split: option.split)

lemma next_stop_opt [rt_simps]: "rt_next (stop_opt h rt) = rt_next rt"
  by (simp add: stop_opt_def rt_simps split: option.split)

lemma armed_fresh: "rt_wf rt \<Longrightarrow> armed_at rt (rt_next rt) = None"
  by (simp add: rt_wf_def)

lemma fired_fresh: "rt_wf rt \<Longrightarrow> fired_at rt (rt_next rt) = None"
  by (simp add: rt_wf_def)

text \<open>
  The interface of one-shot timers that the components use: a started timer is armed for
  its deadline under a fresh identity, a stopped one is not armed, other timers are left
  alone.
\<close>

locale timer_service =
  fixes arm :: "time \<Rightarrow> duration \<Rightarrow> 'k \<Rightarrow> 'r \<Rightarrow> nat \<times> 'r"
    and disarm :: "nat \<Rightarrow> 'r \<Rightarrow> 'r"
    and armed :: "'r \<Rightarrow> nat \<Rightarrow> (time \<times> 'k) option"
    and wf :: "'r \<Rightarrow> bool"
  assumes arm_armed: "armed (snd (arm now d k r)) = (armed r)(fst (arm now d k r) \<mapsto> (now + d, k))"
    and arm_fresh: "wf r \<Longrightarrow> armed r (fst (arm now d k r)) = None"
    and disarm_armed: "armed (disarm i r) = (armed r)(i := None)"
    and wf_arm: "wf r \<Longrightarrow> wf (snd (arm now d k r))"
    and wf_disarm: "wf r \<Longrightarrow> wf (disarm i r)"
begin

text \<open>Replacing a timer: the old one is gone, the new one is armed, no other has moved.\<close>

lemma rearm:
  assumes "(j, r') = arm now d k (disarm i r)"
  shows "armed r' = (armed r)(i := None, j \<mapsto> (now + d, k))"
  using arm_armed [of now d k "disarm i r"] assms
  by (metis disarm_armed fst_conv snd_conv)

lemma rearm_old_gone:
  assumes "(j, r') = arm now d k (disarm i r)" and "i \<noteq> j"
  shows "armed r' i = None"
  using rearm [OF assms(1)] assms(2) by simp

lemma arm_then_disarm:
  assumes "wf r"
  shows "armed (disarm (fst (arm now d k r)) (snd (arm now d k r))) = armed r"
  using arm_fresh [OF assms] by (auto simp: arm_armed disarm_armed)

end

interpretation go_timers: timer_service after_func stop_timer armed_at rt_wf
  by unfold_locales (auto simp: rt_simps armed_fresh)

end
