(* ===== verification/Zone.thy ===== *)
theory Zone
  imports Prelude
begin

text \<open>
  Zone types, the values several zones set for one attribute and their resolution
  (\<open>pkg/cert/types.go\<close>, \<open>pkg/zone/zone.go\<close>), and the zone memberships of a device
  (\<open>pkg/zone/manager.go\<close>). Where the code reads the clock the operation takes \<open>now\<close>.
\<close>

section \<open>Zone types\<close>

text \<open>A \<open>ZoneType\<close> is any \<open>uint8\<close>; 0 is what a context without a zone type yields.\<close>

type_synonym zone_type = u8

definition ZoneTypeGrid :: zone_type where "ZoneTypeGrid = 1"
definition ZoneTypeLocal :: zone_type where "ZoneTypeLocal = 2"
definition ZoneTypeTest :: zone_type where "ZoneTypeTest = 3"

definition zt_priority :: "zone_type \<Rightarrow> u8" where
  "zt_priority zt = zt"

lemmas zone_type_defs = ZoneTypeGrid_def ZoneTypeLocal_def ZoneTypeTest_def zt_priority_def

section \<open>Values set by zones\<close>

record zone_value =
  zv_zone_id :: string
  zv_zone_type :: zone_type
  zv_value :: int
  zv_duration :: duration
  zv_set_at :: time
  zv_expires_at :: time

definition zv_is_expired :: "time \<Rightarrow> zone_value \<Rightarrow> bool" where
  "zv_is_expired now v = (if zv_expires_at v = zero_time then False else zv_expires_at v < now)"

definition zv_priority :: "zone_value \<Rightarrow> u8" where
  "zv_priority v = zt_priority (zv_zone_type v)"

record multi_zone_value =
  mz_values :: "(string, zone_value) gomap"
  mz_effective :: "int option"
  mz_winner :: string

definition new_multi_zone_value :: multi_zone_value where
  "new_multi_zone_value = \<lparr>mz_values = [], mz_effective = None, mz_winner = ''''\<rparr>"

definition mz_set :: "time \<Rightarrow> string \<Rightarrow> zone_type \<Rightarrow> int \<Rightarrow> duration \<Rightarrow>
    multi_zone_value \<Rightarrow> multi_zone_value" where
  "mz_set now zid zt v d m =
     m\<lparr>mz_values := gm_put zid
        \<lparr>zv_zone_id = zid, zv_zone_type = zt, zv_value = v, zv_duration = d, zv_set_at = now,
         zv_expires_at = (if d > 0 then now + d else zero_time)\<rparr> (mz_values m)\<rparr>"

definition mz_clear :: "string \<Rightarrow> multi_zone_value \<Rightarrow> multi_zone_value" where
  "mz_clear zid m = m\<lparr>mz_values := gm_del zid (mz_values m)\<rparr>"

definition mz_get :: "multi_zone_value \<Rightarrow> string \<Rightarrow> zone_value option" where
  "mz_get m zid = gm_get (mz_values m) zid"

definition mz_remove_expired :: "time \<Rightarrow> multi_zone_value \<Rightarrow> multi_zone_value" where
  "mz_remove_expired now m = m\<lparr>mz_values := gm_purge (\<lambda>_ v. zv_is_expired now v) (mz_values m)\<rparr>"

text \<open>One turn of the loop of \<open>ResolveLimits\<close>: \<open>(effectiveValue, winningZoneID)\<close>.\<close>

fun limits_step :: "int option \<times> string \<Rightarrow> string \<times> zone_value \<Rightarrow> int option \<times> string" where
  "limits_step (eff, win) (zid, v) =
     (if zv_zone_type v = ZoneTypeTest then (eff, win)
      else case eff of
        None \<Rightarrow> (Some (zv_value v), zid)
      | Some e \<Rightarrow>
          if zv_value v \<ge> 0 \<and> e \<ge> 0 then
            (if zv_value v < e then (Some (zv_value v), zid) else (eff, win))
          else if zv_value v < 0 \<and> e < 0 then
            (if zv_value v > e then (Some (zv_value v), zid) else (eff, win))
          else
            (if zv_value v \<ge> 0 \<and> e < 0 then (Some (zv_value v), zid) else (eff, win)))"

definition resolve_limits :: "time \<Rightarrow> multi_zone_value \<Rightarrow>
    multi_zone_value \<times> int option \<times> string" where
  "resolve_limits now m0 =
     (let m = mz_remove_expired now m0 in
      if length (mz_values m) = 0 then (m\<lparr>mz_effective := None, mz_winner := ''''\<rparr>, None, '''')
      else
        let (eff, win) = foldl limits_step (None, '''') (mz_values m)
        in (m\<lparr>mz_effective := eff, mz_winner := win\<rparr>, eff, win))"

fun setpoints_step :: "int option \<times> string \<times> u8 \<Rightarrow> string \<times> zone_value \<Rightarrow>
    int option \<times> string \<times> u8" where
  "setpoints_step (eff, win, prio) (zid, v) =
     (if zv_zone_type v = ZoneTypeTest then (eff, win, prio)
      else if zv_priority v < prio then (Some (zv_value v), zid, zv_priority v)
      else (eff, win, prio))"

definition resolve_setpoints :: "time \<Rightarrow> multi_zone_value \<Rightarrow>
    multi_zone_value \<times> int option \<times> string" where
  "resolve_setpoints now m0 =
     (let m = mz_remove_expired now m0 in
      if length (mz_values m) = 0 then (m\<lparr>mz_effective := None, mz_winner := ''''\<rparr>, None, '''')
      else
        let (eff, win, prio) = foldl setpoints_step (None, '''', 255) (mz_values m)
        in (m\<lparr>mz_effective := eff, mz_winner := win\<rparr>, eff, win))"

definition mz_effective_value :: "multi_zone_value \<Rightarrow> int option \<times> string" where
  "mz_effective_value m = (mz_effective m, mz_winner m)"

section \<open>Lemmas on values\<close>

definition mz_wf :: "multi_zone_value \<Rightarrow> bool" where
  "mz_wf m \<longleftrightarrow> gm_wf (mz_values m)"

lemma mz_wf_new [simp]: "mz_wf new_multi_zone_value"
  by (simp add: mz_wf_def new_multi_zone_value_def)

lemma mz_wf_set [simp]: "mz_wf m \<Longrightarrow> mz_wf (mz_set now zid zt v d m)"
  by (simp add: mz_wf_def mz_set_def)

lemma mz_wf_clear [simp]: "mz_wf m \<Longrightarrow> mz_wf (mz_clear zid m)"
  by (simp add: mz_wf_def mz_clear_def)

lemma mz_wf_remove_expired [simp]: "mz_wf m \<Longrightarrow> mz_wf (mz_remove_expired now m)"
  by (simp add: mz_wf_def mz_remove_expired_def)

lemma mz_wf_resolve_limits [simp]: "mz_wf m \<Longrightarrow> mz_wf (fst (resolve_limits now m))"
  by (simp add: mz_wf_def resolve_limits_def Let_def mz_remove_expired_def split: prod.split)

lemma mz_get_clear [simp]: "mz_get (mz_clear zid m) = (mz_get m)(zid := None)"
  by (auto simp: mz_get_def mz_clear_def gomap_simps fun_eq_iff)

lemma mz_get_remove_expired:
  "mz_wf m \<Longrightarrow> mz_get (mz_remove_expired now m) zid
     = (case mz_get m zid of None \<Rightarrow> None | Some v \<Rightarrow> if zv_is_expired now v then None else Some v)"
  by (simp add: mz_get_def mz_remove_expired_def gm_get_purge mz_wf_def)

text \<open>The values that count for a resolution: not expired, not of a TEST zone.\<close>

definition live_values :: "time \<Rightarrow> multi_zone_value \<Rightarrow> (string \<times> zone_value) set" where
  "live_values now m =
     {(zid, v). mz_get m zid = Some v \<and> \<not> zv_is_expired now v \<and> zv_zone_type v \<noteq> ZoneTypeTest}"

lemma live_values_set:
  "mz_wf m \<Longrightarrow> live_values now m
     = {(zid, v) \<in> set (mz_values (mz_remove_expired now m)). zv_zone_type v \<noteq> ZoneTypeTest}"
  by (auto simp: live_values_def mz_get_def mz_wf_def mz_remove_expired_def gm_set_purge gm_get_in)

text \<open>
  What "most restrictive" means: a consumption limit (not negative) before any production
  limit, then the value nearer to zero.
\<close>

definition more_restrictive :: "int \<Rightarrow> int \<Rightarrow> bool" where
  "more_restrictive a b \<longleftrightarrow>
     (if a \<ge> 0 \<and> b \<ge> 0 then a \<le> b else if a < 0 \<and> b < 0 then b \<le> a else a \<ge> 0)"

lemma more_restrictive_refl [simp]: "more_restrictive a a"
  by (simp add: more_restrictive_def)

lemma more_restrictive_trans: "more_restrictive a b \<Longrightarrow> more_restrictive b c \<Longrightarrow> more_restrictive a c"
  by (auto simp: more_restrictive_def split: if_splits)

lemma more_restrictive_antisym: "more_restrictive a b \<Longrightarrow> more_restrictive b a \<Longrightarrow> a = b"
  by (auto simp: more_restrictive_def split: if_splits)

lemma more_restrictive_total: "more_restrictive a b \<or> more_restrictive b a"
  by (auto simp: more_restrictive_def)

definition limits_ok :: "int option \<times> string \<Rightarrow> (string \<times> zone_value) set \<Rightarrow> bool" where
  "limits_ok acc C \<longleftrightarrow>
     (case fst acc of
        None \<Rightarrow> C = {} \<and> snd acc = ''''
      | Some e \<Rightarrow> (\<exists>v. (snd acc, v) \<in> C \<and> zv_value v = e) \<and>
                  (\<forall>(zid, v) \<in> C. more_restrictive e (zv_value v)))"

lemma limits_step_ok:
  assumes "limits_ok acc C"
  shows "limits_ok (limits_step acc (zid, v))
           (if zv_zone_type v = ZoneTypeTest then C else insert (zid, v) C)"
proof -
  obtain eff win where acc: "acc = (eff, win)" by (cases acc)
  show ?thesis
  proof (cases eff)
    case None
    with assms show ?thesis by (auto simp: acc limits_ok_def)
  next
    case (Some e)
    from assms have all: "\<And>zid' v'. (zid', v') \<in> C \<Longrightarrow> more_restrictive e (zv_value v')"
      by (auto simp: acc Some limits_ok_def)
    have all': "\<forall>(zid', v') \<in> C. more_restrictive (zv_value v) (zv_value v')"
      if "more_restrictive (zv_value v) e"
      using all more_restrictive_trans [OF that] by blast
    from assms Some all' show ?thesis
      by (auto simp: acc limits_ok_def more_restrictive_def split: if_splits)
  qed
qed

lemma limits_fold_ok:
  "limits_ok acc C \<Longrightarrow>
   limits_ok (foldl limits_step acc es) (C \<union> {(zid, v) \<in> set es. zv_zone_type v \<noteq> ZoneTypeTest})"
proof (induction es arbitrary: acc C)
  case Nil
  then show ?case by simp
next
  case (Cons e es)
  obtain zid v where e: "e = (zid, v)" by (cases e)
  let ?C = "if zv_zone_type v = ZoneTypeTest then C else insert (zid, v) C"
  from Cons.prems have "limits_ok (limits_step acc e) ?C" unfolding e by (rule limits_step_ok)
  from Cons.IH [OF this]
  have "limits_ok (foldl limits_step (limits_step acc e) es)
     (?C \<union> {(zid, v) \<in> set es. zv_zone_type v \<noteq> ZoneTypeTest})" .
  moreover have "?C \<union> {(zid, v) \<in> set es. zv_zone_type v \<noteq> ZoneTypeTest}
     = C \<union> {(zid, v) \<in> set (e # es). zv_zone_type v \<noteq> ZoneTypeTest}"
    by (auto simp: e)
  ultimately show ?case by simp
qed

lemma resolve_limits_ok:
  assumes "mz_wf m"
  shows "limits_ok (snd (resolve_limits now m)) (live_values now m)"
proof (cases "mz_values (mz_remove_expired now m) = []")
  case True
  then show ?thesis
    by (simp add: resolve_limits_def live_values_set [OF assms] limits_ok_def)
next
  case False
  have "limits_ok (None, '''') {}" by (simp add: limits_ok_def)
  from limits_fold_ok [OF this, of "mz_values (mz_remove_expired now m)"] False
  show ?thesis
    by (cases "foldl limits_step (None, '''') (mz_values (mz_remove_expired now m))")
      (simp add: resolve_limits_def live_values_set [OF assms] Let_def)
qed

lemma limits_ok_unique:
  assumes "limits_ok a C" and "limits_ok b C"
  shows "fst a = fst b"
proof (cases "fst a")
  case None
  with assms show ?thesis by (auto simp: limits_ok_def split: option.splits)
next
  case (Some e)
  with assms obtain f where f: "fst b = Some f"
    by (cases "fst b") (auto simp: limits_ok_def)
  from assms Some f have "more_restrictive e f" and "more_restrictive f e"
    by (auto simp: limits_ok_def)
  with Some f show ?thesis by (simp add: more_restrictive_antisym)
qed

section \<open>Zone memberships\<close>

text \<open>
  \<open>zone.Manager\<close>. Callbacks are fields that hold whether one is set; a call is reported
  in the output of the operation.
\<close>

datatype zone_error = ErrZoneNotFound | ErrZoneExists | ErrZoneTypeExists | ErrMaxZonesExceeded

definition MaxZones :: nat where "MaxZones = 3"

record zone =
  zn_id :: string
  zn_type :: zone_type
  zn_connected :: bool
  zn_last_seen :: time
  zn_commissioned_at :: time

definition zn_priority :: "zone \<Rightarrow> u8" where
  "zn_priority z = zt_priority (zn_type z)"

datatype zone_event =
    ZoneAdded zone
  | ZoneRemoved string
  | ZoneConnect string
  | ZoneDisconnect string

record zone_manager =
  zm_zones :: "(string, zone) gomap"
  zm_on_added :: bool
  zm_on_removed :: bool
  zm_on_connect :: bool
  zm_on_disconnect :: bool

definition new_zone_manager :: zone_manager where
  "new_zone_manager = \<lparr>zm_zones = [], zm_on_added = False, zm_on_removed = False,
     zm_on_connect = False, zm_on_disconnect = False\<rparr>"

definition add_zone :: "time \<Rightarrow> string \<Rightarrow> zone_type \<Rightarrow> zone_manager \<Rightarrow>
    zone_manager \<times> zone_error option \<times> zone_event list" where
  "add_zone now zid zt m =
     (if gm_get (zm_zones m) zid \<noteq> None then (m, Some ErrZoneExists, [])
      else if list_ex (\<lambda>(_, z). zn_type z = zt) (zm_zones m) then (m, Some ErrZoneTypeExists, [])
      else if length (zm_zones m) \<ge> MaxZones then (m, Some ErrMaxZonesExceeded, [])
      else
        let z = \<lparr>zn_id = zid, zn_type = zt, zn_connected = False, zn_last_seen = zero_time,
                 zn_commissioned_at = now\<rparr>
        in (m\<lparr>zm_zones := gm_put zid z (zm_zones m)\<rparr>, None,
            if zm_on_added m then [ZoneAdded z] else []))"

definition remove_zone :: "string \<Rightarrow> zone_manager \<Rightarrow>
    zone_manager \<times> zone_error option \<times> zone_event list" where
  "remove_zone zid m =
     (case gm_get (zm_zones m) zid of
        None \<Rightarrow> (m, Some ErrZoneNotFound, [])
      | Some _ \<Rightarrow> (m\<lparr>zm_zones := gm_del zid (zm_zones m)\<rparr>, None,
                    if zm_on_removed m then [ZoneRemoved zid] else []))"

definition get_zone :: "zone_manager \<Rightarrow> string \<Rightarrow> zone_error + zone" where
  "get_zone m zid =
     (case gm_get (zm_zones m) zid of None \<Rightarrow> Inl ErrZoneNotFound | Some z \<Rightarrow> Inr z)"

definition has_zone :: "zone_manager \<Rightarrow> string \<Rightarrow> bool" where
  "has_zone m zid \<longleftrightarrow> gm_get (zm_zones m) zid \<noteq> None"

definition list_zones :: "zone_manager \<Rightarrow> string list" where
  "list_zones m = map fst (zm_zones m)"

definition zone_count :: "zone_manager \<Rightarrow> nat" where
  "zone_count m = length (zm_zones m)"

definition all_zones :: "zone_manager \<Rightarrow> zone list" where
  "all_zones m = map snd (zm_zones m)"

definition set_connected :: "time \<Rightarrow> string \<Rightarrow> zone_manager \<Rightarrow>
    zone_manager \<times> zone_error option \<times> zone_event list" where
  "set_connected now zid m =
     (case gm_get (zm_zones m) zid of
        None \<Rightarrow> (m, Some ErrZoneNotFound, [])
      | Some z \<Rightarrow>
          (m\<lparr>zm_zones := gm_put zid (z\<lparr>zn_connected := True, zn_last_seen := now\<rparr>) (zm_zones m)\<rparr>,
           None, if zm_on_connect m then [ZoneConnect zid] else []))"

definition set_disconnected :: "string \<Rightarrow> zone_manager \<Rightarrow>
    zone_manager \<times> zone_error option \<times> zone_event list" where
  "set_disconnected zid m =
     (case gm_get (zm_zones m) zid of
        None \<Rightarrow> (m, Some ErrZoneNotFound, [])
      | Some z \<Rightarrow>
          (m\<lparr>zm_zones := gm_put zid (z\<lparr>zn_connected := False\<rparr>) (zm_zones m)\<rparr>,
           None, if zm_on_disconnect m then [ZoneDisconnect zid] else []))"

definition update_last_seen :: "time \<Rightarrow> string \<Rightarrow> zone_manager \<Rightarrow>
    zone_manager \<times> zone_error option \<times> zone_event list" where
  "update_last_seen now zid m =
     (case gm_get (zm_zones m) zid of
        None \<Rightarrow> (m, Some ErrZoneNotFound, [])
      | Some z \<Rightarrow> (m\<lparr>zm_zones := gm_put zid (z\<lparr>zn_last_seen := now\<rparr>) (zm_zones m)\<rparr>, None, []))"

definition connected_zones :: "zone_manager \<Rightarrow> string list" where
  "connected_zones m = map fst (filter (\<lambda>(_, z). zn_connected z) (zm_zones m))"

fun highest_step :: "zone option \<Rightarrow> string \<times> zone \<Rightarrow> zone option" where
  "highest_step None (_, z) = Some z"
| "highest_step (Some h) (_, z) = (if zn_priority z < zn_priority h then Some z else Some h)"

definition highest_priority_zone :: "zone_manager \<Rightarrow> zone option" where
  "highest_priority_zone m = foldl highest_step None (zm_zones m)"

definition highest_priority_connected_zone :: "zone_manager \<Rightarrow> zone option" where
  "highest_priority_connected_zone m =
     foldl (\<lambda>h e. if \<not> zn_connected (snd e) then h else highest_step h e) None (zm_zones m)"

definition can_remove_zone :: "zone_manager \<Rightarrow> zone_type \<Rightarrow> string \<Rightarrow> bool" where
  "can_remove_zone m requester target =
     (case gm_get (zm_zones m) target of
        None \<Rightarrow> False
      | Some z \<Rightarrow> zt_priority requester < zn_priority z)"

text \<open>The operations that change the memberships, as one step.\<close>

datatype zone_op =
    AddZone time string zone_type
  | RemoveZone string
  | SetConnected time string
  | SetDisconnected string
  | UpdateLastSeen time string
  | OnZoneAdded bool
  | OnZoneRemoved bool
  | OnConnect bool
  | OnDisconnect bool

fun zone_step :: "zone_manager \<Rightarrow> zone_op \<Rightarrow> zone_manager" where
  "zone_step m (AddZone now zid zt) = fst (add_zone now zid zt m)"
| "zone_step m (RemoveZone zid) = fst (remove_zone zid m)"
| "zone_step m (SetConnected now zid) = fst (set_connected now zid m)"
| "zone_step m (SetDisconnected zid) = fst (set_disconnected zid m)"
| "zone_step m (UpdateLastSeen now zid) = fst (update_last_seen now zid m)"
| "zone_step m (OnZoneAdded b) = m\<lparr>zm_on_added := b\<rparr>"
| "zone_step m (OnZoneRemoved b) = m\<lparr>zm_on_removed := b\<rparr>"
| "zone_step m (OnConnect b) = m\<lparr>zm_on_connect := b\<rparr>"
| "zone_step m (OnDisconnect b) = m\<lparr>zm_on_disconnect := b\<rparr>"

section \<open>The membership invariant\<close>

text \<open>
  Every entry is filed under its own id, no two memberships have the same type, and there
  are at most \<open>MaxZones\<close> of them.
\<close>

definition zm_inv :: "zone_manager \<Rightarrow> bool" where
  "zm_inv m \<longleftrightarrow>
     gm_wf (zm_zones m) \<and>
     (\<forall>(zid, z) \<in> set (zm_zones m). zn_id z = zid) \<and>
     distinct (map (\<lambda>(_, z). zn_type z) (zm_zones m)) \<and>
     length (zm_zones m) \<le> MaxZones"

lemma gm_put_same_type:
  assumes "gm_wf m" and "gm_get m k = Some z" and "f z' = f z"
  shows "map (\<lambda>(_, x). f x) (gm_put k z' m) = map (\<lambda>(_, x). f x) m"
  using assms by (induction m) (auto simp: gm_wf_def split: if_splits)

lemma gm_put_old_length: "gm_get m k = Some z \<Longrightarrow> length (gm_put k z' m) = length m"
  by (induction m) (auto split: if_splits)

lemma zm_inv_put:
  assumes "zm_inv m" and "gm_get (zm_zones m) zid = Some z"
    and "zn_id z' = zn_id z" and "zn_type z' = zn_type z"
  shows "zm_inv (m\<lparr>zm_zones := gm_put zid z' (zm_zones m)\<rparr>)"
proof -
  have "zn_id z' = zid"
    using assms by (auto simp: zm_inv_def dest: map_of_SomeD)
  with assms show ?thesis
    using gm_set_put_subset [of zid z' "zm_zones m"]
    by (auto simp: zm_inv_def gm_put_same_type [where f = zn_type] gm_put_old_length)
qed

lemma zm_inv_add: "zm_inv m \<Longrightarrow> zm_inv (fst (add_zone now zid zt m))"
  by (auto simp: add_zone_def zm_inv_def Let_def gm_put_new list_ex_iff gm_wf_def
      map_of_eq_None_iff split: if_splits)

lemma zm_inv_remove: "zm_inv m \<Longrightarrow> zm_inv (fst (remove_zone zid m))"
  using length_delete_le [of zid "zm_zones m"]
  by (auto simp: remove_zone_def zm_inv_def gm_set_del AList.delete_eq
      intro!: distinct_map_filter gm_wf_filter order_trans [OF length_filter_le]
      split: option.splits)

lemma zm_inv_step: "zm_inv m \<Longrightarrow> zm_inv (zone_step m op)"
proof (cases op)
  case (AddZone now zid zt)
  assume "zm_inv m"
  then show ?thesis by (simp add: AddZone zm_inv_add)
next
  case (RemoveZone zid)
  assume "zm_inv m"
  then show ?thesis by (simp add: RemoveZone zm_inv_remove)
qed (auto simp: set_connected_def set_disconnected_def update_last_seen_def zm_inv_put
    split: option.splits, auto simp: zm_inv_def)

interpretation zone_machine: invariant_machine zone_step zm_inv
  by unfold_locales (rule zm_inv_step)

lemma zm_inv_new [simp]: "zm_inv new_zone_manager"
  by (simp add: zm_inv_def new_zone_manager_def)

lemma highest_fold:
  "foldl highest_step acc es = Some h \<Longrightarrow>
     (h \<in> snd ` set es \<or> acc = Some h) \<and>
     (\<forall>z \<in> snd ` set es. zn_priority h \<le> zn_priority z) \<and>
     (\<forall>a. acc = Some a \<longrightarrow> zn_priority h \<le> zn_priority a)"
proof (induction es arbitrary: acc)
  case Nil
  then show ?case by simp
next
  case (Cons e es)
  obtain i z where e: "e = (i, z)" by (cases e)
  from Cons.prems have "foldl highest_step (highest_step acc e) es = Some h" by simp
  note IH = Cons.IH [OF this]
  show ?case
    using IH by (cases acc) (auto simp: e split: if_splits)
qed

lemma highest_fold_None: "foldl highest_step acc es = None \<longleftrightarrow> acc = None \<and> es = []"
proof (induction es arbitrary: acc)
  case (Cons e es)
  then show ?case by (cases acc; cases e) auto
qed simp

section \<open>Properties\<close>

text \<open>C9. The limit resolution picks a value some zone really set: the effective limit is a live
  value (not expired, not of a TEST zone) of the zone reported as the winner, no live value
  is more restrictive, and there is no effective limit exactly when no value is live.\<close>

theorem resolve_limits_most_restrictive:
  assumes "mz_wf m" and "resolve_limits now m = (m', eff, win)"
  shows "(eff = None \<longleftrightarrow> live_values now m = {}) \<and>
     mz_effective_value m' = (eff, win) \<and>
     (\<forall>e. eff = Some e \<longrightarrow>
        (\<exists>v. (win, v) \<in> live_values now m \<and> zv_value v = e) \<and>
        (\<forall>(zid, v) \<in> live_values now m. more_restrictive e (zv_value v)))"
proof -
  have "mz_effective_value m' = (eff, win)"
    using assms(2)
    by (auto simp: resolve_limits_def Let_def mz_effective_value_def split: if_splits prod.splits)
  with resolve_limits_ok [OF assms(1), of now] assms(2) show ?thesis
    by (auto simp: limits_ok_def split: option.splits)
qed

definition demo_values :: multi_zone_value where
  "demo_values =
     mz_set 10 ''test'' ZoneTypeTest 100 0
       (mz_set 10 ''ems'' ZoneTypeLocal 3000 0
         (mz_set 10 ''dso'' ZoneTypeGrid 5000 second new_multi_zone_value))"

lemma mz_wf_demo [simp]: "mz_wf demo_values"
  by (simp add: demo_values_def)

lemma resolve_demo:
  "resolve_limits 20 demo_values
     = (demo_values\<lparr>mz_effective := Some 3000, mz_winner := ''ems''\<rparr>, Some 3000, ''ems'')"
  by (simp add: demo_values_def resolve_limits_def mz_remove_expired_def mz_set_def gm_purge_def
      zv_is_expired_def new_multi_zone_value_def zone_type_defs Let_def)

theorem resolve_limits_most_restrictive_witness:
  "(\<exists>v. (''ems'', v) \<in> live_values 20 demo_values \<and> zv_value v = 3000)"
  using resolve_limits_most_restrictive [OF mz_wf_demo resolve_demo] by simp

text \<open>The limit resolution does not depend on the order in which Go ranges over the map of
  values: two maps with the same entries resolve to the same effective limit.\<close>

theorem resolve_limits_order_irrelevant:
  assumes "mz_wf m" and "mz_wf n" and "mz_get m = mz_get n"
  shows "fst (snd (resolve_limits now m)) = fst (snd (resolve_limits now n))"
proof -
  have "live_values now m = live_values now n"
    by (simp add: live_values_def assms(3))
  then show ?thesis
    using limits_ok_unique resolve_limits_ok [OF assms(1)] resolve_limits_ok [OF assms(2)]
    by metis
qed

theorem resolve_limits_order_irrelevant_witness:
  "fst (snd (resolve_limits 20 demo_values))
     = fst (snd (resolve_limits 20 (demo_values\<lparr>mz_values := rev (mz_values demo_values)\<rparr>)))"
proof (rule resolve_limits_order_irrelevant)
  show "mz_wf demo_values" by simp
  show "mz_wf (demo_values\<lparr>mz_values := rev (mz_values demo_values)\<rparr>)"
    by (simp add: demo_values_def mz_wf_def gm_wf_def mz_set_def new_multi_zone_value_def)
  show "mz_get demo_values = mz_get (demo_values\<lparr>mz_values := rev (mz_values demo_values)\<rparr>)"
    by (simp add: demo_values_def mz_get_def fun_eq_iff mz_set_def new_multi_zone_value_def)
qed

lemma setpoints_fold:
  "foldl setpoints_step (eff, win, p) es = (eff', win', p') \<Longrightarrow>
     (eff', win', p') = (eff, win, p) \<and>
       (\<forall>(zid, v) \<in> set es. zv_zone_type v \<noteq> ZoneTypeTest \<longrightarrow> p \<le> zv_priority v) \<or>
     (\<exists>v. (win', v) \<in> set es \<and> zv_zone_type v \<noteq> ZoneTypeTest \<and> zv_priority v = p' \<and>
        p' < p \<and> eff' = Some (zv_value v)) \<and>
       (\<forall>(zid, v) \<in> set es. zv_zone_type v \<noteq> ZoneTypeTest \<longrightarrow> p' \<le> zv_priority v)"
proof (induction es arbitrary: eff win p)
  case Nil
  then show ?case by simp
next
  case (Cons e es)
  obtain i z where e: "e = (i, z)" by (cases e)
  obtain a b c where step: "setpoints_step (eff, win, p) e = (a, b, c)"
    by (cases "setpoints_step (eff, win, p) e")
  with Cons.prems have "foldl setpoints_step (a, b, c) es = (eff', win', p')" by simp
  note IH = Cons.IH [OF this]
  from IH step show ?case
    by (auto simp: e split: if_splits)
qed

text \<open>The setpoint resolution follows the zone priority: the effective setpoint is the value of a
  live zone, and no live zone has a higher priority (a smaller number).\<close>

theorem resolve_setpoints_highest_priority:
  assumes "mz_wf m" and "resolve_setpoints now m = (m', Some e, win)"
  shows "\<exists>v. (win, v) \<in> live_values now m \<and> zv_value v = e \<and>
     (\<forall>(zid, w) \<in> live_values now m. zv_priority v \<le> zv_priority w)"
proof -
  let ?es = "mz_values (mz_remove_expired now m)"
  obtain p where "foldl setpoints_step (None, '''', 255) ?es = (Some e, win, p)"
    using assms(2)
    by (auto simp: resolve_setpoints_def Let_def split: if_splits prod.splits)
  from setpoints_fold [OF this] show ?thesis
    by (auto simp: live_values_set [OF assms(1)])
qed

theorem resolve_setpoints_highest_priority_witness:
  "\<exists>v. (''dso'', v) \<in> live_values 20 demo_values \<and> zv_value v = 5000 \<and>
     (\<forall>(zid, w) \<in> live_values 20 demo_values. zv_priority v \<le> zv_priority w)"
proof (rule resolve_setpoints_highest_priority [OF mz_wf_demo])
  show "resolve_setpoints 20 demo_values
     = (demo_values\<lparr>mz_effective := Some 5000, mz_winner := ''dso''\<rparr>, Some 5000, ''dso'')"
    by (simp add: demo_values_def resolve_setpoints_def mz_remove_expired_def mz_set_def
        gm_purge_def zv_is_expired_def new_multi_zone_value_def zone_type_defs Let_def
        zv_priority_def)
qed

text \<open>The types a device accepts: GRID, LOCAL and TEST.\<close>

definition valid_zone_type :: "zone_type \<Rightarrow> bool" where
  "valid_zone_type zt \<longleftrightarrow> zt = ZoneTypeGrid \<or> zt = ZoneTypeLocal \<or> zt = ZoneTypeTest"

fun valid_op :: "zone_op \<Rightarrow> bool" where
  "valid_op (AddZone _ _ zt) = valid_zone_type zt"
| "valid_op _ = True"

definition zm_typed :: "zone_manager \<Rightarrow> bool" where
  "zm_typed m \<longleftrightarrow> (\<forall>(zid, z) \<in> set (zm_zones m). valid_zone_type (zn_type z))"

lemma zm_typed_step: "zm_typed m \<Longrightarrow> valid_op op \<Longrightarrow> zm_typed (zone_step m op)"
proof (cases op)
  case (AddZone now zid zt)
  assume "zm_typed m" and "valid_op op"
  then show ?thesis
    using gm_set_put_subset
    by (fastforce simp: AddZone zm_typed_def add_zone_def Let_def)
qed (auto simp: zm_typed_def remove_zone_def set_connected_def set_disconnected_def
    update_last_seen_def gm_set_del split: option.splits
    dest!: subsetD [OF gm_set_put_subset] map_of_SomeD)

lemma zm_typed_run: "zm_typed m \<Longrightarrow> list_all valid_op ops \<Longrightarrow> zm_typed (foldl zone_step m ops)"
  by (induction ops arbitrary: m) (auto simp: zm_typed_step)

lemma three_types_full:
  assumes "zm_inv m" and "zm_typed m" and "length (zm_zones m) \<ge> MaxZones" and "valid_zone_type zt"
  shows "list_ex (\<lambda>(_, z). zn_type z = zt) (zm_zones m)"
proof -
  let ?ts = "map (\<lambda>(_, z). zn_type z) (zm_zones m)"
  let ?V = "{ZoneTypeGrid, ZoneTypeLocal, ZoneTypeTest}"
  have sub: "set ?ts \<subseteq> ?V"
    using assms(2) by (auto simp: zm_typed_def valid_zone_type_def)
  have "card (set ?ts) = length (zm_zones m)"
    using assms(1) distinct_card [of ?ts] by (simp add: zm_inv_def)
  moreover have "card ?V \<le> 3" by (simp add: card_insert_le_m1)
  ultimately have "set ?ts = ?V"
    using sub assms(3) card_seteq [of ?V "set ?ts"] by (simp add: MaxZones_def)
  moreover have "zt \<in> ?V" using assms(4) by (auto simp: valid_zone_type_def)
  ultimately have "zt \<in> set ?ts" by blast
  then show ?thesis by (auto simp: list_ex_iff)
qed

text \<open>A device never holds two memberships of one type nor more than three of them, whatever
  operations run, and with the three zone types of the protocol the capacity error of
  \<open>AddZone\<close> cannot occur: a full device already has a zone of the type asked for.\<close>

theorem zone_memberships_bounded:
  assumes "list_all valid_op ops" and "valid_zone_type zt"
  shows "zm_inv (foldl zone_step new_zone_manager ops) \<and>
     fst (snd (add_zone now zid zt (foldl zone_step new_zone_manager ops))) \<noteq> Some ErrMaxZonesExceeded"
proof -
  let ?m = "foldl zone_step new_zone_manager ops"
  have inv: "zm_inv ?m" by (rule zone_machine.run_inv) simp
  have "zm_typed new_zone_manager" by (simp add: zm_typed_def new_zone_manager_def)
  then have "zm_typed ?m" using assms(1) by (rule zm_typed_run)
  with inv three_types_full [OF inv _ _ assms(2)] show ?thesis
    by (auto simp: add_zone_def Let_def)
qed

theorem zone_memberships_bounded_witness:
  "fst (snd (add_zone 4 ''d'' ZoneTypeLocal (foldl zone_step new_zone_manager
      [AddZone 1 ''a'' ZoneTypeGrid, AddZone 2 ''b'' ZoneTypeLocal, AddZone 3 ''c'' ZoneTypeTest])))
     \<noteq> Some ErrMaxZonesExceeded"
  by (rule conjunct2 [OF zone_memberships_bounded]) (simp_all add: valid_zone_type_def)

text \<open>Priority is a strict order on the members of a device: the zone that
  \<open>HighestPriorityZone\<close> returns is a member, it may remove every other member, and no
  other member may remove it.\<close>

theorem highest_priority_zone_dominates:
  assumes "zm_inv m" and "highest_priority_zone m = Some h"
  shows "h \<in> set (all_zones m) \<and>
     (\<forall>z \<in> set (all_zones m). z \<noteq> h \<longrightarrow>
        can_remove_zone m (zn_type h) (zn_id z) \<and> \<not> can_remove_zone m (zn_type z) (zn_id h))"
proof -
  from highest_fold [OF assms(2) [unfolded highest_priority_zone_def]]
  have mem: "h \<in> set (all_zones m)" and le: "\<forall>z \<in> set (all_zones m). zn_priority h \<le> zn_priority z"
    by (auto simp: all_zones_def)
  have get: "gm_get (zm_zones m) (zn_id z) = Some z" if "z \<in> set (all_zones m)" for z
    using that assms(1) by (auto simp: all_zones_def zm_inv_def gm_wf_def)
  have inj: "zn_type z \<noteq> zn_type h" if "z \<in> set (all_zones m)" and "z \<noteq> h" for z
  proof -
    have "inj_on (\<lambda>(_, z). zn_type z) (set (zm_zones m))"
      using assms(1) by (simp add: zm_inv_def distinct_map)
    with that mem show ?thesis by (fastforce simp: all_zones_def inj_on_def)
  qed
  have "can_remove_zone m (zn_type h) (zn_id z) \<and> \<not> can_remove_zone m (zn_type z) (zn_id h)"
    if z: "z \<in> set (all_zones m)" "z \<noteq> h" for z
  proof -
    from le z(1) inj [OF z] have "zn_type h < zn_type z"
      by (auto simp: zn_priority_def zt_priority_def order.strict_iff_order)
    then show ?thesis
      by (simp add: can_remove_zone_def zn_priority_def zt_priority_def get mem z(1))
  qed
  with mem show ?thesis by blast
qed

definition demo_manager :: zone_manager where
  "demo_manager = foldl zone_step new_zone_manager
     [AddZone 1 ''b'' ZoneTypeLocal, AddZone 2 ''a'' ZoneTypeGrid]"

theorem highest_priority_zone_dominates_witness:
  "\<not> can_remove_zone demo_manager ZoneTypeLocal ''a''"
proof -
  have inv: "zm_inv demo_manager"
    unfolding demo_manager_def by (rule zone_machine.run_inv) simp
  let ?h = "\<lparr>zn_id = ''a'', zn_type = ZoneTypeGrid, zn_connected = False,
             zn_last_seen = 0, zn_commissioned_at = 2\<rparr>"
  have h: "highest_priority_zone demo_manager = Some ?h"
    by (simp add: demo_manager_def highest_priority_zone_def add_zone_def new_zone_manager_def
        zone_type_defs MaxZones_def zn_priority_def Let_def)
  from highest_priority_zone_dominates [OF inv h] show ?thesis
    by (simp add: demo_manager_def all_zones_def add_zone_def new_zone_manager_def
        zone_type_defs MaxZones_def Let_def)
qed

end
