(* ===== verification/DurationTimer.thy ===== *)
theory DurationTimer
  imports GoTime
begin

text \<open>
  The duration timers of commands (\<open>pkg/duration/timer.go\<close>): one timer per zone index and
  command type, kept by a manager on top of the timers of the runtime (theory GoTime). The
  function a timer runs is \<open>expireTimer(key)\<close>, so the runtime's payload is the key.
  The command value is of any type, as the code's \<open>any\<close>.
\<close>

section \<open>Data\<close>

datatype duration_error = ErrTimerNotFound | ErrInvalidDuration

definition MinDuration :: duration where "MinDuration = 1 * second"
definition MaxDuration :: duration where "MaxDuration = 24 * hour"

datatype command_type =
    CmdLimitConsumption
  | CmdLimitProduction
  | CmdCurrentLimitConsumption
  | CmdCurrentLimitProduction
  | CmdSetpointConsumption
  | CmdSetpointProduction
  | CmdCurrentSetpointConsumption
  | CmdCurrentSetpointProduction
  | CmdPause

type_synonym timer_key = "u8 \<times> command_type"

record 'v dur_timer =
  dt_key :: timer_key
  dt_start_time :: time
  dt_duration :: duration
  dt_value :: 'v
  dt_timer :: nat

definition dt_expires_at :: "'v dur_timer \<Rightarrow> time" where
  "dt_expires_at t = dt_start_time t + dt_duration t"

definition dt_remaining_time :: "time \<Rightarrow> 'v dur_timer \<Rightarrow> duration" where
  "dt_remaining_time now t =
     (let remaining = dt_duration t - (now - dt_start_time t)
      in if remaining < 0 then 0 else remaining)"

definition dt_is_expired :: "time \<Rightarrow> 'v dur_timer \<Rightarrow> bool" where
  "dt_is_expired now t \<longleftrightarrow> now - dt_start_time t \<ge> dt_duration t"

record 'v dur_manager =
  dm_timers :: "(timer_key, 'v dur_timer) gomap"
  dm_on_expiry :: bool
  dm_rt :: "timer_key runtime"

definition new_dur_manager :: "'v dur_manager" where
  "new_dur_manager = \<lparr>dm_timers = [], dm_on_expiry = False, dm_rt = new_runtime\<rparr>"

section \<open>Operations\<close>

definition dm_set_timer :: "time \<Rightarrow> u8 \<Rightarrow> command_type \<Rightarrow> duration \<Rightarrow> 'v \<Rightarrow>
    'v dur_manager \<Rightarrow> 'v dur_manager \<times> duration_error option" where
  "dm_set_timer now z c d v m =
     (if d < MinDuration then (m, Some ErrInvalidDuration)
      else if d > MaxDuration then (m, Some ErrInvalidDuration)
      else
        let key = (z, c);
            rt = stop_opt (map_option dt_timer (gm_get (dm_timers m) key)) (dm_rt m);
            (i, rt') = after_func now d key rt;
            t = \<lparr>dt_key = key, dt_start_time = now, dt_duration = d, dt_value = v, dt_timer = i\<rparr>
        in (m\<lparr>dm_timers := gm_put key t (dm_timers m), dm_rt := rt'\<rparr>, None))"

definition dm_cancel_timer :: "u8 \<Rightarrow> command_type \<Rightarrow> 'v dur_manager \<Rightarrow>
    'v dur_manager \<times> duration_error option" where
  "dm_cancel_timer z c m =
     (case gm_get (dm_timers m) (z, c) of
        None \<Rightarrow> (m, Some ErrTimerNotFound)
      | Some t \<Rightarrow> (m\<lparr>dm_timers := gm_del (z, c) (dm_timers m),
                      dm_rt := stop_timer (dt_timer t) (dm_rt m)\<rparr>, None))"

text \<open>The loop over the timers stops and deletes those of the zone.\<close>

definition dm_cancel_zone_timers :: "u8 \<Rightarrow> 'v dur_manager \<Rightarrow> 'v dur_manager" where
  "dm_cancel_zone_timers z m =
     m\<lparr>dm_timers := gm_purge (\<lambda>k _. fst k = z) (dm_timers m),
       dm_rt := foldl (\<lambda>rt (k, t). if fst k = z then stop_timer (dt_timer t) rt else rt)
                  (dm_rt m) (dm_timers m)\<rparr>"

definition dm_get_timer :: "'v dur_manager \<Rightarrow> u8 \<Rightarrow> command_type \<Rightarrow> 'v dur_timer option" where
  "dm_get_timer m z c = gm_get (dm_timers m) (z, c)"

definition dm_get_zone_timers :: "'v dur_manager \<Rightarrow> u8 \<Rightarrow> 'v dur_timer list" where
  "dm_get_zone_timers m z = map snd (filter (\<lambda>(k, _). fst k = z) (dm_timers m))"

definition dm_count :: "'v dur_manager \<Rightarrow> nat" where
  "dm_count m = length (dm_timers m)"

definition dm_set_on_expiry :: "bool \<Rightarrow> 'v dur_manager \<Rightarrow> 'v dur_manager" where
  "dm_set_on_expiry b m = m\<lparr>dm_on_expiry := b\<rparr>"

text \<open>\<open>expireTimer\<close>: the callback, if one is made, is the second component.\<close>

definition dm_expire_timer :: "timer_key \<Rightarrow> 'v dur_manager \<Rightarrow>
    'v dur_manager \<times> (u8 \<times> command_type \<times> 'v) option" where
  "dm_expire_timer key m =
     (case gm_get (dm_timers m) key of
        None \<Rightarrow> (m, None)
      | Some t \<Rightarrow> (m\<lparr>dm_timers := gm_del key (dm_timers m)\<rparr>,
                    if dm_on_expiry m then Some (fst key, snd key, dt_value t) else None))"

text \<open>The runtime fires a timer; its function gets the lock.\<close>

definition dm_fire :: "time \<Rightarrow> nat \<Rightarrow> 'v dur_manager \<Rightarrow> 'v dur_manager" where
  "dm_fire now i m = m\<lparr>dm_rt := fire_timer now i (dm_rt m)\<rparr>"

definition dm_run_fired :: "nat \<Rightarrow> 'v dur_manager \<Rightarrow>
    'v dur_manager \<times> (u8 \<times> command_type \<times> 'v) option" where
  "dm_run_fired i m =
     (case take_fired i (dm_rt m) of
        None \<Rightarrow> (m, None)
      | Some (key, rt) \<Rightarrow> dm_expire_timer key (m\<lparr>dm_rt := rt\<rparr>))"

datatype 'v dur_op =
    SetTimer time u8 command_type duration 'v
  | CancelTimer u8 command_type
  | CancelZoneTimers u8
  | OnExpiry bool
  | TimerFires time nat
  | TimerRuns nat

fun dm_step :: "'v dur_manager \<Rightarrow> 'v dur_op \<Rightarrow> 'v dur_manager" where
  "dm_step m (SetTimer now z c d v) = fst (dm_set_timer now z c d v m)"
| "dm_step m (CancelTimer z c) = fst (dm_cancel_timer z c m)"
| "dm_step m (CancelZoneTimers z) = dm_cancel_zone_timers z m"
| "dm_step m (OnExpiry b) = dm_set_on_expiry b m"
| "dm_step m (TimerFires now i) = dm_fire now i m"
| "dm_step m (TimerRuns i) = fst (dm_run_fired i m)"

section \<open>The invariant\<close>

text \<open>
  A timer the manager tracks has an allowed duration and is pending in the runtime: armed
  for its expiry time, or fired and about to run.
\<close>

definition dm_inv :: "'v dur_manager \<Rightarrow> bool" where
  "dm_inv m \<longleftrightarrow>
     rt_wf (dm_rt m) \<and> gm_wf (dm_timers m) \<and>
     (\<forall>k t. gm_get (dm_timers m) k = Some t \<longrightarrow>
        dt_key t = k \<and> MinDuration \<le> dt_duration t \<and> dt_duration t \<le> MaxDuration \<and>
        (armed_at (dm_rt m) (dt_timer t) = Some (dt_expires_at t, k) \<or>
         fired_at (dm_rt m) (dt_timer t) = Some k))"

text \<open>Every armed timer is tracked: none leaks when a timer is replaced or cancelled.\<close>

definition dm_no_leak :: "'v dur_manager \<Rightarrow> bool" where
  "dm_no_leak m \<longleftrightarrow>
     (\<forall>i dl k. armed_at (dm_rt m) i = Some (dl, k) \<longrightarrow>
        (\<exists>t. gm_get (dm_timers m) k = Some t \<and> dt_timer t = i))"

lemma dm_inv_new [simp]: "dm_inv new_dur_manager"
  by (simp add: dm_inv_def new_dur_manager_def new_runtime_def rt_wf_def)

lemma dm_no_leak_new [simp]: "dm_no_leak new_dur_manager"
  by (simp add: dm_no_leak_def new_dur_manager_def new_runtime_def)

lemma dm_inv_wf: "dm_inv m \<Longrightarrow> rt_wf (dm_rt m)" "dm_inv m \<Longrightarrow> gm_wf (dm_timers m)"
  by (simp_all add: dm_inv_def)

lemma dm_inv_tracked:
  assumes "dm_inv m" and "gm_get (dm_timers m) k = Some t"
  shows "dt_key t = k" and "MinDuration \<le> dt_duration t" and "dt_duration t \<le> MaxDuration"
    and "armed_at (dm_rt m) (dt_timer t) = Some (dt_expires_at t, k) \<or>
         fired_at (dm_rt m) (dt_timer t) = Some k"
  using assms unfolding dm_inv_def by blast+

lemma dm_not_both:
  "dm_inv m \<Longrightarrow> armed_at (dm_rt m) i = Some e \<Longrightarrow> fired_at (dm_rt m) i = Some k \<Longrightarrow> False"
  by (simp add: dm_inv_def rt_wf_def) (metis option.distinct(1))

lemma dm_inv_armed_key:
  assumes "dm_inv m" and "gm_get (dm_timers m) k = Some t"
    and "armed_at (dm_rt m) (dt_timer t) = Some (dl, k')"
  shows "k' = k \<and> dl = dt_expires_at t"
  using dm_inv_tracked(4) [OF assms(1,2)] assms(3) dm_not_both [OF assms(1,3)]
  by (metis option.inject prod.inject)

lemma dm_inv_fired_key:
  assumes "dm_inv m" and "gm_get (dm_timers m) k = Some t"
    and "fired_at (dm_rt m) (dt_timer t) = Some k'"
  shows "k' = k"
  using dm_inv_tracked(4) [OF assms(1,2)] assms(3) dm_not_both [OF assms(1) _ assms(3)]
  by (metis option.inject)

text \<open>Two tracked timers have different runtime timers.\<close>

lemma dm_inv_distinct:
  assumes "dm_inv m" and "gm_get (dm_timers m) k = Some t" and "gm_get (dm_timers m) k' = Some t'"
    and "dt_timer t = dt_timer t'"
  shows "k = k'"
  using dm_inv_tracked(4) [OF assms(1,2)] assms(4)
    dm_inv_armed_key [OF assms(1,3)] dm_inv_fired_key [OF assms(1,3)] by metis

lemma dm_inv_bound:
  assumes "dm_inv m" and "gm_get (dm_timers m) k = Some t"
  shows "dt_timer t < rt_next (dm_rt m)"
proof (rule ccontr)
  assume "\<not> dt_timer t < rt_next (dm_rt m)"
  with dm_inv_wf(1) [OF assms(1)] show False
    using dm_inv_tracked(4) [OF assms] by (auto simp: rt_wf_def)
qed

lemma dm_invI:
  assumes "rt_wf (dm_rt m)" and "gm_wf (dm_timers m)"
    and "\<And>k t. gm_get (dm_timers m) k = Some t \<Longrightarrow> dt_key t = k"
    and "\<And>k t. gm_get (dm_timers m) k = Some t \<Longrightarrow> MinDuration \<le> dt_duration t \<and> dt_duration t \<le> MaxDuration"
    and "\<And>k t. gm_get (dm_timers m) k = Some t \<Longrightarrow>
        armed_at (dm_rt m) (dt_timer t) = Some (dt_expires_at t, k) \<or>
         fired_at (dm_rt m) (dt_timer t) = Some k"
  shows "dm_inv m"
  using assms unfolding dm_inv_def by blast

lemma dm_inv_set_on_expiry: "dm_inv m \<Longrightarrow> dm_inv (dm_set_on_expiry b m)"
  by (simp add: dm_inv_def dm_set_on_expiry_def)

text \<open>Removing one entry and stopping its timer keeps the invariant.\<close>

lemma dm_inv_drop:
  assumes "dm_inv m" and "gm_get (dm_timers m) k = Some t"
  shows "dm_inv (m\<lparr>dm_timers := gm_del k (dm_timers m), dm_rt := stop_timer (dt_timer t) (dm_rt m)\<rparr>)"
proof (rule dm_invI)
  fix k' t'
  assume "gm_get (dm_timers (m\<lparr>dm_timers := gm_del k (dm_timers m),
     dm_rt := stop_timer (dt_timer t) (dm_rt m)\<rparr>)) k' = Some t'"
  then have t': "gm_get (dm_timers m) k' = Some t'" and "k' \<noteq> k"
    by (auto simp: gomap_simps split: if_splits)
  then have "dt_timer t' \<noteq> dt_timer t"
    using dm_inv_distinct [OF assms(1) t' assms(2)] by auto
  with dm_inv_tracked [OF assms(1) t']
  show "armed_at (dm_rt (m\<lparr>dm_timers := gm_del k (dm_timers m),
     dm_rt := stop_timer (dt_timer t) (dm_rt m)\<rparr>)) (dt_timer t') = Some (dt_expires_at t', k') \<or>
     fired_at (dm_rt (m\<lparr>dm_timers := gm_del k (dm_timers m),
     dm_rt := stop_timer (dt_timer t) (dm_rt m)\<rparr>)) (dt_timer t') = Some k'"
    and "dt_key t' = k'" and "MinDuration \<le> dt_duration t' \<and> dt_duration t' \<le> MaxDuration"
    by (auto simp: rt_simps)
qed (use dm_inv_wf [OF assms(1)] in simp_all)

lemma dm_inv_cancel: "dm_inv m \<Longrightarrow> dm_inv (fst (dm_cancel_timer z c m))"
  by (auto simp: dm_cancel_timer_def dm_inv_drop split: option.split)

lemma dm_inv_add:
  assumes "dm_inv m" and "MinDuration \<le> d" and "d \<le> MaxDuration"
  shows "dm_inv (m\<lparr>dm_timers := gm_put k \<lparr>dt_key = k, dt_start_time = now, dt_duration = d,
        dt_value = v, dt_timer = fst (after_func now d k (dm_rt m))\<rparr> (dm_timers m),
      dm_rt := snd (after_func now d k (dm_rt m))\<rparr>)" (is "dm_inv ?m")
proof (rule dm_invI)
  fix k' t'
  assume a: "gm_get (dm_timers ?m) k' = Some t'"
  show "armed_at (dm_rt ?m) (dt_timer t') = Some (dt_expires_at t', k') \<or>
     fired_at (dm_rt ?m) (dt_timer t') = Some k'"
  proof (cases "k' = k")
    case True
    with a show ?thesis by (auto simp: gomap_simps rt_simps dt_expires_at_def)
  next
    case False
    with a have t': "gm_get (dm_timers m) k' = Some t'" by (simp add: gomap_simps)
    from dm_inv_bound [OF assms(1) this] dm_inv_tracked(4) [OF assms(1) t']
    show ?thesis by (auto simp: rt_simps)
  qed
  from a assms(2,3) dm_inv_tracked(1-3) [OF assms(1)]
  show "dt_key t' = k'" and "MinDuration \<le> dt_duration t' \<and> dt_duration t' \<le> MaxDuration"
    by (auto simp: gomap_simps split: if_splits)
qed (use dm_inv_wf [OF assms(1)] in simp_all)

lemma dm_set_timer_split:
  assumes "MinDuration \<le> d" and "d \<le> MaxDuration"
  shows "dm_set_timer now z c d v m =
    (let m0 = (case gm_get (dm_timers m) (z, c) of None \<Rightarrow> m
               | Some t \<Rightarrow> m\<lparr>dm_timers := gm_del (z, c) (dm_timers m),
                              dm_rt := stop_timer (dt_timer t) (dm_rt m)\<rparr>)
     in (m\<lparr>dm_timers := gm_put (z, c) \<lparr>dt_key = (z, c), dt_start_time = now, dt_duration = d,
            dt_value = v, dt_timer = fst (after_func now d (z, c) (dm_rt m0))\<rparr> (dm_timers m),
          dm_rt := snd (after_func now d (z, c) (dm_rt m0))\<rparr>, None))"
  using assms
  by (auto simp: dm_set_timer_def Let_def stop_opt_def split: option.split prod.split)

text \<open>The invariant sees a manager through its lookups only.\<close>

lemma dm_inv_cong:
  assumes "dm_inv m" and "dm_rt m' = dm_rt m" and "gm_get (dm_timers m') = gm_get (dm_timers m)"
    and "gm_wf (dm_timers m')"
  shows "dm_inv m'"
  using assms by (simp add: dm_inv_def)

lemma dm_inv_set: "dm_inv m \<Longrightarrow> dm_inv (fst (dm_set_timer now z c d v m))"
proof (cases "MinDuration \<le> d \<and> d \<le> MaxDuration")
  case False
  assume "dm_inv m"
  with False show ?thesis by (auto simp: dm_set_timer_def not_le)
next
  case True
  assume inv: "dm_inv m"
  show ?thesis
  proof (cases "gm_get (dm_timers m) (z, c)")
    case None
    with True dm_inv_add [OF inv, where d = d and k = "(z, c)" and now = now and v = v] show ?thesis by (simp add: dm_set_timer_split)
  next
    case (Some t)
    let ?m0 = "m\<lparr>dm_timers := gm_del (z, c) (dm_timers m), dm_rt := stop_timer (dt_timer t) (dm_rt m)\<rparr>"
    from dm_inv_add [OF dm_inv_drop [OF inv Some], where d = d and k = "(z, c)" and now = now and v = v] True
    show ?thesis
      by (rule_tac dm_inv_cong) (auto simp: dm_set_timer_split Some gomap_simps dm_inv_wf [OF inv])
  qed
qed

lemma dm_inv_fire: "dm_inv m \<Longrightarrow> dm_inv (dm_fire now i m)"
proof (rule dm_invI)
  fix k t
  assume inv: "dm_inv m" and "gm_get (dm_timers (dm_fire now i m)) k = Some t"
  then have t: "gm_get (dm_timers m) k = Some t" by (simp add: dm_fire_def)
  from dm_inv_tracked [OF inv t] dm_inv_armed_key [OF inv t]
  show "armed_at (dm_rt (dm_fire now i m)) (dt_timer t) = Some (dt_expires_at t, k) \<or>
     fired_at (dm_rt (dm_fire now i m)) (dt_timer t) = Some k"
    and "dt_key t = k" and "MinDuration \<le> dt_duration t \<and> dt_duration t \<le> MaxDuration"
    by (auto simp: dm_fire_def fire_timer_def gomap_simps split: option.splits)
qed (simp_all add: dm_fire_def dm_inv_wf)

text \<open>A fired function runs, its own timer's or a replaced one's: the entry of its key goes.\<close>

lemma dm_inv_run: "dm_inv m \<Longrightarrow> dm_inv (fst (dm_run_fired i m))"
proof (cases "take_fired i (dm_rt m)")
  case None
  assume "dm_inv m"
  with None show ?thesis by (simp add: dm_run_fired_def)
next
  case (Some p)
  obtain k rt where p: "p = (k, rt)" by (cases p)
  assume inv: "dm_inv m"
  have wf: "rt_wf rt" using rt_wf_take [OF dm_inv_wf(1) [OF inv] Some [unfolded p]] .
  have rt: "rt_armed rt = rt_armed (dm_rt m)" "rt_fired rt = gm_del i (rt_fired (dm_rt m))"
    "fired_at (dm_rt m) i = Some k"
    using Some p by (auto simp: take_fired_def split: option.splits)
  have none: "armed_at (dm_rt m) i = None"
    using dm_not_both [OF inv _ rt(3)] by (cases "armed_at (dm_rt m) i") auto
  have eq: "fst (dm_run_fired i m)
     = m\<lparr>dm_timers := (if gm_get (dm_timers m) k = None then dm_timers m else gm_del k (dm_timers m)),
         dm_rt := rt\<rparr>"
    by (auto simp: dm_run_fired_def Some p dm_expire_timer_def split: option.split)
  show ?thesis
    unfolding eq
  proof (rule dm_invI)
    fix k' t
    assume "gm_get (dm_timers (m\<lparr>dm_timers := (if gm_get (dm_timers m) k = None then dm_timers m
        else gm_del k (dm_timers m)), dm_rt := rt\<rparr>)) k' = Some t"
    then have t: "gm_get (dm_timers m) k' = Some t" and "k' \<noteq> k"
      by (auto simp: gomap_simps split: if_splits)
    with dm_inv_fired_key [OF inv t] rt(3) have "dt_timer t \<noteq> i" by metis
    with dm_inv_tracked [OF inv t]
    show "armed_at (dm_rt (m\<lparr>dm_timers := (if gm_get (dm_timers m) k = None then dm_timers m
        else gm_del k (dm_timers m)), dm_rt := rt\<rparr>)) (dt_timer t) = Some (dt_expires_at t, k') \<or>
      fired_at (dm_rt (m\<lparr>dm_timers := (if gm_get (dm_timers m) k = None then dm_timers m
        else gm_del k (dm_timers m)), dm_rt := rt\<rparr>)) (dt_timer t) = Some k'"
      and "dt_key t = k'" and "MinDuration \<le> dt_duration t \<and> dt_duration t \<le> MaxDuration"
      by (auto simp: rt gomap_simps)
  qed (use wf dm_inv_wf [OF inv] in simp_all)
qed

text \<open>Cancelling a zone's timers is cancelling them one by one.\<close>

lemma armed_foldl_stop:
  "armed_at (foldl (\<lambda>rt (k, t). if P k then stop_timer (dt_timer t) rt else rt) rt ts) i
     = (if \<exists>(k, t) \<in> set ts. P k \<and> dt_timer t = i then None else armed_at rt i)"
  by (induction ts arbitrary: rt) (auto simp: rt_simps split: if_splits)

lemma fired_foldl_stop [simp]:
  "rt_fired (foldl (\<lambda>rt (k, t). if P k then stop_timer (dt_timer t) rt else rt) rt ts) = rt_fired rt"
  by (induction ts arbitrary: rt) (auto simp: rt_simps)

lemma wf_foldl_stop [simp]:
  "rt_wf rt \<Longrightarrow>
     rt_wf (foldl (\<lambda>rt (k, t). if P k then stop_timer (dt_timer t) rt else rt) rt ts)"
  by (induction ts arbitrary: rt) auto

lemma dm_get_cancel_zone:
  "gm_wf (dm_timers m) \<Longrightarrow> gm_get (dm_timers (dm_cancel_zone_timers z m)) k
     = (if fst k = z then None else gm_get (dm_timers m) k)"
  by (simp add: dm_cancel_zone_timers_def gm_get_purge split: option.split)

lemma dm_armed_cancel_zone:
  assumes "dm_inv m" and "gm_get (dm_timers m) k = Some t" and "fst k \<noteq> z"
  shows "armed_at (dm_rt (dm_cancel_zone_timers z m)) (dt_timer t) = armed_at (dm_rt m) (dt_timer t)"
proof -
  have "\<not> (\<exists>(k', t') \<in> set (dm_timers m). fst k' = z \<and> dt_timer t' = dt_timer t)"
    using dm_inv_distinct [OF assms(1) _ assms(2)] assms(3) gm_get_in [OF dm_inv_wf(2) [OF assms(1)]]
    by blast
  then show ?thesis by (simp add: dm_cancel_zone_timers_def armed_foldl_stop)
qed

lemma dm_inv_cancel_zone: "dm_inv m \<Longrightarrow> dm_inv (dm_cancel_zone_timers z m)"
proof (rule dm_invI)
  fix k t
  assume inv: "dm_inv m" and "gm_get (dm_timers (dm_cancel_zone_timers z m)) k = Some t"
  then have t: "gm_get (dm_timers m) k = Some t" and ne: "fst k \<noteq> z"
    by (auto simp: dm_get_cancel_zone dm_inv_wf split: if_splits)
  have "rt_fired (dm_rt (dm_cancel_zone_timers z m)) = rt_fired (dm_rt m)"
    by (simp add: dm_cancel_zone_timers_def)
  with dm_inv_tracked [OF inv t] dm_armed_cancel_zone [OF inv t ne]
  show "armed_at (dm_rt (dm_cancel_zone_timers z m)) (dt_timer t) = Some (dt_expires_at t, k) \<or>
     fired_at (dm_rt (dm_cancel_zone_timers z m)) (dt_timer t) = Some k"
    and "dt_key t = k" and "MinDuration \<le> dt_duration t \<and> dt_duration t \<le> MaxDuration"
    by simp_all
qed (simp_all add: dm_cancel_zone_timers_def dm_inv_wf)

lemma dm_inv_step: "dm_inv m \<Longrightarrow> dm_inv (dm_step m e)"
  by (cases e) (simp_all add: dm_inv_set dm_inv_cancel dm_inv_cancel_zone dm_inv_set_on_expiry
    dm_inv_fire dm_inv_run)

interpretation dur_machine: invariant_machine dm_step dm_inv
  by unfold_locales (rule dm_inv_step)

section \<open>Properties\<close>

lemma dm_set_timer_fresh:
  assumes "dm_inv m" and "MinDuration \<le> d" and "d \<le> MaxDuration"
  shows "gm_get (dm_timers (fst (dm_set_timer now z c d v m))) (z, c) = Some \<lparr>dt_key = (z, c), dt_start_time = now, dt_duration = d,
      dt_value = v, dt_timer = rt_next (dm_rt m)\<rparr>"
    and "armed_at (dm_rt (fst (dm_set_timer now z c d v m))) (rt_next (dm_rt m)) = Some (now + d, (z, c))"
    and "rt_fired (dm_rt (fst (dm_set_timer now z c d v m))) = rt_fired (dm_rt m)" and "dm_on_expiry (fst (dm_set_timer now z c d v m)) = dm_on_expiry m"
    and "snd (dm_set_timer now z c d v m) = None"
  unfolding dm_set_timer_split [OF assms(2,3)]
  by (auto simp: Let_def gomap_simps rt_simps split: option.split)

text \<open>C28. In every run of the duration manager, whatever the order of commands, timer firings
  and expiry functions, a tracked timer has a duration from one second to 24 hours and is
  pending in the runtime: armed for exactly its expiry time, or fired and about to run. No
  limit is left with a timer that never comes.\<close>

theorem tracked_timers_pending:
  assumes "dm_get_timer (foldl dm_step new_dur_manager ops) z c = Some t"
  shows "MinDuration \<le> dt_duration t \<and> dt_duration t \<le> MaxDuration \<and>
    (armed_at (dm_rt (foldl dm_step new_dur_manager ops)) (dt_timer t)
        = Some (dt_start_time t + dt_duration t, (z, c)) \<or>
     fired_at (dm_rt (foldl dm_step new_dur_manager ops)) (dt_timer t) = Some (z, c))"
  using dm_inv_tracked [OF dur_machine.run_inv [OF dm_inv_new] assms [unfolded dm_get_timer_def]]
  by (simp add: dt_expires_at_def)

theorem tracked_timers_pending_witness:
  "let ops = [SetTimer 0 1 CmdPause (2 * second) (7 :: int), SetTimer 5 1 CmdPause (3 * second) 8];
       t = \<lparr>dt_key = (1, CmdPause), dt_start_time = 5, dt_duration = 3 * second, dt_value = 8,
            dt_timer = 1\<rparr>
   in dm_get_timer (foldl dm_step new_dur_manager ops) 1 CmdPause = Some t \<and>
     armed_at (dm_rt (foldl dm_step new_dur_manager ops)) 1 = Some (5 + 3 * second, (1, CmdPause))"
proof -
  let ?ops = "[SetTimer 0 1 CmdPause (2 * second) (7 :: int), SetTimer 5 1 CmdPause (3 * second) 8]"
  let ?t = "\<lparr>dt_key = (1, CmdPause), dt_start_time = 5, dt_duration = 3 * second, dt_value = 8,
            dt_timer = 1\<rparr>"
  have t: "dm_get_timer (foldl dm_step new_dur_manager ?ops) 1 CmdPause = Some ?t"
    by code_simp
  have "fired_at (dm_rt (foldl dm_step new_dur_manager ?ops)) 1 = None"
    by code_simp
  with t tracked_timers_pending [OF t] show ?thesis by (simp add: Let_def)
qed

text \<open>A timer that is set runs at its deadline and not before: if the runtime fires it
  at any time from the deadline on, its function removes the entry and hands the callback
  the zone index, the command type and the value that was set; before the deadline nothing
  happens.\<close>

theorem set_timer_expires_at_deadline:
  assumes "dm_inv m" and "MinDuration \<le> d" and "d \<le> MaxDuration" and "dm_on_expiry m"
  shows "let m1 = fst (dm_set_timer now z c d v m); i = rt_next (dm_rt m);
             (m2, cb) = dm_run_fired i (dm_fire later i m1)
         in (if now + d \<le> later then cb = Some (z, c, v) \<and> dm_get_timer m2 z c = None
             else cb = None \<and> m2 = m1)"
proof -
  let ?m1 = "fst (dm_set_timer now z c d v m)" and ?i = "rt_next (dm_rt m)"
  note fresh = dm_set_timer_fresh [OF assms(1-3), of now z c v]
  have none: "fired_at (dm_rt ?m1) ?i = None"
    using fresh(3) fired_fresh [OF dm_inv_wf(1) [OF assms(1)]] by simp
  show ?thesis
  proof (cases "now + d \<le> later")
    case True
    then have "take_fired ?i (dm_rt (dm_fire later ?i ?m1))
      = Some ((z, c), (dm_rt (dm_fire later ?i ?m1))
           \<lparr>rt_fired := gm_del ?i (rt_fired (dm_rt (dm_fire later ?i ?m1)))\<rparr>)"
      by (simp add: take_fired_def dm_fire_def fire_timer_def fresh(2) gomap_simps)
    with True fresh(1,4) assms(4) show ?thesis
      by (simp add: Let_def dm_run_fired_def dm_expire_timer_def dm_fire_def dm_get_timer_def
          gomap_simps)
  next
    case False
    then have "dm_fire later ?i ?m1 = ?m1"
      by (simp add: dm_fire_def fire_timer_def fresh(2))
    with False none show ?thesis by (simp add: dm_run_fired_def take_fired_def)
  qed
qed

theorem set_timer_expires_at_deadline_witness:
  "let m = dm_set_on_expiry True new_dur_manager;
       m1 = fst (dm_set_timer 0 1 CmdPause (2 * second) (7 :: int) m); i = rt_next (dm_rt m);
       (m2, cb) = dm_run_fired i (dm_fire (2 * second) i m1)
   in cb = Some (1, CmdPause, 7) \<and> dm_get_timer m2 1 CmdPause = None"
  using set_timer_expires_at_deadline [where m = "dm_set_on_expiry True new_dur_manager"
      and d = "2 * second" and now = 0 and later = "2 * second" and z = 1 and c = CmdPause
      and v = "7 :: int"]
  by (simp add: MinDuration_def MaxDuration_def dm_inv_set_on_expiry) (simp add: dm_set_on_expiry_def)

text \<open>The function of a timer is bound to the key, not to the timer. When a timer of
  the key has fired and SetTimer replaces it before its function gets the lock, the function
  removes the new timer and hands the new value to the callback, although the new deadline
  lies up to 24 hours ahead; the new runtime timer stays armed and untracked.\<close>

theorem stale_expiry_clears_new_timer:
  assumes "dm_inv m" and "fired_at (dm_rt m) i = Some (z, c)" and "dm_on_expiry m"
    and "MinDuration \<le> d" and "d \<le> MaxDuration"
  shows "let m1 = fst (dm_set_timer now z c d v m); (m2, cb) = dm_run_fired i m1
         in cb = Some (z, c, v) \<and> dm_get_timer m2 z c = None \<and>
            armed_at (dm_rt m2) (rt_next (dm_rt m)) = Some (now + d, (z, c))"
  using dm_set_timer_fresh [OF assms(1,4,5), of now z c v] assms(2,3)
  by (simp add: Let_def dm_run_fired_def take_fired_def dm_expire_timer_def dm_get_timer_def
      gomap_simps)

theorem stale_expiry_clears_new_timer_witness:
  "let m = foldl dm_step new_dur_manager
         [OnExpiry True, SetTimer 0 1 CmdPause second (7 :: int), TimerFires second 0];
       m1 = fst (dm_set_timer second 1 CmdPause (24 * hour) 8 m);
       (m2, cb) = dm_run_fired 0 m1
   in cb = Some (1, CmdPause, 8) \<and> dm_get_timer m2 1 CmdPause = None \<and>
      armed_at (dm_rt m2) (rt_next (dm_rt m)) = Some (second + 24 * hour, (1, CmdPause))"
proof -
  let ?m = "foldl dm_step new_dur_manager
         [OnExpiry True, SetTimer 0 1 CmdPause second (7 :: int), TimerFires second 0]"
  have f: "fired_at (dm_rt ?m) 0 = Some (1, CmdPause)" and e: "dm_on_expiry ?m" by code_simp+
  show ?thesis
    unfolding Let_def [of ?m]
    by (rule stale_expiry_clears_new_timer
        [OF dur_machine.run_inv [OF dm_inv_new] f e])
      (simp_all add: MinDuration_def MaxDuration_def)
qed

end
