(* ===== verification/GoAny.thy ===== *)
theory GoAny
  imports Prelude Complex_Main
begin

text \<open>
  Dynamically typed values: Go's \<open>any\<close> as far as messages and attributes use it. A
  constructor is a dynamic type; a type switch of the code is a case distinction on it.
  Signed integers are kept as words and read with \<open>sint\<close>; a float is the rational it
  denotes (the decoder forbids NaN and infinities). \<open>AMapNamed\<close> is a map whose key type is one of the
  8 bit enumerations, with the name of the map type. A nil pointer or slice in an interface
  does not occur: the code tests the interface for nil only.

  The conversions are those at the end of \<open>pkg/wire/codec.go\<close>.
\<close>

datatype any =
    ANil
  | ABool bool
  | AInt "64 word" | AI64 "64 word" | AI32 "32 word" | AI16 "16 word" | AI8 "8 word"
  | AUint "64 word" | AU64 u64 | AU32 u32 | AU16 u16 | AU8 u8
  | AF64 rat | AF32 rat
  | AString string
  | ABytes "u8 list"
  | AU16s "u16 list"
  | ASlice "any list"
  | AMap "(any \<times> any) list"
  | AMapU64 "(u64 \<times> any) list"
  | AMapU16 "(u16 \<times> any) list"
  | AMapString "(string \<times> any) list"
  | AMapNamed string "(u8 \<times> any) list"
  | AReadPayload "u16 list"
  | AWritePayload "(u16 \<times> any) list"
  | ASubscribePayload "u16 list" u32 u32
  | ASubscribeResponse u32 "(u16 \<times> any) list"
  | AUnsubscribePayload u32
  | AInvokePayload u8 any
  | AErrorPayload string

text \<open>\<open>v, ok := m[k]\<close> with the zero value when the key is missing.\<close>

definition any_at :: "('k \<times> any) list \<Rightarrow> 'k \<Rightarrow> any" where
  "any_at m k = (case gm_get m k of None \<Rightarrow> ANil | Some v \<Rightarrow> v)"

lemma any_at_Cons [simp]: "any_at ((k', v) # m) k = (if k' = k then v else any_at m k)"
  by (simp add: any_at_def)

lemma any_at_Nil [simp]: "any_at [] k = ANil"
  by (simp add: any_at_def)

text \<open>
  A float converts to an integer by truncation towards zero. Go leaves the result open when
  the value does not fit the target; the model wraps it then.
\<close>

definition trunc_rat :: "rat \<Rightarrow> int" where
  "trunc_rat x = (if x \<ge> 0 then \<lfloor>x\<rfloor> else - \<lfloor>- x\<rfloor>)"

section \<open>Numeric conversions\<close>

text \<open>The second component of the code's result is \<open>ok\<close>; here not ok is \<open>None\<close>, and the
  callers that ignore \<open>ok\<close> use \<open>or_zero\<close>.\<close>

definition or_zero :: "'a::len word option \<Rightarrow> 'a word" where
  "or_zero r = (case r of None \<Rightarrow> 0 | Some n \<Rightarrow> n)"

lemma or_zero_simps [simp]: "or_zero None = 0" "or_zero (Some n) = n"
  by (simp_all add: or_zero_def)

fun toUint32 :: "any \<Rightarrow> u32 option" where
  "toUint32 (AU64 n) = Some (ucast n)"
| "toUint32 (AU32 n) = Some n"
| "toUint32 (AI64 n) = Some (ucast n)"
| "toUint32 (AInt n) = Some (ucast n)"
| "toUint32 _ = None"

fun toUint8 :: "any \<Rightarrow> u8 option" where
  "toUint8 (AU64 n) = Some (ucast n)"
| "toUint8 (AU32 n) = Some (ucast n)"
| "toUint8 (AI64 n) = Some (ucast n)"
| "toUint8 (AInt n) = Some (ucast n)"
| "toUint8 _ = None"

fun ToInt64 :: "any \<Rightarrow> 64 word option" where
  "ToInt64 (AI64 n) = Some n"
| "ToInt64 (AInt n) = Some n"
| "ToInt64 (AI32 n) = Some (scast n)"
| "ToInt64 (AI16 n) = Some (scast n)"
| "ToInt64 (AI8 n) = Some (scast n)"
| "ToInt64 (AU64 n) = Some n"
| "ToInt64 (AU32 n) = Some (ucast n)"
| "ToInt64 (AU16 n) = Some (ucast n)"
| "ToInt64 (AU8 n) = Some (ucast n)"
| "ToInt64 (AF64 x) = Some (of_int (trunc_rat x))"
| "ToInt64 (AF32 x) = Some (of_int (trunc_rat x))"
| "ToInt64 _ = None"

fun ToUint32 :: "any \<Rightarrow> u32 option" where
  "ToUint32 (AU32 n) = Some n"
| "ToUint32 (AU64 n) = Some (ucast n)"
| "ToUint32 (AU16 n) = Some (ucast n)"
| "ToUint32 (AU8 n) = Some (ucast n)"
| "ToUint32 (AI64 n) = Some (ucast n)"
| "ToUint32 (AI32 n) = Some n"
| "ToUint32 (AI16 n) = Some (scast n)"
| "ToUint32 (AI8 n) = Some (scast n)"
| "ToUint32 (AInt n) = Some (ucast n)"
| "ToUint32 _ = None"

fun ToUint8Public :: "any \<Rightarrow> u8 option" where
  "ToUint8Public (AU8 n) = Some n"
| "ToUint8Public (AU64 n) = Some (ucast n)"
| "ToUint8Public (AU32 n) = Some (ucast n)"
| "ToUint8Public (AU16 n) = Some (ucast n)"
| "ToUint8Public (AI64 n) = Some (ucast n)"
| "ToUint8Public (AI32 n) = Some (ucast n)"
| "ToUint8Public (AI16 n) = Some (ucast n)"
| "ToUint8Public (AI8 n) = Some n"
| "ToUint8Public (AInt n) = Some (ucast n)"
| "ToUint8Public _ = None"

end
