(* ===== verification/Wire.thy ===== *)
theory Wire
  imports GoAny
begin

text \<open>
  Messages (\<open>pkg/wire/message.go\<close>, \<open>operation.go\<close>, \<open>status.go\<close>, \<open>codec.go\<close>): the four
  message kinds, the payload extractors that read what the CBOR decoder yields, and the
  classification of a received message. CBOR itself is the library fxamacker/cbor: a
  message goes to the wire as the fields its struct tags name (\<open>keyasint\<close>,
  \<open>omitempty\<close>), and the functions below start from the decoded map.
\<close>

section \<open>Status and operation\<close>

type_synonym status = u8

definition StatusSuccess :: status where "StatusSuccess = 0"
definition StatusInvalidEndpoint :: status where "StatusInvalidEndpoint = 1"
definition StatusInvalidFeature :: status where "StatusInvalidFeature = 2"
definition StatusInvalidAttribute :: status where "StatusInvalidAttribute = 3"
definition StatusInvalidCommand :: status where "StatusInvalidCommand = 4"
definition StatusInvalidParameter :: status where "StatusInvalidParameter = 5"
definition StatusReadOnly :: status where "StatusReadOnly = 6"
definition StatusWriteOnly :: status where "StatusWriteOnly = 7"
definition StatusNotAuthorized :: status where "StatusNotAuthorized = 8"
definition StatusBusy :: status where "StatusBusy = 9"
definition StatusUnsupported :: status where "StatusUnsupported = 10"
definition StatusConstraintError :: status where "StatusConstraintError = 11"
definition StatusTimeout :: status where "StatusTimeout = 12"
definition StatusResourceExhausted :: status where "StatusResourceExhausted = 13"

lemmas status_defs = StatusSuccess_def StatusInvalidEndpoint_def StatusInvalidFeature_def
  StatusInvalidAttribute_def StatusInvalidCommand_def StatusInvalidParameter_def
  StatusReadOnly_def StatusWriteOnly_def StatusNotAuthorized_def StatusBusy_def
  StatusUnsupported_def StatusConstraintError_def StatusTimeout_def StatusResourceExhausted_def

definition status_is_success :: "status \<Rightarrow> bool" where
  "status_is_success s \<longleftrightarrow> s = StatusSuccess"

definition status_is_error :: "status \<Rightarrow> bool" where
  "status_is_error s \<longleftrightarrow> s \<noteq> StatusSuccess"

definition status_string :: "status \<Rightarrow> string" where
  "status_string s =
     (if s = StatusSuccess then ''SUCCESS''
      else if s = StatusInvalidEndpoint then ''INVALID_ENDPOINT''
      else if s = StatusInvalidFeature then ''INVALID_FEATURE''
      else if s = StatusInvalidAttribute then ''INVALID_ATTRIBUTE''
      else if s = StatusInvalidCommand then ''INVALID_COMMAND''
      else if s = StatusInvalidParameter then ''INVALID_PARAMETER''
      else if s = StatusReadOnly then ''READ_ONLY''
      else if s = StatusWriteOnly then ''WRITE_ONLY''
      else if s = StatusNotAuthorized then ''NOT_AUTHORIZED''
      else if s = StatusBusy then ''BUSY''
      else if s = StatusUnsupported then ''UNSUPPORTED''
      else if s = StatusConstraintError then ''CONSTRAINT_ERROR''
      else if s = StatusTimeout then ''TIMEOUT''
      else if s = StatusResourceExhausted then ''RESOURCE_EXHAUSTED''
      else ''UNKNOWN'')"

record command_error =
  ce_status :: status
  ce_message :: string

type_synonym operation = u8

definition OpRead :: operation where "OpRead = 1"
definition OpWrite :: operation where "OpWrite = 2"
definition OpSubscribe :: operation where "OpSubscribe = 3"
definition OpInvoke :: operation where "OpInvoke = 4"

lemmas op_defs = OpRead_def OpWrite_def OpSubscribe_def OpInvoke_def

definition op_string :: "operation \<Rightarrow> string" where
  "op_string p =
     (if p = OpRead then ''Read''
      else if p = OpWrite then ''Write''
      else if p = OpSubscribe then ''Subscribe''
      else if p = OpInvoke then ''Invoke''
      else ''Unknown'')"

definition op_is_valid :: "operation \<Rightarrow> bool" where
  "op_is_valid p \<longleftrightarrow> p \<ge> OpRead \<and> p \<le> OpInvoke"

section \<open>Messages\<close>

definition NotificationMessageID :: u32 where "NotificationMessageID = 0"

record request =
  rq_message_id :: u32
  rq_operation :: operation
  rq_endpoint_id :: u8
  rq_feature_id :: u8
  rq_payload :: any

record response =
  rp_message_id :: u32
  rp_status :: status
  rp_payload :: any

record notification =
  nt_subscription_id :: u32
  nt_endpoint_id :: u8
  nt_feature_id :: u8
  nt_changes :: "(u16, any) gomap"

record control_message =
  cm_type :: u8
  cm_sequence :: u32

definition ControlPing :: u8 where "ControlPing = 1"
definition ControlPong :: u8 where "ControlPong = 2"
definition ControlClose :: u8 where "ControlClose = 3"

datatype validate_error = ReservedMessageID | InvalidOperation operation

definition validate_request :: "request \<Rightarrow> validate_error option" where
  "validate_request r =
     (if rq_message_id r = NotificationMessageID then Some ReservedMessageID
      else if \<not> op_is_valid (rq_operation r) then Some (InvalidOperation (rq_operation r))
      else None)"

text \<open>
  The fields of each message as its struct tags put them on the wire, in the form a
  decoding into \<open>map[uint64]any\<close> yields: unsigned integers come back as \<open>uint64\<close>,
  a nil payload and a zero sequence number are omitted.
\<close>

definition request_fields :: "request \<Rightarrow> (u64 \<times> any) list" where
  "request_fields r =
     [(1, AU64 (ucast (rq_message_id r))), (2, AU64 (ucast (rq_operation r))),
      (3, AU64 (ucast (rq_endpoint_id r))), (4, AU64 (ucast (rq_feature_id r)))] @
     (if rq_payload r = ANil then [] else [(5, rq_payload r)])"

definition response_fields :: "response \<Rightarrow> (u64 \<times> any) list" where
  "response_fields r =
     [(1, AU64 (ucast (rp_message_id r))), (2, AU64 (ucast (rp_status r)))] @
     (if rp_payload r = ANil then [] else [(3, rp_payload r)])"

text \<open>The changes of a notification come back as a map with \<open>uint64\<close> keys.\<close>

definition notification_fields :: "notification \<Rightarrow> (u64 \<times> any) list" where
  "notification_fields n =
     [(1, AU64 (ucast NotificationMessageID)), (2, AU64 (ucast (nt_subscription_id n))),
      (3, AU64 (ucast (nt_endpoint_id n))), (4, AU64 (ucast (nt_feature_id n))),
      (5, AMap (map (\<lambda>(k, v). (AU64 (ucast k), v)) (nt_changes n)))]"

definition control_fields :: "control_message \<Rightarrow> (u64 \<times> any) list" where
  "control_fields c =
     (1, AU64 (ucast (cm_type c))) #
     (if cm_sequence c = 0 then [] else [(2, AU64 (ucast (cm_sequence c)))])"

section \<open>The kind of a received message\<close>

datatype message_type =
  MTUnknown | MTRequest | MTResponse | MTNotification | MTControl

fun integer_key :: "any \<Rightarrow> bool" where
  "integer_key (AU64 _) = True" | "integer_key (AI64 _) = True"
| "integer_key (AInt _) = True" | "integer_key (AUint _) = True"
| "integer_key (AU32 _) = True" | "integer_key (AI32 _) = True"
| "integer_key (AU16 _) = True" | "integer_key (AI16 _) = True"
| "integer_key (AU8 _) = True" | "integer_key (AI8 _) = True"
| "integer_key _ = False"

fun is_payload_map :: "any \<Rightarrow> bool" where
  "is_payload_map (AMap _) = True"
| "is_payload_map (AMapU64 _) = True"
| "is_payload_map (AMapString _) = True"
| "is_payload_map _ = False"

text \<open>The classification of \<open>rawMsg\<close>, the message decoded into \<open>map[uint64]any\<close>.\<close>

definition peek_raw :: "(u64 \<times> any) list \<Rightarrow> message_type" where
  "peek_raw raw =
     (let field1 = or_zero (toUint32 (any_at raw 1));
          field2 = or_zero (toUint8 (any_at raw 2));
          field3 = any_at raw 3;
          has3 = (gm_get raw 3 \<noteq> None);
          has4 = (gm_get raw 4 \<noteq> None)
      in if field1 = NotificationMessageID then MTNotification
         else if field3 \<noteq> ANil \<and> is_payload_map field3 then MTResponse
         else if field1 \<ge> 1 \<and> field1 \<le> 3 \<and> \<not> has3 \<and> \<not> has4 then MTControl
         else if field2 > 4 then MTResponse
         else if field2 \<ge> 1 \<and> field2 \<le> 4 \<and>
             (or_zero (toUint8 field3) > 0 \<or> or_zero (toUint8 (any_at raw 4)) > 0 \<or> has4)
           then MTRequest
         else if field2 = 0 \<and> has3 \<and> has4 then MTRequest
         else MTResponse)"

text \<open>The two arguments are what the decoder makes of the bytes with a \<open>map[any]any\<close> and
  with a \<open>map[uint64]any\<close> as its target; \<open>None\<close> is a decoding error.\<close>

definition PeekMessageType :: "(any \<times> any) list option \<Rightarrow> (u64 \<times> any) list option \<Rightarrow>
    message_type option" where
  "PeekMessageType any_map raw_msg =
     (case any_map of
        None \<Rightarrow> None
      | Some m \<Rightarrow>
          if \<not> list_all (\<lambda>(k, _). integer_key k) m then None
          else map_option peek_raw raw_msg)"

section \<open>Payloads\<close>

fun any_u16 :: "any \<Rightarrow> u16 list" where
  "any_u16 (AU64 n) = [ucast n]"
| "any_u16 (AI64 n) = [ucast n]"
| "any_u16 (AF64 x) = [of_int (trunc_rat x)]"
| "any_u16 _ = []"

fun any_slice :: "any \<Rightarrow> any list" where
  "any_slice (ASlice xs) = xs"
| "any_slice _ = []"

text \<open>A nil slice and an empty one are told apart nowhere in the callers: both are \<open>[]\<close>.\<close>

fun ExtractReadAttributeIDs :: "any \<Rightarrow> u16 list" where
  "ExtractReadAttributeIDs (AReadPayload ids) = ids"
| "ExtractReadAttributeIDs (AMap m) = concat (map any_u16 (any_slice (any_at m (AU64 1))))"
| "ExtractReadAttributeIDs (AMapU64 m) = concat (map any_u16 (any_slice (any_at m 1)))"
| "ExtractReadAttributeIDs _ = []"

fun u16_key :: "any \<Rightarrow> u16 option" where
  "u16_key (AU64 n) = Some (ucast n)"
| "u16_key (AI64 n) = Some (ucast n)"
| "u16_key _ = None"

definition put_entry :: "(u16, any) gomap \<Rightarrow> any \<times> any \<Rightarrow> (u16, any) gomap" where
  "put_entry acc e = (case u16_key (fst e) of None \<Rightarrow> acc | Some k \<Rightarrow> gm_put k (snd e) acc)"

fun ExtractWritePayload :: "any \<Rightarrow> (u16, any) gomap option" where
  "ExtractWritePayload (AWritePayload m) = Some m"
| "ExtractWritePayload (AMapU16 m) = Some m"
| "ExtractWritePayload (AMap m) =
     (let r = foldl put_entry [] m in if r = [] then None else Some r)"
| "ExtractWritePayload (AMapU64 m) =
     (let r = foldl (\<lambda>acc (k, v). gm_put (ucast k) v acc) [] m in if r = [] then None else Some r)"
| "ExtractWritePayload _ = None"

record subscribe_payload =
  sp_attribute_ids :: "u16 list"
  sp_min_interval :: u32
  sp_max_interval :: u32

fun any_u16_int :: "any \<Rightarrow> u16 list" where
  "any_u16_int (AU64 n) = [ucast n]"
| "any_u16_int (AI64 n) = [ucast n]"
| "any_u16_int _ = []"

fun u64_entries :: "(any \<times> any) list \<Rightarrow> (u64 \<times> any) list" where
  "u64_entries [] = []"
| "u64_entries ((AU64 k, v) # m) = (k, v) # u64_entries m"
| "u64_entries (_ # m) = u64_entries m"

fun any_u64_u32 :: "any \<Rightarrow> u32" where
  "any_u64_u32 (AU64 n) = ucast n"
| "any_u64_u32 _ = 0"

definition subscribe_fields :: "(u64 \<times> any) list \<Rightarrow> subscribe_payload" where
  "subscribe_fields m =
     \<lparr>sp_attribute_ids = concat (map any_u16_int (any_slice (any_at m 1))),
      sp_min_interval = any_u64_u32 (any_at m 2),
      sp_max_interval = any_u64_u32 (any_at m 3)\<rparr>"

fun ExtractSubscribePayload :: "any \<Rightarrow> subscribe_payload option" where
  "ExtractSubscribePayload (ASubscribePayload ids mn mx) =
     Some \<lparr>sp_attribute_ids = ids, sp_min_interval = mn, sp_max_interval = mx\<rparr>"
| "ExtractSubscribePayload (AMap m) = Some (subscribe_fields (u64_entries m))"
| "ExtractSubscribePayload (AMapU64 m) = Some (subscribe_fields m)"
| "ExtractSubscribePayload _ = None"

text \<open>The decoded forms of the typed payloads.\<close>

definition read_payload_wire :: "u16 list \<Rightarrow> any" where
  "read_payload_wire ids =
     AMap (if ids = [] then [] else [(AU64 1, ASlice (map (\<lambda>i. AU64 (ucast i)) ids))])"

definition write_payload_wire :: "(u16, any) gomap \<Rightarrow> any" where
  "write_payload_wire m = AMap (map (\<lambda>(k, v). (AU64 (ucast k), v)) m)"

definition subscribe_payload_wire :: "subscribe_payload \<Rightarrow> any" where
  "subscribe_payload_wire p =
     AMap ((if sp_attribute_ids p = [] then []
            else [(AU64 1, ASlice (map (\<lambda>i. AU64 (ucast i)) (sp_attribute_ids p)))]) @
           (if sp_min_interval p = 0 then [] else [(AU64 2, AU64 (ucast (sp_min_interval p)))]) @
           (if sp_max_interval p = 0 then [] else [(AU64 3, AU64 (ucast (sp_max_interval p)))]))"

section \<open>Lemmas\<close>

lemma ucast_back [simp]:
  "(ucast (ucast (a :: u32) :: u64) :: u32) = a"
  "(ucast (ucast (b :: u16) :: u64) :: u16) = b"
  "(ucast (ucast (c :: u8) :: u64) :: u8) = c"
  "(ucast (ucast (c :: u8) :: u64) :: u32) = ucast c"
  by (transfer, simp add: take_bit_eq_mod)+

lemma op_is_valid_iff: "op_is_valid p \<longleftrightarrow> 1 \<le> p \<and> p \<le> 4"
  by (simp add: op_is_valid_def op_defs)

lemma any_u16_wire [simp]: "concat (map (any_u16 \<circ> (\<lambda>i. AU64 (ucast i))) ids) = ids"
  "concat (map (any_u16_int \<circ> (\<lambda>i. AU64 (ucast i))) ids) = ids"
  by (induction ids) auto

lemma write_wire_fold:
  assumes "gm_wf (acc @ m)"
  shows "foldl put_entry acc (map (\<lambda>(k, v). (AU64 (ucast k), v)) m) = acc @ m"
  using assms
proof (induction m arbitrary: acc)
  case Nil
  then show ?case by simp
next
  case (Cons e m)
  obtain k v where e: "e = (k, v)" by (cases e)
  from Cons.prems have "gm_put k v acc = acc @ [(k, v)]"
    by (simp add: gm_put_new e gm_wf_def map_of_eq_None_iff)
  with Cons.IH [of "acc @ [(k, v)]"] Cons.prems show ?case
    by (simp add: e put_entry_def)
qed

section \<open>Properties\<close>

lemma peek_fields:
  "(validate_request r = None \<longrightarrow> peek_raw (request_fields r) = MTRequest) \<and>
   peek_raw (notification_fields n) = MTNotification \<and>
   (cm_type c \<in> {ControlPing, ControlPong, ControlClose} \<longrightarrow>
      peek_raw (control_fields c) = MTControl)"
proof (intro conjI impI)
  assume "validate_request r = None"
  then have "rq_message_id r \<noteq> 0" and "1 \<le> rq_operation r" and "rq_operation r \<le> 4"
    by (auto simp: validate_request_def NotificationMessageID_def op_is_valid_iff split: if_splits)
  then show "peek_raw (request_fields r) = MTRequest"
    by (simp add: peek_raw_def request_fields_def Let_def NotificationMessageID_def not_less)
next
  assume "cm_type c \<in> {ControlPing, ControlPong, ControlClose}"
  then show "peek_raw (control_fields c) = MTControl"
    by (auto simp: peek_raw_def control_fields_def Let_def NotificationMessageID_def
        ControlPing_def ControlPong_def ControlClose_def)
qed (simp add: peek_raw_def notification_fields_def Let_def NotificationMessageID_def)

text \<open>A message that a peer sends is recognised from its decoded fields: every request
  that passes validation as a request, every notification as a notification, every ping,
  pong and close as a control message.\<close>

theorem peek_recognises_messages:
  "(validate_request r = None \<longrightarrow> peek_raw (request_fields r) = MTRequest) \<and>
   peek_raw (notification_fields n) = MTNotification \<and>
   (cm_type c \<in> {ControlPing, ControlPong, ControlClose} \<longrightarrow>
      peek_raw (control_fields c) = MTControl)"
  by (rule peek_fields)

theorem peek_recognises_messages_witness:
  "peek_raw (request_fields \<lparr>rq_message_id = 7, rq_operation = OpWrite, rq_endpoint_id = 0,
      rq_feature_id = 0, rq_payload = ANil\<rparr>) = MTRequest \<and>
   peek_raw (control_fields \<lparr>cm_type = ControlPong, cm_sequence = 9\<rparr>) = MTControl"
proof -
  let ?r = "\<lparr>rq_message_id = 7, rq_operation = OpWrite, rq_endpoint_id = 0,
      rq_feature_id = 0, rq_payload = ANil\<rparr>"
  have "validate_request ?r = None" by code_simp
  with peek_recognises_messages [where r = ?r and c = "\<lparr>cm_type = ControlPong, cm_sequence = 9\<rparr>"]
  show ?thesis by simp
qed

lemma peek_response_fields:
  assumes "rp_payload r = ANil \<or> is_payload_map (rp_payload r)" and "rp_message_id r \<noteq> 0"
  shows "peek_raw (response_fields r)
     = (if rp_payload r = ANil \<and> rp_message_id r \<le> 3 then MTControl else MTResponse)"
proof -
  have "1 \<le> rp_message_id r" using assms(2) by (simp add: word_le_nat_alt unat_gt_0 Suc_le_eq)
  moreover have "toUint8 (rp_payload r) = None \<and> rp_payload r \<noteq> ANil" if "is_payload_map (rp_payload r)"
    using that by (cases "rp_payload r") simp_all
  ultimately show ?thesis using assms
    by (auto simp: peek_raw_def response_fields_def Let_def NotificationMessageID_def)
qed

text \<open>A response with a map or no payload is recognised as a response exactly when its
  message id is not 0 and it is not one of the ids 1 to 3 without a payload: those look like
  ping, pong and close, so the success answer to the second or third request of a session
  that carries no payload is taken for a control message.\<close>

theorem peek_response:
  assumes "rp_payload r = ANil \<or> is_payload_map (rp_payload r)" and "rp_message_id r \<noteq> 0"
  shows "peek_raw (response_fields r)
     = (if rp_payload r = ANil \<and> rp_message_id r \<le> 3 then MTControl else MTResponse)"
  using assms by (rule peek_response_fields)

theorem peek_response_witness:
  "peek_raw (response_fields \<lparr>rp_message_id = 2, rp_status = StatusSuccess, rp_payload = ANil\<rparr>)
     = MTControl \<and>
   peek_raw (response_fields \<lparr>rp_message_id = 4, rp_status = StatusSuccess, rp_payload = ANil\<rparr>)
     = MTResponse"
  using peek_response [where r = "\<lparr>rp_message_id = 2, rp_status = StatusSuccess, rp_payload = ANil\<rparr>"]
    peek_response [where r = "\<lparr>rp_message_id = 4, rp_status = StatusSuccess, rp_payload = ANil\<rparr>"]
  by simp

text \<open>The payload extractors read back what was sent: the attribute ids of a read
  request, the parameters of a subscription, and the non-empty map of a write request
  with its entries in order.\<close>

theorem payload_round_trips:
  assumes "gm_wf m" and "m \<noteq> []"
  shows "ExtractReadAttributeIDs (read_payload_wire ids) = ids \<and>
     ExtractSubscribePayload (subscribe_payload_wire p) = Some p \<and>
     ExtractWritePayload (write_payload_wire m) = Some m"
proof (intro conjI)
  show "ExtractReadAttributeIDs (read_payload_wire ids) = ids"
    by (simp add: read_payload_wire_def)
  show "ExtractSubscribePayload (subscribe_payload_wire p) = Some p"
    by (cases p) (simp add: subscribe_payload_wire_def subscribe_fields_def)
  show "ExtractWritePayload (write_payload_wire m) = Some m"
    using write_wire_fold [of "[]" m] assms by (simp add: write_payload_wire_def Let_def)
qed

theorem payload_round_trips_witness:
  "ExtractReadAttributeIDs (read_payload_wire [1, 65533]) = [1, 65533] \<and>
   ExtractSubscribePayload (subscribe_payload_wire
       \<lparr>sp_attribute_ids = [3], sp_min_interval = 0, sp_max_interval = 60000\<rparr>)
     = Some \<lparr>sp_attribute_ids = [3], sp_min_interval = 0, sp_max_interval = 60000\<rparr> \<and>
   ExtractWritePayload (write_payload_wire [(2, ABool True), (1, ANil)])
     = Some [(2, ABool True), (1, ANil)]"
  by (rule payload_round_trips) (simp_all add: gm_wf_def)

end
