(* ===== verification/LimitResolver.thy ===== *)
theory LimitResolver
  imports Zone DurationTimer Wire
begin

text \<open>
  The limit resolver (\<open>pkg/features/limit_resolver.go\<close>): the limits each zone sets on
  the EnergyControl feature, their duration timers, and the effective limits and control
  state it writes to the feature. It calls the zone values of theory Zone and the duration
  timers of theory DurationTimer.

  A handler reads the clock once in the model, as \<open>now\<close>. The duration manager calls
  \<open>handleTimerExpiry\<close> after it has dropped its own lock, so an expiry that has been
  taken out of the manager can wait for the resolver's lock while handlers run: these are
  the entries of \<open>lr_expired\<close>. Calls of \<open>OnZoneMyChange\<close> are outputs.
\<close>

section \<open>Data\<close>

datatype control_state =
    ControlStateAutonomous
  | ControlStateControlled
  | ControlStateLimited
  | ControlStateFailsafe
  | ControlStateOverride

datatype limit_reject_reason =
    LimitRejectReasonBelowMinimum
  | LimitRejectReasonAboveContractual
  | LimitRejectReasonInvalidValue
  | LimitRejectReasonDeviceOverride
  | LimitRejectReasonNotSupported

datatype direction = DirectionConsumption | DirectionProduction | DirectionBidirectional

text \<open>The attributes of EnergyControl that the resolver reads or writes. They have no
  minimum and no maximum, so the setters, whose errors the code drops, do not fail.\<close>

record energy_control =
  ec_control_state :: control_state
  ec_effective_consumption :: "int option"
  ec_effective_production :: "int option"

definition ec_is_override :: "energy_control \<Rightarrow> bool" where
  "ec_is_override ec \<longleftrightarrow> ec_control_state ec = ControlStateOverride"

record set_limit_request =
  sl_consumption_limit :: "int option"
  sl_production_limit :: "int option"
  sl_duration :: "u32 option"
  sl_cause :: u8

record set_limit_response =
  sr_applied :: bool
  sr_control_state :: control_state
  sr_effective_consumption :: "int option"
  sr_effective_production :: "int option"
  sr_reject_reason :: "limit_reject_reason option"

record limit_resolver =
  lr_ec :: energy_control
  lr_consumption :: multi_zone_value
  lr_production :: multi_zone_value
  lr_timers :: "int dur_manager"
  lr_zone_index :: "(string, u8) gomap"
  lr_index_zone :: "(u8, string) gomap"
  lr_next_index :: u8
  lr_max_consumption :: int
  lr_max_production :: int
  lr_on_change :: bool
  lr_expired :: "(u8 \<times> command_type) list"

type_synonym zone_change = "string \<times> (u16 \<times> int option) list"

definition AttrMyConsumptionLimit :: u16 where "AttrMyConsumptionLimit = 21"
definition AttrMyProductionLimit :: u16 where "AttrMyProductionLimit = 23"

definition new_limit_resolver :: "energy_control \<Rightarrow> limit_resolver" where
  "new_limit_resolver ec =
     \<lparr>lr_ec = ec, lr_consumption = new_multi_zone_value, lr_production = new_multi_zone_value,
      lr_timers = dm_set_on_expiry True new_dur_manager, lr_zone_index = [], lr_index_zone = [],
      lr_next_index = 0, lr_max_consumption = 0, lr_max_production = 0, lr_on_change = False,
      lr_expired = []\<rparr>"

section \<open>Operations\<close>

text \<open>The read hook: the outer option is whether the attribute is intercepted.\<close>

definition lr_read_hook :: "string \<Rightarrow> u16 \<Rightarrow> limit_resolver \<Rightarrow> int option option" where
  "lr_read_hook zid attr lr =
     (if attr \<noteq> AttrMyConsumptionLimit \<and> attr \<noteq> AttrMyProductionLimit then None
      else if zid = '''' then Some None
      else Some (map_option zv_value
        (mz_get (if attr = AttrMyConsumptionLimit then lr_consumption lr else lr_production lr) zid)))"

definition resolve_and_apply :: "time \<Rightarrow> limit_resolver \<Rightarrow> limit_resolver" where
  "resolve_and_apply now lr =
     (let (mc, effC, _) = resolve_limits now (lr_consumption lr);
          (mp, effP, _) = resolve_limits now (lr_production lr)
      in lr\<lparr>lr_consumption := mc, lr_production := mp,
            lr_ec := (lr_ec lr)\<lparr>ec_effective_consumption := effC, ec_effective_production := effP,
              ec_control_state := (if effC \<noteq> None \<or> effP \<noteq> None then ControlStateControlled
                                   else ControlStateAutonomous)\<rparr>\<rparr>)"

definition ensure_zone_index :: "string \<Rightarrow> limit_resolver \<Rightarrow> u8 \<times> limit_resolver" where
  "ensure_zone_index zid lr =
     (case gm_get (lr_zone_index lr) zid of
        Some idx \<Rightarrow> (idx, lr)
      | None \<Rightarrow>
          let idx = lr_next_index lr
          in (idx, lr\<lparr>lr_zone_index := gm_put zid idx (lr_zone_index lr),
                      lr_index_zone := gm_put idx zid (lr_index_zone lr),
                      lr_next_index := idx + 1\<rparr>))"

definition clear_zone_locked :: "string \<Rightarrow> limit_resolver \<Rightarrow> limit_resolver" where
  "clear_zone_locked zid lr =
     (let lr' = lr\<lparr>lr_consumption := mz_clear zid (lr_consumption lr),
                   lr_production := mz_clear zid (lr_production lr)\<rparr>
      in case gm_get (lr_zone_index lr') zid of
           None \<Rightarrow> lr'
         | Some idx \<Rightarrow> lr'\<lparr>lr_timers := dm_cancel_zone_timers idx (lr_timers lr')\<rparr>)"

definition zone_changes :: "limit_resolver \<Rightarrow> string \<Rightarrow> (u16 \<times> int option) list \<Rightarrow> zone_change list" where
  "zone_changes lr zid cs = (if lr_on_change lr then [(zid, cs)] else [])"

abbreviation both_nil :: "(u16 \<times> int option) list" where
  "both_nil \<equiv> [(AttrMyConsumptionLimit, None), (AttrMyProductionLimit, None)]"

definition request_duration :: "set_limit_request \<Rightarrow> duration" where
  "request_duration req =
     (case sl_duration req of
        Some d \<Rightarrow> if d > 0 then uint d * second else 0
      | None \<Rightarrow> 0)"

text \<open>One value with its timer: the errors of SetTimer and CancelTimer are dropped.\<close>

definition set_or_cancel_timer :: "time \<Rightarrow> u8 \<Rightarrow> command_type \<Rightarrow> duration \<Rightarrow> int \<Rightarrow>
    int dur_manager \<Rightarrow> int dur_manager" where
  "set_or_cancel_timer now idx c dur v m =
     (if dur > 0 then fst (dm_set_timer now idx c dur v m) else fst (dm_cancel_timer idx c m))"

definition store_consumption :: "time \<Rightarrow> string \<Rightarrow> zone_type \<Rightarrow> u8 \<Rightarrow> duration \<Rightarrow> int option \<Rightarrow>
    limit_resolver \<Rightarrow> limit_resolver" where
  "store_consumption now zid zt idx dur limit lr =
     (case limit of
        None \<Rightarrow> lr
      | Some v \<Rightarrow> lr\<lparr>lr_consumption := mz_set now zid zt v dur (lr_consumption lr),
                     lr_timers := set_or_cancel_timer now idx CmdLimitConsumption dur v (lr_timers lr)\<rparr>)"

definition store_production :: "time \<Rightarrow> string \<Rightarrow> zone_type \<Rightarrow> u8 \<Rightarrow> duration \<Rightarrow> int option \<Rightarrow>
    limit_resolver \<Rightarrow> limit_resolver" where
  "store_production now zid zt idx dur limit lr =
     (case limit of
        None \<Rightarrow> lr
      | Some v \<Rightarrow> lr\<lparr>lr_production := mz_set now zid zt v dur (lr_production lr),
                     lr_timers := set_or_cancel_timer now idx CmdLimitProduction dur v (lr_timers lr)\<rparr>)"

definition rejected :: "limit_reject_reason \<Rightarrow> control_state \<Rightarrow> set_limit_response" where
  "rejected reason cs = \<lparr>sr_applied = False, sr_control_state = cs, sr_effective_consumption = None,
     sr_effective_production = None, sr_reject_reason = Some reason\<rparr>"

definition negative :: "int option \<Rightarrow> bool" where
  "negative limit \<longleftrightarrow> (case limit of None \<Rightarrow> False | Some v \<Rightarrow> v < 0)"

definition exceeds :: "int option \<Rightarrow> int \<Rightarrow> bool" where
  "exceeds limit cap \<longleftrightarrow> (case limit of None \<Rightarrow> False | Some v \<Rightarrow> cap > 0 \<and> v > cap)"

definition handle_set_limit :: "time \<Rightarrow> string \<Rightarrow> zone_type \<Rightarrow> set_limit_request \<Rightarrow> limit_resolver \<Rightarrow>
    limit_resolver \<times> (status + set_limit_response) \<times> zone_change list" where
  "handle_set_limit now zid zt req lr =
     (if zid = '''' then
        (lr, Inr (rejected LimitRejectReasonInvalidValue (ec_control_state (lr_ec lr))), [])
      else if negative (sl_consumption_limit req) then
        (lr, Inr (rejected LimitRejectReasonInvalidValue (ec_control_state (lr_ec lr))), [])
      else if negative (sl_production_limit req) then
        (lr, Inr (rejected LimitRejectReasonInvalidValue (ec_control_state (lr_ec lr))), [])
      else if exceeds (sl_consumption_limit req) (lr_max_consumption lr) then
        (lr, Inl StatusConstraintError, [])
      else if exceeds (sl_production_limit req) (lr_max_production lr) then
        (lr, Inl StatusConstraintError, [])
      else if ec_is_override (lr_ec lr) then
        (lr, Inr (rejected LimitRejectReasonDeviceOverride ControlStateOverride), [])
      else if sl_consumption_limit req = None \<and> sl_production_limit req = None then
        let lr' = resolve_and_apply now (clear_zone_locked zid lr)
        in (lr', Inr \<lparr>sr_applied = True, sr_control_state = ec_control_state (lr_ec lr'),
               sr_effective_consumption = None, sr_effective_production = None,
               sr_reject_reason = None\<rparr>,
            zone_changes lr' zid both_nil)
      else
        let (idx, lr1) = ensure_zone_index zid lr;
            dur = request_duration req;
            lr2 = store_consumption now zid zt idx dur (sl_consumption_limit req) lr1;
            lr3 = store_production now zid zt idx dur (sl_production_limit req) lr2;
            lr' = resolve_and_apply now lr3
        in (lr', Inr \<lparr>sr_applied = True, sr_control_state = ec_control_state (lr_ec lr'),
               sr_effective_consumption = ec_effective_consumption (lr_ec lr'),
               sr_effective_production = ec_effective_production (lr_ec lr'),
               sr_reject_reason = None\<rparr>,
            zone_changes lr' zid
              ((if sl_consumption_limit req \<noteq> None
                then [(AttrMyConsumptionLimit, sl_consumption_limit req)] else []) @
               (if sl_production_limit req \<noteq> None
                then [(AttrMyProductionLimit, sl_production_limit req)] else []))))"

text \<open>\<open>if hasIdx { _ = lr.timers.CancelTimer(zoneIdx, c) }\<close>\<close>

definition cancel_if_indexed :: "string \<Rightarrow> command_type \<Rightarrow> limit_resolver \<Rightarrow> limit_resolver" where
  "cancel_if_indexed zid c lr =
     (case gm_get (lr_zone_index lr) zid of
        None \<Rightarrow> lr
      | Some idx \<Rightarrow> lr\<lparr>lr_timers := fst (dm_cancel_timer idx c (lr_timers lr))\<rparr>)"

definition handle_clear_limit :: "time \<Rightarrow> string \<Rightarrow> direction option \<Rightarrow> limit_resolver \<Rightarrow>
    limit_resolver \<times> zone_change list" where
  "handle_clear_limit now zid dir lr =
     (if zid = '''' then (lr, [])
      else
        let clearC = (\<lambda>lr. lr\<lparr>lr_consumption := mz_clear zid (lr_consumption lr)\<rparr>);
            clearP = (\<lambda>lr. lr\<lparr>lr_production := mz_clear zid (lr_production lr)\<rparr>);
            lr1 = (case dir of
                None \<Rightarrow> cancel_if_indexed zid CmdLimitProduction
                         (cancel_if_indexed zid CmdLimitConsumption (clearP (clearC lr)))
              | Some DirectionConsumption \<Rightarrow> cancel_if_indexed zid CmdLimitConsumption (clearC lr)
              | Some DirectionProduction \<Rightarrow> cancel_if_indexed zid CmdLimitProduction (clearP lr)
              | Some DirectionBidirectional \<Rightarrow> lr);
            lr' = resolve_and_apply now lr1
        in (lr', zone_changes lr' zid
             ((if dir = None \<or> dir = Some DirectionConsumption then [(AttrMyConsumptionLimit, None)]
               else []) @
              (if dir = None \<or> dir = Some DirectionProduction then [(AttrMyProductionLimit, None)]
               else []))))"

definition reset_all :: "time \<Rightarrow> limit_resolver \<Rightarrow> limit_resolver \<times> zone_change list" where
  "reset_all now lr =
     (let lr1 = lr\<lparr>lr_timers := foldl (\<lambda>m (_, idx). dm_cancel_zone_timers idx m) (lr_timers lr)
                                  (lr_zone_index lr)\<rparr>;
          zones = map fst (lr_zone_index lr1);
          lr2 = lr1\<lparr>lr_consumption := new_multi_zone_value, lr_production := new_multi_zone_value\<rparr>;
          lr' = resolve_and_apply now lr2
      in (lr', concat (map (\<lambda>zid. zone_changes lr' zid both_nil) zones)))"

definition clear_zone :: "time \<Rightarrow> string \<Rightarrow> limit_resolver \<Rightarrow> limit_resolver \<times> zone_change list" where
  "clear_zone now zid lr =
     (let lr' = resolve_and_apply now (clear_zone_locked zid lr)
      in (lr', zone_changes lr' zid both_nil))"

definition handle_timer_expiry :: "time \<Rightarrow> u8 \<Rightarrow> command_type \<Rightarrow> limit_resolver \<Rightarrow>
    limit_resolver \<times> zone_change list" where
  "handle_timer_expiry now idx c lr =
     (case gm_get (lr_index_zone lr) idx of
        None \<Rightarrow> (lr, [])
      | Some zid \<Rightarrow>
          let lr1 = (case c of
                CmdLimitConsumption \<Rightarrow> lr\<lparr>lr_consumption := mz_clear zid (lr_consumption lr)\<rparr>
              | CmdLimitProduction \<Rightarrow> lr\<lparr>lr_production := mz_clear zid (lr_production lr)\<rparr>
              | _ \<Rightarrow> lr);
            lr' = resolve_and_apply now lr1
          in (lr', zone_changes lr' zid
                (case c of CmdLimitConsumption \<Rightarrow> [(AttrMyConsumptionLimit, None)]
                 | CmdLimitProduction \<Rightarrow> [(AttrMyProductionLimit, None)] | _ \<Rightarrow> [])))"

section \<open>Runs\<close>

text \<open>
  The steps: the handlers, the two stages of an expiring timer, the waiting callback that
  gets the resolver's lock (any of them: goroutines are not ordered), and the device
  application, which sets the control state.
\<close>

datatype lr_op =
    OpSetLimit time string zone_type set_limit_request
  | OpClearLimit time string "direction option"
  | OpClearZone time string
  | OpResetAll time
  | OpTimerFires time nat
  | OpTimerRuns nat
  | OpExpiryCallback time nat
  | OpAppState control_state

definition lr_timer_runs :: "nat \<Rightarrow> limit_resolver \<Rightarrow> limit_resolver" where
  "lr_timer_runs i lr =
     (let (m, cb) = dm_run_fired i (lr_timers lr)
      in lr\<lparr>lr_timers := m,
            lr_expired := lr_expired lr @ (case cb of None \<Rightarrow> [] | Some (idx, c, _) \<Rightarrow> [(idx, c)])\<rparr>)"

definition lr_expiry_callback :: "time \<Rightarrow> nat \<Rightarrow> limit_resolver \<Rightarrow> limit_resolver" where
  "lr_expiry_callback now n lr =
     (if n < length (lr_expired lr)
      then let (idx, c) = lr_expired lr ! n
           in fst (handle_timer_expiry now idx c
                (lr\<lparr>lr_expired := take n (lr_expired lr) @ drop (Suc n) (lr_expired lr)\<rparr>))
      else lr)"

fun lr_step :: "limit_resolver \<Rightarrow> lr_op \<Rightarrow> limit_resolver" where
  "lr_step lr (OpSetLimit now zid zt req) = fst (handle_set_limit now zid zt req lr)"
| "lr_step lr (OpClearLimit now zid dir) = fst (handle_clear_limit now zid dir lr)"
| "lr_step lr (OpClearZone now zid) = fst (clear_zone now zid lr)"
| "lr_step lr (OpResetAll now) = fst (reset_all now lr)"
| "lr_step lr (OpTimerFires now i) = lr\<lparr>lr_timers := dm_fire now i (lr_timers lr)\<rparr>"
| "lr_step lr (OpTimerRuns i) = lr_timer_runs i lr"
| "lr_step lr (OpExpiryCallback now n) = lr_expiry_callback now n lr"
| "lr_step lr (OpAppState s) = lr\<lparr>lr_ec := (lr_ec lr)\<lparr>ec_control_state := s\<rparr>\<rparr>"

section \<open>The invariant\<close>

text \<open>The limits stored for non-TEST zones. After a resolution none of them is expired.\<close>

definition stored_limits :: "multi_zone_value \<Rightarrow> (string \<times> zone_value) set" where
  "stored_limits m = {(zid, v). mz_get m zid = Some v \<and> zv_zone_type v \<noteq> ZoneTypeTest}"

definition limits_inv :: "int option \<Rightarrow> multi_zone_value \<Rightarrow> bool" where
  "limits_inv eff m \<longleftrightarrow>
     mz_wf m \<and> (\<forall>zid v. mz_get m zid = Some v \<longrightarrow> zv_value v \<ge> 0) \<and>
     limits_ok (eff, mz_winner m) (stored_limits m)"

text \<open>While at most 256 zones have come by, the two index maps are inverse to each other.\<close>

definition index_inv :: "limit_resolver \<Rightarrow> bool" where
  "index_inv lr \<longleftrightarrow>
     gm_wf (lr_zone_index lr) \<and> lr_next_index lr = of_nat (length (lr_zone_index lr)) \<and>
     (length (lr_zone_index lr) \<le> 256 \<longrightarrow>
        (\<forall>zid idx. gm_get (lr_zone_index lr) zid = Some idx \<longrightarrow>
           unat idx < length (lr_zone_index lr) \<and> gm_get (lr_index_zone lr) idx = Some zid))"

definition timers_inv :: "limit_resolver \<Rightarrow> bool" where
  "timers_inv lr \<longleftrightarrow>
     dm_inv (lr_timers lr) \<and> dm_on_expiry (lr_timers lr) \<and>
     (\<forall>k t. gm_get (dm_timers (lr_timers lr)) k = Some t \<longrightarrow>
        (\<exists>zid. gm_get (lr_zone_index lr) zid = Some (fst k)))"

definition lr_inv :: "limit_resolver \<Rightarrow> bool" where
  "lr_inv lr \<longleftrightarrow>
     limits_inv (ec_effective_consumption (lr_ec lr)) (lr_consumption lr) \<and>
     limits_inv (ec_effective_production (lr_ec lr)) (lr_production lr) \<and>
     index_inv lr \<and> timers_inv lr"

text \<open>What a value store has to satisfy between its change and the resolution.\<close>

definition values_ok :: "multi_zone_value \<Rightarrow> bool" where
  "values_ok m \<longleftrightarrow> mz_wf m \<and> (\<forall>zid v. mz_get m zid = Some v \<longrightarrow> zv_value v \<ge> 0)"

lemma limits_inv_values [simp]: "limits_inv eff m \<Longrightarrow> values_ok m"
  by (simp add: limits_inv_def values_ok_def)

lemma values_ok_new [simp]: "values_ok new_multi_zone_value"
  by (simp add: values_ok_def mz_get_def new_multi_zone_value_def mz_wf_def)

lemma values_ok_clear [simp]: "values_ok m \<Longrightarrow> values_ok (mz_clear zid m)"
  by (simp add: values_ok_def)

lemma mz_get_set: "mz_get (mz_set now zid zt v d m) = (mz_get m)(zid \<mapsto>
    \<lparr>zv_zone_id = zid, zv_zone_type = zt, zv_value = v, zv_duration = d, zv_set_at = now,
     zv_expires_at = (if d > 0 then now + d else zero_time)\<rparr>)"
  by (auto simp: mz_get_def mz_set_def gomap_simps fun_eq_iff)

lemma values_ok_set [simp]: "values_ok m \<Longrightarrow> v \<ge> 0 \<Longrightarrow> values_ok (mz_set now zid zt v d m)"
  by (simp add: values_ok_def mz_get_set)

text \<open>What a resolution leaves: the values that are not expired, and their winner.\<close>

lemma resolve_limits_state:
  "mz_values (fst (resolve_limits now m)) = mz_values (mz_remove_expired now m)"
  "mz_winner (fst (resolve_limits now m)) = snd (snd (resolve_limits now m))"
  by (auto simp: resolve_limits_def Let_def split: prod.split)

lemma resolve_limits_get:
  "mz_wf m \<Longrightarrow> mz_get (fst (resolve_limits now m)) zid
     = (case mz_get m zid of None \<Rightarrow> None | Some v \<Rightarrow> if zv_is_expired now v then None else Some v)"
  using mz_get_remove_expired [of m now zid] by (simp add: mz_get_def resolve_limits_state(1))

lemma resolve_limits_inv:
  assumes "values_ok m"
  shows "limits_inv (fst (snd (resolve_limits now m))) (fst (resolve_limits now m))"
proof -
  from assms have wf: "mz_wf m" by (simp add: values_ok_def)
  have "stored_limits (fst (resolve_limits now m)) = live_values now m"
    by (auto simp: stored_limits_def live_values_def resolve_limits_get [OF wf] split: option.splits if_splits)
  with assms resolve_limits_ok [OF wf, of now] wf show ?thesis
    by (auto simp: limits_inv_def values_ok_def resolve_limits_get [OF wf] resolve_limits_state(2)
        split: option.splits if_splits)
qed

lemma resolve_and_apply_simps [simp]:
  "lr_consumption (resolve_and_apply now lr) = fst (resolve_limits now (lr_consumption lr))"
  "lr_production (resolve_and_apply now lr) = fst (resolve_limits now (lr_production lr))"
  "ec_effective_consumption (lr_ec (resolve_and_apply now lr))
     = fst (snd (resolve_limits now (lr_consumption lr)))"
  "ec_effective_production (lr_ec (resolve_and_apply now lr))
     = fst (snd (resolve_limits now (lr_production lr)))"
  "lr_timers (resolve_and_apply now lr) = lr_timers lr"
  "lr_zone_index (resolve_and_apply now lr) = lr_zone_index lr"
  "lr_index_zone (resolve_and_apply now lr) = lr_index_zone lr"
  "lr_next_index (resolve_and_apply now lr) = lr_next_index lr"
  "lr_expired (resolve_and_apply now lr) = lr_expired lr"
  "ec_control_state (lr_ec (resolve_and_apply now lr))
     = (if ec_effective_consumption (lr_ec (resolve_and_apply now lr)) \<noteq> None \<or>
           ec_effective_production (lr_ec (resolve_and_apply now lr)) \<noteq> None
        then ControlStateControlled else ControlStateAutonomous)"
  by (simp_all add: resolve_and_apply_def split: prod.split)

text \<open>So a handler keeps the invariant if it ends in a resolution of acceptable values.\<close>

lemma lr_inv_resolve:
  assumes "values_ok (lr_consumption lr)" and "values_ok (lr_production lr)"
    and "index_inv lr" and "timers_inv lr"
  shows "lr_inv (resolve_and_apply now lr)"
  using assms by (auto simp: lr_inv_def resolve_limits_inv index_inv_def timers_inv_def)

lemma lr_invD:
  assumes "lr_inv lr"
  shows "values_ok (lr_consumption lr)" and "values_ok (lr_production lr)"
    and "index_inv lr" and "timers_inv lr"
  using assms by (auto simp: lr_inv_def)

lemma lr_inv_new:
  assumes "ec_effective_consumption ec = None" and "ec_effective_production ec = None"
  shows "lr_inv (new_limit_resolver ec)"
  using assms
  by (simp add: lr_inv_def new_limit_resolver_def limits_inv_def index_inv_def timers_inv_def
      stored_limits_def mz_get_def limits_ok_def dm_inv_set_on_expiry)
    (simp add: new_multi_zone_value_def mz_wf_def dm_set_on_expiry_def new_dur_manager_def)

subsection \<open>Zone indices\<close>

lemma index_inv_cong:
  "lr_zone_index lr' = lr_zone_index lr \<Longrightarrow> lr_index_zone lr' = lr_index_zone lr \<Longrightarrow>
   lr_next_index lr' = lr_next_index lr \<Longrightarrow> index_inv lr' = index_inv lr"
  by (simp add: index_inv_def)

lemma ensure_zone_index_get:
  "gm_get (lr_zone_index (snd (ensure_zone_index zid lr))) zid = Some (fst (ensure_zone_index zid lr))"
  by (auto simp: ensure_zone_index_def Let_def gomap_simps split: option.split)

lemma ensure_zone_index_mono:
  "gm_get (lr_zone_index lr) z = Some i \<Longrightarrow> gm_get (lr_zone_index (snd (ensure_zone_index zid lr))) z = Some i"
  by (auto simp: ensure_zone_index_def Let_def gomap_simps split: option.split)

lemma ensure_zone_index_simps [simp]:
  "lr_consumption (snd (ensure_zone_index zid lr)) = lr_consumption lr"
  "lr_production (snd (ensure_zone_index zid lr)) = lr_production lr"
  "lr_timers (snd (ensure_zone_index zid lr)) = lr_timers lr"
  "lr_expired (snd (ensure_zone_index zid lr)) = lr_expired lr"
  by (simp_all add: ensure_zone_index_def Let_def split: option.split)

lemma index_inv_ensure:
  assumes "index_inv lr"
  shows "index_inv (snd (ensure_zone_index zid lr))"
proof (cases "gm_get (lr_zone_index lr) zid")
  case (Some idx)
  with assms show ?thesis by (simp add: ensure_zone_index_def)
next
  case None
  let ?n = "length (lr_zone_index lr)"
  have len: "length (gm_put zid i (lr_zone_index lr)) = Suc ?n" for i
    using None by (simp add: gm_put_new)
  have new: "unat (of_nat ?n :: u8) = ?n" if "?n < 256"
    using that by (simp add: unat_of_nat take_bit_eq_mod)
  have old: "unat idx < ?n \<and> gm_get (lr_index_zone lr) idx = Some z"
    if "gm_get (lr_zone_index lr) z = Some idx" and "?n < 256" for z idx
    using assms that by (simp add: index_inv_def)
  have ne: "idx \<noteq> of_nat ?n" if "gm_get (lr_zone_index lr) z = Some idx" and "?n < 256" for z idx
    using old [OF that] new [OF that(2)] by auto
  show ?thesis
    unfolding index_inv_def
  proof (intro conjI impI allI)
    fix z idx
    assume "length (lr_zone_index (snd (ensure_zone_index zid lr))) \<le> 256"
      and z: "gm_get (lr_zone_index (snd (ensure_zone_index zid lr))) z = Some idx"
    then have n: "?n < 256" using None by (simp add: ensure_zone_index_def Let_def len)
    show "unat idx < length (lr_zone_index (snd (ensure_zone_index zid lr)))"
      and "gm_get (lr_index_zone (snd (ensure_zone_index zid lr))) idx = Some z"
      using z None assms new [OF n] old [OF _ n] ne [OF _ n]
      by (auto simp: ensure_zone_index_def Let_def gomap_simps len index_inv_def less_SucI
          split: if_splits)
  qed (use assms None in \<open>auto simp: index_inv_def ensure_zone_index_def Let_def len\<close>)
qed

subsection \<open>Timers\<close>

text \<open>The tracked timers after each operation of the manager: no key appears but the one set.\<close>

lemma dm_get_cancel:
  "gm_get (dm_timers (fst (dm_cancel_timer z c m))) k
     = (if k = (z, c) then None else gm_get (dm_timers m) k)"
  by (auto simp: dm_cancel_timer_def gomap_simps split: option.split)

lemma dm_get_set:
  "gm_get (dm_timers (fst (dm_set_timer now z c d v m))) k = Some t \<Longrightarrow>
   k = (z, c) \<or> gm_get (dm_timers m) k = Some t"
  by (auto simp: dm_set_timer_def Let_def gomap_simps split: prod.splits if_splits)

lemma dm_get_run:
  "gm_get (dm_timers (fst (dm_run_fired i m))) k = Some t \<Longrightarrow> gm_get (dm_timers m) k = Some t"
  by (auto simp: dm_run_fired_def dm_expire_timer_def gomap_simps
      split: option.splits prod.splits if_splits)

lemma dm_expiry_simps [simp]:
  "dm_on_expiry (fst (dm_cancel_timer z c m)) = dm_on_expiry m"
  "dm_on_expiry (fst (dm_set_timer now z c d v m)) = dm_on_expiry m"
  "dm_on_expiry (dm_cancel_zone_timers z m) = dm_on_expiry m"
  "dm_on_expiry (dm_fire now i m) = dm_on_expiry m"
  "dm_on_expiry (fst (dm_run_fired i m)) = dm_on_expiry m"
  by (auto simp: dm_cancel_timer_def dm_set_timer_def dm_cancel_zone_timers_def dm_fire_def
      dm_run_fired_def dm_expire_timer_def Let_def split: option.split prod.split)

text \<open>A manager whose timers all come from the old one or belong to an indexed zone.\<close>

lemma timers_invI:
  assumes "timers_inv lr" and "dm_inv (lr_timers lr')" and "dm_on_expiry (lr_timers lr')"
    and "\<And>z i. gm_get (lr_zone_index lr) z = Some i \<Longrightarrow> gm_get (lr_zone_index lr') z = Some i"
    and "\<And>k t. gm_get (dm_timers (lr_timers lr')) k = Some t \<Longrightarrow>
        gm_get (dm_timers (lr_timers lr)) k \<noteq> None \<or> (\<exists>zid. gm_get (lr_zone_index lr') zid = Some (fst k))"
  shows "timers_inv lr'"
  using assms unfolding timers_inv_def by (metis not_None_eq)

lemma timers_inv_ensure:
  assumes "timers_inv lr"
  shows "timers_inv (snd (ensure_zone_index zid lr))"
  by (rule timers_invI [OF assms])
    (use assms in \<open>auto simp: timers_inv_def ensure_zone_index_mono\<close>)

lemma timers_inv_cancel_if:
  assumes "timers_inv lr"
  shows "timers_inv (cancel_if_indexed zid c lr)"
  by (rule timers_invI [OF assms])
    (use assms in \<open>auto simp: timers_inv_def cancel_if_indexed_def dm_inv_cancel dm_get_cancel
      split: option.split_asm if_splits option.split\<close>)

lemma set_or_cancel_inv:
  assumes "dm_inv m"
  shows "dm_inv (set_or_cancel_timer now idx c dur v m)"
    and "dm_on_expiry (set_or_cancel_timer now idx c dur v m) = dm_on_expiry m"
    and "gm_get (dm_timers (set_or_cancel_timer now idx c dur v m)) k \<noteq> None \<Longrightarrow>
      k = (idx, c) \<or> gm_get (dm_timers m) k \<noteq> None"
  using assms
  by (auto simp: set_or_cancel_timer_def dm_inv_set dm_inv_cancel dm_get_cancel
      dest: dm_get_set split: if_splits)

lemma timers_inv_store:
  assumes "timers_inv lr" and "gm_get (lr_zone_index lr) zid = Some idx"
  shows "timers_inv (store_consumption now zid zt idx dur limit lr)"
    and "timers_inv (store_production now zid zt idx dur limit lr)"
proof -
  have inv: "dm_inv (lr_timers lr)" and ex: "dm_on_expiry (lr_timers lr)"
    using assms(1) by (simp_all add: timers_inv_def)
  note facts = set_or_cancel_inv [OF inv]
  show "timers_inv (store_consumption now zid zt idx dur limit lr)"
    by (rule timers_invI [OF assms(1)])
      (use inv ex facts(1,2) facts(3) assms(2) in \<open>auto simp: store_consumption_def split: option.splits,
        fastforce\<close>)
  show "timers_inv (store_production now zid zt idx dur limit lr)"
    by (rule timers_invI [OF assms(1)])
      (use inv ex facts(1,2) facts(3) assms(2) in \<open>auto simp: store_production_def split: option.splits,
        fastforce\<close>)
qed

lemma timers_inv_values [simp]:
  "timers_inv (lr\<lparr>lr_consumption := x\<rparr>) = timers_inv lr"
  "timers_inv (lr\<lparr>lr_production := x\<rparr>) = timers_inv lr"
  "timers_inv (lr\<lparr>lr_expired := e\<rparr>) = timers_inv lr"
  "timers_inv (lr\<lparr>lr_ec := ec\<rparr>) = timers_inv lr"
  by (simp_all add: timers_inv_def)

lemma index_inv_values [simp]:
  "index_inv (lr\<lparr>lr_consumption := x\<rparr>) = index_inv lr"
  "index_inv (lr\<lparr>lr_production := x\<rparr>) = index_inv lr"
  "index_inv (lr\<lparr>lr_expired := e\<rparr>) = index_inv lr"
  "index_inv (lr\<lparr>lr_ec := ec\<rparr>) = index_inv lr"
  "index_inv (lr\<lparr>lr_timers := m\<rparr>) = index_inv lr"
  by (simp_all add: index_inv_def)

subsection \<open>Every step keeps the invariant\<close>

lemma clear_zone_locked_simps [simp]:
  "lr_consumption (clear_zone_locked zid lr) = mz_clear zid (lr_consumption lr)"
  "lr_production (clear_zone_locked zid lr) = mz_clear zid (lr_production lr)"
  "lr_zone_index (clear_zone_locked zid lr) = lr_zone_index lr"
  "index_inv (clear_zone_locked zid lr) = index_inv lr"
  "lr_ec (clear_zone_locked zid lr) = lr_ec lr"
  "lr_expired (clear_zone_locked zid lr) = lr_expired lr"
  by (auto simp: clear_zone_locked_def Let_def index_inv_def split: option.split)

lemma timers_inv_cancel_zone:
  assumes "timers_inv lr"
  shows "timers_inv (lr\<lparr>lr_timers := dm_cancel_zone_timers idx (lr_timers lr)\<rparr>)"
  by (rule timers_invI [OF assms])
    (use assms in \<open>auto simp: timers_inv_def dm_inv_cancel_zone dm_get_cancel_zone dm_inv_wf split: if_splits\<close>)

lemma timers_inv_clear_zone: "timers_inv lr \<Longrightarrow> timers_inv (clear_zone_locked zid lr)"
  using timers_inv_cancel_zone
    [of "lr\<lparr>lr_consumption := mz_clear zid (lr_consumption lr), lr_production := mz_clear zid (lr_production lr)\<rparr>"]
  by (auto simp: clear_zone_locked_def Let_def split: option.split)

lemma lr_inv_clear_zone:
  "lr_inv lr \<Longrightarrow> lr_inv (resolve_and_apply now (clear_zone_locked zid lr))"
  by (rule lr_inv_resolve) (simp_all add: lr_invD timers_inv_clear_zone)

lemma store_simps [simp]:
  "lr_consumption (store_production now zid zt idx dur l lr) = lr_consumption lr"
  "lr_production (store_consumption now zid zt idx dur l lr) = lr_production lr"
  "lr_zone_index (store_production now zid zt idx dur l lr) = lr_zone_index lr"
  "lr_zone_index (store_consumption now zid zt idx dur l lr) = lr_zone_index lr"
  "index_inv (store_production now zid zt idx dur l lr) = index_inv lr"
  "index_inv (store_consumption now zid zt idx dur l lr) = index_inv lr"
  "lr_consumption (store_consumption now zid zt idx dur l lr)
     = (case l of None \<Rightarrow> lr_consumption lr | Some v \<Rightarrow> mz_set now zid zt v dur (lr_consumption lr))"
  "lr_production (store_production now zid zt idx dur l lr)
     = (case l of None \<Rightarrow> lr_production lr | Some v \<Rightarrow> mz_set now zid zt v dur (lr_production lr))"
  by (auto simp: store_consumption_def store_production_def index_inv_def split: option.split)

text \<open>The branch of SetLimit that stores: the state before the resolution.\<close>

definition stored_state :: "time \<Rightarrow> string \<Rightarrow> zone_type \<Rightarrow> set_limit_request \<Rightarrow> limit_resolver \<Rightarrow>
    limit_resolver" where
  "stored_state now zid zt req lr =
     (let (idx, lr1) = ensure_zone_index zid lr
      in store_production now zid zt idx (request_duration req) (sl_production_limit req)
           (store_consumption now zid zt idx (request_duration req) (sl_consumption_limit req) lr1))"

definition accepts :: "string \<Rightarrow> set_limit_request \<Rightarrow> limit_resolver \<Rightarrow> bool" where
  "accepts zid req lr \<longleftrightarrow>
     zid \<noteq> '''' \<and> \<not> negative (sl_consumption_limit req) \<and> \<not> negative (sl_production_limit req) \<and>
     \<not> exceeds (sl_consumption_limit req) (lr_max_consumption lr) \<and>
     \<not> exceeds (sl_production_limit req) (lr_max_production lr) \<and> \<not> ec_is_override (lr_ec lr)"

lemma handle_set_limit_state:
  "fst (handle_set_limit now zid zt req lr)
     = (if \<not> accepts zid req lr then lr
        else if sl_consumption_limit req = None \<and> sl_production_limit req = None
        then resolve_and_apply now (clear_zone_locked zid lr)
        else resolve_and_apply now (stored_state now zid zt req lr))"
  by (auto simp: handle_set_limit_def accepts_def stored_state_def Let_def split: prod.split)

lemma lr_inv_stored:
  assumes "lr_inv lr" and "accepts zid req lr"
  shows "lr_inv (resolve_and_apply now (stored_state now zid zt req lr))"
proof -
  obtain idx lr1 where e: "ensure_zone_index zid lr = (idx, lr1)" by (cases "ensure_zone_index zid lr")
  note inv = lr_invD [OF assms(1)]
  have get: "gm_get (lr_zone_index lr1) zid = Some idx" and t1: "timers_inv lr1" and i1: "index_inv lr1"
    and c1: "lr_consumption lr1 = lr_consumption lr" and p1: "lr_production lr1 = lr_production lr"
    using ensure_zone_index_get [of zid lr] timers_inv_ensure [OF inv(4), of zid]
      index_inv_ensure [OF inv(3), of zid] ensure_zone_index_simps [of zid lr] by (simp_all add: e)
  show ?thesis
    by (rule lr_inv_resolve)
      (use assms(2) inv(1,2) get t1 i1 in \<open>simp_all add: stored_state_def e c1 p1 accepts_def
        negative_def timers_inv_store split: option.split option.split_asm\<close>)
qed

lemma lr_inv_set_limit: "lr_inv lr \<Longrightarrow> lr_inv (fst (handle_set_limit now zid zt req lr))"
  by (simp add: handle_set_limit_state lr_inv_clear_zone lr_inv_stored)

lemma cancel_if_simps [simp]:
  "lr_consumption (cancel_if_indexed zid c lr) = lr_consumption lr"
  "lr_production (cancel_if_indexed zid c lr) = lr_production lr"
  "index_inv (cancel_if_indexed zid c lr) = index_inv lr"
  by (simp_all add: cancel_if_indexed_def split: option.split)

lemma lr_inv_clear_limit: "lr_inv lr \<Longrightarrow> lr_inv (fst (handle_clear_limit now zid dir lr))"
  by (auto simp: handle_clear_limit_def Let_def lr_invD timers_inv_cancel_if
      intro!: lr_inv_resolve split: option.split direction.split)

lemma lr_inv_clear: "lr_inv lr \<Longrightarrow> lr_inv (fst (clear_zone now zid lr))"
  by (simp add: clear_zone_def Let_def lr_inv_clear_zone)

lemma timers_inv_cancel_all:
  "timers_inv lr \<Longrightarrow>
   timers_inv (lr\<lparr>lr_timers := foldl (\<lambda>m (_, idx). dm_cancel_zone_timers idx m) (lr_timers lr) es\<rparr>)"
proof (induction es arbitrary: lr)
  case Nil
  then show ?case by simp
next
  case (Cons e es)
  from Cons.IH [OF timers_inv_cancel_zone [OF Cons.prems]] show ?case by (simp add: split_beta)
qed

lemma lr_inv_reset: "lr_inv lr \<Longrightarrow> lr_inv (fst (reset_all now lr))"
  unfolding reset_all_def Let_def fst_conv
  by (rule lr_inv_resolve) (use timers_inv_cancel_all [OF lr_invD(4)] in \<open>simp_all add: lr_invD\<close>)

lemma lr_inv_expiry: "lr_inv lr \<Longrightarrow> lr_inv (fst (handle_timer_expiry now idx c lr))"
  by (auto simp: handle_timer_expiry_def Let_def lr_invD intro!: lr_inv_resolve
      split: option.split command_type.split)

lemma lr_inv_expired [simp]: "lr_inv (lr\<lparr>lr_expired := e\<rparr>) = lr_inv lr"
  by (simp add: lr_inv_def)

lemma lr_inv_step: "lr_inv lr \<Longrightarrow> lr_inv (lr_step lr e)"
proof (cases e)
  case (OpTimerFires now i)
  assume "lr_inv lr"
  then show ?thesis
    by (simp add: OpTimerFires lr_inv_def timers_inv_def dm_inv_fire) (simp add: dm_fire_def)
next
  case (OpTimerRuns i)
  assume inv: "lr_inv lr"
  have "timers_inv (lr\<lparr>lr_timers := fst (dm_run_fired i (lr_timers lr))\<rparr>)"
    by (rule timers_invI [OF lr_invD(4) [OF inv]])
      (use lr_invD(4) [OF inv] in \<open>auto simp: timers_inv_def dm_inv_run dest: dm_get_run\<close>)
  then show ?thesis using inv
    by (cases "dm_run_fired i (lr_timers lr)") (simp add: OpTimerRuns lr_timer_runs_def lr_inv_def)
next
  case (OpExpiryCallback now n)
  assume "lr_inv lr"
  then show ?thesis
    by (simp add: OpExpiryCallback lr_expiry_callback_def lr_inv_expiry split: prod.split)
next
  case (OpAppState s)
  assume "lr_inv lr"
  then show ?thesis by (simp add: OpAppState lr_inv_def)
qed (simp_all add: lr_inv_set_limit lr_inv_clear_limit lr_inv_clear lr_inv_reset)

interpretation lr_machine: invariant_machine lr_step lr_inv
  by unfold_locales (rule lr_inv_step)

section \<open>Properties\<close>

text \<open>A limit that has just been set counts in the resolution that follows.\<close>

lemma resolve_after_set:
  assumes "values_ok m" and "zt \<noteq> ZoneTypeTest" and "v \<ge> 0"
  shows "\<exists>e zv. fst (snd (resolve_limits now (mz_set now zid zt v d m))) = Some e \<and> 0 \<le> e \<and> e \<le> v \<and>
    mz_get (fst (resolve_limits now (mz_set now zid zt v d m))) zid = Some zv \<and> zv_value zv = v \<and>
    zv_expires_at zv = (if d > 0 then now + d else zero_time)"
proof -
  let ?m = "mz_set now zid zt v d m"
  let ?r = "fst (resolve_limits now ?m)" and ?eff = "fst (snd (resolve_limits now ?m))"
  have ok: "values_ok ?m" using assms by simp
  then have wf: "mz_wf ?m" by (simp add: values_ok_def)
  obtain zv where zv: "mz_get ?m zid = Some zv" "zv_value zv = v" "zv_zone_type zv = zt"
    "zv_expires_at zv = (if d > 0 then now + d else zero_time)"
    by (simp add: mz_get_set)
  then have "\<not> zv_is_expired now zv" by (simp add: zv_is_expired_def)
  with zv have get: "mz_get ?r zid = Some zv" by (simp add: resolve_limits_get [OF wf])
  with zv assms(2) have mem: "(zid, zv) \<in> stored_limits ?r" by (simp add: stored_limits_def)
  have inv: "limits_inv ?eff ?r" by (rule resolve_limits_inv [OF ok])
  then have lok: "limits_ok (?eff, mz_winner ?r) (stored_limits ?r)"
    and nn: "\<And>z w. mz_get ?r z = Some w \<Longrightarrow> zv_value w \<ge> 0"
    by (auto simp: limits_inv_def)
  from lok mem obtain e w where e: "?eff = Some e" and w: "(mz_winner ?r, w) \<in> stored_limits ?r"
    "zv_value w = e"
    by (auto simp: limits_ok_def split: option.splits)
  from lok mem e have "more_restrictive e v" using zv(2) by (auto simp: limits_ok_def)
  moreover from w nn have "e \<ge> 0" by (auto simp: stored_limits_def)
  ultimately have "e \<le> v" using assms(3) by (simp add: more_restrictive_def)
  with e get zv \<open>e \<ge> 0\<close> show ?thesis by simp
qed

lemma stored_state_values:
  "lr_consumption (stored_state now zid zt req lr)
     = (case sl_consumption_limit req of None \<Rightarrow> lr_consumption lr
        | Some v \<Rightarrow> mz_set now zid zt v (request_duration req) (lr_consumption lr))"
  "lr_production (stored_state now zid zt req lr)
     = (case sl_production_limit req of None \<Rightarrow> lr_production lr
        | Some v \<Rightarrow> mz_set now zid zt v (request_duration req) (lr_production lr))"
proof -
  obtain idx lr1 where e: "ensure_zone_index zid lr = (idx, lr1)" by (cases "ensure_zone_index zid lr")
  have "lr_consumption lr1 = lr_consumption lr" and "lr_production lr1 = lr_production lr"
    using ensure_zone_index_simps(1,2) [of zid lr] by (simp_all add: e)
  then show "lr_consumption (stored_state now zid zt req lr)
     = (case sl_consumption_limit req of None \<Rightarrow> lr_consumption lr
        | Some v \<Rightarrow> mz_set now zid zt v (request_duration req) (lr_consumption lr))"
    and "lr_production (stored_state now zid zt req lr)
     = (case sl_production_limit req of None \<Rightarrow> lr_production lr
        | Some v \<Rightarrow> mz_set now zid zt v (request_duration req) (lr_production lr))"
    by (simp_all add: stored_state_def e split: option.split)
qed

text \<open>What the resolver answers when it stores.\<close>

lemma handle_set_limit_response:
  assumes "accepts zid req lr"
    and "\<not> (sl_consumption_limit req = None \<and> sl_production_limit req = None)"
  shows "fst (snd (handle_set_limit now zid zt req lr))
    = (let lr' = fst (handle_set_limit now zid zt req lr)
       in Inr \<lparr>sr_applied = True, sr_control_state = ec_control_state (lr_ec lr'),
            sr_effective_consumption = ec_effective_consumption (lr_ec lr'),
            sr_effective_production = ec_effective_production (lr_ec lr'), sr_reject_reason = None\<rparr>)"
  using assms by (auto simp: handle_set_limit_def accepts_def Let_def split: prod.split)

lemma applied_set_limit:
  assumes "handle_set_limit now zid zt req lr = (lr', Inr resp, out)" and "sr_applied resp"
    and "\<not> (sl_consumption_limit req = None \<and> sl_production_limit req = None)"
  shows "accepts zid req lr" and "lr' = resolve_and_apply now (stored_state now zid zt req lr)"
    and "sr_effective_consumption resp = ec_effective_consumption (lr_ec lr')"
    and "sr_effective_production resp = ec_effective_production (lr_ec lr')"
proof -
  show acc: "accepts zid req lr"
    using assms(1,2) by (auto simp: handle_set_limit_def accepts_def rejected_def split: if_splits)
  show "lr' = resolve_and_apply now (stored_state now zid zt req lr)"
    using handle_set_limit_state [of now zid zt req lr] acc assms by simp
  show "sr_effective_consumption resp = ec_effective_consumption (lr_ec lr')"
    and "sr_effective_production resp = ec_effective_production (lr_ec lr')"
    using handle_set_limit_response [OF acc assms(3), of now zt] assms(1) by simp_all
qed


abbreviation idle_ec :: energy_control where
  "idle_ec \<equiv> \<lparr>ec_control_state = ControlStateAutonomous, ec_effective_consumption = None,
     ec_effective_production = None\<rparr>"

abbreviation limit_request :: "int \<Rightarrow> u32 option \<Rightarrow> set_limit_request" where
  "limit_request c d \<equiv> \<lparr>sl_consumption_limit = Some c, sl_production_limit = None,
     sl_duration = d, sl_cause = 0\<rparr>"


text \<open>SetLimit decides as documented: an empty zone id or a negative limit is rejected
  as an invalid value, then a limit above the device's maximum is answered with
  CONSTRAINT_ERROR, then any limit is rejected while the device overrides. In each of these
  cases no state changes and no callback is made; in every other case the limit is applied.\<close>

theorem set_limit_outcome:
  "let (lr', r, out) = handle_set_limit now zid zt req lr
   in if accepts zid req lr
      then \<exists>resp. r = Inr resp \<and> sr_applied resp \<and> sr_reject_reason resp = None
      else lr' = lr \<and> out = [] \<and>
        r = (if zid = '''' \<or> negative (sl_consumption_limit req) \<or> negative (sl_production_limit req)
             then Inr (rejected LimitRejectReasonInvalidValue (ec_control_state (lr_ec lr)))
             else if exceeds (sl_consumption_limit req) (lr_max_consumption lr) \<or>
                 exceeds (sl_production_limit req) (lr_max_production lr)
             then Inl StatusConstraintError
             else Inr (rejected LimitRejectReasonDeviceOverride ControlStateOverride))"
  by (auto simp: handle_set_limit_def accepts_def Let_def split: prod.split)

text \<open>The effective limit against the limits that are stored.\<close>

definition most_restrictive_of :: "multi_zone_value \<Rightarrow> int option \<Rightarrow> bool" where
  "most_restrictive_of m eff \<longleftrightarrow>
     (case eff of
        None \<Rightarrow> (\<forall>zid v. mz_get m zid = Some v \<longrightarrow> zv_zone_type v = ZoneTypeTest)
      | Some e \<Rightarrow> 0 \<le> e \<and>
          (\<exists>zid v. mz_get m zid = Some v \<and> zv_zone_type v \<noteq> ZoneTypeTest \<and> zv_value v = e) \<and>
          (\<forall>zid v. mz_get m zid = Some v \<longrightarrow> zv_zone_type v \<noteq> ZoneTypeTest \<longrightarrow> e \<le> zv_value v))"

lemma limits_inv_most_restrictive:
  assumes "limits_inv eff m"
  shows "most_restrictive_of m eff"
proof (cases eff)
  case None
  with assms show ?thesis
    by (auto simp: limits_inv_def limits_ok_def most_restrictive_of_def stored_limits_def)
next
  case (Some e)
  from assms have nn: "\<And>zid v. mz_get m zid = Some v \<Longrightarrow> zv_value v \<ge> 0"
    and ok: "limits_ok (Some e, mz_winner m) (stored_limits m)"
    by (simp_all add: limits_inv_def Some)
  from ok obtain v where v: "(mz_winner m, v) \<in> stored_limits m" "zv_value v = e"
    and all: "\<And>zid w. (zid, w) \<in> stored_limits m \<Longrightarrow> more_restrictive e (zv_value w)"
    by (auto simp: limits_ok_def)
  then have "0 \<le> e" using nn by (auto simp: stored_limits_def)
  with v all nn show ?thesis
    by (auto simp: most_restrictive_of_def Some stored_limits_def more_restrictive_def)
qed

text \<open>C2. In every run of the resolver, with any interleaving of commands, timer firings,
  delayed expiry callbacks and state changes by the application, the effective limits on
  the feature are the smallest of the limits stored for non-TEST zones, and absent exactly
  when there is none.\<close>

theorem effective_limits_invariant:
  assumes "ec_effective_consumption ec = None" and "ec_effective_production ec = None"
    and "lr = foldl lr_step (new_limit_resolver ec) ops"
  shows "most_restrictive_of (lr_consumption lr) (ec_effective_consumption (lr_ec lr)) \<and>
    most_restrictive_of (lr_production lr) (ec_effective_production (lr_ec lr))"
proof -
  have "lr_inv lr"
    unfolding assms(3) by (rule lr_machine.run_inv) (rule lr_inv_new [OF assms(1,2)])
  then show ?thesis by (simp add: lr_inv_def limits_inv_most_restrictive)
qed

theorem effective_limits_invariant_witness:
  "let ops = [OpSetLimit 5 ''grid'' ZoneTypeGrid (limit_request 3000 (Some 60)),
        OpSetLimit 6 ''local'' ZoneTypeLocal (limit_request 2000 None), OpClearZone 7 ''local''];
       lr = foldl lr_step (new_limit_resolver idle_ec) ops
   in ec_effective_consumption (lr_ec lr) = Some 3000 \<and>
      most_restrictive_of (lr_consumption lr) (ec_effective_consumption (lr_ec lr))"
proof -
  let ?ops = "[OpSetLimit 5 ''grid'' ZoneTypeGrid (limit_request 3000 (Some 60)),
        OpSetLimit 6 ''local'' ZoneTypeLocal (limit_request 2000 None), OpClearZone 7 ''local'']"
  have "ec_effective_consumption (lr_ec (foldl lr_step (new_limit_resolver idle_ec) ?ops)) = Some 3000"
    by code_simp
  with effective_limits_invariant [OF _ _ refl, of idle_ec ?ops] show ?thesis by (simp add: Let_def)
qed

lemma cancel_all_get:
  "gm_wf (dm_timers m) \<Longrightarrow> fst k \<in> snd ` set es \<or> gm_get (dm_timers m) k = None \<Longrightarrow>
   gm_get (dm_timers (foldl (\<lambda>m (_, idx). dm_cancel_zone_timers idx m) m es)) k = None"
proof (induction es arbitrary: m)
  case Nil
  then show ?case by simp
next
  case (Cons e es)
  have "gm_wf (dm_timers (dm_cancel_zone_timers (snd e) m))"
    using Cons.prems(1) by (simp add: dm_cancel_zone_timers_def)
  from Cons.IH [OF this] Cons.prems(2) show ?case
    by (auto simp: split_beta dm_get_cancel_zone [OF Cons.prems(1)])
qed

text \<open>ResetAll leaves nothing behind: after any run it drops every stored limit and
  every tracked timer of every zone, clears both effective limits and sets AUTONOMOUS.\<close>

theorem reset_all_clears:
  assumes "ec_effective_consumption ec = None" and "ec_effective_production ec = None"
    and "lr = fst (reset_all now (foldl lr_step (new_limit_resolver ec) ops))"
  shows "mz_values (lr_consumption lr) = [] \<and> mz_values (lr_production lr) = [] \<and>
    dm_timers (lr_timers lr) = [] \<and> ec_effective_consumption (lr_ec lr) = None \<and>
    ec_effective_production (lr_ec lr) = None \<and> ec_control_state (lr_ec lr) = ControlStateAutonomous"
proof -
  let ?lr = "foldl lr_step (new_limit_resolver ec) ops"
  have inv: "timers_inv ?lr"
    by (rule lr_invD(4) [OF lr_machine.run_inv [OF lr_inv_new [OF assms(1,2)]]])
  have "gm_get (dm_timers (lr_timers lr)) k = None" for k
  proof -
    have "fst k \<in> snd ` set (lr_zone_index ?lr) \<or> gm_get (dm_timers (lr_timers ?lr)) k = None"
      using inv unfolding timers_inv_def
      by (metis image_eqI map_of_SomeD not_None_eq snd_conv)
    with inv show ?thesis
      by (simp add: assms(3) reset_all_def Let_def cancel_all_get timers_inv_def dm_inv_wf)
  qed
  then have "dm_timers (lr_timers lr) = []" by (metis map_of_eq_empty_iff ext)
  moreover have "resolve_limits now new_multi_zone_value = (new_multi_zone_value, None, '''')"
    by (simp add: resolve_limits_def new_multi_zone_value_def mz_remove_expired_def gm_purge_def)
  ultimately show ?thesis
    by (simp add: assms(3) reset_all_def Let_def) (simp add: new_multi_zone_value_def)
qed

theorem reset_all_clears_witness:
  "let lr = foldl lr_step (new_limit_resolver idle_ec)
              [OpSetLimit 5 ''grid'' ZoneTypeGrid (limit_request 3000 (Some 60))]
   in dm_timers (lr_timers lr) \<noteq> [] \<and> dm_timers (lr_timers (fst (reset_all 6 lr))) = []"
proof -
  let ?ops = "[OpSetLimit 5 ''grid'' ZoneTypeGrid (limit_request 3000 (Some 60))]"
  have "dm_timers (lr_timers (foldl lr_step (new_limit_resolver idle_ec) ?ops)) \<noteq> []"
    by code_simp
  with reset_all_clears [OF _ _ refl, of idle_ec 6 ?ops] show ?thesis by (simp add: Let_def)
qed

text \<open>The guard against commands while the device overrides covers SetLimit only: every
  ClearLimit, ClearZone and ResetAll, and every expiry of a known zone's timer, replaces the
  control state OVERRIDE by CONTROLLED or AUTONOMOUS, after which SetLimit is accepted again.\<close>

theorem override_overwritten:
  assumes "ec_is_override (lr_ec lr)" and "zid \<noteq> ''''" and "gm_get (lr_index_zone lr) idx \<noteq> None"
    and "lr' \<in> {fst (handle_clear_limit now zid dir lr), fst (clear_zone now zid lr),
                 fst (reset_all now lr), fst (handle_timer_expiry now idx c lr)}"
  shows "ec_control_state (lr_ec lr') \<in> {ControlStateControlled, ControlStateAutonomous} \<and>
    \<not> ec_is_override (lr_ec lr')"
proof -
  have "\<exists>x. lr' = resolve_and_apply now x"
    using assms(2-4)
    by (auto simp: handle_clear_limit_def clear_zone_def reset_all_def handle_timer_expiry_def Let_def
        simp del: resolve_and_apply_simps)
  then obtain x where "lr' = resolve_and_apply now x" by blast
  then have "ec_control_state (lr_ec lr') \<in> {ControlStateControlled, ControlStateAutonomous}"
    by simp
  then show ?thesis by (auto simp: ec_is_override_def)
qed

theorem override_overwritten_witness:
  "let lr = foldl lr_step (new_limit_resolver idle_ec)
              [OpSetLimit 5 ''grid'' ZoneTypeGrid (limit_request 3000 (Some 60)),
               OpAppState ControlStateOverride]
   in ec_is_override (lr_ec lr) \<and>
      \<not> ec_is_override (lr_ec (fst (handle_clear_limit 6 ''local'' None lr)))"
proof -
  let ?lr = "foldl lr_step (new_limit_resolver idle_ec)
              [OpSetLimit 5 ''grid'' ZoneTypeGrid (limit_request 3000 (Some 60)),
               OpAppState ControlStateOverride]"
  have o: "ec_is_override (lr_ec ?lr)" and i: "gm_get (lr_index_zone ?lr) 0 \<noteq> None"
    by code_simp+
  from override_overwritten [OF o _ i, of "''local''"
      "fst (handle_clear_limit 6 ''local'' None ?lr)" 6 None CmdPause] o
  show ?thesis by (simp add: Let_def)
qed

subsection \<open>Long durations\<close>

lemma request_duration_long:
  "sl_duration req = Some d \<Longrightarrow> uint d > 86400 \<Longrightarrow>
   request_duration req = uint d * second \<and> request_duration req > MaxDuration"
  by (simp add: request_duration_def MaxDuration_def word_gt_0_no)
    (auto simp: word_less_def)

lemma set_or_cancel_long: "dur > MaxDuration \<Longrightarrow> set_or_cancel_timer now idx c dur v m = m"
  by (simp add: set_or_cancel_timer_def dm_set_timer_def MaxDuration_def MinDuration_def)

lemma stored_state_known:
  assumes "gm_get (lr_zone_index lr) zid = Some idx" and "request_duration req > MaxDuration"
  shows "lr_timers (stored_state now zid zt req lr) = lr_timers lr"
    and "lr_index_zone (stored_state now zid zt req lr) = lr_index_zone lr"
    and "lr_expired (stored_state now zid zt req lr) = lr_expired lr"
  using assms
  by (simp_all add: stored_state_def ensure_zone_index_def store_consumption_def store_production_def
      set_or_cancel_long split: option.split)

lemma fire_and_run:
  assumes "gm_get (dm_timers m) (idx, c) = Some t"
    and "armed_at (dm_rt m) (dt_timer t) = Some (T, (idx, c))" and "dm_on_expiry m"
  shows "snd (dm_run_fired (dt_timer t) (dm_fire T (dt_timer t) m)) = Some (idx, c, dt_value t)"
  using assms
  by (simp add: dm_run_fired_def take_fired_def dm_fire_def fire_timer_def gomap_simps
      dm_expire_timer_def)

text \<open>A limit with a duration above 24 hours is applied although no timer is set for it:
  the error of SetTimer is dropped and the timer of the zone's earlier limit stays armed. At
  that old deadline, which lies before the new limit's expiry, the expiry removes the new limit.\<close>

theorem long_duration_expires_with_old_timer:
  assumes "lr_inv lr" and "length (lr_zone_index lr) \<le> 256"
    and "gm_get (lr_zone_index lr) zid = Some idx"
    and "dm_get_timer (lr_timers lr) idx CmdLimitConsumption = Some t" and "dt_start_time t \<le> now"
    and "armed_at (dm_rt (lr_timers lr)) (dt_timer t) \<noteq> None"
    and "accepts zid req lr" and "sl_consumption_limit req = Some c" and "zt \<noteq> ZoneTypeTest"
    and "sl_duration req = Some d" and "uint d > 86400"
  shows "let lr1 = lr_step lr (OpSetLimit now zid zt req); T = dt_expires_at t;
      lr2 = foldl lr_step lr1 [OpTimerFires T (dt_timer t), OpTimerRuns (dt_timer t),
              OpExpiryCallback T (length (lr_expired lr))]
    in (\<exists>v. mz_get (lr_consumption lr1) zid = Some v \<and> zv_value v = c \<and> T < zv_expires_at v) \<and>
       mz_get (lr_consumption lr2) zid = None"
proof -
  let ?T = "dt_expires_at t" and ?i = "dt_timer t"
  define lr1 where "lr1 = lr_step lr (OpSetLimit now zid zt req)"
  note inv = lr_invD [OF assms(1)] and dur = request_duration_long [OF assms(10,11)]
  have st: "lr1 = resolve_and_apply now (stored_state now zid zt req lr)"
    using assms(7,8) by (simp add: lr1_def handle_set_limit_state)
  have t: "gm_get (dm_timers (lr_timers lr)) (idx, CmdLimitConsumption) = Some t"
    using assms(4) by (simp add: dm_get_timer_def)
  have dm: "dm_inv (lr_timers lr)" "dm_on_expiry (lr_timers lr)"
    using inv(4) by (simp_all add: timers_inv_def)
  have armed: "armed_at (dm_rt (lr_timers lr)) ?i = Some (?T, (idx, CmdLimitConsumption))"
    using assms(6) dm_inv_armed_key [OF dm(1) t] by auto
  have idx: "gm_get (lr_index_zone lr) idx = Some zid"
    using inv(3) assms(2,3) by (simp add: index_inv_def)
  have same: "lr_timers lr1 = lr_timers lr" "lr_index_zone lr1 = lr_index_zone lr"
    "lr_expired lr1 = lr_expired lr"
    by (simp_all add: st stored_state_known [OF assms(3) conjunct2 [OF dur]])
  have c: "c \<ge> 0" using assms(7,8) by (simp add: accepts_def negative_def)
  have first: "\<exists>v. mz_get (lr_consumption lr1) zid = Some v \<and> zv_value v = c \<and> ?T < zv_expires_at v"
    using resolve_after_set [OF inv(1) assms(9) c, of now zid "request_duration req"] dur assms(5)
      dm_inv_tracked(3) [OF dm(1) t]
    by (auto simp: st stored_state_values assms(8) dt_expires_at_def MaxDuration_def)
  define lr3 where "lr3 = lr_step (lr_step lr1 (OpTimerFires ?T ?i)) (OpTimerRuns ?i)"
  obtain m where m: "dm_run_fired ?i (dm_fire ?T ?i (lr_timers lr))
      = (m, Some (idx, CmdLimitConsumption, dt_value t))"
    using fire_and_run [OF t armed dm(2)] by (metis prod.collapse)
  have lr3: "lr_expired lr3 = lr_expired lr @ [(idx, CmdLimitConsumption)]"
    "lr_index_zone lr3 = lr_index_zone lr" "lr_consumption lr3 = lr_consumption lr1"
    by (simp_all add: lr3_def lr_timer_runs_def same m)
  have wf: "mz_wf (mz_clear zid (lr_consumption lr1))"
    using lr_invD(1) [OF lr_inv_step [OF assms(1), of "OpSetLimit now zid zt req"]]
    by (simp add: lr1_def values_ok_def)
  have "mz_get (lr_consumption (lr_step lr3 (OpExpiryCallback ?T (length (lr_expired lr))))) zid = None"
    by (simp add: lr_expiry_callback_def lr3 handle_timer_expiry_def idx Let_def resolve_limits_get [OF wf])
  with first show ?thesis by (simp add: Let_def lr1_def lr3_def)
qed

theorem long_duration_expires_with_old_timer_witness:
  "let lr = foldl lr_step (new_limit_resolver idle_ec)
              [OpSetLimit 0 ''grid'' ZoneTypeGrid (limit_request 3000 (Some 60))];
      lr1 = lr_step lr (OpSetLimit 1 ''grid'' ZoneTypeGrid (limit_request 2000 (Some 90000)));
      lr2 = foldl lr_step lr1 [OpTimerFires (60 * second) 0, OpTimerRuns 0,
              OpExpiryCallback (60 * second) 0]
    in (\<exists>v. mz_get (lr_consumption lr1) ''grid'' = Some v \<and> zv_value v = 2000 \<and>
          60 * second < zv_expires_at v) \<and>
       mz_get (lr_consumption lr2) ''grid'' = None"
proof -
  let ?lr = "foldl lr_step (new_limit_resolver idle_ec)
              [OpSetLimit 0 ''grid'' ZoneTypeGrid (limit_request 3000 (Some 60))]"
  let ?t = "\<lparr>dt_key = (0, CmdLimitConsumption), dt_start_time = 0, dt_duration = 60 * second,
             dt_value = 3000, dt_timer = 0\<rparr>"
  let ?req = "limit_request 2000 (Some 90000)"
  have inv: "lr_inv ?lr" by (rule lr_machine.run_inv) (rule lr_inv_new; simp)
  have h: "length (lr_zone_index ?lr) \<le> 256" "gm_get (lr_zone_index ?lr) ''grid'' = Some 0"
    "dm_get_timer (lr_timers ?lr) 0 CmdLimitConsumption = Some ?t"
    "armed_at (dm_rt (lr_timers ?lr)) (dt_timer ?t) \<noteq> None" "accepts ''grid'' ?req ?lr"
    "ZoneTypeGrid \<noteq> ZoneTypeTest" "lr_expired ?lr = []"
    by code_simp+
  show ?thesis
    using long_duration_expires_with_old_timer [OF inv h(1-3) _ h(4,5) _ h(6), where now = 1
        and c = 2000 and d = 90000] h(7)
    by (simp add: Let_def dt_expires_at_def)
qed

subsection \<open>The 257th zone\<close>

text \<open>256 indexed zones use up every index.\<close>

lemma all_indices_used:
  assumes "index_inv lr" and "length (lr_zone_index lr) = 256"
  shows "\<exists>zid. gm_get (lr_zone_index lr) zid = Some (idx :: u8)"
proof -
  let ?m = "gm_get (lr_zone_index lr)"
  have inj: "inj_on (\<lambda>z. the (?m z)) (dom ?m)"
  proof (rule inj_onI)
    fix z z'
    assume "z \<in> dom ?m" and "z' \<in> dom ?m" and "the (?m z) = the (?m z')"
    with assms show "z = z'" by (auto simp: index_inv_def) (metis option.inject)
  qed
  have "card (dom ?m) = 256"
    using assms gm.count_card [of "lr_zone_index lr"] by (simp add: index_inv_def)
  then have "card ((\<lambda>z. the (?m z)) ` dom ?m) = card (UNIV :: u8 set)"
    by (simp add: card_image [OF inj] card_word)
  then have "(\<lambda>z. the (?m z)) ` dom ?m = UNIV" by (intro card_seteq) auto
  then have "idx \<in> (\<lambda>z. the (?m z)) ` dom ?m" by blast
  then show ?thesis by force
qed

text \<open>Zone indices are never given back and wrap at 256: when 256 zones have set limits
  over the life of the device, the next one shares its index with an earlier zone and takes
  over the reverse entry, so the expiry of the earlier zone's timer removes the limit of the
  new zone, which has no duration at all.\<close>

theorem zone_index_reused:
  assumes "lr_inv lr" and "length (lr_zone_index lr) = 256"
    and "gm_get (lr_zone_index lr) zid = None" and "accepts zid req lr"
    and "sl_consumption_limit req = Some c" and "sl_duration req = None" and "zt \<noteq> ZoneTypeTest"
    and "lr' = lr_step lr (OpSetLimit now zid zt req)"
  shows "\<exists>other idx. other \<noteq> zid \<and> gm_get (lr_zone_index lr') other = Some idx \<and>
    gm_get (lr_zone_index lr') zid = Some idx \<and>
    mz_get (lr_consumption lr') zid \<noteq> None \<and>
    mz_get (lr_consumption (fst (handle_timer_expiry later idx CmdLimitConsumption lr'))) zid = None"
proof -
  note inv = lr_invD [OF assms(1)]
  obtain other where other: "gm_get (lr_zone_index lr) other = Some 0"
    using all_indices_used [OF inv(3) assms(2)] by blast
  have nxt: "lr_next_index lr = 0" using inv(3) assms(2) by (simp add: index_inv_def)
  have lr': "lr' = resolve_and_apply now (stored_state now zid zt req lr)"
    using assms(4,5,8) by (simp add: handle_set_limit_state)
  have maps: "lr_zone_index lr' = gm_put zid 0 (lr_zone_index lr)"
    "lr_index_zone lr' = gm_put 0 zid (lr_index_zone lr)"
    by (simp_all add: lr' stored_state_def ensure_zone_index_def assms(3) nxt
        store_production_def store_consumption_def split: option.split)
  have "c \<ge> 0" using assms(4,5) by (simp add: accepts_def negative_def)
  from resolve_after_set [OF inv(1) assms(7) this, of now zid "request_duration req"]
  have stored: "mz_get (lr_consumption lr') zid \<noteq> None"
    by (auto simp: lr' stored_state_values assms(5))
  have "lr_inv lr'" unfolding assms(8) by (rule lr_inv_step [OF assms(1)])
  then have wf: "mz_wf (mz_clear zid (lr_consumption lr'))"
    using lr_invD(1) by (auto simp: values_ok_def)
  have "mz_get (lr_consumption (fst (handle_timer_expiry later 0 CmdLimitConsumption lr'))) zid = None"
    by (simp add: handle_timer_expiry_def maps gomap_simps Let_def resolve_limits_get [OF wf])
  moreover have "other \<noteq> zid" using other assms(3) by auto
  ultimately show ?thesis using other stored by (auto simp: maps gomap_simps)
qed

text \<open>256 zones with names of different lengths.\<close>

definition many_zones :: "nat \<Rightarrow> limit_resolver" where
  "many_zones n = foldl lr_step (new_limit_resolver idle_ec)
     (map (\<lambda>i. OpSetLimit 0 (replicate (Suc i) CHR ''z'') ZoneTypeLocal (limit_request 1 None)) [0..<n])"

lemma many_zones_Suc:
  "many_zones (Suc n) = lr_step (many_zones n)
     (OpSetLimit 0 (replicate (Suc n) CHR ''z'') ZoneTypeLocal (limit_request 1 None))"
  by (simp add: many_zones_def)

lemma many_zones_facts:
  "map fst (lr_zone_index (many_zones n)) = map (\<lambda>i. replicate (Suc i) CHR ''z'') [0..<n] \<and>
   lr_max_consumption (many_zones n) = 0 \<and> \<not> ec_is_override (lr_ec (many_zones n))"
proof (induction n)
  case 0
  show ?case by (simp add: many_zones_def new_limit_resolver_def ec_is_override_def)
next
  case (Suc n)
  let ?lr = "many_zones n" and ?z = "replicate (Suc n) CHR ''z''"
  have new: "gm_get (lr_zone_index ?lr) ?z = None"
    using Suc.IH unfolding map_of_eq_None_iff set_map [symmetric] by (auto simp del: replicate_Suc)
  have "many_zones (Suc n) = resolve_and_apply 0 (stored_state 0 ?z ZoneTypeLocal (limit_request 1 None) ?lr)"
    using Suc.IH
    by (simp add: many_zones_Suc handle_set_limit_state accepts_def negative_def exceeds_def)
  moreover have "lr_zone_index (stored_state 0 ?z ZoneTypeLocal (limit_request 1 None) ?lr)
      = lr_zone_index ?lr @ [(?z, lr_next_index ?lr)]"
    using new by (simp add: stored_state_def ensure_zone_index_def gm_put_new Let_def del: replicate_Suc)
  moreover have "lr_max_consumption (resolve_and_apply 0 (stored_state 0 ?z ZoneTypeLocal (limit_request 1 None) ?lr))
      = lr_max_consumption ?lr"
    by (auto simp: resolve_and_apply_def stored_state_def ensure_zone_index_def store_consumption_def
        store_production_def Let_def split: option.split prod.split)
  ultimately show ?case using Suc.IH by (simp add: ec_is_override_def del: replicate_Suc)
qed

lemma many_zones_inv: "lr_inv (many_zones n)"
  unfolding many_zones_def by (rule lr_machine.run_inv) (rule lr_inv_new; simp)

theorem zone_index_reused_witness:
  "\<exists>other idx. other \<noteq> ''grid'' \<and>
     gm_get (lr_zone_index (lr_step (many_zones 256)
       (OpSetLimit 5 ''grid'' ZoneTypeGrid (limit_request 2000 None)))) other = Some idx \<and>
     gm_get (lr_zone_index (lr_step (many_zones 256)
       (OpSetLimit 5 ''grid'' ZoneTypeGrid (limit_request 2000 None)))) ''grid'' = Some idx"
proof -
  let ?req = "limit_request 2000 None"
  have fsts: "map fst (lr_zone_index (many_zones 256)) = map (\<lambda>i. replicate (Suc i) CHR ''z'') [0..<256]"
    using many_zones_facts by blast
  have len: "length (lr_zone_index (many_zones 256)) = 256"
    using arg_cong [OF fsts, of length] by simp
  have "''grid'' \<noteq> replicate (Suc i) CHR ''z''" for i by simp
  then have none: "gm_get (lr_zone_index (many_zones 256)) ''grid'' = None"
    unfolding map_of_eq_None_iff set_map [symmetric] fsts by auto
  have acc: "accepts ''grid'' ?req (many_zones 256)"
    using many_zones_facts [of 256] by (simp add: accepts_def negative_def exceeds_def)
  have "ZoneTypeGrid \<noteq> ZoneTypeTest" by (simp add: zone_type_defs)
  from zone_index_reused [OF many_zones_inv len none acc _ _ this refl, of 2000 5]
  show ?thesis by fastforce
qed

end
