(* ===== verification/Failsafe.thy ===== *)
theory Failsafe
  imports GoTime
begin

text \<open>
  The failsafe timer of a device (\<open>pkg/failsafe/timer.go\<close>), on the timers of the runtime
  (theory GoTime). The runtime's payload says which function a timer runs:
  \<open>enterFailsafe\<close> or \<open>exitGracePeriod\<close>. Callback calls are outputs; whether a callback is
  set is a field.
\<close>

section \<open>Data\<close>

definition FsMinDuration :: duration where "FsMinDuration = 2 * hour"
definition FsMaxDuration :: duration where "FsMaxDuration = 24 * hour"
definition DefaultDuration :: duration where "DefaultDuration = 4 * hour"
definition DefaultGracePeriod :: duration where "DefaultGracePeriod = 5 * minute"
definition FsAccuracyAbsolute :: duration where "FsAccuracyAbsolute = 60 * second"

lemmas failsafe_consts = FsMinDuration_def FsMaxDuration_def DefaultDuration_def DefaultGracePeriod_def

datatype failsafe_error = FsErrInvalidDuration | FsErrTimerNotRunning | FsErrNilSnapshot

datatype fs_state = StateNormal | StateTimerRunning | StateFailsafe | StateGracePeriod

record limits =
  li_consumption :: int
  li_production :: int
  li_has_consumption :: bool
  li_has_production :: bool

definition no_limits :: limits where
  "no_limits = \<lparr>li_consumption = 0, li_production = 0, li_has_consumption = False,
     li_has_production = False\<rparr>"

datatype fs_func = EnterFailsafe | ExitGracePeriod

record failsafe =
  fs_state :: fs_state
  fs_duration :: duration
  fs_grace_period :: duration
  fs_limits :: limits
  fs_failsafe_timer :: "nat option"
  fs_grace_timer :: "nat option"
  fs_started_at :: time
  fs_persist :: bool
  fs_on_change :: bool
  fs_on_enter :: bool
  fs_on_exit :: bool
  fs_rt :: "fs_func runtime"

datatype fs_event =
    FsStateChange fs_state fs_state
  | FsEnter limits
  | FsExit

definition new_failsafe :: "duration \<Rightarrow> duration \<Rightarrow> limits \<Rightarrow> bool \<Rightarrow> failsafe" where
  "new_failsafe d g l p = \<lparr>fs_state = StateNormal, fs_duration = d, fs_grace_period = g, fs_limits = l,
     fs_failsafe_timer = None, fs_grace_timer = None, fs_started_at = zero_time, fs_persist = p,
     fs_on_change = False, fs_on_enter = False, fs_on_exit = False, fs_rt = new_runtime\<rparr>"

definition fs_new_timer :: failsafe where
  "fs_new_timer = new_failsafe DefaultDuration DefaultGracePeriod no_limits False"

record fs_config =
  cf_duration :: duration
  cf_grace_period :: duration
  cf_limits :: limits
  cf_persist :: bool

definition fs_new_with_config :: "fs_config \<Rightarrow> failsafe_error + failsafe" where
  "fs_new_with_config c =
     (if cf_duration c \<noteq> 0 \<and> (cf_duration c < FsMinDuration \<or> cf_duration c > FsMaxDuration)
      then Inl FsErrInvalidDuration
      else Inr (new_failsafe
        (if cf_duration c = 0 then DefaultDuration else cf_duration c)
        (if cf_grace_period c = 0 then DefaultGracePeriod else cf_grace_period c)
        (cf_limits c) (cf_persist c)))"

section \<open>Operations\<close>

definition fs_is_failsafe :: "failsafe \<Rightarrow> bool" where
  "fs_is_failsafe t \<longleftrightarrow> fs_state t = StateFailsafe"

definition fs_is_timer_running :: "failsafe \<Rightarrow> bool" where
  "fs_is_timer_running t \<longleftrightarrow> fs_state t = StateTimerRunning"

definition fs_set_duration :: "duration \<Rightarrow> failsafe \<Rightarrow> failsafe \<times> failsafe_error option" where
  "fs_set_duration d t =
     (if d < FsMinDuration \<or> d > FsMaxDuration then (t, Some FsErrInvalidDuration)
      else (t\<lparr>fs_duration := d\<rparr>, None))"

definition fs_set_limits :: "limits \<Rightarrow> failsafe \<Rightarrow> failsafe" where
  "fs_set_limits l t = t\<lparr>fs_limits := l\<rparr>"

definition fs_set_callbacks :: "bool \<Rightarrow> bool \<Rightarrow> bool \<Rightarrow> failsafe \<Rightarrow> failsafe" where
  "fs_set_callbacks c n x t = t\<lparr>fs_on_change := c, fs_on_enter := n, fs_on_exit := x\<rparr>"

definition change_event :: "failsafe \<Rightarrow> fs_state \<Rightarrow> fs_state \<Rightarrow> fs_event list" where
  "change_event t old new = (if fs_on_change t then [FsStateChange old new] else [])"

definition fs_start :: "time \<Rightarrow> failsafe \<Rightarrow> failsafe \<times> fs_event list" where
  "fs_start now t =
     (if fs_state t = StateTimerRunning \<or> fs_state t = StateFailsafe then (t, [])
      else
        let (i, rt) = after_func now (fs_duration t) EnterFailsafe (fs_rt t)
        in (t\<lparr>fs_state := StateTimerRunning, fs_started_at := now,
              fs_failsafe_timer := Some i, fs_rt := rt\<rparr>,
            change_event t (fs_state t) StateTimerRunning))"

text \<open>\<open>if t.failsafeTimer != nil { Stop; nil }\<close>, and the same for the grace timer.\<close>

definition drop_failsafe_timer :: "failsafe \<Rightarrow> failsafe" where
  "drop_failsafe_timer t = t\<lparr>fs_failsafe_timer := None, fs_rt := stop_opt (fs_failsafe_timer t) (fs_rt t)\<rparr>"

definition drop_grace_timer :: "failsafe \<Rightarrow> failsafe" where
  "drop_grace_timer t = t\<lparr>fs_grace_timer := None, fs_rt := stop_opt (fs_grace_timer t) (fs_rt t)\<rparr>"

definition fs_stop :: "time \<Rightarrow> failsafe \<Rightarrow> failsafe \<times> fs_event list" where
  "fs_stop now t =
     (if fs_state t = StateNormal then (t, [])
      else
        let was_failsafe = (fs_state t = StateFailsafe);
            t1 = drop_failsafe_timer t;
            t2 = (if was_failsafe \<and> fs_grace_period t1 > 0
                  then let (i, rt) = after_func now (fs_grace_period t1) ExitGracePeriod (fs_rt t1)
                       in t1\<lparr>fs_state := StateGracePeriod, fs_grace_timer := Some i, fs_rt := rt\<rparr>
                  else t1\<lparr>fs_state := StateNormal\<rparr>)
        in (t2, change_event t (fs_state t) (fs_state t2) @
                (if was_failsafe \<and> fs_on_exit t then [FsExit] else [])))"

definition fs_reset :: "failsafe \<Rightarrow> failsafe \<times> fs_event list" where
  "fs_reset t =
     ((drop_grace_timer (drop_failsafe_timer t))\<lparr>fs_state := StateNormal, fs_started_at := zero_time\<rparr>,
      if fs_state t \<noteq> StateNormal then change_event t (fs_state t) StateNormal else [])"

definition fs_remaining_time :: "time \<Rightarrow> failsafe \<Rightarrow> duration" where
  "fs_remaining_time now t =
     (if fs_state t \<noteq> StateTimerRunning then 0
      else let remaining = fs_duration t - (now - fs_started_at t)
           in if remaining < 0 then 0 else remaining)"

definition fs_enter_failsafe :: "failsafe \<Rightarrow> failsafe \<times> fs_event list" where
  "fs_enter_failsafe t =
     (if fs_state t \<noteq> StateTimerRunning then (t, [])
      else (t\<lparr>fs_state := StateFailsafe, fs_failsafe_timer := None\<rparr>,
            change_event t (fs_state t) StateFailsafe @
            (if fs_on_enter t then [FsEnter (fs_limits t)] else [])))"

definition fs_exit_grace_period :: "failsafe \<Rightarrow> failsafe \<times> fs_event list" where
  "fs_exit_grace_period t =
     (if fs_state t \<noteq> StateGracePeriod then (t, [])
      else (t\<lparr>fs_state := StateNormal, fs_grace_timer := None\<rparr>,
            change_event t (fs_state t) StateNormal))"

text \<open>
  The code computes the percentage in \<open>float64\<close>; up to \<open>2^53\<close> nanoseconds the
  truncated quotient is the integer one.
\<close>

definition fs_calculate_accuracy :: "duration \<Rightarrow> duration" where
  "fs_calculate_accuracy d =
     (let percent = d div 100 in if percent > FsAccuracyAbsolute then percent else FsAccuracyAbsolute)"

record fs_snapshot =
  sn_state :: fs_state
  sn_duration :: duration
  sn_started_at :: time
  sn_remaining :: duration
  sn_limits :: limits

definition fs_take_snapshot :: "time \<Rightarrow> failsafe \<Rightarrow> fs_snapshot" where
  "fs_take_snapshot now t =
     (let snap = \<lparr>sn_state = fs_state t, sn_duration = fs_duration t, sn_started_at = zero_time,
                  sn_remaining = 0, sn_limits = fs_limits t\<rparr>
      in if fs_state t = StateTimerRunning
         then let remaining = fs_duration t - (now - fs_started_at t)
              in snap\<lparr>sn_started_at := fs_started_at t,
                      sn_remaining := (if remaining < 0 then 0 else remaining)\<rparr>
         else snap)"

definition restore_remaining :: "time \<Rightarrow> fs_snapshot \<Rightarrow> duration" where
  "restore_remaining now snap =
     (if sn_remaining snap > 0 then sn_remaining snap
      else if sn_started_at snap \<noteq> zero_time then sn_duration snap - (now - sn_started_at snap)
      else 0)"

text \<open>The callback of the expired case runs without the lock, after the last state change.\<close>

definition fs_restore :: "time \<Rightarrow> fs_snapshot option \<Rightarrow> failsafe \<Rightarrow>
    failsafe \<times> fs_event list \<times> failsafe_error option" where
  "fs_restore now osnap t =
     (case osnap of
        None \<Rightarrow> (t, [], Some FsErrNilSnapshot)
      | Some snap \<Rightarrow>
          let t1 = drop_grace_timer (drop_failsafe_timer t);
              t2 = t1\<lparr>fs_duration := (if sn_duration snap > 0 then sn_duration snap else fs_duration t1),
                      fs_limits := sn_limits snap\<rparr>
          in case sn_state snap of
               StateNormal \<Rightarrow> (t2\<lparr>fs_state := StateNormal, fs_started_at := zero_time\<rparr>, [], None)
             | StateTimerRunning \<Rightarrow>
                 (let remaining = restore_remaining now snap in
                  if remaining \<le> 0
                  then (t2\<lparr>fs_state := StateFailsafe, fs_started_at := zero_time\<rparr>,
                        if fs_on_enter t2 then [FsEnter (fs_limits t2)] else [], None)
                  else let (i, rt) = after_func now remaining EnterFailsafe (fs_rt t2)
                       in (t2\<lparr>fs_state := StateTimerRunning, fs_started_at := now,
                             fs_duration := remaining, fs_failsafe_timer := Some i, fs_rt := rt\<rparr>,
                           [], None))
             | StateFailsafe \<Rightarrow> (t2\<lparr>fs_state := StateFailsafe, fs_started_at := zero_time\<rparr>, [], None)
             | StateGracePeriod \<Rightarrow> (t2\<lparr>fs_state := StateNormal, fs_started_at := zero_time\<rparr>, [], None))"

text \<open>The runtime fires a timer; its function gets the lock.\<close>

definition fs_fire :: "time \<Rightarrow> nat \<Rightarrow> failsafe \<Rightarrow> failsafe" where
  "fs_fire now i t = t\<lparr>fs_rt := fire_timer now i (fs_rt t)\<rparr>"

definition fs_run_fired :: "nat \<Rightarrow> failsafe \<Rightarrow> failsafe \<times> fs_event list" where
  "fs_run_fired i t =
     (case take_fired i (fs_rt t) of
        None \<Rightarrow> (t, [])
      | Some (EnterFailsafe, rt) \<Rightarrow> fs_enter_failsafe (t\<lparr>fs_rt := rt\<rparr>)
      | Some (ExitGracePeriod, rt) \<Rightarrow> fs_exit_grace_period (t\<lparr>fs_rt := rt\<rparr>))"

datatype fs_op =
    FsStart time
  | FsStop time
  | FsReset
  | FsSetDuration duration
  | FsSetLimits limits
  | FsSetCallbacks bool bool bool
  | FsRestore time "fs_snapshot option"
  | FsTimerFires time nat
  | FsTimerRuns nat

fun fs_step :: "failsafe \<Rightarrow> fs_op \<Rightarrow> failsafe" where
  "fs_step t (FsStart now) = fst (fs_start now t)"
| "fs_step t (FsStop now) = fst (fs_stop now t)"
| "fs_step t FsReset = fst (fs_reset t)"
| "fs_step t (FsSetDuration d) = fst (fs_set_duration d t)"
| "fs_step t (FsSetLimits l) = fs_set_limits l t"
| "fs_step t (FsSetCallbacks c n x) = fs_set_callbacks c n x t"
| "fs_step t (FsRestore now s) = fst (fs_restore now s t)"
| "fs_step t (FsTimerFires now i) = fs_fire now i t"
| "fs_step t (FsTimerRuns i) = fst (fs_run_fired i t)"

section \<open>The invariant\<close>

text \<open>A handle points to a timer that is armed or fired and runs the function given.\<close>

definition pending :: "fs_func runtime \<Rightarrow> fs_func \<Rightarrow> nat option \<Rightarrow> bool" where
  "pending rt f h \<longleftrightarrow>
     (case h of None \<Rightarrow> False
      | Some i \<Rightarrow> (\<exists>dl. armed_at rt i = Some (dl, f)) \<or> fired_at rt i = Some f)"

definition fs_inv :: "failsafe \<Rightarrow> bool" where
  "fs_inv t \<longleftrightarrow>
     rt_wf (fs_rt t) \<and>
     (fs_state t = StateTimerRunning \<longrightarrow> pending (fs_rt t) EnterFailsafe (fs_failsafe_timer t)) \<and>
     (fs_state t = StateGracePeriod \<longrightarrow> pending (fs_rt t) ExitGracePeriod (fs_grace_timer t))"

lemma fs_inv_new [simp]: "fs_inv (new_failsafe d g l p)"
  by (simp add: fs_inv_def new_failsafe_def)

lemma pending_after_func: "pending (snd (after_func now d f rt)) f (Some (fst (after_func now d f rt)))"
  by (simp add: pending_def rt_simps)

lemma pending_fire:
  "rt_wf rt \<Longrightarrow> pending rt f h \<Longrightarrow> pending (fire_timer now i rt) f h"
  by (auto simp: pending_def fire_timer_def gomap_simps rt_wf_def split: option.splits)
    (metis option.distinct(1))

text \<open>A function that runs takes only its own timer away.\<close>

lemma pending_take:
  assumes "take_fired i rt = Some (g, rt')" and "pending rt f h" and "g \<noteq> f"
  shows "pending rt' f h"
  using assms by (auto simp: pending_def take_fired_def gomap_simps split: option.splits if_splits)

lemma drop_simps [simp]:
  "rt_wf (fs_rt t) \<Longrightarrow> rt_wf (fs_rt (drop_failsafe_timer t))"
  "rt_wf (fs_rt t) \<Longrightarrow> rt_wf (fs_rt (drop_grace_timer t))"
  "fs_state (drop_failsafe_timer t) = fs_state t"
  "fs_state (drop_grace_timer t) = fs_state t"
  "fs_duration (drop_failsafe_timer t) = fs_duration t"
  "fs_duration (drop_grace_timer t) = fs_duration t"
  "fs_grace_period (drop_failsafe_timer t) = fs_grace_period t"
  "fs_grace_period (drop_grace_timer t) = fs_grace_period t"
  "fs_on_enter (drop_failsafe_timer t) = fs_on_enter t"
  "fs_on_enter (drop_grace_timer t) = fs_on_enter t"
  by (simp_all add: drop_failsafe_timer_def drop_grace_timer_def)

lemma fs_inv_start: "fs_inv t \<Longrightarrow> fs_inv (fst (fs_start now t))"
  using pending_after_func [of now "fs_duration t" EnterFailsafe "fs_rt t"]
  by (auto simp: fs_start_def fs_inv_def split_beta Let_def)

lemma fs_inv_run: "fs_inv t \<Longrightarrow> fs_inv (fst (fs_run_fired i t))"
proof (cases "take_fired i (fs_rt t)")
  case None
  assume "fs_inv t"
  with None show ?thesis by (simp add: fs_run_fired_def)
next
  case (Some p)
  assume inv: "fs_inv t"
  obtain f rt where p: "p = (f, rt)" by (cases p)
  from inv have "rt_wf rt" using rt_wf_take [OF _ Some [unfolded p]] by (simp add: fs_inv_def)
  with inv Some show ?thesis
    by (cases f) (auto simp: p fs_run_fired_def fs_inv_def fs_enter_failsafe_def
      fs_exit_grace_period_def intro: pending_take [OF Some [unfolded p]])
qed

lemma fs_inv_stop: "fs_inv t \<Longrightarrow> fs_inv (fst (fs_stop now t))"
  using pending_after_func [of now "fs_grace_period t" ExitGracePeriod "fs_rt (drop_failsafe_timer t)"]
  by (auto simp: fs_stop_def fs_inv_def split_beta Let_def)

lemma fs_inv_restore: "fs_inv t \<Longrightarrow> fs_inv (fst (fs_restore now s t))"
  using pending_after_func [of now _ EnterFailsafe "fs_rt (drop_grace_timer (drop_failsafe_timer t))"]
  by (auto simp: fs_restore_def fs_inv_def split_beta Let_def split: option.split fs_state.split)

lemma fs_inv_step: "fs_inv t \<Longrightarrow> fs_inv (fs_step t e)"
proof (cases e)
  case (FsTimerFires now i)
  assume "fs_inv t"
  then show ?thesis by (auto simp: FsTimerFires fs_inv_def fs_fire_def pending_fire)
next
  case FsReset
  assume "fs_inv t"
  then show ?thesis by (simp add: FsReset fs_reset_def fs_inv_def)
next
  case (FsSetDuration d)
  assume "fs_inv t"
  then show ?thesis by (simp add: FsSetDuration fs_set_duration_def fs_inv_def)
qed (simp_all add: fs_inv_start fs_inv_stop fs_inv_run fs_inv_restore,
    simp_all add: fs_inv_def fs_set_limits_def fs_set_callbacks_def)

interpretation fs_machine: invariant_machine fs_step fs_inv
  by unfold_locales (rule fs_inv_step)

section \<open>Properties\<close>

text \<open>C15. In every run of the failsafe timer, a device that waits for failsafe has a pending
  timer that will enter it, and a device in its grace period has a pending timer that will
  end it: neither state can last for ever, whatever the order of operations and however
  late the timer functions run.\<close>

theorem waiting_states_have_timers:
  assumes "t = foldl fs_step (new_failsafe d g l p) ops"
  shows "(fs_state t = StateTimerRunning \<longrightarrow> pending (fs_rt t) EnterFailsafe (fs_failsafe_timer t)) \<and>
    (fs_state t = StateGracePeriod \<longrightarrow> pending (fs_rt t) ExitGracePeriod (fs_grace_timer t))"
  using fs_machine.run_inv [OF fs_inv_new] by (simp add: assms fs_inv_def)

theorem waiting_states_have_timers_witness:
  "let t = foldl fs_step fs_new_timer
         [FsStart 0, FsTimerFires DefaultDuration 0, FsTimerRuns 0, FsStop DefaultDuration]
   in fs_state t = StateGracePeriod \<and> pending (fs_rt t) ExitGracePeriod (fs_grace_timer t)"
proof -
  let ?ops = "[FsStart 0, FsTimerFires DefaultDuration 0, FsTimerRuns 0, FsStop DefaultDuration]"
  have "fs_state (foldl fs_step fs_new_timer ?ops) = StateGracePeriod" by code_simp
  with waiting_states_have_timers [OF refl, where ops = ?ops] show ?thesis
    unfolding fs_new_timer_def Let_def by blast
qed

text \<open>The effect of starting: the new timer and what it finds.\<close>

lemma fs_start_armed:
  assumes "fs_state t \<in> {StateNormal, StateGracePeriod}"
  shows "fs_state (fst (fs_start now t)) = StateTimerRunning"
    and "armed_at (fs_rt (fst (fs_start now t))) (rt_next (fs_rt t)) = Some (now + fs_duration t, EnterFailsafe)"
    and "fired_at (fs_rt (fst (fs_start now t))) = fired_at (fs_rt t)"
  using assms by (auto simp: fs_start_def split_beta Let_def rt_simps after_func_def gomap_simps)

text \<open>C10. Losing the last connection leads to failsafe exactly when the configured duration
  is over: if the timer started at \<open>now\<close> is fired at \<open>later\<close> and its function runs, the
  device is in failsafe and the limits are handed to the callback when \<open>later\<close> is the
  deadline or after it, and nothing has changed when it is before.\<close>

theorem failsafe_after_duration:
  assumes "fs_inv t" and "fs_state t \<in> {StateNormal, StateGracePeriod}"
  shows "let t1 = fst (fs_start now t); i = rt_next (fs_rt t);
      (t2, out) = fs_run_fired i (fs_fire later i t1)
    in if now + fs_duration t \<le> later
       then fs_state t2 = StateFailsafe \<and> (fs_on_enter t \<longrightarrow> FsEnter (fs_limits t) \<in> set out)
       else t2 = t1 \<and> out = []"
proof -
  let ?t1 = "fst (fs_start now t)" and ?i = "rt_next (fs_rt t)"
  note start = fs_start_armed [OF assms(2), of now]
  have cb: "fs_on_enter ?t1 = fs_on_enter t" "fs_limits ?t1 = fs_limits t"
    by (simp_all add: fs_start_def split_beta Let_def)
  show ?thesis
  proof (cases "now + fs_duration t \<le> later")
    case True
    then have "\<exists>rt. take_fired ?i (fs_rt (fs_fire later ?i ?t1)) = Some (EnterFailsafe, rt)"
      by (simp add: take_fired_def fs_fire_def fire_timer_def start(2) gomap_simps)
    then obtain rt where rt: "take_fired ?i (fs_rt (fs_fire later ?i ?t1)) = Some (EnterFailsafe, rt)" ..
    have "fs_run_fired ?i (fs_fire later ?i ?t1)
        = fs_enter_failsafe (fs_fire later ?i ?t1\<lparr>fs_rt := rt\<rparr>)"
      using rt by (simp add: fs_run_fired_def)
    with True start(1) cb show ?thesis
      by (simp add: Let_def fs_enter_failsafe_def fs_fire_def)
  next
    case False
    then have "fs_fire later ?i ?t1 = ?t1" by (simp add: fs_fire_def fire_timer_def start(2))
    moreover have "fired_at (fs_rt ?t1) ?i = None"
      using assms(1) start(3) fired_fresh [of "fs_rt t"] by (simp add: fs_inv_def)
    ultimately show ?thesis using False by (simp add: fs_run_fired_def take_fired_def)
  qed
qed

theorem failsafe_after_duration_witness:
  "let t1 = fst (fs_start 7 fs_new_timer);
      (t2, out) = fs_run_fired 0 (fs_fire (7 + 4 * hour) 0 t1)
    in fs_state t2 = StateFailsafe"
  using failsafe_after_duration [where t = fs_new_timer and now = 7 and later = "7 + 4 * hour"]
  by (simp add: fs_new_timer_def) (simp add: new_failsafe_def DefaultDuration_def new_runtime_def
      Let_def split_beta)

text \<open>Failsafe is entered only by the function of a fired failsafe timer while the timer
  is running, or by restoring a snapshot that says so or whose time is over; it is left only
  by Stop, into the grace period if there is one, by Reset or by a restore.\<close>

theorem failsafe_entry_and_exit:
  assumes "t' = fs_step t e"
  shows "(fs_state t \<noteq> StateFailsafe \<and> fs_state t' = StateFailsafe \<longrightarrow>
      (\<exists>i. e = FsTimerRuns i \<and> fired_at (fs_rt t) i = Some EnterFailsafe \<and>
           fs_state t = StateTimerRunning) \<or>
      (\<exists>now s. e = FsRestore now (Some s) \<and> (sn_state s = StateFailsafe \<or>
           sn_state s = StateTimerRunning \<and> restore_remaining now s \<le> 0))) \<and>
    (fs_state t = StateFailsafe \<and> fs_state t' \<noteq> StateFailsafe \<longrightarrow>
      (\<exists>now. e = FsStop now \<and> fs_state t'
         = (if fs_grace_period t > 0 then StateGracePeriod else StateNormal)) \<or>
      e = FsReset \<and> fs_state t' = StateNormal \<or> (\<exists>now s. e = FsRestore now (Some s)))"
proof (cases e)
  case (FsTimerRuns i)
  show ?thesis
    by (auto simp: assms FsTimerRuns fs_run_fired_def take_fired_def fs_enter_failsafe_def
        fs_exit_grace_period_def split: option.splits fs_func.splits if_splits)
next
  case (FsRestore now s)
  show ?thesis
    by (auto simp: assms FsRestore fs_restore_def Let_def split_beta
        split: option.splits fs_state.splits if_splits)
qed (auto simp: assms fs_start_def fs_stop_def fs_reset_def fs_set_duration_def fs_set_limits_def
    fs_set_callbacks_def fs_fire_def Let_def split_beta)

theorem failsafe_entry_and_exit_witness:
  "let t = foldl fs_step fs_new_timer [FsStart 0, FsTimerFires DefaultDuration 0];
       t1 = fs_step t (FsTimerRuns 0); t2 = fs_step t1 (FsStop DefaultDuration)
   in fs_state t = StateTimerRunning \<and> fs_state t1 = StateFailsafe \<and> fs_state t2 = StateGracePeriod"
proof -
  let ?t = "foldl fs_step fs_new_timer [FsStart 0, FsTimerFires DefaultDuration 0]"
  have a: "fs_state (fs_step ?t (FsTimerRuns 0)) = StateFailsafe" and r: "fs_state ?t = StateTimerRunning"
    and b: "fs_state (fs_step (fs_step ?t (FsTimerRuns 0)) (FsStop DefaultDuration)) \<noteq> StateFailsafe"
    and g: "fs_grace_period (fs_step ?t (FsTimerRuns 0)) > 0"
    by code_simp+
  from failsafe_entry_and_exit [OF refl, of "fs_step ?t (FsTimerRuns 0)" "FsStop DefaultDuration"] a b g r
  show ?thesis unfolding Let_def by auto
qed

text \<open>A snapshot restored in another timer continues it: a running timer runs on with
  exactly the remaining time of the snapshot, and one whose time was over is in failsafe;
  failsafe survives, the grace period does not; the limits are the snapshot's.\<close>

theorem restore_snapshot:
  assumes "fs_inv t'" and "now \<le> now'"
    and "t2 = fst (fs_restore now' (Some (fs_take_snapshot now t)) t')"
  shows "fs_limits t2 = fs_limits t \<and>
    (case fs_state t of
       StateTimerRunning \<Rightarrow>
         (if fs_remaining_time now t > 0
          then fs_state t2 = StateTimerRunning \<and>
            fs_remaining_time now' t2 = fs_remaining_time now t \<and>
            (\<exists>i. fs_failsafe_timer t2 = Some i \<and>
              armed_at (fs_rt t2) i = Some (now' + fs_remaining_time now t, EnterFailsafe))
          else fs_state t2 = StateFailsafe)
     | StateFailsafe \<Rightarrow> fs_state t2 = StateFailsafe
     | _ \<Rightarrow> fs_state t2 = StateNormal)"
proof (cases "fs_state t")
  case StateTimerRunning
  let ?r = "fs_duration t - (now - fs_started_at t)"
  have rem: "fs_remaining_time now t = (if ?r < 0 then 0 else ?r)"
    by (simp add: fs_remaining_time_def StateTimerRunning)
  show ?thesis
  proof (cases "?r > 0")
    case True
    then show ?thesis
      unfolding assms(3)
      by (simp add: StateTimerRunning rem fs_take_snapshot_def fs_restore_def Let_def
          restore_remaining_def split_beta rt_simps after_func_def gomap_simps)
        (simp add: fs_remaining_time_def)
  next
    case False
    then have "restore_remaining now' (fs_take_snapshot now t) \<le> 0"
      using assms(2) by (simp add: restore_remaining_def fs_take_snapshot_def StateTimerRunning Let_def)
    moreover have "sn_state (fs_take_snapshot now t) = StateTimerRunning"
      and "sn_limits (fs_take_snapshot now t) = fs_limits t"
      by (simp_all add: fs_take_snapshot_def StateTimerRunning Let_def)
    ultimately show ?thesis
      using False rem unfolding assms(3) by (simp add: StateTimerRunning fs_restore_def Let_def)
  qed
qed (simp_all add: assms(3) fs_take_snapshot_def fs_restore_def Let_def)

theorem restore_snapshot_witness:
  "let t = foldl fs_step fs_new_timer [FsStart 10];
       t2 = fst (fs_restore (20 * hour) (Some (fs_take_snapshot (10 + hour) t)) fs_new_timer)
   in fs_state t2 = StateTimerRunning \<and> fs_remaining_time (20 * hour) t2 = 3 * hour"
proof -
  let ?t = "foldl fs_step fs_new_timer [FsStart 10]"
  have s: "fs_state ?t = StateTimerRunning" "fs_remaining_time (10 + hour) ?t = 3 * hour"
    by code_simp+
  have inv: "fs_inv fs_new_timer" by (simp add: fs_new_timer_def)
  from restore_snapshot [OF inv _ refl, of "10 + hour" "20 * hour" ?t] s
  show ?thesis by (simp add: Let_def)
qed

text \<open>Restoring a running timer overwrites the configured duration with the time that was
  left: when a zone reconnects and the connection is lost again, the device enters failsafe
  after that rest, which can be far below the minimum of two hours, and not after the
  duration of the snapshot.\<close>

theorem restore_shortens_duration:
  assumes "sn_state s = StateTimerRunning" and "sn_remaining s > 0"
    and "t1 = foldl fs_step t [FsRestore now0 (Some s), FsStop now1]"
  shows "fs_duration t1 = sn_remaining s \<and> fs_state t1 = StateNormal \<and>
    armed_at (fs_rt (fs_step t1 (FsStart now2))) (rt_next (fs_rt t1))
      = Some (now2 + sn_remaining s, EnterFailsafe)"
proof -
  have "fs_duration t1 = sn_remaining s \<and> fs_state t1 = StateNormal"
    using assms
    by (simp add: fs_restore_def Let_def restore_remaining_def split_beta fs_stop_def)
  with fs_start_armed(2) [of t1 now2] show ?thesis by simp
qed

theorem restore_shortens_duration_witness:
  "let s = \<lparr>sn_state = StateTimerRunning, sn_duration = 4 * hour, sn_started_at = 1,
            sn_remaining = second, sn_limits = no_limits\<rparr>;
       t1 = foldl fs_step fs_new_timer [FsRestore 5 (Some s), FsStop 6]
   in fs_duration t1 = second \<and> second < FsMinDuration"
  using restore_shortens_duration [OF _ _ refl, where t = fs_new_timer and ?now0.0 = 5 and ?now1.0 = 6
    and s = "\<lparr>sn_state = StateTimerRunning, sn_duration = 4 * hour, sn_started_at = 1,
            sn_remaining = second, sn_limits = no_limits\<rparr>"]
  by (simp add: Let_def FsMinDuration_def)

text \<open>A failsafe timer that has fired but not yet got the lock survives Stop: if the
  connection comes back and is lost again in between, the old function puts the device into
  failsafe at once, although the new timer has the whole duration ahead; the new runtime
  timer stays armed and is no longer tracked.\<close>

theorem stale_failsafe_after_restart:
  assumes "fs_inv t" and "fs_state t = StateTimerRunning"
    and "fired_at (fs_rt t) i = Some EnterFailsafe"
    and "t1 = foldl fs_step t [FsStop now, FsStart now]"
  shows "fs_state t1 = StateTimerRunning \<and> fs_started_at t1 = now \<and>
    fs_state (fs_step t1 (FsTimerRuns i)) = StateFailsafe \<and>
    fs_failsafe_timer (fs_step t1 (FsTimerRuns i)) = None \<and>
    (\<exists>j. armed_at (fs_rt (fs_step t1 (FsTimerRuns i))) j = Some (now + fs_duration t, EnterFailsafe))"
proof -
  let ?t0 = "fs_step t (FsStop now)"
  have s0: "fs_state ?t0 = StateNormal" "fs_duration ?t0 = fs_duration t"
    "fired_at (fs_rt ?t0) = fired_at (fs_rt t)"
    using assms(2) by (simp_all add: fs_stop_def drop_failsafe_timer_def rt_simps)
  have t1: "t1 = fst (fs_start now ?t0)" by (simp add: assms(4))
  note start = fs_start_armed [of ?t0 now, unfolded s0(2,3), folded t1]
  have "fs_started_at t1 = now" using s0(1) by (simp add: t1 fs_start_def split_beta Let_def)
  moreover have f: "fired_at (fs_rt t1) i = Some EnterFailsafe" using start(3) s0(1) assms(3) by simp
  ultimately show ?thesis
    using start s0(1) by (auto simp: fs_run_fired_def take_fired_def fs_enter_failsafe_def)
qed

theorem stale_failsafe_after_restart_witness:
  "let t = foldl fs_step fs_new_timer [FsStart 0, FsTimerFires DefaultDuration 0];
       t1 = foldl fs_step t [FsStop DefaultDuration, FsStart DefaultDuration]
   in fs_state t1 = StateTimerRunning \<and> fs_state (fs_step t1 (FsTimerRuns 0)) = StateFailsafe"
proof -
  let ?t = "foldl fs_step fs_new_timer [FsStart 0, FsTimerFires DefaultDuration 0]"
  have inv: "fs_inv ?t" unfolding fs_new_timer_def by (rule fs_machine.run_inv) simp
  have "fs_state ?t = StateTimerRunning" and "fired_at (fs_rt ?t) 0 = Some EnterFailsafe" by code_simp+
  from stale_failsafe_after_restart [OF inv this refl] show ?thesis by (simp add: Let_def)
qed

end
