(* ===== verification/Framing.thy ===== *)
theory Framing
  imports Prelude
begin

unbundle bit_operations_syntax

text \<open>
  Length-prefixed frames (\<open>pkg/transport/framing.go\<close>), and the same framing of the
  commissioning session (\<open>writeMessage\<close> and \<open>readMessage\<close> of
  \<open>pkg/commissioning/session.go\<close>).

  A reader is the list of chunks its \<open>Read\<close> calls will deliver, as the network cut them,
  and how the stream ends. A writer has the bytes written so far and the outcomes of the
  coming \<open>Write\<close> calls; a failing one may have written a part of its bytes. Log events are
  outputs.
\<close>

section \<open>Streams\<close>

datatype stream_end = EndEOF | EndFailure

record reader =
  rd_chunks :: "u8 list list"
  rd_end :: stream_end

datatype io_error = IoEOF | IoUnexpectedEOF | IoFailure

text \<open>The loop of \<open>io.ReadFull\<close>: the bytes it gets, at most \<open>n\<close>, and the chunks left.\<close>

fun take_bytes :: "nat \<Rightarrow> u8 list list \<Rightarrow> u8 list \<times> u8 list list" where
  "take_bytes n [] = ([], [])"
| "take_bytes n (c # cs) =
     (if n = 0 then ([], c # cs)
      else if n < length c then (take n c, drop n c # cs)
      else let (b, cs') = take_bytes (n - length c) cs in (c @ b, cs'))"

definition read_full :: "nat \<Rightarrow> reader \<Rightarrow> (io_error + u8 list) \<times> reader" where
  "read_full n r =
     (let (b, cs) = take_bytes n (rd_chunks r); r' = r\<lparr>rd_chunks := cs\<rparr>
      in (if length b = n then Inr b
          else case rd_end r of
            EndFailure \<Rightarrow> Inl IoFailure
          | EndEOF \<Rightarrow> if b = [] then Inl IoEOF else Inl IoUnexpectedEOF, r'))"

datatype write_outcome = WriteOk | WriteFails nat

record writer =
  wr_out :: "u8 list"
  wr_script :: "write_outcome list"

definition write_bytes :: "u8 list \<Rightarrow> writer \<Rightarrow> writer \<times> bool" where
  "write_bytes bs w =
     (case wr_script w of
        [] \<Rightarrow> (w\<lparr>wr_out := wr_out w @ bs\<rparr>, True)
      | WriteOk # s \<Rightarrow> (w\<lparr>wr_out := wr_out w @ bs, wr_script := s\<rparr>, True)
      | WriteFails k # s \<Rightarrow> (w\<lparr>wr_out := wr_out w @ take k bs, wr_script := s\<rparr>, False))"

section \<open>Frames\<close>

definition LengthPrefixSize :: nat where "LengthPrefixSize = 4"
definition DefaultMaxMessageSize :: u32 where "DefaultMaxMessageSize = 8192"
definition MaxLogFrameDataSize :: nat where "MaxLogFrameDataSize = 4096"

datatype frame_error =
    ErrMessageTooLarge
  | ErrMessageEmpty
  | ErrFrameTruncated
  | FrameEOF
  | FrameReadFailed
  | FrameWriteFailed

text \<open>\<open>binary.BigEndian.PutUint32\<close> and \<open>Uint32\<close>\<close>

definition put_uint32 :: "u32 \<Rightarrow> u8 list" where
  "put_uint32 n = [ucast (drop_bit 24 n), ucast (drop_bit 16 n), ucast (drop_bit 8 n), ucast n]"

definition get_uint32 :: "u8 list \<Rightarrow> u32" where
  "get_uint32 b = ucast (b ! 3) OR push_bit 8 (ucast (b ! 2)) OR push_bit 16 (ucast (b ! 1)) OR
     push_bit 24 (ucast (b ! 0))"

datatype frame_direction = DirectionIn | DirectionOut

record frame_event =
  fe_conn_id :: string
  fe_direction :: frame_direction
  fe_size :: nat
  fe_data :: "u8 list"
  fe_truncated :: bool

record frame_writer =
  fw_max :: u32
  fw_logger :: bool
  fw_conn_id :: string

record frame_reader =
  fr_max :: u32
  fr_logger :: bool
  fr_conn_id :: string

definition new_frame_writer :: "u32 \<Rightarrow> frame_writer" where
  "new_frame_writer mx = \<lparr>fw_max = mx, fw_logger = False, fw_conn_id = ''''\<rparr>"

definition new_frame_reader :: "u32 \<Rightarrow> frame_reader" where
  "new_frame_reader mx = \<lparr>fr_max = mx, fr_logger = False, fr_conn_id = ''''\<rparr>"

definition fw_set_logger :: "bool \<Rightarrow> string \<Rightarrow> frame_writer \<Rightarrow> frame_writer" where
  "fw_set_logger l c fw = fw\<lparr>fw_logger := l, fw_conn_id := c\<rparr>"

definition fr_set_logger :: "bool \<Rightarrow> string \<Rightarrow> frame_reader \<Rightarrow> frame_reader" where
  "fr_set_logger l c fr = fr\<lparr>fr_logger := l, fr_conn_id := c\<rparr>"

definition fr_set_max :: "u32 \<Rightarrow> frame_reader \<Rightarrow> frame_reader" where
  "fr_set_max mx fr = fr\<lparr>fr_max := mx\<rparr>"

definition make_frame_event :: "string \<Rightarrow> u8 list \<Rightarrow> frame_direction \<Rightarrow> frame_event" where
  "make_frame_event conn data dir =
     \<lparr>fe_conn_id = conn, fe_direction = dir, fe_size = LengthPrefixSize + length data,
      fe_data = (if length data > MaxLogFrameDataSize then take MaxLogFrameDataSize data else data),
      fe_truncated = (length data > MaxLogFrameDataSize)\<rparr>"

definition write_frame :: "frame_writer \<Rightarrow> u8 list \<Rightarrow> writer \<Rightarrow>
    writer \<times> frame_error option \<times> frame_event list" where
  "write_frame fw data w =
     (if length data = 0 then (w, Some ErrMessageEmpty, [])
      else if (of_nat (length data) :: u32) > fw_max fw then (w, Some ErrMessageTooLarge, [])
      else
        let (w1, ok1) = write_bytes (put_uint32 (of_nat (length data))) w
        in if \<not> ok1 then (w1, Some FrameWriteFailed, [])
           else
             let (w2, ok2) = write_bytes data w1
             in if \<not> ok2 then (w2, Some FrameWriteFailed, [])
                else (w2, None,
                      if fw_logger fw then [make_frame_event (fw_conn_id fw) data DirectionOut] else []))"

definition read_frame :: "frame_reader \<Rightarrow> reader \<Rightarrow>
    (frame_error + u8 list) \<times> reader \<times> frame_event list" where
  "read_frame fr r =
     (case read_full LengthPrefixSize r of
        (Inl e, r1) \<Rightarrow>
          (Inl (case e of IoEOF \<Rightarrow> FrameEOF | IoUnexpectedEOF \<Rightarrow> ErrFrameTruncated
                | IoFailure \<Rightarrow> FrameReadFailed), r1, [])
      | (Inr buf, r1) \<Rightarrow>
          let len = get_uint32 buf in
          if len = 0 then (Inl ErrMessageEmpty, r1, [])
          else if len > fr_max fr then (Inl ErrMessageTooLarge, r1, [])
          else case read_full (unat len) r1 of
              (Inl e, r2) \<Rightarrow>
                (Inl (if e = IoUnexpectedEOF \<or> e = IoEOF then ErrFrameTruncated else FrameReadFailed),
                 r2, [])
            | (Inr payload, r2) \<Rightarrow>
                (Inr payload, r2,
                 if fr_logger fr then [make_frame_event (fr_conn_id fr) payload DirectionIn] else []))"

definition frame_size :: "nat \<Rightarrow> nat" where
  "frame_size n = LengthPrefixSize + n"

text \<open>
  The commissioning session: the message is what CBOR encodes (\<open>None\<close> is an encoding
  error), and what is read is handed to the decoder of the PASE messages, a parameter.
\<close>

definition write_message :: "u8 list option \<Rightarrow> writer \<Rightarrow> writer \<times> bool" where
  "write_message encoded w =
     (case encoded of
        None \<Rightarrow> (w, False)
      | Some data \<Rightarrow>
          let (w1, ok1) = write_bytes (put_uint32 (of_nat (length data))) w
          in if \<not> ok1 then (w1, False) else write_bytes data w1)"

definition read_message :: "(u8 list \<Rightarrow> 'm option) \<Rightarrow> reader \<Rightarrow> 'm option \<times> reader" where
  "read_message decode r =
     (case read_full 4 r of
        (Inl _, r1) \<Rightarrow> (None, r1)
      | (Inr buf, r1) \<Rightarrow>
          let len = get_uint32 buf in
          if len > DefaultMaxMessageSize then (None, r1)
          else case read_full (unat len) r1 of
              (Inl _, r2) \<Rightarrow> (None, r2)
            | (Inr data, r2) \<Rightarrow> (decode data, r2))"

section \<open>Lemmas\<close>

text \<open>Only the bytes of a stream matter, not how they were cut.\<close>

lemma take_bytes_concat:
  "fst (take_bytes n cs) = take n (concat cs)"
  "concat (snd (take_bytes n cs)) = drop n (concat cs)"
  by (induction n cs rule: take_bytes.induct) (auto simp: split_beta Let_def)

definition rd_bytes :: "reader \<Rightarrow> u8 list" where
  "rd_bytes r = concat (rd_chunks r)"

lemma read_full_bytes:
  "fst (read_full n r)
     = (if n \<le> length (rd_bytes r) then Inr (take n (rd_bytes r))
        else Inl (case rd_end r of EndFailure \<Rightarrow> IoFailure
                  | EndEOF \<Rightarrow> if rd_bytes r = [] then IoEOF else IoUnexpectedEOF))"
  "rd_bytes (snd (read_full n r)) = drop n (rd_bytes r)"
  "rd_end (snd (read_full n r)) = rd_end r"
  using take_bytes_concat [of n "rd_chunks r"]
  by (auto simp: read_full_def rd_bytes_def split_beta Let_def split: stream_end.split)

lemma length_put_uint32 [simp]: "length (put_uint32 n) = 4"
  by (simp add: put_uint32_def)

lemma get_put_uint32 [simp]: "get_uint32 (put_uint32 n) = n"
proof (rule bit_word_eqI)
  fix i
  assume i: "i < LENGTH(32)"
  then have "i < 8 \<or> 8 \<le> i \<and> i < 16 \<or> 16 \<le> i \<and> i < 24 \<or> 24 \<le> i \<and> i < 32" by auto
  with i show "bit (get_uint32 (put_uint32 n)) i = bit n i"
    by (auto simp: get_uint32_def put_uint32_def bit_simps)
qed

lemma write_frame_ok:
  assumes "wr_script w = []" and "d \<noteq> []" and "(of_nat (length d) :: u32) \<le> fw_max fw"
  shows "fst (write_frame fw d w) = w\<lparr>wr_out := wr_out w @ put_uint32 (of_nat (length d)) @ d\<rparr>"
    and "fst (snd (write_frame fw d w)) = None"
  using assms by (auto simp: write_frame_def write_bytes_def not_less)

fun read_frames :: "frame_reader \<Rightarrow> nat \<Rightarrow> reader \<Rightarrow> (frame_error + u8 list) list \<times> reader" where
  "read_frames fr 0 r = ([], r)"
| "read_frames fr (Suc n) r =
     (let (x, r1, _) = read_frame fr r; (xs, r2) = read_frames fr n r1 in (x # xs, r2))"

definition write_frames :: "frame_writer \<Rightarrow> u8 list list \<Rightarrow> writer \<Rightarrow> writer" where
  "write_frames fw ds w = foldl (\<lambda>w d. fst (write_frame fw d w)) w ds"

definition frame_bytes :: "u8 list \<Rightarrow> u8 list" where
  "frame_bytes d = put_uint32 (of_nat (length d)) @ d"

definition fits :: "u32 \<Rightarrow> u8 list \<Rightarrow> bool" where
  "fits mx d \<longleftrightarrow> d \<noteq> [] \<and> length d < 2 ^ 32 \<and> (of_nat (length d) :: u32) \<le> mx"

lemma write_frames_bytes:
  assumes "wr_script w = []" and "list_all (fits (fw_max fw)) ds"
  shows "write_frames fw ds w = w\<lparr>wr_out := wr_out w @ concat (map frame_bytes ds)\<rparr>"
  using assms
proof (induction ds arbitrary: w)
  case Nil
  then show ?case by (simp add: write_frames_def)
next
  case (Cons d ds)
  have "fst (write_frame fw d w) = w\<lparr>wr_out := wr_out w @ frame_bytes d\<rparr>"
    using Cons.prems by (simp add: write_frame_ok fits_def frame_bytes_def)
  with Cons show ?case by (simp add: write_frames_def)
qed

text \<open>What one call of ReadFrame does with the bytes of the stream.\<close>

lemma read_frame_bytes:
  assumes "rd_bytes r = frame_bytes d @ rest" and "fits (fr_max fr) d"
  shows "fst (read_frame fr r) = Inr d" and "rd_bytes (fst (snd (read_frame fr r))) = rest"
proof -
  obtain r1 where r1: "read_full LengthPrefixSize r = (Inr (put_uint32 (of_nat (length d))), r1)"
      "rd_bytes r1 = d @ rest"
    using read_full_bytes [of LengthPrefixSize r] assms(1)
    by (cases "read_full LengthPrefixSize r") (simp add: LengthPrefixSize_def frame_bytes_def)
  have len: "unat (of_nat (length d) :: u32) = length d"
    using assms(2) by (simp add: fits_def unat_of_nat take_bit_eq_mod)
  obtain r2 where r2: "read_full (length d) r1 = (Inr d, r2)" "rd_bytes r2 = rest"
    using read_full_bytes [of "length d" r1] r1(2)
    by (cases "read_full (length d) r1") simp
  have "(of_nat (length d) :: u32) \<noteq> 0"
    using assms(2) len by (metis fits_def length_0_conv unat_0)
  with assms(2) r1 r2 show "fst (read_frame fr r) = Inr d" "rd_bytes (fst (snd (read_frame fr r))) = rest"
    by (auto simp: read_frame_def Let_def len fits_def not_less)
qed

lemma read_outcome_payload:
  assumes "(if b = [] then Inl e1 else if length b < 4 then Inl e2 else if n = 0 then Inl e3
     else if n > mx then Inl e4 else if length b < 4 + unat (n :: 32 word) then Inl e5
     else Inr (take (unat n) (drop 4 b))) = Inr p"
  shows "p \<noteq> [] \<and> length p \<le> unat mx"
proof -
  from assms have "b \<noteq> []" by (rule contrapos_pn) simp
  moreover from assms have "\<not> length b < 4" by (rule contrapos_pn) simp
  moreover from assms calculation have "n \<noteq> 0" by (cases "n = 0") simp_all
  moreover from assms calculation have "\<not> n > mx" by (cases "n > mx") simp_all
  moreover from assms calculation have "\<not> length b < 4 + unat n" 
    by (cases "length b < 4 + unat n") simp_all
  ultimately have p: "p = take (unat n) (drop 4 b)" and "n \<le> mx" and "n \<noteq> 0" and l: "4 + unat n \<le> length b"
    using assms by simp_all
  then have "unat n \<le> unat mx" "0 < unat n" by (simp_all add: word_le_nat_alt unat_gt_0)
  with l show ?thesis unfolding p by auto
qed

section \<open>Properties\<close>

text \<open>C18. Frames survive the transport: a list of non-empty messages within the writer's
  maximum, written to a working writer, is read back message by message in order by a
  reader with at least that maximum, however the network cut the bytes into chunks, and
  the bytes that follow are left in the stream.\<close>

theorem frames_round_trip:
  assumes "wr_script w = []" and "list_all (fits (fw_max fw)) ds" and "fw_max fw \<le> fr_max fr"
    and "wr_out w @ concat (rd_chunks r) = wr_out (write_frames fw ds w) @ rest"
  shows "fst (read_frames fr (length ds) r) = map Inr ds \<and>
    concat (rd_chunks (snd (read_frames fr (length ds) r))) = rest"
proof -
  have "rd_bytes r = concat (map frame_bytes ds) @ rest"
    using assms(4) by (simp add: write_frames_bytes [OF assms(1,2)] rd_bytes_def)
  with assms(2) show ?thesis
    unfolding rd_bytes_def [symmetric]
  proof (induction ds arbitrary: r)
    case Nil
    then show ?case by simp
  next
    case (Cons d ds)
    from Cons.prems have "rd_bytes r = frame_bytes d @ (concat (map frame_bytes ds) @ rest)"
      and "fits (fr_max fr) d"
      using assms(3) by (auto simp: fits_def)
    note one = read_frame_bytes [OF this]
    from Cons.IH [OF _ one(2)] Cons.prems(1) one(1) show ?case
      by (auto simp: split_beta Let_def)
  qed
qed

theorem frames_round_trip_witness:
  "let w = write_frames (new_frame_writer DefaultMaxMessageSize) [[1, 2], [3]] \<lparr>wr_out = [], wr_script = []\<rparr>;
       r = \<lparr>rd_chunks = [take 5 (wr_out w), drop 5 (wr_out w), [9]], rd_end = EndEOF\<rparr>
   in fst (read_frames (new_frame_reader DefaultMaxMessageSize) 2 r) = [Inr [1, 2], Inr [3]]"
proof -
  let ?fw = "new_frame_writer DefaultMaxMessageSize" and ?fr = "new_frame_reader DefaultMaxMessageSize"
  let ?w = "\<lparr>wr_out = [], wr_script = []\<rparr> :: writer"
  let ?o = "wr_out (write_frames ?fw [[1, 2], [3]] ?w)"
  have f: "list_all (fits (fw_max ?fw)) [[1, 2], [3]]"
    by (simp add: fits_def new_frame_writer_def DefaultMaxMessageSize_def)
  have m: "fw_max ?fw \<le> fr_max ?fr" by (simp add: new_frame_writer_def new_frame_reader_def)
  have c: "wr_out ?w @ concat (rd_chunks \<lparr>rd_chunks = [take 5 ?o, drop 5 ?o, [9]], rd_end = EndEOF\<rparr>)
      = ?o @ [9]"
    by simp
  have l: "length [[1, 2], [3 :: u8]] = 2" by simp
  from frames_round_trip [OF _ f m c, unfolded l list.map] show ?thesis
    unfolding Let_def by simp
qed

text \<open>C17. On a stream that ends with EOF a read has exactly these outcomes: EOF only between
  frames; a truncation error when the stream ends inside a prefix or a payload; an error
  without reading on for the lengths 0 and above the maximum; otherwise the payload of the
  announced length, which never exceeds the maximum. So a peer cannot make the reader
  allocate more than the maximum.\<close>

theorem read_frame_outcome:
  assumes "rd_end r = EndEOF"
  shows "fst (read_frame fr r)
    = (let b = concat (rd_chunks r); n = get_uint32 (take 4 b)
       in if b = [] then Inl FrameEOF
          else if length b < 4 then Inl ErrFrameTruncated
          else if n = 0 then Inl ErrMessageEmpty
          else if n > fr_max fr then Inl ErrMessageTooLarge
          else if length b < 4 + unat n then Inl ErrFrameTruncated
          else Inr (take (unat n) (drop 4 b))) \<and>
    (\<forall>p. fst (read_frame fr r) = Inr p \<longrightarrow> p \<noteq> [] \<and> length p \<le> unat (fr_max fr))"
proof -
  obtain x r1 where x: "read_full 4 r = (x, r1)" by (cases "read_full 4 r")
  obtain y r2 where y: "read_full (unat (get_uint32 (take 4 (rd_bytes r)))) r1 = (y, r2)"
    by (cases "read_full (unat (get_uint32 (take 4 (rd_bytes r)))) r1")
  have end1: "rd_end r1 = EndEOF" and b1: "rd_bytes r1 = drop 4 (rd_bytes r)"
    using read_full_bytes(2,3) [of 4 r] assms by (simp_all add: x)
  have eq: "fst (read_frame fr r)
    = (let b = rd_bytes r; n = get_uint32 (take 4 b)
       in if b = [] then Inl FrameEOF
          else if length b < 4 then Inl ErrFrameTruncated
          else if n = 0 then Inl ErrMessageEmpty
          else if n > fr_max fr then Inl ErrMessageTooLarge
          else if length b < 4 + unat n then Inl ErrFrameTruncated
          else Inr (take (unat n) (drop 4 b)))"
  proof (cases "length (rd_bytes r) < 4")
    case True
    then have "x = Inl (if rd_bytes r = [] then IoEOF else IoUnexpectedEOF)"
      using read_full_bytes(1) [of 4 r] assms by (simp add: x)
    with True show ?thesis by (simp add: read_frame_def LengthPrefixSize_def x Let_def)
  next
    case False
    define n where "n = get_uint32 (take 4 (rd_bytes r))"
    from False have x': "x = Inr (take 4 (rd_bytes r))"
      using read_full_bytes(1) [of 4 r] by (simp add: x)
    have ne: "rd_bytes r \<noteq> []" using False by auto
    have y': "y = (if length (rd_bytes r) < 4 + unat n
        then Inl (if drop 4 (rd_bytes r) = [] then IoEOF else IoUnexpectedEOF)
        else Inr (take (unat n) (drop 4 (rd_bytes r))))"
      using read_full_bytes(1) [of "unat n" r1] False
      by (auto simp: y [folded n_def] b1 end1)
    have step: "fst (read_frame fr r) = (if n = 0 then Inl ErrMessageEmpty
        else if n > fr_max fr then Inl ErrMessageTooLarge
        else fst (case y of Inl e \<Rightarrow> (Inl (if e = IoUnexpectedEOF \<or> e = IoEOF then ErrFrameTruncated
                     else FrameReadFailed), r2)
                 | Inr payload \<Rightarrow> (Inr payload, r2)))"
      using x y unfolding n_def x'
      by (auto simp: read_frame_def LengthPrefixSize_def Let_def split: sum.split)
    show ?thesis
      unfolding step y' Let_def n_def [symmetric] using False ne by simp
  qed
  have "p \<noteq> [] \<and> length p \<le> unat (fr_max fr)" if "fst (read_frame fr r) = Inr p" for p
    by (rule read_outcome_payload [OF that [unfolded eq Let_def]])
  then have "\<forall>p. fst (read_frame fr r) = Inr p \<longrightarrow> p \<noteq> [] \<and> length p \<le> unat (fr_max fr)" by blast
  with eq [unfolded rd_bytes_def] show ?thesis by (rule conjI)
qed

theorem read_frame_outcome_witness:
  "fst (read_frame (new_frame_reader DefaultMaxMessageSize)
     \<lparr>rd_chunks = [[0, 0], [0, 2, 7], [8, 1]], rd_end = EndEOF\<rparr>) = Inr [7, 8] \<and>
   fst (read_frame (new_frame_reader DefaultMaxMessageSize)
     \<lparr>rd_chunks = [[0, 0], [64, 0, 7]], rd_end = EndEOF\<rparr>) = Inl ErrMessageTooLarge"
proof -
  have a: "get_uint32 [0, 0, 0, 2] = 2" "get_uint32 [0, 0, 64, 0] = 16384" by code_simp+
  show ?thesis
    using read_frame_outcome [of "\<lparr>rd_chunks = [[0, 0], [0, 2, 7], [8, 1]], rd_end = EndEOF\<rparr>"
        "new_frame_reader DefaultMaxMessageSize"]
      read_frame_outcome [of "\<lparr>rd_chunks = [[0, 0], [64, 0, 7]], rd_end = EndEOF\<rparr>"
        "new_frame_reader DefaultMaxMessageSize"]
    by (simp add: Let_def a new_frame_reader_def DefaultMaxMessageSize_def)
qed

end
