(* ===== verification/Connection.thy ===== *)
theory Connection
  imports Prelude Complex_Main
begin

text \<open>
  The reconnecting connection manager (\<open>pkg/connection/backoff.go\<close> and
  \<open>reconnect.go\<close>).

  The backoff's multiplier and jitter are \<open>float64\<close> in the code and rationals here; with
  the default settings all products are exact. The random number of \<open>addJitter\<close> is an
  argument between 0 and 1.

  The manager is a step relation: one step per section between two points where another
  goroutine can run. The callers of Connect, the callers of Disconnect that have still to
  signal the loop, and the position of the reconnection goroutine are part of the state.
  The \<open>ConnectFunc\<close> is a parameter of the program: its result is a label.
\<close>

section \<open>Backoff\<close>

definition InitialBackoff :: duration where "InitialBackoff = 1 * second"
definition MaxBackoff :: duration where "MaxBackoff = 60 * second"
definition BackoffMultiplier :: rat where "BackoffMultiplier = 2"
definition JitterFactor :: rat where "JitterFactor = 1 / 4"

record backoff =
  bo_current :: duration
  bo_initial :: duration
  bo_max :: duration
  bo_multiplier :: rat
  bo_jitter :: rat
  bo_attempts :: nat

definition new_backoff :: backoff where
  "new_backoff = \<lparr>bo_current = InitialBackoff, bo_initial = InitialBackoff, bo_max = MaxBackoff,
     bo_multiplier = BackoffMultiplier, bo_jitter = JitterFactor, bo_attempts = 0\<rparr>"

record backoff_config =
  bc_initial :: duration
  bc_max :: duration
  bc_multiplier :: rat
  bc_jitter :: rat

definition new_backoff_with_config :: "backoff_config \<Rightarrow> backoff" where
  "new_backoff_with_config c =
     (let initial = (if bc_initial c \<le> 0 then InitialBackoff else bc_initial c)
      in \<lparr>bo_current = initial, bo_initial = initial,
          bo_max = (if bc_max c \<le> 0 then MaxBackoff else bc_max c),
          bo_multiplier = (if bc_multiplier c \<le> 1 then BackoffMultiplier else bc_multiplier c),
          bo_jitter = (if bc_jitter c < 0 then 0 else bc_jitter c), bo_attempts = 0\<rparr>)"

text \<open>A product of positive numbers, converted to a duration.\<close>

definition add_jitter :: "rat \<Rightarrow> backoff \<Rightarrow> duration \<Rightarrow> duration" where
  "add_jitter rnd b d =
     (if bo_jitter b \<le> 0 then d else d + \<lfloor>of_int d * bo_jitter b * rnd\<rfloor>)"

definition backoff_next :: "rat \<Rightarrow> backoff \<Rightarrow> backoff \<times> duration" where
  "backoff_next rnd b =
     (let delay = add_jitter rnd b (bo_current b);
          nxt = \<lfloor>of_int (bo_current b) * bo_multiplier b\<rfloor>;
          nxt' = (if nxt > bo_max b then bo_max b else nxt)
      in (b\<lparr>bo_attempts := Suc (bo_attempts b), bo_current := nxt'\<rparr>, delay))"

definition backoff_peek :: "rat \<Rightarrow> backoff \<Rightarrow> duration" where
  "backoff_peek rnd b = add_jitter rnd b (bo_current b)"

definition backoff_reset :: "backoff \<Rightarrow> backoff" where
  "backoff_reset b = b\<lparr>bo_current := bo_initial b, bo_attempts := 0\<rparr>"

definition backoff_sequence :: "duration list" where
  "backoff_sequence = [1 * second, 2 * second, 4 * second, 8 * second, 16 * second, 32 * second,
     60 * second]"

section \<open>The connection manager\<close>

datatype conn_state =
    ConnDisconnected | ConnConnecting | ConnConnected | ConnReconnecting | ConnClosed

datatype conn_error = ErrConnectionClosed | ErrAlreadyConnected

text \<open>Where the reconnection goroutine is: not started, in the select of \<open>reconnectLoop\<close>,
  at the head of the loop of \<open>attemptReconnect\<close>, waiting for the delay, in the connect
  function, or returned.\<close>

datatype loop_pc = LoopOff | LoopIdle | LoopHead | LoopWaiting duration | LoopDialing | LoopDone

record conn =
  cn_state :: conn_state
  cn_backoff :: backoff
  cn_auto :: bool
  cn_ctx_done :: bool
  cn_signal :: bool
  cn_loop :: loop_pc
  cn_connects :: nat
  cn_signallers :: nat
  cn_closers :: nat

definition new_conn :: conn where
  "new_conn = \<lparr>cn_state = ConnDisconnected, cn_backoff = new_backoff, cn_auto = True,
     cn_ctx_done = False, cn_signal = False, cn_loop = LoopOff, cn_connects = 0,
     cn_signallers = 0, cn_closers = 0\<rparr>"

definition conn_is_connected :: "conn \<Rightarrow> bool" where
  "conn_is_connected c \<longleftrightarrow> cn_state c = ConnConnected"

definition set_auto_reconnect :: "bool \<Rightarrow> conn \<Rightarrow> conn" where
  "set_auto_reconnect b c = c\<lparr>cn_auto := b\<rparr>"

text \<open>Connect up to the call of the connect function, and from its result on.\<close>

definition connect_begin :: "conn \<Rightarrow> conn_error + conn" where
  "connect_begin c =
     (if cn_state c = ConnConnected then Inl ErrAlreadyConnected
      else if cn_state c = ConnClosed then Inl ErrConnectionClosed
      else Inr (c\<lparr>cn_state := ConnConnecting, cn_connects := Suc (cn_connects c)\<rparr>))"

definition connect_finish :: "bool \<Rightarrow> conn \<Rightarrow> conn" where
  "connect_finish ok c =
     (let c' = c\<lparr>cn_connects := cn_connects c - 1\<rparr>
      in if \<not> ok then c'\<lparr>cn_state := ConnDisconnected\<rparr>
         else c'\<lparr>cn_state := ConnConnected, cn_backoff := backoff_reset (cn_backoff c)\<rparr>)"

definition conn_disconnect :: "conn \<Rightarrow> conn" where
  "conn_disconnect c =
     (if cn_state c \<noteq> ConnConnected then c
      else if cn_auto c
      then c\<lparr>cn_state := ConnReconnecting, cn_signallers := Suc (cn_signallers c)\<rparr>
      else c\<lparr>cn_state := ConnDisconnected\<rparr>)"

definition notify_connection_lost :: "conn \<Rightarrow> conn" where
  "notify_connection_lost c =
     (if cn_state c \<noteq> ConnConnected then c
      else if cn_auto c
      then c\<lparr>cn_state := ConnReconnecting, cn_signallers := Suc (cn_signallers c)\<rparr>
      else c\<lparr>cn_state := ConnDisconnected\<rparr>)"

text \<open>The channel holds one signal; a send to a full channel does nothing.\<close>

definition trigger_reconnect :: "conn \<Rightarrow> conn" where
  "trigger_reconnect c = c\<lparr>cn_signal := True, cn_signallers := cn_signallers c - 1\<rparr>"

definition start_reconnect_loop :: "conn \<Rightarrow> conn" where
  "start_reconnect_loop c = c\<lparr>cn_loop := LoopIdle\<rparr>"

definition conn_close :: "conn \<Rightarrow> conn" where
  "conn_close c =
     (if cn_state c = ConnClosed then c
      else c\<lparr>cn_state := ConnClosed, cn_closers := Suc (cn_closers c)\<rparr>)"

definition conn_cancel :: "conn \<Rightarrow> conn" where
  "conn_cancel c = c\<lparr>cn_ctx_done := True, cn_closers := cn_closers c - 1\<rparr>"

text \<open>The select of \<open>reconnectLoop\<close>.\<close>

definition loop_take_signal :: "conn \<Rightarrow> conn" where
  "loop_take_signal c = c\<lparr>cn_signal := False, cn_loop := LoopHead\<rparr>"

text \<open>\<open>attemptReconnect\<close>: the head of its loop, the check after the delay, and the result.\<close>

definition attempt_head :: "rat \<Rightarrow> conn \<Rightarrow> conn" where
  "attempt_head rnd c =
     (if cn_state c = ConnClosed then c\<lparr>cn_loop := LoopIdle\<rparr>
      else if cn_state c = ConnConnected then c\<lparr>cn_loop := LoopIdle\<rparr>
      else let (b, delay) = backoff_next rnd (cn_backoff c)
           in c\<lparr>cn_backoff := b, cn_loop := LoopWaiting delay\<rparr>)"

definition attempt_dial :: "conn \<Rightarrow> conn" where
  "attempt_dial c =
     (if cn_state c = ConnClosed \<or> cn_state c = ConnConnected then c\<lparr>cn_loop := LoopIdle\<rparr>
      else c\<lparr>cn_loop := LoopDialing\<rparr>)"

definition attempt_result :: "bool \<Rightarrow> conn \<Rightarrow> conn" where
  "attempt_result ok c =
     (if ok then c\<lparr>cn_state := ConnConnected, cn_backoff := backoff_reset (cn_backoff c),
                   cn_loop := LoopIdle\<rparr>
      else c\<lparr>cn_loop := LoopHead\<rparr>)"

datatype conn_label =
    LConnect | LConnectReturns bool | LDisconnect | LLost | LSignal | LSetAuto bool
  | LStartLoop | LTake | LHead rat | LDelayOver | LDialReturns bool | LLoopStops
  | LClose | LCancel

inductive conn_step :: "conn \<Rightarrow> conn_label \<Rightarrow> conn \<Rightarrow> bool" where
  step_connect: "connect_begin c = Inr c' \<Longrightarrow> conn_step c LConnect c'"
| step_connect_returns: "cn_connects c > 0 \<Longrightarrow> conn_step c (LConnectReturns ok) (connect_finish ok c)"
| step_disconnect: "conn_step c LDisconnect (conn_disconnect c)"
| step_lost: "conn_step c LLost (notify_connection_lost c)"
| step_signal: "cn_signallers c > 0 \<Longrightarrow> conn_step c LSignal (trigger_reconnect c)"
| step_set_auto: "conn_step c (LSetAuto b) (set_auto_reconnect b c)"
| step_start_loop: "cn_loop c = LoopOff \<Longrightarrow> conn_step c LStartLoop (start_reconnect_loop c)"
| step_take: "cn_loop c = LoopIdle \<Longrightarrow> cn_signal c \<Longrightarrow> conn_step c LTake (loop_take_signal c)"
| step_head: "cn_loop c = LoopHead \<Longrightarrow> conn_step c (LHead rnd) (attempt_head rnd c)"
| step_delay_over: "cn_loop c = LoopWaiting d \<Longrightarrow> conn_step c LDelayOver (attempt_dial c)"
| step_dial_returns: "cn_loop c = LoopDialing \<Longrightarrow> conn_step c (LDialReturns ok) (attempt_result ok c)"
| step_wait_stops: "cn_loop c = LoopWaiting d \<Longrightarrow> cn_ctx_done c \<Longrightarrow>
    conn_step c LLoopStops (c\<lparr>cn_loop := LoopIdle\<rparr>)"
| step_loop_stops: "cn_loop c = LoopIdle \<Longrightarrow> cn_ctx_done c \<Longrightarrow>
    conn_step c LLoopStops (c\<lparr>cn_loop := LoopDone\<rparr>)"
| step_close: "conn_step c LClose (conn_close c)"
| step_cancel: "cn_closers c > 0 \<Longrightarrow> conn_step c LCancel (conn_cancel c)"

inductive conn_run :: "conn \<Rightarrow> conn_label list \<Rightarrow> conn \<Rightarrow> bool" where
  run_nil: "conn_run c [] c"
| run_snoc: "conn_run c ls c' \<Longrightarrow> conn_step c' l c'' \<Longrightarrow> conn_run c (ls @ [l]) c''"

code_pred (modes: i \<Rightarrow> i \<Rightarrow> o \<Rightarrow> bool) conn_step .

inductive_cases conn_stepE: "conn_step c l c'"

section \<open>The backoff sequence\<close>

lemma backoff_next_default:
  assumes "bo_multiplier b = 2"
  shows "bo_current (fst (backoff_next rnd b)) = min (2 * bo_current b) (bo_max b)"
proof -
  have "\<lfloor>of_int (bo_current b) * (2 :: rat)\<rfloor> = \<lfloor>of_int (bo_current b * 2) :: rat\<rfloor>" by simp
  then show ?thesis by (simp add: backoff_next_def assms Let_def min_def del: of_int_mult)
qed

lemma backoff_next_fixed [simp]:
  "bo_multiplier (fst (backoff_next rnd b)) = bo_multiplier b"
  "bo_max (fst (backoff_next rnd b)) = bo_max b"
  "bo_initial (fst (backoff_next rnd b)) = bo_initial b"
  "bo_jitter (fst (backoff_next rnd b)) = bo_jitter b"
  "bo_attempts (fst (backoff_next rnd b)) = Suc (bo_attempts b)"
  by (simp_all add: backoff_next_def Let_def)

lemma add_jitter_bounds:
  assumes "0 \<le> d" and "0 \<le> rnd" and "rnd < 1"
  shows "d \<le> add_jitter rnd b d" and "of_int (add_jitter rnd b d) \<le> of_int d * (1 + max 0 (bo_jitter b))"
proof -
  let ?x = "of_int d * bo_jitter b * rnd"
  have x: "?x \<le> of_int d * bo_jitter b" and x0: "0 \<le> ?x" if "0 < bo_jitter b"
    using that assms mult_left_le [of rnd "of_int d * bo_jitter b"] by (simp_all add: less_imp_le)
  show "d \<le> add_jitter rnd b d"
    using x0 by (simp add: add_jitter_def)
  show "of_int (add_jitter rnd b d) \<le> of_int d * (1 + max 0 (bo_jitter b))"
  proof (cases "bo_jitter b \<le> 0")
    case True
    then show ?thesis by (simp add: add_jitter_def)
  next
    case False
    then have "of_int \<lfloor>?x\<rfloor> \<le> of_int d * bo_jitter b"
      using x order_trans [OF of_int_floor_le [of ?x]] by simp
    with False show ?thesis by (simp add: add_jitter_def distrib_left)
  qed
qed

definition backoff_after :: "rat list \<Rightarrow> backoff \<Rightarrow> backoff" where
  "backoff_after rnds b = foldl (\<lambda>b rnd. fst (backoff_next rnd b)) b rnds"

lemma backoff_after_default:
  "bo_multiplier (backoff_after rnds new_backoff) = 2 \<and> bo_max (backoff_after rnds new_backoff) = 60 * second \<and>
   bo_jitter (backoff_after rnds new_backoff) = 1 / 4 \<and>
   bo_attempts (backoff_after rnds new_backoff) = length rnds \<and>
   bo_current (backoff_after rnds new_backoff) = min (2 ^ length rnds * second) (60 * second)"
proof (induction rnds rule: rev_induct)
  case Nil
  then show ?case
    by (simp add: backoff_after_def new_backoff_def BackoffMultiplier_def MaxBackoff_def
        JitterFactor_def InitialBackoff_def)
next
  case (snoc r rnds)
  then show ?case by (simp add: backoff_after_def backoff_next_default)
qed

text \<open>With the default settings the base delay after n attempts is \<open>2^n\<close> seconds, at
  most 60, which is the documented sequence 1, 2, 4, 8, 16, 32, 60; and whatever the random
  numbers are, the delay that Next returns is at least the base and at most a quarter above.\<close>

theorem default_backoff_delays:
  assumes "0 \<le> rnd" and "rnd < 1" and "b = backoff_after rnds new_backoff"
  shows "bo_current b = min (2 ^ length rnds * second) (60 * second) \<and>
    (length rnds < length backoff_sequence \<longrightarrow> bo_current b = backoff_sequence ! length rnds) \<and>
    bo_current b \<le> snd (backoff_next rnd b) \<and>
    4 * snd (backoff_next rnd b) \<le> 5 * bo_current b"
proof -
  note d = backoff_after_default [of rnds, folded assms(3)]
  have del: "snd (backoff_next rnd b) = add_jitter rnd b (bo_current b)"
    by (simp add: backoff_next_def Let_def)
  have pos: "0 \<le> bo_current b" using d by simp
  note jb = add_jitter_bounds [OF pos assms(1,2), of b]
  from jb(2) have "of_int (add_jitter rnd b (bo_current b)) \<le> of_int (bo_current b) * (5 / 4 :: rat)"
    using d by simp
  then have "of_int (4 * add_jitter rnd b (bo_current b)) \<le> (of_int (5 * bo_current b) :: rat)" by simp
  then have up: "4 * add_jitter rnd b (bo_current b) \<le> 5 * bo_current b" by (simp only: of_int_le_iff)
  have "bo_current b = backoff_sequence ! length rnds" if "length rnds < length backoff_sequence"
  proof -
    define n where "n = length rnds"
    have "n < 7" using that by (simp add: n_def backoff_sequence_def)
    then have "n = 0 \<or> n = 1 \<or> n = 2 \<or> n = 3 \<or> n = 4 \<or> n = 5 \<or> n = 6" by arith
    then show ?thesis using d unfolding n_def [symmetric] by (auto simp: backoff_sequence_def)
  qed
  with d up jb(1) del show ?thesis by simp
qed

theorem default_backoff_delays_witness:
  "bo_current (backoff_after [0, 1 / 2, 0] new_backoff) = 8 * second \<and>
   8 * second \<le> snd (backoff_next (1 / 2) (backoff_after [0, 1 / 2, 0] new_backoff)) \<and>
   4 * snd (backoff_next (1 / 2) (backoff_after [0, 1 / 2, 0] new_backoff)) \<le> 40 * second"
  using default_backoff_delays [of "1 / 2" _ "[0, 1 / 2, 0]", OF _ _ refl] by simp

section \<open>Reconnection\<close>

text \<open>Somebody takes care of the reconnection.\<close>

definition reconnect_pending :: "conn \<Rightarrow> bool" where
  "reconnect_pending c \<longleftrightarrow>
     cn_signallers c > 0 \<or> cn_signal c \<or>
     (case cn_loop c of LoopHead \<Rightarrow> True | LoopWaiting _ \<Rightarrow> True | LoopDialing \<Rightarrow> True | _ \<Rightarrow> False)"

definition conn_inv :: "conn \<Rightarrow> bool" where
  "conn_inv c \<longleftrightarrow> (cn_state c = ConnReconnecting \<and> \<not> cn_ctx_done c \<longrightarrow> reconnect_pending c)"

lemma conn_inv_step: "conn_step c l c' \<Longrightarrow> conn_inv c \<Longrightarrow> conn_inv c'"
  by (induction rule: conn_step.induct)
    (auto simp: conn_inv_def reconnect_pending_def connect_begin_def connect_finish_def Let_def
      conn_disconnect_def notify_connection_lost_def trigger_reconnect_def set_auto_reconnect_def
      start_reconnect_loop_def loop_take_signal_def attempt_head_def attempt_dial_def
      attempt_result_def conn_close_def conn_cancel_def split: if_splits loop_pc.splits prod.splits)

lemma conn_inv_run: "conn_run c ls c' \<Longrightarrow> conn_inv c \<Longrightarrow> conn_inv c'"
  by (induction rule: conn_run.induct) (auto dest: conn_inv_step)

text \<open>C16. Reconnection is never forgotten: in every run, with any interleaving of the
  callers and the reconnection goroutine, a manager in the state RECONNECTING that is not
  cancelled has a signal that the loop has yet to take, a caller about to send it, or a
  loop in the middle of an attempt.\<close>

theorem reconnecting_is_attended:
  assumes "conn_run new_conn ls c" and "cn_state c = ConnReconnecting" and "\<not> cn_ctx_done c"
  shows "reconnect_pending c"
  using conn_inv_run [OF assms(1)] assms(2,3) by (simp add: conn_inv_def new_conn_def)

lemma conn_run_Cons: "conn_step c l c' \<Longrightarrow> conn_run c' ls c'' \<Longrightarrow> conn_run c (l # ls) c''"
proof -
  assume s: "conn_step c l c'" and "conn_run c' ls c''"
  from this(2) s show ?thesis
  proof (induction rule: conn_run.induct)
    case (run_nil c')
    from run_snoc [OF conn_run.run_nil this] show ?case by simp
  next
    case (run_snoc c1 ls c2 l' c3)
    from conn_run.run_snoc [OF run_snoc.IH [OF run_snoc.prems] run_snoc.hyps(2)] show ?case by simp
  qed
qed

text \<open>A run into the middle of a reconnection.\<close>

definition dialing_labels :: "conn_label list" where
  "dialing_labels = [LConnect, LConnectReturns True, LStartLoop, LLost, LSignal, LTake, LHead 0, LDelayOver]"

definition dialing_conn :: conn where
  "dialing_conn = attempt_dial (attempt_head 0 (loop_take_signal (trigger_reconnect
     (notify_connection_lost (start_reconnect_loop (connect_finish True
       (new_conn\<lparr>cn_state := ConnConnecting, cn_connects := 1\<rparr>)))))))"

lemmas conn_ops = connect_begin_def connect_finish_def conn_disconnect_def notify_connection_lost_def
  trigger_reconnect_def set_auto_reconnect_def start_reconnect_loop_def loop_take_signal_def
  attempt_head_def attempt_dial_def attempt_result_def conn_close_def conn_cancel_def

lemma dialing_run: "conn_run new_conn dialing_labels dialing_conn"
proof -
  let ?c1 = "new_conn\<lparr>cn_state := ConnConnecting, cn_connects := 1\<rparr>"
  let ?c3 = "start_reconnect_loop (connect_finish True ?c1)"
  let ?c5 = "trigger_reconnect (notify_connection_lost ?c3)"
  let ?c7 = "attempt_head 0 (loop_take_signal ?c5)"
  have "connect_begin new_conn = Inr ?c1" "cn_connects ?c1 > 0" "cn_loop (connect_finish True ?c1) = LoopOff"
    "cn_signallers (notify_connection_lost ?c3) > 0" "cn_loop ?c5 = LoopIdle" "cn_signal ?c5"
    "cn_loop (loop_take_signal ?c5) = LoopHead" "cn_loop ?c7 = LoopWaiting (1 * second)"
    by code_simp+
  note h = this
  show ?thesis
    unfolding dialing_labels_def dialing_conn_def
    by (rule conn_run_Cons [OF step_connect [OF h(1)] conn_run_Cons [OF step_connect_returns [OF h(2)]
        conn_run_Cons [OF step_start_loop [OF h(3)] conn_run_Cons [OF step_lost
        conn_run_Cons [OF step_signal [OF h(4)] conn_run_Cons [OF step_take [OF h(5,6)]
        conn_run_Cons [OF step_head [OF h(7)] conn_run_Cons [OF step_delay_over [OF h(8)] run_nil]]]]]]]])
qed

theorem reconnecting_is_attended_witness:
  "conn_run new_conn dialing_labels dialing_conn \<and> cn_state dialing_conn = ConnReconnecting \<and>
   reconnect_pending dialing_conn"
proof -
  have "cn_state dialing_conn = ConnReconnecting" "\<not> cn_ctx_done dialing_conn"
    by code_simp+
  with reconnecting_is_attended [OF dialing_run this] dialing_run show ?thesis by simp
qed

text \<open>A closed manager is left only by a connect function that was still running when it
  was closed, and such a function does reopen it: an attempt of the reconnection loop or a
  Connect call that succeeds after Close makes the state CONNECTED, although the loop is
  cancelled and Close has reported the end; a Connect call that fails makes it DISCONNECTED.\<close>

theorem closed_left_by_running_dial:
  assumes "cn_state c = ConnClosed"
  shows "(\<forall>l c'. conn_step c l c' \<and> cn_state c' \<noteq> ConnClosed \<longrightarrow>
      l = LDialReturns True \<and> cn_loop c = LoopDialing \<or>
      l \<in> {LConnectReturns True, LConnectReturns False} \<and> cn_connects c > 0) \<and>
    (cn_loop c = LoopDialing \<longrightarrow>
      (\<exists>c'. conn_step c (LDialReturns True) c' \<and> cn_state c' = ConnConnected)) \<and>
    (cn_connects c > 0 \<longrightarrow>
      (\<exists>c'. conn_step c (LConnectReturns True) c' \<and> cn_state c' = ConnConnected) \<and>
      (\<exists>c'. conn_step c (LConnectReturns False) c' \<and> cn_state c' = ConnDisconnected))"
proof (intro conjI allI impI)
  fix l c'
  assume "conn_step c l c' \<and> cn_state c' \<noteq> ConnClosed"
  then have "conn_step c l c'" and "cn_state c' \<noteq> ConnClosed" by simp_all
  then show "l = LDialReturns True \<and> cn_loop c = LoopDialing \<or>
      l \<in> {LConnectReturns True, LConnectReturns False} \<and> cn_connects c > 0"
    using assms by (cases rule: conn_step.cases) (auto simp: conn_ops Let_def split: if_splits)
next
  assume "cn_loop c = LoopDialing"
  from step_dial_returns [OF this, of True]
  show "\<exists>c'. conn_step c (LDialReturns True) c' \<and> cn_state c' = ConnConnected"
    by (force simp: attempt_result_def)
next
  assume a: "cn_connects c > 0"
  from step_connect_returns [OF a, of True]
  show "\<exists>c'. conn_step c (LConnectReturns True) c' \<and> cn_state c' = ConnConnected"
    by (force simp: connect_finish_def Let_def)
  from step_connect_returns [OF a, of False]
  show "\<exists>c'. conn_step c (LConnectReturns False) c' \<and> cn_state c' = ConnDisconnected"
    by (force simp: connect_finish_def Let_def)
qed

theorem closed_left_by_running_dial_witness:
  "\<exists>c c'. conn_run new_conn (dialing_labels @ [LClose]) c \<and> cn_state c = ConnClosed \<and>
     conn_step c (LDialReturns True) c' \<and> cn_state c' = ConnConnected"
proof -
  let ?c = "conn_close dialing_conn"
  have "conn_run new_conn (dialing_labels @ [LClose]) ?c"
    by (rule run_snoc [OF dialing_run step_close])
  moreover have c: "cn_state ?c = ConnClosed" "cn_loop ?c = LoopDialing"
    by code_simp+
  moreover note closed_left_by_running_dial [OF c(1)]
  ultimately show ?thesis by blast
qed

end
