(* ===== verification/Subscription.thy ===== *)
theory Subscription
  imports GoAny
begin

text \<open>
  Subscriptions (\<open>pkg/subscription/subscription.go\<close>, \<open>manager.go\<close>): the coalescing of
  changes, bounce-back suppression and heartbeats of one subscription, and the manager with
  its feature index.

  The manager's two maps share the subscription objects, so these live in a store: an
  address is an index into \<open>sm_store\<close>, the maps hold addresses. The identifier source
  \<open>idGenerator\<close> is a \<open>uint32\<close> that wraps. It is shared by all managers of the process: that
  another manager takes an identifier is a step of a run. Notifications given to the callback
  are outputs.
\<close>

section \<open>Data\<close>

datatype subscription_error =
    ErrInvalidInterval | ErrResourceExhausted | ErrSubscriptionNotFound | ErrInvalidAttributeID

definition DefaultMaxSubscriptions :: int where "DefaultMaxSubscriptions = 50"
definition DefaultMaxAttributesPerSub :: int where "DefaultMaxAttributesPerSub = 100"

datatype heartbeat_mode = HeartbeatEmpty | HeartbeatFull

record sub_config =
  sc_max_subscriptions :: int
  sc_max_attributes :: int
  sc_heartbeat_mode :: heartbeat_mode
  sc_suppress_bounce_back :: bool
  sc_auto_correct :: bool

definition DefaultConfig :: sub_config where
  "DefaultConfig = \<lparr>sc_max_subscriptions = DefaultMaxSubscriptions,
     sc_max_attributes = DefaultMaxAttributesPerSub, sc_heartbeat_mode = HeartbeatFull,
     sc_suppress_bounce_back = True, sc_auto_correct = False\<rparr>"

record subscription =
  sb_id :: u32
  sb_feature :: u16
  sb_endpoint :: u16
  sb_attrs :: "u16 list"
  sb_min :: duration
  sb_max :: duration
  sb_last_notified :: time
  sb_last_values :: "(u16, any) gomap"
  sb_pending :: "(u16, any) gomap"
  sb_window_start :: time
  sb_has_changes :: bool
  sb_active :: bool

section \<open>One subscription\<close>

definition new_subscription :: "time \<Rightarrow> u32 \<Rightarrow> u16 \<Rightarrow> u16 \<Rightarrow> u16 list \<Rightarrow> duration \<Rightarrow> duration \<Rightarrow>
    subscription" where
  "new_subscription now i f e attrs mn mx =
     \<lparr>sb_id = i, sb_feature = f, sb_endpoint = e, sb_attrs = attrs, sb_min = mn, sb_max = mx,
      sb_last_notified = now, sb_last_values = [], sb_pending = [], sb_window_start = zero_time,
      sb_has_changes = False, sb_active = True\<rparr>"

definition sub_deactivate :: "subscription \<Rightarrow> subscription" where
  "sub_deactivate s = s\<lparr>sb_active := False\<rparr>"

definition record_change :: "time \<Rightarrow> u16 \<Rightarrow> any \<Rightarrow> subscription \<Rightarrow> subscription \<times> bool" where
  "record_change now attr v s =
     (if \<not> sb_active s then (s, False)
      else if length (sb_attrs s) > 0 \<and> \<not> list_ex (\<lambda>i. i = attr) (sb_attrs s) then (s, False)
      else
        let is_new = \<not> sb_has_changes s;
            s1 = (if is_new then s\<lparr>sb_window_start := now\<rparr> else s)
        in (s1\<lparr>sb_pending := gm_put attr v (sb_pending s1), sb_has_changes := True\<rparr>, is_new))"

definition valuesEqual :: "any \<Rightarrow> any \<Rightarrow> bool" where
  "valuesEqual a b =
     (if a = ANil \<and> b = ANil then True
      else if a = ANil \<or> b = ANil then False
      else case a of
         AI64 av \<Rightarrow> (case b of AI64 bv \<Rightarrow> av = bv | _ \<Rightarrow> False)
       | AI32 av \<Rightarrow> (case b of AI32 bv \<Rightarrow> av = bv | _ \<Rightarrow> False)
       | AInt av \<Rightarrow> (case b of AInt bv \<Rightarrow> av = bv | _ \<Rightarrow> False)
       | AU64 av \<Rightarrow> (case b of AU64 bv \<Rightarrow> av = bv | _ \<Rightarrow> False)
       | AU32 av \<Rightarrow> (case b of AU32 bv \<Rightarrow> av = bv | _ \<Rightarrow> False)
       | AUint av \<Rightarrow> (case b of AUint bv \<Rightarrow> av = bv | _ \<Rightarrow> False)
       | AF64 av \<Rightarrow> (case b of AF64 bv \<Rightarrow> av = bv | _ \<Rightarrow> False)
       | AF32 av \<Rightarrow> (case b of AF32 bv \<Rightarrow> av = bv | _ \<Rightarrow> False)
       | AString av \<Rightarrow> (case b of AString bv \<Rightarrow> av = bv | _ \<Rightarrow> False)
       | ABool av \<Rightarrow> (case b of ABool bv \<Rightarrow> av = bv | _ \<Rightarrow> False)
       | _ \<Rightarrow> False)"

definition bounce_back :: "bool \<Rightarrow> (u16, any) gomap \<Rightarrow> u16 \<Rightarrow> any \<Rightarrow> bool" where
  "bounce_back suppress known attr v \<longleftrightarrow>
     suppress \<and> (case gm_get known attr of None \<Rightarrow> False | Some l \<Rightarrow> valuesEqual l v)"

text \<open>One turn of the loop over the pending changes: \<open>(notification, lastValues)\<close>.\<close>

fun pending_step :: "bool \<Rightarrow> (u16, any) gomap \<times> (u16, any) gomap \<Rightarrow> u16 \<times> any \<Rightarrow>
    (u16, any) gomap \<times> (u16, any) gomap" where
  "pending_step suppress (notif, known) (attr, v) =
     (if bounce_back suppress known attr v then (notif, known)
      else (gm_put attr v notif, gm_put attr v known))"

definition get_pending_notification :: "time \<Rightarrow> bool \<Rightarrow> subscription \<Rightarrow>
    subscription \<times> (u16, any) gomap option" where
  "get_pending_notification now suppress s =
     (if \<not> sb_active s \<or> \<not> sb_has_changes s then (s, None)
      else if now - sb_window_start s < sb_min s then (s, None)
      else
        let (notif, known) = foldl (pending_step suppress) ([], sb_last_values s) (sb_pending s)
        in (s\<lparr>sb_last_values := known, sb_pending := [], sb_has_changes := False,
              sb_last_notified := now\<rparr>,
            if notif = [] then None else Some notif))"

definition needs_heartbeat :: "time \<Rightarrow> subscription \<Rightarrow> bool" where
  "needs_heartbeat now s \<longleftrightarrow> sb_active s \<and> now - sb_last_notified s \<ge> sb_max s"

definition record_heartbeat :: "time \<Rightarrow> subscription \<Rightarrow> subscription" where
  "record_heartbeat now s = s\<lparr>sb_last_notified := now\<rparr>"

definition set_priming_values :: "time \<Rightarrow> (u16, any) gomap \<Rightarrow> subscription \<Rightarrow> subscription" where
  "set_priming_values now vs s =
     s\<lparr>sb_last_values := foldl (\<lambda>m (k, v). gm_put k v m) (sb_last_values s) vs,
       sb_last_notified := now\<rparr>"

definition time_since_last_notification :: "time \<Rightarrow> subscription \<Rightarrow> duration" where
  "time_since_last_notification now s = now - sb_last_notified s"

definition time_until_coalesce_expiry :: "time \<Rightarrow> subscription \<Rightarrow> duration" where
  "time_until_coalesce_expiry now s =
     (if \<not> sb_has_changes s then 0
      else let elapsed = now - sb_window_start s
           in if elapsed \<ge> sb_min s then 0 else sb_min s - elapsed)"

section \<open>The manager\<close>

record sub_notification =
  no_subscription :: u32
  no_feature :: u16
  no_endpoint :: u16
  no_attributes :: "(u16, any) gomap"
  no_priming :: bool
  no_heartbeat :: bool
  no_timestamp :: time

record sub_manager =
  sm_config :: sub_config
  sm_subs :: "(u32, nat) gomap"
  sm_index :: "(u16 \<times> u16, nat list) gomap"
  sm_store :: "subscription list"
  sm_next_id :: u32
  sm_on_notify :: bool

definition new_sub_manager :: "sub_config \<Rightarrow> sub_manager" where
  "new_sub_manager c =
     \<lparr>sm_config = c\<lparr>sc_max_subscriptions := (if sc_max_subscriptions c \<le> 0 then DefaultMaxSubscriptions
                                            else sc_max_subscriptions c),
                    sc_max_attributes := (if sc_max_attributes c \<le> 0 then DefaultMaxAttributesPerSub
                                          else sc_max_attributes c)\<rparr>,
      sm_subs = [], sm_index = [], sm_store = [], sm_next_id = 0, sm_on_notify = False\<rparr>"

definition filter_attributes :: "(u16, any) gomap \<Rightarrow> u16 list \<Rightarrow> (u16, any) gomap" where
  "filter_attributes vs attrs =
     (if length attrs = 0 then vs
      else foldl (\<lambda>m i. case gm_get vs i of None \<Rightarrow> m | Some v \<Rightarrow> gm_put i v m) [] attrs)"

text \<open>\<open>m.featureIndex[key]\<close>, nil when there is no entry.\<close>

definition index_at :: "(u16 \<times> u16, nat list) gomap \<Rightarrow> u16 \<times> u16 \<Rightarrow> nat list" where
  "index_at ix key = (case gm_get ix key of None \<Rightarrow> [] | Some as \<Rightarrow> as)"

definition sub_subscribe :: "time \<Rightarrow> u16 \<Rightarrow> u16 \<Rightarrow> u16 list \<Rightarrow> duration \<Rightarrow> duration \<Rightarrow>
    (u16, any) gomap \<Rightarrow> sub_manager \<Rightarrow>
    sub_manager \<times> (subscription_error + u32) \<times> sub_notification list" where
  "sub_subscribe now e f attrs mn0 mx0 vals m =
     (if mx0 = 0 then (m, Inl ErrInvalidInterval, [])
      else if mn0 > mx0 \<and> \<not> sc_auto_correct (sm_config m) then (m, Inl ErrInvalidInterval, [])
      else
        let (mn, mx) = (if mn0 > mx0 then (mx0, mn0) else (mn0, mx0))
        in if int (length attrs) > sc_max_attributes (sm_config m) then (m, Inl ErrInvalidAttributeID, [])
           else if int (length (sm_subs m)) \<ge> sc_max_subscriptions (sm_config m)
           then (m, Inl ErrResourceExhausted, [])
           else
             let i = sm_next_id m + 1;
                 priming = filter_attributes vals attrs;
                 s = set_priming_values now priming (new_subscription now i f e attrs mn mx);
                 a = length (sm_store m);
                 m' = m\<lparr>sm_next_id := i, sm_store := sm_store m @ [s],
                        sm_subs := gm_put i a (sm_subs m),
                        sm_index := gm_put (e, f) (index_at (sm_index m) (e, f) @ [a]) (sm_index m)\<rparr>
             in (m', Inr i,
                 if sm_on_notify m \<and> length priming > 0
                 then [\<lparr>no_subscription = i, no_feature = f, no_endpoint = e, no_attributes = priming,
                        no_priming = True, no_heartbeat = False, no_timestamp = now\<rparr>]
                 else []))"

text \<open>The loop that removes the first entry with the id from an index list.\<close>

fun remove_id :: "subscription list \<Rightarrow> u32 \<Rightarrow> nat list \<Rightarrow> nat list" where
  "remove_id store i [] = []"
| "remove_id store i (a # as) = (if sb_id (store ! a) = i then as else a # remove_id store i as)"

definition sub_unsubscribe :: "u32 \<Rightarrow> sub_manager \<Rightarrow> sub_manager \<times> subscription_error option" where
  "sub_unsubscribe i m =
     (case gm_get (sm_subs m) i of
        None \<Rightarrow> (m, Some ErrSubscriptionNotFound)
      | Some a \<Rightarrow>
          let s = sm_store m ! a;
              key = (sb_endpoint s, sb_feature s);
              left = remove_id (sm_store m) i (index_at (sm_index m) key)
          in (m\<lparr>sm_store := (sm_store m)[a := sub_deactivate s], sm_subs := gm_del i (sm_subs m),
                sm_index := (if left = [] then gm_del key (sm_index m) else gm_put key left (sm_index m))\<rparr>,
              None))"

definition at_address :: "nat \<Rightarrow> (subscription \<Rightarrow> subscription) \<Rightarrow> subscription list \<Rightarrow> subscription list" where
  "at_address a g store = store[a := g (store ! a)]"

definition notify_change :: "time \<Rightarrow> u16 \<Rightarrow> u16 \<Rightarrow> u16 \<Rightarrow> any \<Rightarrow> sub_manager \<Rightarrow> sub_manager" where
  "notify_change now e f attr v m =
     m\<lparr>sm_store := foldl (\<lambda>st a. at_address a (\<lambda>s. fst (record_change now attr v s)) st)
                     (sm_store m) (index_at (sm_index m) (e, f))\<rparr>"

definition notify_changes :: "time \<Rightarrow> u16 \<Rightarrow> u16 \<Rightarrow> (u16, any) gomap \<Rightarrow> sub_manager \<Rightarrow> sub_manager" where
  "notify_changes now e f cs m =
     m\<lparr>sm_store := foldl (\<lambda>st a. foldl (\<lambda>st (attr, v). at_address a (\<lambda>s. fst (record_change now attr v s)) st)
                        st cs)
                     (sm_store m) (index_at (sm_index m) (e, f))\<rparr>"

definition change_notification :: "time \<Rightarrow> subscription \<Rightarrow> (u16, any) gomap \<Rightarrow> sub_notification" where
  "change_notification now s attrs =
     \<lparr>no_subscription = sb_id s, no_feature = sb_feature s, no_endpoint = sb_endpoint s,
      no_attributes = attrs, no_priming = False, no_heartbeat = False, no_timestamp = now\<rparr>"

definition heartbeat_notification :: "time \<Rightarrow> heartbeat_mode \<Rightarrow> subscription \<Rightarrow> sub_notification" where
  "heartbeat_notification now mode s =
     \<lparr>no_subscription = sb_id s, no_feature = sb_feature s, no_endpoint = sb_endpoint s,
      no_attributes = (if mode = HeartbeatFull then sb_last_values s else []),
      no_priming = False, no_heartbeat = True, no_timestamp = now\<rparr>"

text \<open>One turn of the loop of \<open>ProcessNotifications\<close>.\<close>

definition process_one :: "time \<Rightarrow> sub_config \<Rightarrow> subscription \<Rightarrow> subscription \<times> sub_notification list" where
  "process_one now c s =
     (let (s1, pend) = get_pending_notification now (sc_suppress_bounce_back c) s;
          out1 = (case pend of None \<Rightarrow> [] | Some attrs \<Rightarrow> [change_notification now s1 attrs])
      in if needs_heartbeat now s1
         then (record_heartbeat now s1, out1 @ [heartbeat_notification now (sc_heartbeat_mode c) s1])
         else (s1, out1))"

definition process_notifications :: "time \<Rightarrow> sub_manager \<Rightarrow> sub_manager \<times> sub_notification list" where
  "process_notifications now m =
     (if \<not> sm_on_notify m then (m, [])
      else
        let (st, out) = foldl (\<lambda>(st, out) a.
                let (s, o1) = process_one now (sm_config m) (st ! a) in (st[a := s], out @ o1))
              (sm_store m, []) (map snd (sm_subs m))
        in (m\<lparr>sm_store := st\<rparr>, out))"

definition sub_clear_all :: "sub_manager \<Rightarrow> sub_manager" where
  "sub_clear_all m =
     m\<lparr>sm_store := foldl (\<lambda>st a. at_address a sub_deactivate st) (sm_store m) (map snd (sm_subs m)),
       sm_subs := [], sm_index := []\<rparr>"

definition sub_count :: "sub_manager \<Rightarrow> nat" where
  "sub_count m = length (sm_subs m)"

definition sub_get :: "sub_manager \<Rightarrow> u32 \<Rightarrow> subscription_error + subscription" where
  "sub_get m i = (case gm_get (sm_subs m) i of None \<Rightarrow> Inl ErrSubscriptionNotFound
                  | Some a \<Rightarrow> Inr (sm_store m ! a))"

definition sub_on_notification :: "bool \<Rightarrow> sub_manager \<Rightarrow> sub_manager" where
  "sub_on_notification b m = m\<lparr>sm_on_notify := b\<rparr>"

datatype sub_op =
    SubSubscribe time u16 u16 "u16 list" duration duration "(u16, any) gomap"
  | SubUnsubscribe u32
  | SubNotifyChange time u16 u16 u16 any
  | SubNotifyChanges time u16 u16 "(u16, any) gomap"
  | SubProcess time
  | SubClearAll
  | SubOnNotification bool
  | SubOtherManagerTakesId

text \<open>\<open>nextID\<close>.\<close>

definition take_id :: "sub_manager \<Rightarrow> sub_manager" where
  "take_id m = m\<lparr>sm_next_id := sm_next_id m + 1\<rparr>"

fun sub_step :: "sub_manager \<Rightarrow> sub_op \<Rightarrow> sub_manager" where
  "sub_step m (SubSubscribe now e f attrs mn mx vals) = fst (sub_subscribe now e f attrs mn mx vals m)"
| "sub_step m (SubUnsubscribe i) = fst (sub_unsubscribe i m)"
| "sub_step m (SubNotifyChange now e f attr v) = notify_change now e f attr v m"
| "sub_step m (SubNotifyChanges now e f cs) = notify_changes now e f cs m"
| "sub_step m (SubProcess now) = fst (process_notifications now m)"
| "sub_step m SubClearAll = sub_clear_all m"
| "sub_step m (SubOnNotification b) = sub_on_notification b m"
| "sub_step m SubOtherManagerTakesId = take_id m"

section \<open>Coalescing\<close>

definition subscribed :: "subscription \<Rightarrow> u16 \<Rightarrow> bool" where
  "subscribed s attr \<longleftrightarrow> sb_attrs s = [] \<or> attr \<in> set (sb_attrs s)"

lemma record_change_eq:
  "record_change now attr v s =
     (if sb_active s \<and> subscribed s attr
      then (s\<lparr>sb_window_start := (if sb_has_changes s then sb_window_start s else now),
              sb_pending := gm_put attr v (sb_pending s), sb_has_changes := True\<rparr>, \<not> sb_has_changes s)
      else (s, False))"
  by (cases s) (auto simp: record_change_def subscribed_def Let_def list_ex_iff)

text \<open>The changes a caller records, with their times.\<close>

definition record_all :: "subscription \<Rightarrow> (time \<times> u16 \<times> any) list \<Rightarrow> subscription" where
  "record_all s cs = foldl (\<lambda>s (t, a, v). fst (record_change t a v s)) s cs"

definition seen_changes :: "subscription \<Rightarrow> (time \<times> u16 \<times> any) list \<Rightarrow> (time \<times> u16 \<times> any) list" where
  "seen_changes s cs = filter (\<lambda>(t, a, v). subscribed s a) cs"

text \<open>The value an attribute was given last.\<close>

definition last_value :: "(time \<times> u16 \<times> any) list \<Rightarrow> u16 \<Rightarrow> any option" where
  "last_value cs = map_of (rev (map snd cs))"

lemma record_all_running:
  assumes "sb_active s" and "sb_has_changes s"
  shows "record_all s cs = s\<lparr>sb_pending := foldl (\<lambda>m (t, a, v). gm_put a v m) (sb_pending s) (seen_changes s cs)\<rparr>"
  using assms
proof (induction cs arbitrary: s)
  case Nil
  then show ?case by (simp add: record_all_def seen_changes_def)
next
  case (Cons c cs)
  obtain t a v where c: "c = (t, a, v)" by (cases c)
  let ?s = "fst (record_change t a v s)"
  have s: "?s = (if subscribed s a then s\<lparr>sb_pending := gm_put a v (sb_pending s)\<rparr> else s)"
    using Cons.prems by (cases s) (simp add: record_change_eq subscribed_def)
  then have "seen_changes ?s cs = seen_changes s cs" "sb_active ?s" "sb_has_changes ?s"
    using Cons.prems by (auto simp: seen_changes_def subscribed_def)
  with Cons.IH [of ?s] s show ?case
    by (auto simp: record_all_def c seen_changes_def)
qed

lemma record_all_fresh:
  assumes "sb_active s" and "\<not> sb_has_changes s" and "seen_changes s cs = (t0, a0, v0) # cs'"
  shows "record_all s cs = s\<lparr>sb_window_start := t0, sb_has_changes := True,
    sb_pending := foldl (\<lambda>m (t, a, v). gm_put a v m) (sb_pending s) (seen_changes s cs)\<rparr>"
  using assms
proof (induction cs)
  case Nil
  then show ?case by (simp add: seen_changes_def)
next
  case (Cons c cs)
  obtain t a v where c: "c = (t, a, v)" by (cases c)
  show ?case
  proof (cases "subscribed s a")
    case False
    with Cons show ?thesis by (simp add: record_all_def c seen_changes_def record_change_eq)
  next
    case True
    with Cons.prems have h: "t = t0" "a = a0" "v = v0" "seen_changes s cs = cs'"
      by (auto simp: c seen_changes_def)
    let ?s = "fst (record_change t a v s)"
    have s: "?s = s\<lparr>sb_window_start := t0, sb_has_changes := True, sb_pending := gm_put a v (sb_pending s)\<rparr>"
      using Cons.prems True by (cases s) (simp add: record_change_eq h)
    have "seen_changes ?s cs = seen_changes s cs" by (simp add: s seen_changes_def subscribed_def)
    with record_all_running [of ?s cs] s Cons.prems h True show ?thesis
      by (simp add: record_all_def c seen_changes_def)
  qed
qed

lemma fold_put_wf: "gm_wf m \<Longrightarrow> gm_wf (foldl (\<lambda>m (t, a, v). gm_put a v m) m cs)"
  by (induction cs arbitrary: m) auto

lemma fold_put_get:
  "gm_get (foldl (\<lambda>m (t, a, v). gm_put a v m) m cs) a
     = (case last_value cs a of None \<Rightarrow> gm_get m a | Some v \<Rightarrow> Some v)"
  by (induction cs arbitrary: m rule: rev_induct)
    (auto simp: last_value_def gomap_simps split: option.splits)

text \<open>The loop over the pending changes, whatever their order.\<close>

lemma pending_fold:
  assumes "gm_wf ps" and "foldl (pending_step supp) (n, k) ps = (n', k')"
  shows "gm_get n' a = (case gm_get ps a of None \<Rightarrow> gm_get n a
      | Some v \<Rightarrow> if bounce_back supp k a v then gm_get n a else Some v) \<and>
    gm_get k' a = (case gm_get ps a of None \<Rightarrow> gm_get k a
      | Some v \<Rightarrow> if bounce_back supp k a v then gm_get k a else Some v)"
  using assms
proof (induction ps arbitrary: n k)
  case Nil
  then show ?case by simp
next
  case (Cons p ps)
  obtain b v where p: "p = (b, v)" by (cases p)
  obtain n1 k1 where s: "pending_step supp (n, k) p = (n1, k1)" by (cases "pending_step supp (n, k) p")
  then have s': "(n1, k1) = (if bounce_back supp k b v then (n, k) else (gm_put b v n, gm_put b v k))"
    by (simp add: p)
  have other: "gm_get n1 x = gm_get n x \<and> gm_get k1 x = gm_get k x" if "x \<noteq> b" for x
    using s' that by (auto simp: gomap_simps split: if_splits)
  have bb: "bounce_back supp k1 x w = bounce_back supp k x w" if "x \<noteq> b" for x w
    using other [OF that] by (simp add: bounce_back_def)
  have fresh: "gm_get ps b = None" and wf: "gm_wf ps"
    using Cons.prems(1) by (auto simp: p gm_wf_def map_of_eq_None_iff)
  have "foldl (pending_step supp) (n1, k1) ps = (n', k')" using Cons.prems(2) s by simp
  from Cons.IH [OF wf this] fresh other bb s' show ?case
    by (cases "a = b") (auto simp: p gomap_simps split: if_splits option.splits)
qed

text \<open>C11. Coalescing: when changes are recorded on an active subscription that has none
  pending, nothing is told before the minimum interval has passed since the first of them;
  after that the notification has exactly the subscribed attributes that changed, each with
  the value it was given last, without those whose last value equals the one told before
  (if suppression is on), and there is no notification if nothing is left.\<close>

theorem coalesced_notification:
  assumes "sb_active s" and "\<not> sb_has_changes s" and "sb_pending s = []"
    and "seen_changes s cs = (t0, a0, v0) # cs'"
  shows "let s' = record_all s cs; (s2, notif) = get_pending_notification now supp s' in
    if now - t0 < sb_min s then s2 = s' \<and> notif = None
    else (case notif of None \<Rightarrow> Map.empty | Some n \<Rightarrow> gm_get n)
      = (\<lambda>a. case last_value (seen_changes s cs) a of None \<Rightarrow> None
         | Some v \<Rightarrow> if bounce_back supp (sb_last_values s) a v then None else Some v) \<and>
      notif \<noteq> Some [] \<and> \<not> sb_has_changes s2 \<and> sb_pending s2 = []"
proof -
  let ?s = "record_all s cs"
  let ?P = "foldl (\<lambda>m (t, a, v). gm_put a v m) [] (seen_changes s cs)"
  have s: "?s = s\<lparr>sb_window_start := t0, sb_has_changes := True, sb_pending := ?P\<rparr>"
    using record_all_fresh [OF assms(1,2,4)] assms(3) by simp
  have wf: "gm_wf ?P" by (rule fold_put_wf) simp
  obtain n k where nk: "foldl (pending_step supp) ([], sb_last_values s) ?P = (n, k)"
    by (cases "foldl (pending_step supp) ([], sb_last_values s) ?P")
  have n: "gm_get n = (\<lambda>a. case last_value (seen_changes s cs) a of None \<Rightarrow> None
         | Some v \<Rightarrow> if bounce_back supp (sb_last_values s) a v then None else Some v)"
    using pending_fold [OF wf nk]
    by (auto simp: fun_eq_iff fold_put_get split: option.splits)
  have g: "get_pending_notification now supp ?s
    = (if now - t0 < sb_min s then (?s, None)
       else (?s\<lparr>sb_last_values := k, sb_pending := [], sb_has_changes := False, sb_last_notified := now\<rparr>,
             if n = [] then None else Some n))"
    using assms(1) by (simp add: get_pending_notification_def s nk)
  show ?thesis
    unfolding Let_def g using n by (auto simp: fun_eq_iff)
qed

theorem coalesced_notification_witness:
  "let s = new_subscription 0 1 2 3 [7] (5 * second) (60 * second);
       s' = record_all s [(10, 7, AI64 1), (11, 8, AI64 9), (12, 7, AI64 2)]
   in snd (get_pending_notification (10 + 5 * second) True s') = Some [(7, AI64 2)]"
proof -
  let ?s = "new_subscription 0 1 2 3 [7] (5 * second) (60 * second)"
  let ?cs = "[(10, 7, AI64 1), (11, 8, AI64 9), (12, 7, AI64 2)]"
  have h: "sb_active ?s" "\<not> sb_has_changes ?s" "sb_pending ?s = []"
    and seen: "seen_changes ?s ?cs = (10, 7, AI64 1) # [(12, 7, AI64 2)]"
    by (simp_all add: new_subscription_def seen_changes_def subscribed_def)
  note c = coalesced_notification [OF h seen, of "10 + 5 * second" True]
  have "snd (get_pending_notification (10 + 5 * second) True (record_all ?s ?cs)) = Some [(7, AI64 2)]"
    by (simp add: record_all_def record_change_def new_subscription_def get_pending_notification_def
        bounce_back_def)
  with c show ?thesis by (simp add: Let_def)
qed

section \<open>Heartbeats\<close>

text \<open>n rounds in which a value flickers and is back at what was told before it is looked at:
  a change at the start of a period, a look at its end.\<close>

fun flicker :: "nat \<Rightarrow> time \<Rightarrow> duration \<Rightarrow> u16 \<Rightarrow> any \<Rightarrow> sub_config \<Rightarrow> subscription \<Rightarrow>
    subscription \<times> sub_notification list" where
  "flicker 0 t p attr v c s = (s, [])"
| "flicker (Suc n) t p attr v c s =
     (let (s1, o1) = process_one (t + p) c (fst (record_change t attr v s));
          (s2, o2) = flicker n (t + p) p attr v c s1
      in (s2, o1 @ o2))"

lemma process_bounce_back:
  assumes "sb_active s" and "\<not> sb_has_changes s" and "sb_pending s = []" and "subscribed s attr"
    and "gm_get (sb_last_values s) attr = Some w" and "valuesEqual w v" and "sc_suppress_bounce_back c"
    and "sb_min s \<le> p" and "0 < sb_max s"
  shows "process_one (t + p) c (fst (record_change t attr v s))
    = (s\<lparr>sb_window_start := t, sb_last_notified := t + p\<rparr>, [])"
  using assms
  by (cases s) (simp add: process_one_def record_change_eq get_pending_notification_def
      bounce_back_def needs_heartbeat_def subscribed_def)

text \<open>Suppressed changes silence a subscription for good: a look at pending changes counts
  as a notification even when all of them were bounce-backs and nothing is sent. So if a
  value flickers once per period and the look finds it back at the value told before, no
  notification and no heartbeat is sent over any number of periods, however short the
  maximum interval is against that time.\<close>

theorem bounce_back_silences_heartbeat:
  assumes "sb_active s" and "\<not> sb_has_changes s" and "sb_pending s = []" and "subscribed s attr"
    and "gm_get (sb_last_values s) attr = Some w" and "valuesEqual w v" and "sc_suppress_bounce_back c"
    and "sb_min s \<le> p" and "0 < sb_max s"
  shows "snd (flicker n t p attr v c s) = []"
  using assms
proof (induction n arbitrary: s t)
  case 0
  then show ?case by simp
next
  case (Suc n)
  let ?s = "s\<lparr>sb_window_start := t, sb_last_notified := t + p\<rparr>"
  have "snd (flicker n (t + p) p attr v c ?s) = []"
    using Suc.prems by (intro Suc.IH) (simp_all add: subscribed_def)
  with process_bounce_back [OF Suc.prems, of t] show ?case
    by (simp add: split_beta)
qed

theorem bounce_back_silences_heartbeat_witness:
  "let s = set_priming_values 0 [(7, AI64 1)] (new_subscription 0 1 2 3 [] second (60 * second))
   in snd (flicker 100000 0 (2 * second) 7 (AI64 1) DefaultConfig s) = [] \<and>
      100000 * (2 * second) > sb_max s"
proof -
  let ?s = "set_priming_values 0 [(7, AI64 1)] (new_subscription 0 1 2 3 [] second (60 * second))"
  have "sb_active ?s" "\<not> sb_has_changes ?s" "sb_pending ?s = []" "subscribed ?s 7"
    "gm_get (sb_last_values ?s) 7 = Some (AI64 1)" "valuesEqual (AI64 1) (AI64 1)"
    "sc_suppress_bounce_back DefaultConfig" "sb_min ?s \<le> 2 * second" "0 < sb_max ?s"
    by (simp_all add: set_priming_values_def new_subscription_def subscribed_def valuesEqual_def
        DefaultConfig_def)
  from bounce_back_silences_heartbeat [OF this, of 100000 0]
  show ?thesis
    unfolding Let_def by (simp add: set_priming_values_def new_subscription_def)
qed

section \<open>The store\<close>

text \<open>What the maps rely on: the identity of a subscription and whether it is active.\<close>

definition same_sub :: "subscription \<Rightarrow> subscription \<Rightarrow> bool" where
  "same_sub s s' \<longleftrightarrow> sb_id s' = sb_id s \<and> sb_endpoint s' = sb_endpoint s \<and> sb_feature s' = sb_feature s \<and>
     sb_active s' = sb_active s \<and> sb_max s' = sb_max s"

lemma same_sub_refl [simp]: "same_sub s s"
  by (simp add: same_sub_def)

lemma same_sub_trans: "same_sub s s' \<Longrightarrow> same_sub s' s'' \<Longrightarrow> same_sub s s''"
  by (simp add: same_sub_def)

lemma same_sub_record [simp]: "same_sub s (fst (record_change now attr v s))"
  by (simp add: record_change_eq same_sub_def)

lemma same_sub_pending: "same_sub s (fst (get_pending_notification now supp s))"
  by (simp add: get_pending_notification_def same_sub_def Let_def split: prod.split)

lemma same_sub_process [simp]: "same_sub s (fst (process_one now c s))"
  using same_sub_pending [of s now "sc_suppress_bounce_back c"]
  by (auto simp: process_one_def record_heartbeat_def same_sub_def Let_def split: prod.split option.split)

definition same_store :: "subscription list \<Rightarrow> subscription list \<Rightarrow> bool" where
  "same_store st st' \<longleftrightarrow> length st' = length st \<and> (\<forall>a < length st. same_sub (st ! a) (st' ! a))"

lemma same_store_refl [simp]: "same_store st st"
  by (simp add: same_store_def)

lemma same_store_trans: "same_store st st' \<Longrightarrow> same_store st' st'' \<Longrightarrow> same_store st st''"
  by (auto simp: same_store_def intro: same_sub_trans)

lemma same_store_update: "same_sub (st ! a) s \<Longrightarrow> same_store st (st[a := s])"
  unfolding same_store_def by (metis length_list_update nth_list_update nth_list_update_neq same_sub_refl)

lemma same_store_foldl:
  "(\<And>st a. same_store st (g st a)) \<Longrightarrow> same_store st (foldl g st as)"
  by (induction as arbitrary: st) (auto intro: same_store_trans)

text \<open>The loop of ProcessNotifications treats every subscription once.\<close>

lemma process_fold:
  assumes "distinct as" and "\<forall>a \<in> set as. a < length st"
  shows "foldl (\<lambda>(st, out) a. let (s, o1) = process_one now c (st ! a) in (st[a := s], out @ o1)) (st, out) as
    = (map (\<lambda>a. if a \<in> set as then fst (process_one now c (st ! a)) else st ! a) [0..<length st],
       out @ concat (map (\<lambda>a. snd (process_one now c (st ! a))) as))"
  using assms
proof (induction as arbitrary: st out)
  case Nil
  then show ?case by (simp add: map_nth)
next
  case (Cons a as)
  let ?s = "fst (process_one now c (st ! a))"
  have "map (\<lambda>b. snd (process_one now c (st[a := ?s] ! b))) as
      = map (\<lambda>b. snd (process_one now c (st ! b))) as"
    using Cons.prems(1) by (intro map_cong refl) (metis distinct.simps(2) nth_list_update_neq)
  moreover have "map (\<lambda>b. if b \<in> set as then fst (process_one now c (st[a := ?s] ! b)) else st[a := ?s] ! b)
        [0..<length st]
      = map (\<lambda>b. if b \<in> set (a # as) then fst (process_one now c (st ! b)) else st ! b) [0..<length st]"
    using Cons.prems by (intro map_cong) (auto simp: nth_list_update)
  ultimately show ?case
    using Cons.IH [of "st[a := ?s]" "out @ snd (process_one now c (st ! a))"] Cons.prems
    by (simp add: split_beta Let_def cong: map_cong)
qed

section \<open>The invariant of the manager\<close>

definition sub_key :: "subscription \<Rightarrow> u16 \<times> u16" where
  "sub_key s = (sb_endpoint s, sb_feature s)"

text \<open>The subscriptions with a feature, by the map of subscriptions.\<close>

definition members :: "sub_manager \<Rightarrow> u16 \<times> u16 \<Rightarrow> nat set" where
  "members m key = {a. \<exists>i. gm_get (sm_subs m) i = Some a \<and> sub_key (sm_store m ! a) = key}"

definition sm_inv :: "nat \<Rightarrow> sub_manager \<Rightarrow> bool" where
  "sm_inv n m \<longleftrightarrow>
     unat (sm_next_id m) \<le> n \<and> gm_wf (sm_subs m) \<and>
     int (length (sm_subs m)) \<le> sc_max_subscriptions (sm_config m) \<and>
     (\<forall>i a. gm_get (sm_subs m) i = Some a \<longrightarrow> a < length (sm_store m) \<and>
        sb_id (sm_store m ! a) = i \<and> sb_active (sm_store m ! a) \<and> i \<le> sm_next_id m) \<and>
     (\<forall>key. distinct (index_at (sm_index m) key) \<and> set (index_at (sm_index m) key) = members m key)"

lemma sm_invD:
  assumes "sm_inv n m"
  shows "unat (sm_next_id m) \<le> n" and "gm_wf (sm_subs m)"
    and "int (length (sm_subs m)) \<le> sc_max_subscriptions (sm_config m)"
    and "distinct (index_at (sm_index m) key)" and "set (index_at (sm_index m) key) = members m key"
  using assms unfolding sm_inv_def by blast+

lemma sm_inv_entry:
  assumes "sm_inv n m" and "gm_get (sm_subs m) i = Some a"
  shows "a < length (sm_store m)" and "sb_id (sm_store m ! a) = i" and "sb_active (sm_store m ! a)"
    and "i \<le> sm_next_id m"
  using assms by (simp_all add: sm_inv_def)

lemma index_at_simps [simp]:
  "index_at [] key = []"
  "index_at (gm_put k as ix) key = (if key = k then as else index_at ix key)"
  "index_at (gm_del k ix) key = (if key = k then [] else index_at ix key)"
  by (auto simp: index_at_def gomap_simps)

lemma sm_inv_new: "sm_inv n (new_sub_manager c)"
  by (auto simp: sm_inv_def new_sub_manager_def members_def DefaultMaxSubscriptions_def)

text \<open>Steps that change the store inside keep the invariant.\<close>

lemma sm_inv_store:
  assumes "sm_inv n m" and "same_store (sm_store m) st"
  shows "sm_inv n (m\<lparr>sm_store := st\<rparr>)"
proof -
  have same: "same_sub (sm_store m ! a) (st ! a)" and len: "length st = length (sm_store m)"
    if "gm_get (sm_subs m) i = Some a" for i a
    using assms(2) sm_inv_entry(1) [OF assms(1) that] by (simp_all add: same_store_def)
  have "members (m\<lparr>sm_store := st\<rparr>) key = members m key" for key
    using same by (auto simp: members_def sub_key_def same_sub_def)
  with same len assms(1) show ?thesis
    by (auto simp: sm_inv_def same_sub_def)
qed

lemma sm_inv_notify: "sm_inv n m \<Longrightarrow> sm_inv n (notify_change now e f attr v m)"
  unfolding notify_change_def
  by (rule sm_inv_store) (auto intro!: same_store_foldl simp: at_address_def same_store_update)

lemma sm_inv_notify_changes: "sm_inv n m \<Longrightarrow> sm_inv n (notify_changes now e f cs m)"
  unfolding notify_changes_def
  by (rule sm_inv_store)
    (auto intro!: same_store_foldl simp: at_address_def same_store_update split: prod.split)

lemma addresses_distinct:
  assumes "sm_inv n m"
  shows "distinct (map snd (sm_subs m))" and "\<forall>a \<in> set (map snd (sm_subs m)). a < length (sm_store m)"
proof -
  have e: "a < length (sm_store m) \<and> sb_id (sm_store m ! a) = i" if "(i, a) \<in> set (sm_subs m)" for i a
    using that sm_inv_entry [OF assms] gm_get_in [OF sm_invD(2) [OF assms]] by blast
  then show "\<forall>a \<in> set (map snd (sm_subs m)). a < length (sm_store m)" by auto
  have "inj_on snd (set (sm_subs m))"
    by (rule inj_onI) (use e in \<open>metis prod.collapse\<close>)
  moreover have "distinct (sm_subs m)"
    using sm_invD(2) [OF assms] by (simp add: gm_wf_def distinct_map)
  ultimately show "distinct (map snd (sm_subs m))" by (simp add: distinct_map)
qed

lemma process_state:
  assumes "sm_inv n m" and "sm_on_notify m"
  shows "process_notifications now m =
    (m\<lparr>sm_store := map (\<lambda>a. if a \<in> set (map snd (sm_subs m)) then fst (process_one now (sm_config m) (sm_store m ! a))
                          else sm_store m ! a) [0..<length (sm_store m)]\<rparr>,
     concat (map (\<lambda>a. snd (process_one now (sm_config m) (sm_store m ! a))) (map snd (sm_subs m))))"
  unfolding process_notifications_def
  using process_fold [OF addresses_distinct [OF assms(1)], of now "sm_config m" "[]"] assms(2)
  by (simp add: split_beta)

lemma sm_inv_process:
  assumes "sm_inv n m"
  shows "sm_inv n (fst (process_notifications now m))"
proof (cases "sm_on_notify m")
  case False
  with assms show ?thesis by (simp add: process_notifications_def)
next
  case True
  show ?thesis
    unfolding process_state [OF assms True] fst_conv
    by (rule sm_inv_store [OF assms]) (auto simp: same_store_def)
qed

lemma sm_inv_clear: "sm_inv n m \<Longrightarrow> sm_inv n (sub_clear_all m)"
  by (auto simp: sm_inv_def sub_clear_all_def members_def)

lemma sm_inv_Suc: "sm_inv n m \<Longrightarrow> sm_inv (Suc n) m"
  by (simp add: sm_inv_def)

lemma remove_id_remove1:
  "(\<And>b. b \<in> set as \<Longrightarrow> sb_id (store ! b) = i \<longleftrightarrow> b = a) \<Longrightarrow> remove_id store i as = remove1 a as"
  by (induction as) auto

lemma sm_invI:
  assumes "unat (sm_next_id m) \<le> n" and "gm_wf (sm_subs m)"
    and "int (length (sm_subs m)) \<le> sc_max_subscriptions (sm_config m)"
    and "\<And>i a. gm_get (sm_subs m) i = Some a \<Longrightarrow> a < length (sm_store m) \<and>
        sb_id (sm_store m ! a) = i \<and> sb_active (sm_store m ! a) \<and> i \<le> sm_next_id m"
    and "\<And>key. distinct (index_at (sm_index m) key)"
    and "\<And>key. set (index_at (sm_index m) key) = members m key"
  shows "sm_inv n m"
  using assms unfolding sm_inv_def by blast

lemma sm_inv_unsubscribe:
  assumes inv: "sm_inv n m"
  shows "sm_inv n (fst (sub_unsubscribe i m))"
proof (cases "gm_get (sm_subs m) i")
  case None
  with inv show ?thesis by (simp add: sub_unsubscribe_def)
next
  case (Some a)
  let ?s = "sm_store m ! a" and ?m = "fst (sub_unsubscribe i m)"
  note a = sm_inv_entry [OF inv Some]
  have key: "(sb_endpoint ?s, sb_feature ?s) = sub_key ?s" by (simp add: sub_key_def)
  have ne: "b \<noteq> a" if "gm_get (sm_subs m) j = Some b" and "j \<noteq> i" for j b
    using that a(2) sm_inv_entry(2) [OF inv] by blast
  have "remove_id (sm_store m) i (index_at (sm_index m) (sub_key ?s))
      = remove1 a (index_at (sm_index m) (sub_key ?s))"
  proof (rule remove_id_remove1)
    fix b
    assume "b \<in> set (index_at (sm_index m) (sub_key ?s))"
    then obtain j where j: "gm_get (sm_subs m) j = Some b"
      using sm_invD(5) [OF inv] by (auto simp: members_def)
    show "sb_id (sm_store m ! b) = i \<longleftrightarrow> b = a"
    proof
      assume "sb_id (sm_store m ! b) = i"
      with sm_inv_entry(2) [OF inv j] have "j = i" by simp
      with j Some show "b = a" by simp
    qed (use a(2) in simp)
  qed
  then have eq: "?m = m\<lparr>sm_store := (sm_store m)[a := sub_deactivate ?s], sm_subs := gm_del i (sm_subs m),
      sm_index := (if remove1 a (index_at (sm_index m) (sub_key ?s)) = [] then gm_del (sub_key ?s) (sm_index m)
        else gm_put (sub_key ?s) (remove1 a (index_at (sm_index m) (sub_key ?s))) (sm_index m))\<rparr>"
    by (simp add: sub_unsubscribe_def Some Let_def key)
  have ix: "index_at (sm_index ?m) k = (if k = sub_key ?s then remove1 a (index_at (sm_index m) k)
      else index_at (sm_index m) k)" for k
    by (auto simp: eq)
  have at: "sm_store ?m ! b = sm_store m ! b" if "b \<noteq> a" for b
    using that by (simp add: eq)
  show ?thesis
  proof (rule sm_invI)
    fix j b
    assume "gm_get (sm_subs ?m) j = Some b"
    then have "gm_get (sm_subs m) j = Some b" and "j \<noteq> i"
      by (auto simp: eq gomap_simps split: if_splits)
    with sm_inv_entry [OF inv this(1)] at [OF ne] show "b < length (sm_store ?m) \<and>
        sb_id (sm_store ?m ! b) = j \<and> sb_active (sm_store ?m ! b) \<and> j \<le> sm_next_id ?m"
      by (simp add: eq)
  next
    fix k
    show "distinct (index_at (sm_index ?m) k)"
      using sm_invD(4) [OF inv] by (simp add: ix)
    have "members ?m k = members m k - {a}"
    proof -
      have "b \<in> members ?m k \<longleftrightarrow> b \<in> members m k - {a}" for b
      proof (cases "b = a")
        case True
        have "gm_get (sm_subs ?m) j \<noteq> Some a" for j
          using ne by (auto simp: eq gomap_simps split: if_splits)
        with True show ?thesis by (auto simp: members_def)
      next
        case False
        then have "gm_get (sm_subs ?m) j = Some b \<longleftrightarrow> gm_get (sm_subs m) j = Some b" for j
          using Some by (auto simp: eq gomap_simps)
        with False at [OF False] show ?thesis by (auto simp: members_def)
      qed
      then show ?thesis by blast
    qed
    moreover have "a \<notin> members m k" if "k \<noteq> sub_key ?s"
      using that by (auto simp: members_def)
    ultimately show "set (index_at (sm_index ?m) k) = members ?m k"
      using sm_invD(4,5) [OF inv] by (simp add: ix set_remove1_eq)
  qed (use sm_invD [OF inv] gm.count_remove_le [of "sm_subs m" i] in \<open>auto simp: eq\<close>)
qed

lemma sub_subscribe_cases:
  obtains (error) "fst (sub_subscribe now e f attrs mn mx vals m) = m"
  | (ok) s where "sb_id s = sm_next_id m + 1" "sub_key s = (e, f)" "sb_active s"
      "int (length (sm_subs m)) < sc_max_subscriptions (sm_config m)"
      "fst (sub_subscribe now e f attrs mn mx vals m)
        = m\<lparr>sm_next_id := sm_next_id m + 1, sm_store := sm_store m @ [s],
            sm_subs := gm_put (sm_next_id m + 1) (length (sm_store m)) (sm_subs m),
            sm_index := gm_put (e, f) (index_at (sm_index m) (e, f) @ [length (sm_store m)]) (sm_index m)\<rparr>"
proof (cases "fst (sub_subscribe now e f attrs mn mx vals m) = m")
  case True
  then show ?thesis by (rule error)
next
  case False
  let ?mn = "if mn > mx then mx else mn" and ?mx = "if mn > mx then mn else mx"
  let ?s = "set_priming_values now (filter_attributes vals attrs)
    (new_subscription now (sm_next_id m + 1) f e attrs ?mn ?mx)"
  show ?thesis
    by (rule ok [of ?s])
      (use False in \<open>auto simp: sub_subscribe_def Let_def set_priming_values_def new_subscription_def
        sub_key_def split: if_splits\<close>)
qed

lemma sm_inv_subscribe:
  assumes inv: "sm_inv n m" and bound: "n < 2 ^ 32 - 1"
  shows "sm_inv (Suc n) (fst (sub_subscribe now e f attrs mn mx vals m))"
proof (cases rule: sub_subscribe_cases [of now e f attrs mn mx vals m])
  case error
  with inv show ?thesis by (simp add: sm_inv_Suc)
next
  case (ok s)
  let ?m = "fst (sub_subscribe now e f attrs mn mx vals m)" and ?a = "length (sm_store m)"
  let ?i = "sm_next_id m + 1"
  have "unat (sm_next_id m) < 2 ^ 32 - 1" using sm_invD(1) [OF inv] bound by simp
  then have i: "unat ?i = Suc (unat (sm_next_id m))"
    by (simp add: unat_word_ariths unat_1)
  then have le: "j \<le> ?i \<and> j \<noteq> ?i" if "j \<le> sm_next_id m" for j
    using that by (auto simp: word_le_nat_alt)
  have new: "gm_get (sm_subs m) ?i = None"
    using sm_inv_entry(4) [OF inv] le by (cases "gm_get (sm_subs m) ?i") blast+
  have old: "b < ?a" if "gm_get (sm_subs m) j = Some b" for j b
    by (rule sm_inv_entry(1) [OF inv that])
  have mem: "members ?m k = (if k = (e, f) then insert ?a (members m k) else members m k)" for k
  proof -
    have "b \<in> members ?m k \<longleftrightarrow> b = ?a \<and> k = (e, f) \<or> b \<in> members m k" for b
    proof (cases "b = ?a")
      case True
      have "gm_get (sm_subs m) j \<noteq> Some ?a" for j using old by blast
      with True ok(2) show ?thesis by (auto simp: members_def ok(5) gomap_simps)
    next
      case False
      have "gm_get (sm_subs ?m) j = Some b \<longleftrightarrow> gm_get (sm_subs m) j = Some b" for j
        using False new by (auto simp: ok(5) gomap_simps)
      moreover have "sm_store ?m ! b = sm_store m ! b" if "gm_get (sm_subs m) j = Some b" for j
        using old [OF that] by (simp add: ok(5) nth_append)
      ultimately show ?thesis using False unfolding members_def by fastforce
    qed
    then show ?thesis by auto
  qed
  have sub: "b < ?a" if "b \<in> set (index_at (sm_index m) k)" for b k
    using that sm_invD(5) [OF inv] old by (auto simp: members_def)
  show ?thesis
  proof (rule sm_invI)
    show "unat (sm_next_id ?m) \<le> Suc n" using sm_invD(1) [OF inv] i by (simp add: ok(5))
    show "gm_wf (sm_subs ?m)" using sm_invD(2) [OF inv] by (simp add: ok(5))
    show "int (length (sm_subs ?m)) \<le> sc_max_subscriptions (sm_config ?m)"
      using ok(4) gm.count_insert_new [OF sm_invD(2) [OF inv] new] by (simp add: ok(5))
    have "?a \<notin> set (index_at (sm_index m) k)" for k using sub by blast
    then show "distinct (index_at (sm_index ?m) k)" for k
      using sm_invD(4) [OF inv] by (auto simp: ok(5))
    show "set (index_at (sm_index ?m) k) = members ?m k" for k
      unfolding mem using sm_invD(5) [OF inv, of k] by (auto simp: ok(5))
    show "b < length (sm_store ?m) \<and> sb_id (sm_store ?m ! b) = j \<and> sb_active (sm_store ?m ! b) \<and>
        j \<le> sm_next_id ?m" if "gm_get (sm_subs ?m) j = Some b" for j b
      using that sm_inv_entry [OF inv] ok(1,3) le
      by (auto simp: ok(5) gomap_simps nth_append less_SucI split: if_splits)
  qed
qed

lemma sm_inv_take_id:
  assumes inv: "sm_inv n m" and bound: "n < 2 ^ 32 - 1"
  shows "sm_inv (Suc n) (take_id m)"
proof -
  have "unat (sm_next_id m) < 2 ^ 32 - 1" using sm_invD(1) [OF inv] bound by simp
  then have i: "unat (sm_next_id m + 1) = Suc (unat (sm_next_id m))"
    by (simp add: unat_word_ariths unat_1)
  then have "j \<le> sm_next_id m + 1" if "j \<le> sm_next_id m" for j
    using that by (simp add: word_le_nat_alt)
  with inv i show ?thesis by (simp add: sm_inv_def take_id_def members_def)
qed

lemma sm_inv_step: "sm_inv n m \<Longrightarrow> n < 2 ^ 32 - 1 \<Longrightarrow> sm_inv (Suc n) (sub_step m e)"
  by (cases e) (auto intro: sm_inv_Suc sm_inv_subscribe sm_inv_unsubscribe sm_inv_notify
    sm_inv_notify_changes sm_inv_process sm_inv_clear sm_inv_take_id, auto simp: sub_on_notification_def
    sm_inv_def members_def)

interpretation sub_machine: supply_machine sub_step sm_inv "2 ^ 32 - 1"
  by unfold_locales (rule sm_inv_step)

section \<open>Properties of the manager\<close>

text \<open>C27. In every run of the manager with fewer than \<open>2^32\<close> operations the number of
  subscriptions stays within the limit, every subscription is active and filed under its
  own id, and the feature index that dispatches changes lists exactly the subscriptions of
  each feature, each once.\<close>

theorem subscription_index_invariant:
  assumes "length ops \<le> 2 ^ 32 - 1" and "m = foldl sub_step (new_sub_manager c) ops"
  shows "int (sub_count m) \<le> sc_max_subscriptions (sm_config m) \<and>
    (\<forall>i s. sub_get m i = Inr s \<longrightarrow> sb_id s = i \<and> sb_active s) \<and>
    (\<forall>key. distinct (index_at (sm_index m) key) \<and>
      set (index_at (sm_index m) key)
        = {a. \<exists>i. gm_get (sm_subs m) i = Some a \<and> sub_key (sm_store m ! a) = key})"
proof -
  have inv: "sm_inv (0 + length ops) m"
    unfolding assms(2) by (rule sub_machine.run_within [OF sm_inv_new]) (use assms(1) in simp)
  show ?thesis
  proof (intro conjI allI impI)
    show "int (sub_count m) \<le> sc_max_subscriptions (sm_config m)"
      using sm_invD(3) [OF inv] by (simp add: sub_count_def)
    fix i s
    assume "sub_get m i = Inr s"
    then obtain a where "gm_get (sm_subs m) i = Some a" "s = sm_store m ! a"
      by (auto simp: sub_get_def split: option.splits)
    with sm_inv_entry [OF inv this(1)] show "sb_id s = i" "sb_active s" by simp_all
  next
    fix key
    show "distinct (index_at (sm_index m) key)" by (rule sm_invD(4) [OF inv])
    show "set (index_at (sm_index m) key)
        = {a. \<exists>i. gm_get (sm_subs m) i = Some a \<and> sub_key (sm_store m ! a) = key}"
      using sm_invD(5) [OF inv] by (simp add: members_def)
  qed
qed

theorem subscription_index_invariant_witness:
  "let m = foldl sub_step (new_sub_manager DefaultConfig)
         [SubSubscribe 0 1 2 [] second (60 * second) [], SubSubscribe 0 1 2 [3] second (60 * second) [],
          SubUnsubscribe 1]
   in sub_count m = 1 \<and> set (index_at (sm_index m) (1, 2)) = {1} \<and>
      (\<forall>i s. sub_get m i = Inr s \<longrightarrow> sb_id s = i \<and> sb_active s)"
proof -
  let ?ops = "[SubSubscribe 0 1 2 [] second (60 * second) [], SubSubscribe 0 1 2 [3] second (60 * second) [],
          SubUnsubscribe 1]"
  let ?m = "foldl sub_step (new_sub_manager DefaultConfig) ?ops"
  have "length ?ops \<le> 2 ^ 32 - 1" by simp
  note inv = subscription_index_invariant [OF this refl, of DefaultConfig]
  have "sub_count ?m = 1" and ix: "index_at (sm_index ?m) (1, 2) = [1]" by code_simp+
  moreover have "set (index_at (sm_index ?m) (1, 2)) = {1}" unfolding ix by simp
  ultimately show ?thesis unfolding Let_def using inv by blast
qed

text \<open>Processing leaves no subscription overdue: after ProcessNotifications with a callback,
  in any run, the time since the last notification of every subscription whose maximum
  interval is positive is below that interval; and a subscription that was overdue with no
  change pending has been sent a heartbeat with all values it was told, in the full mode.\<close>

theorem processing_leaves_none_overdue:
  assumes "length ops \<le> 2 ^ 32 - 1" and "m = foldl sub_step (new_sub_manager c) ops"
    and "sm_on_notify m" and "process_notifications now m = (m', out)" and "sub_get m i = Inr s"
    and "sb_max s > 0"
  shows "\<exists>s'. sub_get m' i = Inr s' \<and> time_since_last_notification now s' < sb_max s' \<and>
    (\<not> sb_has_changes s \<and> sb_max s \<le> time_since_last_notification now s \<longrightarrow>
      heartbeat_notification now (sc_heartbeat_mode (sm_config m)) s \<in> set out)"
proof -
  have inv: "sm_inv (0 + length ops) m"
    unfolding assms(2) by (rule sub_machine.run_within [OF sm_inv_new]) (use assms(1) in simp)
  from assms(5) obtain a where a: "gm_get (sm_subs m) i = Some a" and s: "s = sm_store m ! a"
    by (auto simp: sub_get_def split: option.splits)
  note e = sm_inv_entry [OF inv a]
  let ?p = "process_one now (sm_config m) s"
  have "(i, a) \<in> set (sm_subs m)" using a by (rule map_of_SomeD)
  then have mem: "a \<in> set (map snd (sm_subs m))" by force
  note ps = process_state [OF inv assms(3), of now, unfolded assms(4)]
  from ps mem e(1) a have s': "sub_get m' i = Inr (fst ?p)"
    by (simp add: sub_get_def s)
  have out: "set (snd ?p) \<subseteq> set out" using ps mem by (auto simp: s)
  have same: "same_sub s (fst ?p)" by simp
  have act: "sb_active s" using e(3) by (simp add: s)
  have due: "time_since_last_notification now (fst ?p) < sb_max (fst ?p)"
  proof -
    obtain s1 o1 where g: "get_pending_notification now (sc_suppress_bounce_back (sm_config m)) s = (s1, o1)"
      by (cases "get_pending_notification now (sc_suppress_bounce_back (sm_config m)) s")
    with same_sub_pending [of s now "sc_suppress_bounce_back (sm_config m)"]
    have "sb_active s1" "sb_max s1 = sb_max s" using act by (simp_all add: same_sub_def)
    with assms(6) g show ?thesis
      by (auto simp: process_one_def needs_heartbeat_def record_heartbeat_def
          time_since_last_notification_def Let_def)
  qed
  have "heartbeat_notification now (sc_heartbeat_mode (sm_config m)) s \<in> set (snd ?p)"
    if "\<not> sb_has_changes s" and "sb_max s \<le> time_since_last_notification now s"
    using that act by (simp add: process_one_def get_pending_notification_def needs_heartbeat_def
        time_since_last_notification_def)
  with s' due out show ?thesis by blast
qed

theorem processing_leaves_none_overdue_witness:
  "let m = foldl sub_step (new_sub_manager DefaultConfig)
         [SubOnNotification True, SubSubscribe 0 1 2 [] second (60 * second) [(7, AI64 3)]];
       (m', out) = process_notifications (61 * second) m
   in map no_attributes out = [[(7, AI64 3)]] \<and>
      (\<exists>s'. sub_get m' 1 = Inr s' \<and> time_since_last_notification (61 * second) s' < sb_max s')"
proof -
  let ?ops = "[SubOnNotification True, SubSubscribe 0 1 2 [] second (60 * second) [(7, AI64 3)]]"
  let ?m = "foldl sub_step (new_sub_manager DefaultConfig) ?ops"
  let ?s = "set_priming_values 0 [(7, AI64 3)] (new_subscription 0 1 2 1 [] second (60 * second))"
  obtain m' out where p: "process_notifications (61 * second) ?m = (m', out)"
    by (cases "process_notifications (61 * second) ?m")
  have l: "length ?ops \<le> 2 ^ 32 - 1" by simp
  have h: "sm_on_notify ?m" "sub_get ?m 1 = Inr ?s" "sb_max ?s > 0"
    by code_simp+
  have o: "map no_attributes (snd (process_notifications (61 * second) ?m)) = [[(7, AI64 3)]]"
    by code_simp
  from processing_leaves_none_overdue [OF l refl h(1) p h(2,3)] o show ?thesis
    unfolding Let_def p by auto
qed

end
