(* ===== verification/PaseWindow.thy ===== *)
theory PaseWindow
  imports GoTime
begin

text \<open>
  The commissioning window (\<open>pkg/pase/window.go\<close>) on the timers of the runtime (theory
  GoTime); the only timer function is \<open>handleTimeout\<close>, so the runtime's payload is a
  unit. The session id the code makes from the clock is an argument of \<open>begin_pase\<close>.
\<close>

section \<open>Data\<close>

definition DefaultWindowTimeout :: duration where "DefaultWindowTimeout = 15 * minute"
definition MinWindowTimeout :: duration where "MinWindowTimeout = 3 * minute"
definition MaxWindowTimeout :: duration where "MaxWindowTimeout = 3 * hour"

datatype window_state = WindowClosed | WindowOpen | WindowPASEInProgress

datatype window_error =
  ErrWindowClosed | ErrWindowBusy | ErrWindowNotInPASE | ErrInvalidTimeout | ErrInvalidSessionID

datatype open_trigger = TriggerButton | TriggerCommand | TriggerFactoryReset

record window =
  wi_state :: window_state
  wi_timeout :: duration
  wi_timer :: "nat option"
  wi_opened_at :: time
  wi_trigger :: open_trigger
  wi_session :: string
  wi_on_change :: bool
  wi_on_timeout :: bool
  wi_rt :: "unit runtime"

datatype window_event = WindowChange window_state window_state | WindowTimedOut

definition new_window :: window where
  "new_window = \<lparr>wi_state = WindowClosed, wi_timeout = DefaultWindowTimeout, wi_timer = None,
     wi_opened_at = zero_time, wi_trigger = TriggerButton, wi_session = '''', wi_on_change = False,
     wi_on_timeout = False, wi_rt = new_runtime\<rparr>"

section \<open>Operations\<close>

definition wi_is_open :: "window \<Rightarrow> bool" where
  "wi_is_open w \<longleftrightarrow> wi_state w = WindowOpen"

definition wi_is_busy :: "window \<Rightarrow> bool" where
  "wi_is_busy w \<longleftrightarrow> wi_state w = WindowPASEInProgress"

definition wi_is_closed :: "window \<Rightarrow> bool" where
  "wi_is_closed w \<longleftrightarrow> wi_state w = WindowClosed"

definition remaining_time_unlocked :: "time \<Rightarrow> window \<Rightarrow> duration" where
  "remaining_time_unlocked now w =
     (if wi_state w = WindowClosed then 0
      else let remaining = wi_timeout w - (now - wi_opened_at w)
           in if remaining < 0 then 0 else remaining)"

definition wi_remaining_time :: "time \<Rightarrow> window \<Rightarrow> duration" where
  "wi_remaining_time now w = remaining_time_unlocked now w"

definition wi_set_timeout :: "duration \<Rightarrow> window \<Rightarrow> window \<times> window_error option" where
  "wi_set_timeout d w =
     (if d < MinWindowTimeout \<or> d > MaxWindowTimeout then (w, Some ErrInvalidTimeout)
      else (w\<lparr>wi_timeout := d\<rparr>, None))"

definition wi_change :: "window \<Rightarrow> window_state \<Rightarrow> window_state \<Rightarrow> window_event list" where
  "wi_change w old new = (if wi_on_change w then [WindowChange old new] else [])"

definition reset_window_timer :: "time \<Rightarrow> window \<Rightarrow> window" where
  "reset_window_timer now w =
     (let rt = stop_opt (wi_timer w) (wi_rt w);
          (i, rt') = after_func now (wi_timeout w) () rt
      in w\<lparr>wi_opened_at := now, wi_timer := Some i, wi_rt := rt'\<rparr>)"

definition wi_open :: "time \<Rightarrow> open_trigger \<Rightarrow> window \<Rightarrow> window \<times> window_event list" where
  "wi_open now tr w =
     (if wi_state w \<noteq> WindowClosed then (reset_window_timer now w, [])
      else
        let (i, rt) = after_func now (wi_timeout w) () (wi_rt w)
        in (w\<lparr>wi_state := WindowOpen, wi_opened_at := now, wi_trigger := tr, wi_session := '''',
              wi_timer := Some i, wi_rt := rt\<rparr>,
            wi_change w (wi_state w) WindowOpen))"

text \<open>\<open>if w.timer != nil { Stop; nil }\<close>\<close>

definition drop_window_timer :: "window \<Rightarrow> window" where
  "drop_window_timer w = w\<lparr>wi_timer := None, wi_rt := stop_opt (wi_timer w) (wi_rt w)\<rparr>"

definition wi_close :: "window \<Rightarrow> window \<times> window_event list" where
  "wi_close w =
     (if wi_state w = WindowClosed then (w, [])
      else ((drop_window_timer w)\<lparr>wi_state := WindowClosed, wi_session := ''''\<rparr>,
            wi_change w (wi_state w) WindowClosed))"

definition begin_pase :: "string \<Rightarrow> window \<Rightarrow> window \<times> (window_error + string) \<times> window_event list" where
  "begin_pase sid w =
     (case wi_state w of
        WindowClosed \<Rightarrow> (w, Inl ErrWindowClosed, [])
      | WindowPASEInProgress \<Rightarrow> (w, Inl ErrWindowBusy, [])
      | WindowOpen \<Rightarrow> (w\<lparr>wi_state := WindowPASEInProgress, wi_session := sid\<rparr>, Inr sid,
                        wi_change w (wi_state w) WindowPASEInProgress))"

definition end_pase :: "time \<Rightarrow> string \<Rightarrow> bool \<Rightarrow> window \<Rightarrow>
    window \<times> window_error option \<times> window_event list" where
  "end_pase now sid success w =
     (if wi_state w \<noteq> WindowPASEInProgress then (w, Some ErrWindowNotInPASE, [])
      else if wi_session w \<noteq> sid then (w, Some ErrInvalidSessionID, [])
      else
        let w' = (if success
                  then (drop_window_timer w)\<lparr>wi_state := WindowClosed, wi_session := ''''\<rparr>
                  else if remaining_time_unlocked now w > 0
                  then w\<lparr>wi_state := WindowOpen, wi_session := ''''\<rparr>
                  else (drop_window_timer w)\<lparr>wi_state := WindowClosed, wi_session := ''''\<rparr>)
        in (w', None, wi_change w (wi_state w) (wi_state w')))"

definition wi_handle_timeout :: "window \<Rightarrow> window \<times> window_event list" where
  "wi_handle_timeout w =
     (if wi_state w = WindowClosed then (w, [])
      else (w\<lparr>wi_state := WindowClosed, wi_session := '''', wi_timer := None\<rparr>,
            wi_change w (wi_state w) WindowClosed @ (if wi_on_timeout w then [WindowTimedOut] else [])))"

definition wi_set_callbacks :: "bool \<Rightarrow> bool \<Rightarrow> window \<Rightarrow> window" where
  "wi_set_callbacks c t w = w\<lparr>wi_on_change := c, wi_on_timeout := t\<rparr>"

definition wi_fire :: "time \<Rightarrow> nat \<Rightarrow> window \<Rightarrow> window" where
  "wi_fire now i w = w\<lparr>wi_rt := fire_timer now i (wi_rt w)\<rparr>"

definition wi_run_fired :: "nat \<Rightarrow> window \<Rightarrow> window \<times> window_event list" where
  "wi_run_fired i w =
     (case take_fired i (wi_rt w) of
        None \<Rightarrow> (w, [])
      | Some (_, rt) \<Rightarrow> wi_handle_timeout (w\<lparr>wi_rt := rt\<rparr>))"

datatype window_op =
    WiOpen time open_trigger
  | WiClose
  | WiBegin string
  | WiEnd time string bool
  | WiSetTimeout duration
  | WiSetCallbacks bool bool
  | WiTimerFires time nat
  | WiTimerRuns nat

fun window_step :: "window \<Rightarrow> window_op \<Rightarrow> window" where
  "window_step w (WiOpen now tr) = fst (wi_open now tr w)"
| "window_step w WiClose = fst (wi_close w)"
| "window_step w (WiBegin sid) = fst (begin_pase sid w)"
| "window_step w (WiEnd now sid ok) = fst (end_pase now sid ok w)"
| "window_step w (WiSetTimeout d) = fst (wi_set_timeout d w)"
| "window_step w (WiSetCallbacks c t) = wi_set_callbacks c t w"
| "window_step w (WiTimerFires now i) = wi_fire now i w"
| "window_step w (WiTimerRuns i) = fst (wi_run_fired i w)"

section \<open>The invariant\<close>

definition window_pending :: "unit runtime \<Rightarrow> nat option \<Rightarrow> bool" where
  "window_pending rt h \<longleftrightarrow>
     (case h of None \<Rightarrow> False | Some i \<Rightarrow> armed_at rt i \<noteq> None \<or> fired_at rt i \<noteq> None)"

definition window_inv :: "window \<Rightarrow> bool" where
  "window_inv w \<longleftrightarrow>
     rt_wf (wi_rt w) \<and> MinWindowTimeout \<le> wi_timeout w \<and> wi_timeout w \<le> MaxWindowTimeout \<and>
     (wi_state w \<noteq> WindowPASEInProgress \<longrightarrow> wi_session w = '''') \<and>
     (wi_state w \<noteq> WindowClosed \<longrightarrow> window_pending (wi_rt w) (wi_timer w))"

lemma window_inv_new: "window_inv new_window"
  by (simp add: window_inv_def new_window_def MinWindowTimeout_def DefaultWindowTimeout_def
      MaxWindowTimeout_def)

lemma window_pending_new: "window_pending (snd (after_func now d () rt)) (Some (fst (after_func now d () rt)))"
  by (simp add: window_pending_def rt_simps)

lemma window_pending_fire:
  "rt_wf rt \<Longrightarrow> window_pending rt h \<Longrightarrow> window_pending (fire_timer now i rt) h"
  by (auto simp: window_pending_def fire_timer_def gomap_simps split: option.splits)

lemma window_inv_run: "window_inv w \<Longrightarrow> window_inv (fst (wi_run_fired i w))"
  by (auto simp: wi_run_fired_def wi_handle_timeout_def window_inv_def split: option.split
      intro: rt_wf_take)

lemma window_inv_step: "window_inv w \<Longrightarrow> window_inv (window_step w e)"
proof (cases e)
  case (WiOpen now tr)
  assume "window_inv w"
  then show ?thesis
    by (auto simp: WiOpen wi_open_def reset_window_timer_def window_inv_def split_beta Let_def
        window_pending_new)
next
  case (WiTimerFires now i)
  assume "window_inv w"
  then show ?thesis by (auto simp: WiTimerFires wi_fire_def window_inv_def window_pending_fire)
qed (simp_all add: window_inv_run, auto simp: wi_close_def begin_pase_def end_pase_def Let_def
    wi_set_timeout_def wi_set_callbacks_def drop_window_timer_def window_inv_def
    split: window_state.split)

interpretation window_machine: invariant_machine window_step window_inv
  by unfold_locales (rule window_inv_step)

section \<open>Properties\<close>

text \<open>A commissioning window does not stay open by accident: in every run a window that is
  open or in a PASE session has a pending timer whose function closes it, its timeout lies
  between 3 minutes and 3 hours, and it holds a session id only during a session.\<close>

theorem open_window_will_close:
  assumes "w = foldl window_step new_window ops" and "wi_state w \<noteq> WindowClosed"
  shows "MinWindowTimeout \<le> wi_timeout w \<and> wi_timeout w \<le> MaxWindowTimeout \<and>
    (wi_state w = WindowOpen \<longrightarrow> wi_session w = '''') \<and>
    (\<exists>i. wi_timer w = Some i \<and> (armed_at (wi_rt w) i \<noteq> None \<or>
      wi_state (window_step w (WiTimerRuns i)) = WindowClosed))"
proof -
  have inv: "window_inv w"
    unfolding assms(1) by (rule window_machine.run_inv [OF window_inv_new])
  then obtain i where i: "wi_timer w = Some i" "armed_at (wi_rt w) i \<noteq> None \<or> fired_at (wi_rt w) i \<noteq> None"
    using assms(2) by (auto simp: window_inv_def window_pending_def split: option.splits)
  have "wi_state (window_step w (WiTimerRuns i)) = WindowClosed" if "fired_at (wi_rt w) i \<noteq> None"
    using that by (auto simp: wi_run_fired_def take_fired_def wi_handle_timeout_def)
  with inv i show ?thesis by (auto simp: window_inv_def)
qed

theorem open_window_will_close_witness:
  "let w = foldl window_step new_window [WiOpen 5 TriggerButton, WiBegin ''s1'', WiEnd 6 ''s1'' False]
   in wi_state w = WindowOpen \<and> wi_session w = '''' \<and> armed_at (wi_rt w) 0 \<noteq> None"
proof -
  let ?w = "foldl window_step new_window [WiOpen 5 TriggerButton, WiBegin ''s1'', WiEnd 6 ''s1'' False]"
  have s: "wi_state ?w = WindowOpen" and t: "wi_timer ?w = Some 0"
    and ne: "wi_state (window_step ?w (WiTimerRuns 0)) \<noteq> WindowClosed"
    by code_simp+
  from s have "wi_state ?w \<noteq> WindowClosed" by simp
  from open_window_will_close [OF refl this] s t ne show ?thesis unfolding Let_def by auto
qed

text \<open>The timeout function does not know its timer: when the window's timer has fired and
  Open extends the window before the function gets the lock, the function closes the
  extended window at once, and the timer of the extension stays armed without a handle.
  Nothing stops it, so it closes a window that is opened later before that one's own time.\<close>

theorem stale_timeout_closes_extended_window:
  assumes "window_inv w" and "wi_state w \<noteq> WindowClosed" and "fired_at (wi_rt w) i \<noteq> None"
    and "w1 = foldl window_step w [WiOpen now tr, WiTimerRuns i]"
    and "w2 = foldl window_step w1 [WiOpen later tr, WiTimerFires (now + wi_timeout w) j, WiTimerRuns j]"
    and "j = rt_next (wi_rt w)"
  shows "wi_state w1 = WindowClosed \<and> wi_timer w1 = None \<and>
    armed_at (wi_rt w1) j = Some (now + wi_timeout w, ()) \<and>
    wi_state (window_step w1 (WiOpen later tr)) = WindowOpen \<and> wi_state w2 = WindowClosed"
proof -
  let ?w0 = "window_step w (WiOpen now tr)"
  have open0: "wi_state ?w0 \<noteq> WindowClosed" "wi_timeout ?w0 = wi_timeout w"
    "fired_at (wi_rt ?w0) = fired_at (wi_rt w)" "rt_next (wi_rt ?w0) = Suc j"
    "armed_at (wi_rt ?w0) j = Some (now + wi_timeout w, ())"
    using assms(2) by (simp_all add: wi_open_def reset_window_timer_def split_beta Let_def rt_simps
        assms(6)) (simp_all add: after_func_def rt_simps gomap_simps)
  have w1: "wi_state w1 = WindowClosed \<and> wi_timer w1 = None \<and> wi_timeout w1 = wi_timeout w \<and>
      rt_next (wi_rt w1) = Suc j \<and> armed_at (wi_rt w1) = armed_at (wi_rt ?w0)"
  proof -
    obtain rt where rt: "take_fired i (wi_rt ?w0) = Some ((), rt)" "rt_armed rt = rt_armed (wi_rt ?w0)"
      "rt_next rt = rt_next (wi_rt ?w0)"
      using assms(3) open0(3) by (auto simp: take_fired_def split: option.splits)
    have "w1 = fst (wi_handle_timeout (?w0\<lparr>wi_rt := rt\<rparr>))"
      using rt(1) unfolding assms(4) by (simp add: wi_run_fired_def)
    with open0 rt show ?thesis by (simp add: wi_handle_timeout_def)
  qed
  let ?w2 = "window_step w1 (WiOpen later tr)"
  have w2: "wi_state ?w2 = WindowOpen" "armed_at (wi_rt ?w2) j = Some (now + wi_timeout w, ())"
    using w1 open0(5) by (simp_all add: wi_open_def split_beta Let_def rt_simps)
  have "wi_state w2 = WindowClosed"
    using w2 unfolding assms(5)
    by (simp add: wi_fire_def fire_timer_def wi_run_fired_def take_fired_def gomap_simps wi_handle_timeout_def)
  with w1 w2 open0(5) show ?thesis by simp
qed

theorem stale_timeout_closes_extended_window_witness:
  "let T = DefaultWindowTimeout;
       w = foldl window_step new_window [WiOpen 0 TriggerButton, WiTimerFires T 0];
       w1 = foldl window_step w [WiOpen T TriggerButton, WiTimerRuns 0];
       w2 = foldl window_step w1 [WiOpen (2 * T - second) TriggerButton, WiTimerFires (2 * T) 1, WiTimerRuns 1]
   in wi_state w1 = WindowClosed \<and> wi_state w2 = WindowClosed"
proof -
  let ?w = "foldl window_step new_window [WiOpen 0 TriggerButton, WiTimerFires DefaultWindowTimeout 0]"
  have inv: "window_inv ?w" by (rule window_machine.run_inv [OF window_inv_new])
  have h: "wi_state ?w \<noteq> WindowClosed" "fired_at (wi_rt ?w) 0 \<noteq> None" "1 = rt_next (wi_rt ?w)"
    "wi_timeout ?w = DefaultWindowTimeout"
    by code_simp+
  from stale_timeout_closes_extended_window [OF inv h(1,2) refl refl h(3), of DefaultWindowTimeout TriggerButton
      "2 * DefaultWindowTimeout - second"] h(4)
  show ?thesis by (simp add: Let_def)
qed
end
