(* ===== verification/Tracker.thy ===== *)
theory Tracker
  imports Wire
begin

text \<open>
  The subscriptions of one session, \<open>SessionSubscriptionTracker\<close>
  (\<open>pkg/service/dispatch/session_subscription_tracker.go\<close>): those of the peer on our features
  (inbound) and ours on the features of the peer (outbound), each direction with
  identifiers of its own. The identifier is taken atomically before the lock, the entry is
  stored under it; one call is one step here.
\<close>

section \<open>State and operations\<close>

record session_sub =
  ss_id :: u32
  ss_endpoint_id :: u8
  ss_feature_id :: u8
  ss_attributes :: "u16 list"

record tracker =
  tk_inbound :: "(u32, session_sub) gomap"
  tk_next_inbound :: u32
  tk_outbound :: "(u32, session_sub) gomap"
  tk_next_outbound :: u32

definition new_tracker :: tracker where
  "new_tracker = \<lparr>tk_inbound = [], tk_next_inbound = 0, tk_outbound = [], tk_next_outbound = 0\<rparr>"

definition add_inbound :: "u8 \<Rightarrow> u8 \<Rightarrow> u16 list \<Rightarrow> tracker \<Rightarrow> tracker \<times> u32" where
  "add_inbound ep fid attrs t =
     (let i = tk_next_inbound t + 1;
          sub = \<lparr>ss_id = i, ss_endpoint_id = ep, ss_feature_id = fid, ss_attributes = attrs\<rparr>
      in (t\<lparr>tk_next_inbound := i, tk_inbound := gm_put i sub (tk_inbound t)\<rparr>, i))"

definition add_outbound :: "u8 \<Rightarrow> u8 \<Rightarrow> u16 list \<Rightarrow> tracker \<Rightarrow> tracker \<times> u32" where
  "add_outbound ep fid attrs t =
     (let i = tk_next_outbound t + 1;
          sub = \<lparr>ss_id = i, ss_endpoint_id = ep, ss_feature_id = fid, ss_attributes = attrs\<rparr>
      in (t\<lparr>tk_next_outbound := i, tk_outbound := gm_put i sub (tk_outbound t)\<rparr>, i))"

definition get_inbound :: "u32 \<Rightarrow> tracker \<Rightarrow> session_sub option" where
  "get_inbound i t = gm_get (tk_inbound t) i"

definition get_outbound :: "u32 \<Rightarrow> tracker \<Rightarrow> session_sub option" where
  "get_outbound i t = gm_get (tk_outbound t) i"

definition remove_inbound :: "u32 \<Rightarrow> tracker \<Rightarrow> tracker \<times> bool" where
  "remove_inbound i t =
     (if gm_get (tk_inbound t) i \<noteq> None
      then (t\<lparr>tk_inbound := gm_del i (tk_inbound t)\<rparr>, True) else (t, False))"

definition remove_outbound :: "u32 \<Rightarrow> tracker \<Rightarrow> tracker \<times> bool" where
  "remove_outbound i t =
     (if gm_get (tk_outbound t) i \<noteq> None
      then (t\<lparr>tk_outbound := gm_del i (tk_outbound t)\<rparr>, True) else (t, False))"

definition list_inbound :: "tracker \<Rightarrow> session_sub list" where
  "list_inbound t = map snd (tk_inbound t)"

definition list_outbound :: "tracker \<Rightarrow> session_sub list" where
  "list_outbound t = map snd (tk_outbound t)"

definition sub_matches :: "u8 \<Rightarrow> u8 \<Rightarrow> u16 \<Rightarrow> session_sub \<Rightarrow> bool" where
  "sub_matches ep fid attr s \<longleftrightarrow>
     ss_endpoint_id s = ep \<and> ss_feature_id s = fid \<and>
     (ss_attributes s = [] \<or> attr \<in> set (ss_attributes s))"

definition get_matching_inbound :: "u8 \<Rightarrow> u8 \<Rightarrow> u16 \<Rightarrow> tracker \<Rightarrow> session_sub list" where
  "get_matching_inbound ep fid attr t = filter (sub_matches ep fid attr) (map snd (tk_inbound t))"

definition clear_inbound :: "tracker \<Rightarrow> tracker" where
  "clear_inbound t = t\<lparr>tk_inbound := []\<rparr>"

definition inbound_count :: "tracker \<Rightarrow> nat" where
  "inbound_count t = length (tk_inbound t)"

section \<open>Invariant\<close>

datatype tracker_op =
    TkAddInbound u8 u8 "u16 list" | TkAddOutbound u8 u8 "u16 list"
  | TkRemoveInbound u32 | TkRemoveOutbound u32 | TkClearInbound

fun tracker_step :: "tracker \<Rightarrow> tracker_op \<Rightarrow> tracker" where
  "tracker_step t (TkAddInbound ep fid attrs) = fst (add_inbound ep fid attrs t)"
| "tracker_step t (TkAddOutbound ep fid attrs) = fst (add_outbound ep fid attrs t)"
| "tracker_step t (TkRemoveInbound i) = fst (remove_inbound i t)"
| "tracker_step t (TkRemoveOutbound i) = fst (remove_outbound i t)"
| "tracker_step t TkClearInbound = clear_inbound t"

text \<open>The entries of one direction: each under its own identifier, which has been given
  out (identifiers start at 1).\<close>

definition entries_ok :: "u32 \<Rightarrow> (u32, session_sub) gomap \<Rightarrow> bool" where
  "entries_ok last_id m \<longleftrightarrow>
     gm_wf m \<and> list_all (\<lambda>(i, s). ss_id s = i \<and> 1 \<le> i \<and> i \<le> last_id) m"

text \<open>After at most \<open>n\<close> operations.\<close>

definition tracker_inv :: "nat \<Rightarrow> tracker \<Rightarrow> bool" where
  "tracker_inv n t \<longleftrightarrow>
     entries_ok (tk_next_inbound t) (tk_inbound t) \<and>
     entries_ok (tk_next_outbound t) (tk_outbound t) \<and>
     unat (tk_next_inbound t) \<le> n \<and> unat (tk_next_outbound t) \<le> n"

definition id_budget :: nat where
  "id_budget = 2 ^ 32 - 1"

lemma entries_ok_Nil [simp]: "entries_ok i []"
  by (simp add: entries_ok_def)

lemma entries_ok_del: "entries_ok n m \<Longrightarrow> entries_ok n (gm_del i m)"
  by (auto simp: entries_ok_def list_all_iff gm_set_del)

lemma entries_ok_put:
  assumes "entries_ok n m" and "n < n + 1"
  shows "entries_ok (n + 1) (gm_put (n + 1) s m) \<longleftrightarrow> ss_id s = n + 1"
proof
  assume "entries_ok (n + 1) (gm_put (n + 1) s m)"
  moreover have "gm_get (gm_put (n + 1) s m) (n + 1) = Some s" by (simp add: gomap_simps)
  ultimately show "ss_id s = n + 1"
    by (auto simp: entries_ok_def list_all_iff gm_get_in)
next
  assume "ss_id s = n + 1"
  moreover have "1 \<le> n + 1"
    using assms(2) by (auto simp: word_le_nat_alt Suc_le_eq unat_gt_0)
  moreover have "i \<le> n + 1" if "i \<le> n" for i using assms(2) that by simp
  ultimately show "entries_ok (n + 1) (gm_put (n + 1) s m)"
    using assms(1) gm_set_put_subset [of "n + 1" s m]
    unfolding entries_ok_def list_all_iff by (auto split: prod.splits)
qed

lemma next_id_grows:
  assumes "unat (n :: u32) < id_budget"
  shows "n < n + 1" and "unat (n + 1) = Suc (unat n)"
proof -
  have "unat (n + 1) = (unat n + 1) mod 2 ^ 32" by (simp add: unat_word_ariths)
  then show "unat (n + 1) = Suc (unat n)" using assms by (simp add: id_budget_def)
  then show "n < n + 1" by (simp add: word_less_nat_alt)
qed

lemma tracker_inv_new: "tracker_inv 0 new_tracker"
  by (simp add: tracker_inv_def new_tracker_def)

lemma tracker_step_inv:
  assumes "tracker_inv n t" and "n < id_budget"
  shows "tracker_inv (Suc n) (tracker_step t e)"
    and "unat (tk_next_inbound t) \<le> unat (tk_next_inbound (tracker_step t e))"
proof -
  from assms have i: "unat (tk_next_inbound t) < id_budget"
    and out: "unat (tk_next_outbound t) < id_budget" by (simp_all add: tracker_inv_def)
  note grows = next_id_grows [OF i] next_id_grows [OF out]
  show "tracker_inv (Suc n) (tracker_step t e)" using assms(1) grows
    by (cases e) (simp_all add: tracker_inv_def add_inbound_def add_outbound_def Let_def
        remove_inbound_def remove_outbound_def clear_inbound_def entries_ok_put entries_ok_del)
  show "unat (tk_next_inbound t) \<le> unat (tk_next_inbound (tracker_step t e))" using grows
    by (cases e) (simp_all add: add_inbound_def add_outbound_def Let_def
        remove_inbound_def remove_outbound_def clear_inbound_def)
qed

interpretation tracker_machine:
  counter_machine tracker_step tracker_inv id_budget "\<lambda>t. unat (tk_next_inbound t)"
  by unfold_locales (auto intro: tracker_step_inv)

lemma tracker_run_inv:
  "length es \<le> id_budget \<Longrightarrow> tracker_inv (length es) (foldl tracker_step new_tracker es)"
  using tracker_machine.run_within [OF tracker_inv_new] by simp

lemma matching_ids:
  assumes "entries_ok n (tk_inbound t)"
  shows "map ss_id (get_matching_inbound ep fid attr t)
     = map fst (filter (\<lambda>(i, s). sub_matches ep fid attr s) (tk_inbound t))"
proof -
  have "list_all (\<lambda>(i, s). ss_id s = i) (tk_inbound t)"
    using assms by (auto simp: entries_ok_def list_all_iff)
  then have "map ss_id (filter (sub_matches ep fid attr) (map snd m))
     = map fst (filter (\<lambda>(i, s). sub_matches ep fid attr s) m)" if "m = tk_inbound t" for m
    unfolding that [symmetric] by (induction m) auto
  then show ?thesis by (simp add: get_matching_inbound_def)
qed

section \<open>Properties\<close>

text \<open>While fewer than 2^32 operations are made in a session, AddInbound never returns
  an identifier twice, also not that of a removed subscription: each is greater than all
  before it, and the new subscription is found under it until it is removed.\<close>

theorem inbound_ids_fresh:
  fixes before between :: "tracker_op list" and ep fid ep' fid' :: u8 and attrs attrs' :: "u16 list"
  defines "r \<equiv> add_inbound ep fid attrs (foldl tracker_step new_tracker before)"
  defines "r' \<equiv> add_inbound ep' fid' attrs' (foldl tracker_step (fst r) between)"
  assumes "length before + length between + 2 \<le> id_budget"
  shows "0 < snd r \<and> snd r < snd r' \<and>
    get_inbound (snd r) (fst r) = Some \<lparr>ss_id = snd r, ss_endpoint_id = ep,
      ss_feature_id = fid, ss_attributes = attrs\<rparr> \<and>
    get_inbound (snd r') (fst r) = None"
proof -
  let ?t = "foldl tracker_step new_tracker before" and ?n = "length before"
  let ?t' = "foldl tracker_step (fst r) between"
  have step: "fst r = tracker_step ?t (TkAddInbound ep fid attrs)" by (simp add: r_def)
  have inv: "tracker_inv ?n ?t" by (rule tracker_run_inv) (use assms(3) in simp)
  have inv1: "tracker_inv (Suc ?n) (fst r)"
    unfolding step by (rule tracker_step_inv(1) [OF inv]) (use assms(3) in simp)
  have inv2: "tracker_inv (Suc ?n + length between) ?t'"
    by (rule tracker_machine.run_within [OF inv1]) (use assms(3) in simp)
  have le: "unat (tk_next_inbound (fst r)) \<le> unat (tk_next_inbound ?t')"
    by (rule tracker_machine.run_counter [OF inv1]) (use assms(3) in simp)
  have ids: "snd r = tk_next_inbound (fst r)" "snd r' = tk_next_inbound ?t' + 1"
    by (simp_all add: r_def r'_def add_inbound_def Let_def)
  have "unat (tk_next_inbound ?t') < id_budget" using inv2 assms(3) by (simp add: tracker_inv_def)
  from next_id_grows [OF this] le have lt: "snd r < snd r'" by (simp add: ids word_less_nat_alt)
  have "unat (tk_next_inbound ?t) < id_budget" using inv assms(3) by (simp add: tracker_inv_def)
  from next_id_grows [OF this] have pos: "0 < snd r"
    by (simp add: r_def add_inbound_def Let_def word_less_nat_alt)
  have "get_inbound (snd r') (fst r) = None"
  proof (rule ccontr)
    assume "get_inbound (snd r') (fst r) \<noteq> None"
    then obtain s where "(snd r', s) \<in> set (tk_inbound (fst r))"
      by (auto simp: get_inbound_def dest: map_of_SomeD)
    with inv1 have "snd r' \<le> tk_next_inbound (fst r)"
      by (auto simp: tracker_inv_def entries_ok_def list_all_iff)
    with lt ids show False by simp
  qed
  with lt pos show ?thesis
    by (simp add: r_def add_inbound_def Let_def get_inbound_def gomap_simps)
qed

theorem inbound_ids_fresh_witness:
  "\<not> snd (add_inbound 1 5 [] (foldl tracker_step
       (fst (add_inbound 0 1 [3] (foldl tracker_step new_tracker [TkAddInbound 0 2 []])))
       [TkRemoveInbound 2])) \<le> 2"
proof -
  have "2 = snd (add_inbound 0 1 [3] (foldl tracker_step new_tracker [TkAddInbound 0 2 []]))"
    by (simp add: add_inbound_def new_tracker_def Let_def)
  also have "\<dots> < snd (add_inbound 1 5 [] (foldl tracker_step
       (fst (add_inbound 0 1 [3] (foldl tracker_step new_tracker [TkAddInbound 0 2 []])))
       [TkRemoveInbound 2]))"
    using inbound_ids_fresh [where before = "[TkAddInbound 0 2 []]" and between = "[TkRemoveInbound 2]"
      and ep = 0 and fid = 1 and attrs = "[3]" and ep' = 1 and fid' = 5 and attrs' = "[]"]
    by (simp add: id_budget_def)
  finally show ?thesis by (simp add: not_le)
qed

end
