(* ===== verification/DeviceModel.thy ===== *)
theory DeviceModel
  imports Wire "HOL-Library.Log_Nat"
begin

text \<open>
  The device model of \<open>pkg/model\<close>: a device has endpoints, an endpoint features, a feature
  attributes and commands. The pointers of the code are the only references to their
  objects, so an endpoint, feature or attribute is a value in the map that holds it.

  Command handlers, read hooks and subscribers are functions of other components and of
  the application: here they are names, and what a hook or a handler does with its
  arguments is an argument of the operations that call it. The calls of subscribers are
  part of the result.
\<close>

unbundle bit_operations_syntax

section \<open>Attributes\<close>

definition AttrIDGlobalBase :: u16 where "AttrIDGlobalBase = 0xFFF0"
definition AttrIDFeatureMap :: u16 where "AttrIDFeatureMap = 0xFFFC"
definition AttrIDAttributeList :: u16 where "AttrIDAttributeList = 0xFFFB"
definition AttrIDCommandList :: u16 where "AttrIDCommandList = 0xFFFA"

lemmas attr_id_defs = AttrIDGlobalBase_def AttrIDFeatureMap_def AttrIDAttributeList_def
  AttrIDCommandList_def

type_synonym access = u8

definition AccessRead :: access where "AccessRead = 1"
definition AccessWrite :: access where "AccessWrite = 2"
definition AccessSubscribe :: access where "AccessSubscribe = 4"
definition AccessReadOnly :: access where "AccessReadOnly = AccessRead OR AccessSubscribe"
definition AccessReadWrite :: access where
  "AccessReadWrite = AccessRead OR AccessWrite OR AccessSubscribe"

definition can_read :: "access \<Rightarrow> bool" where "can_read a \<longleftrightarrow> a AND AccessRead \<noteq> 0"
definition can_write :: "access \<Rightarrow> bool" where "can_write a \<longleftrightarrow> a AND AccessWrite \<noteq> 0"
definition can_subscribe :: "access \<Rightarrow> bool" where
  "can_subscribe a \<longleftrightarrow> a AND AccessSubscribe \<noteq> 0"

definition access_string :: "access \<Rightarrow> string" where
  "access_string a =
     (let s = (if can_read a then ''R'' else '''') @ (if can_write a then ''W'' else '''') @
              (if can_subscribe a then ''S'' else '''')
      in if s = '''' then ''-'' else s)"

datatype data_type =
    DataTypeUnknown | DataTypeBool
  | DataTypeInt8 | DataTypeInt16 | DataTypeInt32 | DataTypeInt64
  | DataTypeUint8 | DataTypeUint16 | DataTypeUint32 | DataTypeUint64
  | DataTypeFloat32 | DataTypeFloat64
  | DataTypeString | DataTypeBytes | DataTypeArray | DataTypeMap | DataTypeStruct
  | DataTypeEnum | DataTypeNull

record attribute_metadata =
  am_id :: u16
  am_name :: string
  am_type :: data_type
  am_access :: access
  am_nullable :: bool
  am_min_value :: any
  am_max_value :: any
  am_default :: any
  am_unit :: string
  am_description :: string

record attribute =
  at_metadata :: attribute_metadata
  at_value :: any
  at_dirty :: bool

text \<open>The sentinel errors of the package, with what \<open>fmt.Errorf\<close> adds to them.\<close>

datatype model_error =
    ErrAttributeNotWritable
  | ErrAttributeNotNullable
  | ErrAttributeValueType string
  | ErrBelowMinimum any any
  | ErrAboveMaximum any any
  | ErrAttributeNotFound
  | ErrFeatureReadOnly
  | ErrFeatureNotFound
  | ErrEndpointNotFound
  | ErrDuplicateEndpoint

definition new_attribute :: "attribute_metadata \<Rightarrow> attribute" where
  "new_attribute meta = \<lparr>at_metadata = meta, at_value = am_default meta, at_dirty = False\<rparr>"

fun isIntegerType :: "any \<Rightarrow> bool" where
  "isIntegerType (AInt _) = True" | "isIntegerType (AI8 _) = True"
| "isIntegerType (AI16 _) = True" | "isIntegerType (AI32 _) = True"
| "isIntegerType (AI64 _) = True" | "isIntegerType (AUint _) = True"
| "isIntegerType (AU8 _) = True" | "isIntegerType (AU16 _) = True"
| "isIntegerType (AU32 _) = True" | "isIntegerType (AU64 _) = True"
| "isIntegerType _ = False"

fun isNumericType :: "any \<Rightarrow> bool" where
  "isNumericType (AF32 _) = True"
| "isNumericType (AF64 _) = True"
| "isNumericType v = isIntegerType v"

text \<open>
  \<open>float64(n)\<close> of an integer: the nearest number with a mantissa of 53 bits, the even one
  of two equally near (IEEE 754).
\<close>

definition round_even :: "int \<Rightarrow> int \<Rightarrow> int" where
  "round_even n p =
     (let q = n div p; r = n mod p
      in if 2 * r < p \<or> 2 * r = p \<and> even q then q * p else (q + 1) * p)"

definition float64_of_int :: "int \<Rightarrow> rat" where
  "float64_of_int n =
     rat_of_int (sgn n * round_even \<bar>n\<bar> (2 ^ nat (max 0 (bitlen \<bar>n\<bar> - 53))))"

fun toFloat64 :: "any \<Rightarrow> rat option" where
  "toFloat64 (AInt n) = Some (float64_of_int (sint n))"
| "toFloat64 (AI8 n) = Some (float64_of_int (sint n))"
| "toFloat64 (AI16 n) = Some (float64_of_int (sint n))"
| "toFloat64 (AI32 n) = Some (float64_of_int (sint n))"
| "toFloat64 (AI64 n) = Some (float64_of_int (sint n))"
| "toFloat64 (AUint n) = Some (float64_of_int (uint n))"
| "toFloat64 (AU8 n) = Some (float64_of_int (uint n))"
| "toFloat64 (AU16 n) = Some (float64_of_int (uint n))"
| "toFloat64 (AU32 n) = Some (float64_of_int (uint n))"
| "toFloat64 (AU64 n) = Some (float64_of_int (uint n))"
| "toFloat64 (AF32 x) = Some x"
| "toFloat64 (AF64 x) = Some x"
| "toFloat64 _ = None"

text \<open>The bound as \<open>checkRange\<close> reads it: 0 when it is not a number.\<close>

definition bound_of :: "any \<Rightarrow> rat" where
  "bound_of b = (case toFloat64 b of None \<Rightarrow> 0 | Some x \<Rightarrow> x)"

definition check_range :: "attribute_metadata \<Rightarrow> any \<Rightarrow> model_error option" where
  "check_range meta value =
     (case toFloat64 value of
        None \<Rightarrow> None
      | Some v \<Rightarrow>
          if am_min_value meta \<noteq> ANil \<and> v < bound_of (am_min_value meta)
          then Some (ErrBelowMinimum value (am_min_value meta))
          else if am_max_value meta \<noteq> ANil \<and> v > bound_of (am_max_value meta)
          then Some (ErrAboveMaximum value (am_max_value meta))
          else None)"

fun is_bool_value :: "any \<Rightarrow> bool" where
  "is_bool_value (ABool _) = True" | "is_bool_value _ = False"

fun is_string_value :: "any \<Rightarrow> bool" where
  "is_string_value (AString _) = True" | "is_string_value _ = False"

fun is_bytes_value :: "any \<Rightarrow> bool" where
  "is_bytes_value (ABytes _) = True" | "is_bytes_value _ = False"

fun check_type :: "data_type \<Rightarrow> any \<Rightarrow> string option" where
  "check_type DataTypeBool v = (if is_bool_value v then None else Some ''expected bool'')"
| "check_type DataTypeInt8 v = (if isIntegerType v then None else Some ''expected integer'')"
| "check_type DataTypeInt16 v = (if isIntegerType v then None else Some ''expected integer'')"
| "check_type DataTypeInt32 v = (if isIntegerType v then None else Some ''expected integer'')"
| "check_type DataTypeInt64 v = (if isIntegerType v then None else Some ''expected integer'')"
| "check_type DataTypeUint8 v = (if isIntegerType v then None else Some ''expected unsigned integer'')"
| "check_type DataTypeUint16 v = (if isIntegerType v then None else Some ''expected unsigned integer'')"
| "check_type DataTypeUint32 v = (if isIntegerType v then None else Some ''expected unsigned integer'')"
| "check_type DataTypeUint64 v = (if isIntegerType v then None else Some ''expected unsigned integer'')"
| "check_type DataTypeFloat32 v = (if isNumericType v then None else Some ''expected float'')"
| "check_type DataTypeFloat64 v = (if isNumericType v then None else Some ''expected float'')"
| "check_type DataTypeString v = (if is_string_value v then None else Some ''expected string'')"
| "check_type DataTypeBytes v = (if is_bytes_value v then None else Some ''expected bytes'')"
| "check_type _ v = None"

definition validate_value :: "attribute_metadata \<Rightarrow> any \<Rightarrow> model_error option" where
  "validate_value meta value =
     (case check_type (am_type meta) value of
        Some msg \<Rightarrow> Some (ErrAttributeValueType msg)
      | None \<Rightarrow>
          if am_min_value meta \<noteq> ANil \<or> am_max_value meta \<noteq> ANil
          then check_range meta value else None)"

text \<open>
  \<open>a != b\<close> on interfaces, \<open>true\<close> where Go panics: two values of the same slice or map type
  (the payload structs are held by pointer and never stored in an attribute).
\<close>

fun uncomparable :: "any \<Rightarrow> bool" where
  "uncomparable (ABytes _) = True" | "uncomparable (AU16s _) = True"
| "uncomparable (ASlice _) = True" | "uncomparable (AMap _) = True"
| "uncomparable (AMapU64 _) = True" | "uncomparable (AMapU16 _) = True"
| "uncomparable (AMapString _) = True" | "uncomparable (AMapNamed _ _) = True"
| "uncomparable _ = False"

definition safeNotEqual :: "any \<Rightarrow> any \<Rightarrow> bool" where
  "safeNotEqual a b \<longleftrightarrow> uncomparable a \<or> a \<noteq> b"

definition set_value_internal :: "any \<Rightarrow> attribute \<Rightarrow> attribute \<times> model_error option" where
  "set_value_internal value a =
     (if value = ANil \<and> \<not> am_nullable (at_metadata a) then (a, Some ErrAttributeNotNullable)
      else case (if value = ANil then None else validate_value (at_metadata a) value) of
        Some err \<Rightarrow> (a, Some err)
      | None \<Rightarrow>
          (if safeNotEqual (at_value a) value
           then a\<lparr>at_value := value, at_dirty := True\<rparr> else a, None))"

definition set_value :: "any \<Rightarrow> attribute \<Rightarrow> attribute \<times> model_error option" where
  "set_value value a =
     (if \<not> can_write (am_access (at_metadata a)) then (a, Some ErrAttributeNotWritable)
      else set_value_internal value a)"

definition clear_dirty :: "attribute \<Rightarrow> attribute" where
  "clear_dirty a = a\<lparr>at_dirty := False\<rparr>"

section \<open>Commands\<close>

datatype command_err =
  ErrCommandNotFound | ErrCommandFailed | ErrInvalidParameters | ErrCommandNotAllowed

fun command_err_text :: "command_err \<Rightarrow> string" where
  "command_err_text ErrCommandNotFound = ''command not found''"
| "command_err_text ErrCommandFailed = ''command execution failed''"
| "command_err_text ErrInvalidParameters = ''invalid command parameters''"
| "command_err_text ErrCommandNotAllowed = ''command not allowed''"

text \<open>
  An error that a command returns, as its callers look at it: the \<open>wire.CommandError\<close> that
  \<open>errors.As\<close> finds in its chain, the sentinels that \<open>errors.Is\<close> finds, and its text.
\<close>

record invoke_error =
  ie_command_error :: "command_error option"
  ie_wraps :: "command_err list"
  ie_text :: string

definition sentinel :: "command_err \<Rightarrow> invoke_error" where
  "sentinel e = \<lparr>ie_command_error = None, ie_wraps = [e], ie_text = command_err_text e\<rparr>"

type_synonym params = "(string, any) gomap"

text \<open>The identity of the caller in the context of a request; empty and 0 when not set
  (\<open>pkg/zonecontext\<close>).\<close>

record caller =
  cl_zone_id :: string
  cl_zone_type :: u8

text \<open>A named handler: it may change the state of the program.\<close>

type_synonym 's handlers = "nat \<Rightarrow> caller \<Rightarrow> params \<Rightarrow> 's \<Rightarrow> 's \<times> (invoke_error + params)"

record parameter_metadata =
  pm_name :: string
  pm_type :: data_type
  pm_required :: bool
  pm_description :: string

record command_metadata =
  cmm_id :: u8
  cmm_name :: string
  cmm_description :: string
  cmm_parameters :: "parameter_metadata list"
  cmm_response :: "parameter_metadata list"

record command =
  cmd_metadata :: command_metadata
  cmd_handler :: "nat option"

definition new_command :: "command_metadata \<Rightarrow> nat option \<Rightarrow> command" where
  "new_command meta h = \<lparr>cmd_metadata = meta, cmd_handler = h\<rparr>"

definition set_handler :: "nat option \<Rightarrow> command \<Rightarrow> command" where
  "set_handler h c = c\<lparr>cmd_handler := h\<rparr>"

definition validate_parameters :: "params \<Rightarrow> command \<Rightarrow> command_err option" where
  "validate_parameters ps c =
     (if list_ex (\<lambda>p. pm_required p \<and> gm_get ps (pm_name p) = None)
           (cmm_parameters (cmd_metadata c))
      then Some ErrInvalidParameters else None)"

definition command_invoke :: "'s handlers \<Rightarrow> caller \<Rightarrow> params \<Rightarrow> command \<Rightarrow> 's \<Rightarrow>
    's \<times> (invoke_error + params)" where
  "command_invoke hs ctx ps c s =
     (case validate_parameters ps c of
        Some err \<Rightarrow> (s, Inl (sentinel err))
      | None \<Rightarrow>
          (case cmd_handler c of
             None \<Rightarrow> (s, Inl (sentinel ErrCommandNotFound))
           | Some h \<Rightarrow> hs h ctx ps s))"

section \<open>Features\<close>

type_synonym hooks = "nat \<Rightarrow> caller \<Rightarrow> u16 \<Rightarrow> any option"

record feature =
  ft_type :: u8
  ft_revision :: u16
  ft_feature_map :: u32
  ft_attributes :: "(u16, attribute) gomap"
  ft_commands :: "(u8, command) gomap"
  ft_subscribers :: "nat list"
  ft_read_hook :: "nat option"

text \<open>A call of \<open>OnAttributeChanged\<close>.\<close>

record change =
  ch_subscriber :: nat
  ch_feature_type :: u8
  ch_attr_id :: u16
  ch_value :: any

definition add_attribute :: "attribute \<Rightarrow> feature \<Rightarrow> feature" where
  "add_attribute a f = f\<lparr>ft_attributes := gm_put (am_id (at_metadata a)) a (ft_attributes f)\<rparr>"

definition add_global_attributes :: "feature \<Rightarrow> feature" where
  "add_global_attributes f = f\<lparr>ft_attributes :=
     gm_put AttrIDCommandList (new_attribute
       \<lparr>am_id = AttrIDCommandList, am_name = ''commandList'', am_type = DataTypeArray,
        am_access = AccessRead, am_nullable = False, am_min_value = ANil, am_max_value = ANil,
        am_default = ANil, am_unit = '''', am_description = ''List of supported command IDs''\<rparr>)
     (gm_put AttrIDAttributeList (new_attribute
       \<lparr>am_id = AttrIDAttributeList, am_name = ''attributeList'', am_type = DataTypeArray,
        am_access = AccessRead, am_nullable = False, am_min_value = ANil, am_max_value = ANil,
        am_default = ANil, am_unit = '''', am_description = ''List of supported attribute IDs''\<rparr>)
     (gm_put AttrIDFeatureMap (new_attribute
       \<lparr>am_id = AttrIDFeatureMap, am_name = ''featureMap'', am_type = DataTypeUint32,
        am_access = AccessReadOnly, am_nullable = False, am_min_value = ANil, am_max_value = ANil,
        am_default = AU32 0, am_unit = '''', am_description = ''Feature capability bitmap''\<rparr>)
     (ft_attributes f)))\<rparr>"

definition new_feature :: "u8 \<Rightarrow> u16 \<Rightarrow> feature" where
  "new_feature ft revision = add_global_attributes
     \<lparr>ft_type = ft, ft_revision = revision, ft_feature_map = 0, ft_attributes = [],
      ft_commands = [], ft_subscribers = [], ft_read_hook = None\<rparr>"

definition put_attribute :: "u16 \<Rightarrow> attribute \<Rightarrow> feature \<Rightarrow> feature" where
  "put_attribute i a f = f\<lparr>ft_attributes := gm_put i a (ft_attributes f)\<rparr>"

definition set_feature_map :: "u32 \<Rightarrow> feature \<Rightarrow> feature" where
  "set_feature_map bitmap f =
     (let f' = f\<lparr>ft_feature_map := bitmap\<rparr>
      in case gm_get (ft_attributes f') AttrIDFeatureMap of
           None \<Rightarrow> f'
         | Some a \<Rightarrow> put_attribute AttrIDFeatureMap (fst (set_value_internal (AU32 bitmap) a)) f')"

definition get_attribute :: "u16 \<Rightarrow> feature \<Rightarrow> model_error + attribute" where
  "get_attribute i f =
     (case gm_get (ft_attributes f) i of
        None \<Rightarrow> Inl ErrAttributeNotFound | Some a \<Rightarrow> Inr a)"

definition attribute_list :: "feature \<Rightarrow> u16 list" where
  "attribute_list f =
     sort (map fst (filter (\<lambda>(i, a). can_read (am_access (at_metadata a))) (ft_attributes f)))"

definition command_list :: "feature \<Rightarrow> u8 list" where
  "command_list f = sort (map fst (ft_commands f))"

definition read_attribute :: "u16 \<Rightarrow> feature \<Rightarrow> model_error + any" where
  "read_attribute i f =
     (if i = AttrIDAttributeList then Inr (AU16s (attribute_list f))
      else if i = AttrIDCommandList then Inr (ABytes (command_list f))
      else case get_attribute i f of
        Inl err \<Rightarrow> Inl err
      | Inr a \<Rightarrow>
          if \<not> can_read (am_access (at_metadata a)) then Inl ErrAttributeNotFound
          else Inr (at_value a))"

definition notify_attribute_changed :: "u16 \<Rightarrow> any \<Rightarrow> feature \<Rightarrow> change list" where
  "notify_attribute_changed i value f =
     map (\<lambda>s. \<lparr>ch_subscriber = s, ch_feature_type = ft_type f, ch_attr_id = i, ch_value = value\<rparr>)
       (ft_subscribers f)"

definition store_attribute ::
    "(any \<Rightarrow> attribute \<Rightarrow> attribute \<times> model_error option) \<Rightarrow> u16 \<Rightarrow> any \<Rightarrow> feature \<Rightarrow>
     feature \<times> change list \<times> model_error option" where
  "store_attribute setter i value f =
     (if i \<ge> AttrIDGlobalBase then (f, [], Some ErrFeatureReadOnly)
      else case get_attribute i f of
        Inl err \<Rightarrow> (f, [], Some err)
      | Inr a \<Rightarrow>
          (case setter value a of
             (a', Some err) \<Rightarrow> (put_attribute i a' f, [], Some err)
           | (a', None) \<Rightarrow>
               (put_attribute i a' f, notify_attribute_changed i value f, None)))"

definition write_attribute :: "u16 \<Rightarrow> any \<Rightarrow> feature \<Rightarrow>
    feature \<times> change list \<times> model_error option" where
  "write_attribute = store_attribute set_value"

definition set_attribute_internal :: "u16 \<Rightarrow> any \<Rightarrow> feature \<Rightarrow>
    feature \<times> change list \<times> model_error option" where
  "set_attribute_internal = store_attribute set_value_internal"

definition read_all_attributes :: "feature \<Rightarrow> (u16, any) gomap" where
  "read_all_attributes f =
     foldl (\<lambda>result (i, a).
       if can_read (am_access (at_metadata a))
       then gm_put i (if i = AttrIDAttributeList then AU16s (attribute_list f)
                      else if i = AttrIDCommandList then ABytes (command_list f)
                      else at_value a) result
       else result) [] (ft_attributes f)"

definition set_read_hook :: "nat option \<Rightarrow> feature \<Rightarrow> feature" where
  "set_read_hook h f = f\<lparr>ft_read_hook := h\<rparr>"

definition hooked_value :: "hooks \<Rightarrow> caller \<Rightarrow> feature \<Rightarrow> u16 \<Rightarrow> attribute \<Rightarrow> any" where
  "hooked_value hk ctx f i a =
     (case ft_read_hook f of
        None \<Rightarrow> at_value a
      | Some h \<Rightarrow> (case hk h ctx i of Some v \<Rightarrow> v | None \<Rightarrow> at_value a))"

definition read_attribute_with_context :: "hooks \<Rightarrow> caller \<Rightarrow> u16 \<Rightarrow> feature \<Rightarrow> model_error + any" where
  "read_attribute_with_context hk ctx i f =
     (if i = AttrIDAttributeList then Inr (AU16s (attribute_list f))
      else if i = AttrIDCommandList then Inr (ABytes (command_list f))
      else case get_attribute i f of
        Inl err \<Rightarrow> Inl err
      | Inr a \<Rightarrow>
          if \<not> can_read (am_access (at_metadata a)) then Inl ErrAttributeNotFound
          else Inr (hooked_value hk ctx f i a))"

definition read_all_attributes_with_context :: "hooks \<Rightarrow> caller \<Rightarrow> feature \<Rightarrow> (u16, any) gomap" where
  "read_all_attributes_with_context hk ctx f =
     foldl (\<lambda>result (i, a).
       if \<not> can_read (am_access (at_metadata a)) then result
       else if i = AttrIDAttributeList then gm_put i (AU16s (attribute_list f)) result
       else if i = AttrIDCommandList then gm_put i (ABytes (command_list f)) result
       else gm_put i (hooked_value hk ctx f i a) result) [] (ft_attributes f)"

definition add_command :: "command \<Rightarrow> feature \<Rightarrow> feature" where
  "add_command c f = f\<lparr>ft_commands := gm_put (cmm_id (cmd_metadata c)) c (ft_commands f)\<rparr>"

definition get_command :: "u8 \<Rightarrow> feature \<Rightarrow> command_err + command" where
  "get_command i f =
     (case gm_get (ft_commands f) i of None \<Rightarrow> Inl ErrCommandNotFound | Some c \<Rightarrow> Inr c)"

definition invoke_command :: "'s handlers \<Rightarrow> caller \<Rightarrow> u8 \<Rightarrow> params \<Rightarrow> feature \<Rightarrow> 's \<Rightarrow>
    's \<times> (invoke_error + params)" where
  "invoke_command hs ctx i ps f s =
     (case get_command i f of
        Inl err \<Rightarrow> (s, Inl (sentinel err))
      | Inr c \<Rightarrow> command_invoke hs ctx ps c s)"

definition feature_subscribe :: "nat \<Rightarrow> feature \<Rightarrow> feature" where
  "feature_subscribe s f = f\<lparr>ft_subscribers := ft_subscribers f @ [s]\<rparr>"

definition feature_unsubscribe :: "nat \<Rightarrow> feature \<Rightarrow> feature" where
  "feature_unsubscribe s f = f\<lparr>ft_subscribers := remove1 s (ft_subscribers f)\<rparr>"

definition get_dirty_attributes :: "feature \<Rightarrow> (u16, any) gomap" where
  "get_dirty_attributes f =
     foldl (\<lambda>result (i, a). if at_dirty a then gm_put i (at_value a) result else result)
       [] (ft_attributes f)"

definition clear_dirty_attributes :: "feature \<Rightarrow> feature" where
  "clear_dirty_attributes f =
     f\<lparr>ft_attributes := map (\<lambda>(i, a). (i, clear_dirty a)) (ft_attributes f)\<rparr>"

section \<open>Endpoints\<close>

record endpoint =
  ep_id :: u8
  ep_type :: u8
  ep_label :: string
  ep_features :: "(u8, feature) gomap"

definition new_endpoint :: "u8 \<Rightarrow> u8 \<Rightarrow> string \<Rightarrow> endpoint" where
  "new_endpoint i et l = \<lparr>ep_id = i, ep_type = et, ep_label = l, ep_features = []\<rparr>"

definition set_label :: "string \<Rightarrow> endpoint \<Rightarrow> endpoint" where
  "set_label l e = e\<lparr>ep_label := l\<rparr>"

definition add_feature :: "feature \<Rightarrow> endpoint \<Rightarrow> endpoint" where
  "add_feature f e = e\<lparr>ep_features := gm_put (ft_type f) f (ep_features e)\<rparr>"

definition get_feature :: "u8 \<Rightarrow> endpoint \<Rightarrow> model_error + feature" where
  "get_feature ft e =
     (case gm_get (ep_features e) ft of None \<Rightarrow> Inl ErrFeatureNotFound | Some f \<Rightarrow> Inr f)"

definition has_feature :: "u8 \<Rightarrow> endpoint \<Rightarrow> bool" where
  "has_feature ft e \<longleftrightarrow> gm_get (ep_features e) ft \<noteq> None"

definition endpoint_features :: "endpoint \<Rightarrow> feature list" where
  "endpoint_features e = map snd (ep_features e)"

definition feature_types :: "endpoint \<Rightarrow> u8 list" where
  "feature_types e = map fst (ep_features e)"

record endpoint_info =
  ei_id :: u8
  ei_type :: u8
  ei_label :: string
  ei_features :: "u16 list"

definition endpoint_info_of :: "endpoint \<Rightarrow> endpoint_info" where
  "endpoint_info_of e =
     \<lparr>ei_id = ep_id e, ei_type = ep_type e, ei_label = ep_label e,
      ei_features = map (\<lambda>(ft, f). ucast ft) (ep_features e)\<rparr>"

section \<open>Devices\<close>

record device =
  dv_device_id :: string
  dv_vendor_id :: u32
  dv_product_id :: u16
  dv_serial_number :: string
  dv_firmware_version :: string
  dv_endpoints :: "(u8, endpoint) gomap"

definition EndpointDeviceRoot :: u8 where "EndpointDeviceRoot = 0"

definition new_device :: "string \<Rightarrow> u32 \<Rightarrow> u16 \<Rightarrow> device" where
  "new_device i vendor product =
     \<lparr>dv_device_id = i, dv_vendor_id = vendor, dv_product_id = product,
      dv_serial_number = '''', dv_firmware_version = '''',
      dv_endpoints = [(0, new_endpoint 0 EndpointDeviceRoot '''')]\<rparr>"

definition add_endpoint :: "endpoint \<Rightarrow> device \<Rightarrow> device \<times> model_error option" where
  "add_endpoint e d =
     (if gm_get (dv_endpoints d) (ep_id e) \<noteq> None then (d, Some ErrDuplicateEndpoint)
      else (d\<lparr>dv_endpoints := gm_put (ep_id e) e (dv_endpoints d)\<rparr>, None))"

definition get_endpoint :: "u8 \<Rightarrow> device \<Rightarrow> model_error + endpoint" where
  "get_endpoint i d =
     (case gm_get (dv_endpoints d) i of None \<Rightarrow> Inl ErrEndpointNotFound | Some e \<Rightarrow> Inr e)"

definition device_get_feature :: "u8 \<Rightarrow> u8 \<Rightarrow> device \<Rightarrow> model_error + feature" where
  "device_get_feature i ft d =
     (case get_endpoint i d of Inl err \<Rightarrow> Inl err | Inr e \<Rightarrow> get_feature ft e)"

text \<open>The assignment through the pointers that lead to a feature.\<close>

definition put_feature :: "u8 \<Rightarrow> u8 \<Rightarrow> feature \<Rightarrow> device \<Rightarrow> device" where
  "put_feature i ft f d =
     (case gm_get (dv_endpoints d) i of
        None \<Rightarrow> d
      | Some e \<Rightarrow> d\<lparr>dv_endpoints :=
          gm_put i (e\<lparr>ep_features := gm_put ft f (ep_features e)\<rparr>) (dv_endpoints d)\<rparr>)"

definition device_read_attribute :: "u8 \<Rightarrow> u8 \<Rightarrow> u16 \<Rightarrow> device \<Rightarrow> model_error + any" where
  "device_read_attribute i ft attr d =
     (case device_get_feature i ft d of Inl err \<Rightarrow> Inl err | Inr f \<Rightarrow> read_attribute attr f)"

definition device_write_attribute :: "u8 \<Rightarrow> u8 \<Rightarrow> u16 \<Rightarrow> any \<Rightarrow> device \<Rightarrow>
    device \<times> change list \<times> model_error option" where
  "device_write_attribute i ft attr value d =
     (case device_get_feature i ft d of
        Inl err \<Rightarrow> (d, [], Some err)
      | Inr f \<Rightarrow>
          (case write_attribute attr value f of
             (f', changes, r) \<Rightarrow> (put_feature i ft f' d, changes, r)))"

record device_info =
  di_device_id :: string
  di_vendor_id :: u32
  di_product_id :: u16
  di_serial_number :: string
  di_firmware_version :: string
  di_endpoints :: "endpoint_info list"

definition device_info_of :: "device \<Rightarrow> device_info" where
  "device_info_of d =
     \<lparr>di_device_id = dv_device_id d, di_vendor_id = dv_vendor_id d,
      di_product_id = dv_product_id d, di_serial_number = dv_serial_number d,
      di_firmware_version = dv_firmware_version d,
      di_endpoints = map (\<lambda>(i, e). endpoint_info_of e) (dv_endpoints d)\<rparr>"

definition find_endpoints_by_type :: "u8 \<Rightarrow> device \<Rightarrow> endpoint list" where
  "find_endpoints_by_type et d = filter (\<lambda>e. ep_type e = et) (map snd (dv_endpoints d))"

definition find_endpoints_with_feature :: "u8 \<Rightarrow> device \<Rightarrow> endpoint list" where
  "find_endpoints_with_feature ft d = filter (has_feature ft) (map snd (dv_endpoints d))"

section \<open>Lemmas\<close>

subsection \<open>Setting a value\<close>

definition value_allowed :: "attribute_metadata \<Rightarrow> any \<Rightarrow> bool" where
  "value_allowed meta v \<longleftrightarrow>
     (if v = ANil then am_nullable meta else validate_value meta v = None)"

lemma set_value_internal_metadata [simp]:
  "at_metadata (fst (set_value_internal v a)) = at_metadata a"
  by (simp add: set_value_internal_def split: option.splits)

lemma set_value_metadata [simp]: "at_metadata (fst (set_value v a)) = at_metadata a"
  by (simp add: set_value_def)

lemma set_value_internal_accepts:
  "snd (set_value_internal v a) = None \<longleftrightarrow> value_allowed (at_metadata a) v"
  by (simp add: set_value_internal_def value_allowed_def split: option.splits)

lemma set_value_internal_value:
  "at_value (fst (set_value_internal v a)) =
     (if snd (set_value_internal v a) = None then v else at_value a)"
  by (simp add: set_value_internal_def safeNotEqual_def split: option.splits)

lemma set_value_accepts:
  "snd (set_value v a) = None \<longleftrightarrow>
     can_write (am_access (at_metadata a)) \<and> value_allowed (at_metadata a) v"
  by (simp add: set_value_def set_value_internal_accepts)

lemma set_value_value:
  "at_value (fst (set_value v a)) = (if snd (set_value v a) = None then v else at_value a)"
  by (simp add: set_value_def set_value_internal_value)

lemma rejected_unchanged:
  "snd (set_value_internal v a) \<noteq> None \<Longrightarrow> fst (set_value_internal v a) = a"
  "snd (set_value v a) \<noteq> None \<Longrightarrow> fst (set_value v a) = a"
  by (auto simp: set_value_def set_value_internal_def split: option.splits if_splits)

lemma validate_value_iff:
  "validate_value meta v = None \<longleftrightarrow>
     check_type (am_type meta) v = None \<and>
     (\<forall>x. toFloat64 v = Some x \<longrightarrow>
        (am_min_value meta \<noteq> ANil \<longrightarrow> bound_of (am_min_value meta) \<le> x) \<and>
        (am_max_value meta \<noteq> ANil \<longrightarrow> x \<le> bound_of (am_max_value meta)))"
  by (auto simp: validate_value_def check_range_def split: option.splits)

subsection \<open>The invariant of a feature\<close>

definition attribute_ok :: "u16 \<times> attribute \<Rightarrow> bool" where
  "attribute_ok e \<longleftrightarrow>
     am_id (at_metadata (snd e)) = fst e \<and>
     (at_value (snd e) = am_default (at_metadata (snd e)) \<or>
      value_allowed (at_metadata (snd e)) (at_value (snd e)))"

definition feature_inv :: "feature \<Rightarrow> bool" where
  "feature_inv f \<longleftrightarrow> gm_wf (ft_attributes f) \<and> list_all attribute_ok (ft_attributes f)"

datatype feature_op =
    FtAddAttribute attribute_metadata
  | FtAddCommand command
  | FtSetFeatureMap u32
  | FtWrite u16 any
  | FtSetInternal u16 any
  | FtSetReadHook "nat option"
  | FtSubscribe nat
  | FtUnsubscribe nat
  | FtClearDirty

fun feature_step :: "feature \<Rightarrow> feature_op \<Rightarrow> feature" where
  "feature_step f (FtAddAttribute meta) = add_attribute (new_attribute meta) f"
| "feature_step f (FtAddCommand c) = add_command c f"
| "feature_step f (FtSetFeatureMap b) = set_feature_map b f"
| "feature_step f (FtWrite i v) = fst (write_attribute i v f)"
| "feature_step f (FtSetInternal i v) = fst (set_attribute_internal i v f)"
| "feature_step f (FtSetReadHook h) = set_read_hook h f"
| "feature_step f (FtSubscribe s) = feature_subscribe s f"
| "feature_step f (FtUnsubscribe s) = feature_unsubscribe s f"
| "feature_step f FtClearDirty = clear_dirty_attributes f"

lemma list_all_put:
  "list_all P m \<Longrightarrow> P (k, v) \<Longrightarrow> list_all P (gm_put k v m)"
  using gm_set_put_subset [of k v m] by (auto simp: list_all_iff)

lemma feature_inv_get:
  "feature_inv f \<Longrightarrow> gm_get (ft_attributes f) i = Some a \<Longrightarrow> attribute_ok (i, a)"
  by (auto simp: feature_inv_def list_all_iff dest: map_of_SomeD)

lemma feature_inv_put:
  "feature_inv f \<Longrightarrow> attribute_ok (i, a) \<Longrightarrow> feature_inv (put_attribute i a f)"
  by (simp add: feature_inv_def put_attribute_def list_all_put)

lemma attribute_ok_set_internal:
  "attribute_ok (i, a) \<Longrightarrow> attribute_ok (i, fst (set_value_internal v a))"
  by (simp add: attribute_ok_def set_value_internal_value set_value_internal_accepts)

lemma attribute_ok_set: "attribute_ok (i, a) \<Longrightarrow> attribute_ok (i, fst (set_value v a))"
  by (simp add: set_value_def attribute_ok_set_internal)

lemma attribute_ok_new: "am_id meta = i \<Longrightarrow> attribute_ok (i, new_attribute meta)"
  by (simp add: attribute_ok_def new_attribute_def)

lemma feature_inv_store:
  assumes "feature_inv f" and "\<And>a. attribute_ok (i, a) \<Longrightarrow> attribute_ok (i, fst (setter v a))"
  shows "feature_inv (fst (store_attribute setter i v f))"
proof (cases "gm_get (ft_attributes f) i")
  case None
  then show ?thesis using assms(1) by (simp add: store_attribute_def get_attribute_def)
next
  case (Some a)
  from assms(2) [OF feature_inv_get [OF assms(1) Some]]
  have "feature_inv (put_attribute i (fst (setter v a)) f)" by (rule feature_inv_put [OF assms(1)])
  then show ?thesis using assms(1) Some
    by (cases "setter v a") (simp add: store_attribute_def get_attribute_def split: option.splits)
qed

lemma feature_inv_new: "feature_inv (new_feature ft revision)"
  by (simp add: feature_inv_def new_feature_def add_global_attributes_def attr_id_defs gm_wf_def
      attribute_ok_new)

lemma feature_inv_step: "feature_inv f \<Longrightarrow> feature_inv (feature_step f e)"
proof (cases e)
  case (FtAddAttribute meta)
  assume "feature_inv f"
  then show ?thesis
    by (simp add: FtAddAttribute add_attribute_def feature_inv_def list_all_put attribute_ok_new
        new_attribute_def [of meta, THEN arg_cong, of at_metadata, simplified])
next
  case (FtSetFeatureMap b)
  assume f: "feature_inv f"
  then have "feature_inv (f\<lparr>ft_feature_map := b\<rparr>)" by (simp add: feature_inv_def)
  with f show ?thesis
    by (auto simp: FtSetFeatureMap set_feature_map_def Let_def feature_inv_put
        attribute_ok_set_internal feature_inv_get split: option.splits)
next
  case FtClearDirty
  assume "feature_inv f"
  moreover have "fst \<circ> (\<lambda>(i :: u16, a :: attribute). (i, a\<lparr>at_dirty := False\<rparr>)) = fst"
    by (auto simp: fun_eq_iff)
  ultimately show ?thesis
    by (auto simp: FtClearDirty clear_dirty_attributes_def feature_inv_def gm_wf_def
        list_all_iff attribute_ok_def clear_dirty_def)
qed (simp_all add: write_attribute_def set_attribute_internal_def feature_inv_store
    attribute_ok_set attribute_ok_set_internal add_command_def set_read_hook_def
    feature_subscribe_def feature_unsubscribe_def,
    simp_all add: feature_inv_def)

interpretation feature_machine: invariant_machine feature_step feature_inv
  by unfold_locales (rule feature_inv_step)

subsection \<open>Reading\<close>

lemma fold_put_if_get:
  assumes "gm_wf m"
  shows "gm_get (foldl (\<lambda>acc (k, a). if P k a then gm_put k (g k a) acc else acc) acc m) k =
    (case gm_get m k of
       Some a \<Rightarrow> if P k a then Some (g k a) else gm_get acc k
     | None \<Rightarrow> gm_get acc k)"
  using assms
proof (induction m arbitrary: acc)
  case Nil
  then show ?case by simp
next
  case (Cons e m)
  obtain k' a' where e: "e = (k', a')" by (cases e)
  from Cons.prems have "gm_wf m" and "gm_get m k' = None"
    by (auto simp: e gm_wf_def map_of_eq_None_iff)
  with Cons.IH show ?case by (auto simp: e gomap_simps split: option.splits)
qed

lemma sorted_attribute_list: "sorted (attribute_list f)"
  by (simp add: attribute_list_def)

lemma read_all_with_context_get:
  assumes "gm_wf (ft_attributes f)"
  shows "gm_get (read_all_attributes_with_context hk ctx f) i =
    (case gm_get (ft_attributes f) i of
       None \<Rightarrow> None
     | Some a \<Rightarrow>
         if can_read (am_access (at_metadata a))
         then (case read_attribute_with_context hk ctx i f of Inr v \<Rightarrow> Some v | Inl _ \<Rightarrow> None)
         else None)"
proof -
  let ?g = "\<lambda>i a. if i = AttrIDAttributeList then AU16s (attribute_list f)
    else if i = AttrIDCommandList then ABytes (command_list f) else hooked_value hk ctx f i a"
  have "(\<lambda>result (i, a).
       if \<not> can_read (am_access (at_metadata a)) then result
       else if i = AttrIDAttributeList then gm_put i (AU16s (attribute_list f)) result
       else if i = AttrIDCommandList then gm_put i (ABytes (command_list f)) result
       else gm_put i (hooked_value hk ctx f i a) result) =
     (\<lambda>result (i, a). if can_read (am_access (at_metadata a)) then gm_put i (?g i a) result else result)"
    by (auto simp: fun_eq_iff)
  then show ?thesis
    by (simp add: read_all_attributes_with_context_def fold_put_if_get [OF assms]
        read_attribute_with_context_def get_attribute_def split: option.splits)
qed

section \<open>Properties\<close>

text \<open>C14. Whatever is written, set and added to a feature, the value of each attribute is its
  default or a value its metadata allow: null only where the attribute is nullable, of a
  dynamic type its data type admits, and not outside the limits (compared as float64).\<close>

theorem stored_values_valid:
  assumes "gm_get (ft_attributes (foldl feature_step (new_feature ft revision) ops)) i = Some a"
  shows "am_id (at_metadata a) = i \<and>
    (at_value a = am_default (at_metadata a) \<or>
     (if at_value a = ANil then am_nullable (at_metadata a)
      else check_type (am_type (at_metadata a)) (at_value a) = None \<and>
        (\<forall>x. toFloat64 (at_value a) = Some x \<longrightarrow>
          (am_min_value (at_metadata a) \<noteq> ANil \<longrightarrow> bound_of (am_min_value (at_metadata a)) \<le> x) \<and>
          (am_max_value (at_metadata a) \<noteq> ANil \<longrightarrow> x \<le> bound_of (am_max_value (at_metadata a))))))"
proof -
  have "feature_inv (foldl feature_step (new_feature ft revision) ops)"
    by (rule feature_machine.run_inv) (rule feature_inv_new)
  from feature_inv_get [OF this assms] show ?thesis
    unfolding attribute_ok_def value_allowed_def validate_value_iff fst_conv snd_conv .
qed

text \<open>A limit attribute of the tests of this theory: nullable, writable, at least 0.\<close>

definition limit_metadata :: attribute_metadata where
  "limit_metadata =
     \<lparr>am_id = 21, am_name = ''limit'', am_type = DataTypeInt64, am_access = AccessReadWrite,
      am_nullable = True, am_min_value = AI64 0, am_max_value = ANil, am_default = ANil,
      am_unit = ''mW'', am_description = ''''\<rparr>"

theorem stored_values_valid_witness:
  "\<exists>a. gm_get (ft_attributes (foldl feature_step (new_feature 5 1)
        [FtAddAttribute limit_metadata, FtWrite 21 (AU8 7), FtWrite 21 (AI64 (- 1)),
         FtWrite 21 (AString ''x'')])) 21 = Some a \<and>
     at_value a = AU8 7 \<and> 0 \<le> the (toFloat64 (at_value a))"
proof -
  let ?f = "foldl feature_step (new_feature 5 1)
        [FtAddAttribute limit_metadata, FtWrite 21 (AU8 7), FtWrite 21 (AI64 (- 1)),
         FtWrite 21 (AString ''x'')]"
  let ?a = "\<lparr>at_metadata = limit_metadata, at_value = AU8 7, at_dirty = True\<rparr>"
  have a: "gm_get (ft_attributes ?f) 21 = Some ?a" by code_simp
  have x: "toFloat64 (AU8 7) = Some 7" and "bound_of (AI64 0) = 0" by code_simp+
  with stored_values_valid [OF a] have "0 \<le> the (toFloat64 (AU8 7))"
    by (simp add: limit_metadata_def)
  with a show ?thesis by auto
qed

end
