(* ===== verification/Dispatch.thy ===== *)
theory Dispatch
  imports Tracker DeviceModel
begin

text \<open>
  The request handler of a session, \<open>ProtocolHandler\<close>
  (\<open>pkg/service/dispatch/protocol_handler.go\<close>): a request of the peer is routed to the
  device model or to the subscriptions of the session and answered.

  The state has the device, the identity of the peer, the subscriptions and which of the
  optional callbacks are set. The calls of subscribers and callbacks are outputs. Logging is
  left out. The device is shared between the sessions of the program; a request is one step
  on it, as its attributes are locked one by one only while they are read or written.
\<close>

section \<open>State\<close>

record handler =
  ph_device :: device
  ph_peer_id :: string
  ph_peer_zone_type :: u8
  ph_subscriptions :: tracker
  ph_sends :: bool
  ph_on_write :: bool
  ph_on_invoke :: bool

text \<open>What the handler gets from outside: the read hooks, the command handlers and the
  \<open>%v\<close> formatting of a value.\<close>

record env =
  en_hooks :: hooks
  en_commands :: "handler handlers"
  en_format :: "any \<Rightarrow> string"

datatype effect =
    AttributeChanged change
  | OnWrite u8 u8 "(u16, any) gomap"
  | OnInvoke u8 u8 u8 params params

definition new_handler :: "device \<Rightarrow> handler" where
  "new_handler d =
     \<lparr>ph_device = d, ph_peer_id = '''', ph_peer_zone_type = 0, ph_subscriptions = new_tracker,
      ph_sends = False, ph_on_write = False, ph_on_invoke = False\<rparr>"

definition new_handler_with_send :: "device \<Rightarrow> handler" where
  "new_handler_with_send d = (new_handler d)\<lparr>ph_sends := True\<rparr>"

definition set_send_notification :: "bool \<Rightarrow> handler \<Rightarrow> handler" where
  "set_send_notification b h = h\<lparr>ph_sends := b\<rparr>"

definition set_on_write :: "bool \<Rightarrow> handler \<Rightarrow> handler" where
  "set_on_write b h = h\<lparr>ph_on_write := b\<rparr>"

definition set_on_invoke :: "bool \<Rightarrow> handler \<Rightarrow> handler" where
  "set_on_invoke b h = h\<lparr>ph_on_invoke := b\<rparr>"

definition set_peer_id :: "string \<Rightarrow> handler \<Rightarrow> handler" where
  "set_peer_id p h = h\<lparr>ph_peer_id := p\<rparr>"

definition set_peer_zone_type :: "u8 \<Rightarrow> handler \<Rightarrow> handler" where
  "set_peer_zone_type zt h = h\<lparr>ph_peer_zone_type := zt\<rparr>"

text \<open>The context of a request; an identity that is not set reads as empty or 0 there.\<close>

definition caller_of :: "handler \<Rightarrow> caller" where
  "caller_of h = \<lparr>cl_zone_id = ph_peer_id h, cl_zone_type = ph_peer_zone_type h\<rparr>"

section \<open>Responses\<close>

definition error_response :: "request \<Rightarrow> status \<Rightarrow> string \<Rightarrow> response" where
  "error_response rq st msg =
     \<lparr>rp_message_id = rq_message_id rq, rp_status = st, rp_payload = AErrorPayload msg\<rparr>"

definition success_response :: "request \<Rightarrow> any \<Rightarrow> response" where
  "success_response rq p =
     \<lparr>rp_message_id = rq_message_id rq, rp_status = StatusSuccess, rp_payload = p\<rparr>"

fun error_text :: "(any \<Rightarrow> string) \<Rightarrow> model_error \<Rightarrow> string" where
  "error_text _ ErrAttributeNotWritable = ''attribute is not writable''"
| "error_text _ ErrAttributeNotNullable = ''attribute does not accept null''"
| "error_text _ (ErrAttributeValueType msg) = ''invalid value type for attribute: '' @ msg"
| "error_text fmt (ErrBelowMinimum v b) = ''value out of range: '' @ fmt v @ '' < '' @ fmt b"
| "error_text fmt (ErrAboveMaximum v b) = ''value out of range: '' @ fmt v @ '' > '' @ fmt b"
| "error_text _ ErrAttributeNotFound = ''attribute not found''"
| "error_text _ ErrFeatureReadOnly = ''feature is read-only''"
| "error_text _ ErrFeatureNotFound = ''feature not found''"
| "error_text _ ErrEndpointNotFound = ''endpoint not found''"
| "error_text _ ErrDuplicateEndpoint = ''duplicate endpoint ID''"

text \<open>\<open>%04x\<close>.\<close>

definition hex_digit :: "nat \<Rightarrow> char" where
  "hex_digit n = ''0123456789abcdef'' ! (n mod 16)"

definition hex4 :: "u16 \<Rightarrow> string" where
  "hex4 i = map (\<lambda>k. hex_digit (unat i div 16 ^ k)) [3, 2, 1, 0]"

section \<open>Read\<close>

text \<open>The loop over the requested attributes; it ends at the first one that cannot be read.\<close>

fun read_ids :: "hooks \<Rightarrow> caller \<Rightarrow> feature \<Rightarrow> (u16, any) gomap \<Rightarrow> u16 list \<Rightarrow>
    u16 + (u16, any) gomap" where
  "read_ids hk ctx f result [] = Inr result"
| "read_ids hk ctx f result (i # ids) =
     (case read_attribute_with_context hk ctx i f of
        Inl _ \<Rightarrow> Inl i
      | Inr v \<Rightarrow> read_ids hk ctx f (gm_put i v result) ids)"

definition handle_read :: "env \<Rightarrow> request \<Rightarrow> handler \<Rightarrow> response" where
  "handle_read en rq h =
     (case get_endpoint (rq_endpoint_id rq) (ph_device h) of
        Inl _ \<Rightarrow> error_response rq StatusInvalidEndpoint ''endpoint not found''
      | Inr e \<Rightarrow>
     (case get_feature (rq_feature_id rq) e of
        Inl _ \<Rightarrow> error_response rq StatusInvalidFeature ''feature not found''
      | Inr f \<Rightarrow>
     (let ids = ExtractReadAttributeIDs (rq_payload rq); ctx = caller_of h
      in if ids = []
         then success_response rq (AMapU16 (read_all_attributes_with_context (en_hooks en) ctx f))
         else case read_ids (en_hooks en) ctx f [] ids of
           Inl i \<Rightarrow> error_response rq StatusInvalidAttribute
             (''attribute 0x'' @ hex4 i @ '' not found'')
         | Inr result \<Rightarrow> success_response rq (AMapU16 result))))"

section \<open>Write\<close>

fun write_error_status :: "model_error \<Rightarrow> status" where
  "write_error_status ErrAttributeNotFound = StatusInvalidAttribute"
| "write_error_status ErrFeatureReadOnly = StatusReadOnly"
| "write_error_status ErrAttributeNotWritable = StatusReadOnly"
| "write_error_status _ = StatusConstraintError"

text \<open>The variables of the loop of \<open>handleWrite\<close>.\<close>

record write_state =
  ws_feature :: feature
  ws_changes :: "change list"
  ws_result :: "(u16, any) gomap"
  ws_first_error :: "model_error option"

definition write_entry :: "write_state \<Rightarrow> u16 \<times> any \<Rightarrow> write_state" where
  "write_entry w e =
     (case write_attribute (fst e) (snd e) (ws_feature w) of
        (f', changes, Some err) \<Rightarrow>
          w\<lparr>ws_feature := f', ws_changes := ws_changes w @ changes,
            ws_first_error := (if ws_first_error w = None then Some err else ws_first_error w)\<rparr>
      | (f', changes, None) \<Rightarrow>
          w\<lparr>ws_feature := f', ws_changes := ws_changes w @ changes,
            ws_result := (case read_attribute (fst e) f' of
               Inr actual \<Rightarrow> gm_put (fst e) actual (ws_result w) | Inl _ \<Rightarrow> ws_result w)\<rparr>)"

definition write_entries :: "(u16, any) gomap \<Rightarrow> feature \<Rightarrow> write_state" where
  "write_entries m f = foldl write_entry
     \<lparr>ws_feature = f, ws_changes = [], ws_result = [], ws_first_error = None\<rparr> m"

definition handle_write :: "env \<Rightarrow> request \<Rightarrow> handler \<Rightarrow> handler \<times> effect list \<times> response" where
  "handle_write en rq h =
     (case get_endpoint (rq_endpoint_id rq) (ph_device h) of
        Inl _ \<Rightarrow> (h, [], error_response rq StatusInvalidEndpoint ''endpoint not found'')
      | Inr e \<Rightarrow>
     (case get_feature (rq_feature_id rq) e of
        Inl _ \<Rightarrow> (h, [], error_response rq StatusInvalidFeature ''feature not found'')
      | Inr f \<Rightarrow>
     (case ExtractWritePayload (rq_payload rq) of
        None \<Rightarrow> (h, [], error_response rq StatusInvalidParameter ''invalid write payload'')
      | Some m \<Rightarrow>
     (let w = write_entries m f;
          h' = h\<lparr>ph_device :=
            put_feature (rq_endpoint_id rq) (rq_feature_id rq) (ws_feature w) (ph_device h)\<rparr>;
          effects = map AttributeChanged (ws_changes w)
      in case ws_first_error w of
           Some err \<Rightarrow>
             (h', effects,
              error_response rq (write_error_status err) (error_text (en_format en) err))
         | None \<Rightarrow>
             (h', effects @
                (if ws_result w \<noteq> [] \<and> ph_on_write h
                 then [OnWrite (rq_endpoint_id rq) (rq_feature_id rq) (ws_result w)] else []),
              success_response rq (AMapU16 (ws_result w)))))))"

section \<open>Subscribe and unsubscribe\<close>

fun unsubscribe_id :: "any \<Rightarrow> u32" where
  "unsubscribe_id (AUnsubscribePayload i) = i"
| "unsubscribe_id (AMap m) = or_zero (ToUint32 (any_at m (AU64 1)))"
| "unsubscribe_id _ = 0"

definition handle_unsubscribe :: "request \<Rightarrow> handler \<Rightarrow> handler \<times> response" where
  "handle_unsubscribe rq h =
     (let i = unsubscribe_id (rq_payload rq)
      in if i = 0 then (h, error_response rq StatusInvalidParameter ''subscription ID required'')
         else case remove_inbound i (ph_subscriptions h) of
           (t, exists) \<Rightarrow>
             if \<not> exists
             then (h\<lparr>ph_subscriptions := t\<rparr>,
                   error_response rq StatusInvalidParameter ''subscription not found'')
             else (h\<lparr>ph_subscriptions := t\<rparr>, success_response rq ANil))"

definition priming_values :: "hooks \<Rightarrow> caller \<Rightarrow> u16 list \<Rightarrow> feature \<Rightarrow> (u16, any) gomap" where
  "priming_values hk ctx ids f =
     (if ids = [] then read_all_attributes_with_context hk ctx f
      else foldl (\<lambda>acc i. case read_attribute_with_context hk ctx i f of
             Inr v \<Rightarrow> gm_put i v acc | Inl _ \<Rightarrow> acc) [] ids)"

definition handle_subscribe :: "env \<Rightarrow> request \<Rightarrow> handler \<Rightarrow> handler \<times> response" where
  "handle_subscribe en rq h =
     (if rq_feature_id rq = 0 then handle_unsubscribe rq h
      else case get_endpoint (rq_endpoint_id rq) (ph_device h) of
        Inl _ \<Rightarrow> (h, error_response rq StatusInvalidEndpoint ''endpoint not found'')
      | Inr e \<Rightarrow>
     (case get_feature (rq_feature_id rq) e of
        Inl _ \<Rightarrow> (h, error_response rq StatusInvalidFeature ''feature not found'')
      | Inr f \<Rightarrow>
     (let ids = (case ExtractSubscribePayload (rq_payload rq) of
             None \<Rightarrow> [] | Some p \<Rightarrow> sp_attribute_ids p);
          (t, i) = add_inbound (rq_endpoint_id rq) (rq_feature_id rq) ids (ph_subscriptions h)
      in (h\<lparr>ph_subscriptions := t\<rparr>,
          success_response rq (ASubscribeResponse i
            (priming_values (en_hooks en) (caller_of h) ids f))))))"

section \<open>Invoke\<close>

fun string_entries :: "(any \<times> any) list \<Rightarrow> params" where
  "string_entries [] = []"
| "string_entries ((AString k, v) # m) = (k, v) # string_entries m"
| "string_entries (_ # m) = string_entries m"

text \<open>\<open>convertMapAnyAnyToStringAny\<close>: the string keys of a map are distinct.\<close>

definition convert_map :: "(any \<times> any) list \<Rightarrow> params" where
  "convert_map m = string_entries m"

fun invoke_parameters :: "any \<Rightarrow> params" where
  "invoke_parameters (AMapString m) = m"
| "invoke_parameters (AMap m) = convert_map m"
| "invoke_parameters _ = []"

fun command_of :: "any \<Rightarrow> u8" where
  "command_of (AU64 n) = ucast n"
| "command_of _ = 0"

fun invoke_payload :: "any \<Rightarrow> (u8 \<times> params) option" where
  "invoke_payload (AInvokePayload c p) = Some (c, invoke_parameters p)"
| "invoke_payload (AMap m) =
     Some (command_of (any_at m (AU64 1)), invoke_parameters (any_at m (AU64 2)))"
| "invoke_payload _ = None"

definition invoke_error_status :: "invoke_error \<Rightarrow> status" where
  "invoke_error_status err =
     (case ie_command_error err of
        Some ce \<Rightarrow> ce_status ce
      | None \<Rightarrow>
          if ErrCommandNotFound \<in> set (ie_wraps err) then StatusInvalidCommand
          else if ErrInvalidParameters \<in> set (ie_wraps err) then StatusInvalidParameter
          else if ErrCommandNotAllowed \<in> set (ie_wraps err) then StatusConstraintError
          else StatusInvalidCommand)"

definition handle_invoke :: "env \<Rightarrow> request \<Rightarrow> handler \<Rightarrow> handler \<times> effect list \<times> response" where
  "handle_invoke en rq h =
     (case get_endpoint (rq_endpoint_id rq) (ph_device h) of
        Inl _ \<Rightarrow> (h, [], error_response rq StatusInvalidEndpoint ''endpoint not found'')
      | Inr e \<Rightarrow>
     (case get_feature (rq_feature_id rq) e of
        Inl _ \<Rightarrow> (h, [], error_response rq StatusInvalidFeature ''feature not found'')
      | Inr f \<Rightarrow>
     (case invoke_payload (rq_payload rq) of
        None \<Rightarrow> (h, [], error_response rq StatusInvalidParameter ''command payload required'')
      | Some (c, ps) \<Rightarrow>
     (case invoke_command (en_commands en) (caller_of h) c ps f h of
        (h', Inl err) \<Rightarrow> (h', [], error_response rq (invoke_error_status err) (ie_text err))
      | (h', Inr result) \<Rightarrow>
          (h', if ph_on_invoke h'
               then [OnInvoke (rq_endpoint_id rq) (rq_feature_id rq) c ps result] else [],
           success_response rq (AMapString result))))))"

section \<open>Requests and notifications\<close>

definition handle_request :: "env \<Rightarrow> request \<Rightarrow> handler \<Rightarrow> handler \<times> effect list \<times> response" where
  "handle_request en rq h =
     (if \<not> op_is_valid (rq_operation rq)
      then (h, [], error_response rq StatusUnsupported ''unsupported operation'')
      else if rq_operation rq = OpRead then (h, [], handle_read en rq h)
      else if rq_operation rq = OpWrite then handle_write en rq h
      else if rq_operation rq = OpSubscribe
      then (case handle_subscribe en rq h of (h', rp) \<Rightarrow> (h', [], rp))
      else if rq_operation rq = OpInvoke then handle_invoke en rq h
      else (h, [], error_response rq StatusUnsupported ''unsupported operation''))"

definition get_subscription :: "u32 \<Rightarrow> handler \<Rightarrow> session_sub option" where
  "get_subscription i h = get_inbound i (ph_subscriptions h)"

definition subscription_count :: "handler \<Rightarrow> nat" where
  "subscription_count h = inbound_count (ph_subscriptions h)"

definition get_matching_subscriptions :: "u8 \<Rightarrow> u8 \<Rightarrow> u16 \<Rightarrow> handler \<Rightarrow> u32 list" where
  "get_matching_subscriptions ep fid attr h =
     map ss_id (get_matching_inbound ep fid attr (ph_subscriptions h))"

text \<open>The loop over the matching subscriptions; the argument is whether the send function
  succeeds on a notification. The result is what was handed to it and whether all was sent.\<close>

fun send_all :: "(notification \<Rightarrow> bool) \<Rightarrow> notification list \<Rightarrow> notification list \<times> bool" where
  "send_all ok [] = ([], True)"
| "send_all ok (n # ns) =
     (if ok n then (case send_all ok ns of (sent, r) \<Rightarrow> (n # sent, r)) else ([n], False))"

definition notify_attribute_change :: "(notification \<Rightarrow> bool) \<Rightarrow> u8 \<Rightarrow> u8 \<Rightarrow> u16 \<Rightarrow> any \<Rightarrow> handler \<Rightarrow>
    notification list \<times> bool" where
  "notify_attribute_change ok ep fid attr value h =
     (if \<not> ph_sends h then ([], True)
      else send_all ok
        (map (\<lambda>s. \<lparr>nt_subscription_id = ss_id s, nt_endpoint_id = ep, nt_feature_id = fid,
                nt_changes = [(attr, value)]\<rparr>)
           (get_matching_inbound ep fid attr (ph_subscriptions h))))"

section \<open>Lemmas\<close>

subsection \<open>Lookup in the device\<close>

definition device_attribute :: "u8 \<Rightarrow> u8 \<Rightarrow> u16 \<Rightarrow> device \<Rightarrow> attribute option" where
  "device_attribute ep fid i d =
     (case device_get_feature ep fid d of
        Inl _ \<Rightarrow> None | Inr f \<Rightarrow> gm_get (ft_attributes f) i)"

lemma device_get_feature_iff:
  "device_get_feature ep fid d = Inr f \<longleftrightarrow>
     (\<exists>e. get_endpoint ep d = Inr e \<and> get_feature fid e = Inr f)"
  by (auto simp: device_get_feature_def split: sum.splits)

lemma device_get_put_feature:
  assumes "device_get_feature ep fid d = Inr f"
  shows "device_get_feature ep' fid' (put_feature ep fid f' d) =
     (if ep' = ep \<and> fid' = fid then Inr f' else device_get_feature ep' fid' d)"
  using assms
  by (auto simp: device_get_feature_def get_endpoint_def get_feature_def put_feature_def
      gomap_simps split: option.splits sum.splits)

subsection \<open>Writing\<close>

text \<open>When a write of one attribute is refused, and how.\<close>

definition write_refusal :: "feature \<Rightarrow> u16 \<Rightarrow> any \<Rightarrow> model_error option" where
  "write_refusal f i v =
     (if i \<ge> 0xFFF0 then Some ErrFeatureReadOnly
      else case gm_get (ft_attributes f) i of
        None \<Rightarrow> Some ErrAttributeNotFound
      | Some a \<Rightarrow>
          if am_access (at_metadata a) AND 2 = 0 then Some ErrAttributeNotWritable
          else if v = ANil
          then (if am_nullable (at_metadata a) then None else Some ErrAttributeNotNullable)
          else validate_value (at_metadata a) v)"

lemma set_value_error:
  "snd (set_value v a) =
     (if am_access (at_metadata a) AND 2 = 0 then Some ErrAttributeNotWritable
      else if v = ANil
      then (if am_nullable (at_metadata a) then None else Some ErrAttributeNotNullable)
      else validate_value (at_metadata a) v)"
  by (simp add: set_value_def set_value_internal_def can_write_def AccessWrite_def
      split: option.splits)

lemma write_attribute_error: "snd (snd (write_attribute i v f)) = write_refusal f i v"
proof (cases "gm_get (ft_attributes f) i")
  case None
  then show ?thesis
    by (simp add: write_attribute_def store_attribute_def write_refusal_def get_attribute_def
        AttrIDGlobalBase_def)
next
  case (Some a)
  then show ?thesis using set_value_error [of v a]
    by (cases "set_value v a")
      (auto simp: write_attribute_def store_attribute_def write_refusal_def get_attribute_def
        AttrIDGlobalBase_def split: option.splits)
qed

lemma write_attribute_get:
  "gm_get (ft_attributes (fst (write_attribute i v f))) j =
     (if j = i \<and> i < 0xFFF0 then map_option (\<lambda>a. fst (set_value v a)) (gm_get (ft_attributes f) i)
      else gm_get (ft_attributes f) j)"
proof (cases "gm_get (ft_attributes f) i")
  case None
  then show ?thesis
    by (simp add: write_attribute_def store_attribute_def get_attribute_def)
next
  case (Some a)
  then show ?thesis
    by (cases "set_value v a")
      (auto simp: write_attribute_def store_attribute_def get_attribute_def put_attribute_def
        AttrIDGlobalBase_def gomap_simps not_less split: option.splits)
qed

lemma write_refusal_local:
  "gm_get (ft_attributes f) i = gm_get (ft_attributes g) i \<Longrightarrow>
   write_refusal f i v = write_refusal g i v"
  by (simp add: write_refusal_def)

lemma write_entry_feature [simp]:
  "ws_feature (write_entry w e) = fst (write_attribute (fst e) (snd e) (ws_feature w))"
  by (simp add: write_entry_def split: prod.splits option.splits)

lemma write_entry_error:
  "ws_first_error (write_entry w e) =
     (if ws_first_error w = None then write_refusal (ws_feature w) (fst e) (snd e)
      else ws_first_error w)"
  using write_attribute_error [of "fst e" "snd e" "ws_feature w"]
  by (auto simp: write_entry_def split: prod.splits option.splits)

lemma fold_write_get:
  assumes "gm_wf m"
  shows "gm_get (ft_attributes (ws_feature (foldl write_entry w m))) j =
     (case gm_get m j of
        None \<Rightarrow> gm_get (ft_attributes (ws_feature w)) j
      | Some v \<Rightarrow> gm_get (ft_attributes (fst (write_attribute j v (ws_feature w)))) j)"
  using assms
proof (induction m arbitrary: w)
  case Nil
  then show ?case by simp
next
  case (Cons e m)
  obtain k u where e: "e = (k, u)" by (cases e)
  from Cons.prems have "gm_wf m" and "gm_get m k = None"
    by (auto simp: e gm_wf_def map_of_eq_None_iff)
  with Cons.IH show ?case by (auto simp: e write_attribute_get split: option.splits)
qed

lemma fold_write_error:
  assumes "gm_wf m"
  shows "ws_first_error (foldl write_entry w m) =
     (if ws_first_error w \<noteq> None then ws_first_error w
      else case filter (\<lambda>(i, v). write_refusal (ws_feature w) i v \<noteq> None) m of
        [] \<Rightarrow> None
      | e # _ \<Rightarrow> write_refusal (ws_feature w) (fst e) (snd e))"
  using assms
proof (induction m arbitrary: w)
  case Nil
  then show ?case by simp
next
  case (Cons e m)
  obtain k u where e: "e = (k, u)" by (cases e)
  from Cons.prems have wf: "gm_wf m" and fresh: "\<And>i v. (i, v) \<in> set m \<Longrightarrow> i \<noteq> k"
    by (auto simp: e gm_wf_def rev_image_eqI)
  have "write_refusal (ws_feature (write_entry w e)) i v = write_refusal (ws_feature w) i v"
    if "(i, v) \<in> set m" for i v
    by (rule write_refusal_local) (use fresh [OF that] in \<open>simp add: e write_attribute_get\<close>)
  then have same: "filter (\<lambda>(i, v). write_refusal (ws_feature (write_entry w e)) i v \<noteq> None) m
      = filter (\<lambda>(i, v). write_refusal (ws_feature w) i v \<noteq> None) m"
    by (intro filter_cong) auto
  have first: "write_refusal (ws_feature (write_entry w e)) (fst x) (snd x)
      = write_refusal (ws_feature w) (fst x) (snd x)"
    if "filter (\<lambda>(i, v). write_refusal (ws_feature w) i v \<noteq> None) m = x # xs" for x xs
  proof -
    have "x \<in> set (filter (\<lambda>(i, v). write_refusal (ws_feature w) i v \<noteq> None) m)"
      unfolding that by simp
    then have "x \<in> set m" by simp
    then have "fst x \<noteq> k" using fresh [of "fst x" "snd x"] by simp
    then show ?thesis by (intro write_refusal_local) (simp add: e write_attribute_get)
  qed
  show ?case
    using Cons.IH [OF wf, of "write_entry w e"] first same
    by (auto simp: e write_entry_error split: list.splits)
qed

lemma written_value:
  assumes "gm_wf m" and "gm_get (ft_attributes f) i = Some a"
  shows "\<exists>a'. gm_get (ft_attributes (ws_feature (write_entries m f))) i = Some a' \<and>
        at_metadata a' = at_metadata a \<and>
        at_value a' = (case gm_get m i of
           Some v \<Rightarrow> if write_refusal f i v = None then v else at_value a
         | None \<Rightarrow> at_value a)"
proof (cases "gm_get m i")
  case None
  with assms show ?thesis by (simp add: write_entries_def fold_write_get)
next
  case (Some v)
  have "snd (set_value v a) = write_refusal f i v" if "i < 0xFFF0"
    using that assms(2) by (simp add: set_value_error write_refusal_def not_le [symmetric])
  moreover have "write_refusal f i v \<noteq> None" if "\<not> i < 0xFFF0"
    using that by (simp add: write_refusal_def not_less)
  ultimately show ?thesis using assms Some set_value_value [of v a]
    by (cases "i < 0xFFF0") (simp_all add: write_entries_def fold_write_get write_attribute_get, fastforce)
qed

lemma write_attribute_keeps:
  assumes "gm_get (ft_attributes f) i = Some a" and "i \<ge> 0xFFF0 \<or> \<not> can_write (am_access (at_metadata a))"
  shows "gm_get (ft_attributes (fst (write_attribute j v f))) i = Some a"
  using assms by (auto simp: write_attribute_get set_value_def)

lemma fold_write_keeps:
  assumes "i \<ge> 0xFFF0 \<or> \<not> can_write (am_access (at_metadata a))"
  shows "gm_get (ft_attributes (ws_feature w)) i = Some a \<Longrightarrow>
    gm_get (ft_attributes (ws_feature (foldl write_entry w m))) i = Some a"
  by (induction m arbitrary: w) (simp_all add: write_attribute_keeps [OF _ assms])

lemma handle_write_device:
  "ph_device (fst (handle_write en rq h)) = ph_device h \<or>
   (\<exists>f m. device_get_feature (rq_endpoint_id rq) (rq_feature_id rq) (ph_device h) = Inr f \<and>
      ph_device (fst (handle_write en rq h)) =
        put_feature (rq_endpoint_id rq) (rq_feature_id rq) (ws_feature (write_entries m f)) (ph_device h))"
  by (auto simp: handle_write_def device_get_feature_iff Let_def split: sum.splits option.splits)

lemma handle_write_keeps:
  assumes "i \<ge> 0xFFF0 \<or> \<not> can_write (am_access (at_metadata a))"
    and "device_attribute ep fid i (ph_device h) = Some a"
  shows "device_attribute ep fid i (ph_device (fst (handle_write en rq h))) = Some a"
  using handle_write_device [of en rq h]
proof
  assume "\<exists>f m. device_get_feature (rq_endpoint_id rq) (rq_feature_id rq) (ph_device h) = Inr f \<and>
      ph_device (fst (handle_write en rq h)) =
        put_feature (rq_endpoint_id rq) (rq_feature_id rq) (ws_feature (write_entries m f)) (ph_device h)"
  then obtain f m where f: "device_get_feature (rq_endpoint_id rq) (rq_feature_id rq) (ph_device h) = Inr f"
    and d: "ph_device (fst (handle_write en rq h)) =
        put_feature (rq_endpoint_id rq) (rq_feature_id rq) (ws_feature (write_entries m f)) (ph_device h)"
    by blast
  have "gm_get (ft_attributes f) i = Some a \<Longrightarrow>
      gm_get (ft_attributes (ws_feature (write_entries m f))) i = Some a"
    unfolding write_entries_def by (rule fold_write_keeps [OF assms(1)]) simp
  with assms(2) f show ?thesis
    unfolding device_attribute_def d device_get_put_feature [OF f] by (auto split: if_splits)
qed (simp add: assms(2))

lemma handle_subscribe_device [simp]: "ph_device (fst (handle_subscribe en rq h)) = ph_device h"
  by (simp add: handle_subscribe_def handle_unsubscribe_def Let_def split: sum.splits prod.splits)

lemma handle_write_subscriptions [simp]:
  "ph_subscriptions (fst (handle_write en rq h)) = ph_subscriptions h"
  by (simp add: handle_write_def Let_def split: sum.splits option.splits)

lemma handle_write_sends [simp]: "ph_sends (fst (handle_write en rq h)) = ph_sends h"
  by (simp add: handle_write_def Let_def split: sum.splits option.splits)

lemma handle_subscribe_sends [simp]: "ph_sends (fst (handle_subscribe en rq h)) = ph_sends h"
  by (simp add: handle_subscribe_def handle_unsubscribe_def Let_def split: sum.splits prod.splits)

text \<open>An Invoke changes the state only through the handler of the command.\<close>

lemma handle_invoke_state:
  "fst (handle_invoke en rq h) = h \<or>
   (\<exists>n ctx ps. fst (handle_invoke en rq h) = fst (en_commands en n ctx ps h))"
proof -
  have "fst (invoke_command (en_commands en) ctx c ps f h) = h \<or>
     (\<exists>n. fst (invoke_command (en_commands en) ctx c ps f h) = fst (en_commands en n ctx ps h))"
    for ctx c ps f
    by (simp add: invoke_command_def command_invoke_def split: sum.splits option.splits) blast
  then show ?thesis
    by (auto simp: handle_invoke_def split: sum.splits option.splits prod.splits)
      (metis fst_conv)+
qed

lemma handle_request_cases:
  obtains (same) "fst (handle_request en rq h) = h"
  | (written) "fst (handle_request en rq h) = fst (handle_write en rq h)"
  | (subscribe) "fst (handle_request en rq h) = fst (handle_subscribe en rq h)"
  | (command) n ctx ps where "fst (handle_request en rq h) = fst (en_commands en n ctx ps h)"
proof -
  have "fst (handle_request en rq h)
      \<in> {h, fst (handle_write en rq h), fst (handle_subscribe en rq h), fst (handle_invoke en rq h)}"
    by (simp add: handle_request_def split: prod.splits)
  with handle_invoke_state [of en rq h] that show thesis by auto
qed

definition run_requests :: "env \<Rightarrow> handler \<Rightarrow> request list \<Rightarrow> handler" where
  "run_requests en = foldl (\<lambda>h rq. fst (handle_request en rq h))"

lemma run_requests_keep:
  assumes "\<And>h rq. P h \<Longrightarrow> P (fst (handle_request en rq h))" and "P h"
  shows "P (run_requests en h rqs)"
  unfolding run_requests_def
  by (rule invariant_machine.run_inv) (unfold_locales, rule assms(1), assumption, rule assms(2))

lemma handle_request_keeps_attribute:
  assumes "\<And>n ctx ps h. device_attribute ep fid i (ph_device h) = Some a \<Longrightarrow>
      device_attribute ep fid i (ph_device (fst (en_commands en n ctx ps h))) = Some a"
    and "i \<ge> 0xFFF0 \<or> \<not> can_write (am_access (at_metadata a))"
    and "device_attribute ep fid i (ph_device h) = Some a"
  shows "device_attribute ep fid i (ph_device (fst (handle_request en rq h))) = Some a"
  by (rule handle_request_cases [of en rq h])
    (simp_all add: assms(3) handle_write_keeps [OF assms(2,3)] assms(1) [OF assms(3)])

section \<open>Properties\<close>


text \<open>C13. No sequence of requests of a peer, in whatever order and with whatever payloads,
  changes an attribute that is not writable, or a global attribute, unless the handler of a
  command does.\<close>

theorem peer_cannot_change_read_only:
  assumes "\<And>n ctx ps h. device_attribute ep fid i (ph_device h) = Some a \<Longrightarrow>
      device_attribute ep fid i (ph_device (fst (en_commands en n ctx ps h))) = Some a"
    and "i \<ge> AttrIDGlobalBase \<or> \<not> can_write (am_access (at_metadata a))"
    and "device_attribute ep fid i (ph_device h) = Some a"
  shows "device_attribute ep fid i (ph_device (run_requests en h rqs)) = Some a"
  by (rule run_requests_keep [of "\<lambda>h. device_attribute ep fid i (ph_device h) = Some a"])
    (use assms in \<open>simp_all add: handle_request_keeps_attribute AttrIDGlobalBase_def\<close>)

subsection \<open>The witnesses' device\<close>

definition demo_device :: device where
  "demo_device =
     (let f = foldl feature_step (new_feature 5 1)
          [FtAddAttribute limit_metadata,
           FtAddAttribute (limit_metadata\<lparr>am_id := 22, am_access := AccessReadOnly\<rparr>)];
          d = new_device ''dev'' 1 1
      in d\<lparr>dv_endpoints := [(0, add_feature f (new_endpoint 0 EndpointDeviceRoot ''''))]\<rparr>)"

definition demo_env :: env where
  "demo_env = \<lparr>en_hooks = (\<lambda>_ _ _. None), en_commands = (\<lambda>_ _ _ h. (h, Inr [])),
     en_format = (\<lambda>_. '''')\<rparr>"

definition demo_request :: "operation \<Rightarrow> any \<Rightarrow> request" where
  "demo_request p payload = \<lparr>rq_message_id = 9, rq_operation = p, rq_endpoint_id = 0,
     rq_feature_id = 5, rq_payload = payload\<rparr>"

definition demo_handler :: handler where
  "demo_handler = set_on_write True (new_handler_with_send demo_device)"

lemmas demo_request_simps = demo_request_def request.simps


theorem peer_cannot_change_read_only_witness:
  "\<exists>a. device_attribute 0 5 22 (ph_device demo_handler) = Some a \<and>
     device_attribute 0 5 22 (ph_device (run_requests demo_env demo_handler
       [demo_request OpWrite (AWritePayload [(22, AI64 1)]), demo_request OpInvoke (AInvokePayload 1 ANil)]))
     = Some a"
proof -
  have "\<exists>a. device_attribute 0 5 22 (ph_device demo_handler) = Some a \<and>
      \<not> can_write (am_access (at_metadata a))"
    by (rule exI [of _ "the (device_attribute 0 5 22 (ph_device demo_handler))"]) code_simp
  then obtain a where a: "device_attribute 0 5 22 (ph_device demo_handler) = Some a"
    and "\<not> can_write (am_access (at_metadata a))" by blast
  with peer_cannot_change_read_only [of 0 5 22 a demo_env demo_handler] show ?thesis
    by (auto simp: demo_env_def)
qed

section \<open>Notifications\<close>

text \<open>The commands of the device leave the subscriptions of the session alone.\<close>

definition commands_keep_subscriptions :: "env \<Rightarrow> bool" where
  "commands_keep_subscriptions en \<longleftrightarrow>
     (\<forall>n ctx ps h. ph_subscriptions (fst (en_commands en n ctx ps h)) = ph_subscriptions h \<and>
        ph_sends (fst (en_commands en n ctx ps h)) = ph_sends h)"

lemma handle_subscribe_tracker:
  "ph_subscriptions (fst (handle_subscribe en rq h)) = ph_subscriptions h \<or>
   (\<exists>e. ph_subscriptions (fst (handle_subscribe en rq h)) = tracker_step (ph_subscriptions h) e)"
proof -
  have "ph_subscriptions (fst (handle_unsubscribe rq h)) = ph_subscriptions h \<or>
      ph_subscriptions (fst (handle_unsubscribe rq h))
        = tracker_step (ph_subscriptions h) (TkRemoveInbound (unsubscribe_id (rq_payload rq)))"
    by (simp add: handle_unsubscribe_def Let_def split: prod.splits)
  moreover have "fst (add_inbound ep fid ids t) = tracker_step t (TkAddInbound ep fid ids)"
    for ep fid ids t by simp
  ultimately show ?thesis
    unfolding handle_subscribe_def Let_def
    by (auto split: sum.splits prod.splits simp del: tracker_step.simps) (metis fst_conv)+
qed

text \<open>The tracker of a handler after \<open>n\<close> requests, and that the handler can send.\<close>

definition session_inv :: "nat \<Rightarrow> handler \<Rightarrow> bool" where
  "session_inv n h \<longleftrightarrow> tracker_inv n (ph_subscriptions h) \<and> ph_sends h"

lemma tracker_inv_Suc: "tracker_inv n t \<Longrightarrow> tracker_inv (Suc n) t"
  by (simp add: tracker_inv_def)

lemma session_step_inv:
  assumes "commands_keep_subscriptions en" and "session_inv n h" and "n < id_budget"
  shows "session_inv (Suc n) (fst (handle_request en rq h))"
proof (cases rule: handle_request_cases [of en rq h])
  case same
  with assms(2) show ?thesis by (simp add: session_inv_def tracker_inv_Suc)
next
  case written
  with assms(2) show ?thesis by (simp add: session_inv_def tracker_inv_Suc)
next
  case subscribe
  from handle_subscribe_tracker [of en rq h] show ?thesis
  proof
    assume "ph_subscriptions (fst (handle_subscribe en rq h)) = ph_subscriptions h"
    with subscribe assms(2) show ?thesis by (simp add: session_inv_def tracker_inv_Suc)
  next
    assume "\<exists>e. ph_subscriptions (fst (handle_subscribe en rq h)) = tracker_step (ph_subscriptions h) e"
    with subscribe assms(2,3) show ?thesis by (auto simp: session_inv_def tracker_step_inv(1))
  qed
next
  case (command n' ctx ps)
  with assms(1,2) show ?thesis
    by (simp add: session_inv_def commands_keep_subscriptions_def tracker_inv_Suc)
qed

lemma session_run_inv:
  assumes "commands_keep_subscriptions en" and "length rqs \<le> id_budget"
  shows "session_inv (length rqs) (run_requests en (new_handler_with_send d) rqs)"
proof -
  have "session_inv 0 (new_handler_with_send d)"
    by (simp add: session_inv_def new_handler_with_send_def new_handler_def tracker_inv_new)
  moreover have "supply_machine (\<lambda>h rq. fst (handle_request en rq h)) session_inv id_budget"
    by unfold_locales (rule session_step_inv [OF assms(1)])
  ultimately show ?thesis
    using supply_machine.run_within [of "\<lambda>h rq. fst (handle_request en rq h)" session_inv id_budget
        0 "new_handler_with_send d" rqs] assms(2)
    by (simp add: run_requests_def)
qed

lemma send_all_ok: "send_all (\<lambda>_. True) ns = (ns, True)"
  by (induction ns) simp_all

lemma send_all_prefix:
  "\<exists>rest. ns = fst (send_all ok ns) @ rest \<and> (snd (send_all ok ns) \<longleftrightarrow> rest = [] \<and> list_all ok ns)"
proof (induction ns)
  case Nil
  then show ?case by simp
next
  case (Cons n ns)
  then show ?case by (auto split: prod.splits)
qed

lemma matching_inbound_iff:
  assumes ok: "entries_ok n (tk_inbound t)"
  shows "s \<in> set (get_matching_inbound ep fid attr t) \<longleftrightarrow>
    get_inbound (ss_id s) t = Some s \<and> sub_matches ep fid attr s"
proof -
  have "gm_wf (tk_inbound t)" using ok by (simp add: entries_ok_def)
  note get = gm_get_in [OF this, folded get_inbound_def]
  have stored: "(ss_id s, s) \<in> set (tk_inbound t)" if "e \<in> set (tk_inbound t)" and "s = snd e" for e
  proof -
    from ok that(1) have "ss_id (snd e) = fst e"
      by (auto simp: entries_ok_def list_all_iff)
    with that show ?thesis by simp
  qed
  have "s \<in> snd ` set (tk_inbound t) \<longleftrightarrow> (ss_id s, s) \<in> set (tk_inbound t)"
  proof
    assume "s \<in> snd ` set (tk_inbound t)"
    then obtain e where "e \<in> set (tk_inbound t)" and "s = snd e" by (rule imageE)
    then show "(ss_id s, s) \<in> set (tk_inbound t)" by (rule stored)
  next
    assume "(ss_id s, s) \<in> set (tk_inbound t)"
    then show "s \<in> snd ` set (tk_inbound t)" by (rule rev_image_eqI) simp
  qed
  then show ?thesis unfolding get_matching_inbound_def get set_filter set_map by blast
qed

lemma inbound_id: "entries_ok n (tk_inbound t) \<Longrightarrow> get_inbound i t = Some s \<Longrightarrow> ss_id s = i"
  by (auto simp: entries_ok_def list_all_iff get_inbound_def dest: map_of_SomeD)

lemma unsubscribed:
  assumes "rp_status (snd (handle_unsubscribe rq h)) = StatusSuccess"
  shows "get_subscription (unsubscribe_id (rq_payload rq)) (fst (handle_unsubscribe rq h)) = None"
proof -
  let ?i = "unsubscribe_id (rq_payload rq)"
  have "?i \<noteq> 0" and "gm_get (tk_inbound (ph_subscriptions h)) ?i \<noteq> None"
    using assms by (simp_all add: handle_unsubscribe_def remove_inbound_def Let_def
        error_response_def StatusInvalidParameter_def StatusSuccess_def split: if_splits)
  then show ?thesis
    by (simp add: handle_unsubscribe_def remove_inbound_def Let_def get_subscription_def
        get_inbound_def gomap_simps)
qed

text \<open>C29. After any requests of the peer, a change of an attribute is sent exactly once for
  each of its subscriptions that is for this endpoint and feature and for this attribute or
  for all, with the identifier, the endpoint, the feature and the new value; after a
  successful unsubscription nothing more is sent for the identifier.\<close>

theorem notifications_match_subscriptions:
  fixes en :: env and d :: device and rqs :: "request list" and ep fid :: u8 and attr :: u16
    and v :: any
  defines "h \<equiv> run_requests en (new_handler_with_send d) rqs"
  defines "r \<equiv> notify_attribute_change (\<lambda>_. True) ep fid attr v h"
  assumes "commands_keep_subscriptions en" and "length rqs \<le> id_budget"
  shows "snd r \<and> distinct (map nt_subscription_id (fst r)) \<and>
    (\<forall>n. n \<in> set (fst r) \<longleftrightarrow>
      (\<exists>s. get_subscription (nt_subscription_id n) h = Some s \<and>
         ss_endpoint_id s = ep \<and> ss_feature_id s = fid \<and>
         (if ss_attributes s = [] then True else attr \<in> set (ss_attributes s)) \<and>
         n = \<lparr>nt_subscription_id = nt_subscription_id n, nt_endpoint_id = ep,
              nt_feature_id = fid, nt_changes = [(attr, v)]\<rparr>)) \<and>
    (rp_status (snd (handle_unsubscribe rq h)) = StatusSuccess \<longrightarrow>
      get_subscription (unsubscribe_id (rq_payload rq)) (fst (handle_unsubscribe rq h)) = None)"
proof -
  let ?t = "ph_subscriptions h"
  let ?n = "\<lambda>s. \<lparr>nt_subscription_id = ss_id s, nt_endpoint_id = ep, nt_feature_id = fid,
      nt_changes = [(attr, v)]\<rparr>"
  have "session_inv (length rqs) h"
    unfolding h_def by (rule session_run_inv) (fact assms(3,4))+
  then have ok: "entries_ok (tk_next_inbound ?t) (tk_inbound ?t)" and sends: "ph_sends h"
    by (simp_all add: session_inv_def tracker_inv_def)
  have r: "r = (map ?n (get_matching_inbound ep fid attr ?t), True)"
    by (simp add: r_def notify_attribute_change_def sends send_all_ok)
  have "gm_wf (filter (\<lambda>(i, s). sub_matches ep fid attr s) (tk_inbound ?t))"
    using ok by (simp add: entries_ok_def gm_wf_filter)
  then have dist: "distinct (map nt_subscription_id (fst r))"
    by (simp add: r comp_def matching_ids [OF ok] gm_wf_def)
  have mem: "n \<in> set (fst r) \<longleftrightarrow>
      (\<exists>s. get_subscription (nt_subscription_id n) h = Some s \<and> sub_matches ep fid attr s \<and>
        n = ?n s)" for n
    by (auto simp: r image_iff matching_inbound_iff [OF ok] get_subscription_def)
  have "ss_id s = i" if "get_subscription i h = Some s" for i s
    using inbound_id [OF ok] that by (simp add: get_subscription_def)
  then have "n \<in> set (fst r) \<longleftrightarrow>
      (\<exists>s. get_subscription (nt_subscription_id n) h = Some s \<and>
         ss_endpoint_id s = ep \<and> ss_feature_id s = fid \<and>
         (if ss_attributes s = [] then True else attr \<in> set (ss_attributes s)) \<and>
         n = \<lparr>nt_subscription_id = nt_subscription_id n, nt_endpoint_id = ep,
              nt_feature_id = fid, nt_changes = [(attr, v)]\<rparr>)" for n
    unfolding mem sub_matches_def by (intro ex_cong1) auto
  with dist unsubscribed show ?thesis by (simp add: r)
qed

theorem notifications_match_subscriptions_witness:
  "\<exists>h. map_option ss_attributes (get_subscription 2 h) = Some [21] \<and> get_subscription 1 h = None \<and>
     \<lparr>nt_subscription_id = 2, nt_endpoint_id = 0, nt_feature_id = 5, nt_changes = [(21, AI64 3)]\<rparr>
       \<in> set (fst (notify_attribute_change (\<lambda>_. True) 0 5 21 (AI64 3) h)) \<and>
     1 \<notin> nt_subscription_id ` set (fst (notify_attribute_change (\<lambda>_. True) 0 5 21 (AI64 3) h))"
proof -
  let ?rqs = "[demo_request OpSubscribe ANil, demo_request OpSubscribe (ASubscribePayload [21] 0 0),
    (demo_request OpSubscribe (AUnsubscribePayload 1))\<lparr>rq_feature_id := 0\<rparr>]"
  let ?h = "run_requests demo_env (new_handler_with_send demo_device) ?rqs"
  let ?s = "\<lparr>ss_id = 2, ss_endpoint_id = 0, ss_feature_id = 5, ss_attributes = [21]\<rparr>"
  have "commands_keep_subscriptions demo_env"
    by (simp add: commands_keep_subscriptions_def demo_env_def)
  moreover have "length ?rqs \<le> id_budget" by (simp add: id_budget_def)
  moreover have "get_subscription 1 ?h = None" and s: "get_subscription 2 ?h = Some ?s" by code_simp+
  ultimately show ?thesis
    using notifications_match_subscriptions [where en = demo_env and rqs = ?rqs and d = demo_device
      and ep = 0 and fid = 5 and attr = 21 and v = "AI64 3"]
    by (intro exI [of _ ?h]) auto
qed

end
