(* ===== verification/Text.thy ===== *)
theory Text
  imports Prelude
begin

text \<open>
  Go strings, as far as the codes and records of the program use them: a string is a list
  of bytes. What \<open>strconv\<close>, \<open>strings\<close> and \<open>fmt\<close> do with them: numbers in base 10 and 16,
  padding, splitting and joining at a separator, trimming white space.
\<close>

section \<open>Numbers\<close>

definition upper_digit :: "nat \<Rightarrow> char" where
  "upper_digit d = (if d < 10 then char_of (48 + d) else char_of (55 + d))"

text \<open>\<open>strconv.FormatUint\<close>, \<open>%d\<close> and (in base 16) \<open>%X\<close>.\<close>

function num_string :: "nat \<Rightarrow> nat \<Rightarrow> string" where
  "num_string b n =
     (if b < 2 \<or> n < b then [upper_digit n] else num_string b (n div b) @ [upper_digit (n mod b)])"
  by pat_completeness auto

termination num_string
  by (relation "measure snd") auto

declare num_string.simps [simp del]

text \<open>\<open>%0kd\<close> and \<open>%0kX\<close>.\<close>

definition pad :: "nat \<Rightarrow> string \<Rightarrow> string" where
  "pad k s = replicate (k - length s) CHR ''0'' @ s"

definition digit_value :: "nat \<Rightarrow> char \<Rightarrow> nat option" where
  "digit_value b c =
     (let n = of_char c :: nat;
          d = (if 48 \<le> n \<and> n \<le> 57 then n - 48
               else if 97 \<le> n \<and> n \<le> 122 then n - 87
               else if 65 \<le> n \<and> n \<le> 90 then n - 55 else b)
      in if d < b then Some d else None)"

fun parse_digits :: "nat \<Rightarrow> nat \<Rightarrow> string \<Rightarrow> nat option" where
  "parse_digits b acc [] = Some acc"
| "parse_digits b acc (c # cs) =
     (case digit_value b c of None \<Rightarrow> None | Some d \<Rightarrow> parse_digits b (acc * b + d) cs)"

text \<open>\<open>strconv.ParseUint(s, b, bits)\<close>; an error, syntax or range, is \<open>None\<close>.\<close>

definition parse_uint :: "nat \<Rightarrow> nat \<Rightarrow> string \<Rightarrow> nat option" where
  "parse_uint b bits s =
     (if s = [] then None
      else case parse_digits b 0 s of
        None \<Rightarrow> None
      | Some n \<Rightarrow> if n < 2 ^ bits then Some n else None)"

definition is_digit :: "char \<Rightarrow> bool" where
  "is_digit c \<longleftrightarrow> 48 \<le> (of_char c :: nat) \<and> (of_char c :: nat) \<le> 57"

definition is_hex :: "char \<Rightarrow> bool" where
  "is_hex c \<longleftrightarrow> is_digit c \<or> (97 \<le> (of_char c :: nat) \<and> (of_char c :: nat) \<le> 102) \<or>
     (65 \<le> (of_char c :: nat) \<and> (of_char c :: nat) \<le> 70)"

section \<open>Splitting\<close>

fun split_on :: "char \<Rightarrow> string \<Rightarrow> string list" where
  "split_on c [] = [[]]"
| "split_on c (x # xs) =
     (if x = c then [] # split_on c xs
      else case split_on c xs of p # ps \<Rightarrow> (x # p) # ps | [] \<Rightarrow> [[x]])"

fun join_with :: "char \<Rightarrow> string list \<Rightarrow> string" where
  "join_with c [] = []"
| "join_with c [p] = p"
| "join_with c (p # ps) = p @ c # join_with c ps"

text \<open>\<open>strings.SplitN(s, c, 2)\<close>.\<close>

fun split_first :: "char \<Rightarrow> string \<Rightarrow> string \<times> string option" where
  "split_first c [] = ([], None)"
| "split_first c (x # xs) =
     (if x = c then ([], Some xs) else case split_first c xs of (p, r) \<Rightarrow> (x # p, r))"

section \<open>White space\<close>

text \<open>The UTF-8 encodings of what \<open>unicode.IsSpace\<close> accepts.\<close>

definition space_codes :: "nat list list" where
  "space_codes =
     [[9], [10], [11], [12], [13], [32], [0xC2, 0x85], [0xC2, 0xA0], [0xE1, 0x9A, 0x80]] @
     map (\<lambda>k. [0xE2, 0x80, 0x80 + k]) [0..<11] @
     [[0xE2, 0x80, 0xA8], [0xE2, 0x80, 0xA9], [0xE2, 0x80, 0xAF], [0xE2, 0x81, 0x9F],
      [0xE3, 0x80, 0x80]]"

definition starts_with_code :: "string \<Rightarrow> nat list \<Rightarrow> bool" where
  "starts_with_code s c \<longleftrightarrow> c \<noteq> [] \<and> map of_char (take (length c) s) = c"

function trim_front :: "nat list list \<Rightarrow> string \<Rightarrow> string" where
  "trim_front codes s =
     (case find (starts_with_code s) codes of
        None \<Rightarrow> s
      | Some c \<Rightarrow> trim_front codes (drop (length c) s))"
  by pat_completeness auto

lemma starts_with_code_length: "starts_with_code s c \<Longrightarrow> c \<noteq> [] \<and> length c \<le> length s"
  by (auto simp: starts_with_code_def dest: arg_cong [of _ c length])

lemma find_SomeD: "find P xs = Some x \<Longrightarrow> P x \<and> x \<in> set xs"
  by (metis find_Some_iff nth_mem)

termination trim_front
  by (relation "measure (length \<circ> snd)")
    (auto dest!: find_SomeD starts_with_code_length intro!: diff_less dest: le_less_trans [of 0]
      simp: less_le_trans [of 0] length_greater_0_conv [symmetric] simp del: length_greater_0_conv)

declare trim_front.simps [simp del]

definition TrimSpace :: "string \<Rightarrow> string" where
  "TrimSpace s = rev (trim_front (map rev space_codes) (rev (trim_front space_codes s)))"

section \<open>Lemmas\<close>

named_theorems text_simps \<open>printing, parsing, splitting and trimming\<close>

subsection \<open>Numbers\<close>

lemma digit_value_upper [text_simps]: "d < b \<Longrightarrow> b \<le> 16 \<Longrightarrow> digit_value b (upper_digit d) = Some d"
  by (simp add: digit_value_def upper_digit_def Let_def of_char_of take_bit_nat_eq_self_iff)

lemma parse_digits_append:
  "parse_digits b acc (xs @ ys) = Option.bind (parse_digits b acc xs) (\<lambda>n. parse_digits b n ys)"
  by (induction xs arbitrary: acc) (auto split: option.splits)

lemma parse_digits_zeros: "1 < b \<Longrightarrow> parse_digits b 0 (replicate k CHR ''0'' @ s) = parse_digits b 0 s"
  by (induction k) (simp_all add: digit_value_def Let_def)

lemma parse_digits_num_string [text_simps]:
  "1 < b \<Longrightarrow> b \<le> 16 \<Longrightarrow> parse_digits b 0 (num_string b n) = Some n"
proof (induction b n rule: num_string.induct)
  case (1 b n)
  show ?case
  proof (cases "n < b")
    case True
    with 1 show ?thesis by (simp add: num_string.simps digit_value_upper)
  next
    case False
    with 1 have "parse_digits b 0 (num_string b (n div b)) = Some (n div b)" by simp
    with 1 False show ?thesis
      by (subst num_string.simps) (simp add: parse_digits_append digit_value_upper)
  qed
qed

lemma num_string_nonempty [simp]: "num_string b n \<noteq> []"
  by (subst num_string.simps) simp

lemma pad_nonempty: "s \<noteq> [] \<Longrightarrow> pad k s \<noteq> []"
  by (simp add: pad_def)

lemma parse_num_string [text_simps]:
  "1 < b \<Longrightarrow> b \<le> 16 \<Longrightarrow> parse_uint b bits (num_string b n) = (if n < 2 ^ bits then Some n else None)"
  by (simp add: parse_uint_def parse_digits_num_string)

lemma parse_pad_num_string [text_simps]:
  "1 < b \<Longrightarrow> b \<le> 16 \<Longrightarrow>
   parse_uint b bits (pad k (num_string b n)) = (if n < 2 ^ bits then Some n else None)"
  by (simp add: parse_uint_def pad_def parse_digits_zeros parse_digits_num_string)

lemma num_string_digits: "b \<le> 10 \<Longrightarrow> 1 < b \<Longrightarrow> list_all is_digit (num_string b n)"
proof (induction b n rule: num_string.induct)
  case (1 b n)
  have "is_digit (upper_digit d)" if "d < 10" for d
    using that by (simp add: is_digit_def upper_digit_def of_char_of take_bit_nat_eq_self_iff)
  moreover have "n mod b < 10" using 1 by (simp add: less_le_trans [of _ b])
  ultimately show ?case using 1
    by (subst num_string.simps) auto
qed

lemma upper_digit_hex: "d < 16 \<Longrightarrow> is_hex (upper_digit d)"
  by (simp add: is_hex_def is_digit_def upper_digit_def of_char_of take_bit_nat_eq_self_iff)

lemma num_string_hex: "b \<le> 16 \<Longrightarrow> 1 < b \<Longrightarrow> list_all is_hex (num_string b n)"
proof (induction b n rule: num_string.induct)
  case (1 b n)
  moreover have "n mod b < 16" using 1 by (simp add: less_le_trans [of _ b])
  ultimately show ?case
    by (subst num_string.simps) (auto simp: upper_digit_hex)
qed

lemma length_num_string: "1 < b \<Longrightarrow> n < b ^ Suc k \<Longrightarrow> length (num_string b n) \<le> Suc k"
proof (induction k arbitrary: n)
  case 0
  then show ?case by (simp add: num_string.simps)
next
  case (Suc k)
  then have "n div b < b ^ Suc k" by (simp add: less_mult_imp_div_less mult.commute)
  with Suc.IH [of "n div b"] Suc.prems show ?case by (subst num_string.simps) simp
qed

lemma length_pad: "length s \<le> k \<Longrightarrow> length (pad k s) = k"
  by (simp add: pad_def)

lemma pad_digits: "list_all is_digit s \<Longrightarrow> list_all is_digit (pad k s)"
  by (auto simp: pad_def is_digit_def list_all_iff)

lemma parse_digits_bound:
  "parse_digits b acc s = Some n \<Longrightarrow> 0 < b \<Longrightarrow> n < (acc + 1) * b ^ length s"
proof (induction s arbitrary: acc)
  case Nil
  then show ?case by simp
next
  case (Cons c cs)
  then obtain d where d: "digit_value b c = Some d" and n: "parse_digits b (acc * b + d) cs = Some n"
    by (auto split: option.splits)
  from d have "d < b" by (auto simp: digit_value_def Let_def split: if_splits)
  then have "acc * b + d + 1 \<le> (acc + 1) * b" by simp
  then have "(acc * b + d + 1) * b ^ length cs \<le> (acc + 1) * b * b ^ length cs"
    by (rule mult_le_mono1)
  from less_le_trans [OF Cons.IH [OF n Cons.prems(2)] this] show ?case
    by (simp add: algebra_simps)
qed

lemma parse_uint_bound: "parse_uint b bits s = Some n \<Longrightarrow> n < 2 ^ bits"
  by (auto simp: parse_uint_def split: if_splits option.splits)

subsection \<open>Splitting\<close>

lemma split_on_nonempty: "split_on c s \<noteq> []"
  by (induction s) (auto split: list.splits)

lemma split_on_single: "c \<notin> set s \<Longrightarrow> split_on c s = [s]"
  by (induction s) auto

lemma split_on_append [text_simps]:
  "c \<notin> set p \<Longrightarrow> split_on c (p @ c # s) = p # split_on c s"
  by (induction p) auto

lemma split_join [text_simps]:
  "ps \<noteq> [] \<Longrightarrow> (\<And>p. p \<in> set ps \<Longrightarrow> c \<notin> set p) \<Longrightarrow> split_on c (join_with c ps) = ps"
  by (induction c ps rule: join_with.induct) (simp_all add: split_on_single split_on_append)

lemma join_split: "join_with c (split_on c s) = s"
proof (induction s)
  case Nil
  then show ?case by simp
next
  case (Cons x s)
  obtain p ps where "split_on c s = p # ps" using split_on_nonempty by (cases "split_on c s") auto
  with Cons show ?case by (cases ps) auto
qed

lemma split_on_parts: "p \<in> set (split_on c s) \<Longrightarrow> c \<notin> set p"
proof (induction s arbitrary: p)
  case (Cons x s)
  obtain q ps where "split_on c s = q # ps" using split_on_nonempty by (cases "split_on c s") auto
  with Cons show ?case by (auto split: if_splits)
qed simp

lemma split_first_append [text_simps]:
  "c \<notin> set p \<Longrightarrow> split_first c (p @ c # s) = (p, Some s)"
  by (induction p) auto

lemma split_first_none: "c \<notin> set s \<Longrightarrow> split_first c s = (s, None)"
  by (induction s) auto

lemma digits_no_separator:
  "list_all is_digit s \<Longrightarrow> \<not> is_digit c \<Longrightarrow> c \<notin> set s"
  by (auto simp: list_all_iff)

lemma hex_no_separator: "list_all is_hex s \<Longrightarrow> \<not> is_hex c \<Longrightarrow> c \<notin> set s"
  by (auto simp: list_all_iff)

subsection \<open>Trimming\<close>

text \<open>A visible ASCII character.\<close>

definition is_graphic :: "char \<Rightarrow> bool" where
  "is_graphic c \<longleftrightarrow> 33 \<le> (of_char c :: nat) \<and> (of_char c :: nat) \<le> 126"

lemma trim_front_graphic:
  assumes "s \<noteq> []" and "is_graphic (hd s)" and "\<And>c. c \<in> set codes \<Longrightarrow> hd c < 33 \<or> 126 < hd c"
  shows "trim_front codes s = s"
proof -
  have "\<not> starts_with_code s c" if "c \<in> set codes" for c
  proof
    assume "starts_with_code s c"
    then have "c \<noteq> []" and "map of_char (take (length c) s) = c" by (auto simp: starts_with_code_def)
    then have "hd c = of_char (hd s)" using assms(1) by (cases s; cases c) auto
    with assms(2) assms(3) [OF that] show False by (simp add: is_graphic_def)
  qed
  then have "find (starts_with_code s) codes = None" by (auto simp: find_None_iff)
  then show ?thesis by (simp add: trim_front.simps)
qed

lemma TrimSpace_graphic [text_simps]:
  assumes "s \<noteq> []" and "is_graphic (hd s)" and "is_graphic (last s)"
  shows "TrimSpace s = s"
proof -
  have "trim_front space_codes s = s"
    by (rule trim_front_graphic [OF assms(1,2)]) (auto simp: space_codes_def)
  moreover have "trim_front (map rev space_codes) (rev s) = rev s"
    by (rule trim_front_graphic) (use assms in \<open>auto simp: space_codes_def hd_rev\<close>)
  ultimately show ?thesis by (simp add: TrimSpace_def)
qed

lemma digit_graphic: "is_digit c \<Longrightarrow> is_graphic c"
  by (simp add: is_digit_def is_graphic_def)

lemma hex_graphic: "is_hex c \<Longrightarrow> is_graphic c"
  by (auto simp: is_hex_def is_digit_def is_graphic_def)

lemma TrimSpace_digits: "s \<noteq> [] \<Longrightarrow> list_all is_digit s \<Longrightarrow> TrimSpace s = s"
  by (rule TrimSpace_graphic) (auto simp: list_all_iff intro!: digit_graphic)

end
