(* ===== verification/SetupCodes.thy ===== *)
theory SetupCodes
  imports Text
begin

text \<open>
  Protocol versions (\<open>pkg/version/version.go\<close>, \<open>pkg/service/version_check.go\<close>), setup codes
  and the two QR code formats (\<open>pkg/commissioning/setupcode.go\<close> with six fields,
  \<open>pkg/discovery/qrcode.go\<close> with four). The texts of the errors are left out; their kinds
  are the constructors.
\<close>

section \<open>Versions\<close>

definition Current :: string where "Current = ''1.0''"

record spec_version =
  sv_major :: u16
  sv_minor :: u16

datatype version_error = VersionShape | VersionMajor | VersionMinor

definition version_parse :: "string \<Rightarrow> version_error + spec_version" where
  "version_parse s =
     (case split_on CHR ''.'' s of
        [p, q] \<Rightarrow>
          (case parse_uint 10 16 p of
             None \<Rightarrow> Inl VersionMajor
           | Some major \<Rightarrow>
               (case parse_uint 10 16 q of
                  None \<Rightarrow> Inl VersionMinor
                | Some minor \<Rightarrow>
                    Inr \<lparr>sv_major = of_nat major, sv_minor = of_nat minor\<rparr>))
      | _ \<Rightarrow> Inl VersionShape)"

definition version_string :: "spec_version \<Rightarrow> string" where
  "version_string v = num_string 10 (unat (sv_major v)) @ ''.'' @ num_string 10 (unat (sv_minor v))"

definition version_compatible :: "spec_version \<Rightarrow> spec_version \<Rightarrow> bool" where
  "version_compatible v w \<longleftrightarrow> sv_major v = sv_major w"

definition ALPNProtocol :: "u16 \<Rightarrow> string" where
  "ALPNProtocol major = ''mash/'' @ num_string 10 (unat major)"

definition strip_prefix :: "string \<Rightarrow> string \<Rightarrow> string option" where
  "strip_prefix p s = (if take (length p) s = p then Some (drop (length p) s) else None)"

datatype alpn_error = NotMash | EmptyMajor | InvalidMajor

definition MajorFromALPN :: "string \<Rightarrow> alpn_error + u16" where
  "MajorFromALPN alpn =
     (case (case strip_prefix ''mash-comm/'' alpn of
              Some r \<Rightarrow> Some r | None \<Rightarrow> strip_prefix ''mash/'' alpn) of
        None \<Rightarrow> Inl NotMash
      | Some suffix \<Rightarrow>
          if suffix = [] then Inl EmptyMajor
          else case parse_uint 10 16 suffix of
            None \<Rightarrow> Inl InvalidMajor | Some n \<Rightarrow> Inr (of_nat n))"

definition SupportedALPNProtocols :: "string list" where
  "SupportedALPNProtocols =
     (case version_parse Current of
        Inr v \<Rightarrow> [ALPNProtocol (sv_major v)] | Inl _ \<Rightarrow> [ALPNProtocol 0])"

text \<open>\<open>checkVersionCompatibility\<close>: true is \<open>nil\<close>, false \<open>ErrIncompatibleVersion\<close>.\<close>

definition check_version_compatibility :: "string \<Rightarrow> bool" where
  "check_version_compatibility s =
     (if s = [] then True
      else case version_parse s of
        Inl _ \<Rightarrow> False
      | Inr v \<Rightarrow>
          (case version_parse Current of
             Inr w \<Rightarrow> version_compatible w v
           | Inl _ \<Rightarrow> version_compatible \<lparr>sv_major = 0, sv_minor = 0\<rparr> v))"

section \<open>Setup codes\<close>

type_synonym setup_code = u32

definition SetupCodeLength :: nat where "SetupCodeLength = 8"
definition SetupCodeMin :: setup_code where "SetupCodeMin = 1"
definition SetupCodeMax :: setup_code where "SetupCodeMax = 99999998"
definition DiscriminatorMax :: nat where "DiscriminatorMax = 0xFFF"

definition InvalidSetupCodes :: "setup_code list" where
  "InvalidSetupCodes = [11111111, 22222222, 33333333, 44444444, 55555555, 66666666, 77777777,
     88888888, 12345678, 87654321]"

text \<open>What is wrapped in \<open>ErrInvalidSetupCode\<close>.\<close>

datatype setup_code_error =
  CodeLength | CodeSyntax | CodeTooLarge | CodeOutOfRange | CodeProhibited

definition ParseSetupCode :: "string \<Rightarrow> setup_code_error + setup_code" where
  "ParseSetupCode s0 =
     (let s = TrimSpace s0
      in if length s \<noteq> SetupCodeLength then Inl CodeLength
         else case parse_uint 10 32 s of
           None \<Rightarrow> Inl CodeSyntax
         | Some n \<Rightarrow> if n > 99999999 then Inl CodeTooLarge else Inr (of_nat n))"

definition setup_code_string :: "setup_code \<Rightarrow> string" where
  "setup_code_string sc = pad 8 (num_string 10 (unat sc))"

definition setup_code_bytes :: "setup_code \<Rightarrow> u8 list" where
  "setup_code_bytes sc = map (\<lambda>c. of_nat (of_char c)) (setup_code_string sc)"

definition setup_code_validate :: "setup_code \<Rightarrow> setup_code_error option" where
  "setup_code_validate sc =
     (if sc < SetupCodeMin \<or> sc > SetupCodeMax then Some CodeOutOfRange
      else if sc \<in> set InvalidSetupCodes then Some CodeProhibited
      else None)"

datatype generate_error = RandomFailed | AttemptsExhausted

text \<open>The loop of \<open>GenerateSetupCode\<close> with \<open>k\<close> attempts left. The draws are the results of
  \<open>rand.Int\<close>, numbers below \<open>SetupCodeMax - SetupCodeMin + 1\<close> or an error.\<close>

fun generate_loop :: "nat \<Rightarrow> (nat \<Rightarrow> nat option) \<Rightarrow> generate_error + setup_code" where
  "generate_loop 0 draws = Inl AttemptsExhausted"
| "generate_loop (Suc k) draws =
     (case draws 0 of
        None \<Rightarrow> Inl RandomFailed
      | Some n \<Rightarrow>
          let sc = of_nat n + SetupCodeMin
          in if setup_code_validate sc = None then Inr sc
             else generate_loop k (\<lambda>i. draws (Suc i)))"

definition GenerateSetupCode :: "(nat \<Rightarrow> nat option) \<Rightarrow> generate_error + setup_code" where
  "GenerateSetupCode draws = generate_loop 10 draws"

section \<open>QR codes with vendor and product\<close>

record qr_code_data =
  qd_version :: int
  qd_discriminator :: u16
  qd_setup_code :: setup_code
  qd_vendor_id :: u16
  qd_product_id :: u16

datatype qr_data_error =
    QdFormat | QdVersion | QdUnsupportedVersion nat | QdDiscriminator | QdDiscriminatorRange
  | QdSetupCode setup_code_error | QdVendor | QdProduct

text \<open>The groups of \<open>qrCodeRegex\<close>: no group matches a colon, so they are the fields between
  the colons.\<close>

definition is_id_field :: "string \<Rightarrow> bool" where
  "is_id_field s \<longleftrightarrow>
     (case strip_prefix ''0x'' s of
        Some r \<Rightarrow> r \<noteq> [] \<and> list_all is_hex r
      | None \<Rightarrow> s \<noteq> [] \<and> list_all is_digit s)"

definition qr_fields :: "string \<Rightarrow> (string \<times> string \<times> string \<times> string \<times> string) option" where
  "qr_fields s =
     (case split_on CHR '':'' s of
        [m, v, d, c, vid, pid] \<Rightarrow>
          if m = ''MASH'' \<and> v \<noteq> [] \<and> list_all is_digit v \<and> d \<noteq> [] \<and> list_all is_digit d \<and>
             length c = 8 \<and> list_all is_digit c \<and> is_id_field vid \<and> is_id_field pid
          then Some (v, d, c, vid, pid) else None
      | _ \<Rightarrow> None)"

definition parseID :: "string \<Rightarrow> nat option" where
  "parseID s =
     (case strip_prefix ''0x'' s of
        Some r \<Rightarrow> parse_uint 16 16 r
      | None \<Rightarrow>
          (case strip_prefix ''0X'' s of
             Some r \<Rightarrow> parse_uint 16 16 r | None \<Rightarrow> parse_uint 10 16 s))"

definition ParseQRCodeData :: "string \<Rightarrow> qr_data_error + qr_code_data" where
  "ParseQRCodeData data =
     (case qr_fields (TrimSpace data) of
        None \<Rightarrow> Inl QdFormat
      | Some (v, d, c, vid, pid) \<Rightarrow>
     (case parse_uint 10 63 v of
        None \<Rightarrow> Inl QdVersion
      | Some version \<Rightarrow>
     if version \<noteq> 1 then Inl (QdUnsupportedVersion version)
     else case parse_uint 10 16 d of
        None \<Rightarrow> Inl QdDiscriminator
      | Some disc \<Rightarrow>
     if disc > DiscriminatorMax then Inl QdDiscriminatorRange
     else case ParseSetupCode c of
        Inl e \<Rightarrow> Inl (QdSetupCode e)
      | Inr sc \<Rightarrow>
     (case parseID vid of
        None \<Rightarrow> Inl QdVendor
      | Some vendor \<Rightarrow>
     (case parseID pid of
        None \<Rightarrow> Inl QdProduct
      | Some product \<Rightarrow>
          Inr \<lparr>qd_version = int version, qd_discriminator = of_nat disc, qd_setup_code = sc,
               qd_vendor_id = of_nat vendor, qd_product_id = of_nat product\<rparr>))))"

definition int_string :: "int \<Rightarrow> string" where
  "int_string n = (if n < 0 then CHR ''-'' # num_string 10 (nat (- n)) else num_string 10 (nat n))"

definition qr_data_string :: "qr_code_data \<Rightarrow> string" where
  "qr_data_string q =
     join_with CHR '':''
       [''MASH'', int_string (qd_version q), num_string 10 (unat (qd_discriminator q)),
        setup_code_string (qd_setup_code q),
        ''0x'' @ pad 4 (num_string 16 (unat (qd_vendor_id q))),
        ''0x'' @ pad 4 (num_string 16 (unat (qd_product_id q)))]"

section \<open>QR codes of discovery\<close>

definition QRPrefix :: string where "QRPrefix = ''MASH:''"
definition QRVersion :: u8 where "QRVersion = 1"
definition MaxDiscriminator :: nat where "MaxDiscriminator = 4095"
definition IDLength :: nat where "IDLength = 16"

datatype discovery_error =
    ErrInvalidQRCode | ErrInvalidPrefix | ErrInvalidVersion | ErrInvalidDiscriminator
  | ErrInvalidSetupCode | ErrInvalidFieldCount | ErrInvalidTXTRecord
  | ErrMissingRequired | ErrInstanceNameTooLong

record qr_code =
  qr_version :: u8
  qr_discriminator :: u16
  qr_setup_code :: string

definition ParseQRCode :: "string \<Rightarrow> discovery_error + qr_code" where
  "ParseQRCode content =
     (if strip_prefix QRPrefix content = None then Inl ErrInvalidPrefix
      else case split_on CHR '':'' content of
        [_, v, d, c] \<Rightarrow>
          (case parse_uint 10 8 v of
             None \<Rightarrow> Inl ErrInvalidVersion
           | Some version \<Rightarrow>
          if version < 1 \<or> version > 255 then Inl ErrInvalidVersion
          else case parse_uint 10 16 d of
             None \<Rightarrow> Inl ErrInvalidDiscriminator
           | Some disc \<Rightarrow>
          if disc > MaxDiscriminator then Inl ErrInvalidDiscriminator
          else if length c \<noteq> SetupCodeLength then Inl ErrInvalidSetupCode
          else if \<not> list_all is_digit c then Inl ErrInvalidSetupCode
          else Inr \<lparr>qr_version = of_nat version, qr_discriminator = of_nat disc,
                    qr_setup_code = c\<rparr>)
      | _ \<Rightarrow> Inl ErrInvalidFieldCount)"

definition qr_string :: "qr_code \<Rightarrow> string" where
  "qr_string q =
     join_with CHR '':''
       [''MASH'', num_string 10 (unat (qr_version q)), num_string 10 (unat (qr_discriminator q)),
        qr_setup_code q]"

definition NewQRCode :: "u16 \<Rightarrow> string \<Rightarrow> discovery_error + qr_code" where
  "NewQRCode disc c =
     (if unat disc > MaxDiscriminator then Inl ErrInvalidDiscriminator
      else if length c \<noteq> SetupCodeLength then Inl ErrInvalidSetupCode
      else if \<not> list_all is_digit c then Inl ErrInvalidSetupCode
      else Inr \<lparr>qr_version = QRVersion, qr_discriminator = disc, qr_setup_code = c\<rparr>)"

definition FormatSetupCode :: "u32 \<Rightarrow> string" where
  "FormatSetupCode c = pad 8 (num_string 10 (unat c))"

text \<open>The arguments are the two big-endian numbers of the random buffer.\<close>

definition GenerateQRCode :: "u16 \<Rightarrow> u32 \<Rightarrow> discovery_error + qr_code" where
  "GenerateQRCode r1 r2 =
     NewQRCode (r1 mod (of_nat MaxDiscriminator + 1)) (FormatSetupCode (r2 mod 100000000))"

definition DiscoveryParseSetupCode :: "string \<Rightarrow> discovery_error + u32" where
  "DiscoveryParseSetupCode s =
     (if length s \<noteq> SetupCodeLength then Inl ErrInvalidSetupCode
      else case parse_uint 10 32 s of
        None \<Rightarrow> Inl ErrInvalidSetupCode | Some n \<Rightarrow> Inr (of_nat n))"

section \<open>Instance names\<close>

definition InstanceNameFromDiscriminator :: "u16 \<Rightarrow> string" where
  "InstanceNameFromDiscriminator d = ''MASH-'' @ num_string 10 (unat d)"

definition DiscriminatorFromInstanceName :: "string \<Rightarrow> discovery_error + u16" where
  "DiscriminatorFromInstanceName name =
     (case strip_prefix ''MASH-'' name of
        None \<Rightarrow> Inl ErrInvalidQRCode
      | Some s \<Rightarrow>
          (case parse_uint 10 16 s of
             None \<Rightarrow> Inl ErrInvalidDiscriminator
           | Some d \<Rightarrow> if d > MaxDiscriminator then Inl ErrInvalidDiscriminator else Inr (of_nat d)))"

definition OperationalInstanceName :: "string \<Rightarrow> string \<Rightarrow> string" where
  "OperationalInstanceName zone dev = zone @ ''-'' @ dev"

definition isHexString :: "string \<Rightarrow> bool" where
  "isHexString s = list_all is_hex s"

definition ParseOperationalInstanceName :: "string \<Rightarrow> discovery_error + (string \<times> string)" where
  "ParseOperationalInstanceName name =
     (case split_first CHR ''-'' name of
        (_, None) \<Rightarrow> Inl ErrInvalidTXTRecord
      | (zone, Some dev) \<Rightarrow>
          if length zone \<noteq> IDLength \<or> length dev \<noteq> IDLength then Inl ErrInvalidTXTRecord
          else if \<not> isHexString zone \<or> \<not> isHexString dev then Inl ErrInvalidTXTRecord
          else Inr (zone, dev))"

section \<open>Lemmas\<close>

lemma unat_bounds [text_simps]:
  "unat (a :: u8) < 256" "unat (b :: u16) < 65536" "unat (c :: u32) < 4294967296"
  using unsigned_less [of a] unsigned_less [of b] unsigned_less [of c] by simp_all

lemma unat_of_nat_eq: "n < 2 ^ LENGTH('a) \<Longrightarrow> unat (of_nat n :: 'a::len word) = n"
  by (simp add: unsigned_of_nat take_bit_nat_eq_self_iff)

lemma not_digit [simp]: "\<not> is_digit CHR ''.''" "\<not> is_digit CHR '':''" "\<not> is_digit CHR '',''"
    "\<not> is_digit CHR ''-''" "\<not> is_hex CHR '':''" "\<not> is_hex CHR ''-''" "\<not> is_digit CHR ''x''"
  by (simp_all add: is_digit_def is_hex_def)

lemma decimal_digits [simp]: "list_all is_digit (num_string 10 n)"
  by (simp add: num_string_digits)

lemma decimal_no_separator [simp]: "\<not> is_digit c \<Longrightarrow> c \<notin> set (num_string 10 n)"
  by (rule digits_no_separator) simp_all

lemma strip_prefix_append [simp]: "strip_prefix p (p @ s) = Some s"
  by (simp add: strip_prefix_def)

lemma strip_prefix_Some: "strip_prefix p s = Some r \<longleftrightarrow> s = p @ r"
  by (auto simp: strip_prefix_def) (metis append_take_drop_id)

lemma ParseSetupCode_string:
  assumes "unat sc \<le> 99999999"
  shows "ParseSetupCode (setup_code_string sc) = Inr sc" and "length (setup_code_string sc) = 8"
    and "list_all is_digit (setup_code_string sc)"
proof -
  have "length (num_string 10 (unat sc)) \<le> Suc 7"
    by (rule length_num_string) (use assms in simp_all)
  then show len: "length (setup_code_string sc) = 8"
    by (simp add: setup_code_string_def length_pad)
  show digits: "list_all is_digit (setup_code_string sc)"
    by (simp add: setup_code_string_def pad_digits)
  have "TrimSpace (setup_code_string sc) = setup_code_string sc"
    by (rule TrimSpace_digits) (use len digits in auto)
  then show "ParseSetupCode (setup_code_string sc) = Inr sc"
    using assms len unat_bounds(3) [of sc]
    by (simp add: ParseSetupCode_def Let_def SetupCodeLength_def)
      (simp add: setup_code_string_def parse_pad_num_string)
qed

lemma setup_code_validate_iff:
  "setup_code_validate sc = None \<longleftrightarrow>
     SetupCodeMin \<le> sc \<and> sc \<le> SetupCodeMax \<and> sc \<notin> set InvalidSetupCodes"
  by (auto simp: setup_code_validate_def not_less)

lemma generate_loop_valid: "generate_loop k draws = Inr sc \<Longrightarrow> setup_code_validate sc = None"
  by (induction k arbitrary: draws) (auto simp: Let_def split: option.splits if_splits)

lemma hex_field_no_separator:
  "\<not> is_hex c \<Longrightarrow> c \<noteq> CHR ''x'' \<Longrightarrow> c \<notin> set (''0x'' @ pad 4 (num_string 16 n))"
proof -
  assume c: "\<not> is_hex c" "c \<noteq> CHR ''x''"
  have zero: "is_hex CHR ''0''" by (simp add: is_hex_def is_digit_def)
  have "list_all is_hex (pad 4 (num_string 16 n))"
    using num_string_hex [of 16 n] zero by (auto simp: pad_def list_all_iff)
  with c zero show ?thesis by (auto simp: list_all_iff)
qed

lemma is_id_field_hex: "is_id_field (''0x'' @ pad 4 (num_string 16 n))"
proof -
  have "is_hex CHR ''0''" by (simp add: is_hex_def is_digit_def)
  then have "list_all is_hex (pad 4 (num_string 16 n))"
    using num_string_hex [of 16 n] by (auto simp: pad_def list_all_iff)
  then show ?thesis
    unfolding is_id_field_def strip_prefix_append by (simp add: pad_def)
qed

lemma parseID_hex: "n < 65536 \<Longrightarrow> parseID (''0x'' @ pad 4 (num_string 16 n)) = Some n"
  unfolding parseID_def strip_prefix_append by (simp add: parse_pad_num_string)

lemma qr_data_string_fields:
  assumes "qd_version q = 1" and "unat (qd_setup_code q) \<le> 99999999"
  shows "qr_fields (TrimSpace (qr_data_string q)) =
    Some (''1'', num_string 10 (unat (qd_discriminator q)), setup_code_string (qd_setup_code q),
      ''0x'' @ pad 4 (num_string 16 (unat (qd_vendor_id q))),
      ''0x'' @ pad 4 (num_string 16 (unat (qd_product_id q))))"
proof -
  let ?parts = "[''MASH'', ''1'', num_string 10 (unat (qd_discriminator q)),
      setup_code_string (qd_setup_code q),
      ''0x'' @ pad 4 (num_string 16 (unat (qd_vendor_id q))),
      ''0x'' @ pad 4 (num_string 16 (unat (qd_product_id q)))]"
  note code = ParseSetupCode_string [OF assms(2)]
  have one: "num_string 10 1 = ''1''" by code_simp
  have s: "qr_data_string q = join_with CHR '':'' ?parts"
    by (simp add: qr_data_string_def assms(1) int_string_def one [simplified])
  have "list_all is_hex (num_string 16 (unat (qd_product_id q)))" by (simp add: num_string_hex)
  then have "is_hex (last (num_string 16 (unat (qd_product_id q))))"
    by (simp add: list_all_iff)
  then have "is_graphic (last (qr_data_string q))"
    by (simp add: s pad_def hex_graphic)
  moreover have "is_graphic (hd (qr_data_string q))"
    by (simp add: s is_graphic_def)
  moreover have "qr_data_string q \<noteq> []" by (simp add: s)
  ultimately have "TrimSpace (qr_data_string q) = qr_data_string q" by (intro TrimSpace_graphic)
  moreover have "split_on CHR '':'' (qr_data_string q) = ?parts"
    unfolding s using hex_field_no_separator [of "CHR '':''"]
      digits_no_separator [OF code(3), of "CHR '':''"]
    by (intro split_join) auto
  ultimately show ?thesis
    using code is_id_field_hex by (simp add: qr_fields_def is_digit_def [of "CHR ''1''"])
qed

lemma qr_data_round_trip:
  assumes "qd_version q = 1" and "unat (qd_discriminator q) \<le> DiscriminatorMax"
    and "unat (qd_setup_code q) \<le> 99999999"
  shows "ParseQRCodeData (qr_data_string q) = Inr q"
proof -
  have one: "parse_uint 10 63 ''1'' = Some 1"
    by (simp add: parse_uint_def digit_value_def Let_def)
  show ?thesis using assms unat_bounds(2)
    unfolding ParseQRCodeData_def qr_data_string_fields [OF assms(1,3)]
    by (simp add: one ParseSetupCode_string parse_num_string parseID_hex del: append_Cons append_Nil)
qed

lemma ParseSetupCode_bound:
  assumes "ParseSetupCode s = Inr sc"
  shows "unat sc \<le> 99999999"
proof -
  from assms obtain n where "n \<le> 99999999" and "sc = of_nat n"
    by (force simp: ParseSetupCode_def Let_def not_less split: if_splits option.splits)
  then show ?thesis by (simp add: unat_of_nat_eq)
qed

lemma ParseQRCodeData_fields:
  assumes "ParseQRCodeData s = Inr q"
  shows "qd_version q = 1 \<and> unat (qd_discriminator q) \<le> DiscriminatorMax \<and>
    unat (qd_setup_code q) \<le> 99999999"
  using assms
  by (auto simp: ParseQRCodeData_def DiscriminatorMax_def unat_of_nat_eq dest!: ParseSetupCode_bound
      split: option.splits prod.splits if_splits sum.splits)

lemma ParseQRCode_fields:
  assumes "ParseQRCode s = Inr q"
  shows "1 \<le> unat (qr_version q) \<and> unat (qr_discriminator q) \<le> MaxDiscriminator \<and>
    length (qr_setup_code q) = 8 \<and> list_all is_digit (qr_setup_code q) \<and>
    (\<exists>m v d. split_on CHR '':'' s = [m, v, d, qr_setup_code q]) \<and>
    strip_prefix QRPrefix s \<noteq> None"
proof -
  from assms obtain m v d c where parts: "split_on CHR '':'' s = [m, v, d, c]"
    and prefix: "strip_prefix QRPrefix s \<noteq> None"
    by (auto simp: ParseQRCode_def split: if_splits list.splits)
  with assms obtain n k where n: "parse_uint 10 8 v = Some n" and k: "parse_uint 10 16 d = Some k"
    and nk: "1 \<le> n" "k \<le> MaxDiscriminator" and c: "length c = 8" "list_all is_digit c"
    and q: "q = \<lparr>qr_version = of_nat n, qr_discriminator = of_nat k, qr_setup_code = c\<rparr>"
    by (auto simp: ParseQRCode_def SetupCodeLength_def split: if_splits option.splits)
  have "n < 256" "k < 65536" using parse_uint_bound [OF n] parse_uint_bound [OF k] by simp_all
  with nk have "unat (of_nat n :: u8) = n" "unat (of_nat k :: u16) = k"
    by (simp_all add: unat_of_nat_eq)
  with nk c parts prefix show ?thesis by (simp add: q)
qed

lemma qr_round_trip:
  assumes "1 \<le> unat (qr_version q)" and "unat (qr_discriminator q) \<le> MaxDiscriminator"
    and "length (qr_setup_code q) = 8" and "list_all is_digit (qr_setup_code q)"
  shows "ParseQRCode (qr_string q) = Inr q"
proof -
  let ?parts = "[''MASH'', num_string 10 (unat (qr_version q)),
      num_string 10 (unat (qr_discriminator q)), qr_setup_code q]"
  have "split_on CHR '':'' (qr_string q) = ?parts"
    unfolding qr_string_def using digits_no_separator [OF assms(4)]
    by (intro split_join) auto
  moreover have "strip_prefix QRPrefix (qr_string q) \<noteq> None"
    by (simp add: qr_string_def QRPrefix_def strip_prefix_def)
  ultimately show ?thesis
    using assms unat_bounds(1) [of "qr_version q"] unat_bounds(2) [of "qr_discriminator q"]
    by (simp add: ParseQRCode_def parse_num_string SetupCodeLength_def less_Suc_eq_le [symmetric])
qed

section \<open>Properties\<close>

text \<open>Printing and parsing agree: every version and every major version in an ALPN name,
  operational or commissioning, is read back; a device is compatible exactly when the major
  version it names is 1, whatever its minor version.\<close>

theorem version_round_trips:
  "version_parse (version_string v) = Inr v \<and>
   MajorFromALPN (ALPNProtocol m) = Inr m \<and>
   MajorFromALPN (''mash-comm/'' @ num_string 10 (unat m)) = Inr m \<and>
   check_version_compatibility (version_string v) = (sv_major v = 1) \<and>
   SupportedALPNProtocols = [''mash/1'']"
proof -
  have parse: "version_parse (version_string v) = Inr v" for v
  proof -
    have "split_on CHR ''.'' (version_string v)
        = [num_string 10 (unat (sv_major v)), num_string 10 (unat (sv_minor v))]"
      by (simp add: version_string_def split_on_append split_on_single)
    moreover have "parse_uint 10 16 (num_string 10 (unat w)) = Some (unat w)" for w :: u16
      using unat_bounds(2) [of w] parse_num_string [of 10 16 "unat w"] by simp
    ultimately show ?thesis unfolding version_parse_def by simp
  qed
  have c: "version_string \<lparr>sv_major = 1, sv_minor = 0\<rparr> = Current" by code_simp
  have current: "version_parse Current = Inr \<lparr>sv_major = 1, sv_minor = 0\<rparr>"
    using parse [of "\<lparr>sv_major = 1, sv_minor = 0\<rparr>"] unfolding c .
  have "version_string v \<noteq> []" by (simp add: version_string_def)
  then have "check_version_compatibility (version_string v) = (sv_major v = 1)"
    by (auto simp: check_version_compatibility_def parse current version_compatible_def)
  moreover have "MajorFromALPN (ALPNProtocol m) = Inr m"
    "MajorFromALPN (''mash-comm/'' @ num_string 10 (unat m)) = Inr m"
    by (simp_all add: MajorFromALPN_def ALPNProtocol_def strip_prefix_def parse_num_string
        unat_bounds)
  moreover have "ALPNProtocol 1 = ''mash/1''" by code_simp
  then have "SupportedALPNProtocols = [''mash/1'']" by (simp add: SupportedALPNProtocols_def current)
  ultimately show ?thesis using parse by blast
qed

text \<open>A generated setup code is in the valid range and not on the list of prohibited
  codes, is printed with exactly eight digits and read back from them.\<close>

theorem generated_codes_valid:
  assumes "GenerateSetupCode draws = Inr sc"
  shows "SetupCodeMin \<le> sc \<and> sc \<le> SetupCodeMax \<and> sc \<notin> set InvalidSetupCodes \<and>
    length (setup_code_string sc) = SetupCodeLength \<and>
    ParseSetupCode (setup_code_string sc) = Inr sc"
proof -
  have "setup_code_validate sc = None"
    using assms generate_loop_valid by (simp add: GenerateSetupCode_def)
  then have valid: "SetupCodeMin \<le> sc" "sc \<le> SetupCodeMax" "sc \<notin> set InvalidSetupCodes"
    by (simp_all add: setup_code_validate_iff)
  from valid(2) have "unat sc \<le> 99999999"
    by (simp add: SetupCodeMax_def word_le_nat_alt)
  with valid ParseSetupCode_string show ?thesis by (simp add: SetupCodeLength_def)
qed

theorem generated_codes_valid_witness:
  "GenerateSetupCode (\<lambda>i. Some (41 + i)) = Inr 42 \<and>
   setup_code_string 42 = ''00000042'' \<and> ParseSetupCode ''00000042'' = Inr 42"
proof -
  have g: "GenerateSetupCode (\<lambda>i. Some (41 + i)) = Inr 42" by code_simp
  moreover have "setup_code_string 42 = ''00000042''" by code_simp
  ultimately show ?thesis using generated_codes_valid [OF g] by simp
qed

text \<open>What either QR code parser accepts has its fields in range and is read back from
  its printed form; no text is accepted by both, so the code that the discovery package
  prints is refused by the commissioning package and the other way round.\<close>

theorem qr_codes:
  shows "(case ParseQRCodeData s of
      Inr q \<Rightarrow> qd_version q = 1 \<and> unat (qd_discriminator q) \<le> 4095 \<and>
        unat (qd_setup_code q) \<le> 99999999 \<and> ParseQRCodeData (qr_data_string q) = Inr q
    | Inl _ \<Rightarrow> True) \<and>
    (case ParseQRCode s of
      Inr q \<Rightarrow> 1 \<le> qr_version q \<and> unat (qr_discriminator q) \<le> 4095 \<and>
        length (qr_setup_code q) = 8 \<and> list_all is_digit (qr_setup_code q) \<and>
        ParseQRCode (qr_string q) = Inr q \<and> ParseQRCodeData s = Inl QdFormat
    | Inl _ \<Rightarrow> True)"
proof (intro conjI)
  show "case ParseQRCodeData s of
      Inr q \<Rightarrow> qd_version q = 1 \<and> unat (qd_discriminator q) \<le> 4095 \<and>
        unat (qd_setup_code q) \<le> 99999999 \<and> ParseQRCodeData (qr_data_string q) = Inr q
    | Inl _ \<Rightarrow> True"
    using ParseQRCodeData_fields qr_data_round_trip
    by (auto simp: DiscriminatorMax_def split: sum.splits)
  have "1 \<le> qr_version q \<and> ParseQRCode (qr_string q) = Inr q \<and> ParseQRCodeData s = Inl QdFormat"
    if q: "ParseQRCode s = Inr q" for q
  proof (intro conjI)
    note fields = ParseQRCode_fields [OF q]
    show "1 \<le> qr_version q" using fields by (simp add: word_le_nat_alt)
    show "ParseQRCode (qr_string q) = Inr q" by (rule qr_round_trip) (use fields in auto)
    from fields obtain m v d where parts: "split_on CHR '':'' s = [m, v, d, qr_setup_code q]"
      by blast
    with join_split [of "CHR '':''" s] have s: "s = m @ CHR '':'' # v @ CHR '':'' # d @ CHR '':'' # qr_setup_code q"
      by simp
    from fields have code: "qr_setup_code q \<noteq> []" and "list_all is_digit (qr_setup_code q)"
      by auto
    then have "is_digit (last (qr_setup_code q))" by (simp add: list_all_iff)
    with code have "is_graphic (last s)" by (simp add: s digit_graphic)
    moreover obtain r where "s = QRPrefix @ r" using fields by (auto simp: strip_prefix_Some)
    then have "is_graphic (hd s)" by (simp add: QRPrefix_def is_graphic_def)
    ultimately have "TrimSpace s = s" by (intro TrimSpace_graphic) (auto simp: s)
    then show "ParseQRCodeData s = Inl QdFormat"
      by (simp add: ParseQRCodeData_def qr_fields_def parts)
  qed
  with ParseQRCode_fields [of s] show "case ParseQRCode s of
      Inr q \<Rightarrow> 1 \<le> qr_version q \<and> unat (qr_discriminator q) \<le> 4095 \<and>
        length (qr_setup_code q) = 8 \<and> list_all is_digit (qr_setup_code q) \<and>
        ParseQRCode (qr_string q) = Inr q \<and> ParseQRCodeData s = Inl QdFormat
    | Inl _ \<Rightarrow> True"
    by (auto simp: MaxDiscriminator_def split: sum.splits)
qed

end
