(* ===== verification/TxtRecords.thy ===== *)
theory TxtRecords
  imports SetupCodes
begin

text \<open>
  The TXT records of the four mDNS services (\<open>pkg/discovery/txtrecord.go\<close> and the info
  structs of \<open>types.go\<close>): encoding, decoding with its checks, and the \<open>key=value\<close> strings
  the mDNS library exchanges. A record map is a Go map; that its order is open matters when
  it is turned into strings.
\<close>

section \<open>Records\<close>

type_synonym txt_map = "(string, string) gomap"

definition TXTKeyDiscriminator :: string where "TXTKeyDiscriminator = ''D''"
definition TXTKeyCategories :: string where "TXTKeyCategories = ''cat''"
definition TXTKeySerial :: string where "TXTKeySerial = ''serial''"
definition TXTKeyBrand :: string where "TXTKeyBrand = ''brand''"
definition TXTKeyModel :: string where "TXTKeyModel = ''model''"
definition TXTKeyDeviceName :: string where "TXTKeyDeviceName = ''DN''"
definition TXTKeyZoneID :: string where "TXTKeyZoneID = ''ZI''"
definition TXTKeyDeviceID :: string where "TXTKeyDeviceID = ''DI''"
definition TXTKeyVendorProd :: string where "TXTKeyVendorProd = ''VP''"
definition TXTKeyFirmware :: string where "TXTKeyFirmware = ''FW''"
definition TXTKeyEndpoints :: string where "TXTKeyEndpoints = ''EP''"
definition TXTKeyZoneName :: string where "TXTKeyZoneName = ''ZN''"
definition TXTKeyDeviceCount :: string where "TXTKeyDeviceCount = ''DC''"

lemmas txt_keys = TXTKeyDiscriminator_def TXTKeyCategories_def TXTKeySerial_def TXTKeyBrand_def
  TXTKeyModel_def TXTKeyDeviceName_def TXTKeyZoneID_def TXTKeyDeviceID_def TXTKeyVendorProd_def
  TXTKeyFirmware_def TXTKeyEndpoints_def TXTKeyZoneName_def TXTKeyDeviceCount_def

record commissionable_info =
  ci_discriminator :: u16
  ci_categories :: "u8 list"
  ci_serial :: string
  ci_brand :: string
  ci_model :: string
  ci_device_name :: string
  ci_port :: u16
  ci_host :: string

record operational_info =
  oi_zone_id :: string
  oi_device_id :: string
  oi_vendor_product :: string
  oi_firmware :: string
  oi_endpoint_count :: u8
  oi_port :: u16
  oi_host :: string

record commissioner_info =
  mi_zone_name :: string
  mi_zone_id :: string
  mi_vendor_product :: string
  mi_controller_name :: string
  mi_device_count :: u8
  mi_port :: u16
  mi_host :: string

record pairing_request_info =
  pi_discriminator :: u16
  pi_zone_id :: string
  pi_zone_name :: string
  pi_host :: string

definition pairing_request_validate :: "pairing_request_info \<Rightarrow> discovery_error option" where
  "pairing_request_validate p =
     (if unat (pi_discriminator p) > MaxDiscriminator then Some ErrInvalidDiscriminator
      else if length (pi_zone_id p) \<noteq> IDLength then Some ErrMissingRequired
      else if \<not> isHexString (pi_zone_id p) then Some ErrInvalidTXTRecord
      else if pi_host p = [] then Some ErrMissingRequired
      else None)"

section \<open>Categories\<close>

definition encodeCategories :: "u8 list \<Rightarrow> string" where
  "encodeCategories cats = join_with CHR '','' (map (\<lambda>c. num_string 10 (unat c)) cats)"

fun parse_category_parts :: "string list \<Rightarrow> discovery_error + u8 list" where
  "parse_category_parts [] = Inr []"
| "parse_category_parts (p0 # ps) =
     (let p = TrimSpace p0
      in if p = [] then parse_category_parts ps
         else case parse_uint 10 8 p of
           None \<Rightarrow> Inl ErrInvalidTXTRecord
         | Some n \<Rightarrow> map_sum id (\<lambda>cats. of_nat n # cats) (parse_category_parts ps))"

definition parseCategories :: "string \<Rightarrow> discovery_error + u8 list" where
  "parseCategories s = (if s = [] then Inr [] else parse_category_parts (split_on CHR '','' s))"

section \<open>Encoding and decoding\<close>

definition put_if :: "bool \<Rightarrow> string \<Rightarrow> string \<Rightarrow> txt_map \<Rightarrow> txt_map" where
  "put_if b k v m = (if b then gm_put k v m else m)"

definition txt_at :: "txt_map \<Rightarrow> string \<Rightarrow> string" where
  "txt_at m k = (case gm_get m k of None \<Rightarrow> [] | Some v \<Rightarrow> v)"

definition parse_discriminator :: "txt_map \<Rightarrow> discovery_error + u16" where
  "parse_discriminator m =
     (case gm_get m TXTKeyDiscriminator of
        None \<Rightarrow> Inl ErrMissingRequired
      | Some s \<Rightarrow>
          (case parse_uint 10 16 s of
             None \<Rightarrow> Inl ErrInvalidDiscriminator
           | Some d \<Rightarrow> if d > MaxDiscriminator then Inl ErrInvalidDiscriminator else Inr (of_nat d)))"

definition parse_id :: "txt_map \<Rightarrow> string \<Rightarrow> discovery_error + string" where
  "parse_id m k =
     (case gm_get m k of
        None \<Rightarrow> Inl ErrMissingRequired
      | Some s \<Rightarrow>
          if length s \<noteq> IDLength then Inl ErrMissingRequired
          else if \<not> isHexString s then Inl ErrInvalidTXTRecord
          else Inr s)"

text \<open>An optional count: an unreadable one is ignored.\<close>

definition parse_count :: "txt_map \<Rightarrow> string \<Rightarrow> u8" where
  "parse_count m k =
     (case gm_get m k of
        None \<Rightarrow> 0
      | Some s \<Rightarrow> (case parse_uint 10 8 s of None \<Rightarrow> 0 | Some n \<Rightarrow> of_nat n))"

definition EncodeCommissionableTXT :: "commissionable_info \<Rightarrow> txt_map" where
  "EncodeCommissionableTXT i =
     put_if (ci_device_name i \<noteq> []) TXTKeyDeviceName (ci_device_name i)
     (gm_put TXTKeyModel (ci_model i)
     (gm_put TXTKeyBrand (ci_brand i)
     (gm_put TXTKeySerial (ci_serial i)
     (gm_put TXTKeyCategories (encodeCategories (ci_categories i))
     (gm_put TXTKeyDiscriminator (num_string 10 (unat (ci_discriminator i))) [])))))"

definition DecodeCommissionableTXT :: "txt_map \<Rightarrow> discovery_error + commissionable_info" where
  "DecodeCommissionableTXT m =
     (case parse_discriminator m of Inl e \<Rightarrow> Inl e | Inr d \<Rightarrow>
     (case gm_get m TXTKeyCategories of None \<Rightarrow> Inl ErrMissingRequired | Some cs \<Rightarrow>
     (case parseCategories cs of Inl e \<Rightarrow> Inl e | Inr cats \<Rightarrow>
     (case gm_get m TXTKeySerial of None \<Rightarrow> Inl ErrMissingRequired | Some serial \<Rightarrow>
     (case gm_get m TXTKeyBrand of None \<Rightarrow> Inl ErrMissingRequired | Some brand \<Rightarrow>
     (case gm_get m TXTKeyModel of None \<Rightarrow> Inl ErrMissingRequired | Some model \<Rightarrow>
        Inr \<lparr>ci_discriminator = d, ci_categories = cats, ci_serial = serial, ci_brand = brand,
             ci_model = model, ci_device_name = txt_at m TXTKeyDeviceName, ci_port = 0,
             ci_host = []\<rparr>))))))"

definition EncodeOperationalTXT :: "operational_info \<Rightarrow> txt_map" where
  "EncodeOperationalTXT i =
     put_if (oi_endpoint_count i > 0) TXTKeyEndpoints (num_string 10 (unat (oi_endpoint_count i)))
     (put_if (oi_firmware i \<noteq> []) TXTKeyFirmware (oi_firmware i)
     (put_if (oi_vendor_product i \<noteq> []) TXTKeyVendorProd (oi_vendor_product i)
     (gm_put TXTKeyDeviceID (oi_device_id i)
     (gm_put TXTKeyZoneID (oi_zone_id i) []))))"

definition DecodeOperationalTXT :: "txt_map \<Rightarrow> discovery_error + operational_info" where
  "DecodeOperationalTXT m =
     (case parse_id m TXTKeyZoneID of Inl e \<Rightarrow> Inl e | Inr zone \<Rightarrow>
     (case parse_id m TXTKeyDeviceID of Inl e \<Rightarrow> Inl e | Inr dev \<Rightarrow>
        Inr \<lparr>oi_zone_id = zone, oi_device_id = dev, oi_vendor_product = txt_at m TXTKeyVendorProd,
             oi_firmware = txt_at m TXTKeyFirmware,
             oi_endpoint_count = parse_count m TXTKeyEndpoints, oi_port = 0, oi_host = []\<rparr>))"

definition EncodeCommissionerTXT :: "commissioner_info \<Rightarrow> txt_map" where
  "EncodeCommissionerTXT i =
     put_if (mi_device_count i > 0) TXTKeyDeviceCount (num_string 10 (unat (mi_device_count i)))
     (put_if (mi_controller_name i \<noteq> []) TXTKeyDeviceName (mi_controller_name i)
     (put_if (mi_vendor_product i \<noteq> []) TXTKeyVendorProd (mi_vendor_product i)
     (gm_put TXTKeyZoneID (mi_zone_id i)
     (gm_put TXTKeyZoneName (mi_zone_name i) []))))"

definition DecodeCommissionerTXT :: "txt_map \<Rightarrow> discovery_error + commissioner_info" where
  "DecodeCommissionerTXT m =
     (case gm_get m TXTKeyZoneName of None \<Rightarrow> Inl ErrMissingRequired | Some name \<Rightarrow>
     (if name = [] then Inl ErrMissingRequired
      else case parse_id m TXTKeyZoneID of Inl e \<Rightarrow> Inl e | Inr zone \<Rightarrow>
        Inr \<lparr>mi_zone_name = name, mi_zone_id = zone,
             mi_vendor_product = txt_at m TXTKeyVendorProd,
             mi_controller_name = txt_at m TXTKeyDeviceName,
             mi_device_count = parse_count m TXTKeyDeviceCount, mi_port = 0, mi_host = []\<rparr>))"

definition EncodePairingRequestTXT :: "pairing_request_info \<Rightarrow> txt_map" where
  "EncodePairingRequestTXT i =
     put_if (pi_zone_name i \<noteq> []) TXTKeyZoneName (pi_zone_name i)
     (gm_put TXTKeyZoneID (pi_zone_id i)
     (gm_put TXTKeyDiscriminator (num_string 10 (unat (pi_discriminator i))) []))"

definition DecodePairingRequestTXT :: "txt_map \<Rightarrow> discovery_error + pairing_request_info" where
  "DecodePairingRequestTXT m =
     (case parse_discriminator m of Inl e \<Rightarrow> Inl e | Inr d \<Rightarrow>
     (case parse_id m TXTKeyZoneID of Inl e \<Rightarrow> Inl e | Inr zone \<Rightarrow>
        Inr \<lparr>pi_discriminator = d, pi_zone_id = zone, pi_zone_name = txt_at m TXTKeyZoneName,
             pi_host = []\<rparr>))"

section \<open>Strings and names\<close>

definition TXTRecordsToStrings :: "txt_map \<Rightarrow> string list" where
  "TXTRecordsToStrings m = map (\<lambda>(k, v). k @ ''='' @ v) m"

definition put_string :: "txt_map \<Rightarrow> string \<Rightarrow> txt_map" where
  "put_string m s =
     (case split_first CHR ''='' s of
        (k, Some v) \<Rightarrow> gm_put k v m
      | (k, None) \<Rightarrow> if k \<noteq> [] then gm_put k [] m else m)"

definition StringsToTXTRecords :: "string list \<Rightarrow> txt_map" where
  "StringsToTXTRecords ss = foldl put_string [] ss"

definition ValidateInstanceName :: "string \<Rightarrow> discovery_error option" where
  "ValidateInstanceName name =
     (if name = [] then Some ErrInstanceNameTooLong
      else if length name > 63 then Some ErrInstanceNameTooLong else None)"

definition PairingRequestInstanceName :: "string \<Rightarrow> u16 \<Rightarrow> string" where
  "PairingRequestInstanceName zone d = zone @ ''-'' @ num_string 10 (unat d)"

text \<open>\<open>strings.LastIndex(name, "-")\<close> with the two parts around it.\<close>

definition split_last :: "char \<Rightarrow> string \<Rightarrow> (string \<times> string) option" where
  "split_last c s =
     (case split_first c (rev s) of
        (_, None) \<Rightarrow> None | (p, Some r) \<Rightarrow> Some (rev r, rev p))"

definition ParsePairingRequestInstanceName :: "string \<Rightarrow> discovery_error + (string \<times> u16)" where
  "ParsePairingRequestInstanceName name =
     (case split_last CHR ''-'' name of
        None \<Rightarrow> Inl ErrInvalidTXTRecord
      | Some (zone, ds) \<Rightarrow>
          if zone = [] \<or> ds = [] then Inl ErrInvalidTXTRecord
          else if length zone \<noteq> IDLength then Inl ErrInvalidTXTRecord
          else if \<not> isHexString zone then Inl ErrInvalidTXTRecord
          else case parse_uint 10 16 ds of
            None \<Rightarrow> Inl ErrInvalidDiscriminator
          | Some d \<Rightarrow>
              if d > MaxDiscriminator then Inl ErrInvalidDiscriminator else Inr (zone, of_nat d))"

section \<open>Lemmas\<close>

lemma parse_category_parts_encode:
  "parse_category_parts (map (\<lambda>c. num_string 10 (unat c)) cats) = Inr cats"
proof (induction cats)
  case (Cons c cats)
  have "parse_uint 10 8 (num_string 10 (unat c)) = Some (unat c)"
    using unat_bounds(1) [of c] parse_num_string [of 10 8 "unat c"] by simp
  with Cons show ?case by (simp add: Let_def TrimSpace_digits)
qed simp

lemma parseCategories_encode: "parseCategories (encodeCategories cats) = Inr cats"
proof (cases cats)
  case Nil
  then show ?thesis by (simp add: encodeCategories_def parseCategories_def)
next
  case (Cons c cs)
  have "encodeCategories cats \<noteq> []" using Cons by (cases cs) (simp_all add: encodeCategories_def)
  moreover have "split_on CHR '','' (encodeCategories cats) = map (\<lambda>c. num_string 10 (unat c)) cats"
    unfolding encodeCategories_def using Cons by (intro split_join) auto
  ultimately show ?thesis by (simp add: parseCategories_def parse_category_parts_encode)
qed

text \<open>What the strings of a record map give back, in whatever order they were made.\<close>

lemma put_string_entry: "CHR ''='' \<notin> set k \<Longrightarrow> put_string m (k @ ''='' @ v) = gm_put k v m"
  by (simp add: put_string_def split_first_append)

lemma strings_fold:
  assumes "gm_wf (acc @ m)" and "\<And>k. gm_get m k \<noteq> None \<Longrightarrow> CHR ''='' \<notin> set k"
  shows "foldl put_string acc (TXTRecordsToStrings m) = acc @ m"
  using assms
proof (induction m arbitrary: acc)
  case Nil
  then show ?case by (simp add: TXTRecordsToStrings_def)
next
  case (Cons e m)
  obtain k v where e: "e = (k, v)" by (cases e)
  from Cons.prems(1) have new: "gm_get acc k = None" and wf: "gm_wf ((acc @ [(k, v)]) @ m)"
    by (auto simp: e gm_wf_def map_of_eq_None_iff)
  have "CHR ''='' \<notin> set k" by (rule Cons.prems(2)) (simp add: e)
  from put_string_entry [OF this] have "put_string acc (k @ ''='' @ v) = acc @ [(k, v)]"
    by (simp add: gm_put_new [OF new])
  moreover have "CHR ''='' \<notin> set k'" if "gm_get m k' \<noteq> None" for k'
    by (rule Cons.prems(2)) (use that in \<open>auto simp: e\<close>)
  ultimately show ?case using Cons.IH [OF wf] by (simp add: TXTRecordsToStrings_def e)
qed

lemma strings_round_trip:
  "gm_wf m \<Longrightarrow> (\<And>k. gm_get m k \<noteq> None \<Longrightarrow> CHR ''='' \<notin> set k) \<Longrightarrow>
   StringsToTXTRecords (TXTRecordsToStrings m) = m"
  using strings_fold [of "[]" m] by (simp add: StringsToTXTRecords_def)

lemma parse_disc_num:
  "unat (d :: u16) \<le> MaxDiscriminator \<Longrightarrow>
   gm_get m TXTKeyDiscriminator = Some (num_string 10 (unat d)) \<Longrightarrow> parse_discriminator m = Inr d"
  using unat_bounds(2) [of d] parse_num_string [of 10 16 "unat d"]
  by (simp add: parse_discriminator_def)

lemma parse_count_num:
  "gm_get m k = (if c > 0 then Some (num_string 10 (unat c)) else None) \<Longrightarrow> parse_count m k = c"
  using unat_bounds(1) [of c] parse_num_string [of 10 8 "unat c"]
  by (auto simp: parse_count_def word_gt_0 split: if_splits)

lemma get_put_if: "gm_get (put_if b k v m) = (if b then (gm_get m)(k \<mapsto> v) else gm_get m)"
  by (simp add: put_if_def gomap_simps)

lemma id_at: "gm_get m k = Some s \<Longrightarrow> length s = 16 \<Longrightarrow> isHexString s \<Longrightarrow> parse_id m k = Inr s"
  by (simp add: parse_id_def IDLength_def)

lemma decode_commissionable:
  assumes "gm_get m = gm_get (EncodeCommissionableTXT c)" and "unat (ci_discriminator c) \<le> 4095"
  shows "DecodeCommissionableTXT m = Inr (c\<lparr>ci_port := 0, ci_host := []\<rparr>)"
proof -
  have "parse_discriminator m = Inr (ci_discriminator c)"
    by (rule parse_disc_num) (use assms in \<open>simp_all add: MaxDiscriminator_def
        EncodeCommissionableTXT_def get_put_if gomap_simps txt_keys\<close>)
  then show ?thesis
    by (simp add: DecodeCommissionableTXT_def assms(1) EncodeCommissionableTXT_def get_put_if
        gomap_simps txt_keys parseCategories_encode txt_at_def)
qed

lemma decode_operational:
  assumes "gm_get m = gm_get (EncodeOperationalTXT i)"
    and "length (oi_zone_id i) = 16" "isHexString (oi_zone_id i)"
    and "length (oi_device_id i) = 16" "isHexString (oi_device_id i)"
  shows "DecodeOperationalTXT m = Inr (i\<lparr>oi_port := 0, oi_host := []\<rparr>)"
proof -
  note get = assms(1) EncodeOperationalTXT_def get_put_if gomap_simps txt_keys
  have "parse_id m TXTKeyZoneID = Inr (oi_zone_id i)" "parse_id m TXTKeyDeviceID = Inr (oi_device_id i)"
    by (rule id_at; use assms in \<open>simp add: get\<close>)+
  moreover have "parse_count m TXTKeyEndpoints = oi_endpoint_count i"
    by (rule parse_count_num) (simp add: get)
  ultimately show ?thesis
    by (simp add: DecodeOperationalTXT_def txt_at_def get)
qed

lemma decode_commissioner:
  assumes "gm_get m = gm_get (EncodeCommissionerTXT z)" and "mi_zone_name z \<noteq> []"
    and "length (mi_zone_id z) = 16" "isHexString (mi_zone_id z)"
  shows "DecodeCommissionerTXT m = Inr (z\<lparr>mi_port := 0, mi_host := []\<rparr>)"
proof -
  note get = assms(1) EncodeCommissionerTXT_def get_put_if gomap_simps txt_keys
  have "parse_id m TXTKeyZoneID = Inr (mi_zone_id z)"
    by (rule id_at) (use assms in \<open>simp_all add: get\<close>)
  moreover have "parse_count m TXTKeyDeviceCount = mi_device_count z"
    by (rule parse_count_num) (simp add: get)
  ultimately show ?thesis using assms(2)
    by (simp add: DecodeCommissionerTXT_def txt_at_def get)
qed

lemma pairing_valid:
  "pairing_request_validate p = None \<longleftrightarrow> unat (pi_discriminator p) \<le> MaxDiscriminator \<and>
     length (pi_zone_id p) = 16 \<and> isHexString (pi_zone_id p) \<and> pi_host p \<noteq> []"
  by (auto simp: pairing_request_validate_def IDLength_def)

lemma decode_pairing:
  assumes "gm_get m = gm_get (EncodePairingRequestTXT p)" and "pairing_request_validate p = None"
  shows "DecodePairingRequestTXT m = Inr (p\<lparr>pi_host := []\<rparr>)"
proof -
  note get = assms(1) EncodePairingRequestTXT_def get_put_if gomap_simps txt_keys
  have "parse_id m TXTKeyZoneID = Inr (pi_zone_id p)"
    by (rule id_at) (use assms in \<open>simp_all add: get pairing_valid\<close>)
  moreover have "parse_discriminator m = Inr (pi_discriminator p)"
    by (rule parse_disc_num) (use assms in \<open>simp_all add: get pairing_valid\<close>)
  ultimately show ?thesis by (simp add: DecodePairingRequestTXT_def txt_at_def get)
qed

lemma pairing_name:
  assumes "pairing_request_validate p = None"
  shows "ParsePairingRequestInstanceName (PairingRequestInstanceName (pi_zone_id p) (pi_discriminator p))
    = Inr (pi_zone_id p, pi_discriminator p)"
proof -
  let ?d = "num_string 10 (unat (pi_discriminator p))"
  have "CHR ''-'' \<notin> set (rev ?d)" by simp
  from split_first_append [OF this, of "rev (pi_zone_id p)"]
  have "split_last CHR ''-'' (pi_zone_id p @ ''-'' @ ?d) = Some (pi_zone_id p, ?d)"
    by (simp add: split_last_def)
  moreover have "parse_uint 10 16 ?d = Some (unat (pi_discriminator p))"
    using unat_bounds(2) parse_num_string [of 10 16 "unat (pi_discriminator p)"] by simp
  ultimately show ?thesis using assms unfolding pairing_valid
    by (auto simp: ParsePairingRequestInstanceName_def PairingRequestInstanceName_def IDLength_def)
qed

lemma put_if_keys: "gm_get (put_if b k' v m) k \<noteq> None \<Longrightarrow> k = k' \<or> gm_get m k \<noteq> None"
  by (auto simp: put_if_def gomap_simps split: if_splits)

lemma put_keys: "gm_get (gm_put k' v m) k \<noteq> None \<Longrightarrow> k = k' \<or> gm_get m k \<noteq> None"
  by (auto simp: gomap_simps split: if_splits)

lemma no_key: "gm_get [] k \<noteq> None \<Longrightarrow> P"
  by simp

lemma encoded_keys:
  "gm_get (EncodeCommissionableTXT c) k \<noteq> None \<Longrightarrow> CHR ''='' \<notin> set k"
  "gm_get (EncodeOperationalTXT i) k \<noteq> None \<Longrightarrow> CHR ''='' \<notin> set k"
  "gm_get (EncodeCommissionerTXT z) k \<noteq> None \<Longrightarrow> CHR ''='' \<notin> set k"
  "gm_get (EncodePairingRequestTXT p) k \<noteq> None \<Longrightarrow> CHR ''='' \<notin> set k"
  unfolding EncodeCommissionableTXT_def EncodeOperationalTXT_def EncodeCommissionerTXT_def
    EncodePairingRequestTXT_def
  by ((drule put_if_keys put_keys | erule disjE no_key | simp only: txt_keys)+, simp?)+

section \<open>Properties\<close>

text \<open>What a service advertises is what a browser decodes, in whatever order the record
  map is turned into strings: the advertised fields come back from the strings for a
  discriminator of 12 bits, for identifiers of 16 hexadecimal digits and a zone name, and
  the host and port, which travel in other records, come back empty.\<close>

theorem txt_records_round_trip:
  assumes "gm_wf m"
  shows "(gm_get m = gm_get (EncodeCommissionableTXT c) \<and> unat (ci_discriminator c) \<le> 4095 \<longrightarrow>
      DecodeCommissionableTXT (StringsToTXTRecords (TXTRecordsToStrings m))
        = Inr (c\<lparr>ci_port := 0, ci_host := []\<rparr>)) \<and>
    (gm_get m = gm_get (EncodeOperationalTXT i) \<and>
      length (oi_zone_id i) = 16 \<and> isHexString (oi_zone_id i) \<and>
      length (oi_device_id i) = 16 \<and> isHexString (oi_device_id i) \<longrightarrow>
      DecodeOperationalTXT (StringsToTXTRecords (TXTRecordsToStrings m))
        = Inr (i\<lparr>oi_port := 0, oi_host := []\<rparr>)) \<and>
    (gm_get m = gm_get (EncodeCommissionerTXT z) \<and> mi_zone_name z \<noteq> [] \<and>
      length (mi_zone_id z) = 16 \<and> isHexString (mi_zone_id z) \<longrightarrow>
      DecodeCommissionerTXT (StringsToTXTRecords (TXTRecordsToStrings m))
        = Inr (z\<lparr>mi_port := 0, mi_host := []\<rparr>)) \<and>
    (gm_get m = gm_get (EncodePairingRequestTXT p) \<and> pairing_request_validate p = None \<longrightarrow>
      DecodePairingRequestTXT (StringsToTXTRecords (TXTRecordsToStrings m))
        = Inr (p\<lparr>pi_host := []\<rparr>) \<and>
      ParsePairingRequestInstanceName (PairingRequestInstanceName (pi_zone_id p) (pi_discriminator p))
        = Inr (pi_zone_id p, pi_discriminator p))"
proof (intro conjI impI; elim conjE)
  have strings: "StringsToTXTRecords (TXTRecordsToStrings m) = m"
    if "gm_get m \<in> {gm_get (EncodeCommissionableTXT c), gm_get (EncodeOperationalTXT i),
      gm_get (EncodeCommissionerTXT z), gm_get (EncodePairingRequestTXT p)}"
  proof (rule strings_round_trip [OF assms])
    fix k
    assume "gm_get m k \<noteq> None"
    with that encoded_keys [where k = k] show "CHR ''='' \<notin> set k" by (metis insertE singletonD)
  qed
  note rules = strings [simplified] decode_commissionable decode_operational decode_commissioner
    decode_pairing pairing_name
  {
    assume "gm_get m = gm_get (EncodeCommissionableTXT c)" "unat (ci_discriminator c) \<le> 4095"
    then show "DecodeCommissionableTXT (StringsToTXTRecords (TXTRecordsToStrings m))
        = Inr (c\<lparr>ci_port := 0, ci_host := []\<rparr>)" by (simp add: rules)
  next
    assume "gm_get m = gm_get (EncodeOperationalTXT i)"
      "length (oi_zone_id i) = 16" "isHexString (oi_zone_id i)"
      "length (oi_device_id i) = 16" "isHexString (oi_device_id i)"
    then show "DecodeOperationalTXT (StringsToTXTRecords (TXTRecordsToStrings m))
        = Inr (i\<lparr>oi_port := 0, oi_host := []\<rparr>)" by (simp add: rules)
  next
    assume "gm_get m = gm_get (EncodeCommissionerTXT z)" "mi_zone_name z \<noteq> []"
      "length (mi_zone_id z) = 16" "isHexString (mi_zone_id z)"
    then show "DecodeCommissionerTXT (StringsToTXTRecords (TXTRecordsToStrings m))
        = Inr (z\<lparr>mi_port := 0, mi_host := []\<rparr>)" by (simp add: rules)
  next
    assume "gm_get m = gm_get (EncodePairingRequestTXT p)" "pairing_request_validate p = None"
    then show "DecodePairingRequestTXT (StringsToTXTRecords (TXTRecordsToStrings m))
        = Inr (p\<lparr>pi_host := []\<rparr>)"
      and "ParsePairingRequestInstanceName
          (PairingRequestInstanceName (pi_zone_id p) (pi_discriminator p))
        = Inr (pi_zone_id p, pi_discriminator p)" by (simp_all add: rules)
  }
qed

theorem txt_records_round_trip_witness:
  "DecodeCommissionableTXT (StringsToTXTRecords
     [''serial=S=1'', ''model='', ''D=7'', ''cat=3,5'', ''brand=b''])
   = Inr \<lparr>ci_discriminator = 7, ci_categories = [3, 5], ci_serial = ''S=1'', ci_brand = ''b'',
      ci_model = [], ci_device_name = [], ci_port = 0, ci_host = []\<rparr>"
proof -
  let ?c = "\<lparr>ci_discriminator = 7, ci_categories = [3, 5], ci_serial = ''S=1'', ci_brand = ''b'',
      ci_model = [], ci_device_name = [], ci_port = 1, ci_host = ''h''\<rparr>"
  let ?m = "[(''serial'', ''S=1''), (''model'', []), (''D'', ''7''), (''cat'', ''3,5''), (''brand'', ''b'')]"
  have "num_string 10 7 = ''7''" "encodeCategories [3, 5] = ''3,5''" by code_simp+
  then have "gm_get ?m = gm_get (EncodeCommissionableTXT ?c)"
    by (auto simp: EncodeCommissionableTXT_def get_put_if gomap_simps txt_keys fun_eq_iff)
  moreover have "gm_wf ?m" by (simp add: gm_wf_def)
  ultimately show ?thesis
    using txt_records_round_trip [of ?m ?c] by (simp add: TXTRecordsToStrings_def)
qed


end
