(* ===== verification/KeepAlive.thy ===== *)
theory KeepAlive
  imports Prelude
begin

text \<open>
  The liveness monitor of a connection (\<open>pkg/transport/keepalive.go\<close>). The loop of the
  code is a goroutine that waits for the ticker, for a pong that \<open>PongReceived\<close> put into
  the channel of capacity 1, and for the end; here each of these is a step. The current time
  and the success of the send function are arguments of the steps, the calls of the
  callbacks are outputs.
\<close>

section \<open>State and operations\<close>

definition DefaultPingInterval :: duration where "DefaultPingInterval = 30 * second"
definition DefaultPongTimeout :: duration where "DefaultPongTimeout = 5 * second"
definition DefaultMaxMissedPongs :: int where "DefaultMaxMissedPongs = 3"
definition MaxDetectionDelay :: duration where "MaxDetectionDelay = 95 * second"

record keep_alive_config =
  kc_interval :: duration
  kc_timeout :: duration
  kc_max_missed :: int

definition DefaultKeepAliveConfig :: keep_alive_config where
  "DefaultKeepAliveConfig =
     \<lparr>kc_interval = DefaultPingInterval, kc_timeout = DefaultPongTimeout,
      kc_max_missed = DefaultMaxMissedPongs\<rparr>"

definition detection_delay :: "keep_alive_config \<Rightarrow> duration" where
  "detection_delay c = kc_interval c * kc_max_missed c + kc_timeout c"

record keep_alive =
  ka_config :: keep_alive_config
  ka_on_timeout :: bool
  ka_on_pong :: bool
  ka_sequence :: u32
  ka_missed :: int
  ka_last_ping :: time
  ka_last_pong :: time
  ka_pending_ping :: u32
  ka_has_pending :: bool
  ka_running :: bool
  ka_pong_ch :: "u32 option"

datatype ka_event =
    SendPing u32
  | OnTimeout
  | OnPongReceived u32 duration

definition new_keep_alive :: "keep_alive_config \<Rightarrow> bool \<Rightarrow> keep_alive" where
  "new_keep_alive c on_timeout =
     \<lparr>ka_config =
        \<lparr>kc_interval = (if kc_interval c = 0 then DefaultPingInterval else kc_interval c),
         kc_timeout = (if kc_timeout c = 0 then DefaultPongTimeout else kc_timeout c),
         kc_max_missed = (if kc_max_missed c = 0 then DefaultMaxMissedPongs else kc_max_missed c)\<rparr>,
      ka_on_timeout = on_timeout, ka_on_pong = False, ka_sequence = 0, ka_missed = 0,
      ka_last_ping = zero_time, ka_last_pong = zero_time, ka_pending_ping = 0,
      ka_has_pending = False, ka_running = False, ka_pong_ch = None\<rparr>"

definition set_pong_received_callback :: "bool \<Rightarrow> keep_alive \<Rightarrow> keep_alive" where
  "set_pong_received_callback b ka = ka\<lparr>ka_on_pong := b\<rparr>"

definition send_ping_message :: "time \<Rightarrow> bool \<Rightarrow> keep_alive \<Rightarrow> keep_alive \<times> ka_event list" where
  "send_ping_message now ok ka =
     (let i = ka_sequence ka + 1;
          ka1 = ka\<lparr>ka_sequence := i, ka_last_ping := now, ka_pending_ping := i, ka_has_pending := True\<rparr>
      in (if ok then ka1 else ka1\<lparr>ka_has_pending := False\<rparr>, [SendPing i]))"

definition handle_tick :: "time \<Rightarrow> bool \<Rightarrow> keep_alive \<Rightarrow> keep_alive \<times> ka_event list" where
  "handle_tick now ok ka =
     (if ka_has_pending ka \<and> now - ka_last_ping ka \<ge> kc_timeout (ka_config ka)
      then
        let ka1 = ka\<lparr>ka_missed := ka_missed ka + 1, ka_has_pending := False\<rparr>
        in if ka_missed ka1 \<ge> kc_max_missed (ka_config ka)
           then (ka1, if ka_on_timeout ka then [OnTimeout] else [])
           else send_ping_message now ok ka1
      else send_ping_message now ok ka)"

definition handle_pong :: "time \<Rightarrow> u32 \<Rightarrow> keep_alive \<Rightarrow> keep_alive \<times> ka_event list" where
  "handle_pong now i ka =
     (let ka1 = ka\<lparr>ka_last_pong := now\<rparr>
      in if ka_has_pending ka \<and> i = ka_pending_ping ka
         then (ka1\<lparr>ka_has_pending := False, ka_missed := 0\<rparr>,
               if ka_on_pong ka then [OnPongReceived i (now - ka_last_ping ka)] else [])
         else (ka1, []))"

text \<open>The result of \<open>Start\<close> is whether it starts the loop, which sends a ping first.\<close>

definition ka_start :: "keep_alive \<Rightarrow> keep_alive \<times> bool" where
  "ka_start ka = (if ka_running ka then (ka, False) else (ka\<lparr>ka_running := True\<rparr>, True))"

definition ka_stop :: "keep_alive \<Rightarrow> keep_alive" where
  "ka_stop ka = (if \<not> ka_running ka then ka else ka\<lparr>ka_running := False\<rparr>)"

definition pong_received :: "u32 \<Rightarrow> keep_alive \<Rightarrow> keep_alive" where
  "pong_received i ka =
     (case ka_pong_ch ka of None \<Rightarrow> ka\<lparr>ka_pong_ch := Some i\<rparr> | Some _ \<Rightarrow> ka)"

record keep_alive_stats =
  ks_last_ping :: time
  ks_last_pong :: time
  ks_missed :: int
  ks_sequence :: u32

definition ka_stats :: "keep_alive \<Rightarrow> keep_alive_stats" where
  "ka_stats ka =
     \<lparr>ks_last_ping = ka_last_ping ka, ks_last_pong = ka_last_pong ka,
      ks_missed = ka_missed ka, ks_sequence = ka_sequence ka\<rparr>"

section \<open>Runs of the loop\<close>

datatype ka_op =
    KaPongReceived u32
  | KaTick time bool
  | KaTakePong time

text \<open>One round of the \<open>select\<close>, or a call of \<open>PongReceived\<close> from outside.\<close>

fun ka_step :: "keep_alive \<Rightarrow> ka_op \<Rightarrow> keep_alive \<times> ka_event list" where
  "ka_step ka (KaPongReceived i) = (pong_received i ka, [])"
| "ka_step ka (KaTick now ok) = handle_tick now ok ka"
| "ka_step ka (KaTakePong now) =
     (case ka_pong_ch ka of
        None \<Rightarrow> (ka, [])
      | Some i \<Rightarrow> handle_pong now i (ka\<lparr>ka_pong_ch := None\<rparr>))"

fun ka_run :: "keep_alive \<Rightarrow> ka_op list \<Rightarrow> keep_alive \<times> ka_event list" where
  "ka_run ka [] = (ka, [])"
| "ka_run ka (e # es) =
     (let r = ka_step ka e; q = ka_run (fst r) es in (fst q, snd r @ snd q))"

text \<open>Ticks at the given times without a pong; each ping is sent with success.\<close>

abbreviation silent :: "time list \<Rightarrow> ka_op list" where
  "silent ts \<equiv> map (\<lambda>t. KaTick t True) ts"

text \<open>The times are at least \<open>d\<close> apart, the first one from \<open>t\<close>.\<close>

fun spaced :: "duration \<Rightarrow> time \<Rightarrow> time list \<Rightarrow> bool" where
  "spaced d t [] = True"
| "spaced d t (u # us) \<longleftrightarrow> t + d \<le> u \<and> spaced d u us"

lemma tick_missed:
  assumes "ka_has_pending ka" and "kc_timeout (ka_config ka) \<le> now - ka_last_ping ka"
  shows "handle_tick now True ka =
    (if ka_missed ka + 1 \<ge> kc_max_missed (ka_config ka)
     then (ka\<lparr>ka_missed := ka_missed ka + 1, ka_has_pending := False\<rparr>,
           if ka_on_timeout ka then [OnTimeout] else [])
     else (ka\<lparr>ka_missed := ka_missed ka + 1, ka_sequence := ka_sequence ka + 1,
             ka_last_ping := now, ka_pending_ping := ka_sequence ka + 1, ka_has_pending := True\<rparr>,
           [SendPing (ka_sequence ka + 1)]))"
  using assms by (simp add: handle_tick_def send_ping_message_def Let_def)

lemma tick_idle:
  assumes "\<not> ka_has_pending ka"
  shows "handle_tick now True ka =
    (ka\<lparr>ka_sequence := ka_sequence ka + 1, ka_last_ping := now,
        ka_pending_ping := ka_sequence ka + 1, ka_has_pending := True\<rparr>,
     [SendPing (ka_sequence ka + 1)])"
  using assms by (simp add: handle_tick_def send_ping_message_def Let_def)

lemma silent_pending:
  assumes "ka_has_pending ka" and "spaced (kc_interval (ka_config ka)) (ka_last_ping ka) ts"
    and "kc_timeout (ka_config ka) \<le> kc_interval (ka_config ka)" and "ka_on_timeout ka"
    and "ka_missed ka < kc_max_missed (ka_config ka)"
  shows "OnTimeout \<in> set (snd (ka_run ka (silent ts))) \<longleftrightarrow>
    nat (kc_max_missed (ka_config ka) - ka_missed ka) \<le> length ts"
  using assms
proof (induction ts arbitrary: ka)
  case Nil
  then show ?case by simp
next
  case (Cons t ts)
  let ?ka = "ka\<lparr>ka_missed := ka_missed ka + 1, ka_sequence := ka_sequence ka + 1,
             ka_last_ping := t, ka_pending_ping := ka_sequence ka + 1, ka_has_pending := True\<rparr>"
  from Cons.prems have "kc_timeout (ka_config ka) \<le> t - ka_last_ping ka" by simp
  note tick = tick_missed [OF Cons.prems(1) this]
  show ?case
  proof (cases "ka_missed ka + 1 \<ge> kc_max_missed (ka_config ka)")
    case True
    with tick Cons.prems show ?thesis by (simp add: Let_def)
  next
    case False
    have "OnTimeout \<in> set (snd (ka_run ?ka (silent ts))) \<longleftrightarrow>
        nat (kc_max_missed (ka_config ?ka) - ka_missed ?ka) \<le> length ts"
      by (rule Cons.IH) (use Cons.prems False in simp_all)
    with tick False show ?thesis by (auto simp: Let_def)
  qed
qed

section \<open>Properties\<close>

text \<open>A peer that has become silent is detected: with pings that are sent and a pong
  timeout not above the interval, the timeout callback runs exactly when the missed pongs
  have reached the limit, one more per tick, from the next tick on when a ping is pending
  and one tick later otherwise; in every case within one tick more than the limit.\<close>

theorem silent_peer_detected:
  assumes "kc_timeout (ka_config ka) \<le> kc_interval (ka_config ka)" and "ka_on_timeout ka"
    and "0 \<le> ka_missed ka" and "ka_missed ka < kc_max_missed (ka_config ka)"
    and "spaced (kc_interval (ka_config ka)) (ka_last_ping ka) ts"
  shows "(OnTimeout \<in> set (snd (ka_run ka (silent ts))) \<longleftrightarrow>
      nat (kc_max_missed (ka_config ka) - ka_missed ka) + (if ka_has_pending ka then 0 else 1)
        \<le> length ts) \<and>
    (nat (kc_max_missed (ka_config ka)) < length ts \<longrightarrow>
      OnTimeout \<in> set (snd (ka_run ka (silent ts))))"
proof -
  have "OnTimeout \<in> set (snd (ka_run ka (silent ts))) \<longleftrightarrow>
      nat (kc_max_missed (ka_config ka) - ka_missed ka) + (if ka_has_pending ka then 0 else 1)
        \<le> length ts"
  proof (cases "ka_has_pending ka")
    case True
    with silent_pending assms show ?thesis by simp
  next
    case False
    show ?thesis
    proof (cases ts)
      case Nil
      with False show ?thesis by simp
    next
      case (Cons t us)
      let ?ka = "ka\<lparr>ka_sequence := ka_sequence ka + 1, ka_last_ping := t,
        ka_pending_ping := ka_sequence ka + 1, ka_has_pending := True\<rparr>"
      have "OnTimeout \<in> set (snd (ka_run ?ka (silent us))) \<longleftrightarrow>
          nat (kc_max_missed (ka_config ?ka) - ka_missed ?ka) \<le> length us"
        by (rule silent_pending) (use assms Cons in simp_all)
      with Cons False show ?thesis by (simp add: tick_idle Let_def)
    qed
  qed
  with assms show ?thesis by auto
qed

theorem silent_peer_detected_witness:
  "OnTimeout \<in> set (snd (ka_run
     (fst (send_ping_message 0 True (new_keep_alive DefaultKeepAliveConfig True)))
     (silent [30 * second, 60 * second, 90 * second])))"
proof -
  let ?ka = "fst (send_ping_message 0 True (new_keep_alive DefaultKeepAliveConfig True))"
  have "ka_config ?ka = DefaultKeepAliveConfig" "ka_on_timeout ?ka" "ka_missed ?ka = 0"
    "ka_has_pending ?ka" "ka_last_ping ?ka = 0" by code_simp+
  with silent_peer_detected [of ?ka "[30 * second, 60 * second, 90 * second]"] show ?thesis
    by (simp add: DefaultKeepAliveConfig_def DefaultPingInterval_def DefaultPongTimeout_def
        DefaultMaxMissedPongs_def)
qed

lemma failing_sends:
  "\<not> ka_has_pending ka \<Longrightarrow> OnTimeout \<notin> set (snd (ka_run ka (map (\<lambda>t. KaTick t False) ts)))"
proof (induction ts arbitrary: ka)
  case (Cons t ts)
  let ?ka = "fst (handle_tick t False ka)"
  have "\<not> ka_has_pending ?ka" and "OnTimeout \<notin> set (snd (handle_tick t False ka))"
    using Cons.prems by (simp_all add: handle_tick_def send_ping_message_def Let_def)
  with Cons.IH [of ?ka] show ?case by (simp add: Let_def)
qed simp


text \<open>Two losses that the monitor misses. When the send function fails, as it does on a
  dead connection, no ping counts as pending, no pong as missed, and the timeout never
  runs. And with the default configuration a peer that answers the first ping and then
  falls silent is detected after 120 seconds, at the fourth tick, not within the 95 seconds
  that the constant and the documentation give as the maximum.\<close>

theorem missed_losses:
  fixes t0 pong_at :: time and c :: keep_alive_config and ts :: "time list"
  defines "dead \<equiv> fst (send_ping_message t0 False (new_keep_alive c True))"
  defines "ping \<equiv> fst (send_ping_message t0 True (new_keep_alive DefaultKeepAliveConfig True))"
  defines "answered \<equiv> fst (handle_pong pong_at (ka_pending_ping ping) ping)"
  shows "OnTimeout \<notin> set (snd (ka_run dead (map (\<lambda>t. KaTick t False) ts))) \<and>
    OnTimeout \<notin> set (snd (ka_run answered
      (silent [t0 + 30 * second, t0 + 60 * second, t0 + 90 * second]))) \<and>
    OnTimeout \<in> set (snd (ka_run answered
      (silent [t0 + 30 * second, t0 + 60 * second, t0 + 90 * second, t0 + 120 * second]))) \<and>
    MaxDetectionDelay = detection_delay DefaultKeepAliveConfig \<and>
    MaxDetectionDelay = 95 * second"
proof -
  have "\<not> ka_has_pending dead" by (simp add: dead_def send_ping_message_def Let_def)
  note dead = failing_sends [OF this]
  have a: "ka_config answered = DefaultKeepAliveConfig" "ka_on_timeout answered"
    "ka_missed answered = 0" "\<not> ka_has_pending answered" "ka_last_ping answered = t0"
    by (simp_all add: answered_def ping_def handle_pong_def send_ping_message_def Let_def
        new_keep_alive_def DefaultKeepAliveConfig_def DefaultPingInterval_def
        DefaultPongTimeout_def DefaultMaxMissedPongs_def)
  note default = DefaultKeepAliveConfig_def DefaultPingInterval_def DefaultPongTimeout_def
    DefaultMaxMissedPongs_def
  from a silent_peer_detected [of answered
      "[t0 + 30 * second, t0 + 60 * second, t0 + 90 * second]"]
    silent_peer_detected [of answered
      "[t0 + 30 * second, t0 + 60 * second, t0 + 90 * second, t0 + 120 * second]"]
  show ?thesis using dead
    by (simp add: default MaxDetectionDelay_def detection_delay_def)
qed

end
