(* ===== verification/Client.thy ===== *)
theory Client
  imports Wire GoTime
begin

text \<open>
  The interaction client (\<open>pkg/interaction/client.go\<close>): the message ids it gives out, the
  requests that wait for a response, the delivery of responses and notifications, and how a
  result is read from a response.

  A call of \<open>sendRequest\<close> and one of \<open>HandleResponse\<close> run in goroutines of their own. Each
  is cut where it gives up a lock, so that the steps of several calls can interleave; the
  calls under way and the channels are part of the state. A channel is an address in a
  store, as the map of pending requests and the waiting call share it.
\<close>

section \<open>Message ids\<close>

text \<open>The loop of \<open>nextMessageID\<close> on the counter; the result is also its new value.\<close>

partial_function (option) next_message_id :: "u32 \<Rightarrow> u32 option" where
  "next_message_id n =
     (let i = n + 1 in if i \<noteq> NotificationMessageID then Some i else next_message_id i)"

text \<open>The ids of \<open>k\<close> calls in a row.\<close>

fun next_message_ids :: "nat \<Rightarrow> u32 \<Rightarrow> u32 list option" where
  "next_message_ids 0 n = Some []"
| "next_message_ids (Suc k) n =
     (case next_message_id n of None \<Rightarrow> None
      | Some i \<Rightarrow> map_option (Cons i) (next_message_ids k i))"

section \<open>State\<close>

datatype client_error =
    ErrRequestTimeout | ErrClientClosed | ErrUnexpectedReply
  | ContextError | EncodeError | SendError
  | StatusErr status string

text \<open>A channel of capacity one.\<close>

record chan =
  ch_buffer :: "response option"
  ch_closed :: bool

definition DefaultRequestTimeout :: duration where "DefaultRequestTimeout = 10 * second"

record client =
  ic_timeout :: duration
  ic_next_msg_id :: u32
  ic_pending :: "(u32, nat) gomap"
  ic_notify_handler :: bool
  ic_closed :: bool

text \<open>
  A call of \<open>sendRequest\<close>: it has passed the check for a closed client, it has registered
  its channel, it waits for the response, or it has returned.
\<close>

datatype call_phase =
    Checked
  | Registered
  | Waiting time
  | Returned "client_error + response"

record call =
  ca_request :: request
  ca_timeout :: duration
  ca_chan :: "nat option"
  ca_phase :: call_phase

text \<open>\<open>cw_deliveries\<close> has the calls of \<open>HandleResponse\<close> that have found the channel and not
  sent to it yet. A send to a closed channel panics.\<close>

record client_world = client +
  cw_chans :: "chan list"
  cw_calls :: "call list"
  cw_deliveries :: "(response \<times> nat) list"
  cw_panicked :: bool

definition new_client :: client_world where
  "new_client =
     \<lparr>ic_timeout = DefaultRequestTimeout, ic_next_msg_id = 1, ic_pending = [],
      ic_notify_handler = False, ic_closed = False,
      cw_chans = [], cw_calls = [], cw_deliveries = [], cw_panicked = False\<rparr>"

definition client_set_timeout :: "duration \<Rightarrow> client_world \<Rightarrow> client_world" where
  "client_set_timeout d c = c\<lparr>ic_timeout := d\<rparr>"

definition set_notification_handler :: "bool \<Rightarrow> client_world \<Rightarrow> client_world" where
  "set_notification_handler b c = c\<lparr>ic_notify_handler := b\<rparr>"

text \<open>\<open>Close\<close>: the loop over the pending requests closes each channel.\<close>

definition close_chan :: "chan list \<Rightarrow> nat \<Rightarrow> chan list" where
  "close_chan chs a = chs[a := (chs ! a)\<lparr>ch_closed := True\<rparr>]"

definition client_close :: "client_world \<Rightarrow> client_world" where
  "client_close c =
     c\<lparr>ic_closed := True, cw_chans := foldl close_chan (cw_chans c) (map snd (ic_pending c)),
       ic_pending := []\<rparr>"

section \<open>Requests\<close>

definition set_phase :: "nat \<Rightarrow> call_phase \<Rightarrow> client_world \<Rightarrow> client_world" where
  "set_phase k p c = c\<lparr>cw_calls := (cw_calls c)[k := (cw_calls c ! k)\<lparr>ca_phase := p\<rparr>]\<rparr>"

text \<open>\<open>sendRequest\<close> up to the creation of the channel.\<close>

definition start_request :: "request \<Rightarrow> client_world \<Rightarrow> client_world" where
  "start_request rq c =
     c\<lparr>cw_calls := cw_calls c @ [\<lparr>ca_request = rq, ca_timeout = ic_timeout c, ca_chan = None,
         ca_phase = (if ic_closed c then Returned (Inl ErrClientClosed) else Checked)\<rparr>]\<rparr>"

text \<open>The channel is made and registered under the message id.\<close>

definition register_request :: "nat \<Rightarrow> client_world \<Rightarrow> client_world" where
  "register_request k c =
     (let ca = cw_calls c ! k; a = length (cw_chans c)
      in c\<lparr>cw_chans := cw_chans c @ [\<lparr>ch_buffer = None, ch_closed = False\<rparr>],
           ic_pending := gm_put (rq_message_id (ca_request ca)) a (ic_pending c),
           cw_calls := (cw_calls c)[k := ca\<lparr>ca_chan := Some a, ca_phase := Registered\<rparr>]\<rparr>)"

text \<open>A call returns; the deferred function removes its pending entry.\<close>

definition return_from :: "nat \<Rightarrow> client_error + response \<Rightarrow> client_world \<Rightarrow> client_world" where
  "return_from k r c =
     (set_phase k (Returned r) c)
       \<lparr>ic_pending := gm_del (rq_message_id (ca_request (cw_calls c ! k))) (ic_pending c)\<rparr>"

datatype transmission = EncodeFailed | SendFailed | Sent

definition transmit_request :: "nat \<Rightarrow> time \<Rightarrow> transmission \<Rightarrow> client_world \<Rightarrow> client_world" where
  "transmit_request k now tr c =
     (if validate_request (ca_request (cw_calls c ! k)) \<noteq> None \<or> tr = EncodeFailed
      then return_from k (Inl EncodeError) c
      else if tr = SendFailed then return_from k (Inl SendError) c
      else set_phase k (Waiting (now + ca_timeout (cw_calls c ! k))) c)"

text \<open>The cases of the \<open>select\<close> statement. A closed channel is ready and, once empty, yields
  not ok; receiving takes the response out.\<close>

datatype select_case = CtxDone | TimeAfter time | FromChannel

definition select_response :: "nat \<Rightarrow> select_case \<Rightarrow> client_world \<Rightarrow> client_world" where
  "select_response k s c =
     (let ca = cw_calls c ! k
      in case (ca_phase ca, s, ca_chan ca) of
           (Waiting _, CtxDone, _) \<Rightarrow> return_from k (Inl ContextError) c
         | (Waiting deadline, TimeAfter now, _) \<Rightarrow>
             if now \<ge> deadline then return_from k (Inl ErrRequestTimeout) c else c
         | (Waiting _, FromChannel, Some a) \<Rightarrow>
             (case ch_buffer (cw_chans c ! a) of
                Some rp \<Rightarrow>
                  return_from k (Inr rp)
                    (c\<lparr>cw_chans := (cw_chans c)[a := (cw_chans c ! a)\<lparr>ch_buffer := None\<rparr>]\<rparr>)
              | None \<Rightarrow>
                  if ch_closed (cw_chans c ! a) then return_from k (Inl ErrClientClosed) c else c)
         | _ \<Rightarrow> c)"

section \<open>Responses and notifications\<close>

text \<open>\<open>HandleResponse\<close>: the lookup, and the send to the channel.\<close>

definition lookup_response :: "response \<Rightarrow> client_world \<Rightarrow> client_world \<times> client_error option" where
  "lookup_response rp c =
     (case gm_get (ic_pending c) (rp_message_id rp) of
        None \<Rightarrow> (c, Some ErrUnexpectedReply)
      | Some a \<Rightarrow> (c\<lparr>cw_deliveries := cw_deliveries c @ [(rp, a)]\<rparr>, None))"

definition deliver_response :: "nat \<Rightarrow> client_world \<Rightarrow> client_world" where
  "deliver_response j c =
     (case cw_deliveries c ! j of (rp, a) \<Rightarrow>
       (let c1 = c\<lparr>cw_deliveries := take j (cw_deliveries c) @ drop (Suc j) (cw_deliveries c)\<rparr>;
            ch = cw_chans c ! a
        in if ch_closed ch then c1\<lparr>cw_panicked := True\<rparr>
           else if ch_buffer ch = None
           then c1\<lparr>cw_chans := (cw_chans c)[a := ch\<lparr>ch_buffer := Some rp\<rparr>]\<rparr>
           else c1))"

definition client_handle_notification :: "notification \<Rightarrow> client_world \<Rightarrow> notification list" where
  "client_handle_notification n c = (if ic_notify_handler c then [n] else [])"

text \<open>The steps of a run. A step of a call that is not there or not in the phase for it
  changes nothing; after a panic nothing runs.\<close>

datatype client_op =
    StartRequest request
  | RegisterRequest nat
  | TransmitRequest nat time transmission
  | SelectResponse nat select_case
  | LookupResponse response
  | DeliverResponse nat
  | CloseClient
  | SetRequestTimeout duration

definition in_phase :: "nat \<Rightarrow> call_phase \<Rightarrow> client_world \<Rightarrow> bool" where
  "in_phase k p c \<longleftrightarrow> k < length (cw_calls c) \<and> ca_phase (cw_calls c ! k) = p"

fun client_step :: "client_world \<Rightarrow> client_op \<Rightarrow> client_world" where
  "client_step c (StartRequest rq) = start_request rq c"
| "client_step c (RegisterRequest k) = (if in_phase k Checked c then register_request k c else c)"
| "client_step c (TransmitRequest k now tr) =
     (if in_phase k Registered c then transmit_request k now tr c else c)"
| "client_step c (SelectResponse k s) = (if k < length (cw_calls c) then select_response k s c else c)"
| "client_step c (LookupResponse rp) = fst (lookup_response rp c)"
| "client_step c (DeliverResponse j) =
     (if j < length (cw_deliveries c) then deliver_response j c else c)"
| "client_step c CloseClient = client_close c"
| "client_step c (SetRequestTimeout d) = client_set_timeout d c"

definition run_client :: "client_world \<Rightarrow> client_op list \<Rightarrow> client_world" where
  "run_client = foldl (\<lambda>c p. if cw_panicked c then c else client_step c p)"

section \<open>Requests of the client and their results\<close>

text \<open>The requests that the methods build. The payload of a read is the slice of the ids itself.\<close>

definition read_request :: "u32 \<Rightarrow> u8 \<Rightarrow> u8 \<Rightarrow> u16 list \<Rightarrow> request" where
  "read_request i ep fid attr_ids =
     \<lparr>rq_message_id = i, rq_operation = OpRead, rq_endpoint_id = ep, rq_feature_id = fid,
      rq_payload = AU16s attr_ids\<rparr>"

definition write_request :: "u32 \<Rightarrow> u8 \<Rightarrow> u8 \<Rightarrow> (u16, any) gomap \<Rightarrow> request" where
  "write_request i ep fid attrs =
     \<lparr>rq_message_id = i, rq_operation = OpWrite, rq_endpoint_id = ep, rq_feature_id = fid,
      rq_payload = AMapU16 attrs\<rparr>"

record subscribe_options =
  so_attribute_ids :: "u16 list"
  so_min_interval :: duration
  so_max_interval :: duration

text \<open>\<open>Milliseconds\<close> truncates; the conversion to \<open>uint32\<close> wraps.\<close>

definition milliseconds :: "duration \<Rightarrow> u32" where
  "milliseconds d = word_of_int (if d \<ge> 0 then d div millisecond else - ((- d) div millisecond))"

definition subscribe_request :: "u32 \<Rightarrow> u8 \<Rightarrow> u8 \<Rightarrow> subscribe_options option \<Rightarrow> request" where
  "subscribe_request i ep fid opts =
     \<lparr>rq_message_id = i, rq_operation = OpSubscribe, rq_endpoint_id = ep, rq_feature_id = fid,
      rq_payload = (case opts of
          None \<Rightarrow> ASubscribePayload [] 0 0
        | Some p \<Rightarrow> ASubscribePayload (so_attribute_ids p) (milliseconds (so_min_interval p))
            (milliseconds (so_max_interval p)))\<rparr>"

definition unsubscribe_request :: "u32 \<Rightarrow> u32 \<Rightarrow> request" where
  "unsubscribe_request i sub_id =
     \<lparr>rq_message_id = i, rq_operation = OpSubscribe, rq_endpoint_id = 0, rq_feature_id = 0,
      rq_payload = AUnsubscribePayload sub_id\<rparr>"

definition invoke_request :: "u32 \<Rightarrow> u8 \<Rightarrow> u8 \<Rightarrow> u8 \<Rightarrow> (string, any) gomap \<Rightarrow> request" where
  "invoke_request i ep fid cmd params =
     \<lparr>rq_message_id = i, rq_operation = OpInvoke, rq_endpoint_id = ep, rq_feature_id = fid,
      rq_payload = AInvokePayload cmd (AMapString params)\<rparr>"

fun error_message :: "any \<Rightarrow> string" where
  "error_message (AErrorPayload msg) = msg"
| "error_message _ = ''''"

definition status_error :: "status \<Rightarrow> any \<Rightarrow> client_error" where
  "status_error st p = StatusErr st (error_message p)"

text \<open>The loop that copies a decoded map; it keeps the keys that are integers.\<close>

fun result_key :: "any \<Rightarrow> u16 option" where
  "result_key (AU16 k) = Some k"
| "result_key (AU64 k) = Some (ucast k)"
| "result_key (AI64 k) = Some (ucast k)"
| "result_key _ = None"

definition result_map :: "(any \<times> any) list \<Rightarrow> (u16, any) gomap" where
  "result_map p = foldl (\<lambda>m (k, v). case result_key k of None \<Rightarrow> m | Some i \<Rightarrow> gm_put i v m) [] p"

definition read_result :: "client_error + response \<Rightarrow> client_error + (u16, any) gomap" where
  "read_result r = (case r of
       Inl err \<Rightarrow> Inl err
     | Inr rp \<Rightarrow>
         if \<not> status_is_success (rp_status rp) then Inl (status_error (rp_status rp) (rp_payload rp))
         else (case rp_payload rp of
             AMapU16 p \<Rightarrow> Inr p
           | AMap p \<Rightarrow> Inr (result_map p)
           | _ \<Rightarrow> Inl ErrUnexpectedReply))"

text \<open>A write that succeeds without a map has a nil result; here it is the empty map.\<close>

definition write_result :: "client_error + response \<Rightarrow> client_error + (u16, any) gomap" where
  "write_result r = (case r of
       Inl err \<Rightarrow> Inl err
     | Inr rp \<Rightarrow>
         if \<not> status_is_success (rp_status rp) then Inl (status_error (rp_status rp) (rp_payload rp))
         else (case rp_payload rp of
             AMapU16 p \<Rightarrow> Inr p
           | AMap p \<Rightarrow> Inr (result_map p)
           | _ \<Rightarrow> Inr []))"

fun current_values :: "any \<Rightarrow> (u16, any) gomap" where
  "current_values (AMap m) =
     foldl (\<lambda>r (k, v). case k of AU64 i \<Rightarrow> gm_put (ucast i) v r | _ \<Rightarrow> r) [] m"
| "current_values _ = []"

definition subscribe_result :: "client_error + response \<Rightarrow> client_error + (u32 \<times> (u16, any) gomap)" where
  "subscribe_result r = (case r of
       Inl err \<Rightarrow> Inl err
     | Inr rp \<Rightarrow>
         if \<not> status_is_success (rp_status rp) then Inl (status_error (rp_status rp) (rp_payload rp))
         else (case rp_payload rp of
             ASubscribeResponse i vs \<Rightarrow> Inr (i, vs)
           | AMap p \<Rightarrow> Inr (any_u64_u32 (any_at p (AU64 1)), current_values (any_at p (AU64 2)))
           | _ \<Rightarrow> Inl ErrUnexpectedReply))"

definition unsubscribe_result :: "client_error + response \<Rightarrow> client_error option" where
  "unsubscribe_result r = (case r of
       Inl err \<Rightarrow> Some err
     | Inr rp \<Rightarrow>
         if \<not> status_is_success (rp_status rp) then Some (status_error (rp_status rp) (rp_payload rp))
         else None)"

definition invoke_result :: "client_error + response \<Rightarrow> client_error + any" where
  "invoke_result r = (case r of
       Inl err \<Rightarrow> Inl err
     | Inr rp \<Rightarrow>
         if \<not> status_is_success (rp_status rp) then Inl (status_error (rp_status rp) (rp_payload rp))
         else Inr (rp_payload rp))"

text \<open>\<open>StatusError.Error\<close>.\<close>

definition status_error_text :: "status \<Rightarrow> string \<Rightarrow> string" where
  "status_error_text st msg = (if msg \<noteq> '''' then msg else status_string st)"

section \<open>Properties of the message ids\<close>

lemma next_message_id_eq: "next_message_id n = Some (if n + 1 = 0 then 1 else n + 1)"
  by (subst next_message_id.simps) (simp add: NotificationMessageID_def Let_def,
    subst next_message_id.simps, auto simp: NotificationMessageID_def)

text \<open>The ids run through \<open>1, \<dots>, 2^32 - 1\<close> in a circle.\<close>

definition id_circle :: nat where "id_circle = 2 ^ 32 - 1"

lemma unat_next_id: "unat (if n + 1 = 0 then 1 else n + 1 :: u32) = unat n mod id_circle + 1"
proof (cases "n + 1 = 0")
  case True
  then have "n = - 1" by (simp add: eq_neg_iff_add_eq_0)
  moreover have "unat (- 1 :: u32) = id_circle" by (simp add: id_circle_def unsigned_minus_1_eq_mask mask_eq_exp_minus_1)
  ultimately have "unat n = id_circle" by simp
  with True show ?thesis by simp
next
  case False
  then have 1: "unat (n + 1) = unat n + 1" by (simp add: add.commute unatSuc)
  moreover have "unat (n + 1) < 2 ^ LENGTH(32)" by (rule unsigned_less)
  ultimately have "unat n < id_circle" by (simp add: id_circle_def)
  with 1 False show ?thesis by simp
qed

lemma next_message_ids_eq:
  "\<exists>ids. next_message_ids k n = Some ids \<and> map unat ids = map (\<lambda>j. (unat n + j) mod id_circle + 1) [0..<k]"
proof (induction k arbitrary: n)
  case 0
  then show ?case by simp
next
  case (Suc k)
  define i where "i = (if n + 1 = 0 then 1 else n + 1)"
  have i: "unat i = unat n mod id_circle + 1" unfolding i_def by (rule unat_next_id)
  obtain js where js: "next_message_ids k i = Some js"
    "map unat js = map (\<lambda>j. (unat i + j) mod id_circle + 1) [0..<k]"
    using Suc.IH by blast
  have "(unat i + j) mod id_circle = (unat n + Suc j) mod id_circle" for j
    by (metis i add.assoc add.commute add_Suc_right mod_add_left_eq plus_1_eq_Suc)
  then have "map unat (i # js) = map (\<lambda>j. (unat n + j) mod id_circle + 1) [0..<Suc k]"
    by (simp add: js(2) i upt_rec [of 0] map_Suc_upt [symmetric] del: upt_Suc)
  with js(1) show ?case by (intro exI [of _ "i # js"]) (simp add: next_message_id_eq i_def)
qed

text \<open>\<open>nextMessageID\<close> returns for every value of the counter, after at most two turns of its
  loop, and never the id 0 that marks notifications; the ids of \<open>2^32 - 1\<close> calls in a row
  are distinct.\<close>

theorem message_ids_distinct:
  "\<exists>ids. next_message_ids k n = Some ids \<and> length ids = k \<and> 0 \<notin> set ids \<and>
     (k \<le> 2 ^ 32 - 1 \<longrightarrow> distinct ids)"
proof -
  obtain ids where ids: "next_message_ids k n = Some ids"
    "map unat ids = map (\<lambda>j. (unat n + j) mod id_circle + 1) [0..<k]"
    using next_message_ids_eq by blast
  have "0 \<notin> set (map unat ids)" unfolding ids(2) by auto
  then have "0 \<notin> set ids" by force
  moreover have "length ids = k" using arg_cong [OF ids(2), of length] by simp
  moreover have "distinct ids" if "k \<le> 2 ^ 32 - 1"
  proof -
    have "inj_on (\<lambda>j. (unat n + j) mod id_circle) {0..<k}"
    proof (rule linorder_inj_onI')
      fix a b assume ab: "a \<in> {0..<k}" "b \<in> {0..<k}" "a < b"
      show "(unat n + a) mod id_circle \<noteq> (unat n + b) mod id_circle"
      proof
        assume "(unat n + a) mod id_circle = (unat n + b) mod id_circle"
        then have "id_circle dvd (unat n + b) - (unat n + a)"
          using ab(3) by (subst (asm) eq_commute) (simp add: mod_eq_dvd_iff_nat)
        then have "id_circle \<le> b - a" using ab(3) by (auto dest: dvd_imp_le)
        with ab that show False by (simp add: id_circle_def)
      qed
    qed
    then have "distinct (map unat ids)" unfolding ids(2) by (auto simp: distinct_map inj_on_def)
    then show ?thesis by (simp add: distinct_map)
  qed
  ultimately show ?thesis using ids(1) by blast
qed

theorem message_ids_distinct_witness:
  "\<exists>ids. next_message_ids 3 (- 2) = Some ids \<and> distinct ids"
  using message_ids_distinct [of 3 "- 2"] by auto

section \<open>Routing of responses\<close>

text \<open>Which message id the calls that read from a channel wait for. No two calls share a
  channel, but the invariant only needs that they would agree.\<close>

definition owners :: "client_world \<Rightarrow> (nat option \<times> u32) list" where
  "owners c = map (\<lambda>ca. (ca_chan ca, rq_message_id (ca_request ca))) (cw_calls c)"

definition serves :: "(nat option \<times> u32) list \<Rightarrow> nat \<Rightarrow> u32 \<Rightarrow> bool" where
  "serves ow a i \<longleftrightarrow> (\<forall>j. (Some a, j) \<in> set ow \<longrightarrow> j = i)"

text \<open>The invariant: pending entries, deliveries and buffered responses belong to the calls
  with their message id, and every response in the client was received (is in \<open>R\<close>).\<close>

definition routed :: "response set \<Rightarrow> (nat option \<times> u32) list \<Rightarrow> (u32, nat) gomap \<Rightarrow>
    (response \<times> nat) list \<Rightarrow> chan list \<Rightarrow> bool" where
  "routed R ow pend dels chs \<longleftrightarrow>
     (\<forall>i a. gm_get pend i = Some a \<longrightarrow> a < length chs \<and> serves ow a i) \<and>
     (\<forall>rp a. (rp, a) \<in> set dels \<longrightarrow> rp \<in> R \<and> a < length chs \<and> serves ow a (rp_message_id rp)) \<and>
     (\<forall>a rp. a < length chs \<longrightarrow> ch_buffer (chs ! a) = Some rp \<longrightarrow>
        rp \<in> R \<and> serves ow a (rp_message_id rp)) \<and>
     (\<forall>a j. (Some a, j) \<in> set ow \<longrightarrow> a < length chs)"

definition returned :: "response set \<Rightarrow> call list \<Rightarrow> bool" where
  "returned R cas \<longleftrightarrow> (\<forall>ca rp. ca \<in> set cas \<longrightarrow> ca_phase ca = Returned (Inr rp) \<longrightarrow>
     rp \<in> R \<and> rp_message_id rp = rq_message_id (ca_request ca))"

definition client_inv :: "response set \<Rightarrow> client_world \<Rightarrow> bool" where
  "client_inv R c \<longleftrightarrow>
     routed R (owners c) (ic_pending c) (cw_deliveries c) (cw_chans c) \<and> returned R (cw_calls c)"

lemma routedD:
  assumes "routed R ow pend dels chs"
  shows "gm_get pend i = Some a \<Longrightarrow> a < length chs \<and> serves ow a i"
    and "(rp, a) \<in> set dels \<Longrightarrow> rp \<in> R \<and> a < length chs \<and> serves ow a (rp_message_id rp)"
    and "a < length chs \<Longrightarrow> ch_buffer (chs ! a) = Some rp \<Longrightarrow> rp \<in> R \<and> serves ow a (rp_message_id rp)"
    and "(Some a, j) \<in> set ow \<Longrightarrow> a < length chs"
  using assms unfolding routed_def by blast+

lemma client_inv_new: "client_inv R new_client"
  by (simp add: client_inv_def routed_def returned_def new_client_def owners_def)

lemma owners_nth: "k < length (cw_calls c) \<Longrightarrow>
    owners c ! k = (ca_chan (cw_calls c ! k), rq_message_id (ca_request (cw_calls c ! k)))"
  by (simp add: owners_def)

lemma owners_update_same:
  assumes "ca_chan x = ca_chan (cas ! k)" and "ca_request x = ca_request (cas ! k)"
  shows "map (\<lambda>ca. (ca_chan ca, rq_message_id (ca_request ca))) (cas[k := x])
    = map (\<lambda>ca. (ca_chan ca, rq_message_id (ca_request ca))) cas"
proof (cases "k < length cas")
  case True
  with assms show ?thesis by (simp add: map_update list_update_same_conv)
next
  case False
  then show ?thesis by (simp add: list_update_beyond)
qed

lemma set_phase_simps [simp]:
  "owners (set_phase k p c) = owners c" "ic_pending (set_phase k p c) = ic_pending c"
  "cw_deliveries (set_phase k p c) = cw_deliveries c" "cw_chans (set_phase k p c) = cw_chans c"
  by (simp_all add: owners_def set_phase_def owners_update_same)

lemma return_from_simps [simp]:
  "owners (return_from k r c) = owners c"
  "ic_pending (return_from k r c) = gm_del (rq_message_id (ca_request (cw_calls c ! k))) (ic_pending c)"
  "cw_deliveries (return_from k r c) = cw_deliveries c" "cw_chans (return_from k r c) = cw_chans c"
  "cw_calls (return_from k r c) = cw_calls (set_phase k (Returned r) c)"
  using set_phase_simps(1) [of k "Returned r" c] by (simp_all add: return_from_def owners_def)

lemma returned_update:
  assumes "returned R cas"
    and "\<And>rp. k < length cas \<Longrightarrow> ca_phase x = Returned (Inr rp) \<Longrightarrow>
      rp \<in> R \<and> rp_message_id rp = rq_message_id (ca_request x)"
  shows "returned R (cas[k := x])"
proof (cases "k < length cas")
  case True
  have "ca \<in> set cas \<or> ca = x" if "ca \<in> set (cas[k := x])" for ca
    using that set_update_subset_insert [of cas k x] by blast
  with assms True show ?thesis unfolding returned_def by metis
next
  case False
  with assms(1) show ?thesis by (simp add: list_update_beyond)
qed

lemma client_inv_set_phase:
  assumes "client_inv R c"
    and "\<And>rp. p = Returned (Inr rp) \<Longrightarrow> k < length (cw_calls c) \<Longrightarrow>
      rp \<in> R \<and> rp_message_id rp = rq_message_id (ca_request (cw_calls c ! k))"
  shows "client_inv R (set_phase k p c)"
proof -
  have "returned R (cw_calls (set_phase k p c))"
    using assms unfolding set_phase_def client_inv_def by (auto intro!: returned_update)
  with assms(1) show ?thesis by (simp add: client_inv_def)
qed

lemma routed_del: "routed R ow pend dels chs \<Longrightarrow> routed R ow (gm_del i pend) dels chs"
  unfolding routed_def by (auto simp: gomap_simps)

lemma client_inv_return:
  assumes "client_inv R c"
    and "\<And>rp. r = Inr rp \<Longrightarrow> k < length (cw_calls c) \<Longrightarrow>
      rp \<in> R \<and> rp_message_id rp = rq_message_id (ca_request (cw_calls c ! k))"
  shows "client_inv R (return_from k r c)"
proof -
  have "client_inv R (set_phase k (Returned r) c)" using assms by (intro client_inv_set_phase) auto
  then show ?thesis by (simp add: client_inv_def routed_del)
qed

lemma client_inv_start: "client_inv R c \<Longrightarrow> client_inv R (start_request rq c)"
  by (auto simp: client_inv_def start_request_def owners_def routed_def returned_def serves_def)

lemma serves_update:
  assumes "serves ow a i" and "a < n"
  shows "serves (ow[k := (Some n, j)]) a i"
  using assms set_update_subset_insert [of ow k "(Some n, j)"] by (auto simp: serves_def)

lemma client_inv_register:
  assumes inv: "client_inv R c" and k: "k < length (cw_calls c)" and ph: "ca_phase (cw_calls c ! k) = Checked"
  shows "client_inv R (register_request k c)"
proof -
  let ?i = "rq_message_id (ca_request (cw_calls c ! k))" and ?n = "length (cw_chans c)"
  let ?c = "register_request k c"
  have ow: "owners ?c = (owners c)[k := (Some ?n, ?i)]"
    by (simp add: owners_def register_request_def Let_def map_update)
  have st: "cw_chans ?c = cw_chans c @ [\<lparr>ch_buffer = None, ch_closed = False\<rparr>]"
    "ic_pending ?c = gm_put ?i ?n (ic_pending c)" "cw_deliveries ?c = cw_deliveries c"
    by (simp_all add: register_request_def Let_def)
  have routed: "routed R (owners c) (ic_pending c) (cw_deliveries c) (cw_chans c)"
    using inv by (simp add: client_inv_def)
  note old = routedD [OF routed]
  have new: "serves (owners ?c) ?n ?i"
    using set_update_subset_insert [of "owners c" k "(Some ?n, ?i)"] old(4)
    by (fastforce simp: serves_def ow)
  have "routed R (owners ?c) (ic_pending ?c) (cw_deliveries ?c) (cw_chans ?c)"
    unfolding routed_def
  proof (intro conjI allI impI)
    fix i a assume "gm_get (ic_pending ?c) i = Some a"
    then show "a < length (cw_chans ?c)" "serves (owners ?c) a i"
      using old(1) [of i a] new by (auto simp: st ow gomap_simps serves_update split: if_splits)
  next
    fix rp a assume "(rp, a) \<in> set (cw_deliveries ?c)"
    then show "rp \<in> R" "a < length (cw_chans ?c)" "serves (owners ?c) a (rp_message_id rp)"
      using old(2) [of rp a] by (auto simp: st ow serves_update)
  next
    fix a rp assume "a < length (cw_chans ?c)" "ch_buffer (cw_chans ?c ! a) = Some rp"
    then show "rp \<in> R" "serves (owners ?c) a (rp_message_id rp)"
      using old(3) [of a rp] by (auto simp: st ow nth_append serves_update split: if_splits)
  next
    fix a j assume "(Some a, j) \<in> set (owners ?c)"
    then show "a < length (cw_chans ?c)"
      using set_update_subset_insert [of "owners c" k "(Some ?n, ?i)"] old(4) [of a j]
      by (auto simp: st ow)
  qed
  moreover have "returned R (cw_calls ?c)"
    using inv by (auto simp: client_inv_def register_request_def Let_def intro!: returned_update)
  ultimately show ?thesis by (simp add: client_inv_def)
qed

lemma nth_update_at: "a < length xs \<Longrightarrow> xs[b := x] ! a = (if a = b then x else xs ! a)"
  by (cases "a = b") simp_all

lemma routed_chans:
  assumes "routed R ow pend dels chs" and "length chs' = length chs"
    and "\<And>a. a < length chs \<Longrightarrow> ch_buffer (chs' ! a) \<noteq> None \<Longrightarrow> ch_buffer (chs' ! a) = ch_buffer (chs ! a)"
  shows "routed R ow pend dels chs'"
  using assms unfolding routed_def by (metis option.discI)

lemma client_inv_select:
  assumes inv: "client_inv R c" and k: "k < length (cw_calls c)"
  shows "client_inv R (select_response k s c)"
proof -
  let ?ca = "cw_calls c ! k"
  have "client_inv R (return_from k (Inr rp)
      (c\<lparr>cw_chans := (cw_chans c)[a := (cw_chans c ! a)\<lparr>ch_buffer := None\<rparr>]\<rparr>))"
    if "ca_chan ?ca = Some a" "ch_buffer (cw_chans c ! a) = Some rp" for a rp
  proof (rule client_inv_return)
    have ow: "(Some a, rq_message_id (ca_request ?ca)) \<in> set (owners c)"
      using k that(1) by (force simp: owners_def)
    have r: "routed R (owners c) (ic_pending c) (cw_deliveries c) (cw_chans c)"
      using inv by (simp add: client_inv_def)
    have "routed R (owners c) (ic_pending c) (cw_deliveries c)
        ((cw_chans c)[a := (cw_chans c ! a)\<lparr>ch_buffer := None\<rparr>])"
      by (rule routed_chans [OF r]) (auto simp: nth_update_at split: if_splits)
    with inv show "client_inv R (c\<lparr>cw_chans := (cw_chans c)[a := (cw_chans c ! a)\<lparr>ch_buffer := None\<rparr>]\<rparr>)"
      by (simp add: client_inv_def owners_def)
    show "rp' \<in> R \<and> rp_message_id rp' = rq_message_id (ca_request (cw_calls
        (c\<lparr>cw_chans := (cw_chans c)[a := (cw_chans c ! a)\<lparr>ch_buffer := None\<rparr>]\<rparr>) ! k))"
      if "Inr rp = (Inr rp' :: client_error + response)" for rp'
      using that \<open>ch_buffer _ = _\<close> routedD(3) [OF r, of a rp] routedD(4) [OF r ow] ow
      by (auto simp: serves_def)
  qed
  with inv show ?thesis
    by (auto simp: select_response_def Let_def intro!: client_inv_return
      split: call_phase.splits select_case.splits option.splits)
qed

lemma client_inv_lookup:
  assumes "client_inv R c" and "rp \<in> R"
  shows "client_inv R (fst (lookup_response rp c))"
  using assms unfolding lookup_response_def client_inv_def owners_def routed_def
  by (auto split: option.splits)

lemma client_inv_deliver:
  assumes inv: "client_inv R c" and j: "j < length (cw_deliveries c)"
  shows "client_inv R (deliver_response j c)"
proof -
  obtain rp a where ra: "cw_deliveries c ! j = (rp, a)" by (cases "cw_deliveries c ! j")
  let ?dels = "take j (cw_deliveries c) @ drop (Suc j) (cw_deliveries c)"
  have r: "routed R (owners c) (ic_pending c) (cw_deliveries c) (cw_chans c)"
    using inv by (simp add: client_inv_def)
  have del: "(rp, a) \<in> set (cw_deliveries c)" using j ra by (metis nth_mem)
  have sub: "set ?dels \<subseteq> set (cw_deliveries c)" by (auto dest: in_set_takeD in_set_dropD)
  have less: "routed R (owners c) (ic_pending c) ?dels (cw_chans c)"
    using r sub unfolding routed_def by blast
  have "routed R (owners c) (ic_pending c) ?dels ((cw_chans c)[a := (cw_chans c ! a)\<lparr>ch_buffer := Some rp\<rparr>])"
    unfolding routed_def using routedD [OF less] routedD(2) [OF r del]
    by (auto simp: nth_list_update simp del: set_append split: if_splits)
  with inv less show ?thesis
    by (auto simp: deliver_response_def ra client_inv_def Let_def owners_def)
qed

lemma close_chans:
  "length (foldl close_chan chs as) = length chs"
  "a < length chs \<Longrightarrow> ch_buffer (foldl close_chan chs as ! a) = ch_buffer (chs ! a)"
  by (induction as arbitrary: chs) (auto simp: close_chan_def nth_update_at)

lemma client_inv_close:
  assumes "client_inv R c"
  shows "client_inv R (client_close c)"
proof -
  have "routed R (owners c) (ic_pending c) (cw_deliveries c)
      (foldl close_chan (cw_chans c) (map snd (ic_pending c)))"
    by (rule routed_chans [where chs = "cw_chans c"])
      (use assms in \<open>simp_all add: client_inv_def close_chans\<close>)
  then have "routed R (owners c) [] (cw_deliveries c)
      (foldl close_chan (cw_chans c) (map snd (ic_pending c)))"
    by (simp add: routed_def)
  with assms show ?thesis by (simp add: client_inv_def client_close_def owners_def)
qed

lemma client_inv_step:
  assumes "client_inv R c" and "\<And>rp. p = LookupResponse rp \<Longrightarrow> rp \<in> R"
  shows "client_inv R (client_step c p)"
proof (cases p)
  case (TransmitRequest k now tr)
  with assms(1) show ?thesis
    by (auto simp: transmit_request_def intro!: client_inv_return client_inv_set_phase)
next
  case (SetRequestTimeout d)
  with assms(1) show ?thesis by (simp add: client_set_timeout_def client_inv_def owners_def)
qed (use assms in \<open>auto simp: in_phase_def intro: client_inv_start client_inv_register client_inv_select
  client_inv_lookup client_inv_deliver client_inv_close\<close>)

lemma client_inv_run:
  assumes "client_inv R c" and "\<And>rp. LookupResponse rp \<in> set ps \<Longrightarrow> rp \<in> R"
  shows "client_inv R (run_client c ps)"
  using assms
proof (induction ps arbitrary: c)
  case Nil
  then show ?case by (simp add: run_client_def)
next
  case (Cons p ps)
  have "client_inv R (if cw_panicked c then c else client_step c p)"
    using Cons.prems by (auto intro!: client_inv_step)
  with Cons.IH [OF this] Cons.prems(2) show ?case by (simp add: run_client_def)
qed

text \<open>C6. In every run of the client, with any interleaving of its requests, received
  responses, timeouts and \<open>Close\<close>, a request that returns a response returns one that was
  received and carries its own message id.\<close>

theorem responses_reach_their_request:
  assumes "c = run_client new_client ps" and "ca \<in> set (cw_calls c)" and "ca_phase ca = Returned (Inr rp)"
  shows "LookupResponse rp \<in> set ps \<and> rp_message_id rp = rq_message_id (ca_request ca)"
proof -
  have "client_inv {rp. LookupResponse rp \<in> set ps} (run_client new_client ps)"
    by (rule client_inv_run) (simp_all add: client_inv_new)
  with assms show ?thesis by (simp add: client_inv_def returned_def)
qed

text \<open>Two requests under way whose responses arrive in the other order, the second after a
  timeout of the first.\<close>

definition demo_ops :: "client_op list" where
  "demo_ops =
     [StartRequest (read_request 2 1 1 []), StartRequest (unsubscribe_request 3 7),
      RegisterRequest 0, RegisterRequest 1, TransmitRequest 1 0 Sent, TransmitRequest 0 0 Sent,
      LookupResponse \<lparr>rp_message_id = 3, rp_status = StatusSuccess, rp_payload = ANil\<rparr>,
      DeliverResponse 0, SelectResponse 0 (TimeAfter (10 * second)),
      LookupResponse \<lparr>rp_message_id = 2, rp_status = StatusSuccess, rp_payload = ANil\<rparr>,
      SelectResponse 1 FromChannel]"

lemmas client_run_simps = run_client_def demo_ops_def new_client_def start_request_def register_request_def
  transmit_request_def select_response_def lookup_response_def deliver_response_def return_from_def
  set_phase_def in_phase_def read_request_def unsubscribe_request_def validate_request_def
  NotificationMessageID_def op_is_valid_iff op_defs DefaultRequestTimeout_def

lemma demo_calls:
  "map ca_phase (cw_calls (run_client new_client demo_ops)) =
     [Returned (Inl ErrRequestTimeout),
      Returned (Inr \<lparr>rp_message_id = 3, rp_status = StatusSuccess, rp_payload = ANil\<rparr>)]"
  by (simp add: client_run_simps)

theorem responses_reach_their_request_witness:
  "\<exists>ca \<in> set (cw_calls (run_client new_client demo_ops)). \<exists>rp.
     ca_phase ca = Returned (Inr rp) \<and> LookupResponse rp \<in> set demo_ops \<and>
     rp_message_id rp = rq_message_id (ca_request ca)"
proof -
  let ?rp = "\<lparr>rp_message_id = 3, rp_status = StatusSuccess, rp_payload = ANil\<rparr>"
  have "Returned (Inr ?rp) \<in> set (map ca_phase (cw_calls (run_client new_client demo_ops)))"
    by (simp add: demo_calls)
  then obtain ca where "ca \<in> set (cw_calls (run_client new_client demo_ops))"
    "ca_phase ca = Returned (Inr ?rp)" by (metis (no_types, lifting) imageE list.set_map)
  with responses_reach_their_request [OF refl this] show ?thesis by blast
qed

section \<open>Close\<close>

text \<open>While no response is between lookup and delivery, no open entry leads to a closed channel.\<close>

definition open_inv :: "client_world \<Rightarrow> bool" where
  "open_inv c \<longleftrightarrow>
     \<not> cw_panicked c \<and>
     (\<forall>i a. gm_get (ic_pending c) i = Some a \<longrightarrow> a < length (cw_chans c) \<and> \<not> ch_closed (cw_chans c ! a)) \<and>
     (\<forall>rp a. (rp, a) \<in> set (cw_deliveries c) \<longrightarrow>
        a < length (cw_chans c) \<and> \<not> ch_closed (cw_chans c ! a))"

lemma open_inv_pend: "open_inv c \<Longrightarrow> open_inv (c\<lparr>ic_pending := gm_del i (ic_pending c)\<rparr>)"
  by (simp add: open_inv_def gomap_simps)

lemma open_inv_calls: "open_inv (c\<lparr>cw_calls := cas\<rparr>) = open_inv c"
  by (simp add: open_inv_def)

lemma open_inv_return: "open_inv c \<Longrightarrow> open_inv (return_from k r c)"
  unfolding return_from_def set_phase_def by (simp add: open_inv_def gomap_simps)

lemma open_inv_buffer:
  "open_inv c \<Longrightarrow> open_inv (c\<lparr>cw_chans := (cw_chans c)[a := (cw_chans c ! a)\<lparr>ch_buffer := b\<rparr>]\<rparr>)"
  by (auto simp: open_inv_def nth_update_at split: if_splits)

lemma open_inv_register: "open_inv c \<Longrightarrow> open_inv (register_request k c)"
  by (auto simp: open_inv_def register_request_def Let_def gomap_simps nth_append less_SucI
      split: if_splits)

lemma open_inv_select: "open_inv c \<Longrightarrow> open_inv (select_response k s c)"
  unfolding select_response_def Let_def
  by (auto intro!: open_inv_return open_inv_buffer
      split: call_phase.splits select_case.splits option.splits)

lemma open_inv_deliver:
  assumes "open_inv c" and "j < length (cw_deliveries c)"
  shows "open_inv (deliver_response j c)"
proof -
  obtain rp a where ra: "cw_deliveries c ! j = (rp, a)" by (cases "cw_deliveries c ! j")
  then have "\<not> ch_closed (cw_chans c ! a)"
    using assms nth_mem [OF assms(2)] by (auto simp: open_inv_def)
  moreover have "open_inv (c\<lparr>cw_deliveries := take j (cw_deliveries c) @ drop (Suc j) (cw_deliveries c)\<rparr>)"
    using assms(1) by (auto simp: open_inv_def dest: in_set_takeD in_set_dropD)
  ultimately show ?thesis
    using open_inv_buffer [of "c\<lparr>cw_deliveries := take j (cw_deliveries c) @ drop (Suc j) (cw_deliveries c)\<rparr>" a "Some rp"]
    by (simp add: deliver_response_def ra Let_def)
qed

lemma open_inv_step:
  assumes "open_inv c" and "p = CloseClient \<Longrightarrow> cw_deliveries c = []"
  shows "open_inv (client_step c p)"
proof (cases p)
  case (TransmitRequest k now tr)
  with assms(1) show ?thesis
    by (auto simp: transmit_request_def set_phase_def open_inv_calls intro!: open_inv_return)
next
  case (SetRequestTimeout d)
  with assms(1) show ?thesis by (simp add: client_set_timeout_def open_inv_def)
next
  case (StartRequest rq)
  with assms(1) show ?thesis by (simp add: start_request_def open_inv_calls)
next
  case (LookupResponse rp)
  with assms(1) show ?thesis
    by (auto simp: lookup_response_def open_inv_def split: option.splits)
next
  case CloseClient
  with assms show ?thesis by (simp add: client_close_def open_inv_def)
qed (use assms in \<open>auto intro: open_inv_register open_inv_select open_inv_deliver\<close>)

lemma run_client_snoc:
  "run_client c (ps @ [p]) = (if cw_panicked (run_client c ps) then run_client c ps
     else client_step (run_client c ps) p)"
  by (simp add: run_client_def)

definition close_undisturbed :: "client_op list \<Rightarrow> bool" where
  "close_undisturbed ps \<longleftrightarrow>
     (\<forall>qs rs. ps = qs @ CloseClient # rs \<longrightarrow> cw_deliveries (run_client new_client qs) = [])"

lemma open_inv_run: "close_undisturbed ps \<Longrightarrow> open_inv (run_client new_client ps)"
proof (induction ps rule: rev_induct)
  case Nil
  then show ?case by (simp add: run_client_def open_inv_def new_client_def)
next
  case (snoc p ps)
  have "close_undisturbed ps" using snoc.prems by (auto simp: close_undisturbed_def)
  then have "open_inv (run_client new_client ps)" by (rule snoc.IH)
  moreover have "cw_deliveries (run_client new_client ps) = []" if "p = CloseClient"
    using snoc.prems that by (auto simp: close_undisturbed_def)
  ultimately show ?case by (simp add: run_client_snoc open_inv_step)
qed

lemma closed_chans:
  "a < length chs \<Longrightarrow> ch_closed (foldl close_chan chs as ! a) \<longleftrightarrow> ch_closed (chs ! a) \<or> a \<in> set as"
  by (induction as arbitrary: chs) (auto simp: close_chan_def nth_update_at)

text \<open>C35. A run in which \<open>Close\<close> never falls between the two halves of a \<open>HandleResponse\<close>
  does not panic. When it does, and the response is for a pending request, the process
  panics by sending to the closed channel.\<close>

theorem close_races_response:
  assumes "c = run_client new_client ps"
  shows "(close_undisturbed ps \<longrightarrow> \<not> cw_panicked c) \<and>
    (gm_get (ic_pending c) (rp_message_id rp) \<noteq> None \<longrightarrow>
     cw_panicked (run_client c [LookupResponse rp, CloseClient, DeliverResponse (length (cw_deliveries c))]))"
proof (intro conjI impI)
  show "\<not> cw_panicked c" if "close_undisturbed ps"
    using open_inv_run [OF that] assms by (simp add: open_inv_def)
  assume "gm_get (ic_pending c) (rp_message_id rp) \<noteq> None"
  then obtain a where a: "gm_get (ic_pending c) (rp_message_id rp) = Some a" by blast
  have "client_inv {rp. LookupResponse rp \<in> set ps} c"
    unfolding assms by (rule client_inv_run) (simp_all add: client_inv_new)
  then have len: "a < length (cw_chans c)" using a by (auto simp: client_inv_def routed_def)
  have "a \<in> set (map snd (ic_pending c))" using map_of_SomeD [of "ic_pending c"] a by force
  then show "cw_panicked (run_client c
      [LookupResponse rp, CloseClient, DeliverResponse (length (cw_deliveries c))])"
    using a len
    by (cases "cw_panicked c")
      (simp_all add: run_client_def lookup_response_def client_close_def deliver_response_def
        Let_def closed_chans close_chans)
qed

lemma no_close_undisturbed: "CloseClient \<notin> set ps \<Longrightarrow> close_undisturbed ps"
  by (auto simp: close_undisturbed_def)

theorem close_races_response_witness:
  "\<not> cw_panicked (run_client new_client demo_ops) \<and>
   cw_panicked (run_client (run_client new_client (take 6 demo_ops))
     [LookupResponse \<lparr>rp_message_id = 3, rp_status = StatusSuccess, rp_payload = ANil\<rparr>,
      CloseClient, DeliverResponse 0])"
proof -
  have "close_undisturbed demo_ops" by (rule no_close_undisturbed) (simp add: demo_ops_def)
  moreover have "gm_get (ic_pending (run_client new_client (take 6 demo_ops))) 3 \<noteq> None"
    "cw_deliveries (run_client new_client (take 6 demo_ops)) = []"
    by (simp_all add: client_run_simps)
  ultimately show ?thesis
    using close_races_response [of _ demo_ops, OF refl]
      close_races_response [of _ "take 6 demo_ops" "\<lparr>rp_message_id = 3, rp_status = StatusSuccess, rp_payload = ANil\<rparr>", OF refl]
    by simp
qed

section \<open>Waiting requests\<close>

text \<open>A waiting request ends at its deadline at the latest. \<open>Close\<close> ends it too when it is
  the one that is pending under its id; but a request that has passed the check before
  \<open>Close\<close> and registers its channel after it is not ended by \<open>Close\<close>: it has nothing to
  receive and waits for its timeout.\<close>

theorem waiting_requests_end:
  assumes "c = run_client new_client ps" and "k < length (cw_calls c)"
  shows "(\<forall>d now. ca_phase (cw_calls c ! k) = Waiting d \<and> now \<ge> d \<longrightarrow>
      ca_phase (cw_calls (select_response k (TimeAfter now) c) ! k) = Returned (Inl ErrRequestTimeout)) \<and>
    (\<forall>d a. ca_phase (cw_calls c ! k) = Waiting d \<and> ca_chan (cw_calls c ! k) = Some a \<and>
       gm_get (ic_pending c) (rq_message_id (ca_request (cw_calls c ! k))) = Some a \<longrightarrow>
       (\<exists>r. ca_phase (cw_calls (select_response k FromChannel (client_close c)) ! k) = Returned r \<and>
            (ch_buffer (cw_chans c ! a) = None \<longrightarrow> r = Inl ErrClientClosed))) \<and>
    (\<forall>now. ca_phase (cw_calls c ! k) = Checked \<and> validate_request (ca_request (cw_calls c ! k)) = None \<longrightarrow>
       (let c' = foldl client_step c [CloseClient, RegisterRequest k, TransmitRequest k now Sent]
        in ca_phase (cw_calls c' ! k) = Waiting (now + ca_timeout (cw_calls c ! k)) \<and>
           select_response k FromChannel c' = c'))"
proof -
  have inv: "client_inv {rp. LookupResponse rp \<in> set ps} c"
    unfolding assms(1) by (rule client_inv_run) (simp_all add: client_inv_new)
  have closed: "a < length (cw_chans c) \<and> ch_closed (foldl close_chan (cw_chans c) (map snd (ic_pending c)) ! a)"
    if "gm_get (ic_pending c) i = Some a" for i a
  proof -
    have "a < length (cw_chans c)" using inv that by (auto simp: client_inv_def routed_def)
    moreover have "a \<in> set (map snd (ic_pending c))"
      using map_of_SomeD [of "ic_pending c"] that by force
    ultimately show ?thesis by (simp add: closed_chans)
  qed
  show ?thesis
    using assms(2) closed
    by (auto simp: select_response_def return_from_def set_phase_def client_close_def close_chans
      register_request_def transmit_request_def in_phase_def Let_def nth_append nth_update_at
      split: option.splits)
qed

theorem waiting_requests_end_witness:
  "(let c = run_client new_client (take 6 demo_ops)
    in ca_phase (cw_calls (select_response 0 (TimeAfter (10 * second)) c) ! 0)
         = Returned (Inl ErrRequestTimeout)) \<and>
   (let c = foldl client_step (run_client new_client (take 2 demo_ops))
         [CloseClient, RegisterRequest 1, TransmitRequest 1 5 Sent]
    in ca_phase (cw_calls c ! 1) = Waiting (5 + DefaultRequestTimeout) \<and>
       select_response 1 FromChannel c = c)"
proof -
  have "0 < length (cw_calls (run_client new_client (take 6 demo_ops)))"
    "ca_phase (cw_calls (run_client new_client (take 6 demo_ops)) ! 0) = Waiting (10 * second)"
    "1 < length (cw_calls (run_client new_client (take 2 demo_ops)))"
    "ca_phase (cw_calls (run_client new_client (take 2 demo_ops)) ! 1) = Checked"
    "validate_request (ca_request (cw_calls (run_client new_client (take 2 demo_ops)) ! 1)) = None"
    "ca_timeout (cw_calls (run_client new_client (take 2 demo_ops)) ! 1) = DefaultRequestTimeout"
    by (simp_all add: client_run_simps)
  then show ?thesis
    using waiting_requests_end [OF refl, of 0 "take 6 demo_ops"]
      waiting_requests_end [OF refl, of 1 "take 2 demo_ops"]
    by (simp add: Let_def)
qed

end
