(* ===== verification/Dispatcher.thy ===== *)
theory Dispatcher
  imports Subscription Dispatch "HOL-Library.Sublist"
begin

text \<open>
  The notification dispatcher (\<open>pkg/service/dispatch/notification_dispatcher.go\<close>): it keeps
  which connection made which subscription, lets the subscription manager (theory
  Subscription) decide what to send when, and routes the manager's notifications to the
  connection of their subscription.

  A connection's send function is known by the id of the connection: a send is an output.
  The device is read through the request handler and is an argument. \<open>HandleSubscribe\<close> and
  \<open>UnregisterConnection\<close> hold the dispatcher's lock only for parts of their work, so each is
  the composition of such parts; the last section interleaves them.
\<close>

section \<open>State\<close>

record conn_info =
  ci_id :: u64
  ci_subscription_ids :: "u32 list"

record dispatcher =
  nd_manager :: sub_manager
  nd_connections :: "(u64, conn_info) gomap"
  nd_next_conn_id :: u64
  nd_subscription_map :: "(u32, u64) gomap"
  nd_interval :: duration
  nd_running :: bool

definition new_dispatcher :: dispatcher where
  "new_dispatcher =
     \<lparr>nd_manager = sub_on_notification True (new_sub_manager DefaultConfig), nd_connections = [],
      nd_next_conn_id = 0, nd_subscription_map = [], nd_interval = 100 * millisecond,
      nd_running = False\<rparr>"

definition set_processing_interval :: "duration \<Rightarrow> dispatcher \<Rightarrow> dispatcher" where
  "set_processing_interval i d = d\<lparr>nd_interval := i\<rparr>"

definition dispatcher_start :: "dispatcher \<Rightarrow> dispatcher" where
  "dispatcher_start d = d\<lparr>nd_running := True\<rparr>"

definition dispatcher_stop :: "dispatcher \<Rightarrow> dispatcher" where
  "dispatcher_stop d = d\<lparr>nd_running := False\<rparr>"

section \<open>Connections\<close>

definition register_connection :: "dispatcher \<Rightarrow> dispatcher \<times> u64" where
  "register_connection d =
     (let c = nd_next_conn_id d + 1
      in (d\<lparr>nd_next_conn_id := c,
            nd_connections := gm_put c \<lparr>ci_id = c, ci_subscription_ids = []\<rparr> (nd_connections d)\<rparr>, c))"

text \<open>The part of \<open>UnregisterConnection\<close> under the lock, and the rest.\<close>

definition unregister_tracking :: "u64 \<Rightarrow> dispatcher \<Rightarrow> dispatcher \<times> u32 list" where
  "unregister_tracking c d =
     (case gm_get (nd_connections d) c of
        None \<Rightarrow> (d, [])
      | Some info \<Rightarrow>
          (d\<lparr>nd_connections := gm_del c (nd_connections d),
             nd_subscription_map := foldl (\<lambda>m i. gm_del i m) (nd_subscription_map d)
               (ci_subscription_ids info)\<rparr>,
           ci_subscription_ids info))"

definition unsubscribe_ids :: "u32 list \<Rightarrow> dispatcher \<Rightarrow> dispatcher" where
  "unsubscribe_ids ids d = d\<lparr>nd_manager := foldl (\<lambda>m i. fst (sub_unsubscribe i m)) (nd_manager d) ids\<rparr>"

definition unregister_connection :: "u64 \<Rightarrow> dispatcher \<Rightarrow> dispatcher" where
  "unregister_connection c d =
     (case unregister_tracking c d of (d', ids) \<Rightarrow> unsubscribe_ids ids d')"

section \<open>Notifications\<close>

text \<open>\<open>handleNotification\<close>; the argument \<open>ok\<close> is whether a notification can be encoded.\<close>

definition wire_notification :: "sub_notification \<Rightarrow> notification" where
  "wire_notification n =
     \<lparr>nt_subscription_id = no_subscription n, nt_endpoint_id = ucast (no_endpoint n),
      nt_feature_id = ucast (no_feature n), nt_changes = no_attributes n\<rparr>"

definition handle_notification ::
    "(notification \<Rightarrow> bool) \<Rightarrow> dispatcher \<Rightarrow> sub_notification \<Rightarrow> (u64 \<times> notification) list" where
  "handle_notification ok d n =
     (case gm_get (nd_subscription_map d) (no_subscription n) of
        None \<Rightarrow> []
      | Some c \<Rightarrow>
          (case gm_get (nd_connections d) c of
             None \<Rightarrow> []
           | Some _ \<Rightarrow> if ok (wire_notification n) then [(c, wire_notification n)] else []))"

text \<open>One tick of \<open>processLoop\<close>.\<close>

definition process_tick ::
    "(notification \<Rightarrow> bool) \<Rightarrow> time \<Rightarrow> dispatcher \<Rightarrow> dispatcher \<times> (u64 \<times> notification) list" where
  "process_tick ok now d =
     (if \<not> nd_running d then (d, [])
      else case process_notifications now (nd_manager d) of
        (m, ns) \<Rightarrow> (d\<lparr>nd_manager := m\<rparr>, concat (map (handle_notification ok d) ns)))"

definition dispatcher_notify_change :: "time \<Rightarrow> u8 \<Rightarrow> u16 \<Rightarrow> u16 \<Rightarrow> any \<Rightarrow> dispatcher \<Rightarrow> dispatcher" where
  "dispatcher_notify_change now ep fid attr v d =
     d\<lparr>nd_manager := notify_change now (ucast ep) fid attr v (nd_manager d)\<rparr>"

definition dispatcher_notify_changes :: "time \<Rightarrow> u8 \<Rightarrow> u16 \<Rightarrow> (u16, any) gomap \<Rightarrow> dispatcher \<Rightarrow> dispatcher" where
  "dispatcher_notify_changes now ep fid cs d =
     d\<lparr>nd_manager := notify_changes now (ucast ep) fid cs (nd_manager d)\<rparr>"

definition dispatcher_subscription_count :: "dispatcher \<Rightarrow> nat" where
  "dispatcher_subscription_count d = sub_count (nd_manager d)"

section \<open>Subscribe\<close>

fun sub_error_text :: "subscription_error \<Rightarrow> string" where
  "sub_error_text ErrInvalidInterval = ''invalid subscription interval''"
| "sub_error_text ErrResourceExhausted = ''maximum subscriptions reached''"
| "sub_error_text ErrSubscriptionNotFound = ''subscription not found''"
| "sub_error_text ErrInvalidAttributeID = ''invalid attribute ID''"

record subscribe_params =
  su_attribute_ids :: "u16 list"
  su_min :: duration
  su_max :: duration
  su_values :: "(u16, any) gomap"

definition millis :: "u32 \<Rightarrow> duration" where
  "millis n = uint n * millisecond"

definition subscribe_intervals :: "subscribe_payload option \<Rightarrow> duration \<times> duration" where
  "subscribe_intervals p =
     (case p of None \<Rightarrow> (1000 * millisecond, 60000 * millisecond)
      | Some sp \<Rightarrow>
          (if sp_min_interval sp > 0 then millis (sp_min_interval sp) else 1000 * millisecond,
           if sp_max_interval sp > 0 then millis (sp_max_interval sp) else 60000 * millisecond))"

definition current_priming :: "u16 list \<Rightarrow> feature \<Rightarrow> (u16, any) gomap" where
  "current_priming ids f =
     (if ids = [] then read_all_attributes f
      else foldl (\<lambda>acc i. case read_attribute i f of Inr v \<Rightarrow> gm_put i v acc | Inl _ \<Rightarrow> acc) [] ids)"

text \<open>\<open>HandleSubscribe\<close> until the manager is called: the checks and the values read.\<close>

definition subscribe_checks :: "u64 \<Rightarrow> request \<Rightarrow> device \<Rightarrow> dispatcher \<Rightarrow> response + subscribe_params" where
  "subscribe_checks c rq dev d =
     (if gm_get (nd_connections d) c = None
      then Inl (error_response rq StatusInvalidParameter ''connection not registered'')
      else case get_endpoint (rq_endpoint_id rq) dev of
        Inl _ \<Rightarrow> Inl (error_response rq StatusInvalidEndpoint ''endpoint not found'')
      | Inr e \<Rightarrow>
     (case get_feature (rq_feature_id rq) e of
        Inl _ \<Rightarrow> Inl (error_response rq StatusInvalidFeature ''feature not found'')
      | Inr f \<Rightarrow>
     (let sp = ExtractSubscribePayload (rq_payload rq);
          ids = (case sp of None \<Rightarrow> [] | Some p \<Rightarrow> sp_attribute_ids p)
      in Inr \<lparr>su_attribute_ids = ids, su_min = fst (subscribe_intervals sp),
              su_max = snd (subscribe_intervals sp), su_values = current_priming ids f\<rparr>)))"

text \<open>The call of the manager, with the callback for the priming notification.\<close>

definition subscribe_in_manager ::
    "(notification \<Rightarrow> bool) \<Rightarrow> time \<Rightarrow> request \<Rightarrow> subscribe_params \<Rightarrow> dispatcher \<Rightarrow>
     dispatcher \<times> (response + u32) \<times> (u64 \<times> notification) list" where
  "subscribe_in_manager ok now rq p d =
     (case sub_subscribe now (ucast (rq_endpoint_id rq)) (ucast (rq_feature_id rq))
             (su_attribute_ids p) (su_min p) (su_max p) (su_values p) (nd_manager d) of
        (m, Inl err, ns) \<Rightarrow>
          (d\<lparr>nd_manager := m\<rparr>,
           Inl (error_response rq StatusResourceExhausted (sub_error_text err)),
           concat (map (handle_notification ok d) ns))
      | (m, Inr i, ns) \<Rightarrow>
          (d\<lparr>nd_manager := m\<rparr>, Inr i, concat (map (handle_notification ok d) ns)))"

definition subscribe_tracking :: "u64 \<Rightarrow> u32 \<Rightarrow> dispatcher \<Rightarrow> dispatcher" where
  "subscribe_tracking c i d =
     (let d1 = d\<lparr>nd_subscription_map := gm_put i c (nd_subscription_map d)\<rparr>
      in case gm_get (nd_connections d1) c of
           None \<Rightarrow> d1
         | Some info \<Rightarrow>
             d1\<lparr>nd_connections := gm_put c
               (info\<lparr>ci_subscription_ids := ci_subscription_ids info @ [i]\<rparr>) (nd_connections d1)\<rparr>)"

definition dispatcher_subscribe ::
    "(notification \<Rightarrow> bool) \<Rightarrow> time \<Rightarrow> u64 \<Rightarrow> request \<Rightarrow> device \<Rightarrow> dispatcher \<Rightarrow>
     dispatcher \<times> response \<times> (u64 \<times> notification) list" where
  "dispatcher_subscribe ok now c rq dev d =
     (case subscribe_checks c rq dev d of
        Inl rp \<Rightarrow> (d, rp, [])
      | Inr p \<Rightarrow>
     (case subscribe_in_manager ok now rq p d of
        (d1, Inl rp, sends) \<Rightarrow> (d1, rp, sends)
      | (d1, Inr i, sends) \<Rightarrow>
          (subscribe_tracking c i d1,
           success_response rq (ASubscribeResponse i (su_values p)), sends)))"

section \<open>Unsubscribe\<close>

text \<open>The part under the lock: the ownership test and the tracking. The payload is read as in
  the request handler (theory Dispatch).\<close>

definition unsubscribe_tracking :: "u64 \<Rightarrow> u32 \<Rightarrow> dispatcher \<Rightarrow> dispatcher option" where
  "unsubscribe_tracking c i d =
     (if gm_get (nd_subscription_map d) i \<noteq> Some c then None
      else
        let d1 = d\<lparr>nd_subscription_map := gm_del i (nd_subscription_map d)\<rparr>
        in Some (case gm_get (nd_connections d1) c of
             None \<Rightarrow> d1
           | Some info \<Rightarrow>
               d1\<lparr>nd_connections := gm_put c
                 (info\<lparr>ci_subscription_ids := remove1 i (ci_subscription_ids info)\<rparr>)
                 (nd_connections d1)\<rparr>))"

definition dispatcher_unsubscribe :: "u64 \<Rightarrow> request \<Rightarrow> dispatcher \<Rightarrow> dispatcher \<times> response" where
  "dispatcher_unsubscribe c rq d =
     (let i = unsubscribe_id (rq_payload rq)
      in if i = 0 then (d, error_response rq StatusInvalidParameter ''subscription ID required'')
         else case unsubscribe_tracking c i d of
           None \<Rightarrow> (d, error_response rq StatusInvalidParameter
                      ''subscription not found or not owned by connection'')
         | Some d1 \<Rightarrow>
             (case sub_unsubscribe i (nd_manager d1) of
                (m, Some err) \<Rightarrow> (d1\<lparr>nd_manager := m\<rparr>,
                  error_response rq StatusInvalidParameter (sub_error_text err))
              | (m, None) \<Rightarrow> (d1\<lparr>nd_manager := m\<rparr>, success_response rq ANil)))"

section \<open>Runs\<close>

datatype nd_op =
    NdRegister
  | NdUnregister u64
  | NdSubscribe time u64 request device
  | NdUnsubscribe u64 request
  | NdNotifyChange time u8 u16 u16 any
  | NdNotifyChanges time u8 u16 "(u16, any) gomap"
  | NdTick time
  | NdStart
  | NdStop
  | NdSetInterval duration
  | NdOtherManagerTakesId

text \<open>What a step gives back besides the new state.\<close>

datatype nd_result = NoResult | ConnectionId u64 | Answer response

fun nd_step :: "(notification \<Rightarrow> bool) \<Rightarrow> dispatcher \<Rightarrow> nd_op \<Rightarrow>
    dispatcher \<times> nd_result \<times> (u64 \<times> notification) list" where
  "nd_step ok d NdRegister = (case register_connection d of (d', c) \<Rightarrow> (d', ConnectionId c, []))"
| "nd_step ok d (NdUnregister c) = (unregister_connection c d, NoResult, [])"
| "nd_step ok d (NdSubscribe now c rq dev) =
     (case dispatcher_subscribe ok now c rq dev d of (d', rp, sends) \<Rightarrow> (d', Answer rp, sends))"
| "nd_step ok d (NdUnsubscribe c rq) =
     (case dispatcher_unsubscribe c rq d of (d', rp) \<Rightarrow> (d', Answer rp, []))"
| "nd_step ok d (NdNotifyChange now ep fid attr v) =
     (dispatcher_notify_change now ep fid attr v d, NoResult, [])"
| "nd_step ok d (NdNotifyChanges now ep fid cs) =
     (dispatcher_notify_changes now ep fid cs d, NoResult, [])"
| "nd_step ok d (NdTick now) = (case process_tick ok now d of (d', sends) \<Rightarrow> (d', NoResult, sends))"
| "nd_step ok d NdStart = (dispatcher_start d, NoResult, [])"
| "nd_step ok d NdStop = (dispatcher_stop d, NoResult, [])"
| "nd_step ok d (NdSetInterval i) = (set_processing_interval i d, NoResult, [])"
| "nd_step ok d NdOtherManagerTakesId = (d\<lparr>nd_manager := take_id (nd_manager d)\<rparr>, NoResult, [])"

definition nd_run :: "(notification \<Rightarrow> bool) \<Rightarrow> dispatcher \<Rightarrow> nd_op list \<Rightarrow> dispatcher" where
  "nd_run ok = foldl (\<lambda>d e. fst (nd_step ok d e))"

section \<open>Lemmas on the manager\<close>

lemma unsubscribe_subs:
  "gm_get (sm_subs (fst (sub_unsubscribe i m))) j = (if j = i then None else gm_get (sm_subs m) j)"
  "sm_on_notify (fst (sub_unsubscribe i m)) = sm_on_notify m"
  "snd (sub_unsubscribe i m) = (if gm_get (sm_subs m) i = None then Some ErrSubscriptionNotFound else None)"
  by (auto simp: sub_unsubscribe_def Let_def gomap_simps split: option.splits)

lemma unsubscribe_all:
  "gm_get (sm_subs (foldl (\<lambda>m i. fst (sub_unsubscribe i m)) m ids)) j
     = (if j \<in> set ids then None else gm_get (sm_subs m) j)"
  "sm_on_notify (foldl (\<lambda>m i. fst (sub_unsubscribe i m)) m ids) = sm_on_notify m"
  "sm_inv n m \<Longrightarrow> sm_inv n (foldl (\<lambda>m i. fst (sub_unsubscribe i m)) m ids)"
  by (induction ids arbitrary: m) (auto simp: unsubscribe_subs intro: sm_inv_unsubscribe)

lemma delete_all:
  "gm_get (foldl (\<lambda>m i. gm_del i m) m ids) j = (if j \<in> set ids then None else gm_get m j)"
  by (induction ids arbitrary: m) (auto simp: gomap_simps)

lemma subscribe_result:
  assumes "sub_subscribe now e f attrs mn mx vals m = (m', r, ns)"
  obtains (error) err where "r = Inl err" "m' = m" "ns = []"
  | (ok) "r = Inr (sm_next_id m + 1)" "sm_on_notify m' = sm_on_notify m"
      "sm_subs m' = gm_put (sm_next_id m + 1) (length (sm_store m)) (sm_subs m)"
      "\<forall>n \<in> set ns. no_subscription n = sm_next_id m + 1"
  using assms by (auto simp: sub_subscribe_def Let_def split: if_splits)

lemma fresh_subscription_id:
  assumes "sm_inv n m" and "n < 2 ^ 32 - 1"
  shows "gm_get (sm_subs m) (sm_next_id m + 1) = None"
proof -
  have "unat (sm_next_id m) < 2 ^ 32 - 1" using sm_invD(1) [OF assms(1)] assms(2) by simp
  then have "unat (sm_next_id m + 1) = Suc (unat (sm_next_id m))"
    by (simp add: unat_word_ariths unat_1)
  then have "\<not> sm_next_id m + 1 \<le> sm_next_id m" by (simp add: word_le_nat_alt)
  then show ?thesis
    using sm_inv_entry(4) [OF assms(1)] by (cases "gm_get (sm_subs m) (sm_next_id m + 1)") blast+
qed

lemma process_one_ids: "n \<in> set (snd (process_one now c s)) \<Longrightarrow> no_subscription n = sb_id s"
  using same_sub_pending [of s now "sc_suppress_bounce_back c"]
  by (auto simp: process_one_def change_notification_def heartbeat_notification_def Let_def same_sub_def
      split: prod.splits if_splits option.splits)

lemma processed_notifications_known:
  assumes "sm_inv k m" and "n \<in> set (snd (process_notifications now m))"
  shows "gm_get (sm_subs m) (no_subscription n) \<noteq> None"
proof (cases "sm_on_notify m")
  case False
  with assms(2) show ?thesis by (simp add: process_notifications_def)
next
  case True
  then obtain i a where ia: "(i, a) \<in> set (sm_subs m)"
    and n: "n \<in> set (snd (process_one now (sm_config m) (sm_store m ! a)))"
    using assms(2) unfolding process_state [OF assms(1) True] by auto
  have "gm_get (sm_subs m) i = Some a" using ia gm_get_in [OF sm_invD(2) [OF assms(1)]] by blast
  with process_one_ids [OF n] sm_inv_entry(2) [OF assms(1) this] show ?thesis by simp
qed

lemma process_subs: "sm_subs (fst (process_notifications now m)) = sm_subs m"
    "sm_on_notify (fst (process_notifications now m)) = sm_on_notify m"
  by (simp_all add: process_notifications_def split: prod.splits)

section \<open>Routing as a specification\<close>

text \<open>
  What the dispatcher promises: there are live connections, each subscription has one live
  owner, and only the owner can end it. A connection takes its subscriptions with it.
\<close>

record fan_out =
  fo_live :: "u64 set"
  fo_owner :: "u32 \<Rightarrow> u64 option"

datatype fan_event =
    Joined u64
  | Departed u64
  | Subscribed u64 u32
  | Unsubscribed u64 u32
  | NoChange

inductive fan_step :: "fan_out \<Rightarrow> fan_event \<Rightarrow> fan_out \<Rightarrow> bool" where
  joined: "c \<notin> fo_live s \<Longrightarrow> fan_step s (Joined c) (s\<lparr>fo_live := insert c (fo_live s)\<rparr>)"
| departed: "fan_step s (Departed c)
    (s\<lparr>fo_live := fo_live s - {c}, fo_owner := (\<lambda>i. if fo_owner s i = Some c then None else fo_owner s i)\<rparr>)"
| subscribed: "c \<in> fo_live s \<Longrightarrow> fo_owner s i = None \<Longrightarrow>
    fan_step s (Subscribed c i) (s\<lparr>fo_owner := (fo_owner s)(i \<mapsto> c)\<rparr>)"
| unsubscribed: "fo_owner s i = Some c \<Longrightarrow>
    fan_step s (Unsubscribed c i) (s\<lparr>fo_owner := (fo_owner s)(i := None)\<rparr>)"
| no_change: "fan_step s NoChange s"

inductive_simps fan_step_simps [simp]:
  "fan_step s (Joined c) s'" "fan_step s (Departed c) s'" "fan_step s (Subscribed c i) s'"
  "fan_step s (Unsubscribed c i) s'" "fan_step s NoChange s'"

definition fan_out_of :: "dispatcher \<Rightarrow> fan_out" where
  "fan_out_of d = \<lparr>fo_live = {c. gm_get (nd_connections d) c \<noteq> None},
     fo_owner = gm_get (nd_subscription_map d)\<rparr>"

text \<open>What a step did, as its caller can see it.\<close>

fun answered_id :: "response \<Rightarrow> u32 option" where
  "answered_id rp = (if \<not> status_is_success (rp_status rp) then None
     else case rp_payload rp of ASubscribeResponse i _ \<Rightarrow> Some i | _ \<Rightarrow> None)"

fun fan_event_of :: "nd_op \<Rightarrow> nd_result \<Rightarrow> fan_event" where
  "fan_event_of NdRegister (ConnectionId c) = Joined c"
| "fan_event_of (NdUnregister c) _ = Departed c"
| "fan_event_of (NdSubscribe _ c rq _) (Answer rp) =
     (case answered_id rp of Some i \<Rightarrow> Subscribed c i | None \<Rightarrow> NoChange)"
| "fan_event_of (NdUnsubscribe c rq) (Answer rp) =
     (if status_is_success (rp_status rp) then Unsubscribed c (unsubscribe_id (rq_payload rq))
      else NoChange)"
| "fan_event_of _ _ = NoChange"

section \<open>The invariant\<close>

definition nd_inv :: "nat \<Rightarrow> dispatcher \<Rightarrow> bool" where
  "nd_inv n d \<longleftrightarrow>
     sm_inv n (nd_manager d) \<and> sm_on_notify (nd_manager d) \<and> unat (nd_next_conn_id d) \<le> n \<and>
     (\<forall>c info. gm_get (nd_connections d) c = Some info \<longrightarrow>
        c \<le> nd_next_conn_id d \<and> distinct (ci_subscription_ids info) \<and>
        set (ci_subscription_ids info) = {i. gm_get (nd_subscription_map d) i = Some c}) \<and>
     (\<forall>i c. gm_get (nd_subscription_map d) i = Some c \<longrightarrow> gm_get (nd_connections d) c \<noteq> None) \<and>
     (\<forall>i. gm_get (nd_subscription_map d) i = None \<longleftrightarrow> gm_get (sm_subs (nd_manager d)) i = None)"

lemma nd_invD:
  assumes "nd_inv n d"
  shows "sm_inv n (nd_manager d)" "sm_on_notify (nd_manager d)" "unat (nd_next_conn_id d) \<le> n"
    and "gm_get (nd_connections d) c = Some info \<Longrightarrow> c \<le> nd_next_conn_id d"
    and "gm_get (nd_connections d) c = Some info \<Longrightarrow> distinct (ci_subscription_ids info)"
    and "gm_get (nd_connections d) c = Some info \<Longrightarrow>
      set (ci_subscription_ids info) = {i. gm_get (nd_subscription_map d) i = Some c}"
    and "gm_get (nd_subscription_map d) i = Some c \<Longrightarrow> gm_get (nd_connections d) c \<noteq> None"
    and "gm_get (nd_subscription_map d) i = None \<longleftrightarrow> gm_get (sm_subs (nd_manager d)) i = None"
  using assms unfolding nd_inv_def by blast+

lemma nd_inv_new: "nd_inv n new_dispatcher"
  using sm_inv_new [of n DefaultConfig]
  by (auto simp: nd_inv_def new_dispatcher_def sub_on_notification_def sm_inv_def new_sub_manager_def
      members_def)

lemma nd_inv_Suc: "nd_inv n d \<Longrightarrow> nd_inv (Suc n) d"
  by (auto simp: nd_inv_def intro: sm_inv_Suc)

text \<open>A step that only changes the manager, and not its set of subscriptions.\<close>

lemma nd_inv_manager:
  assumes "nd_inv n d" and "sm_inv n m" and "sm_subs m = sm_subs (nd_manager d)"
    and "sm_on_notify m = sm_on_notify (nd_manager d)"
  shows "nd_inv n (d\<lparr>nd_manager := m\<rparr>)"
  using assms by (simp add: nd_inv_def)

lemma next_u64:
  assumes "unat (w :: u64) \<le> n" and "n < 2 ^ 32 - 1"
  shows "unat (w + 1) = Suc (unat w)" "\<not> w + 1 \<le> w"
proof -
  have "unat w < 2 ^ 64 - 1" using assms by simp
  then show "unat (w + 1) = Suc (unat w)" by (simp add: unat_word_ariths unat_1)
  then show "\<not> w + 1 \<le> w" by (simp add: word_le_nat_alt)
qed

lemma register_refines:
  assumes inv: "nd_inv n d" and n: "n < 2 ^ 32 - 1" and r: "register_connection d = (d', c)"
  shows "nd_inv (Suc n) d' \<and> fan_step (fan_out_of d) (Joined c) (fan_out_of d')"
proof -
  note i = nd_invD [OF inv]
  have c: "c = nd_next_conn_id d + 1" and d': "d' = d\<lparr>nd_next_conn_id := c,
      nd_connections := gm_put c \<lparr>ci_id = c, ci_subscription_ids = []\<rparr> (nd_connections d)\<rparr>"
    using r by (auto simp: register_connection_def Let_def)
  note succ = next_u64 [OF i(3) n]
  have new: "gm_get (nd_connections d) c = None"
    using i(4) succ(2) by (cases "gm_get (nd_connections d) c") (auto simp: c)
  have none: "gm_get (nd_subscription_map d) j \<noteq> Some c" for j using i(7) new by blast
  have le: "e \<le> c" if "e \<le> nd_next_conn_id d" for e
    using that succ(1) by (simp add: c word_le_nat_alt)
  have "nd_inv (Suc n) d'"
    using i(1-3) succ(1) i(4-8) none le sm_inv_Suc [OF i(1)]
    by (auto simp: nd_inv_def d' gomap_simps c)
  then show ?thesis using new by (auto simp: fan_out_of_def d' gomap_simps)
qed

lemma unregister_refines:
  assumes inv: "nd_inv n d"
  shows "nd_inv n (unregister_connection c d) \<and>
    fan_step (fan_out_of d) (Departed c) (fan_out_of (unregister_connection c d))"
proof (cases "gm_get (nd_connections d) c")
  case None
  then have "gm_get (nd_subscription_map d) j \<noteq> Some c" for j using nd_invD(7) [OF inv] by blast
  with None inv show ?thesis
    by (auto simp: unregister_connection_def unregister_tracking_def unsubscribe_ids_def fan_out_of_def fun_eq_iff)
next
  case (Some info)
  note i = nd_invD [OF inv]
  let ?d = "unregister_connection c d" and ?ids = "ci_subscription_ids info"
  have d': "nd_connections ?d = gm_del c (nd_connections d)" "nd_next_conn_id ?d = nd_next_conn_id d"
    "nd_subscription_map ?d = foldl (\<lambda>m i. gm_del i m) (nd_subscription_map d) ?ids"
    "nd_manager ?d = foldl (\<lambda>m i. fst (sub_unsubscribe i m)) (nd_manager d) ?ids"
    using Some by (simp_all add: unregister_connection_def unregister_tracking_def unsubscribe_ids_def)
  have map: "gm_get (nd_subscription_map ?d) j
      = (if gm_get (nd_subscription_map d) j = Some c then None else gm_get (nd_subscription_map d) j)" for j
    using i(6) [OF Some] by (simp add: d'(3) delete_all)
  have "nd_inv n ?d"
    unfolding nd_inv_def
  proof (intro conjI allI impI)
    show "sm_inv n (nd_manager ?d)" "sm_on_notify (nd_manager ?d)"
      using i(1,2) by (simp_all add: d'(4) unsubscribe_all)
    show "unat (nd_next_conn_id ?d) \<le> n" using i(3) by (simp add: d'(2))
  next
    fix e inf assume "gm_get (nd_connections ?d) e = Some inf"
    then have e: "gm_get (nd_connections d) e = Some inf" "e \<noteq> c"
      by (auto simp: d'(1) gomap_simps split: if_splits)
    then show "e \<le> nd_next_conn_id ?d" "distinct (ci_subscription_ids inf)"
      using i(4,5) by (auto simp: d'(2))
    show "set (ci_subscription_ids inf) = {i. gm_get (nd_subscription_map ?d) i = Some e}"
      using i(6) [OF e(1)] e(2) by (auto simp: map)
  next
    fix j e assume "gm_get (nd_subscription_map ?d) j = Some e"
    then show "gm_get (nd_connections ?d) e \<noteq> None"
      using i(7) [of j e] by (auto simp: map d'(1) gomap_simps split: if_splits)
  next
    show "gm_get (nd_subscription_map ?d) j = None \<longleftrightarrow> gm_get (sm_subs (nd_manager ?d)) j = None" for j
      using i(8) [of j] i(6) [OF Some] by (auto simp: map d'(4) unsubscribe_all)
  qed
  moreover have "fan_step (fan_out_of d) (Departed c) (fan_out_of ?d)"
    by (auto simp: fan_out_of_def map d'(1) gomap_simps fun_eq_iff)
  ultimately show ?thesis by blast
qed

lemma answered_simps [simp]:
  "st \<noteq> StatusSuccess \<Longrightarrow> answered_id (error_response rq st msg) = None"
  "answered_id (success_response rq (ASubscribeResponse i vs)) = Some i"
  by (simp_all add: error_response_def success_response_def status_is_success_def)

lemma status_success_simps [simp]:
  "status_is_success (rp_status (error_response rq st msg)) \<longleftrightarrow> st = StatusSuccess"
  "status_is_success (rp_status (success_response rq p))"
  by (simp_all add: error_response_def success_response_def status_is_success_def)

lemma subscribe_checks_result:
  assumes "subscribe_checks c rq dev d = r"
  shows "case r of Inl rp \<Rightarrow> answered_id rp = None | Inr p \<Rightarrow> gm_get (nd_connections d) c \<noteq> None"
  using assms
  by (auto simp: subscribe_checks_def Let_def status_defs error_response_def status_is_success_def
      split: sum.splits if_splits)

lemma track_refines:
  assumes inv: "nd_inv n d" and n: "n < 2 ^ 32 - 1" and live: "gm_get (nd_connections d) c = Some info"
    and m: "sm_inv (Suc n) m" "sm_on_notify m"
      "sm_subs m = gm_put i a (sm_subs (nd_manager d))" and new: "gm_get (sm_subs (nd_manager d)) i = None"
  shows "nd_inv (Suc n) (subscribe_tracking c i (d\<lparr>nd_manager := m\<rparr>)) \<and>
    fan_step (fan_out_of d) (Subscribed c i) (fan_out_of (subscribe_tracking c i (d\<lparr>nd_manager := m\<rparr>)))"
proof -
  note v = nd_invD [OF inv]
  let ?d = "subscribe_tracking c i (d\<lparr>nd_manager := m\<rparr>)"
  let ?info = "info\<lparr>ci_subscription_ids := ci_subscription_ids info @ [i]\<rparr>"
  have d': "nd_subscription_map ?d = gm_put i c (nd_subscription_map d)" "nd_manager ?d = m"
    "nd_connections ?d = gm_put c ?info (nd_connections d)" "nd_next_conn_id ?d = nd_next_conn_id d"
    using live by (simp_all add: subscribe_tracking_def Let_def)
  have none: "gm_get (nd_subscription_map d) i = None" using v(8) new by blast
  have "nd_inv (Suc n) ?d"
    unfolding nd_inv_def
  proof (intro conjI allI impI)
    show "sm_inv (Suc n) (nd_manager ?d)" "sm_on_notify (nd_manager ?d)" using m by (simp_all add: d')
    show "unat (nd_next_conn_id ?d) \<le> Suc n" using v(3) by (simp add: d')
  next
    fix e inf assume "gm_get (nd_connections ?d) e = Some inf"
    then have e: "e = c \<and> inf = ?info \<or> e \<noteq> c \<and> gm_get (nd_connections d) e = Some inf"
      by (auto simp: d' gomap_simps split: if_splits)
    then show "e \<le> nd_next_conn_id ?d" using v(4) live by (auto simp: d')
    show "distinct (ci_subscription_ids inf)"
      using e v(5) v(6) [OF live] live none by auto
    show "set (ci_subscription_ids inf) = {j. gm_get (nd_subscription_map ?d) j = Some e}"
    proof (cases "e = c")
      case True
      with e have "inf = ?info" by simp
      then show ?thesis
        unfolding True using v(6) [OF live] by (auto simp: d' gomap_simps)
    next
      case False
      with e have "gm_get (nd_connections d) e = Some inf" by simp
      from v(6) [OF this] False none show ?thesis by (auto simp: d' gomap_simps)
    qed
  next
    fix j e assume "gm_get (nd_subscription_map ?d) j = Some e"
    then show "gm_get (nd_connections ?d) e \<noteq> None"
      using v(7) [of j e] live by (auto simp: d' gomap_simps split: if_splits)
  next
    show "gm_get (nd_subscription_map ?d) j = None \<longleftrightarrow> gm_get (sm_subs (nd_manager ?d)) j = None" for j
      using v(8) [of j] by (simp add: d' m(3) gomap_simps)
  qed
  moreover have "fan_step (fan_out_of d) (Subscribed c i) (fan_out_of ?d)"
    using live none by (auto simp: fan_out_of_def d' gomap_simps fun_eq_iff)
  ultimately show ?thesis by blast
qed

lemma unrouted: "\<forall>n \<in> set ns. gm_get (nd_subscription_map d) (no_subscription n) = None \<Longrightarrow>
    concat (map (handle_notification ok d) ns) = []"
  by (simp add: handle_notification_def)

lemma subscribe_refines:
  assumes inv: "nd_inv n d" and n: "n < 2 ^ 32 - 1"
    and r: "dispatcher_subscribe ok now c rq dev d = (d', rp, sends)"
  shows "nd_inv (Suc n) d' \<and> sends = [] \<and>
    fan_step (fan_out_of d) (fan_event_of (NdSubscribe now c rq dev) (Answer rp)) (fan_out_of d')"
proof (cases "subscribe_checks c rq dev d")
  case (Inl rp')
  with r subscribe_checks_result [OF Inl] nd_inv_Suc [OF inv] show ?thesis
    by (auto simp: dispatcher_subscribe_def simp del: answered_id.simps)
next
  case (Inr p)
  note v = nd_invD [OF inv]
  obtain info where live: "gm_get (nd_connections d) c = Some info"
    using subscribe_checks_result [OF Inr] by auto
  obtain m r' ns where s: "sub_subscribe now (ucast (rq_endpoint_id rq)) (ucast (rq_feature_id rq))
      (su_attribute_ids p) (su_min p) (su_max p) (su_values p) (nd_manager d) = (m, r', ns)"
    by (metis prod_cases3)
  show ?thesis
  proof (cases rule: subscribe_result [OF s])
    case (1 err)
    then have eq: "d' = d" "sends = []"
      "rp = error_response rq StatusResourceExhausted (sub_error_text err)"
      using r Inr s by (simp_all add: dispatcher_subscribe_def subscribe_in_manager_def)
    have "answered_id rp = None" unfolding eq(3) by (rule answered_simps(1)) (simp add: status_defs)
    note eq = eq(1,2) this
    with nd_inv_Suc [OF inv] eq show ?thesis by (simp del: answered_id.simps)
  next
    case 2
    let ?i = "sm_next_id (nd_manager d) + 1"
    have new: "gm_get (sm_subs (nd_manager d)) ?i = None" by (rule fresh_subscription_id [OF v(1) n])
    have d': "d' = subscribe_tracking c ?i (d\<lparr>nd_manager := m\<rparr>)" "answered_id rp = Some ?i"
      and sends: "sends = concat (map (handle_notification ok d) ns)"
      using r Inr s 2(1) by (auto simp add: dispatcher_subscribe_def subscribe_in_manager_def
          simp del: answered_id.simps)
    have "sm_inv (Suc n) m"
      using sm_inv_subscribe [OF v(1) n, of now "ucast (rq_endpoint_id rq)" "ucast (rq_feature_id rq)"
          "su_attribute_ids p" "su_min p" "su_max p" "su_values p"] s by simp
    from track_refines [OF inv n live this _ 2(3) new] 2(2) v(2)
    have "nd_inv (Suc n) d' \<and> fan_step (fan_out_of d) (Subscribed c ?i) (fan_out_of d')"
      unfolding d' by simp
    moreover have "sends = []"
      unfolding sends using 2(4) new v(8) [of ?i] by (intro unrouted) auto
    ultimately show ?thesis using d'(2) by (simp del: answered_id.simps fan_step_simps)
  qed
qed

lemma untrack_refines:
  assumes inv: "nd_inv n d" and t: "unsubscribe_tracking c i d = Some d1"
    and m: "fst (sub_unsubscribe i (nd_manager d)) = m"
  shows "nd_inv n (d1\<lparr>nd_manager := m\<rparr>) \<and>
    fan_step (fan_out_of d) (Unsubscribed c i) (fan_out_of (d1\<lparr>nd_manager := m\<rparr>)) \<and>
    nd_manager d1 = nd_manager d \<and> snd (sub_unsubscribe i (nd_manager d)) = None"
proof -
  note v = nd_invD [OF inv]
  have own: "gm_get (nd_subscription_map d) i = Some c"
    using t by (auto simp: unsubscribe_tracking_def Let_def split: if_splits)
  obtain info where live: "gm_get (nd_connections d) c = Some info" using v(7) [OF own] by blast
  let ?info = "info\<lparr>ci_subscription_ids := remove1 i (ci_subscription_ids info)\<rparr>"
  let ?d = "d1\<lparr>nd_manager := m\<rparr>"
  have d': "nd_subscription_map ?d = gm_del i (nd_subscription_map d)" "nd_manager ?d = m"
    "nd_connections ?d = gm_put c ?info (nd_connections d)" "nd_next_conn_id ?d = nd_next_conn_id d"
    "nd_manager d1 = nd_manager d"
    using t own live by (auto simp: unsubscribe_tracking_def Let_def)
  have "nd_inv n ?d"
    unfolding nd_inv_def
  proof (intro conjI allI impI)
    show "sm_inv n (nd_manager ?d)" "sm_on_notify (nd_manager ?d)"
      using v(1,2) by (auto simp: d' m [symmetric] unsubscribe_subs intro: sm_inv_unsubscribe)
    show "unat (nd_next_conn_id ?d) \<le> n" using v(3) by (simp add: d')
  next
    fix e inf assume "gm_get (nd_connections ?d) e = Some inf"
    then have e: "e = c \<and> inf = ?info \<or> e \<noteq> c \<and> gm_get (nd_connections d) e = Some inf"
      by (auto simp: d' gomap_simps split: if_splits)
    then show "e \<le> nd_next_conn_id ?d" using v(4) live by (auto simp: d')
    show "distinct (ci_subscription_ids inf)" using e v(5) [of e] v(5) [OF live] by auto
    show "set (ci_subscription_ids inf) = {j. gm_get (nd_subscription_map ?d) j = Some e}"
    proof (cases "e = c")
      case True
      with e have "inf = ?info" by simp
      then show ?thesis
        unfolding True using v(6) [OF live] v(5) [OF live] by (auto simp: d' gomap_simps)
    next
      case False
      with e have "gm_get (nd_connections d) e = Some inf" by simp
      from v(6) [OF this] False own show ?thesis by (auto simp: d' gomap_simps)
    qed
  next
    fix j e assume "gm_get (nd_subscription_map ?d) j = Some e"
    then show "gm_get (nd_connections ?d) e \<noteq> None"
      using v(7) [of j e] by (auto simp: d' gomap_simps split: if_splits)
  next
    show "gm_get (nd_subscription_map ?d) j = None \<longleftrightarrow> gm_get (sm_subs (nd_manager ?d)) j = None" for j
      using v(8) [of j] unfolding d'(1,2) by (simp add: m [symmetric] unsubscribe_subs gomap_simps)
  qed
  moreover have "fan_step (fan_out_of d) (Unsubscribed c i) (fan_out_of ?d)"
    using live own by (auto simp: fan_out_of_def d' gomap_simps fun_eq_iff)
  moreover have "snd (sub_unsubscribe i (nd_manager d)) = None"
    using own v(8) [of i] by (simp add: unsubscribe_subs)
  ultimately show ?thesis using d'(5) by blast
qed

lemma unsubscribe_refines:
  assumes inv: "nd_inv n d" and r: "dispatcher_unsubscribe c rq d = (d', rp)"
  shows "nd_inv n d' \<and>
    fan_step (fan_out_of d) (fan_event_of (NdUnsubscribe c rq) (Answer rp)) (fan_out_of d')"
proof (cases "unsubscribe_id (rq_payload rq) = 0 \<or>
    unsubscribe_tracking c (unsubscribe_id (rq_payload rq)) d = None")
  case True
  then have "d' = d \<and> \<not> status_is_success (rp_status rp)"
    using r by (cases "unsubscribe_id (rq_payload rq) = 0")
      (auto simp: dispatcher_unsubscribe_def status_defs)
  with inv show ?thesis by simp
next
  case False
  let ?i = "unsubscribe_id (rq_payload rq)"
  obtain d1 where d1: "unsubscribe_tracking c ?i d = Some d1" using False by blast
  obtain m e where m: "sub_unsubscribe ?i (nd_manager d) = (m, e)"
    by (cases "sub_unsubscribe ?i (nd_manager d)")
  have t: "nd_inv n (d1\<lparr>nd_manager := m\<rparr>)" "nd_manager d1 = nd_manager d" "e = None"
      "fan_step (fan_out_of d) (Unsubscribed c ?i) (fan_out_of (d1\<lparr>nd_manager := m\<rparr>))"
    using untrack_refines [OF inv d1] m by simp_all
  then have "d' = d1\<lparr>nd_manager := m\<rparr>" "rp = success_response rq ANil"
    using r False d1 m by (simp_all add: dispatcher_unsubscribe_def)
  with t show ?thesis by simp
qed

text \<open>The notifications of a tick, each routed to its owner.\<close>

definition routed_notifications ::
    "(notification \<Rightarrow> bool) \<Rightarrow> fan_out \<Rightarrow> sub_notification list \<Rightarrow> (u64 \<times> notification) list" where
  "routed_notifications ok s ns =
     map (\<lambda>n. (the (fo_owner s (no_subscription n)), wire_notification n))
       (filter (\<lambda>n. ok (wire_notification n)) ns)"

lemma tick_refines:
  assumes inv: "nd_inv n d" and run: "nd_running d"
    and r: "process_notifications now (nd_manager d) = (m, ns)"
  shows "process_tick ok now d = (d\<lparr>nd_manager := m\<rparr>, routed_notifications ok (fan_out_of d) ns) \<and>
    (\<forall>k \<in> set ns. \<exists>c. fo_owner (fan_out_of d) (no_subscription k) = Some c \<and> c \<in> fo_live (fan_out_of d))"
proof -
  note v = nd_invD [OF inv]
  have own: "\<exists>c. gm_get (nd_subscription_map d) (no_subscription k) = Some c \<and> gm_get (nd_connections d) c \<noteq> None"
    if "k \<in> set ns" for k
  proof -
    have "k \<in> set (snd (process_notifications now (nd_manager d)))" using that r by simp
    then have "gm_get (nd_subscription_map d) (no_subscription k) \<noteq> None"
      using processed_notifications_known [OF v(1)] v(8) by blast
    then show ?thesis using v(7) by blast
  qed
  have "handle_notification ok d k = (if ok (wire_notification k)
      then [(the (fo_owner (fan_out_of d) (no_subscription k)), wire_notification k)] else [])"
    if "k \<in> set ns" for k
    using own [OF that] by (auto simp: fan_out_of_def handle_notification_def)
  then have "concat (map (handle_notification ok d) ns) = routed_notifications ok (fan_out_of d) ns"
    by (induction ns) (simp_all add: routed_notifications_def)
  with run r own show ?thesis by (simp add: process_tick_def fan_out_of_def)
qed

lemma nd_step_refines:
  assumes inv: "nd_inv n d" and n: "n < 2 ^ 32 - 1" and r: "nd_step ok d e = (d', res, sends)"
  shows "nd_inv (Suc n) d' \<and> fan_step (fan_out_of d) (fan_event_of e res) (fan_out_of d') \<and>
    (\<forall>(c, k) \<in> set sends. fo_owner (fan_out_of d) (nt_subscription_id k) = Some c \<and>
       c \<in> fo_live (fan_out_of d))"
proof -
  have same: "nd_inv (Suc n) (d\<lparr>nd_manager := m\<rparr>) \<and> fan_out_of (d\<lparr>nd_manager := m\<rparr>) = fan_out_of d"
    if "sm_inv n m \<or> sm_inv (Suc n) m" "sm_subs m = sm_subs (nd_manager d)"
      "sm_on_notify m = sm_on_notify (nd_manager d)" for m
    using nd_inv_manager [OF nd_inv_Suc [OF inv], of m] that sm_inv_Suc by (auto simp: fan_out_of_def)
  show ?thesis
  proof (cases e)
    case NdRegister
    then show ?thesis using r register_refines [OF inv n] by (auto split: prod.splits)
  next
    case (NdUnregister c)
    then show ?thesis using r unregister_refines [OF inv, of c] nd_inv_Suc by auto
  next
    case (NdSubscribe now c rq dev)
    obtain d1 rp s1 where s: "dispatcher_subscribe ok now c rq dev d = (d1, rp, s1)" by (metis prod_cases3)
    from subscribe_refines [OF inv n s] NdSubscribe r s show ?thesis
      by (simp del: fan_step_simps fan_event_of.simps)
  next
    case (NdUnsubscribe c rq)
    obtain d1 rp where s: "dispatcher_unsubscribe c rq d = (d1, rp)" by (metis surj_pair)
    from unsubscribe_refines [OF inv s] NdUnsubscribe r s nd_inv_Suc show ?thesis
      by (simp del: fan_step_simps fan_event_of.simps)
  next
    case (NdNotifyChange now ep fid attr v)
    then show ?thesis
      using r same [of "notify_change now (ucast ep) fid attr v (nd_manager d)"]
        sm_inv_notify [OF nd_invD(1) [OF inv]]
      by (auto simp: dispatcher_notify_change_def notify_change_def)
  next
    case (NdNotifyChanges now ep fid cs)
    then show ?thesis
      using r same [of "notify_changes now (ucast ep) fid cs (nd_manager d)"]
        sm_inv_notify_changes [OF nd_invD(1) [OF inv]]
      by (auto simp: dispatcher_notify_changes_def notify_changes_def)
  next
    case (NdTick now)
    obtain m ns where p: "process_notifications now (nd_manager d) = (m, ns)" by (metis surj_pair)
    have m: "nd_inv (Suc n) (d\<lparr>nd_manager := m\<rparr>)" "fan_out_of (d\<lparr>nd_manager := m\<rparr>) = fan_out_of d"
      using same [of m] sm_inv_process [OF nd_invD(1) [OF inv], of now] process_subs [of now "nd_manager d"] p
      by simp_all
    show ?thesis
    proof (cases "nd_running d")
      case True
      with tick_refines [OF inv True p, of ok] r NdTick m show ?thesis
        by (fastforce simp: routed_notifications_def wire_notification_def)
    next
      case False
      with r NdTick nd_inv_Suc [OF inv] show ?thesis by (simp add: process_tick_def)
    qed
  next
    case NdOtherManagerTakesId
    then show ?thesis
      using r same [of "take_id (nd_manager d)"] sm_inv_take_id [OF nd_invD(1) [OF inv] n]
      by (auto simp: take_id_def)
  qed (use r nd_inv_Suc [OF inv] in
      \<open>auto simp: dispatcher_start_def dispatcher_stop_def set_processing_interval_def nd_inv_def fan_out_of_def\<close>)
qed

interpretation dispatch_machine: supply_machine "\<lambda>d e. fst (nd_step ok d e)" nd_inv "2 ^ 32 - 1"
  by unfold_locales (metis nd_step_refines prod.collapse)

section \<open>Properties\<close>

text \<open>C1. The dispatcher implements the routing specification: after any run of its handlers,
  every handler takes one step of the specification, the subscriptions of the manager are
  exactly those with an owner, and each notification is sent to the live owner of its
  subscription. A tick sends every notification the manager has, in order.\<close>

theorem dispatcher_refines_fan_out:
  assumes "length es < 2 ^ 32 - 1" and "d = nd_run ok new_dispatcher es"
    and "nd_step ok d e = (d', res, sends)"
  shows "fan_step (fan_out_of d) (fan_event_of e res) (fan_out_of d') \<and>
    (\<forall>i. fo_owner (fan_out_of d) i = None \<longleftrightarrow> gm_get (sm_subs (nd_manager d)) i = None) \<and>
    (\<forall>(c, k) \<in> set sends. fo_owner (fan_out_of d) (nt_subscription_id k) = Some c \<and>
       c \<in> fo_live (fan_out_of d)) \<and>
    (\<forall>now. e = NdTick now \<and> nd_running d \<longrightarrow>
       sends = routed_notifications ok (fan_out_of d) (snd (process_notifications now (nd_manager d))))"
proof -
  have inv: "nd_inv (0 + length es) d"
    unfolding assms(2) nd_run_def
    by (rule dispatch_machine.run_within [OF nd_inv_new]) (use assms(1) in simp)
  have "sends = routed_notifications ok (fan_out_of d) (snd (process_notifications now (nd_manager d)))"
    if "e = NdTick now" "nd_running d" for now
    using tick_refines [OF inv that(2), of now] assms(3) that(1)
    by (cases "process_notifications now (nd_manager d)") auto
  moreover have "fo_owner (fan_out_of d) i = None \<longleftrightarrow> gm_get (sm_subs (nd_manager d)) i = None" for i
    using nd_invD(8) [OF inv] by (simp add: fan_out_of_def)
  moreover have "0 + length es < 2 ^ 32 - 1" using assms(1) by simp
  note nd_step_refines [OF inv this assms(3)]
  ultimately show ?thesis by blast
qed

text \<open>A subscription whose connection is gone but which nobody unsubscribed.\<close>

definition leaked :: "u64 \<Rightarrow> u32 \<Rightarrow> dispatcher \<Rightarrow> bool" where
  "leaked c i d \<longleftrightarrow> gm_get (nd_subscription_map d) i = Some c \<and> gm_get (nd_connections d) c = None \<and>
     gm_get (sm_subs (nd_manager d)) i \<noteq> None"

definition leak_inv :: "u64 \<Rightarrow> u32 \<Rightarrow> nat \<Rightarrow> dispatcher \<Rightarrow> bool" where
  "leak_inv c i n d \<longleftrightarrow> leaked c i d \<and> sm_inv n (nd_manager d) \<and> c \<le> nd_next_conn_id d \<and>
     unat (nd_next_conn_id d) \<le> n \<and>
     (\<forall>e info. gm_get (nd_connections d) e = Some info \<longrightarrow> i \<notin> set (ci_subscription_ids info))"

lemma leak_invD:
  assumes "leak_inv c i n d"
  shows "gm_get (nd_subscription_map d) i = Some c" "gm_get (nd_connections d) c = None"
    "gm_get (sm_subs (nd_manager d)) i \<noteq> None" "sm_inv n (nd_manager d)" "c \<le> nd_next_conn_id d"
    "unat (nd_next_conn_id d) \<le> n"
    "gm_get (nd_connections d) e = Some info \<Longrightarrow> i \<notin> set (ci_subscription_ids info)"
  using assms unfolding leak_inv_def leaked_def by blast+

lemma leak_inv_Suc: "leak_inv c i n d \<Longrightarrow> leak_inv c i (Suc n) d"
  by (auto simp: leak_inv_def intro: sm_inv_Suc)

lemma leak_inv_manager:
  assumes "leak_inv c i n d" and "sm_inv n' m" and "n \<le> n'"
    and "gm_get (sm_subs m) i = gm_get (sm_subs (nd_manager d)) i"
  shows "leak_inv c i n' (d\<lparr>nd_manager := m\<rparr>)"
  using assms by (simp add: leak_inv_def leaked_def)

lemma leak_subscribe:
  assumes inv: "leak_inv c i n d" and n: "n < 2 ^ 32 - 1"
    and r: "dispatcher_subscribe ok now c' rq dev d = (d', rp, sends)"
  shows "leak_inv c i (Suc n) d'"
proof (cases "subscribe_checks c' rq dev d")
  case (Inl rp')
  with r leak_inv_Suc [OF inv] show ?thesis by (auto simp: dispatcher_subscribe_def)
next
  case (Inr p)
  note v = leak_invD [OF inv]
  obtain info where live: "gm_get (nd_connections d) c' = Some info"
    using subscribe_checks_result [OF Inr] by auto
  with v(2) have c': "c' \<noteq> c" by auto
  obtain m r' ns where s: "sub_subscribe now (ucast (rq_endpoint_id rq)) (ucast (rq_feature_id rq))
      (su_attribute_ids p) (su_min p) (su_max p) (su_values p) (nd_manager d) = (m, r', ns)"
    by (metis prod_cases3)
  have m: "sm_inv (Suc n) m"
    using sm_inv_subscribe [OF v(4) n, of now "ucast (rq_endpoint_id rq)" "ucast (rq_feature_id rq)"
        "su_attribute_ids p" "su_min p" "su_max p" "su_values p"] s by simp
  show ?thesis
  proof (cases rule: subscribe_result [OF s])
    case (1 err)
    then have "d' = d" using r Inr s by (auto simp: dispatcher_subscribe_def subscribe_in_manager_def)
    with leak_inv_Suc [OF inv] show ?thesis by simp
  next
    case 2
    let ?i = "sm_next_id (nd_manager d) + 1"
    have i: "?i \<noteq> i" using fresh_subscription_id [OF v(4) n] v(3) by auto
    have "d' = subscribe_tracking c' ?i (d\<lparr>nd_manager := m\<rparr>)"
      using r Inr s 2(1) by (simp add: dispatcher_subscribe_def subscribe_in_manager_def)
    moreover have "leak_inv c i (Suc n) (d\<lparr>nd_manager := m\<rparr>)"
      by (rule leak_inv_manager [OF inv m]) (use i 2(3) in \<open>simp_all add: gomap_simps\<close>)
    ultimately show ?thesis
      using live c' i by (auto simp: subscribe_tracking_def Let_def leak_inv_def leaked_def gomap_simps)
  qed
qed

lemma leak_step:
  assumes inv: "leak_inv c i n d" and n: "n < 2 ^ 32 - 1"
    and e: "\<And>rq. e = NdUnsubscribe c rq \<Longrightarrow> unsubscribe_id (rq_payload rq) \<noteq> i"
  shows "leak_inv c i (Suc n) (fst (nd_step ok d e)) \<and>
    (\<forall>(c', k) \<in> set (snd (snd (nd_step ok d e))). nt_subscription_id k \<noteq> i)"
proof -
  note v = leak_invD [OF inv]
  have unsent: "(c', k) \<notin> set (concat (map (handle_notification ok d) ns))"
    if "nt_subscription_id k = i" for c' k ns
    using that v(1,2) by (auto simp: handle_notification_def wire_notification_def split: option.splits if_splits)
  show ?thesis
  proof (cases e)
    case NdRegister
    note succ = next_u64 [OF v(6) n]
    have "c \<le> nd_next_conn_id d + 1" "c \<noteq> nd_next_conn_id d + 1"
      using v(5) succ by (auto simp: word_le_nat_alt)
    with inv NdRegister succ(1) leak_inv_Suc [OF inv] show ?thesis
      by (auto simp: register_connection_def Let_def leak_inv_def leaked_def gomap_simps)
  next
    case (NdUnregister c')
    show ?thesis
    proof (cases "gm_get (nd_connections d) c'")
      case None
      with NdUnregister leak_inv_Suc [OF inv] show ?thesis
        by (simp add: unregister_connection_def unregister_tracking_def unsubscribe_ids_def)
    next
      case (Some info)
      with v(7) [OF Some] inv NdUnregister show ?thesis
        by (auto simp: unregister_connection_def unregister_tracking_def unsubscribe_ids_def leak_inv_def
          leaked_def gomap_simps delete_all unsubscribe_all intro: sm_inv_Suc)
    qed
  next
    case (NdSubscribe now c' rq dev)
    obtain d1 rp s1 where s: "dispatcher_subscribe ok now c' rq dev d = (d1, rp, s1)" by (metis prod_cases3)
    have "(c'', k) \<notin> set s1" if "nt_subscription_id k = i" for c'' k
      using s unsent [OF that]
      by (auto simp: dispatcher_subscribe_def subscribe_in_manager_def split: sum.splits prod.splits)
    with leak_subscribe [OF inv n s] NdSubscribe s show ?thesis by auto
  next
    case (NdUnsubscribe c' rq)
    let ?i = "unsubscribe_id (rq_payload rq)"
    have "?i = i \<Longrightarrow> c' \<noteq> c" using e NdUnsubscribe by blast
    show ?thesis
    proof (cases "?i = 0 \<or> gm_get (nd_subscription_map d) ?i \<noteq> Some c'")
      case True
      then have "fst (dispatcher_unsubscribe c' rq d) = d"
        by (auto simp: dispatcher_unsubscribe_def unsubscribe_tracking_def Let_def)
      with leak_inv_Suc [OF inv] NdUnsubscribe show ?thesis by (simp add: split_beta)
    next
      case False
      with \<open>?i = i \<Longrightarrow> c' \<noteq> c\<close> v(1) have i: "?i \<noteq> i" by auto
      let ?d = "fst (dispatcher_unsubscribe c' rq d)"
      have d': "nd_manager ?d = fst (sub_unsubscribe ?i (nd_manager d))"
        "nd_subscription_map ?d = gm_del ?i (nd_subscription_map d)" "nd_next_conn_id ?d = nd_next_conn_id d"
        "nd_connections ?d = (case gm_get (nd_connections d) c' of None \<Rightarrow> nd_connections d
           | Some info \<Rightarrow> gm_put c' (info\<lparr>ci_subscription_ids := remove1 ?i (ci_subscription_ids info)\<rparr>)
               (nd_connections d))"
        using False
        by (auto simp: dispatcher_unsubscribe_def unsubscribe_tracking_def Let_def split: option.splits prod.splits)
      have "leak_inv c i (Suc n) ?d"
        using inv i v(2) by (auto simp: leak_inv_def leaked_def d' gomap_simps unsubscribe_subs
          intro: sm_inv_Suc sm_inv_unsubscribe notin_set_remove1 split: option.splits if_splits)
      with NdUnsubscribe show ?thesis by (simp add: split_beta)
    qed
  next
    case (NdTick now)
    have "leak_inv c i (Suc n) (d\<lparr>nd_manager := fst (process_notifications now (nd_manager d))\<rparr>)"
      using sm_inv_Suc [OF sm_inv_process [OF v(4)]]
      by (intro leak_inv_manager [OF inv]) (simp_all add: process_subs)
    with NdTick unsent leak_inv_Suc [OF inv] show ?thesis
      by (auto simp: process_tick_def split: prod.splits)
  next
    case NdOtherManagerTakesId
    then show ?thesis
      using leak_inv_manager [OF inv sm_inv_take_id [OF v(4) n]] by (auto simp: take_id_def)
  next
    case (NdNotifyChange now ep fid attr w)
    then show ?thesis
      using leak_inv_manager [OF inv sm_inv_Suc [OF sm_inv_notify [OF v(4)]]]
      by (auto simp: dispatcher_notify_change_def notify_change_def)
  next
    case (NdNotifyChanges now ep fid cs)
    then show ?thesis
      using leak_inv_manager [OF inv sm_inv_Suc [OF sm_inv_notify_changes [OF v(4)]]]
      by (auto simp: dispatcher_notify_changes_def notify_changes_def)
  qed (use leak_inv_Suc [OF inv] in
      \<open>auto simp: dispatcher_start_def dispatcher_stop_def set_processing_interval_def leak_inv_def leaked_def\<close>)
qed

text \<open>\<open>HandleSubscribe\<close> lets go of the lock between its test for the connection and the
  recording of the subscription. When \<open>UnregisterConnection\<close> falls in between, the
  subscription is recorded for the connection that is gone: it stays with the manager,
  counts against the limit and is never sent to anybody, whatever the other connections do
  and however long the dispatcher runs.\<close>

theorem unregister_during_subscribe_leaks:
  assumes "length es + length qs < 2 ^ 32 - 2" and "d = nd_run ok new_dispatcher es"
    and "subscribe_checks c rq dev d = Inr p" and "subscribe_in_manager ok now rq p d = (d1, Inr i, sends)"
    and "d2 = subscribe_tracking c i (unregister_connection c d1)"
    and "\<And>rq. NdUnsubscribe c rq \<in> set qs \<Longrightarrow> unsubscribe_id (rq_payload rq) \<noteq> i"
  shows "leaked c i (nd_run ok d2 qs) \<and>
    (\<forall>now. \<forall>(c', k) \<in> set (snd (process_tick ok now (nd_run ok d2 qs))). nt_subscription_id k \<noteq> i)"
proof -
  have n: "length es < 2 ^ 32 - 1" using assms(1) by simp
  have inv: "nd_inv (length es) d"
    using dispatch_machine.run_within [OF nd_inv_new, of 0 es ok] n unfolding assms(2) nd_run_def by simp
  note v = nd_invD [OF inv]
  obtain info where live: "gm_get (nd_connections d) c = Some info"
    using subscribe_checks_result [OF assms(3)] by auto
  obtain m r' ns where s: "sub_subscribe now (ucast (rq_endpoint_id rq)) (ucast (rq_feature_id rq))
      (su_attribute_ids p) (su_min p) (su_max p) (su_values p) (nd_manager d) = (m, r', ns)"
    by (metis prod_cases3)
  have d1: "d1 = d\<lparr>nd_manager := m\<rparr>" and r': "r' = Inr i"
    using assms(4) s by (auto simp: subscribe_in_manager_def split: sum.splits)
  from subscribe_result [OF s] r' have i: "i = sm_next_id (nd_manager d) + 1"
    and subs: "sm_subs m = gm_put i (length (sm_store (nd_manager d))) (sm_subs (nd_manager d))"
    by auto
  have new: "gm_get (nd_subscription_map d) i = None"
    using fresh_subscription_id [OF v(1) n] v(8) i by simp
  have m: "sm_inv (Suc (length es)) m"
    using sm_inv_subscribe [OF v(1) n, of now "ucast (rq_endpoint_id rq)" "ucast (rq_feature_id rq)"
        "su_attribute_ids p" "su_min p" "su_max p" "su_values p"] s by simp
  have old: "i \<notin> set (ci_subscription_ids inf)" if "gm_get (nd_connections d) e = Some inf" for e inf
    using v(6) [OF that] new by auto
  have d2: "nd_connections d2 = gm_del c (nd_connections d)" "nd_next_conn_id d2 = nd_next_conn_id d"
    "nd_subscription_map d2 = gm_put i c (foldl (\<lambda>m i. gm_del i m) (nd_subscription_map d) (ci_subscription_ids info))"
    "nd_manager d2 = foldl (\<lambda>m i. fst (sub_unsubscribe i m)) m (ci_subscription_ids info)"
    using live by (auto simp: assms(5) d1 subscribe_tracking_def unregister_connection_def
      unregister_tracking_def unsubscribe_ids_def Let_def gomap_simps)
  have leak: "leak_inv c i (Suc (length es)) d2"
    using m v(3) v(4) [OF live] old [OF live] old
    by (auto simp: leak_inv_def leaked_def d2 gomap_simps unsubscribe_all subs)
  have "leak_inv c i (Suc (length es) + length xs) (nd_run ok d2 xs)"
    if "prefix xs qs" for xs
    using that
  proof (induction xs rule: rev_induct)
    case Nil
    with leak show ?case by (simp add: nd_run_def)
  next
    case (snoc e xs)
    have e: "e \<in> set qs" using snoc.prems set_mono_prefix by fastforce
    have "length (xs @ [e]) \<le> length qs" using snoc.prems by (rule prefix_length_le)
    then have "Suc (length es) + length xs < 2 ^ 32 - 1" using assms(1) by simp
    moreover have "leak_inv c i (Suc (length es) + length xs) (nd_run ok d2 xs)"
      using snoc by (auto dest: append_prefixD)
    ultimately show ?case
      using leak_step [of c i "Suc (length es) + length xs" "nd_run ok d2 xs" e ok] assms(6) e
      by (auto simp: nd_run_def)
  qed
  from this [OF prefix_order.refl]
  have fin: "leak_inv c i (Suc (length es) + length qs) (nd_run ok d2 qs)" .
  moreover have "Suc (length es) + length qs < 2 ^ 32 - 1" using assms(1) by simp
  then have "\<forall>(c', k) \<in> set (snd (process_tick ok t (nd_run ok d2 qs))). nt_subscription_id k \<noteq> i" for t
    using leak_step [OF fin, of "NdTick t" ok] by (auto split: prod.splits)
  ultimately show ?thesis by (simp add: leak_inv_def)
qed

definition demo_subscribe :: request where
  "demo_subscribe = demo_request OpSubscribe ANil"

definition demo_dispatcher_ops :: "nd_op list" where
  "demo_dispatcher_ops = [NdRegister, NdRegister, NdStart, NdSubscribe 0 2 demo_subscribe demo_device]"

theorem dispatcher_refines_fan_out_witness:
  "let d = nd_run (\<lambda>_. True) new_dispatcher demo_dispatcher_ops
   in \<exists>k. snd (snd (nd_step (\<lambda>_. True) d (NdTick (61 * second)))) = [(2, k)] \<and>
      nt_subscription_id k = 1 \<and> fo_owner (fan_out_of d) 1 = Some 2"
proof -
  let ?d = "nd_run (\<lambda>_. True) new_dispatcher demo_dispatcher_ops"
  let ?r = "nd_step (\<lambda>_. True) ?d (NdTick (61 * second))"
  have "map (\<lambda>(c, k). (c, nt_subscription_id k)) (snd (snd ?r)) = [(2, 1)]" by code_simp
  then obtain k where k: "snd (snd ?r) = [(2, k)]" "nt_subscription_id k = 1" by auto
  have "length demo_dispatcher_ops < 2 ^ 32 - 1" by (simp add: demo_dispatcher_ops_def)
  note p = dispatcher_refines_fan_out [OF this refl, of "\<lambda>_. True" "NdTick (61 * second)" "fst ?r"
      "fst (snd ?r)" "snd (snd ?r)"]
  from p k have "fo_owner (fan_out_of ?d) 1 = Some 2" by simp
  with k show ?thesis by (simp add: Let_def)
qed

theorem unregister_during_subscribe_leaks_witness:
  "let d = nd_run (\<lambda>_. True) new_dispatcher [NdRegister, NdRegister];
       p = projr (subscribe_checks 1 demo_subscribe demo_device d);
       d1 = fst (subscribe_in_manager (\<lambda>_. True) 0 demo_subscribe p d);
       d2 = subscribe_tracking 1 1 (unregister_connection 1 d1)
   in leaked 1 1 (nd_run (\<lambda>_. True) d2 [NdStart, NdTick (61 * second), NdUnregister 2])"
proof -
  let ?es = "[NdRegister, NdRegister]" and ?qs = "[NdStart, NdTick (61 * second), NdUnregister 2]"
  let ?d = "nd_run (\<lambda>_. True) new_dispatcher ?es"
  let ?p = "projr (subscribe_checks 1 demo_subscribe demo_device ?d)"
  let ?r = "subscribe_in_manager (\<lambda>_. True) 0 demo_subscribe ?p ?d"
  have n: "length ?es + length ?qs < 2 ^ 32 - 2" by simp
  have "isl (subscribe_checks 1 demo_subscribe demo_device ?d) = False" by code_simp
  then have c: "subscribe_checks 1 demo_subscribe demo_device ?d = Inr ?p" by auto
  have "fst (snd ?r) = Inr 1" by code_simp
  then have s: "?r = (fst ?r, Inr 1, snd (snd ?r))" by (metis prod.collapse)
  show ?thesis
    using unregister_during_subscribe_leaks [OF n refl c s refl] by (simp add: Let_def)
qed

end
