(* ===== verification/Renewal.thy ===== *)
theory Renewal
  imports Prelude
begin

text \<open>
  The renewal of a device's certificate: the messages
  (\<open>pkg/commissioning/renewal_messages.go\<close>), the device's side
  (\<open>pkg/service/device_renewal.go\<close>) and the controller's side
  (\<open>pkg/service/controller_renewal.go\<close>).

  The cryptography is outside: keys are of any type \<open>'k\<close> (a key pair is known by its public
  key), and key generation, the creation, signing and parsing of requests and certificates
  and the hash function are arguments. What is random is an argument of the call that draws
  it. Wrapped error texts are left out.
\<close>

section \<open>Messages\<close>

definition NonceHashLen :: nat where "NonceHashLen = 16"

definition MsgCertRenewalRequest :: u8 where "MsgCertRenewalRequest = 30"
definition MsgCertRenewalCSR :: u8 where "MsgCertRenewalCSR = 31"
definition MsgCertRenewalInstall :: u8 where "MsgCertRenewalInstall = 32"
definition MsgCertRenewalAck :: u8 where "MsgCertRenewalAck = 33"

lemmas renewal_type_defs = MsgCertRenewalRequest_def MsgCertRenewalCSR_def MsgCertRenewalInstall_def
  MsgCertRenewalAck_def

definition RenewalStatusSuccess :: u8 where "RenewalStatusSuccess = 0"
definition RenewalStatusCSRFailed :: u8 where "RenewalStatusCSRFailed = 1"
definition RenewalStatusInstallFailed :: u8 where "RenewalStatusInstallFailed = 2"
definition RenewalStatusInvalidCert :: u8 where "RenewalStatusInvalidCert = 3"
definition RenewalStatusInvalidNonce :: u8 where "RenewalStatusInvalidNonce = 4"

lemmas renewal_status_defs = RenewalStatusSuccess_def RenewalStatusCSRFailed_def
  RenewalStatusInstallFailed_def RenewalStatusInvalidCert_def RenewalStatusInvalidNonce_def

record cert_renewal_request =
  rr_msg_type :: u8
  rr_nonce :: "u8 list"
  rr_zone_ca :: "u8 list"

record cert_renewal_csr =
  rc_msg_type :: u8
  rc_csr :: "u8 list"
  rc_nonce_hash :: "u8 list"

record cert_renewal_install =
  ri_msg_type :: u8
  ri_new_cert :: "u8 list"
  ri_sequence :: u32

record cert_renewal_ack =
  rk_msg_type :: u8
  rk_status :: u8
  rk_active_sequence :: u32

datatype renewal_message =
    RenewalRequest cert_renewal_request
  | RenewalCSR cert_renewal_csr
  | RenewalInstall cert_renewal_install
  | RenewalAck cert_renewal_ack

fun RenewalMessageType :: "renewal_message \<Rightarrow> u8" where
  "RenewalMessageType (RenewalRequest m) = rr_msg_type m"
| "RenewalMessageType (RenewalCSR m) = rc_msg_type m"
| "RenewalMessageType (RenewalInstall m) = ri_msg_type m"
| "RenewalMessageType (RenewalAck m) = rk_msg_type m"

text \<open>\<open>sha\<close> is SHA-256, with results of 32 bytes.\<close>

definition ComputeNonceHash :: "(u8 list \<Rightarrow> u8 list) \<Rightarrow> u8 list \<Rightarrow> u8 list" where
  "ComputeNonceHash sha nonce = take NonceHashLen (sha nonce)"

text \<open>The loop of \<open>ValidateNonceHash\<close> over the positions of the expected hash.\<close>

fun hash_difference :: "u8 list \<Rightarrow> u8 list \<Rightarrow> nat list \<Rightarrow> u8 \<Rightarrow> u8" where
  "hash_difference expected h [] result = result"
| "hash_difference expected h (i # is) result =
     hash_difference expected h is (or result (xor (expected ! i) (h ! i)))"

definition ValidateNonceHash :: "(u8 list \<Rightarrow> u8 list) \<Rightarrow> u8 list \<Rightarrow> u8 list \<Rightarrow> bool" where
  "ValidateNonceHash sha nonce h =
     (if length h \<noteq> NonceHashLen then False
      else
        let expected = ComputeNonceHash sha nonce
        in if length expected \<noteq> length h then False
           else hash_difference expected h [0..<length expected] 0 = 0)"

section \<open>The device\<close>

text \<open>A parsed certificate: its encoding, and its public key when it is an ECDSA key.\<close>

record 'k certificate =
  ce_raw :: "u8 list"
  ce_public_key :: "'k option"

record 'k device_renewal =
  dr_pending_key_pair :: "'k option"
  dr_renewal_nonce :: "u8 list"
  dr_active_cert :: "'k certificate option"
  dr_active_key :: "'k option"
  dr_cert_sequence :: u32

definition new_device_renewal :: "'k device_renewal" where
  "new_device_renewal =
     \<lparr>dr_pending_key_pair = None, dr_renewal_nonce = [], dr_active_cert = None, dr_active_key = None,
      dr_cert_sequence = 0\<rparr>"

text \<open>\<open>HandleRenewalRequest\<close>: \<open>kp\<close> is what \<open>GenerateKeyPair\<close> returned, \<open>create_csr\<close> the request
  for a key pair with the identity of the device.\<close>

datatype device_renewal_error = KeyGenerationFailed | CreateCSRFailed

definition handle_renewal_request ::
    "(u8 list \<Rightarrow> u8 list) \<Rightarrow> 'k option \<Rightarrow> ('k \<Rightarrow> u8 list option) \<Rightarrow> cert_renewal_request \<Rightarrow> 'k device_renewal \<Rightarrow>
     'k device_renewal \<times> (device_renewal_error + cert_renewal_csr)" where
  "handle_renewal_request sha kp create_csr rq h =
     (case kp of
        None \<Rightarrow> (h, Inl KeyGenerationFailed)
      | Some k \<Rightarrow>
     (case create_csr k of
        None \<Rightarrow> (h\<lparr>dr_pending_key_pair := None, dr_renewal_nonce := []\<rparr>, Inl CreateCSRFailed)
      | Some csr \<Rightarrow>
          (h\<lparr>dr_pending_key_pair := Some k, dr_renewal_nonce := rr_nonce rq\<rparr>,
           Inr \<lparr>rc_msg_type = MsgCertRenewalCSR, rc_csr = csr,
                rc_nonce_hash = ComputeNonceHash sha (rr_nonce rq)\<rparr>)))"

definition renewal_ack :: "u8 \<Rightarrow> u32 \<Rightarrow> cert_renewal_ack" where
  "renewal_ack st n = \<lparr>rk_msg_type = MsgCertRenewalAck, rk_status = st, rk_active_sequence = n\<rparr>"

definition handle_cert_install ::
    "(u8 list \<Rightarrow> 'k certificate option) \<Rightarrow> cert_renewal_install \<Rightarrow> 'k device_renewal \<Rightarrow>
     'k device_renewal \<times> cert_renewal_ack" where
  "handle_cert_install parse inst h =
     (case dr_pending_key_pair h of
        None \<Rightarrow> (h, renewal_ack RenewalStatusInstallFailed (dr_cert_sequence h))
      | Some k \<Rightarrow>
     (case parse (ri_new_cert inst) of
        None \<Rightarrow> (h, renewal_ack RenewalStatusInvalidCert (dr_cert_sequence h))
      | Some new_cert \<Rightarrow>
     (case ce_public_key new_cert of
        None \<Rightarrow> (h, renewal_ack RenewalStatusInvalidCert (dr_cert_sequence h))
      | Some pub \<Rightarrow>
          if pub \<noteq> k then (h, renewal_ack RenewalStatusInvalidNonce (dr_cert_sequence h))
          else
            (h\<lparr>dr_active_cert := Some new_cert, dr_active_key := Some k,
               dr_cert_sequence := ri_sequence inst, dr_pending_key_pair := None, dr_renewal_nonce := []\<rparr>,
             renewal_ack RenewalStatusSuccess (ri_sequence inst)))))"

definition renewal_in_progress :: "'k device_renewal \<Rightarrow> bool" where
  "renewal_in_progress h \<longleftrightarrow> dr_pending_key_pair h \<noteq> None"

definition set_active_cert :: "'k certificate \<Rightarrow> 'k \<Rightarrow> u32 \<Rightarrow> 'k device_renewal \<Rightarrow> 'k device_renewal" where
  "set_active_cert crt k n h = h\<lparr>dr_active_cert := Some crt, dr_active_key := Some k, dr_cert_sequence := n\<rparr>"

section \<open>The controller\<close>

text \<open>\<open>cr_response_wait\<close> is the channel of capacity one.\<close>

record controller_renewal =
  cr_pending_csr :: "u8 list option"
  cr_pending_device_id :: string
  cr_cert_sequence :: u32
  cr_response_wait :: "renewal_message option"

definition new_controller_renewal :: controller_renewal where
  "new_controller_renewal =
     \<lparr>cr_pending_csr = None, cr_pending_device_id = '''', cr_cert_sequence = 1, cr_response_wait = None\<rparr>"

datatype renewal_error =
    ContextDone | SendFailedErr | ReadFailedErr | UnexpectedResponse | NoCSR | SignFailed
  | RenewalFailed u8 | DecodeFailed | CommissioningFailed string u8 | DeviceIDFailed

text \<open>\<open>InitiateRenewal\<close> until it waits, and its wait: \<open>None\<close> while nothing is there.\<close>

definition initiate_request :: "string \<Rightarrow> u8 list \<Rightarrow> controller_renewal \<Rightarrow>
    controller_renewal \<times> cert_renewal_request" where
  "initiate_request device_id nonce h =
     (h\<lparr>cr_pending_device_id := device_id, cr_pending_csr := None\<rparr>,
      \<lparr>rr_msg_type = MsgCertRenewalRequest, rr_nonce = nonce, rr_zone_ca = []\<rparr>)"

definition initiate_receive :: "controller_renewal \<Rightarrow> controller_renewal \<times> (renewal_error + unit) option" where
  "initiate_receive h =
     (case cr_response_wait h of
        None \<Rightarrow> (h, None)
      | Some (RenewalCSR m) \<Rightarrow>
          (h\<lparr>cr_response_wait := None, cr_pending_csr := Some (rc_csr m)\<rparr>, Some (Inr ()))
      | Some _ \<Rightarrow> (h\<lparr>cr_response_wait := None\<rparr>, Some (Inl UnexpectedResponse)))"

text \<open>\<open>RenewDevice\<close> after \<open>InitiateRenewal\<close>: signing, and the wait for the acknowledgement.
  \<open>sign\<close> is \<open>SignCSR\<close> with the zone's certificate authority.\<close>

definition renew_sign :: "(u8 list \<Rightarrow> 'k certificate option) \<Rightarrow> controller_renewal \<Rightarrow>
    controller_renewal \<times> (renewal_error + ('k certificate \<times> cert_renewal_install))" where
  "renew_sign sign h =
     (case cr_pending_csr h of
        None \<Rightarrow> (h, Inl NoCSR)
      | Some csr \<Rightarrow>
     (case sign csr of
        None \<Rightarrow> (h, Inl SignFailed)
      | Some crt \<Rightarrow>
          (let n = cr_cert_sequence h + 1
           in (h\<lparr>cr_cert_sequence := n\<rparr>,
               Inr (crt, \<lparr>ri_msg_type = MsgCertRenewalInstall, ri_new_cert = ce_raw crt, ri_sequence = n\<rparr>)))))"

definition check_ack :: "renewal_message \<Rightarrow> renewal_error option" where
  "check_ack msg =
     (case msg of
        RenewalAck m \<Rightarrow> if rk_status m \<noteq> RenewalStatusSuccess then Some (RenewalFailed (rk_status m)) else None
      | _ \<Rightarrow> Some UnexpectedResponse)"

definition renew_receive :: "'k certificate \<Rightarrow> controller_renewal \<Rightarrow>
    controller_renewal \<times> (renewal_error + 'k certificate) option" where
  "renew_receive crt h =
     (case cr_response_wait h of
        None \<Rightarrow> (h, None)
      | Some msg \<Rightarrow>
          (h\<lparr>cr_response_wait := None\<rparr>,
           Some (case check_ack msg of None \<Rightarrow> Inr crt | Some err \<Rightarrow> Inl err)))"

text \<open>\<open>HandleResponse\<close>: a full channel discards the message.\<close>

definition handle_renewal_response :: "renewal_message \<Rightarrow> controller_renewal \<Rightarrow> controller_renewal" where
  "handle_renewal_response msg h =
     (if cr_response_wait h = None then h\<lparr>cr_response_wait := Some msg\<rparr> else h)"

text \<open>
  \<open>IssueInitialCertSync\<close>. The connection is the results of its two sends and two reads; a
  frame is of any type, \<open>decode\<close> is \<open>DecodeRenewalMessage\<close> on it and \<open>decode_error\<close> yields the
  commissioning error that \<open>DecodePASEMessage\<close> finds in it.
\<close>

record 'f sync_conn =
  sy_send :: "nat \<Rightarrow> bool"
  sy_read :: "nat \<Rightarrow> 'f option"

definition decodeRenewalOrCommissioningError ::
    "('f \<Rightarrow> renewal_message option) \<Rightarrow> ('f \<Rightarrow> (string \<times> u8) option) \<Rightarrow> 'f \<Rightarrow> renewal_error + renewal_message" where
  "decodeRenewalOrCommissioningError decode decode_error frame =
     (case decode frame of
        Some msg \<Rightarrow> Inr msg
      | None \<Rightarrow>
          (case decode_error frame of
             Some (msg, code) \<Rightarrow> Inl (CommissioningFailed msg code)
           | None \<Rightarrow> Inl DecodeFailed))"

text \<open>The result also has what was sent.\<close>

definition issue_initial_cert_sync ::
    "('f \<Rightarrow> renewal_message option) \<Rightarrow> ('f \<Rightarrow> (string \<times> u8) option) \<Rightarrow> (u8 list \<Rightarrow> string option) \<Rightarrow>
     (string \<Rightarrow> u8 list \<Rightarrow> 'k certificate option) \<Rightarrow> u8 list \<Rightarrow> u8 list \<Rightarrow> 'f sync_conn \<Rightarrow> controller_renewal \<Rightarrow>
     controller_renewal \<times> renewal_message list \<times> (renewal_error + 'k certificate)" where
  "issue_initial_cert_sync decode decode_error device_id_of sign zone_ca nonce conn h =
     (let rq = RenewalRequest \<lparr>rr_msg_type = MsgCertRenewalRequest, rr_nonce = nonce, rr_zone_ca = zone_ca\<rparr>
      in if \<not> sy_send conn 0 then (h, [], Inl SendFailedErr)
      else case sy_read conn 0 of
        None \<Rightarrow> (h, [rq], Inl ReadFailedErr)
      | Some csr_data \<Rightarrow>
     (case decodeRenewalOrCommissioningError decode decode_error csr_data of
        Inl err \<Rightarrow> (h, [rq], Inl err)
      | Inr (RenewalCSR m) \<Rightarrow>
     (case device_id_of (rc_csr m) of
        None \<Rightarrow> (h, [rq], Inl DeviceIDFailed)
      | Some device_id \<Rightarrow>
     (case sign device_id (rc_csr m) of
        None \<Rightarrow> (h, [rq], Inl SignFailed)
      | Some crt \<Rightarrow>
     (let n = cr_cert_sequence h + 1;
          h' = h\<lparr>cr_cert_sequence := n\<rparr>;
          inst = RenewalInstall \<lparr>ri_msg_type = MsgCertRenewalInstall, ri_new_cert = ce_raw crt, ri_sequence = n\<rparr>
      in if \<not> sy_send conn 1 then (h', [rq], Inl SendFailedErr)
         else case sy_read conn 1 of
           None \<Rightarrow> (h', [rq, inst], Inl ReadFailedErr)
         | Some ack_data \<Rightarrow>
        (case decodeRenewalOrCommissioningError decode decode_error ack_data of
           Inl err \<Rightarrow> (h', [rq, inst], Inl err)
         | Inr msg \<Rightarrow>
             (h', [rq, inst], case check_ack msg of None \<Rightarrow> Inr crt | Some err \<Rightarrow> Inl err)))))
      | Inr _ \<Rightarrow> (h, [rq], Inl UnexpectedResponse)))"

section \<open>The nonce hash\<close>

lemma hash_difference_zero:
  "hash_difference e h is r = 0 \<longleftrightarrow> r = 0 \<and> (\<forall>i \<in> set is. e ! i = h ! i)"
proof (induction "is" arbitrary: r)
  case Nil
  then show ?case by simp
next
  case (Cons i "is")
  have "xor (e ! i) (h ! i) = 0 \<longleftrightarrow> e ! i = h ! i" by (auto simp: bit_eq_iff bit_simps)
  with Cons.IH show ?case by (auto simp: or_eq_0_iff)
qed

lemma nonce_hash_equality:
  assumes "length (sha nonce) = 32"
  shows "ValidateNonceHash sha nonce h \<longleftrightarrow> h = take 16 (sha nonce)"
proof -
  have len: "length (ComputeNonceHash sha nonce) = 16"
    using assms by (simp add: ComputeNonceHash_def NonceHashLen_def)
  have "(\<forall>i < 16. ComputeNonceHash sha nonce ! i = h ! i) \<longleftrightarrow> ComputeNonceHash sha nonce = h"
    if "length h = 16"
    using len that by (auto intro: nth_equalityI)
  then show ?thesis
    using len by (auto simp: ValidateNonceHash_def NonceHashLen_def hash_difference_zero Let_def
      ComputeNonceHash_def)
qed

text \<open>The constant-time comparison of \<open>ValidateNonceHash\<close> accepts exactly the first 16 bytes of
  the hash of the nonce.\<close>

theorem nonce_hash_comparison:
  assumes "length (sha nonce) = 32"
  shows "ValidateNonceHash sha nonce h \<longleftrightarrow> h = take 16 (sha nonce)"
  using assms by (rule nonce_hash_equality)

theorem nonce_hash_comparison_witness:
  "ValidateNonceHash (\<lambda>n. replicate 32 7) [1] (replicate 16 7) \<and>
   \<not> ValidateNonceHash (\<lambda>n. replicate 32 7) [1] (replicate 15 7 @ [8])"
proof -
  have "length (replicate 32 (7 :: u8)) = 32" by simp
  from nonce_hash_comparison [of "\<lambda>n. replicate 32 7" "[1]", OF this] show ?thesis
    by (simp add: numeral_eq_Suc)
qed

section \<open>An exchange\<close>

text \<open>
  The messages of a renewal between a controller and a device, in the order of the protocol:
  request, signing request, new certificate, acknowledgement.
\<close>

definition renewal_exchange ::
    "(u8 list \<Rightarrow> u8 list) \<Rightarrow> 'k \<Rightarrow> ('k \<Rightarrow> u8 list option) \<Rightarrow> (u8 list \<Rightarrow> 'k certificate option) \<Rightarrow>
     (u8 list \<Rightarrow> 'k certificate option) \<Rightarrow> string \<Rightarrow> u8 list \<Rightarrow> 'k device_renewal \<Rightarrow> controller_renewal \<Rightarrow>
     ('k device_renewal \<times> controller_renewal \<times> (renewal_error + 'k certificate) option) option" where
  "renewal_exchange sha k create_csr sign parse device_id nonce d c =
     (case initiate_request device_id nonce c of (c1, rq) \<Rightarrow>
     (case handle_renewal_request sha (Some k) create_csr rq d of
        (d1, Inl _) \<Rightarrow> None
      | (d1, Inr m) \<Rightarrow>
     (case initiate_receive (handle_renewal_response (RenewalCSR m) c1) of
        (c2, Some (Inr _)) \<Rightarrow>
          (case renew_sign sign c2 of
             (c3, Inl err) \<Rightarrow> Some (d1, c3, Some (Inl err))
           | (c3, Inr (crt, inst)) \<Rightarrow>
               (case handle_cert_install parse inst d1 of (d2, ack) \<Rightarrow>
                (case renew_receive crt (handle_renewal_response (RenewalAck ack) c3) of
                   (c4, r) \<Rightarrow> Some (d2, c4, r))))
      | (c2, Some (Inl err)) \<Rightarrow> Some (d1, c2, Some (Inl err))
      | (c2, None) \<Rightarrow> Some (d1, c2, None))))"

text \<open>C30. With a certificate authority that certifies the key of a signing request, and nothing
  left in the controller's channel, a renewal succeeds: the device has the new certificate
  and the key it made for it, device and controller agree on the sequence number, the hash
  of the nonce in the signing request is right, and nothing of the exchange stays behind.\<close>

theorem renewal_exchange_succeeds:
  assumes "create_csr k = Some csr" and "sign csr = Some crt" and "parse (ce_raw crt) = Some crt'"
    and "ce_public_key crt' = Some k" and "cr_response_wait c = None" and "length (sha nonce) = 32"
  shows "\<exists>d' c'. renewal_exchange sha k create_csr sign parse device_id nonce d c = Some (d', c', Some (Inr crt)) \<and>
    dr_active_cert d' = Some crt' \<and> dr_active_key d' = Some k \<and> \<not> renewal_in_progress d' \<and>
    dr_cert_sequence d' = cr_cert_sequence c' \<and> cr_cert_sequence c' = cr_cert_sequence c + 1 \<and>
    cr_response_wait c' = None \<and> ValidateNonceHash sha nonce (ComputeNonceHash sha nonce)"
proof -
  let ?c1 = "c\<lparr>cr_pending_device_id := device_id, cr_pending_csr := None\<rparr>"
  let ?rq = "\<lparr>rr_msg_type = MsgCertRenewalRequest, rr_nonce = nonce, rr_zone_ca = []\<rparr>"
  let ?d1 = "d\<lparr>dr_pending_key_pair := Some k, dr_renewal_nonce := nonce\<rparr>"
  let ?m = "\<lparr>rc_msg_type = MsgCertRenewalCSR, rc_csr = csr, rc_nonce_hash = ComputeNonceHash sha nonce\<rparr>"
  let ?c2 = "?c1\<lparr>cr_response_wait := None, cr_pending_csr := Some csr\<rparr>"
  let ?n = "cr_cert_sequence c + 1"
  let ?c3 = "?c2\<lparr>cr_cert_sequence := ?n\<rparr>"
  let ?inst = "\<lparr>ri_msg_type = MsgCertRenewalInstall, ri_new_cert = ce_raw crt, ri_sequence = ?n\<rparr>"
  let ?d2 = "?d1\<lparr>dr_active_cert := Some crt', dr_active_key := Some k, dr_cert_sequence := ?n,
    dr_pending_key_pair := None, dr_renewal_nonce := []\<rparr>"
  let ?ack = "renewal_ack RenewalStatusSuccess ?n"
  have steps: "initiate_request device_id nonce c = (?c1, ?rq)"
    "handle_renewal_request sha (Some k) create_csr ?rq d = (?d1, Inr ?m)"
    "initiate_receive (handle_renewal_response (RenewalCSR ?m) ?c1) = (?c2, Some (Inr ()))"
    "renew_sign sign ?c2 = (?c3, Inr (crt, ?inst))"
    "handle_cert_install parse ?inst ?d1 = (?d2, ?ack)"
    "renew_receive crt (handle_renewal_response (RenewalAck ?ack) ?c3) = (?c3, Some (Inr crt))"
    using assms by (simp_all add: initiate_request_def handle_renewal_request_def
      handle_renewal_response_def initiate_receive_def renew_sign_def handle_cert_install_def Let_def
      renew_receive_def check_ack_def renewal_ack_def)
  then have "renewal_exchange sha k create_csr sign parse device_id nonce d c = Some (?d2, ?c3, Some (Inr crt))"
    unfolding renewal_exchange_def steps(1) prod.case steps(2) sum.case steps(3) option.case steps(4)
      steps(5) steps(6) by simp
  moreover have "ValidateNonceHash sha nonce (ComputeNonceHash sha nonce)"
    using nonce_hash_equality [of sha nonce] assms(6) by (simp add: ComputeNonceHash_def NonceHashLen_def)
  ultimately show ?thesis by (simp add: renewal_in_progress_def)
qed

theorem renewal_exchange_succeeds_witness:
  "\<exists>d' c'. renewal_exchange (\<lambda>n. replicate 32 0) (5 :: nat) (\<lambda>k. Some [of_nat k])
      (\<lambda>csr. Some \<lparr>ce_raw = 48 # csr, ce_public_key = Some (unat (csr ! 0))\<rparr>)
      (\<lambda>raw. Some \<lparr>ce_raw = raw, ce_public_key = Some (unat (raw ! 1))\<rparr>) ''dev'' [1, 2]
      new_device_renewal new_controller_renewal
      = Some (d', c', Some (Inr \<lparr>ce_raw = [48, 5], ce_public_key = Some 5\<rparr>)) \<and>
    dr_active_key d' = Some 5 \<and> dr_cert_sequence d' = 2"
proof -
  let ?sign = "\<lambda>csr :: u8 list. Some \<lparr>ce_raw = 48 # csr, ce_public_key = Some (unat (csr ! 0))\<rparr>"
  let ?parse = "\<lambda>raw :: u8 list. Some \<lparr>ce_raw = raw, ce_public_key = Some (unat (raw ! 1))\<rparr>"
  have "cr_response_wait new_controller_renewal = None" "cr_cert_sequence new_controller_renewal = 1"
    by (simp_all add: new_controller_renewal_def)
  then show ?thesis
    using renewal_exchange_succeeds [of "\<lambda>k. Some [of_nat k]" "5 :: nat" "[5]" ?sign
        "\<lparr>ce_raw = [48, 5], ce_public_key = Some 5\<rparr>" ?parse "\<lparr>ce_raw = [48, 5], ce_public_key = Some 5\<rparr>"
        new_controller_renewal "\<lambda>n. replicate 32 0" "[1, 2]" "''dev''" new_device_renewal]
    by auto
qed

text \<open>The controller signs the request of any CSR message, whatever nonce hash it carries; and
  a CSR message that was left in its channel, from a renewal that timed out say, is taken for
  the answer to the new request: it is signed, and the device's fresh CSR is discarded.\<close>

theorem stale_csr_is_signed:
  assumes "sign (rc_csr m) = Some crt" and "initiate_request device_id nonce c = (c1, rq)"
  shows "(cr_response_wait c = None \<longrightarrow>
      (\<exists>c2 c3 inst. initiate_receive (handle_renewal_response (RenewalCSR m) c1) = (c2, Some (Inr ())) \<and>
        renew_sign sign c2 = (c3, Inr (crt, inst)) \<and> ri_new_cert inst = ce_raw crt)) \<and>
    (cr_response_wait c = Some (RenewalCSR m) \<longrightarrow>
      (\<forall>fresh. handle_renewal_response fresh c1 = c1) \<and>
      (\<exists>c2 c3 inst. initiate_receive c1 = (c2, Some (Inr ())) \<and>
        renew_sign sign c2 = (c3, Inr (crt, inst)) \<and> ri_new_cert inst = ce_raw crt))"
  using assms
  by (auto simp: initiate_request_def handle_renewal_response_def initiate_receive_def renew_sign_def Let_def)

theorem stale_csr_is_signed_witness:
  "let m = \<lparr>rc_msg_type = MsgCertRenewalCSR, rc_csr = [9], rc_nonce_hash = [0, 1, 2]\<rparr>;
       c = new_controller_renewal\<lparr>cr_response_wait := Some (RenewalCSR m)\<rparr>;
       c1 = fst (initiate_request ''dev'' [3] c)
   in \<exists>c2 c3 inst. initiate_receive c1 = (c2, Some (Inr ())) \<and>
      renew_sign (\<lambda>csr. Some \<lparr>ce_raw = csr, ce_public_key = Some (1 :: nat)\<rparr>) c2
        = (c3, Inr (\<lparr>ce_raw = [9], ce_public_key = Some 1\<rparr>, inst))"
proof -
  let ?m = "\<lparr>rc_msg_type = MsgCertRenewalCSR, rc_csr = [9], rc_nonce_hash = [0, 1, 2]\<rparr>"
  let ?c = "new_controller_renewal\<lparr>cr_response_wait := Some (RenewalCSR ?m)\<rparr>"
  obtain c1 rq where i: "initiate_request ''dev'' [3] ?c = (c1, rq)" by (metis surj_pair)
  from stale_csr_is_signed [of "\<lambda>csr. Some \<lparr>ce_raw = csr, ce_public_key = Some (1 :: nat)\<rparr>" ?m, OF _ i] i
  show ?thesis by (auto simp: Let_def)
qed

section \<open>The device's certificate\<close>

datatype 'k dr_op =
    DrRequest "'k option" cert_renewal_request
  | DrInstall cert_renewal_install

fun dr_step :: "(u8 list \<Rightarrow> u8 list) \<Rightarrow> ('k \<Rightarrow> u8 list option) \<Rightarrow> (u8 list \<Rightarrow> 'k certificate option) \<Rightarrow>
    'k device_renewal \<Rightarrow> 'k dr_op \<Rightarrow> 'k device_renewal" where
  "dr_step sha create_csr parse h (DrRequest kp rq) = fst (handle_renewal_request sha kp create_csr rq h)"
| "dr_step sha create_csr parse h (DrInstall inst) = fst (handle_cert_install parse inst h)"

definition cert_matches_key :: "'k device_renewal \<Rightarrow> bool" where
  "cert_matches_key h \<longleftrightarrow>
     (case dr_active_cert h of None \<Rightarrow> dr_active_key h = None
      | Some crt \<Rightarrow> ce_public_key crt = dr_active_key h \<and> dr_active_key h \<noteq> None)"

lemma cert_matches_key_step: "cert_matches_key h \<Longrightarrow> cert_matches_key (dr_step sha create_csr parse h e)"
  by (cases e) (auto simp: cert_matches_key_def handle_renewal_request_def handle_cert_install_def Let_def
    split: option.splits)

interpretation device_renewal_machine: invariant_machine "dr_step sha create_csr parse" cert_matches_key
  for sha create_csr parse
  by unfold_locales (rule cert_matches_key_step)

text \<open>In every run of renewal requests and installations the active certificate of the device
  is one for its active key. A step changes them only when it is acknowledged as a success,
  for a certificate of the key of the last renewal request; the certificate of an earlier
  request is refused as \<open>InvalidNonce\<close> and leaves the running renewal open.\<close>

theorem device_certificate_matches_key:
  assumes "h = foldl (dr_step sha create_csr parse) new_device_renewal es"
    and "handle_cert_install parse inst h = (h', ack)"
  shows "cert_matches_key h' \<and>
    (rk_status ack \<noteq> RenewalStatusSuccess \<longrightarrow> h' = h) \<and>
    (rk_status ack = RenewalStatusSuccess \<longrightarrow>
       dr_active_key h' = dr_pending_key_pair h \<and> dr_cert_sequence h' = ri_sequence inst \<and>
       \<not> renewal_in_progress h') \<and>
    (\<forall>k k' crt. dr_pending_key_pair h = Some k \<and> parse (ri_new_cert inst) = Some crt \<and>
       ce_public_key crt = Some k' \<and> k' \<noteq> k \<longrightarrow> rk_status ack = RenewalStatusInvalidNonce \<and> renewal_in_progress h')"
proof -
  have "cert_matches_key h"
    unfolding assms(1) by (rule device_renewal_machine.run_inv) (simp add: cert_matches_key_def new_device_renewal_def)
  from cert_matches_key_step [OF this, of sha create_csr parse "DrInstall inst"] assms(2)
  have "cert_matches_key h'" by simp
  with assms(2) show ?thesis
    by (auto simp: handle_cert_install_def renewal_ack_def renewal_status_defs renewal_in_progress_def
      split: option.splits if_splits)
qed

theorem device_certificate_matches_key_witness:
  "let parse = (\<lambda>raw. Some \<lparr>ce_raw = raw, ce_public_key = Some (unat (raw ! 0))\<rparr>);
       rq = \<lparr>rr_msg_type = 30, rr_nonce = [], rr_zone_ca = []\<rparr>;
       h = foldl (dr_step (\<lambda>_. []) (\<lambda>k. Some [of_nat k]) parse) new_device_renewal
             [DrRequest (Some 1) rq, DrRequest (Some 2) rq];
       r = handle_cert_install parse \<lparr>ri_msg_type = 32, ri_new_cert = [1], ri_sequence = 2\<rparr> h
   in rk_status (snd r) = RenewalStatusInvalidNonce \<and> cert_matches_key (fst r)"
proof -
  let ?parse = "\<lambda>raw. Some \<lparr>ce_raw = raw, ce_public_key = Some (unat (raw ! 0))\<rparr>"
  let ?rq = "\<lparr>rr_msg_type = 30, rr_nonce = [], rr_zone_ca = []\<rparr>"
  let ?es = "[DrRequest (Some 1) ?rq, DrRequest (Some 2) ?rq]"
  let ?h = "foldl (dr_step (\<lambda>_. []) (\<lambda>k. Some [of_nat k]) ?parse) new_device_renewal ?es"
  let ?inst = "\<lparr>ri_msg_type = 32, ri_new_cert = [1], ri_sequence = 2\<rparr>"
  obtain h' ack where r: "handle_cert_install ?parse ?inst ?h = (h', ack)"
    by (rule prod.exhaust)
  note p = device_certificate_matches_key [OF refl r]
  have "rk_status ack = RenewalStatusInvalidNonce"
    by (rule conjunct1, rule p [THEN conjunct2, THEN conjunct2, THEN conjunct2, rule_format,
        of 2 "\<lparr>ce_raw = [1], ce_public_key = Some 1\<rparr>" 1]) (simp add: handle_renewal_request_def)
  with p [THEN conjunct1]
  show ?thesis unfolding Let_def r by simp
qed

end
