(* ===== verification/Session.thy ===== *)
theory Session
  imports Client Dispatcher Renewal "HOL-Library.Multiset"
begin

text \<open>
  The sessions of the two sides of a connection and how a received message reaches the
  component that handles it: \<open>pkg/service/zone_session.go\<close> (a device's session with the
  controller of a zone), \<open>pkg/service/device_session.go\<close> (a controller's session with a
  device) and the message loop of a zone in \<open>pkg/service/device_service_zone.go\<close>.

  A frame is given by what the CBOR decoder makes of it. The decoder is the library
  \<open>fxamacker/cbor\<close> and a parameter: \<open>cd_any\<close> is the value that an encoded payload has after it
  was decoded into an \<open>any\<close>, the other components are the conversions of a decoded item to
  the type of a struct field. Log output and capability snapshots are left out.
\<close>

section \<open>The codec\<close>

record codec =
  cd_any :: "any \<Rightarrow> any"
  cd_u8 :: "any \<Rightarrow> u8 option"
  cd_u32 :: "any \<Rightarrow> u32 option"
  cd_bytes :: "any \<Rightarrow> u8 list option"
  cd_changes :: "any \<Rightarrow> (u16, any) gomap option"

text \<open>A frame decoded into \<open>map[any]any\<close> and into \<open>map[uint64]any\<close>; \<open>None\<close> is an error.\<close>

record frame =
  fm_any :: "(any \<times> any) list option"
  fm_raw :: "(u64 \<times> any) list option"

definition message_frame :: "(u64 \<times> any) list \<Rightarrow> frame" where
  "message_frame fs = \<lparr>fm_any = Some (map (\<lambda>(k, v). (AU64 k, v)) fs), fm_raw = Some fs\<rparr>"

text \<open>The frames of the messages, with their payloads as decoded.\<close>

definition request_frame :: "codec \<Rightarrow> request \<Rightarrow> frame" where
  "request_frame c rq = message_frame (request_fields (rq\<lparr>rq_payload := cd_any c (rq_payload rq)\<rparr>))"

definition response_frame :: "codec \<Rightarrow> response \<Rightarrow> frame" where
  "response_frame c rp = message_frame (response_fields (rp\<lparr>rp_payload := cd_any c (rp_payload rp)\<rparr>))"

definition peek_frame :: "frame \<Rightarrow> message_type option" where
  "peek_frame fm = PeekMessageType (fm_any fm) (fm_raw fm)"

text \<open>A struct field: its zero value when the key is missing.\<close>

definition decode_field :: "(any \<Rightarrow> 'a option) \<Rightarrow> 'a \<Rightarrow> (u64 \<times> any) list \<Rightarrow> u64 \<Rightarrow> 'a option" where
  "decode_field conv zero raw k = (case gm_get raw k of None \<Rightarrow> Some zero | Some v \<Rightarrow> conv v)"

datatype decode_error = CborError | InvalidRequest validate_error

definition DecodeRequest :: "codec \<Rightarrow> frame \<Rightarrow> decode_error + request" where
  "DecodeRequest c fm =
     (case fm_raw fm of
        None \<Rightarrow> Inl CborError
      | Some raw \<Rightarrow>
     (case (decode_field (cd_u32 c) 0 raw 1, decode_field (cd_u8 c) 0 raw 2,
            decode_field (cd_u8 c) 0 raw 3, decode_field (cd_u8 c) 0 raw 4) of
        (Some i, Some p, Some ep, Some fid) \<Rightarrow>
          (let rq = \<lparr>rq_message_id = i, rq_operation = p, rq_endpoint_id = ep, rq_feature_id = fid,
                     rq_payload = any_at raw 5\<rparr>
           in case validate_request rq of Some err \<Rightarrow> Inl (InvalidRequest err) | None \<Rightarrow> Inr rq)
      | _ \<Rightarrow> Inl CborError))"

definition DecodeResponse :: "codec \<Rightarrow> frame \<Rightarrow> response option" where
  "DecodeResponse c fm =
     (case fm_raw fm of
        None \<Rightarrow> None
      | Some raw \<Rightarrow>
     (case (decode_field (cd_u32 c) 0 raw 1, decode_field (cd_u8 c) 0 raw 2) of
        (Some i, Some st) \<Rightarrow> Some \<lparr>rp_message_id = i, rp_status = st, rp_payload = any_at raw 3\<rparr>
      | _ \<Rightarrow> None))"

definition DecodeNotification :: "codec \<Rightarrow> frame \<Rightarrow> notification option" where
  "DecodeNotification c fm =
     (case fm_raw fm of
        None \<Rightarrow> None
      | Some raw \<Rightarrow>
     (case (decode_field (cd_u32 c) 0 raw 1, decode_field (cd_u32 c) 0 raw 2,
            decode_field (cd_u8 c) 0 raw 3, decode_field (cd_u8 c) 0 raw 4,
            decode_field (cd_changes c) [] raw 5) of
        (Some i, Some sub, Some ep, Some fid, Some cs) \<Rightarrow>
          if i \<noteq> NotificationMessageID then None
          else Some \<lparr>nt_subscription_id = sub, nt_endpoint_id = ep, nt_feature_id = fid, nt_changes = cs\<rparr>
      | _ \<Rightarrow> None))"

definition DecodeControlMessage :: "codec \<Rightarrow> frame \<Rightarrow> control_message option" where
  "DecodeControlMessage c fm =
     (case fm_raw fm of
        None \<Rightarrow> None
      | Some raw \<Rightarrow>
     (case (decode_field (cd_u8 c) 0 raw 1, decode_field (cd_u32 c) 0 raw 2) of
        (Some t, Some n) \<Rightarrow> Some \<lparr>cm_type = t, cm_sequence = n\<rparr>
      | _ \<Rightarrow> None))"

text \<open>\<open>DecodeRenewalMessage\<close> of \<open>pkg/commissioning/renewal_messages.go\<close>.\<close>

definition DecodeRenewalMessage :: "codec \<Rightarrow> frame \<Rightarrow> renewal_message option" where
  "DecodeRenewalMessage c fm =
     (case fm_raw fm of
        None \<Rightarrow> None
      | Some raw \<Rightarrow>
     (case decode_field (cd_u8 c) 0 raw 1 of
        None \<Rightarrow> None
      | Some t \<Rightarrow>
          if t = MsgCertRenewalRequest then
            (case (decode_field (cd_bytes c) [] raw 2, decode_field (cd_bytes c) [] raw 3) of
               (Some nonce, Some ca) \<Rightarrow>
                 Some (RenewalRequest \<lparr>rr_msg_type = t, rr_nonce = nonce, rr_zone_ca = ca\<rparr>)
             | _ \<Rightarrow> None)
          else if t = MsgCertRenewalCSR then
            (case (decode_field (cd_bytes c) [] raw 2, decode_field (cd_bytes c) [] raw 3) of
               (Some csr, Some h) \<Rightarrow> Some (RenewalCSR \<lparr>rc_msg_type = t, rc_csr = csr, rc_nonce_hash = h\<rparr>)
             | _ \<Rightarrow> None)
          else if t = MsgCertRenewalInstall then
            (case (decode_field (cd_bytes c) [] raw 2, decode_field (cd_u32 c) 0 raw 3) of
               (Some crt, Some n) \<Rightarrow>
                 Some (RenewalInstall \<lparr>ri_msg_type = t, ri_new_cert = crt, ri_sequence = n\<rparr>)
             | _ \<Rightarrow> None)
          else if t = MsgCertRenewalAck then
            (case (decode_field (cd_u8 c) 0 raw 2, decode_field (cd_u32 c) 0 raw 3) of
               (Some st, Some n) \<Rightarrow> Some (RenewalAck \<lparr>rk_msg_type = t, rk_status = st, rk_active_sequence = n\<rparr>)
             | _ \<Rightarrow> None)
          else None))"

definition isRenewalMessage :: "codec \<Rightarrow> frame \<Rightarrow> bool" where
  "isRenewalMessage c fm =
     (case fm_raw fm of
        None \<Rightarrow> False
      | Some raw \<Rightarrow>
          if gm_get raw 4 \<noteq> None then False
          else case DecodeRenewalMessage c fm of
            None \<Rightarrow> False
          | Some m \<Rightarrow> RenewalMessageType m \<ge> MsgCertRenewalRequest \<and> RenewalMessageType m \<le> MsgCertRenewalAck)"

section \<open>Outputs\<close>

datatype session_output =
    SendResponse response
  | SendRenewal renewal_message
  | ToApplication notification
  | HandlerEffect effect
  | CertRenewed

text \<open>The text of an error of the decoder is left out of the messages.\<close>

definition bare_error :: "u32 \<Rightarrow> status \<Rightarrow> string \<Rightarrow> response" where
  "bare_error i st msg = \<lparr>rp_message_id = i, rp_status = st, rp_payload = AErrorPayload msg\<rparr>"

text \<open>Sending a response: one that cannot be encoded is replaced. \<open>enc\<close> is whether
  \<open>EncodeResponse\<close> succeeds.\<close>

definition send_response :: "(response \<Rightarrow> bool) \<Rightarrow> response \<Rightarrow> session_output list" where
  "send_response enc rp =
     (if enc rp then [SendResponse rp]
      else let e = bare_error (rp_message_id rp) StatusBusy ''failed to encode response''
           in if enc e then [SendResponse e] else [])"

definition send_error_response :: "(response \<Rightarrow> bool) \<Rightarrow> u32 \<Rightarrow> status \<Rightarrow> string \<Rightarrow> session_output list" where
  "send_error_response enc i st msg =
     (if enc (bare_error i st msg) then [SendResponse (bare_error i st msg)] else [])"

text \<open>\<open>HandleResponse\<close> of the client as one call, both halves.\<close>

definition client_handle_response :: "response \<Rightarrow> client_world \<Rightarrow> client_world" where
  "client_handle_response rp cl =
     (case lookup_response rp cl of
        (cl', Some _) \<Rightarrow> cl'
      | (cl', None) \<Rightarrow> deliver_response (length (cw_deliveries cl)) cl')"

section \<open>The controller's session with a device\<close>

record device_session =
  ds_closed :: bool
  ds_client :: client_world
  ds_handler :: "handler option"
  ds_renewal :: "controller_renewal option"

definition new_device_session :: device_session where
  "new_device_session =
     \<lparr>ds_closed = False, ds_client = new_client, ds_handler = None, ds_renewal = None\<rparr>"

definition set_exposed_device :: "string \<Rightarrow> device \<Rightarrow> device_session \<Rightarrow> device_session" where
  "set_exposed_device device_id d s =
     s\<lparr>ds_handler := Some (set_send_notification True (set_peer_id device_id (new_handler d)))\<rparr>"

definition ds_set_renewal_handler :: "controller_renewal \<Rightarrow> device_session \<Rightarrow> device_session" where
  "ds_set_renewal_handler h s = s\<lparr>ds_renewal := Some h\<rparr>"

definition ds_handle_request ::
    "env \<Rightarrow> (response \<Rightarrow> bool) \<Rightarrow> codec \<Rightarrow> frame \<Rightarrow> device_session \<Rightarrow> device_session \<times> session_output list" where
  "ds_handle_request en enc c fm s =
     (case DecodeRequest c fm of
        Inl _ \<Rightarrow> (s, send_error_response enc 0 StatusInvalidParameter ''failed to decode request'')
      | Inr rq \<Rightarrow>
     (case ds_handler s of
        None \<Rightarrow>
          (s, send_response enc (error_response rq StatusUnsupported ''controller does not expose features''))
      | Some h \<Rightarrow>
     (case handle_request en rq h of
        (h', effects, rp) \<Rightarrow>
          (s\<lparr>ds_handler := Some h'\<rparr>, map HandlerEffect effects @ send_response enc rp))))"

definition device_on_message ::
    "env \<Rightarrow> (response \<Rightarrow> bool) \<Rightarrow> codec \<Rightarrow> frame \<Rightarrow> device_session \<Rightarrow> device_session \<times> session_output list" where
  "device_on_message en enc c fm s =
     (if ds_closed s then (s, [])
      else if isRenewalMessage c fm
      then (case (ds_renewal s, DecodeRenewalMessage c fm) of
              (Some h, Some m) \<Rightarrow> (s\<lparr>ds_renewal := Some (handle_renewal_response m h)\<rparr>, [])
            | _ \<Rightarrow> (s, []))
      else case peek_frame fm of
        None \<Rightarrow> (s, send_error_response enc 0 StatusInvalidParameter ''invalid CBOR: '')
      | Some MTRequest \<Rightarrow> ds_handle_request en enc c fm s
      | Some MTResponse \<Rightarrow>
          (case DecodeResponse c fm of
             None \<Rightarrow> (s, [])
           | Some rp \<Rightarrow> (s\<lparr>ds_client := client_handle_response rp (ds_client s)\<rparr>, []))
      | Some MTNotification \<Rightarrow>
          (case DecodeNotification c fm of
             None \<Rightarrow> (s, [])
           | Some n \<Rightarrow> (s, map ToApplication (client_handle_notification n (ds_client s))))
      | Some _ \<Rightarrow> (s, []))"

definition ds_send_notification :: "(notification \<Rightarrow> bool) \<Rightarrow> notification \<Rightarrow> device_session \<Rightarrow> bool" where
  "ds_send_notification sendable n s = (if ds_closed s then False else sendable n)"

definition device_session_close :: "device_session \<Rightarrow> device_session" where
  "device_session_close s =
     (if ds_closed s then s else s\<lparr>ds_closed := True, ds_client := client_close (ds_client s)\<rparr>)"

section \<open>The device's session with a zone\<close>

record 'k zone_session =
  zs_closed :: bool
  zs_handler :: handler
  zs_dispatcher :: dispatcher
  zs_conn_id :: u64
  zs_client :: client_world
  zs_renewal :: "'k device_renewal option"
  zs_on_cert_renewal :: bool

definition new_zone_session :: "string \<Rightarrow> device \<Rightarrow> 'k zone_session" where
  "new_zone_session zone_id d =
     (case register_connection (set_processing_interval (100 * millisecond) new_dispatcher) of
        (nd, c) \<Rightarrow>
          \<lparr>zs_closed = False, zs_handler = set_peer_id zone_id (new_handler d),
           zs_dispatcher = dispatcher_start nd, zs_conn_id = c, zs_client = new_client,
           zs_renewal = None, zs_on_cert_renewal = False\<rparr>)"

text \<open>What a session gets from outside: the clock, the cryptography and what was encodable.\<close>

record 'k zone_env =
  ze_env :: env
  ze_now :: time
  ze_encodable :: "response \<Rightarrow> bool"
  ze_notification_encodable :: "notification \<Rightarrow> bool"
  ze_sha :: "u8 list \<Rightarrow> u8 list"
  ze_key :: "'k option"
  ze_create_csr :: "'k \<Rightarrow> u8 list option"
  ze_parse :: "u8 list \<Rightarrow> 'k certificate option"

text \<open>The request is answered by the dispatcher when it subscribes or unsubscribes, and by the
  request handler otherwise.\<close>

definition zs_handle_request ::
    "'k zone_env \<Rightarrow> codec \<Rightarrow> frame \<Rightarrow> 'k zone_session \<Rightarrow> 'k zone_session \<times> session_output list" where
  "zs_handle_request ze c fm s =
     (case DecodeRequest c fm of
        Inl _ \<Rightarrow>
          (s, send_error_response (ze_encodable ze) 0 StatusInvalidParameter ''Missing required field: '')
      | Inr rq \<Rightarrow>
          if rq_operation rq = OpSubscribe then
            if rq_feature_id rq = 0
            then (case dispatcher_unsubscribe (zs_conn_id s) rq (zs_dispatcher s) of
                    (nd, rp) \<Rightarrow> (s\<lparr>zs_dispatcher := nd\<rparr>, send_response (ze_encodable ze) rp))
            else (case dispatcher_subscribe (ze_notification_encodable ze) (ze_now ze) (zs_conn_id s) rq
                         (ph_device (zs_handler s)) (zs_dispatcher s) of
                    (nd, rp, _) \<Rightarrow> (s\<lparr>zs_dispatcher := nd\<rparr>, send_response (ze_encodable ze) rp))
          else (case handle_request (ze_env ze) rq (zs_handler s) of
                  (h, effects, rp) \<Rightarrow>
                    (s\<lparr>zs_handler := h\<rparr>, map HandlerEffect effects @ send_response (ze_encodable ze) rp)))"

definition zs_handle_renewal ::
    "'k zone_env \<Rightarrow> renewal_message \<Rightarrow> 'k device_renewal \<Rightarrow> 'k zone_session \<Rightarrow>
     'k zone_session \<times> session_output list" where
  "zs_handle_renewal ze m h s =
     (case m of
        RenewalRequest rq \<Rightarrow>
          (case handle_renewal_request (ze_sha ze) (ze_key ze) (ze_create_csr ze) rq h of
             (h', Inl _) \<Rightarrow> (s\<lparr>zs_renewal := Some h'\<rparr>, [])
           | (h', Inr csr) \<Rightarrow> (s\<lparr>zs_renewal := Some h'\<rparr>, [SendRenewal (RenewalCSR csr)]))
      | RenewalInstall inst \<Rightarrow>
          (case handle_cert_install (ze_parse ze) inst h of
             (h', ack) \<Rightarrow>
               (s\<lparr>zs_renewal := Some h'\<rparr>,
                SendRenewal (RenewalAck ack) #
                (if rk_status ack = RenewalStatusSuccess \<and> zs_on_cert_renewal s then [CertRenewed] else [])))
      | _ \<Rightarrow> (s, []))"

definition zone_on_message ::
    "'k zone_env \<Rightarrow> codec \<Rightarrow> frame \<Rightarrow> 'k zone_session \<Rightarrow> 'k zone_session \<times> session_output list" where
  "zone_on_message ze c fm s =
     (if zs_closed s then (s, [])
      else if isRenewalMessage c fm
      then (case (zs_renewal s, DecodeRenewalMessage c fm) of
              (Some h, Some m) \<Rightarrow> zs_handle_renewal ze m h s
            | _ \<Rightarrow> (s, []))
      else case peek_frame fm of
        None \<Rightarrow> (s, send_error_response (ze_encodable ze) 0 StatusInvalidParameter ''invalid CBOR: '')
      | Some MTRequest \<Rightarrow> zs_handle_request ze c fm s
      | Some MTResponse \<Rightarrow>
          (case DecodeResponse c fm of
             None \<Rightarrow> (s, [])
           | Some rp \<Rightarrow> (s\<lparr>zs_client := client_handle_response rp (zs_client s)\<rparr>, []))
      | Some MTNotification \<Rightarrow>
          (case DecodeNotification c fm of
             None \<Rightarrow> (s, [])
           | Some n \<Rightarrow> (s, map ToApplication (client_handle_notification n (zs_client s))))
      | Some _ \<Rightarrow> (s, []))"

definition zs_subscription_count :: "'k zone_session \<Rightarrow> nat" where
  "zs_subscription_count s = dispatcher_subscription_count (zs_dispatcher s)"

definition clear_subscriptions :: "'k zone_session \<Rightarrow> 'k zone_session" where
  "clear_subscriptions s =
     (case register_connection (unregister_connection (zs_conn_id s) (zs_dispatcher s)) of
        (nd, c) \<Rightarrow> s\<lparr>zs_dispatcher := nd, zs_conn_id := c\<rparr>)"

definition zone_session_close :: "'k zone_session \<Rightarrow> 'k zone_session" where
  "zone_session_close s =
     (if zs_closed s then s
      else s\<lparr>zs_closed := True, zs_client := client_close (zs_client s),
             zs_dispatcher := unregister_connection (zs_conn_id s) (dispatcher_stop (zs_dispatcher s))\<rparr>)"

definition zs_set_renewal_handler :: "'k device_renewal \<Rightarrow> 'k zone_session \<Rightarrow> 'k zone_session" where
  "zs_set_renewal_handler h s = s\<lparr>zs_renewal := Some h\<rparr>"

definition zs_set_zone_type :: "u8 \<Rightarrow> 'k zone_session \<Rightarrow> 'k zone_session" where
  "zs_set_zone_type zt s = s\<lparr>zs_handler := set_peer_zone_type zt (zs_handler s)\<rparr>"

section \<open>The message loop of a zone\<close>

text \<open>What \<open>runZoneMessageLoop\<close> does with a frame. The connection is closed after a \<open>Close\<close>.\<close>

datatype loop_action =
    SendPong u32
  | SendCloseAndDisconnect
  | IgnoreControl
  | ToSession

definition zone_loop_action :: "codec \<Rightarrow> frame \<Rightarrow> loop_action" where
  "zone_loop_action c fm =
     (if peek_frame fm = Some MTControl
      then case DecodeControlMessage c fm of
          None \<Rightarrow> ToSession
        | Some m \<Rightarrow>
            if cm_type m = ControlPing then SendPong (cm_sequence m)
            else if cm_type m = ControlClose then SendCloseAndDisconnect
            else IgnoreControl
      else ToSession)"

section \<open>What is assumed of the codec\<close>

text \<open>The documented behaviour of the decoder on what the program sends: unsigned integers come back
  as \<open>uint64\<close>, slices as \<open>[]any\<close>, maps and structs as \<open>map[any]any\<close> with their entries in any
  order, a zero or empty field that is tagged \<open>omitempty\<close> is missing; an integer does not
  decode into bytes, a map not into an integer, and an integer only into a type it fits.\<close>

definition codec_ok :: "codec \<Rightarrow> bool" where
  "codec_ok c \<longleftrightarrow>
     (\<forall>n. cd_u8 c (AU64 n) = (if n \<le> 255 then Some (ucast n) else None)) \<and>
     (\<forall>n. cd_u32 c (AU64 n) = (if n \<le> 4294967295 then Some (ucast n) else None)) \<and>
     (\<forall>n. cd_bytes c (AU64 n) = None) \<and> (\<forall>b. cd_bytes c (ABytes b) = Some b) \<and>
     (\<forall>m. cd_u32 c (AMap m) = None) \<and>
     cd_any c ANil = ANil \<and>
     cd_any c (AU16s []) \<in> {ANil, ASlice []} \<and>
     (\<forall>ids. ids \<noteq> [] \<longrightarrow> cd_any c (AU16s ids) = ASlice (map (\<lambda>i. AU64 (ucast i)) ids)) \<and>
     (\<forall>m. \<exists>m'. cd_any c (AMapU16 m) = AMap m' \<and>
        mset m' = mset (map (\<lambda>(k, v). (AU64 (ucast k), cd_any c v)) m)) \<and>
     (\<forall>msg. \<exists>m. cd_any c (AErrorPayload msg) = AMap m) \<and>
     (\<forall>p. cd_any c (ASubscribePayload (sp_attribute_ids p) (sp_min_interval p) (sp_max_interval p))
        = subscribe_payload_wire p) \<and>
     (\<forall>i. cd_any c (AUnsubscribePayload i) = AMap [(AU64 1, AU64 (ucast i))]) \<and>
     (\<forall>i vs. \<exists>m. cd_any c (ASubscribeResponse i vs) = AMap m \<and> any_at m (AU64 1) = AU64 (ucast i) \<and>
        any_at m (AU64 2) = (if vs = [] then ANil else cd_any c (AMapU16 vs)))"

lemma codec_okD:
  assumes "codec_ok c"
  shows "cd_u8 c (AU64 n) = (if n \<le> 255 then Some (ucast n) else None)"
    and "cd_u32 c (AU64 n) = (if n \<le> 4294967295 then Some (ucast n) else None)"
    and "cd_bytes c (AU64 n) = None" and "cd_u32 c (AMap m) = None"
    and "cd_any c ANil = ANil" and "cd_any c (AU16s []) \<in> {ANil, ASlice []}"
    and "ids \<noteq> [] \<Longrightarrow> cd_any c (AU16s ids) = ASlice (map (\<lambda>i. AU64 (ucast i)) ids)"
    and "\<exists>m'. cd_any c (AMapU16 es) = AMap m' \<and>
      mset m' = mset (map (\<lambda>(k, v). (AU64 (ucast k), cd_any c v)) es)"
    and "\<exists>m. cd_any c (AErrorPayload msg) = AMap m"
    and "cd_any c (ASubscribePayload (sp_attribute_ids p) (sp_min_interval p) (sp_max_interval p))
      = subscribe_payload_wire p"
    and "cd_any c (AUnsubscribePayload i) = AMap [(AU64 1, AU64 (ucast i))]"
    and "\<exists>m. cd_any c (ASubscribeResponse i vs) = AMap m \<and> any_at m (AU64 1) = AU64 (ucast i) \<and>
      any_at m (AU64 2) = (if vs = [] then ANil else cd_any c (AMapU16 vs))"
  using assms unfolding codec_ok_def by blast+

lemma unat_up:
  "unat (ucast (x :: u8) :: u64) = unat x" "unat (ucast (y :: u32) :: u64) = unat y"
proof -
  have "unat x < 2 ^ LENGTH(8)" "unat y < 2 ^ LENGTH(32)" by (rule unsigned_less)+
  then show "unat (ucast x :: u64) = unat x" "unat (ucast y :: u64) = unat y"
    by (simp_all add: unsigned_ucast_eq take_bit_nat_eq_self)
qed

lemma ucast_down: "ucast (ucast (y :: u32) :: u64) = (ucast y :: u8)"
  by (rule bit_word_eqI) (auto simp: bit_unsigned_iff)

lemma ucast_up: "ucast (ucast (x :: u8) :: u64) = (ucast x :: u32)"
  by (rule bit_word_eqI) (auto simp: bit_unsigned_iff)

lemma ucast_small:
  "ucast (x :: u8) \<le> (255 :: u64)" "ucast (y :: u32) \<le> (4294967295 :: u64)"
proof -
  have "unat x < 2 ^ LENGTH(8)" "unat y < 2 ^ LENGTH(32)" by (rule unsigned_less)+
  then show "ucast x \<le> (255 :: u64)" "ucast y \<le> (4294967295 :: u64)"
    by (simp_all add: word_le_nat_alt unat_up)
qed

lemma conv_u8 [simp]: "codec_ok c \<Longrightarrow> cd_u8 c (AU64 (ucast (x :: u8))) = Some x"
  by (simp add: codec_okD(1) ucast_small)

lemma conv_u32 [simp]: "codec_ok c \<Longrightarrow> cd_u32 c (AU64 (ucast (x :: u32))) = Some x"
  by (simp add: codec_okD(2) ucast_small)

lemma integer_keys [simp]: "list_all (\<lambda>(k, _). integer_key k) (map (\<lambda>(k, v). (AU64 k, v)) fs)"
  by (simp add: list_all_iff split_beta)

lemma peek_message_frame [simp]: "peek_frame (message_frame fs) = Some (peek_raw fs)"
  by (simp add: peek_frame_def message_frame_def PeekMessageType_def)

lemma request_decodes:
  assumes "codec_ok c" and "validate_request rq = None"
  shows "DecodeRequest c (request_frame c rq) = Inr (rq\<lparr>rq_payload := cd_any c (rq_payload rq)\<rparr>)"
    and "peek_frame (request_frame c rq) = Some MTRequest"
    and "\<not> isRenewalMessage c (request_frame c rq)"
proof -
  let ?rq = "rq\<lparr>rq_payload := cd_any c (rq_payload rq)\<rparr>"
  have v: "validate_request (rq\<lparr>rq_payload := x\<rparr>) = None" for x
    using assms(2) by (auto simp: validate_request_def split: if_splits)
  then show "peek_frame (request_frame c rq) = Some MTRequest"
    using peek_fields [of ?rq] by (simp add: request_frame_def)
  show "\<not> isRenewalMessage c (request_frame c rq)"
    by (simp add: isRenewalMessage_def request_frame_def message_frame_def request_fields_def)
  obtain i p ep fid pl where rq: "rq = \<lparr>rq_message_id = i, rq_operation = p, rq_endpoint_id = ep,
      rq_feature_id = fid, rq_payload = pl\<rparr>" by (cases rq)
  from v [of ANil] v [of "cd_any c pl"] assms(1) show "DecodeRequest c (request_frame c rq) = Inr ?rq"
    by (simp add: DecodeRequest_def request_frame_def message_frame_def request_fields_def decode_field_def
      Let_def rq)
qed

text \<open>A response on the wire: its classification and its decoding.\<close>

definition map_or_nil :: "any \<Rightarrow> bool" where
  "map_or_nil p \<longleftrightarrow> p = ANil \<or> (\<exists>m. p = AMap m)"

lemma response_decodes:
  assumes "codec_ok c" and "map_or_nil (cd_any c (rp_payload rp))" and "rp_message_id rp \<noteq> 0"
  shows "DecodeResponse c (response_frame c rp) = Some (rp\<lparr>rp_payload := cd_any c (rp_payload rp)\<rparr>)"
    and "peek_frame (response_frame c rp) =
      Some (if cd_any c (rp_payload rp) = ANil \<and> rp_message_id rp \<le> 3 then MTControl else MTResponse)"
    and "DecodeRenewalMessage c (response_frame c rp) =
      (if cd_any c (rp_payload rp) = ANil \<and> rp_message_id rp = 33
       then Some (RenewalAck (renewal_ack (rp_status rp) 0)) else None)"
proof -
  let ?p = "cd_any c (rp_payload rp)" and ?rp = "rp\<lparr>rp_payload := cd_any c (rp_payload rp)\<rparr>"
  have raw: "fm_raw (response_frame c rp) = Some
      ([(1, AU64 (ucast (rp_message_id rp))), (2, AU64 (ucast (rp_status rp)))] @ (if ?p = ANil then [] else [(3, ?p)]))"
    by (simp add: response_frame_def message_frame_def response_fields_def)
  show "DecodeResponse c (response_frame c rp) = Some ?rp"
    using assms(1) by (simp add: DecodeResponse_def raw decode_field_def)
  have "?p = ANil \<or> is_payload_map ?p" using assms(2) by (auto simp: map_or_nil_def)
  then show "peek_frame (response_frame c rp) = Some (if ?p = ANil \<and> rp_message_id rp \<le> 3 then MTControl else MTResponse)"
    using peek_response_fields [of ?rp] assms(3) by (simp add: response_frame_def)
  have bytes: "cd_bytes c (AU64 (ucast (rp_status rp))) = None" using codec_okD(3) [OF assms(1)] .
  have tag: "cd_u8 c (AU64 (ucast (rp_message_id rp)))
      = (if unat (rp_message_id rp) \<le> 255 then Some (ucast (rp_message_id rp)) else None)"
    using codec_okD(1) [OF assms(1)] by (simp add: word_le_nat_alt unat_up ucast_down)
  have "ucast (rp_message_id rp) = (33 :: u8) \<longleftrightarrow> rp_message_id rp = 33" if "unat (rp_message_id rp) \<le> 255"
  proof -
    have "unat (ucast (rp_message_id rp) :: u8) = unat (rp_message_id rp)"
      using that by (simp add: unsigned_ucast_eq take_bit_nat_eq_self)
    then show ?thesis by (simp add: word_unat_eq_iff)
  qed
  then show "DecodeRenewalMessage c (response_frame c rp) =
      (if ?p = ANil \<and> rp_message_id rp = 33 then Some (RenewalAck (renewal_ack (rp_status rp) 0)) else None)"
    using assms(1,2) codec_okD(4) [OF assms(1)]
    by (auto simp: DecodeRenewalMessage_def raw decode_field_def tag bytes renewal_type_defs renewal_ack_def
      map_or_nil_def split: if_splits)
qed

lemma response_is_renewal:
  assumes "codec_ok c" and "map_or_nil (cd_any c (rp_payload rp))" and "rp_message_id rp \<noteq> 0"
  shows "isRenewalMessage c (response_frame c rp) \<longleftrightarrow> cd_any c (rp_payload rp) = ANil \<and> rp_message_id rp = 33"
proof -
  have "fm_raw (response_frame c rp) = Some (response_fields (rp\<lparr>rp_payload := cd_any c (rp_payload rp)\<rparr>))"
    by (simp add: response_frame_def message_frame_def)
  moreover have "gm_get (response_fields (rp\<lparr>rp_payload := cd_any c (rp_payload rp)\<rparr>)) 4 = None"
    by (simp add: response_fields_def)
  ultimately show ?thesis
    using response_decodes(3) [OF assms]
    by (simp add: isRenewalMessage_def renewal_ack_def renewal_type_defs)
qed

lemma device_response:
  assumes "codec_ok c" and "map_or_nil (cd_any c (rp_payload rp))" and "rp_message_id rp \<noteq> 0"
    and "\<not> ds_closed s"
  shows "device_on_message en enc c (response_frame c rp) s =
    (if cd_any c (rp_payload rp) = ANil \<and> rp_message_id rp \<le> 3 then (s, [])
     else if cd_any c (rp_payload rp) = ANil \<and> rp_message_id rp = 33
     then (case ds_renewal s of None \<Rightarrow> (s, [])
           | Some h \<Rightarrow> (s\<lparr>ds_renewal := Some (handle_renewal_response
               (RenewalAck (renewal_ack (rp_status rp) 0)) h)\<rparr>, []))
     else (s\<lparr>ds_client := client_handle_response (rp\<lparr>rp_payload := cd_any c (rp_payload rp)\<rparr>)
         (ds_client s)\<rparr>, []))"
  using response_decodes [OF assms(1-3)] response_is_renewal [OF assms(1-3)] assms(4)
  by (auto simp: device_on_message_def split: option.splits)

section \<open>Responses that are taken for something else\<close>

text \<open>A response with a payload reaches the client of a controller's session. One without a
  payload (the answer to an unsubscription, or to a command without a result) does not when
  its message id is 1, 2, 3 or 33: it is dropped as a control message, or taken for the
  acknowledgement of a certificate renewal. In the message loop of a device the ids 1 and 3
  are even acted upon: a pong is sent, or the connection is closed.\<close>

theorem responses_without_payload:
  assumes "codec_ok c" and "map_or_nil (cd_any c (rp_payload rp))" and "rp_message_id rp \<noteq> 0"
    and "\<not> ds_closed s"
  shows "device_on_message en enc c (response_frame c rp) s =
      (if cd_any c (rp_payload rp) = ANil \<and> rp_message_id rp \<le> 3 then (s, [])
       else if cd_any c (rp_payload rp) = ANil \<and> rp_message_id rp = 33
       then (case ds_renewal s of None \<Rightarrow> (s, [])
             | Some h \<Rightarrow> (s\<lparr>ds_renewal := Some (handle_renewal_response
                 (RenewalAck (renewal_ack (rp_status rp) 0)) h)\<rparr>, []))
       else (s\<lparr>ds_client := client_handle_response (rp\<lparr>rp_payload := cd_any c (rp_payload rp)\<rparr>)
           (ds_client s)\<rparr>, [])) \<and>
    zone_loop_action c (response_frame c rp) =
      (if cd_any c (rp_payload rp) = ANil \<and> rp_message_id rp = 1 then SendPong (ucast (rp_status rp))
       else if cd_any c (rp_payload rp) = ANil \<and> rp_message_id rp = 2 then IgnoreControl
       else if cd_any c (rp_payload rp) = ANil \<and> rp_message_id rp = 3 then SendCloseAndDisconnect
       else ToSession)"
proof (rule conjI [OF device_response [OF assms]])
  let ?id = "rp_message_id rp"
  have small: "?id = 1 \<or> ?id = 2 \<or> ?id = 3" if "?id \<le> 3"
  proof -
    have "unat ?id \<le> 3" using that by (simp add: word_le_nat_alt)
    moreover have "unat ?id \<noteq> 0" using assms(3) by (simp add: unat_eq_0)
    ultimately have "unat ?id = 1 \<or> unat ?id = 2 \<or> unat ?id = 3" by linarith
    then show ?thesis by (simp add: word_unat_eq_iff)
  qed
  have ctrl: "DecodeControlMessage c (response_frame c rp)
      = Some \<lparr>cm_type = ucast ?id, cm_sequence = ucast (rp_status rp)\<rparr>" if "?id \<le> 3"
  proof -
    have "unat ?id \<le> 3" using that by (simp add: word_le_nat_alt)
    moreover have "unat (rp_status rp) < 2 ^ LENGTH(8)" by (rule unsigned_less)
    ultimately show ?thesis
      by (simp add: DecodeControlMessage_def response_frame_def message_frame_def response_fields_def
        decode_field_def codec_okD(1,2) [OF assms(1)] word_le_nat_alt unat_up ucast_down ucast_up)
  qed
  show "zone_loop_action c (response_frame c rp) =
      (if cd_any c (rp_payload rp) = ANil \<and> ?id = 1 then SendPong (ucast (rp_status rp))
       else if cd_any c (rp_payload rp) = ANil \<and> ?id = 2 then IgnoreControl
       else if cd_any c (rp_payload rp) = ANil \<and> ?id = 3 then SendCloseAndDisconnect
       else ToSession)"
    using response_decodes(2) [OF assms(1-3)] small ctrl
    by (auto simp: zone_loop_action_def ControlPing_def ControlClose_def)
qed

section \<open>A codec\<close>

text \<open>The assumptions on the codec hold of a function that computes decoded values.\<close>

lemma entry_size [termination_simp]: "(k, v) \<in> set m \<Longrightarrow> size v < Suc (size_list (size_prod f size) m)"
  by (induction m) (auto simp: less_Suc_eq)

fun wire_value :: "any \<Rightarrow> any" where
  "wire_value (AU16s ids) = ASlice (map (\<lambda>i. AU64 (ucast i)) ids)"
| "wire_value (AMapU16 m) = AMap (map (\<lambda>(k, v). (AU64 (ucast k), wire_value v)) m)"
| "wire_value (AErrorPayload msg) = AMap [(AU64 1, AString msg)]"
| "wire_value (ASubscribePayload ids mn mx) =
     subscribe_payload_wire \<lparr>sp_attribute_ids = ids, sp_min_interval = mn, sp_max_interval = mx\<rparr>"
| "wire_value (AUnsubscribePayload i) = AMap [(AU64 1, AU64 (ucast i))]"
| "wire_value (ASubscribeResponse i vs) =
     AMap ((AU64 1, AU64 (ucast i)) #
       (if vs = [] then [] else [(AU64 2, AMap (map (\<lambda>(k, v). (AU64 (ucast k), wire_value v)) vs))]))"
| "wire_value (AU8 n) = AU64 (ucast n)"
| "wire_value (AU16 n) = AU64 (ucast n)"
| "wire_value (AU32 n) = AU64 (ucast n)"
| "wire_value v = v"

definition demo_codec :: codec where
  "demo_codec =
     \<lparr>cd_any = wire_value,
      cd_u8 = (\<lambda>v. case v of AU64 n \<Rightarrow> if n \<le> 255 then Some (ucast n) else None | _ \<Rightarrow> None),
      cd_u32 = (\<lambda>v. case v of AU64 n \<Rightarrow> if n \<le> 4294967295 then Some (ucast n) else None | _ \<Rightarrow> None),
      cd_bytes = (\<lambda>v. case v of ABytes b \<Rightarrow> Some b | _ \<Rightarrow> None),
      cd_changes = (\<lambda>v. case v of AMap m \<Rightarrow> Some (result_map m) | _ \<Rightarrow> None)\<rparr>"

lemma demo_codec_ok: "codec_ok demo_codec"
proof -
  have "subscribe_payload_wire \<lparr>sp_attribute_ids = sp_attribute_ids p, sp_min_interval = sp_min_interval p,
      sp_max_interval = sp_max_interval p\<rparr> = subscribe_payload_wire p" for p
    by (cases p) simp
  then show ?thesis by (simp add: codec_ok_def demo_codec_def)
qed

theorem responses_without_payload_witness:
  "let rp = \<lparr>rp_message_id = 3, rp_status = StatusSuccess, rp_payload = ANil\<rparr>
   in device_on_message demo_env (\<lambda>_. True) demo_codec (response_frame demo_codec rp) new_device_session
        = (new_device_session, []) \<and>
      zone_loop_action demo_codec (response_frame demo_codec rp) = SendCloseAndDisconnect"
proof -
  let ?rp = "\<lparr>rp_message_id = 3, rp_status = StatusSuccess, rp_payload = ANil\<rparr>"
  have nil: "cd_any demo_codec ANil = ANil" by (simp add: demo_codec_def)
  have "map_or_nil (cd_any demo_codec (rp_payload ?rp))" "rp_message_id ?rp \<noteq> 0" "\<not> ds_closed new_device_session"
    by (simp_all add: nil map_or_nil_def new_device_session_def)
  from responses_without_payload [OF demo_codec_ok this] nil show ?thesis by (simp add: Let_def)
qed

text \<open>A success response without payload and with message id 33 completes a certificate
  renewal that waits for its acknowledgement: the controller takes the new certificate for
  installed although the device never said so.\<close>

theorem response_acknowledges_renewal:
  assumes "codec_ok c" and "cd_any c (rp_payload rp) = ANil" and "rp_message_id rp = 33"
    and "status_is_success (rp_status rp)" and "\<not> ds_closed s" and "ds_renewal s = Some h"
    and "renew_sign sign h = (h1, Inr (crt, inst))" and "cr_response_wait h = None"
    and "s1 = s\<lparr>ds_renewal := Some h1\<rparr>"
  shows "\<exists>h2 h3. ds_renewal (fst (device_on_message en enc c (response_frame c rp) s1)) = Some h2 \<and>
    renew_receive crt h2 = (h3, Some (Inr crt)) \<and>
    ds_client (fst (device_on_message en enc c (response_frame c rp) s1)) = ds_client s"
proof -
  have nil: "map_or_nil (cd_any c (rp_payload rp))" "rp_message_id rp \<noteq> 0" "\<not> ds_closed s1"
    "\<not> rp_message_id rp \<le> 3"
    using assms(2,3,5,9) by (simp_all add: map_or_nil_def)
  have "cr_response_wait h1 = None"
    using assms(7,8) by (auto simp: renew_sign_def Let_def split: option.splits)
  with device_response [OF assms(1) nil(1-3), of en enc] assms(2-4,9) nil(4) show ?thesis
    by (simp add: handle_renewal_response_def renew_receive_def check_ack_def renewal_ack_def
      status_is_success_def StatusSuccess_def RenewalStatusSuccess_def)
qed

theorem response_acknowledges_renewal_witness:
  "let crt = \<lparr>ce_raw = [9], ce_public_key = Some (1 :: nat)\<rparr>;
       h = new_controller_renewal\<lparr>cr_pending_csr := Some [9]\<rparr>;
       h1 = fst (renew_sign (\<lambda>csr. Some crt) h);
       s1 = new_device_session\<lparr>ds_renewal := Some h1\<rparr>;
       rp = \<lparr>rp_message_id = 33, rp_status = StatusSuccess, rp_payload = ANil\<rparr>
   in \<exists>h2 h3. ds_renewal (fst (device_on_message demo_env (\<lambda>_. True) demo_codec (response_frame demo_codec rp) s1))
        = Some h2 \<and> renew_receive crt h2 = (h3, Some (Inr crt))"
proof -
  let ?crt = "\<lparr>ce_raw = [9], ce_public_key = Some (1 :: nat)\<rparr>"
  let ?h = "new_controller_renewal\<lparr>cr_pending_csr := Some [9]\<rparr>"
  let ?rp = "\<lparr>rp_message_id = 33, rp_status = StatusSuccess, rp_payload = ANil\<rparr>"
  obtain h1 inst where h1: "renew_sign (\<lambda>csr. Some ?crt) ?h = (h1, Inr (?crt, inst))"
    by (auto simp: renew_sign_def Let_def)
  have "cd_any demo_codec (rp_payload ?rp) = ANil" "rp_message_id ?rp = 33" "status_is_success (rp_status ?rp)"
    "\<not> ds_closed (new_device_session\<lparr>ds_renewal := Some ?h\<rparr>)"
    "ds_renewal (new_device_session\<lparr>ds_renewal := Some ?h\<rparr>) = Some ?h"
    by (simp_all add: demo_codec_def status_is_success_def new_device_session_def)
  from response_acknowledges_renewal [OF demo_codec_ok this h1 _ refl, of demo_env "\<lambda>_. True"] h1
  show ?thesis by (auto simp: Let_def new_controller_renewal_def)
qed

section \<open>Requests end to end\<close>

subsection \<open>Maps through the codec\<close>

definition wire_keys :: "(any \<times> any) list \<Rightarrow> bool" where
  "wire_keys m \<longleftrightarrow> (\<forall>e \<in> set m. \<exists>k :: u16. fst e = AU64 (ucast k))"

lemma wire_keys_snoc: "wire_keys (xs @ [e]) \<longleftrightarrow> wire_keys xs \<and> (\<exists>k :: u16. fst e = AU64 (ucast k))"
  by (auto simp: wire_keys_def)

lemma result_map_get:
  assumes "wire_keys m" and "distinct (map fst m)"
  shows "gm_get (result_map m) i = Some v \<longleftrightarrow> (AU64 (ucast i), v) \<in> set m"
  using assms
proof (induction m rule: rev_induct)
  case Nil
  then show ?case by (simp add: result_map_def)
next
  case (snoc e m)
  then obtain k :: u16 where k: "fst e = AU64 (ucast k)" by (auto simp: wire_keys_snoc)
  have e: "e = (AU64 (ucast k), snd e)" using k by (cases e) simp
  have step: "result_map (m @ [e]) = gm_put k (snd e) (result_map m)"
    by (subst e) (simp add: result_map_def)
  have inj: "ucast i = (ucast k :: u64) \<longleftrightarrow> i = k" by (metis ucast_back(2))
  have "(AU64 (ucast k), w) \<notin> set m" for w
    using snoc.prems(2) k by (force simp: image_iff)
  with snoc.IH snoc.prems inj show ?case
    unfolding step by (subst (2) e) (auto simp: gomap_simps wire_keys_snoc)
qed

lemma result_map_wf: "gm_wf (result_map m)"
proof -
  have "gm_wf (foldl (\<lambda>r (k, v). case result_key k of None \<Rightarrow> r | Some i \<Rightarrow> gm_put i v r) r m)"
    if "gm_wf r" for r
    using that
  proof (induction m arbitrary: r)
    case (Cons e m)
    then show ?case by (cases e; cases "result_key (fst e)") simp_all
  qed simp
  then show ?thesis by (simp add: result_map_def)
qed

lemma put_entries_result:
  assumes "wire_keys m"
  shows "foldl put_entry [] m = result_map m" and "current_values (AMap m) = result_map m"
proof -
  have "foldl put_entry r m = foldl (\<lambda>r (k, v). case result_key k of None \<Rightarrow> r | Some i \<Rightarrow> gm_put i v r) r m"
    and "foldl (\<lambda>r (k, v). case k of AU64 i \<Rightarrow> gm_put (ucast i) v r | _ \<Rightarrow> r) r m
      = foldl (\<lambda>r (k, v). case result_key k of None \<Rightarrow> r | Some i \<Rightarrow> gm_put i v r) r m" for r
    using assms by (induction m arbitrary: r) (auto simp: wire_keys_def put_entry_def)
  then show "foldl put_entry [] m = result_map m" "current_values (AMap m) = result_map m"
    by (simp_all add: result_map_def)
qed

lemma map_through_codec:
  assumes "codec_ok c" and "gm_wf es"
  obtains m where "cd_any c (AMapU16 es) = AMap m" "wire_keys m"
    "\<And>i. gm_get (result_map m) i = map_option (cd_any c) (gm_get es i)" "m = [] \<longleftrightarrow> es = []"
proof -
  obtain m where m: "cd_any c (AMapU16 es) = AMap m"
      "mset m = mset (map (\<lambda>(k, v). (AU64 (ucast k), cd_any c v)) es)"
    using codec_okD(8) [OF assms(1)] by blast
  have set: "set m = (\<lambda>(k, v). (AU64 (ucast k), cd_any c v)) ` set es"
    using m(2) by (metis list.set_map set_mset_mset)
  have inj: "ucast (x :: u16) = (ucast y :: u64) \<longleftrightarrow> x = y" for x y by (metis ucast_back(2))
  have keys: "wire_keys m" using set by (auto simp: wire_keys_def)
  have "mset (map fst m) = mset (map (\<lambda>k. AU64 (ucast k)) (map fst es))"
    using arg_cong [OF m(2), of "image_mset fst"] by (simp add: comp_def split_beta flip: mset_map)
  moreover have "distinct (map (\<lambda>k. AU64 (ucast k)) (map fst es))"
    using assms(2) inj by (auto simp: gm_wf_def distinct_map inj_on_def)
  ultimately have dist: "distinct (map fst m)" by (metis mset_eq_imp_distinct_iff)
  have "gm_get (result_map m) i = map_option (cd_any c) (gm_get es i)" for i
  proof -
    have iff: "gm_get (result_map m) i = Some w \<longleftrightarrow> (\<exists>v. gm_get es i = Some v \<and> w = cd_any c v)" for w
      using result_map_get [OF keys dist, of i w] set inj gm_get_in [OF assms(2)] by auto
    show ?thesis
    proof (cases "gm_get es i")
      case None
      with iff show ?thesis by (cases "gm_get (result_map m) i") auto
    next
      case (Some v)
      with iff [of "cd_any c v"] show ?thesis by simp
    qed
  qed
  moreover have "m = [] \<longleftrightarrow> es = []" using m(2) by (metis image_mset_is_empty_iff mset_map mset_zero_iff)
  ultimately show thesis using that m(1) keys by blast
qed

subsection \<open>Read\<close>

lemma foldl_gm_wf:
  "(\<And>r e. gm_wf r \<Longrightarrow> gm_wf (g r e)) \<Longrightarrow> gm_wf r \<Longrightarrow> gm_wf (foldl g r es)"
  by (induction es arbitrary: r) auto

lemma read_all_wf: "gm_wf (read_all_attributes_with_context hk ctx f)"
  unfolding read_all_attributes_with_context_def by (rule foldl_gm_wf) (auto split: prod.splits)

text \<open>A valid request that the request handler answers, at the device's session.\<close>

lemma zone_request:
  assumes "codec_ok c" and "validate_request rq = None" and "\<not> zs_closed s"
    and "rq_operation rq \<noteq> OpSubscribe" and "ze_encodable ze = (\<lambda>_. True)"
    and "handle_request (ze_env ze) (rq\<lparr>rq_payload := cd_any c (rq_payload rq)\<rparr>) (zs_handler s) = (h, effects, rp)"
  shows "zone_on_message ze c (request_frame c rq) s =
    (s\<lparr>zs_handler := h\<rparr>, map HandlerEffect effects @ [SendResponse rp])"
  using request_decodes [OF assms(1,2)] assms(3-6)
  by (simp add: zone_on_message_def zs_handle_request_def send_response_def)

lemma read_ids_lost:
  assumes "codec_ok c"
  shows "ExtractReadAttributeIDs (cd_any c (AU16s ids)) = []"
  using codec_okD(6,7) [OF assms] by (cases "ids = []") auto

text \<open>What the client makes of an error response.\<close>

lemma error_result:
  assumes "codec_ok c"
  shows "\<exists>m. cd_any c (AErrorPayload msg) = AMap m \<and> error_message (AMap m) = ''''"
  using codec_okD(9) [OF assms, of msg] by auto

text \<open>C25. A read by a client, as a device's session with the controller answers it: the result is
  the values of all readable attributes of the feature, whichever attribute ids the caller
  asked for, since the ids do not arrive; and the text of an error response is lost on the
  way, only its status arrives.\<close>

theorem client_read_returns_all_attributes:
  assumes "codec_ok c" and "\<not> zs_closed s" and "ze_encodable ze = (\<lambda>_. True)" and "i \<noteq> 0"
    and "device_get_feature ep fid (ph_device (zs_handler s)) = Inr f"
  shows "(\<exists>rp m. zone_on_message ze c (request_frame c (read_request i ep fid ids)) s = (s, [SendResponse rp]) \<and>
      rp_message_id rp = i \<and>
      read_result (Inr (rp\<lparr>rp_payload := cd_any c (rp_payload rp)\<rparr>)) = Inr m \<and>
      (\<forall>k. gm_get m k = map_option (cd_any c)
         (gm_get (read_all_attributes_with_context (en_hooks (ze_env ze)) (caller_of (zs_handler s)) f) k))) \<and>
    (st \<noteq> StatusSuccess \<longrightarrow>
      read_result (Inr (error_response rq st msg\<lparr>rp_payload := cd_any c (AErrorPayload msg)\<rparr>))
        = Inl (StatusErr st ''''))"
proof (rule conjI)
  let ?h = "zs_handler s" and ?rq = "read_request i ep fid ids"
  let ?all = "read_all_attributes_with_context (en_hooks (ze_env ze)) (caller_of ?h) f"
  let ?rp = "success_response ?rq (AMapU16 ?all)"
  have v: "validate_request ?rq = None"
    using assms(4) by (simp add: validate_request_def read_request_def NotificationMessageID_def op_is_valid_iff OpRead_def)
  from assms(5) obtain e where e: "get_endpoint ep (ph_device ?h) = Inr e" "get_feature fid e = Inr f"
    by (auto simp: device_get_feature_def split: sum.splits)
  have "handle_request (ze_env ze) (?rq\<lparr>rq_payload := cd_any c (rq_payload ?rq)\<rparr>) ?h = (?h, [], ?rp)"
    using e read_ids_lost [OF assms(1), of ids]
    by (simp add: handle_request_def handle_read_def read_request_def op_is_valid_iff OpRead_def Let_def
      success_response_def)
  from zone_request [OF assms(1) v assms(2) _ assms(3) this]
  have r: "zone_on_message ze c (request_frame c ?rq) s = (s, [SendResponse ?rp])"
    by (simp add: read_request_def op_defs)
  obtain m where m: "cd_any c (AMapU16 ?all) = AMap m"
    "\<And>k. gm_get (result_map m) k = map_option (cd_any c) (gm_get ?all k)"
    using map_through_codec [OF assms(1) read_all_wf] by metis
  have "read_result (Inr (?rp\<lparr>rp_payload := cd_any c (rp_payload ?rp)\<rparr>)) = Inr (result_map m)"
    by (simp add: read_result_def success_response_def status_is_success_def m(1))
  with r m(2) show "\<exists>rp m. zone_on_message ze c (request_frame c ?rq) s = (s, [SendResponse rp]) \<and>
      rp_message_id rp = i \<and> read_result (Inr (rp\<lparr>rp_payload := cd_any c (rp_payload rp)\<rparr>)) = Inr m \<and>
      (\<forall>k. gm_get m k = map_option (cd_any c) (gm_get ?all k))"
    by (intro exI [of _ ?rp] exI [of _ "result_map m"]) (simp add: success_response_def read_request_def)
next
  show "st \<noteq> StatusSuccess \<longrightarrow>
      read_result (Inr (error_response rq st msg\<lparr>rp_payload := cd_any c (AErrorPayload msg)\<rparr>))
        = Inl (StatusErr st '''')"
    using error_result [OF assms(1), of msg]
    by (auto simp: read_result_def error_response_def status_is_success_def status_error_def)
qed

definition demo_zone_env :: "nat zone_env" where
  "demo_zone_env =
     \<lparr>ze_env = demo_env, ze_now = 0, ze_encodable = (\<lambda>_. True), ze_notification_encodable = (\<lambda>_. True),
      ze_sha = (\<lambda>_. []), ze_key = None, ze_create_csr = (\<lambda>_. None), ze_parse = (\<lambda>_. None)\<rparr>"

definition demo_zone_session :: "nat zone_session" where
  "demo_zone_session = new_zone_session ''zone'' demo_device"

lemma demo_zone_simps:
  "zs_closed demo_zone_session = False" "ze_encodable demo_zone_env = (\<lambda>_. True)"
  "zs_conn_id demo_zone_session = 1"
  "zs_dispatcher demo_zone_session
     = nd_run ok new_dispatcher [NdSetInterval (100 * millisecond), NdRegister, NdStart]"
  "zs_handler demo_zone_session = set_peer_id ''zone'' (new_handler demo_device)"
  by (simp_all add: demo_zone_session_def new_zone_session_def demo_zone_env_def nd_run_def
    register_connection_def set_processing_interval_def dispatcher_start_def new_dispatcher_def Let_def)

lemma demo_feature: "\<exists>f. device_get_feature 0 5 demo_device = Inr f"
proof -
  have "isl (device_get_feature 0 5 demo_device) = False" by code_simp
  then show ?thesis by (cases "device_get_feature 0 5 demo_device") auto
qed

theorem client_read_returns_all_attributes_witness:
  "\<exists>rp m. zone_on_message demo_zone_env demo_codec (request_frame demo_codec (read_request 2 0 5 [21])) demo_zone_session
      = (demo_zone_session, [SendResponse rp]) \<and>
     read_result (Inr (rp\<lparr>rp_payload := cd_any demo_codec (rp_payload rp)\<rparr>)) = Inr m \<and>
     gm_get m 22 \<noteq> None"
proof -
  obtain f where f: "device_get_feature 0 5 demo_device = Inr f" using demo_feature by blast
  then have f': "device_get_feature 0 5 (ph_device (zs_handler demo_zone_session)) = Inr f"
    by (simp add: demo_zone_simps set_peer_id_def new_handler_def)
  have "gm_get (read_all_attributes_with_context (\<lambda>_ _ _. None) (caller_of (zs_handler demo_zone_session))
      (projr (device_get_feature 0 5 demo_device))) 22 \<noteq> None" by code_simp
  then have "gm_get (read_all_attributes_with_context (en_hooks (ze_env demo_zone_env))
      (caller_of (zs_handler demo_zone_session)) f) 22 \<noteq> None"
    by (simp add: f demo_zone_env_def demo_env_def)
  with client_read_returns_all_attributes [where ze = demo_zone_env and i = 2 and ids = "[21]",
      OF demo_codec_ok _ _ _ f']
  show ?thesis by (fastforce simp: demo_zone_simps)
qed

subsection \<open>Write\<close>

lemma handle_write_payload:
  assumes "ExtractWritePayload p = ExtractWritePayload p'"
  shows "handle_write en (rq\<lparr>rq_payload := p\<rparr>) h = handle_write en (rq\<lparr>rq_payload := p'\<rparr>) h"
  using assms
  by (simp add: handle_write_def error_response_def success_response_def Let_def
      cong: sum.case_cong option.case_cong if_cong)

lemma handle_write_result:
  assumes "handle_write en rq h = (h', effects, rp)" and "status_is_success (rp_status rp)"
  shows "\<exists>r. rp_payload rp = AMapU16 r \<and> gm_wf r"
proof -
  have "gm_wf (ws_result (write_entries m f))" for m f
  proof -
    have "gm_wf (ws_result (foldl write_entry w m))" if "gm_wf (ws_result w)" for w
      using that
    proof (induction m arbitrary: w)
      case (Cons e m)
      have "gm_wf (ws_result (write_entry w e))"
        using Cons.prems by (auto simp: write_entry_def split: prod.splits option.splits sum.splits)
      with Cons.IH show ?case by simp
    qed simp
    then show ?thesis by (simp add: write_entries_def)
  qed
  moreover have "write_error_status err \<noteq> StatusSuccess" for err
    by (cases err) (simp_all add: status_defs)
  moreover have "StatusInvalidEndpoint \<noteq> StatusSuccess" "StatusInvalidFeature \<noteq> StatusSuccess"
    "StatusInvalidParameter \<noteq> StatusSuccess" by (simp_all add: status_defs)
  ultimately show ?thesis
    using assms
    by (auto simp: handle_write_def error_response_def success_response_def status_is_success_def Let_def
      split: sum.splits option.splits)
qed

text \<open>C26. A write by a client arrives at the device entry by entry: the handler runs on a map with the
  same attribute ids and the values as decoded, and on success the client gets the values
  that the handler reports.\<close>

theorem client_write_reaches_device:
  assumes "codec_ok c" and "\<not> zs_closed s" and "ze_encodable ze = (\<lambda>_. True)" and "i \<noteq> 0"
    and "gm_wf attrs" and "attrs \<noteq> []"
  shows "\<exists>m h effects rp. gm_wf m \<and> (\<forall>k. gm_get m k = map_option (cd_any c) (gm_get attrs k)) \<and>
    handle_write (ze_env ze) (write_request i ep fid m) (zs_handler s) = (h, effects, rp) \<and>
    zone_on_message ze c (request_frame c (write_request i ep fid attrs)) s
      = (s\<lparr>zs_handler := h\<rparr>, map HandlerEffect effects @ [SendResponse rp]) \<and>
    (status_is_success (rp_status rp) \<longrightarrow>
       (\<exists>r res. rp_payload rp = AMapU16 r \<and>
          write_result (Inr (rp\<lparr>rp_payload := cd_any c (rp_payload rp)\<rparr>)) = Inr res \<and>
          (\<forall>k. gm_get res k = map_option (cd_any c) (gm_get r k))))"
proof -
  let ?rq = "write_request i ep fid attrs"
  obtain m' where m': "cd_any c (AMapU16 attrs) = AMap m'" "wire_keys m'"
      "\<And>k. gm_get (result_map m') k = map_option (cd_any c) (gm_get attrs k)" "m' = [] \<longleftrightarrow> attrs = []"
    using map_through_codec [OF assms(1,5)] by metis
  let ?m = "result_map m'"
  obtain k v where "(k, v) \<in> set attrs" using assms(6) by (cases attrs) auto
  then have "gm_get ?m k \<noteq> None" using m'(3) gm_get_in [OF assms(5)] by (metis option.simps(3,9))
  then have ne: "?m \<noteq> []" by auto
  obtain h effects rp where w: "handle_write (ze_env ze) (write_request i ep fid ?m) (zs_handler s) = (h, effects, rp)"
    by (metis prod_cases3)
  have "handle_write (ze_env ze) (?rq\<lparr>rq_payload := AMap m'\<rparr>) (zs_handler s)
      = handle_write (ze_env ze) (?rq\<lparr>rq_payload := AMapU16 ?m\<rparr>) (zs_handler s)"
    by (rule handle_write_payload) (simp add: put_entries_result(1) [OF m'(2)] ne)
  with w have "handle_request (ze_env ze) (?rq\<lparr>rq_payload := cd_any c (rq_payload ?rq)\<rparr>) (zs_handler s)
      = (h, effects, rp)"
    by (simp add: handle_request_def write_request_def op_is_valid_iff op_defs m'(1))
  moreover have "validate_request ?rq = None" "rq_operation ?rq \<noteq> OpSubscribe"
    using assms(4) by (simp_all add: validate_request_def write_request_def NotificationMessageID_def
      op_is_valid_iff op_defs)
  ultimately have "zone_on_message ze c (request_frame c ?rq) s
      = (s\<lparr>zs_handler := h\<rparr>, map HandlerEffect effects @ [SendResponse rp])"
    using zone_request [OF assms(1) _ assms(2) _ assms(3)] by blast
  moreover have "\<exists>r res. rp_payload rp = AMapU16 r \<and>
      write_result (Inr (rp\<lparr>rp_payload := cd_any c (rp_payload rp)\<rparr>)) = Inr res \<and>
      (\<forall>k. gm_get res k = map_option (cd_any c) (gm_get r k))" if ok: "status_is_success (rp_status rp)"
  proof -
    obtain r where r: "rp_payload rp = AMapU16 r" "gm_wf r" using handle_write_result [OF w ok] by blast
    obtain n where "cd_any c (AMapU16 r) = AMap n"
        "\<And>k. gm_get (result_map n) k = map_option (cd_any c) (gm_get r k)"
      using map_through_codec [OF assms(1) r(2)] by metis
    with r ok show ?thesis by (simp add: write_result_def)
  qed
  ultimately show ?thesis using m'(3) result_map_wf w by blast
qed

theorem client_write_reaches_device_witness:
  "\<exists>h effects. zone_on_message demo_zone_env demo_codec
      (request_frame demo_codec (write_request 3 0 5 [(21, AU8 7)])) demo_zone_session
      = (demo_zone_session\<lparr>zs_handler := h\<rparr>, effects)"
proof -
  have wf: "gm_wf [(21 :: u16, AU8 7)]" by (simp add: gm_wf_def)
  have n: "\<not> zs_closed demo_zone_session" "(3 :: u32) \<noteq> 0" "[(21 :: u16, AU8 7)] \<noteq> []"
    by (simp_all add: demo_zone_simps)
  show ?thesis
    using client_write_reaches_device [where ep = 0 and fid = 5, OF demo_codec_ok n(1) demo_zone_simps(2) n(2) wf n(3)]
    by blast
qed

subsection \<open>Subscribe\<close>

lemma current_priming_wf: "gm_wf (current_priming ids f)"
proof -
  have "gm_wf (read_all_attributes f)"
    unfolding read_all_attributes_def by (rule foldl_gm_wf) (auto split: prod.splits)
  moreover have "gm_wf (foldl (\<lambda>acc i. case read_attribute i f of Inr v \<Rightarrow> gm_put i v acc | Inl _ \<Rightarrow> acc) [] ids)"
    by (rule foldl_gm_wf) (auto split: sum.splits)
  ultimately show ?thesis by (simp add: current_priming_def)
qed

lemma subscribe_response_decodes:
  assumes "codec_ok c" and "gm_wf vs"
  shows "\<exists>res. subscribe_result (Inr (success_response rq (ASubscribeResponse sub vs)
       \<lparr>rp_payload := cd_any c (ASubscribeResponse sub vs)\<rparr>)) = Inr (sub, res) \<and>
     (\<forall>k. gm_get res k = map_option (cd_any c) (gm_get vs k))"
proof -
  obtain m where m: "cd_any c (ASubscribeResponse sub vs) = AMap m" "any_at m (AU64 1) = AU64 (ucast sub)"
      "any_at m (AU64 2) = (if vs = [] then ANil else cd_any c (AMapU16 vs))"
    using codec_okD(12) [OF assms(1)] by blast
  obtain n where n: "cd_any c (AMapU16 vs) = AMap n" "wire_keys n"
      "\<And>k. gm_get (result_map n) k = map_option (cd_any c) (gm_get vs k)"
    using map_through_codec [OF assms] by metis
  have "subscribe_result (Inr (success_response rq (ASubscribeResponse sub vs)
       \<lparr>rp_payload := cd_any c (ASubscribeResponse sub vs)\<rparr>))
     = Inr (sub, if vs = [] then [] else result_map n)"
    by (simp add: subscribe_result_def success_response_def status_is_success_def m n(1)
      put_entries_result(2) [OF n(2)] del: current_values.simps(1))
  with n(3) show ?thesis by (cases "vs = []") auto
qed

lemma subscribe_payload_back: "ExtractSubscribePayload (subscribe_payload_wire p) = Some p"
  by (cases p) (simp add: subscribe_payload_wire_def subscribe_fields_def)

lemma subscribe_payload_arrives:
  assumes "codec_ok c"
  shows "ExtractSubscribePayload (cd_any c (ASubscribePayload ids mn mx))
    = Some \<lparr>sp_attribute_ids = ids, sp_min_interval = mn, sp_max_interval = mx\<rparr>"
  using codec_okD(10) [OF assms, of "\<lparr>sp_attribute_ids = ids, sp_min_interval = mn, sp_max_interval = mx\<rparr>"]
  by (simp add: subscribe_payload_back)

text \<open>The two kinds of answers of \<open>HandleSubscribe\<close>.\<close>

lemma dispatcher_subscribe_answer:
  assumes "dispatcher_subscribe ok now n rq dev d = (d', rp, sends)"
  obtains (error) st msg where "rp = error_response rq st msg" "st \<noteq> StatusSuccess"
  | (ok) sub f where "rp = success_response rq (ASubscribeResponse sub (current_priming
        (case ExtractSubscribePayload (rq_payload rq) of None \<Rightarrow> [] | Some p \<Rightarrow> sp_attribute_ids p) f))"
      "device_get_feature (rq_endpoint_id rq) (rq_feature_id rq) dev = Inr f"
proof (cases "subscribe_checks n rq dev d")
  case (Inl rp')
  then have "\<exists>st msg. rp' = error_response rq st msg \<and> st \<noteq> StatusSuccess"
    by (auto simp: subscribe_checks_def Let_def status_defs split: if_splits sum.splits)
  with error assms Inl show thesis by (auto simp: dispatcher_subscribe_def)
next
  case (Inr p)
  then obtain f where f: "device_get_feature (rq_endpoint_id rq) (rq_feature_id rq) dev = Inr f"
    and vals: "su_values p = current_priming
        (case ExtractSubscribePayload (rq_payload rq) of None \<Rightarrow> [] | Some p \<Rightarrow> sp_attribute_ids p) f"
    by (auto simp: subscribe_checks_def Let_def device_get_feature_iff split: if_splits sum.splits)
  obtain d1 r s1 where m: "subscribe_in_manager ok now rq p d = (d1, r, s1)" by (metis prod_cases3)
  show thesis
  proof (cases r)
    case (Inl rp')
    then have "rp' = rp" using assms Inr m by (simp add: dispatcher_subscribe_def)
    moreover have "\<exists>msg. rp' = error_response rq StatusResourceExhausted msg"
      using m Inl by (auto simp: subscribe_in_manager_def split: prod.splits sum.splits)
    ultimately show thesis using error by (auto simp: status_defs)
  next
    case (Inr sub)
    then have "rp = success_response rq (ASubscribeResponse sub (su_values p))"
      using assms \<open>subscribe_checks n rq dev d = Inr p\<close> m by (auto simp: dispatcher_subscribe_def)
    with ok f vals show thesis by simp
  qed
qed

text \<open>C5. A subscription by a client, at the device's session: the session sends exactly one answer,
  with the id of the request. When the client reads a subscription id from it, that id was
  free before, the dispatcher now routes it to the connection of the session and nothing
  else changed, and the client gets the current values of the attributes it named. When the
  client reads an error, no subscription was made.\<close>

theorem client_subscription_is_routed:
  assumes "codec_ok c" and "\<not> zs_closed s" and "ze_encodable ze = (\<lambda>_. True)" and "i \<noteq> 0" and "fid \<noteq> 0"
    and "length es < 2 ^ 32 - 1"
    and "zs_dispatcher s = nd_run (ze_notification_encodable ze) new_dispatcher es"
    and "zone_on_message ze c (request_frame c (subscribe_request i ep fid opts)) s = (s', outs)"
  shows "\<exists>rp. outs = [SendResponse rp] \<and> rp_message_id rp = i \<and>
    (case subscribe_result (Inr (rp\<lparr>rp_payload := cd_any c (rp_payload rp)\<rparr>)) of
       Inr (sub, vals) \<Rightarrow>
         fo_owner (fan_out_of (zs_dispatcher s)) sub = None \<and>
         fan_out_of (zs_dispatcher s') = (fan_out_of (zs_dispatcher s))
           \<lparr>fo_owner := (fo_owner (fan_out_of (zs_dispatcher s)))(sub \<mapsto> zs_conn_id s)\<rparr> \<and>
         (\<exists>f. device_get_feature ep fid (ph_device (zs_handler s)) = Inr f \<and>
            (\<forall>k. gm_get vals k = map_option (cd_any c)
               (gm_get (current_priming (case opts of None \<Rightarrow> [] | Some p \<Rightarrow> so_attribute_ids p) f) k)))
     | Inl err \<Rightarrow> (\<exists>st. err = StatusErr st '''') \<and>
         fan_out_of (zs_dispatcher s') = fan_out_of (zs_dispatcher s))"
proof -
  let ?q = "subscribe_request i ep fid opts" and ?d = "zs_dispatcher s" and ?dev = "ph_device (zs_handler s)"
  let ?rq = "?q\<lparr>rq_payload := cd_any c (rq_payload ?q)\<rparr>" and ?ok = "ze_notification_encodable ze"
  let ?ids = "case opts of None \<Rightarrow> [] | Some p \<Rightarrow> so_attribute_ids p"
  have rq: "rq_message_id ?rq = i" "rq_operation ?rq = OpSubscribe" "rq_endpoint_id ?rq = ep" "rq_feature_id ?rq = fid"
    by (simp_all add: subscribe_request_def)
  have ids: "(case ExtractSubscribePayload (rq_payload ?rq) of None \<Rightarrow> [] | Some p \<Rightarrow> sp_attribute_ids p) = ?ids"
    using subscribe_payload_arrives [OF assms(1)] by (simp add: subscribe_request_def split: option.splits)
  have v: "validate_request ?q = None"
    using assms(4) by (simp add: validate_request_def subscribe_request_def NotificationMessageID_def
      op_is_valid_iff OpSubscribe_def)
  obtain nd rp sends where sub: "dispatcher_subscribe ?ok (ze_now ze) (zs_conn_id s) ?rq ?dev ?d = (nd, rp, sends)"
    by (metis prod_cases3)
  have "zone_on_message ze c (request_frame c ?q) s = zs_handle_request ze c (request_frame c ?q) s"
    using request_decodes [OF assms(1) v] assms(2) by (simp add: zone_on_message_def)
  also have "\<dots> = (s\<lparr>zs_dispatcher := nd\<rparr>, [SendResponse rp])"
    using request_decodes(1) [OF assms(1) v] rq assms(3,5) sub
    by (simp add: zs_handle_request_def send_response_def)
  finally have out: "s' = s\<lparr>zs_dispatcher := nd\<rparr>" "outs = [SendResponse rp]" using assms(8) by simp_all
  have inv: "nd_inv (0 + length es) ?d"
    unfolding assms(7) nd_run_def by (rule dispatch_machine.run_within [OF nd_inv_new]) (use assms(6) in simp)
  have n: "0 + length es < 2 ^ 32 - 1" using assms(6) by simp
  have step: "fan_step (fan_out_of ?d) (fan_event_of (NdSubscribe (ze_now ze) (zs_conn_id s) ?rq ?dev) (Answer rp)) (fan_out_of nd)"
    using subscribe_refines [OF inv n sub] by blast
  show ?thesis
  proof (cases rule: dispatcher_subscribe_answer [OF sub])
    case (1 st msg)
    have "fan_out_of nd = fan_out_of ?d" using step answered_simps(1) [OF 1(2), of ?rq msg] 1(1) by simp
    moreover obtain m where "cd_any c (AErrorPayload msg) = AMap m" using codec_okD(9) [OF assms(1)] by blast
    ultimately show ?thesis
      using 1 out rq by (simp add: subscribe_result_def error_response_def status_is_success_def status_error_def)
  next
    case (2 sub f)
    let ?vals = "current_priming ?ids f"
    have rp: "rp = success_response ?rq (ASubscribeResponse sub ?vals)" using 2(1) unfolding ids .
    obtain res where res: "subscribe_result (Inr (rp\<lparr>rp_payload := cd_any c (rp_payload rp)\<rparr>)) = Inr (sub, res)"
        "\<forall>k. gm_get res k = map_option (cd_any c) (gm_get ?vals k)"
      using subscribe_response_decodes [where rq = ?rq and sub = sub, OF assms(1) current_priming_wf [of ?ids f]]
      by (auto simp: rp success_response_def)
    have "answered_id rp = Some sub" unfolding rp by (rule answered_simps(2))
    with step have "fo_owner (fan_out_of ?d) sub = None"
      "fan_out_of nd = (fan_out_of ?d)\<lparr>fo_owner := (fo_owner (fan_out_of ?d))(sub \<mapsto> zs_conn_id s)\<rparr>"
      by (simp_all del: answered_id.simps)
    with res out rq 2(2) show ?thesis by (simp add: rp success_response_def)
  qed
qed

theorem client_subscription_is_routed_witness:
  "\<exists>rp sub vals. snd (zone_on_message demo_zone_env demo_codec
        (request_frame demo_codec (subscribe_request 2 0 5 None)) demo_zone_session) = [SendResponse rp] \<and>
     subscribe_result (Inr (rp\<lparr>rp_payload := cd_any demo_codec (rp_payload rp)\<rparr>)) = Inr (sub, vals) \<and>
     fo_owner (fan_out_of (zs_dispatcher (fst (zone_on_message demo_zone_env demo_codec
        (request_frame demo_codec (subscribe_request 2 0 5 None)) demo_zone_session)))) sub = Some 1"
proof -
  let ?es = "[NdSetInterval (100 * millisecond), NdRegister, NdStart]"
  let ?r = "zone_on_message demo_zone_env demo_codec (request_frame demo_codec (subscribe_request 2 0 5 None)) demo_zone_session"
  have l: "length ?es < 2 ^ 32 - 1" by simp
  have n: "\<not> zs_closed demo_zone_session" "(2 :: u32) \<noteq> 0" "(5 :: u8) \<noteq> 0" by (simp_all add: demo_zone_simps)
  have "?r = (fst ?r, snd ?r)" by simp
  note p = client_subscription_is_routed [where opts = None and ep = 0, OF demo_codec_ok n(1) demo_zone_simps(2) n(2,3) l
      demo_zone_simps(4) this]
  have "(case snd ?r of [SendResponse rp] \<Rightarrow> rp_status rp | _ \<Rightarrow> 1) = 0" by code_simp
  then obtain rp where rp: "snd ?r = [SendResponse rp]" "rp_status rp = 0"
    using p by auto
  have "\<exists>sub vals. subscribe_result (Inr (rp\<lparr>rp_payload := cd_any demo_codec (rp_payload rp)\<rparr>)) = Inr (sub, vals)"
  proof (cases "subscribe_result (Inr (rp\<lparr>rp_payload := cd_any demo_codec (rp_payload rp)\<rparr>))")
    case (Inl err)
    with p rp(1) obtain st where "err = StatusErr st ''''" by auto
    with Inl rp(2) show ?thesis
      by (auto simp: subscribe_result_def status_is_success_def StatusSuccess_def split: any.splits)
  next
    case (Inr r)
    then show ?thesis by (cases r) simp
  qed
  with p rp show ?thesis by (auto simp: demo_zone_simps)
qed

end
