(* ===== verification/UseCase.thy ===== *)
theory UseCase
  imports DeviceModel Text
begin

text \<open>
  Use cases (\<open>pkg/usecase\<close>): what a use case needs of an endpoint (\<open>types.go\<close>), the matching
  of the definitions against the profile of a device (\<open>matcher.go\<close>), the declarations a
  device or controller makes of itself (\<open>evaluate.go\<close>) and how the other side finds them
  (\<open>discovery.go\<close>).

  The client of \<open>discovery.go\<close> is an interface (\<open>DeviceReader\<close>); here it is a function from
  the arguments of a read to its answer, so the device does not change while it is probed.
\<close>

unbundle bit_operations_syntax

section \<open>Definitions of use cases\<close>

type_synonym scenario_map = u32

definition ScenarioBASE :: scenario_map where "ScenarioBASE = 1"

text \<open>\<open>1 << bit\<close> in 32 bits: a bit number above 31 gives 0.\<close>

definition scenario_flag :: "u8 \<Rightarrow> scenario_map" where
  "scenario_flag b = push_bit (unat b) 1"

definition scenario_has :: "scenario_map \<Rightarrow> u8 \<Rightarrow> bool" where
  "scenario_has s b \<longleftrightarrow> s AND scenario_flag b \<noteq> 0"

record attribute_requirement =
  arq_name :: string
  arq_attr_id :: u16
  arq_required_value :: "bool option"

record command_requirement =
  crq_name :: string
  crq_command_id :: u8

record feature_requirement =
  frq_feature_name :: string
  frq_feature_id :: u8
  frq_required :: bool
  frq_attributes :: "attribute_requirement list"
  frq_commands :: "command_requirement list"
  frq_subscribe_all :: bool

record scenario_def =
  sd_bit :: u8
  sd_name :: string
  sd_description :: string
  sd_requires :: "string list"
  sd_requires_any :: "string list"
  sd_endpoint_types :: "string list"
  sd_features :: "feature_requirement list"

record use_case_def =
  ucd_name :: string
  ucd_id :: u16
  ucd_full_name :: string
  ucd_description :: string
  ucd_spec_version :: string
  ucd_major :: u8
  ucd_minor :: u8
  ucd_endpoint_types :: "string list"
  ucd_scenarios :: "scenario_def list"
  ucd_commands :: "string list"

abbreviation attr_req :: "string \<Rightarrow> u16 \<Rightarrow> bool option \<Rightarrow> attribute_requirement" where
  "attr_req n i r \<equiv> \<lparr>arq_name = n, arq_attr_id = i, arq_required_value = r\<rparr>"

definition should_subscribe :: "feature_requirement \<Rightarrow> bool" where
  "should_subscribe f = frq_subscribe_all f"

text \<open>The two nested loops with the set \<open>seen\<close> of feature names.\<close>

definition union_step ::
  "string list \<times> feature_requirement list \<Rightarrow> feature_requirement \<Rightarrow>
     string list \<times> feature_requirement list" where
  "union_step = (\<lambda>(seen, result) f.
     if frq_feature_name f \<in> set seen then (seen, result)
     else (frq_feature_name f # seen, result @ [f]))"

definition all_features :: "use_case_def \<Rightarrow> feature_requirement list" where
  "all_features d =
     snd (foldl (\<lambda>acc s. foldl union_step acc (sd_features s)) ([], []) (ucd_scenarios d))"

definition scenario_features :: "use_case_def \<Rightarrow> scenario_map \<Rightarrow> feature_requirement list" where
  "scenario_features d scenarios =
     snd (foldl (\<lambda>acc s. if scenario_has scenarios (sd_bit s)
                         then foldl union_step acc (sd_features s) else acc)
        ([], []) (ucd_scenarios d))"

definition base_scenario :: "use_case_def \<Rightarrow> scenario_def option" where
  "base_scenario d = find (\<lambda>s. sd_bit s = 0) (ucd_scenarios d)"

definition defined_scenario_mask :: "use_case_def \<Rightarrow> scenario_map" where
  "defined_scenario_mask d =
     foldl (\<lambda>mask s. mask OR scenario_flag (sd_bit s)) 0 (ucd_scenarios d)"

section \<open>Profiles and results\<close>

record feature_profile =
  fp_feature_id :: u8
  fp_feature_map :: u32
  fp_attribute_ids :: "u16 list"
  fp_command_ids :: "u8 list"
  fp_attributes :: "(u16, any) gomap"

record endpoint_profile =
  epp_endpoint_id :: u8
  epp_endpoint_type :: string
  epp_features :: "(u8, feature_profile) gomap"

record device_profile =
  dp_device_id :: string
  dp_endpoints :: "(u8, endpoint_profile) gomap"

record match_result =
  mr_use_case :: string
  mr_matched :: bool
  mr_endpoint_id :: u8
  mr_scenarios :: scenario_map
  mr_missing_required :: "string list"
  mr_optional_missing :: "string list"

record device_use_cases =
  duc_device_id :: string
  duc_profile :: "device_profile option"
  duc_matches :: "match_result list"
  duc_registry :: "(string, use_case_def) gomap"

definition supported_commands :: "device_use_cases \<Rightarrow> string list" where
  "supported_commands d =
     foldl (\<lambda>cmds m.
         if mr_matched m
         then (case gm_get (duc_registry d) (mr_use_case m) of
                 None \<Rightarrow> cmds
               | Some uc \<Rightarrow> foldl (\<lambda>cs c. List.insert c cs) cmds (ucd_commands uc))
         else cmds)
       [] (duc_matches d)"

definition matches_use_case :: "string \<Rightarrow> match_result \<Rightarrow> bool" where
  "matches_use_case n m \<longleftrightarrow> mr_use_case m = n \<and> mr_matched m"

definition has_use_case :: "device_use_cases \<Rightarrow> string \<Rightarrow> bool" where
  "has_use_case d n = list_ex (matches_use_case n) (duc_matches d)"

definition endpoint_for_use_case :: "device_use_cases \<Rightarrow> string \<Rightarrow> u8 option" where
  "endpoint_for_use_case d n =
     map_option mr_endpoint_id (find (matches_use_case n) (duc_matches d))"

definition scenarios_for_use_case :: "device_use_cases \<Rightarrow> string \<Rightarrow> scenario_map option" where
  "scenarios_for_use_case d n =
     map_option mr_scenarios (find (matches_use_case n) (duc_matches d))"

definition matched_use_cases :: "device_use_cases \<Rightarrow> string list" where
  "matched_use_cases d = map mr_use_case (filter mr_matched (duc_matches d))"

section \<open>Matching\<close>

definition check_attributes :: "feature_requirement \<Rightarrow> feature_profile \<Rightarrow> bool" where
  "check_attributes freq fp =
     list_all (\<lambda>ar.
         arq_attr_id ar \<in> set (fp_attribute_ids fp) \<and>
         (case arq_required_value ar of
            None \<Rightarrow> True
          | Some b \<Rightarrow> gm_get (fp_attributes fp) (arq_attr_id ar) = Some (ABool b)))
       (frq_attributes freq)"

definition check_commands :: "feature_requirement \<Rightarrow> feature_profile \<Rightarrow> bool" where
  "check_commands freq fp =
     list_all (\<lambda>cr. crq_command_id cr \<in> set (fp_command_ids fp)) (frq_commands freq)"

definition match_scenario_features :: "feature_requirement list \<Rightarrow> endpoint_profile \<Rightarrow> bool" where
  "match_scenario_features fs ep =
     list_all (\<lambda>freq.
         case gm_get (epp_features ep) (frq_feature_id freq) of
           None \<Rightarrow> False
         | Some fp \<Rightarrow> check_attributes freq fp \<and> check_commands freq fp) fs"

definition name_to_bit :: "scenario_def list \<Rightarrow> (string, u8) gomap" where
  "name_to_bit ss = foldl (\<lambda>m s. gm_put (sd_name s) (sd_bit s) m) [] ss"

text \<open>A required name that no scenario has is skipped.\<close>

definition requires_broken :: "(string, u8) gomap \<Rightarrow> scenario_def \<Rightarrow> scenario_map \<Rightarrow> bool" where
  "requires_broken names s sm =
     list_ex (\<lambda>req. case gm_get names req of
                None \<Rightarrow> False
              | Some b \<Rightarrow> sm AND scenario_flag b = 0) (sd_requires s)"

definition any_found :: "(string, u8) gomap \<Rightarrow> scenario_def \<Rightarrow> scenario_map \<Rightarrow> bool" where
  "any_found names s sm =
     list_ex (\<lambda>req. case gm_get names req of
                None \<Rightarrow> False
              | Some b \<Rightarrow> sm AND scenario_flag b \<noteq> 0) (sd_requires_any s)"

text \<open>One turn of the inner loop: the bit of a scenario is cleared when one of its
  constraints fails.\<close>

definition enforce_step ::
  "(string, u8) gomap \<Rightarrow> scenario_map \<times> bool \<Rightarrow> scenario_def \<Rightarrow> scenario_map \<times> bool" where
  "enforce_step names = (\<lambda>(sm, changed) s.
     let f = scenario_flag (sd_bit s) in
     if sm AND f = 0 then (sm, changed)
     else
       let (sm1, changed1) =
         (if requires_broken names s sm then (sm AND NOT f, True) else (sm, changed))
       in if sm1 AND f = 0 then (sm1, changed1)
          else if sd_requires_any s \<noteq> [] \<and> \<not> any_found names s sm1
          then (sm1 AND NOT f, True)
          else (sm1, changed1))"

definition enforce_pass ::
  "(string, u8) gomap \<Rightarrow> scenario_def list \<Rightarrow> scenario_map \<Rightarrow> scenario_map \<times> bool" where
  "enforce_pass names ss sm = foldl (enforce_step names) (sm, False) ss"

lemma flag_bit: "bit (scenario_flag b) n \<longleftrightarrow> n = unat b \<and> n < 32"
  unfolding scenario_flag_def bit_push_bit_iff by (auto simp: bit_1_iff)

lemma has_bit: "sm AND scenario_flag b \<noteq> 0 \<longleftrightarrow> bit sm (unat b)"
  by (simp add: scenario_flag_def bit_iff_and_push_bit_not_eq_0)

lemma lacks_bit: "sm AND scenario_flag b = 0 \<longleftrightarrow> \<not> bit sm (unat b)"
  using has_bit by blast

lemma clear_flag: "sm AND NOT (scenario_flag b) = unset_bit (unat b) sm"
  by (simp add: scenario_flag_def unset_bit_eq_and_not)

lemma unset_less:
  assumes "bit (sm :: u32) n"
  shows "unat (unset_bit n sm) < unat sm"
proof -
  have "unset_bit n sm \<le> sm" unfolding unset_bit_eq_and_not by (rule word_and_le2)
  moreover have "unset_bit n sm \<noteq> sm" using assms bit_unset_bit_iff by metis
  ultimately show ?thesis 
    by (metis order.not_eq_order_implies_strict word_less_nat_alt)
qed

lemma enforce_step_eq:
  "enforce_step names (sm, changed) s =
     (if bit sm (unat (sd_bit s)) \<and>
         (requires_broken names s sm \<or> sd_requires_any s \<noteq> [] \<and> \<not> any_found names s sm)
      then (unset_bit (unat (sd_bit s)) sm, True) else (sm, changed))"
  by (auto simp: enforce_step_def Let_def lacks_bit clear_flag bit_unset_bit_iff)

text \<open>The loop: every turn that changes the bitmap clears a bit, so it ends.\<close>

lemma enforce_step_mono:
  assumes "enforce_step names (sm, c) s = (sm', c')"
  shows "sm' = sm \<and> c' = c \<or> unat sm' < unat sm \<and> c'"
  using assms by (auto simp: enforce_step_eq unset_less split: if_splits)

lemma enforce_fold_mono:
  "foldl (enforce_step names) (sm, c) ss = (sm', c') \<Longrightarrow>
     sm' = sm \<and> c' = c \<or> unat sm' < unat sm \<and> c'"
proof (induction ss arbitrary: sm c)
  case Nil
  then show ?case by simp
next
  case (Cons s ss)
  obtain sm1 c1 where one: "enforce_step names (sm, c) s = (sm1, c1)" by fastforce
  with Cons.prems have rest: "foldl (enforce_step names) (sm1, c1) ss = (sm', c')" by simp
  from Cons.IH [OF rest] enforce_step_mono [OF one] show ?case by auto
qed

function enforce_loop :: "(string, u8) gomap \<Rightarrow> scenario_def list \<Rightarrow> scenario_map \<Rightarrow> scenario_map" where
  "enforce_loop names ss sm =
     (let r = enforce_pass names ss sm in
      if snd r then enforce_loop names ss (fst r) else fst r)"
  by pat_completeness auto

termination enforce_loop
proof (relation "measure (\<lambda>(names, ss, sm). unat sm)")
  fix names ss sm and r :: "u32 \<times> bool"
  assume r: "r = enforce_pass names ss sm" "snd r"
  then have "foldl (enforce_step names) (sm, False) ss = (fst r, True)"
    by (simp add: enforce_pass_def prod_eq_iff)
  from enforce_fold_mono [OF this]
  show "((names, ss, fst r), names, ss, sm) \<in> measure (\<lambda>(names, ss, sm). unat sm)"
    by simp
qed simp

declare enforce_loop.simps [simp del]

definition enforce_scenario_constraints :: "use_case_def \<Rightarrow> scenario_map \<Rightarrow> scenario_map" where
  "enforce_scenario_constraints d sm =
     enforce_loop (name_to_bit (ucd_scenarios d)) (ucd_scenarios d) sm"

text \<open>The specification: a set of scenarios that satisfies the constraints of its
  members, and the largest such subset.\<close>

definition sub_scenarios :: "scenario_map \<Rightarrow> scenario_map \<Rightarrow> bool" where
  "sub_scenarios a b \<longleftrightarrow> a AND b = a"

definition scenarios_consistent :: "use_case_def \<Rightarrow> scenario_map \<Rightarrow> bool" where
  "scenarios_consistent d sm =
     list_all (\<lambda>s. scenario_has sm (sd_bit s) \<longrightarrow>
         \<not> requires_broken (name_to_bit (ucd_scenarios d)) s sm \<and>
         (sd_requires_any s \<noteq> [] \<longrightarrow> any_found (name_to_bit (ucd_scenarios d)) s sm))
       (ucd_scenarios d)"

lemma sub_scenarios_bits: "sub_scenarios a b \<longleftrightarrow> (\<forall>n. bit a n \<longrightarrow> bit b n)"
proof
  assume "sub_scenarios a b"
  then show "\<forall>n. bit a n \<longrightarrow> bit b n" unfolding sub_scenarios_def by (metis bit_and_iff)
qed (auto simp: sub_scenarios_def bit_and_iff intro!: bit_word_eqI)

lemma sub_scenarios_refl [simp]: "sub_scenarios a a"
  by (simp add: sub_scenarios_bits)

lemma requires_broken_mono:
  "sub_scenarios t sm \<Longrightarrow> requires_broken names s sm \<Longrightarrow> requires_broken names s t"
  by (auto simp: requires_broken_def list_ex_iff sub_scenarios_bits lacks_bit
      split: option.splits)

lemma any_found_mono:
  "sub_scenarios t sm \<Longrightarrow> any_found names s t \<Longrightarrow> any_found names s sm"
  by (fastforce simp: any_found_def list_ex_iff sub_scenarios_bits has_bit split: option.splits)

lemma enforce_fold_keeps:
  assumes "\<And>s. s \<in> set ss \<Longrightarrow> bit t (unat (sd_bit s)) \<Longrightarrow>
      \<not> requires_broken names s t \<and> (sd_requires_any s \<noteq> [] \<longrightarrow> any_found names s t)"
    and "sub_scenarios t sm"
  shows "sub_scenarios t (fst (foldl (enforce_step names) (sm, c) ss))"
  using assms
proof (induction ss arbitrary: sm c)
  case Nil
  then show ?case by simp
next
  case (Cons s ss)
  have "sub_scenarios t (fst (enforce_step names (sm, c) s))"
    using Cons.prems(1) [of s] requires_broken_mono [OF Cons.prems(2), of names s]
      any_found_mono [OF Cons.prems(2), of names s] Cons.prems(2)
    by (auto simp: enforce_step_eq sub_scenarios_bits bit_unset_bit_iff)
  with Cons.IH Cons.prems(1) show ?case
    by (metis foldl_Cons list.set_intros(2) prod.collapse)
qed

lemma enforce_fold_shrinks: "sub_scenarios (fst (foldl (enforce_step names) (sm, c) ss)) sm"
proof (induction ss arbitrary: sm c)
  case Nil
  then show ?case by simp
next
  case (Cons s ss)
  have "sub_scenarios (fst (enforce_step names (sm, c) s)) sm"
    by (auto simp: enforce_step_eq sub_scenarios_bits bit_unset_bit_iff)
  with Cons [of "fst (enforce_step names (sm, c) s)" "snd (enforce_step names (sm, c) s)"]
  show ?case by (simp add: sub_scenarios_bits)
qed

lemma enforce_fold_stable:
  "\<not> snd (foldl (enforce_step names) (sm, c) ss) \<Longrightarrow> s \<in> set ss \<Longrightarrow> bit sm (unat (sd_bit s)) \<Longrightarrow>
     \<not> requires_broken names s sm \<and> (sd_requires_any s \<noteq> [] \<longrightarrow> any_found names s sm)"
proof (induction ss arbitrary: c)
  case Nil
  then show ?case by simp
next
  case (Cons s' ss)
  obtain sm1 c1 where one: "enforce_step names (sm, c) s' = (sm1, c1)" by fastforce
  have "\<not> snd (foldl (enforce_step names) (sm1, c1) ss)" using Cons.prems(1) one by simp
  then have same: "sm1 = sm" "\<not> c1"
    using enforce_fold_mono [of names sm1 c1 ss] enforce_step_mono [OF one]
    by (metis prod.collapse)+
  show ?case
  proof (cases "s = s'")
    case True
    with one same Cons.prems(3) show ?thesis by (auto simp: enforce_step_eq split: if_splits)
  next
    case False
    with Cons.prems one same show ?thesis
      by (intro Cons.IH [of c1]) auto
  qed
qed

lemma enforce_loop_greatest:
  assumes "\<And>s. s \<in> set ss \<Longrightarrow> bit t (unat (sd_bit s)) \<Longrightarrow>
      \<not> requires_broken names s t \<and> (sd_requires_any s \<noteq> [] \<longrightarrow> any_found names s t)"
  shows "sub_scenarios t sm \<Longrightarrow> sub_scenarios t (enforce_loop names ss sm)"
proof (induction "unat sm" arbitrary: sm rule: less_induct)
  case less
  let ?r = "enforce_pass names ss sm"
  have sub: "sub_scenarios t (fst ?r)"
    unfolding enforce_pass_def by (rule enforce_fold_keeps [OF assms less.prems])
  show ?case
  proof (cases "snd ?r")
    case True
    then have "unat (fst ?r) < unat sm"
      using enforce_fold_mono [of names sm False ss] by (metis enforce_pass_def prod.collapse)
    from less.hyps [OF this sub] True show ?thesis
      by (simp add: enforce_loop.simps [of names ss sm] Let_def)
  next
    case False
    with sub show ?thesis by (simp add: enforce_loop.simps [of names ss sm] Let_def)
  qed
qed

lemma enforce_loop_result:
  "sub_scenarios (enforce_loop names ss sm) sm \<and>
   (\<forall>s\<in>set ss. bit (enforce_loop names ss sm) (unat (sd_bit s)) \<longrightarrow>
      \<not> requires_broken names s (enforce_loop names ss sm) \<and>
      (sd_requires_any s \<noteq> [] \<longrightarrow> any_found names s (enforce_loop names ss sm)))"
proof (induction "unat sm" arbitrary: sm rule: less_induct)
  case less
  let ?r = "enforce_pass names ss sm"
  have sub: "sub_scenarios (fst ?r) sm"
    unfolding enforce_pass_def by (rule enforce_fold_shrinks)
  show ?case
  proof (cases "snd ?r")
    case True
    then have "unat (fst ?r) < unat sm"
      using enforce_fold_mono [of names sm False ss] by (metis enforce_pass_def prod.collapse)
    from less.hyps [OF this] True sub show ?thesis
      by (simp add: enforce_loop.simps [of names ss sm] Let_def sub_scenarios_bits)
  next
    case False
    then have "fst ?r = sm"
      using enforce_fold_mono [of names sm False ss] by (metis enforce_pass_def prod.collapse)
    moreover from False have "enforce_loop names ss sm = fst ?r"
      by (simp add: enforce_loop.simps [of names ss sm] Let_def)
    ultimately show ?thesis
      using enforce_fold_stable [of names sm False ss] False by (simp add: enforce_pass_def)
  qed
qed

lemma consistent_bits:
  "scenarios_consistent d t \<longleftrightarrow>
     (\<forall>s\<in>set (ucd_scenarios d). bit t (unat (sd_bit s)) \<longrightarrow>
        \<not> requires_broken (name_to_bit (ucd_scenarios d)) s t \<and>
        (sd_requires_any s \<noteq> [] \<longrightarrow> any_found (name_to_bit (ucd_scenarios d)) s t))"
  by (simp add: scenarios_consistent_def list_all_iff scenario_has_def has_bit)

lemma enforced_is_greatest:
  "scenarios_consistent d (enforce_scenario_constraints d sm)"
  "sub_scenarios (enforce_scenario_constraints d sm) sm"
  "scenarios_consistent d t \<Longrightarrow> sub_scenarios t sm \<Longrightarrow>
     sub_scenarios t (enforce_scenario_constraints d sm)"
proof -
  show "scenarios_consistent d (enforce_scenario_constraints d sm)"
    using enforce_loop_result [of "name_to_bit (ucd_scenarios d)" "ucd_scenarios d" sm]
    by (simp add: consistent_bits enforce_scenario_constraints_def)
  show "sub_scenarios (enforce_scenario_constraints d sm) sm"
    using enforce_loop_result [of "name_to_bit (ucd_scenarios d)" "ucd_scenarios d" sm]
    by (simp add: enforce_scenario_constraints_def)
  show "scenarios_consistent d t \<Longrightarrow> sub_scenarios t sm \<Longrightarrow>
      sub_scenarios t (enforce_scenario_constraints d sm)"
    unfolding consistent_bits enforce_scenario_constraints_def
    by (rule enforce_loop_greatest) blast+
qed

section \<open>Matching a device\<close>

definition missing_required :: "use_case_def \<Rightarrow> endpoint_profile \<Rightarrow> string list" where
  "missing_required d ep =
     (case base_scenario d of
        None \<Rightarrow> []
      | Some base \<Rightarrow>
          concat (map (\<lambda>freq.
             if \<not> frq_required freq then []
             else case gm_get (epp_features ep) (frq_feature_id freq) of
                    None \<Rightarrow> [frq_feature_name freq]
                  | Some fp \<Rightarrow>
                      if \<not> check_attributes freq fp then [frq_feature_name freq @ '' (attributes)'']
                      else if \<not> check_commands freq fp then [frq_feature_name freq @ '' (commands)'']
                      else [])
            (sd_features base)))"

text \<open>The scenarios whose features an endpoint has, before the constraints.\<close>

definition matching_scenarios :: "use_case_def \<Rightarrow> endpoint_profile \<Rightarrow> scenario_map" where
  "matching_scenarios d ep =
     foldl (\<lambda>sm s.
         if sd_endpoint_types s \<noteq> [] \<and> epp_endpoint_type ep \<notin> set (sd_endpoint_types s) then sm
         else if match_scenario_features (sd_features s) ep
         then sm OR scenario_flag (sd_bit s) else sm)
       0 (ucd_scenarios d)"

definition match_endpoint :: "use_case_def \<Rightarrow> endpoint_profile \<Rightarrow> match_result" where
  "match_endpoint d ep =
     (let r = \<lparr>mr_use_case = ucd_name d, mr_matched = False, mr_endpoint_id = epp_endpoint_id ep,
               mr_scenarios = 0, mr_missing_required = [], mr_optional_missing = []\<rparr>
      in if ucd_endpoint_types d \<noteq> [] \<and> epp_endpoint_type ep \<notin> set (ucd_endpoint_types d)
         then r\<lparr>mr_missing_required :=
                  [''endpoint type '' @ epp_endpoint_type ep @ '' not in '' @ ucd_name d @
                   '' supported types'']\<rparr>
         else
           let sm = enforce_scenario_constraints d (matching_scenarios d ep);
               matched = (sm AND ScenarioBASE \<noteq> 0)
           in r\<lparr>mr_scenarios := sm, mr_matched := matched,
                mr_missing_required := (if matched then [] else missing_required d ep)\<rparr>)"

definition better_match :: "match_result \<Rightarrow> match_result \<Rightarrow> match_result" where
  "better_match best r =
     (if mr_matched r \<and> \<not> mr_matched best then r
      else if mr_matched r \<and> mr_scenarios r > mr_scenarios best then r
      else best)"

definition match_use_case :: "string \<Rightarrow> use_case_def \<Rightarrow> device_profile \<Rightarrow> match_result" where
  "match_use_case name d profile =
     (let results = map (\<lambda>(i, ep). match_endpoint d ep) (dp_endpoints profile);
          best = foldl better_match
            \<lparr>mr_use_case = name, mr_matched = False, mr_endpoint_id = 0, mr_scenarios = 0,
             mr_missing_required = [], mr_optional_missing = []\<rparr> results
      in if mr_matched best then best
         else case find (\<lambda>r. mr_missing_required r \<noteq> [] \<or> mr_use_case r = name) results of
                None \<Rightarrow> best
              | Some r \<Rightarrow> r)"

definition match_all :: "device_profile \<Rightarrow> (string, use_case_def) gomap \<Rightarrow> device_use_cases" where
  "match_all profile defs =
     \<lparr>duc_device_id = dp_device_id profile, duc_profile = Some profile,
      duc_matches = map (\<lambda>(name, d). match_use_case name d profile) defs,
      duc_registry = defs\<rparr>"

lemma better_match_step:
  assumes "\<not> mr_matched b \<longrightarrow> mr_scenarios b = 0"
  shows "better_match b x = b \<or> better_match b x = x \<and> mr_matched x"
    and "mr_matched (better_match b x) \<longleftrightarrow> mr_matched b \<or> mr_matched x"
    and "mr_matched b \<Longrightarrow> mr_scenarios b \<le> mr_scenarios (better_match b x)"
    and "mr_matched x \<Longrightarrow> mr_scenarios x \<le> mr_scenarios (better_match b x)"
    and "\<not> mr_matched (better_match b x) \<longrightarrow> mr_scenarios (better_match b x) = 0"
  using assms by (auto simp: better_match_def not_less)

definition best_match :: "match_result \<Rightarrow> match_result set \<Rightarrow> match_result \<Rightarrow> bool" where
  "best_match b0 rs r \<longleftrightarrow>
     (r = b0 \<or> r \<in> rs \<and> mr_matched r) \<and>
     (mr_matched r \<longleftrightarrow> mr_matched b0 \<or> (\<exists>x\<in>rs. mr_matched x)) \<and>
     (\<forall>x\<in>insert b0 rs. mr_matched x \<longrightarrow> mr_scenarios x \<le> mr_scenarios r)"

lemma better_match_fold:
  "\<not> mr_matched b0 \<longrightarrow> mr_scenarios b0 = 0 \<Longrightarrow> best_match b0 (set rs) (foldl better_match b0 rs)"
proof (induction rs arbitrary: b0)
  case Nil
  then show ?case by (simp add: best_match_def)
next
  case (Cons x rs)
  note one = better_match_step [OF Cons.prems, of x]
  define r where "r = foldl better_match (better_match b0 x) rs"
  have r: "best_match (better_match b0 x) (set rs) r"
    unfolding r_def by (rule Cons.IH [OF one(5)])
  have "mr_matched b0 \<Longrightarrow> mr_scenarios b0 \<le> mr_scenarios r"
    and "mr_matched x \<Longrightarrow> mr_scenarios x \<le> mr_scenarios r"
    using r one(2-4) unfolding best_match_def by (meson insertI1 order.trans)+
  with r one(1,2) have "best_match b0 (set (x # rs)) r"
    unfolding best_match_def by auto
  then show ?case by (simp add: r_def)
qed

lemma match_endpoint_simps [simp]:
  "mr_use_case (match_endpoint d ep) = ucd_name d"
  "mr_endpoint_id (match_endpoint d ep) = epp_endpoint_id ep"
  by (simp_all add: match_endpoint_def Let_def)

text \<open>What an endpoint matches: its scenarios are the largest consistent set of scenarios
  whose features and endpoint type it has, and BASE must be among them.\<close>

definition scenario_available :: "endpoint_profile \<Rightarrow> scenario_def \<Rightarrow> bool" where
  "scenario_available ep s \<longleftrightarrow>
     (sd_endpoint_types s = [] \<or> epp_endpoint_type ep \<in> set (sd_endpoint_types s)) \<and>
     match_scenario_features (sd_features s) ep"

lemma matching_scenarios_fold:
  "bit (foldl (\<lambda>sm s.
         if sd_endpoint_types s \<noteq> [] \<and> epp_endpoint_type ep \<notin> set (sd_endpoint_types s) then sm
         else if match_scenario_features (sd_features s) ep
         then sm OR scenario_flag (sd_bit s) else sm) sm ss) n \<longleftrightarrow>
     bit sm n \<or> n < 32 \<and> (\<exists>s\<in>set ss. scenario_available ep s \<and> unat (sd_bit s) = n)"
  by (induction ss arbitrary: sm)
    (auto simp: scenario_available_def bit_or_iff flag_bit)

lemma matching_scenarios_bit:
  "bit (matching_scenarios d ep) n \<longleftrightarrow>
     n < 32 \<and> (\<exists>s\<in>set (ucd_scenarios d). scenario_available ep s \<and> unat (sd_bit s) = n)"
  by (simp add: matching_scenarios_def matching_scenarios_fold)

definition type_allowed :: "use_case_def \<Rightarrow> endpoint_profile \<Rightarrow> bool" where
  "type_allowed d ep \<longleftrightarrow>
     ucd_endpoint_types d = [] \<or> epp_endpoint_type ep \<in> set (ucd_endpoint_types d)"

lemma match_endpoint_matched:
  "mr_matched (match_endpoint d ep) \<longleftrightarrow>
     type_allowed d ep \<and> bit (mr_scenarios (match_endpoint d ep)) 0"
  by (auto simp: match_endpoint_def Let_def type_allowed_def ScenarioBASE_def and_one_eq
      odd_iff_mod_2_eq_one bit_0)

lemma match_endpoint_scenarios:
  "mr_scenarios (match_endpoint d ep) =
     (if type_allowed d ep then enforce_scenario_constraints d (matching_scenarios d ep) else 0)"
  by (auto simp: match_endpoint_def Let_def type_allowed_def)

lemma match_use_case_best:
  assumes "m = match_use_case name d profile"
  shows "mr_matched m \<longleftrightarrow> (\<exists>(i, ep)\<in>set (dp_endpoints profile). mr_matched (match_endpoint d ep))"
    and "mr_matched m \<Longrightarrow> \<exists>(i, ep)\<in>set (dp_endpoints profile). m = match_endpoint d ep"
    and "mr_matched m \<Longrightarrow> (i, ep) \<in> set (dp_endpoints profile) \<Longrightarrow>
           mr_matched (match_endpoint d ep) \<Longrightarrow>
           mr_scenarios (match_endpoint d ep) \<le> mr_scenarios m"
proof -
  let ?results = "map (\<lambda>(i, ep). match_endpoint d ep) (dp_endpoints profile)"
  let ?b0 = "\<lparr>mr_use_case = name, mr_matched = False, mr_endpoint_id = 0, mr_scenarios = 0,
              mr_missing_required = [], mr_optional_missing = []\<rparr>"
  define best where "best = foldl better_match ?b0 ?results"
  have best: "best_match ?b0 (set ?results) best"
    unfolding best_def by (rule better_match_fold) simp
  have m: "m = (if mr_matched best then best
      else case find (\<lambda>r. mr_missing_required r \<noteq> [] \<or> mr_use_case r = name) ?results of
             None \<Rightarrow> best | Some r \<Rightarrow> r)"
    unfolding assms match_use_case_def best_def by (simp add: Let_def)
  have unmatched: "\<not> mr_matched m" if "\<not> mr_matched best"
  proof (cases "find (\<lambda>r. mr_missing_required r \<noteq> [] \<or> mr_use_case r = name) ?results")
    case None
    with m that show ?thesis by simp
  next
    case (Some r)
    then have "r \<in> set ?results" by (auto simp: find_Some_iff)
    with best that have "\<not> mr_matched r" by (auto simp: best_match_def)
    with m that Some show ?thesis by simp
  qed
  then have eq: "mr_matched m \<longleftrightarrow> mr_matched best" using m by auto
  with best show "mr_matched m \<longleftrightarrow>
      (\<exists>(i, ep)\<in>set (dp_endpoints profile). mr_matched (match_endpoint d ep))"
    by (simp add: best_match_def split_beta)
  show "mr_matched m \<Longrightarrow> \<exists>(i, ep)\<in>set (dp_endpoints profile). m = match_endpoint d ep"
    using best m eq by (auto simp: best_match_def split_beta)
  show "mr_matched m \<Longrightarrow> (i, ep) \<in> set (dp_endpoints profile) \<Longrightarrow>
      mr_matched (match_endpoint d ep) \<Longrightarrow> mr_scenarios (match_endpoint d ep) \<le> mr_scenarios m"
    using best m eq by (fastforce simp: best_match_def split_beta)
qed

section \<open>Declarations\<close>

record use_case_decl =
  ucl_endpoint_id :: u8
  ucl_id :: u16
  ucl_major :: u8
  ucl_minor :: u8
  ucl_scenarios :: u32

text \<open>\<open>EndpointType.String\<close> of \<open>pkg/model\<close>.\<close>

definition endpoint_type_string :: "u8 \<Rightarrow> string" where
  "endpoint_type_string t =
     (if t = 0 then ''DEVICE_ROOT'' else if t = 1 then ''GRID_CONNECTION''
      else if t = 2 then ''INVERTER'' else if t = 3 then ''PV_STRING''
      else if t = 4 then ''BATTERY'' else if t = 5 then ''EV_CHARGER''
      else if t = 6 then ''HEAT_PUMP'' else if t = 7 then ''WATER_HEATER''
      else if t = 8 then ''HVAC'' else if t = 9 then ''APPLIANCE''
      else if t = 10 then ''SUB_METER'' else ''UNKNOWN'')"

definition local_feature_profile :: "feature \<Rightarrow> feature_profile" where
  "local_feature_profile f =
     \<lparr>fp_feature_id = ft_type f, fp_feature_map = ft_feature_map f,
      fp_attribute_ids = attribute_list f, fp_command_ids = command_list f,
      fp_attributes = foldl (\<lambda>m i. case read_attribute i f of
                                Inr (ABool b) \<Rightarrow> gm_put i (ABool b) m
                              | _ \<Rightarrow> m) [] (attribute_list f)\<rparr>"

definition local_endpoint_profile :: "endpoint \<Rightarrow> endpoint_profile" where
  "local_endpoint_profile e =
     \<lparr>epp_endpoint_id = ep_id e, epp_endpoint_type = endpoint_type_string (ep_type e),
      epp_features =
        foldl (\<lambda>m f. gm_put (ft_type f) (local_feature_profile f) m) [] (endpoint_features e)\<rparr>"

definition build_local_profile :: "device \<Rightarrow> device_profile" where
  "build_local_profile d =
     \<lparr>dp_device_id = dv_device_id d,
      dp_endpoints =
        foldl (\<lambda>m (i, e). if ep_id e = 0 then m
                           else gm_put (ep_id e) (local_endpoint_profile e) m)
          [] (dv_endpoints d)\<rparr>"

definition decl_of_match :: "(string, use_case_def) gomap \<Rightarrow> match_result \<Rightarrow> use_case_decl option" where
  "decl_of_match registry m =
     (if \<not> mr_matched m then None
      else map_option (\<lambda>d. \<lparr>ucl_endpoint_id = mr_endpoint_id m, ucl_id = ucd_id d,
                            ucl_major = ucd_major d, ucl_minor = ucd_minor d,
                            ucl_scenarios = mr_scenarios m\<rparr>)
             (gm_get registry (mr_use_case m)))"

definition evaluate_device :: "device \<Rightarrow> (string, use_case_def) gomap \<Rightarrow> use_case_decl list" where
  "evaluate_device d registry =
     List.map_filter (decl_of_match registry)
       (duc_matches (match_all (build_local_profile d) registry))"

text \<open>\<open>sort.Slice\<close> is not stable: with two equal ids the result would depend on the run.\<close>

definition evaluate_controller :: "(string, use_case_def) gomap \<Rightarrow> use_case_decl list" where
  "evaluate_controller registry =
     sort_key ucl_id (map (\<lambda>(n, d). \<lparr>ucl_endpoint_id = 0, ucl_id = ucd_id d,
       ucl_major = ucd_major d, ucl_minor = ucd_minor d,
       ucl_scenarios = defined_scenario_mask d\<rparr>) registry)"

lemma endpoint_match:
  assumes "type_allowed d ep"
  shows "scenarios_consistent d (mr_scenarios (match_endpoint d ep))"
    and "sub_scenarios (mr_scenarios (match_endpoint d ep)) (matching_scenarios d ep)"
    and "scenarios_consistent d t \<Longrightarrow> sub_scenarios t (matching_scenarios d ep) \<Longrightarrow>
           sub_scenarios t (mr_scenarios (match_endpoint d ep))"
  using assms by (simp_all add: match_endpoint_scenarios enforced_is_greatest)

text \<open>C8. The scenarios an endpoint matches are the largest set of scenarios it has
  the features and the endpoint type for in which every scenario has what it requires; the
  loop that clears scenarios until nothing changes computes it whatever the order of the
  scenarios. The use case matches the endpoint exactly when BASE is in the set. An endpoint of
  a type the use case does not list matches nothing.\<close>

theorem endpoint_matches_greatest_set:
  "let m = match_endpoint d ep in
     (type_allowed d ep \<longrightarrow>
        scenarios_consistent d (mr_scenarios m) \<and>
        (\<forall>n. bit (mr_scenarios m) n \<longrightarrow>
           (\<exists>s\<in>set (ucd_scenarios d). scenario_available ep s \<and> unat (sd_bit s) = n)) \<and>
        (\<forall>t. scenarios_consistent d t \<and>
              (\<forall>n. bit t n \<longrightarrow>
                (\<exists>s\<in>set (ucd_scenarios d). scenario_available ep s \<and> unat (sd_bit s) = n)) \<longrightarrow>
              sub_scenarios t (mr_scenarios m)) \<and>
        (mr_matched m \<longleftrightarrow> bit (mr_scenarios m) 0)) \<and>
     (\<not> type_allowed d ep \<longrightarrow> \<not> mr_matched m \<and> mr_scenarios m = 0)"
proof -
  let ?m = "match_endpoint d ep"
  have available: "bit (matching_scenarios d ep) n \<longleftrightarrow> n < 32 \<and>
      (\<exists>s\<in>set (ucd_scenarios d). scenario_available ep s \<and> unat (sd_bit s) = n)" for n
    by (rule matching_scenarios_bit)
  have word: "bit t n \<Longrightarrow> n < 32" for t :: scenario_map and n
    using bit_imp_le_length [of t n] by simp
  show ?thesis
  proof (cases "type_allowed d ep")
    case True
    note outcome = endpoint_match [OF True]
    have "bit (mr_scenarios ?m) n \<Longrightarrow>
        \<exists>s\<in>set (ucd_scenarios d). scenario_available ep s \<and> unat (sd_bit s) = n" for n
      using outcome(2) available by (simp add: sub_scenarios_bits)
    moreover have "sub_scenarios t (mr_scenarios ?m)"
      if "scenarios_consistent d t" and "\<And>n. bit t n \<Longrightarrow>
        \<exists>s\<in>set (ucd_scenarios d). scenario_available ep s \<and> unat (sd_bit s) = n" for t
      using outcome(3) [OF that(1)] that(2) available word by (simp add: sub_scenarios_bits)
    ultimately show ?thesis
      using True outcome(1) match_endpoint_matched [of d ep] by (simp add: Let_def)
  next
    case False
    then show ?thesis
      by (simp add: Let_def match_endpoint_matched match_endpoint_scenarios)
  qed
qed

definition example_use_case :: use_case_def where
  "example_use_case =
     \<lparr>ucd_name = ''X'', ucd_id = 1, ucd_full_name = '''', ucd_description = '''',
      ucd_spec_version = ''1.0'', ucd_major = 1, ucd_minor = 0, ucd_endpoint_types = [],
      ucd_scenarios =
       [\<lparr>sd_bit = 0, sd_name = ''BASE'', sd_description = '''', sd_requires = [],
         sd_requires_any = [''A'', ''B''], sd_endpoint_types = [], sd_features = []\<rparr>,
        \<lparr>sd_bit = 1, sd_name = ''A'', sd_description = '''', sd_requires = [''BASE''],
         sd_requires_any = [], sd_endpoint_types = [''INVERTER''], sd_features = []\<rparr>,
        \<lparr>sd_bit = 2, sd_name = ''C'', sd_description = '''', sd_requires = [],
         sd_requires_any = [], sd_endpoint_types = [], sd_features = []\<rparr>],
      ucd_commands = []\<rparr>"

lemma example_cleared:
  "enforce_scenario_constraints example_use_case 5 = 4"
  "enforce_scenario_constraints example_use_case 7 = 7"
  by code_simp+

theorem endpoint_matches_greatest_set_witness:
  "mr_scenarios (match_endpoint example_use_case
     \<lparr>epp_endpoint_id = 1, epp_endpoint_type = ''INVERTER'', epp_features = []\<rparr>) = 7 \<and>
   bit (mr_scenarios (match_endpoint example_use_case
     \<lparr>epp_endpoint_id = 1, epp_endpoint_type = ''INVERTER'', epp_features = []\<rparr>)) 0"
proof -
  let ?ep = "\<lparr>epp_endpoint_id = 1, epp_endpoint_type = ''INVERTER'', epp_features = []\<rparr>"
  have "mr_scenarios (match_endpoint example_use_case ?ep) = 7" by code_simp
  moreover have "mr_matched (match_endpoint example_use_case ?ep)" by code_simp
  moreover have "type_allowed example_use_case ?ep" by code_simp
  ultimately show ?thesis
    using endpoint_matches_greatest_set [of example_use_case ?ep] by (simp add: Let_def)
qed

text \<open>For each use case the device is represented by one endpoint: the use case matches
  when some endpoint matches, and the endpoint that is reported matches with a bitmap that no
  other matching endpoint exceeds.\<close>

theorem use_case_best_endpoint:
  assumes "gm_get defs name = Some d"
  shows "\<exists>m\<in>set (duc_matches (match_all profile defs)).
      (mr_matched m \<longleftrightarrow> (\<exists>(i, ep)\<in>set (dp_endpoints profile). mr_matched (match_endpoint d ep))) \<and>
      (mr_matched m \<longrightarrow>
         (\<exists>(i, ep)\<in>set (dp_endpoints profile). m = match_endpoint d ep) \<and>
         (\<forall>(i, ep)\<in>set (dp_endpoints profile). mr_matched (match_endpoint d ep) \<longrightarrow>
            mr_scenarios (match_endpoint d ep) \<le> mr_scenarios m))"
proof -
  define m where "m = match_use_case name d profile"
  have "m \<in> set (duc_matches (match_all profile defs))"
    using map_of_SomeD [OF assms] by (force simp: match_all_def m_def)
  with match_use_case_best [OF m_def] show ?thesis by blast
qed

theorem use_case_best_endpoint_witness:
  "\<exists>m\<in>set (duc_matches (match_all
      \<lparr>dp_device_id = ''d'', dp_endpoints =
         [(1, \<lparr>epp_endpoint_id = 1, epp_endpoint_type = ''INVERTER'', epp_features = []\<rparr>)]\<rparr>
      [(''X'', example_use_case)])). mr_matched m \<and> mr_endpoint_id m = 1"
proof -
  let ?ep = "\<lparr>epp_endpoint_id = 1, epp_endpoint_type = ''INVERTER'', epp_features = []\<rparr>"
  have "mr_matched (match_endpoint example_use_case ?ep)" by code_simp
  then show ?thesis
    using use_case_best_endpoint [of "[(''X'', example_use_case)]" "''X''" example_use_case
      "\<lparr>dp_device_id = ''d'', dp_endpoints = [(1, ?ep)]\<rparr>"]
    by auto
qed

end
