(* ===== verification/UseCaseRegistry.thy ===== *)
theory UseCaseRegistry
  imports UseCase "HOL-Library.Multiset"
begin

text \<open>
  The table of the use cases of protocol version 1.0 (\<open>pkg/usecase/definitions_gen.go\<close>), entry by
  entry as the file has it, its two maps between names and ids, and what every entry satisfies.
\<close>

section \<open>The table\<close>

definition def_GPL :: use_case_def where
  "def_GPL =
   \<lparr>ucd_name = ''GPL'', ucd_id = 1, ucd_full_name = ''Grid Power Limitation'',
    ucd_description = (''Controller limits active power consumption and/or production of a device. Replaces EEBUS LPC and LPP use cases. Supersedes LPC (0x01) and LPP (0x02).'' @ [CHR 0x0A]),
    ucd_spec_version = ''1.0'', ucd_major = 1, ucd_minor = 0,
    ucd_endpoint_types = [''INVERTER'', ''EV_CHARGER'', ''BATTERY'', ''HEAT_PUMP'', ''WATER_HEATER'', ''HVAC'', ''APPLIANCE'', ''GRID_CONNECTION''],
    ucd_scenarios = [
      \<lparr>sd_bit = 0, sd_name = ''BASE'',
       sd_description = (''Shared control infrastructure: EnergyControl subscription with failsafe duration and limit commands. Must be combined with at least one of CONSUMPTION or PRODUCTION.'' @ [CHR 0x0A]),
       sd_requires = [], sd_requires_any = [''CONSUMPTION'', ''PRODUCTION''],
       sd_endpoint_types = [],
       sd_features = [
         \<lparr>frq_feature_name = ''EnergyControl'', frq_feature_id = 5, frq_required = True,
          frq_attributes = [attr_req ''acceptsLimits'' 10 (Some True),
            attr_req ''failsafeDuration'' 72 None],
          frq_commands = [\<lparr>crq_name = ''setLimit'', crq_command_id = 1\<rparr>,
            \<lparr>crq_name = ''clearLimit'', crq_command_id = 2\<rparr>],
          frq_subscribe_all = True\<rparr>]\<rparr>,
      \<lparr>sd_bit = 1, sd_name = ''CONSUMPTION'',
       sd_description = (''Power consumption limiting. Controller reads nominal hardware maximum and contractual grid maximum, and configures the failsafe consumption limit.'' @ [CHR 0x0A]),
       sd_requires = [''BASE''], sd_requires_any = [],
       sd_endpoint_types = [],
       sd_features = [
         \<lparr>frq_feature_name = ''Electrical'', frq_feature_id = 3, frq_required = True,
          frq_attributes = [attr_req ''nominalMaxConsumption'' 10 None],
          frq_commands = [],
          frq_subscribe_all = False\<rparr>,
         \<lparr>frq_feature_name = ''EnergyControl'', frq_feature_id = 5, frq_required = False,
          frq_attributes = [attr_req ''failsafeConsumptionLimit'' 70 None,
            attr_req ''contractualConsumptionMax'' 73 None],
          frq_commands = [],
          frq_subscribe_all = False\<rparr>]\<rparr>,
      \<lparr>sd_bit = 2, sd_name = ''PRODUCTION'',
       sd_description = (''Power production (feed-in) limiting. Only applicable to bidirectional endpoint types.'' @ [CHR 0x0A]),
       sd_requires = [''BASE''], sd_requires_any = [],
       sd_endpoint_types = [''INVERTER'', ''BATTERY'', ''GRID_CONNECTION''],
       sd_features = [
         \<lparr>frq_feature_name = ''Electrical'', frq_feature_id = 3, frq_required = True,
          frq_attributes = [attr_req ''nominalMaxProduction'' 11 None],
          frq_commands = [],
          frq_subscribe_all = False\<rparr>,
         \<lparr>frq_feature_name = ''EnergyControl'', frq_feature_id = 5, frq_required = False,
          frq_attributes = [attr_req ''failsafeProductionLimit'' 71 None,
            attr_req ''contractualProductionMax'' 74 None],
          frq_commands = [],
          frq_subscribe_all = False\<rparr>]\<rparr>,
      \<lparr>sd_bit = 3, sd_name = ''MEASUREMENT'',
       sd_description = ''Measurement telemetry for power monitoring.'',
       sd_requires = [], sd_requires_any = [],
       sd_endpoint_types = [],
       sd_features = [
         \<lparr>frq_feature_name = ''Measurement'', frq_feature_id = 4, frq_required = False,
          frq_attributes = [],
          frq_commands = [],
          frq_subscribe_all = True\<rparr>]\<rparr>,
      \<lparr>sd_bit = 4, sd_name = ''OVERRIDE'',
       sd_description = ''Override tracking (DEC-049).'',
       sd_requires = [], sd_requires_any = [],
       sd_endpoint_types = [],
       sd_features = [
         \<lparr>frq_feature_name = ''EnergyControl'', frq_feature_id = 5, frq_required = False,
          frq_attributes = [attr_req ''overrideReason'' 75 None,
            attr_req ''overrideDirection'' 76 None],
          frq_commands = [],
          frq_subscribe_all = False\<rparr>]\<rparr>],
    ucd_commands = [''limit'', ''clear'', ''capacity'', ''override'', ''failsafe'']\<rparr>"

definition def_MPD :: use_case_def where
  "def_MPD =
   \<lparr>ucd_name = ''MPD'', ucd_id = 2, ucd_full_name = ''Monitor Power Device'',
    ucd_description = (''Monitor power, energy, voltage, current, SoC, and operating state of any device. Replaces EEBUS MPC, MGCP, MOB, MOI, MPS.'' @ [CHR 0x0A]),
    ucd_spec_version = ''1.0'', ucd_major = 1, ucd_minor = 0,
    ucd_endpoint_types = [''GRID_CONNECTION'', ''INVERTER'', ''PV_STRING'', ''BATTERY'', ''EV_CHARGER'', ''HEAT_PUMP'', ''WATER_HEATER'', ''HVAC'', ''APPLIANCE'', ''SUB_METER''],
    ucd_scenarios = [
      \<lparr>sd_bit = 0, sd_name = ''BASE'',
       sd_description = ''Basic power monitoring.'',
       sd_requires = [], sd_requires_any = [],
       sd_endpoint_types = [],
       sd_features = [
         \<lparr>frq_feature_name = ''Measurement'', frq_feature_id = 4, frq_required = True,
          frq_attributes = [],
          frq_commands = [],
          frq_subscribe_all = True\<rparr>]\<rparr>,
      \<lparr>sd_bit = 1, sd_name = ''ELECTRICAL'',
       sd_description = ''Static electrical configuration.'',
       sd_requires = [], sd_requires_any = [],
       sd_endpoint_types = [],
       sd_features = [
         \<lparr>frq_feature_name = ''Electrical'', frq_feature_id = 3, frq_required = False,
          frq_attributes = [attr_req ''nominalMaxConsumption'' 10 None,
            attr_req ''nominalMaxProduction'' 11 None,
            attr_req ''energyCapacity'' 20 None],
          frq_commands = [],
          frq_subscribe_all = False\<rparr>]\<rparr>,
      \<lparr>sd_bit = 2, sd_name = ''STATUS'',
       sd_description = ''Operating state and fault information.'',
       sd_requires = [], sd_requires_any = [],
       sd_endpoint_types = [],
       sd_features = [
         \<lparr>frq_feature_name = ''Status'', frq_feature_id = 2, frq_required = False,
          frq_attributes = [],
          frq_commands = [],
          frq_subscribe_all = True\<rparr>]\<rparr>],
    ucd_commands = []\<rparr>"

definition def_EVC :: use_case_def where
  "def_EVC =
   \<lparr>ucd_name = ''EVC'', ucd_id = 3, ucd_full_name = ''EV Charging'',
    ucd_description = (''Comprehensive EV charging management. Replaces EEBUS CEVC, DBEVC, EVSOC, OPEV, OSCEV, EVCC, EVSECC.'' @ [CHR 0x0A]),
    ucd_spec_version = ''1.0'', ucd_major = 1, ucd_minor = 0,
    ucd_endpoint_types = [''EV_CHARGER''],
    ucd_scenarios = [
      \<lparr>sd_bit = 0, sd_name = ''BASE'',
       sd_description = ''Basic EV charging with power limits and measurement.'',
       sd_requires = [], sd_requires_any = [],
       sd_endpoint_types = [],
       sd_features = [
         \<lparr>frq_feature_name = ''EnergyControl'', frq_feature_id = 5, frq_required = True,
          frq_attributes = [attr_req ''acceptsLimits'' 10 (Some True)],
          frq_commands = [\<lparr>crq_name = ''setLimit'', crq_command_id = 1\<rparr>,
            \<lparr>crq_name = ''clearLimit'', crq_command_id = 2\<rparr>],
          frq_subscribe_all = True\<rparr>,
         \<lparr>frq_feature_name = ''Electrical'', frq_feature_id = 3, frq_required = True,
          frq_attributes = [attr_req ''nominalMaxConsumption'' 10 None],
          frq_commands = [],
          frq_subscribe_all = False\<rparr>,
         \<lparr>frq_feature_name = ''Measurement'', frq_feature_id = 4, frq_required = True,
          frq_attributes = [],
          frq_commands = [],
          frq_subscribe_all = True\<rparr>]\<rparr>,
      \<lparr>sd_bit = 1, sd_name = ''SOC_REPORTING'',
       sd_description = ''EVSE/controller handle SoC from EV when available.'',
       sd_requires = [], sd_requires_any = [],
       sd_endpoint_types = [],
       sd_features = [
         \<lparr>frq_feature_name = ''ChargingSession'', frq_feature_id = 6, frq_required = False,
          frq_attributes = [attr_req ''evStateOfCharge'' 30 None,
            attr_req ''evBatteryCapacity'' 31 None,
            attr_req ''evMinStateOfCharge'' 32 None,
            attr_req ''evTargetStateOfCharge'' 33 None],
          frq_commands = [],
          frq_subscribe_all = True\<rparr>]\<rparr>,
      \<lparr>sd_bit = 2, sd_name = ''ASYMMETRIC_CHARGING'',
       sd_description = ''Per-phase current limits for asymmetric charging.'',
       sd_requires = [], sd_requires_any = [],
       sd_endpoint_types = [],
       sd_features = [
         \<lparr>frq_feature_name = ''EnergyControl'', frq_feature_id = 5, frq_required = False,
          frq_attributes = [attr_req ''acceptsCurrentLimits'' 11 (Some True)],
          frq_commands = [\<lparr>crq_name = ''setCurrentLimits'', crq_command_id = 3\<rparr>,
            \<lparr>crq_name = ''clearCurrentLimits'', crq_command_id = 4\<rparr>],
          frq_subscribe_all = False\<rparr>]\<rparr>,
      \<lparr>sd_bit = 3, sd_name = ''V2G_DISCHARGE'',
       sd_description = ''Bidirectional V2G with setpoints and discharge.'',
       sd_requires = [], sd_requires_any = [],
       sd_endpoint_types = [],
       sd_features = [
         \<lparr>frq_feature_name = ''EnergyControl'', frq_feature_id = 5, frq_required = False,
          frq_attributes = [attr_req ''acceptsSetpoints'' 12 (Some True),
            attr_req ''acceptsCurrentSetpoints'' 13 None],
          frq_commands = [\<lparr>crq_name = ''setSetpoint'', crq_command_id = 5\<rparr>,
            \<lparr>crq_name = ''clearSetpoint'', crq_command_id = 6\<rparr>],
          frq_subscribe_all = False\<rparr>,
         \<lparr>frq_feature_name = ''Electrical'', frq_feature_id = 3, frq_required = False,
          frq_attributes = [attr_req ''nominalMaxProduction'' 11 None],
          frq_commands = [],
          frq_subscribe_all = False\<rparr>,
         \<lparr>frq_feature_name = ''ChargingSession'', frq_feature_id = 6, frq_required = False,
          frq_attributes = [attr_req ''evMinDischargingRequest'' 50 None,
            attr_req ''evMaxDischargingRequest'' 51 None,
            attr_req ''evDischargeBelowTargetPermitted'' 52 None],
          frq_commands = [],
          frq_subscribe_all = False\<rparr>]\<rparr>,
      \<lparr>sd_bit = 4, sd_name = ''COORDINATED'',
       sd_description = ''Price signals and plans for coordinated charging.'',
       sd_requires = [], sd_requires_any = [],
       sd_endpoint_types = [],
       sd_features = [
         \<lparr>frq_feature_name = ''Signals'', frq_feature_id = 8, frq_required = False,
          frq_attributes = [],
          frq_commands = [\<lparr>crq_name = ''sendPriceSignal'', crq_command_id = 1\<rparr>,
            \<lparr>crq_name = ''sendConstraintSignal'', crq_command_id = 2\<rparr>],
          frq_subscribe_all = True\<rparr>,
         \<lparr>frq_feature_name = ''Plan'', frq_feature_id = 9, frq_required = False,
          frq_attributes = [],
          frq_commands = [\<lparr>crq_name = ''requestPlan'', crq_command_id = 1\<rparr>,
            \<lparr>crq_name = ''acceptPlan'', crq_command_id = 2\<rparr>],
          frq_subscribe_all = True\<rparr>]\<rparr>,
      \<lparr>sd_bit = 5, sd_name = ''EV_DEMAND'',
       sd_description = ''EV energy/departure requests for scheduling.'',
       sd_requires = [], sd_requires_any = [],
       sd_endpoint_types = [],
       sd_features = [
         \<lparr>frq_feature_name = ''ChargingSession'', frq_feature_id = 6, frq_required = False,
          frq_attributes = [attr_req ''evDemandMode'' 40 None,
            attr_req ''evMinEnergyRequest'' 41 None,
            attr_req ''evMaxEnergyRequest'' 42 None,
            attr_req ''evTargetEnergyRequest'' 43 None,
            attr_req ''evDepartureTime'' 44 None],
          frq_commands = [\<lparr>crq_name = ''setChargingMode'', crq_command_id = 1\<rparr>],
          frq_subscribe_all = True\<rparr>]\<rparr>],
    ucd_commands = [''setpoint'', ''limit'', ''clear'', ''signal'', ''plan'']\<rparr>"

definition def_COB :: use_case_def where
  "def_COB =
   \<lparr>ucd_name = ''COB'', ucd_id = 4, ucd_full_name = ''Control of Battery'',
    ucd_description = (''Controller manages battery charge/discharge via setpoints or limits. Replaces EEBUS COB use case. Uses controlMode to select PCC or DIRECT targeting.'' @ [CHR 0x0A]),
    ucd_spec_version = ''1.0'', ucd_major = 1, ucd_minor = 0,
    ucd_endpoint_types = [''BATTERY''],
    ucd_scenarios = [
      \<lparr>sd_bit = 0, sd_name = ''BASE'',
       sd_description = ''Battery control via setpoints with electrical config and measurement.'',
       sd_requires = [], sd_requires_any = [],
       sd_endpoint_types = [],
       sd_features = [
         \<lparr>frq_feature_name = ''EnergyControl'', frq_feature_id = 5, frq_required = True,
          frq_attributes = [attr_req ''acceptsSetpoints'' 12 (Some True)],
          frq_commands = [\<lparr>crq_name = ''setSetpoint'', crq_command_id = 5\<rparr>,
            \<lparr>crq_name = ''clearSetpoint'', crq_command_id = 6\<rparr>],
          frq_subscribe_all = True\<rparr>,
         \<lparr>frq_feature_name = ''Electrical'', frq_feature_id = 3, frq_required = True,
          frq_attributes = [attr_req ''nominalMaxConsumption'' 10 None,
            attr_req ''nominalMaxProduction'' 11 None],
          frq_commands = [],
          frq_subscribe_all = False\<rparr>,
         \<lparr>frq_feature_name = ''Measurement'', frq_feature_id = 4, frq_required = True,
          frq_attributes = [],
          frq_commands = [],
          frq_subscribe_all = True\<rparr>]\<rparr>,
      \<lparr>sd_bit = 1, sd_name = ''LIMITS'',
       sd_description = ''Battery also accepts power limits.'',
       sd_requires = [], sd_requires_any = [],
       sd_endpoint_types = [],
       sd_features = [
         \<lparr>frq_feature_name = ''EnergyControl'', frq_feature_id = 5, frq_required = False,
          frq_attributes = [attr_req ''acceptsLimits'' 10 (Some True)],
          frq_commands = [\<lparr>crq_name = ''setLimit'', crq_command_id = 1\<rparr>,
            \<lparr>crq_name = ''clearLimit'', crq_command_id = 2\<rparr>],
          frq_subscribe_all = False\<rparr>]\<rparr>,
      \<lparr>sd_bit = 2, sd_name = ''CONTROL_MODE'',
       sd_description = ''Control mode attribute for PCC/DIRECT targeting.'',
       sd_requires = [], sd_requires_any = [],
       sd_endpoint_types = [],
       sd_features = [
         \<lparr>frq_feature_name = ''EnergyControl'', frq_feature_id = 5, frq_required = False,
          frq_attributes = [attr_req ''controlMode'' 87 None],
          frq_commands = [],
          frq_subscribe_all = False\<rparr>]\<rparr>],
    ucd_commands = [''setpoint'', ''limit'', ''clear'']\<rparr>"

definition def_OHPCF :: use_case_def where
  "def_OHPCF =
   \<lparr>ucd_name = ''OHPCF'', ucd_id = 5, ucd_full_name = ''Heat Pump Compressor Flexibility'',
    ucd_description = (''Controller flexibly controls heat pump compressor with min run/pause constraints. Replaces EEBUS OHPCF use case. Uses process management with timing constraints.'' @ [CHR 0x0A]),
    ucd_spec_version = ''1.0'', ucd_major = 1, ucd_minor = 0,
    ucd_endpoint_types = [''HEAT_PUMP''],
    ucd_scenarios = [
      \<lparr>sd_bit = 0, sd_name = ''BASE'',
       sd_description = ''Heat pump control with process timing constraints.'',
       sd_requires = [], sd_requires_any = [],
       sd_endpoint_types = [],
       sd_features = [
         \<lparr>frq_feature_name = ''EnergyControl'', frq_feature_id = 5, frq_required = True,
          frq_attributes = [attr_req ''acceptsLimits'' 10 (Some True),
            attr_req ''isPausable'' 14 (Some True),
            attr_req ''processState'' 80 None,
            attr_req ''optionalProcess'' 81 None,
            attr_req ''minRunDuration'' 82 None,
            attr_req ''minPauseDuration'' 83 None,
            attr_req ''maxRunDuration'' 84 None,
            attr_req ''maxPauseDuration'' 85 None,
            attr_req ''optionalProcessPower'' 86 None],
          frq_commands = [\<lparr>crq_name = ''setLimit'', crq_command_id = 1\<rparr>,
            \<lparr>crq_name = ''clearLimit'', crq_command_id = 2\<rparr>,
            \<lparr>crq_name = ''pause'', crq_command_id = 9\<rparr>,
            \<lparr>crq_name = ''resume'', crq_command_id = 10\<rparr>],
          frq_subscribe_all = True\<rparr>,
         \<lparr>frq_feature_name = ''Electrical'', frq_feature_id = 3, frq_required = True,
          frq_attributes = [attr_req ''nominalMaxConsumption'' 10 None],
          frq_commands = [],
          frq_subscribe_all = False\<rparr>]\<rparr>,
      \<lparr>sd_bit = 1, sd_name = ''MEASUREMENT'',
       sd_description = ''Measurement telemetry for heat pump monitoring.'',
       sd_requires = [], sd_requires_any = [],
       sd_endpoint_types = [],
       sd_features = [
         \<lparr>frq_feature_name = ''Measurement'', frq_feature_id = 4, frq_required = False,
          frq_attributes = [],
          frq_commands = [],
          frq_subscribe_all = True\<rparr>]\<rparr>],
    ucd_commands = [''limit'', ''clear'', ''pause'', ''resume'']\<rparr>"

definition def_ITPCM :: use_case_def where
  "def_ITPCM =
   \<lparr>ucd_name = ''ITPCM'', ucd_id = 6, ucd_full_name = ''Incentive Table Power Consumption Management'',
    ucd_description = (''Controller sends incentive signals; device responds with optimized power plan. Replaces EEBUS ITPCM use case. Uses Signals for incentives and Plan for response.'' @ [CHR 0x0A]),
    ucd_spec_version = ''1.0'', ucd_major = 1, ucd_minor = 0,
    ucd_endpoint_types = [''HEAT_PUMP'', ''WATER_HEATER'', ''HVAC'', ''APPLIANCE'', ''EV_CHARGER''],
    ucd_scenarios = [
      \<lparr>sd_bit = 0, sd_name = ''BASE'',
       sd_description = ''Incentive signals and plan exchange.'',
       sd_requires = [], sd_requires_any = [],
       sd_endpoint_types = [],
       sd_features = [
         \<lparr>frq_feature_name = ''Signals'', frq_feature_id = 8, frq_required = True,
          frq_attributes = [],
          frq_commands = [\<lparr>crq_name = ''sendPriceSignal'', crq_command_id = 1\<rparr>,
            \<lparr>crq_name = ''clearSignals'', crq_command_id = 4\<rparr>],
          frq_subscribe_all = True\<rparr>,
         \<lparr>frq_feature_name = ''Plan'', frq_feature_id = 9, frq_required = True,
          frq_attributes = [],
          frq_commands = [\<lparr>crq_name = ''requestPlan'', crq_command_id = 1\<rparr>,
            \<lparr>crq_name = ''acceptPlan'', crq_command_id = 2\<rparr>],
          frq_subscribe_all = True\<rparr>]\<rparr>,
      \<lparr>sd_bit = 1, sd_name = ''ENERGY_CONTROL'',
       sd_description = ''Device also supports direct energy control.'',
       sd_requires = [], sd_requires_any = [],
       sd_endpoint_types = [],
       sd_features = [
         \<lparr>frq_feature_name = ''EnergyControl'', frq_feature_id = 5, frq_required = False,
          frq_attributes = [],
          frq_commands = [],
          frq_subscribe_all = True\<rparr>]\<rparr>,
      \<lparr>sd_bit = 2, sd_name = ''MEASUREMENT'',
       sd_description = ''Measurement telemetry.'',
       sd_requires = [], sd_requires_any = [],
       sd_endpoint_types = [],
       sd_features = [
         \<lparr>frq_feature_name = ''Measurement'', frq_feature_id = 4, frq_required = False,
          frq_attributes = [],
          frq_commands = [],
          frq_subscribe_all = True\<rparr>]\<rparr>],
    ucd_commands = [''signal'', ''plan'']\<rparr>"

definition def_FLOA :: use_case_def where
  "def_FLOA =
   \<lparr>ucd_name = ''FLOA'', ucd_id = 7, ucd_full_name = ''Flexible Load'',
    ucd_description = (''Controller manages a generic flexible load via limits or setpoints. Replaces EEBUS flexible load patterns. Applies to any controllable device.'' @ [CHR 0x0A]),
    ucd_spec_version = ''1.0'', ucd_major = 1, ucd_minor = 0,
    ucd_endpoint_types = [''HEAT_PUMP'', ''WATER_HEATER'', ''HVAC'', ''APPLIANCE''],
    ucd_scenarios = [
      \<lparr>sd_bit = 0, sd_name = ''BASE'',
       sd_description = ''Basic flexible load control via power limits.'',
       sd_requires = [], sd_requires_any = [],
       sd_endpoint_types = [],
       sd_features = [
         \<lparr>frq_feature_name = ''EnergyControl'', frq_feature_id = 5, frq_required = True,
          frq_attributes = [attr_req ''acceptsLimits'' 10 (Some True)],
          frq_commands = [\<lparr>crq_name = ''setLimit'', crq_command_id = 1\<rparr>,
            \<lparr>crq_name = ''clearLimit'', crq_command_id = 2\<rparr>],
          frq_subscribe_all = True\<rparr>,
         \<lparr>frq_feature_name = ''Electrical'', frq_feature_id = 3, frq_required = True,
          frq_attributes = [attr_req ''nominalMaxConsumption'' 10 None],
          frq_commands = [],
          frq_subscribe_all = False\<rparr>]\<rparr>,
      \<lparr>sd_bit = 1, sd_name = ''MEASUREMENT'',
       sd_description = ''Measurement telemetry for load monitoring.'',
       sd_requires = [], sd_requires_any = [],
       sd_endpoint_types = [],
       sd_features = [
         \<lparr>frq_feature_name = ''Measurement'', frq_feature_id = 4, frq_required = False,
          frq_attributes = [],
          frq_commands = [],
          frq_subscribe_all = True\<rparr>]\<rparr>,
      \<lparr>sd_bit = 2, sd_name = ''SETPOINTS'',
       sd_description = ''Load also accepts setpoints.'',
       sd_requires = [], sd_requires_any = [],
       sd_endpoint_types = [],
       sd_features = [
         \<lparr>frq_feature_name = ''EnergyControl'', frq_feature_id = 5, frq_required = False,
          frq_attributes = [attr_req ''acceptsSetpoints'' 12 (Some True)],
          frq_commands = [\<lparr>crq_name = ''setSetpoint'', crq_command_id = 5\<rparr>,
            \<lparr>crq_name = ''clearSetpoint'', crq_command_id = 6\<rparr>],
          frq_subscribe_all = False\<rparr>]\<rparr>],
    ucd_commands = [''limit'', ''clear'']\<rparr>"

definition def_POEN :: use_case_def where
  "def_POEN =
   \<lparr>ucd_name = ''POEN'', ucd_id = 8, ucd_full_name = ''Power Envelope'',
    ucd_description = (''Controller sends time-slotted power constraints (envelope) to a device. Replaces EEBUS POEN use case. Uses constraint signals for all four bounds.'' @ [CHR 0x0A]),
    ucd_spec_version = ''1.0'', ucd_major = 1, ucd_minor = 0,
    ucd_endpoint_types = [''INVERTER'', ''EV_CHARGER'', ''BATTERY'', ''HEAT_PUMP'', ''WATER_HEATER'', ''HVAC'', ''APPLIANCE''],
    ucd_scenarios = [
      \<lparr>sd_bit = 0, sd_name = ''BASE'',
       sd_description = ''Power envelope via constraint signals.'',
       sd_requires = [], sd_requires_any = [],
       sd_endpoint_types = [],
       sd_features = [
         \<lparr>frq_feature_name = ''Signals'', frq_feature_id = 8, frq_required = True,
          frq_attributes = [],
          frq_commands = [\<lparr>crq_name = ''sendConstraintSignal'', crq_command_id = 2\<rparr>,
            \<lparr>crq_name = ''clearSignals'', crq_command_id = 4\<rparr>],
          frq_subscribe_all = True\<rparr>,
         \<lparr>frq_feature_name = ''Electrical'', frq_feature_id = 3, frq_required = True,
          frq_attributes = [attr_req ''nominalMaxConsumption'' 10 None],
          frq_commands = [],
          frq_subscribe_all = False\<rparr>]\<rparr>,
      \<lparr>sd_bit = 1, sd_name = ''MEASUREMENT'',
       sd_description = ''Measurement telemetry for envelope monitoring.'',
       sd_requires = [], sd_requires_any = [],
       sd_endpoint_types = [],
       sd_features = [
         \<lparr>frq_feature_name = ''Measurement'', frq_feature_id = 4, frq_required = False,
          frq_attributes = [],
          frq_commands = [],
          frq_subscribe_all = True\<rparr>]\<rparr>],
    ucd_commands = [''signal'']\<rparr>"

definition def_PODF :: use_case_def where
  "def_PODF =
   \<lparr>ucd_name = ''PODF'', ucd_id = 9, ucd_full_name = ''Power Demand Forecast'',
    ucd_description = (''Device publishes its planned power demand as a forecast via Plan feature. Replaces EEBUS PODF use case. CEM exposes Plan to higher-tier controllers.'' @ [CHR 0x0A]),
    ucd_spec_version = ''1.0'', ucd_major = 1, ucd_minor = 0,
    ucd_endpoint_types = [],
    ucd_scenarios = [
      \<lparr>sd_bit = 0, sd_name = ''BASE'',
       sd_description = ''Power demand forecast via Plan feature.'',
       sd_requires = [], sd_requires_any = [],
       sd_endpoint_types = [],
       sd_features = [
         \<lparr>frq_feature_name = ''Plan'', frq_feature_id = 9, frq_required = True,
          frq_attributes = [attr_req ''commitment'' 3 None,
            attr_req ''startTime'' 10 None,
            attr_req ''endTime'' 11 None,
            attr_req ''totalEnergyPlanned'' 20 None],
          frq_commands = [\<lparr>crq_name = ''requestPlan'', crq_command_id = 1\<rparr>],
          frq_subscribe_all = True\<rparr>]\<rparr>],
    ucd_commands = []\<rparr>"

definition def_TOUT :: use_case_def where
  "def_TOUT =
   \<lparr>ucd_name = ''TOUT'', ucd_id = 10, ucd_full_name = ''Time of Use Tariff'',
    ucd_description = (''Controller sends time-of-use price signals to a device for local optimization. Replaces EEBUS TOUT use case. Device uses price information autonomously.'' @ [CHR 0x0A]),
    ucd_spec_version = ''1.0'', ucd_major = 1, ucd_minor = 0,
    ucd_endpoint_types = [],
    ucd_scenarios = [
      \<lparr>sd_bit = 0, sd_name = ''BASE'',
       sd_description = ''Time-of-use tariff and price signals.'',
       sd_requires = [], sd_requires_any = [],
       sd_endpoint_types = [],
       sd_features = [
         \<lparr>frq_feature_name = ''Tariff'', frq_feature_id = 7, frq_required = True,
          frq_attributes = [attr_req ''currency'' 2 None],
          frq_commands = [\<lparr>crq_name = ''setTariff'', crq_command_id = 1\<rparr>],
          frq_subscribe_all = False\<rparr>,
         \<lparr>frq_feature_name = ''Signals'', frq_feature_id = 8, frq_required = True,
          frq_attributes = [],
          frq_commands = [\<lparr>crq_name = ''sendPriceSignal'', crq_command_id = 1\<rparr>,
            \<lparr>crq_name = ''clearSignals'', crq_command_id = 4\<rparr>],
          frq_subscribe_all = True\<rparr>]\<rparr>],
    ucd_commands = [''signal'']\<rparr>"

definition Registry :: "(string, use_case_def) gomap" where
  "Registry = [(''GPL'', def_GPL),
     (''MPD'', def_MPD),
     (''EVC'', def_EVC),
     (''COB'', def_COB),
     (''OHPCF'', def_OHPCF),
     (''ITPCM'', def_ITPCM),
     (''FLOA'', def_FLOA),
     (''POEN'', def_POEN),
     (''PODF'', def_PODF),
     (''TOUT'', def_TOUT)]"

definition NameToID :: "(string, u16) gomap" where
  "NameToID =
     [(''GPL'', 1), (''MPD'', 2), (''EVC'', 3), (''COB'', 4), (''OHPCF'', 5), (''ITPCM'', 6),
      (''FLOA'', 7), (''POEN'', 8), (''PODF'', 9), (''TOUT'', 10)]"

definition IDToName :: "(u16, string) gomap" where
  "IDToName =
     [(1, ''GPL''), (2, ''MPD''), (3, ''EVC''), (4, ''COB''), (5, ''OHPCF''), (6, ''ITPCM''),
      (7, ''FLOA''), (8, ''POEN''), (9, ''PODF''), (10, ''TOUT'')]"

lemmas registry_defs = def_GPL_def def_MPD_def def_EVC_def def_COB_def def_OHPCF_def
  def_ITPCM_def def_FLOA_def def_POEN_def def_PODF_def def_TOUT_def

section \<open>What holds of every entry\<close>

definition entry_coherent :: "string \<times> use_case_def \<Rightarrow> bool" where
  "entry_coherent = (\<lambda>(n, d).
     ucd_name d = n \<and> ucd_id d \<noteq> 0 \<and>
     gm_get NameToID n = Some (ucd_id d) \<and> gm_get IDToName (ucd_id d) = Some n)"

definition scenarios_sound :: "use_case_def \<Rightarrow> bool" where
  "scenarios_sound d \<longleftrightarrow>
     base_scenario d \<noteq> None \<and>
     distinct (map sd_bit (ucd_scenarios d)) \<and> distinct (map sd_name (ucd_scenarios d)) \<and>
     list_all (\<lambda>s. sd_bit s < 32 \<and>
        set (sd_requires s @ sd_requires_any s) \<subseteq> set (map sd_name (ucd_scenarios d)))
       (ucd_scenarios d)"

lemma registry_coherent: "list_all entry_coherent Registry"
  by code_simp

lemma registry_wf: "gm_wf Registry"
  by code_simp

lemma registry_scenarios: "list_all (\<lambda>(n, d). scenarios_sound d) Registry"
  by code_simp

section \<open>Grid power limitation\<close>

lemma GPL_names:
  "name_to_bit (ucd_scenarios def_GPL) =
     [(''BASE'', 0), (''CONSUMPTION'', 1), (''PRODUCTION'', 2), (''MEASUREMENT'', 3), (''OVERRIDE'', 4)]"
  by code_simp

lemma GPL_base:
  "\<exists>s\<in>set (ucd_scenarios def_GPL). sd_bit s = 0 \<and> sd_requires_any s = [''CONSUMPTION'', ''PRODUCTION'']"
  by (simp add: def_GPL_def)

lemma GPL_production:
  "s \<in> set (ucd_scenarios def_GPL) \<Longrightarrow> unat (sd_bit s) = 2 \<Longrightarrow>
     sd_endpoint_types s = [''INVERTER'', ''BATTERY'', ''GRID_CONNECTION'']"
  by (auto simp: def_GPL_def)

lemma GPL_control:
  "s \<in> set (ucd_scenarios def_GPL) \<Longrightarrow> unat (sd_bit s) = 0 \<Longrightarrow>
     \<exists>f\<in>set (sd_features s). frq_feature_id f = 5 \<and>
       attr_req ''acceptsLimits'' 10 (Some True) \<in> set (frq_attributes f) \<and>
       {1, 2} \<subseteq> crq_command_id ` set (frq_commands f)"
  by (auto simp: def_GPL_def)

text \<open>An endpoint for which grid power limitation matches supports the limitation of
  consumption or of production, never the shared base alone; production only when it is an
  inverter, a battery or the grid connection; and its EnergyControl accepts limits and has
  the commands SetLimit (1) and ClearLimit (2).\<close>

theorem grid_limitation_has_direction:
  assumes "mr_matched (match_endpoint def_GPL ep)"
  shows "bit (mr_scenarios (match_endpoint def_GPL ep)) 1 \<or>
         bit (mr_scenarios (match_endpoint def_GPL ep)) 2"
    and "bit (mr_scenarios (match_endpoint def_GPL ep)) 2 \<Longrightarrow>
         epp_endpoint_type ep \<in> {''INVERTER'', ''BATTERY'', ''GRID_CONNECTION''}"
    and "\<exists>fp. gm_get (epp_features ep) 5 = Some fp \<and>
         gm_get (fp_attributes fp) 10 = Some (ABool True) \<and> {1, 2} \<subseteq> set (fp_command_ids fp)"
proof -
  let ?m = "match_endpoint def_GPL ep"
  from assms have allowed: "type_allowed def_GPL ep" and base: "bit (mr_scenarios ?m) 0"
    by (simp_all add: match_endpoint_matched)
  note outcome = endpoint_match [OF allowed]
  from GPL_base obtain s where s: "s \<in> set (ucd_scenarios def_GPL)" "sd_bit s = 0"
    "sd_requires_any s = [''CONSUMPTION'', ''PRODUCTION'']" by auto
  with outcome(1) base have "any_found (name_to_bit (ucd_scenarios def_GPL)) s (mr_scenarios ?m)"
    by (simp add: consistent_bits)
  then show "bit (mr_scenarios ?m) 1 \<or> bit (mr_scenarios ?m) 2"
    by (simp add: any_found_def s(3) GPL_names has_bit)
  have found: "\<exists>s\<in>set (ucd_scenarios def_GPL). scenario_available ep s \<and> unat (sd_bit s) = n"
    if "bit (mr_scenarios ?m) n" for n
    using outcome(2) that by (simp add: sub_scenarios_bits matching_scenarios_bit)
  show "epp_endpoint_type ep \<in> {''INVERTER'', ''BATTERY'', ''GRID_CONNECTION''}"
    if two: "bit (mr_scenarios ?m) 2"
  proof -
    from found [OF two] obtain s where "s \<in> set (ucd_scenarios def_GPL)" "scenario_available ep s"
      "unat (sd_bit s) = 2" by auto
    with GPL_production [of s] show ?thesis by (auto simp: scenario_available_def)
  qed
  from found [OF base] obtain s where "s \<in> set (ucd_scenarios def_GPL)" "scenario_available ep s"
    "unat (sd_bit s) = 0" by auto
  with GPL_control [of s] obtain f where f: "f \<in> set (sd_features s)" "frq_feature_id f = 5"
    "attr_req ''acceptsLimits'' 10 (Some True) \<in> set (frq_attributes f)"
    "{1, 2} \<subseteq> crq_command_id ` set (frq_commands f)"
    and "match_scenario_features (sd_features s) ep"
    by (auto simp: scenario_available_def)
  then obtain fp where fp: "gm_get (epp_features ep) 5 = Some fp"
    "check_attributes f fp" "check_commands f fp"
    by (auto simp: match_scenario_features_def list_all_iff split: option.splits)
  from fp(2) f(3) have "gm_get (fp_attributes fp) 10 = Some (ABool True)"
    by (force simp: check_attributes_def list_all_iff)
  moreover from fp(3) f(4) have "{1, 2} \<subseteq> set (fp_command_ids fp)"
    by (fastforce simp: check_commands_def list_all_iff)
  ultimately show "\<exists>fp. gm_get (epp_features ep) 5 = Some fp \<and>
      gm_get (fp_attributes fp) 10 = Some (ABool True) \<and> {1, 2} \<subseteq> set (fp_command_ids fp)"
    using fp(1) by blast
qed

definition limitable :: endpoint_profile where
  "limitable = \<lparr>epp_endpoint_id = 1, epp_endpoint_type = ''HEAT_PUMP'', epp_features =
     [(5, \<lparr>fp_feature_id = 5, fp_feature_map = 0, fp_attribute_ids = [10, 70, 72, 73],
           fp_command_ids = [1, 2], fp_attributes = [(10, ABool True)]\<rparr>),
      (3, \<lparr>fp_feature_id = 3, fp_feature_map = 0, fp_attribute_ids = [10, 11],
           fp_command_ids = [], fp_attributes = []\<rparr>)]\<rparr>"

theorem grid_limitation_has_direction_witness:
  "mr_scenarios (match_endpoint def_GPL limitable) = 3 \<and>
   (bit (mr_scenarios (match_endpoint def_GPL limitable)) 1 \<or>
    bit (mr_scenarios (match_endpoint def_GPL limitable)) 2)"
proof -
  have "mr_scenarios (match_endpoint def_GPL limitable) = 3" by code_simp
  moreover have "mr_matched (match_endpoint def_GPL limitable)" by code_simp
  ultimately show ?thesis using grid_limitation_has_direction(1) [of limitable] by blast
qed

text \<open>The bitmaps are compared as numbers: of an endpoint with the scenarios 0 to 3 and one
  with 0, 1 and 4 the second is chosen, although it has fewer scenarios.\<close>

lemma bitmaps_compared_as_numbers:
  assumes "mr_matched a" "mr_scenarios a = 15" "mr_matched b" "mr_scenarios b = 19"
  shows "better_match a b = b" "better_match b a = b"
  using assms by (simp_all add: better_match_def)

section \<open>Controllers\<close>

text \<open>A controller declares every use case of the table once, in the order of the ids, with
  all scenarios the table defines; the order in which the map is visited is irrelevant.\<close>

lemma controller_ids_distinct: "distinct (map (\<lambda>(n, d). ucd_id d) Registry)"
  by code_simp

lemma controller_declarations:
  "map (\<lambda>c. (ucl_id c, ucl_endpoint_id c, ucl_scenarios c)) (evaluate_controller Registry) =
     [(1, 0, 31), (2, 0, 7), (3, 0, 63), (4, 0, 7), (5, 0, 3), (6, 0, 7), (7, 0, 7), (8, 0, 3),
      (9, 0, 1), (10, 0, 1)]"
  by code_simp

theorem controller_declares_registry:
  assumes "mset m = mset Registry"
  shows "evaluate_controller m = evaluate_controller Registry"
    and "map (\<lambda>c. (ucl_id c, ucl_endpoint_id c, ucl_scenarios c)) (evaluate_controller m) =
     [(1, 0, 31), (2, 0, 7), (3, 0, 63), (4, 0, 7), (5, 0, 3), (6, 0, 7), (7, 0, 7), (8, 0, 3),
      (9, 0, 1), (10, 0, 1)]"
proof -
  let ?g = "\<lambda>(n :: string, d). \<lparr>ucl_endpoint_id = 0, ucl_id = ucd_id d,
       ucl_major = ucd_major d, ucl_minor = ucd_minor d, ucl_scenarios = defined_scenario_mask d\<rparr>"
  have eq: "mset (map ?g m) = mset (map ?g Registry)" using assms by simp
  have "map ucl_id (map ?g Registry) = map (\<lambda>(n, d). ucd_id d) Registry"
    by (simp add: comp_def split_beta)
  with controller_ids_distinct have "distinct (map ucl_id (map ?g Registry))"
    by (simp only:)
  then have "inj_on ucl_id (set (map ?g Registry))"
    by (rule conjunct2 [OF iffD1 [OF distinct_map]])
  then have "inj_on ucl_id (set (map ?g m))" unfolding mset_eq_setD [OF eq] .
  then have "sort_key ucl_id (map ?g m) = sort_key ucl_id (map ?g Registry)"
    by (rule sort_key_inj_key_eq [rotated]) (simp_all only: eq mset_sort sorted_sort_key)
  then show same: "evaluate_controller m = evaluate_controller Registry"
    unfolding evaluate_controller_def .
  show "map (\<lambda>c. (ucl_id c, ucl_endpoint_id c, ucl_scenarios c)) (evaluate_controller m) =
     [(1, 0, 31), (2, 0, 7), (3, 0, 63), (4, 0, 7), (5, 0, 3), (6, 0, 7), (7, 0, 7), (8, 0, 3),
      (9, 0, 1), (10, 0, 1)]"
    unfolding same by (rule controller_declarations)
qed

theorem controller_declares_registry_witness:
  "map ucl_id (evaluate_controller (rev Registry)) = [1, 2, 3, 4, 5, 6, 7, 8, 9, 10]"
proof -
  from controller_declares_registry(1) [of "rev Registry"]
  have "map ucl_id (evaluate_controller (rev Registry)) =
      map fst (map (\<lambda>c. (ucl_id c, ucl_endpoint_id c, ucl_scenarios c)) (evaluate_controller Registry))"
    by (simp add: comp_def)
  then show ?thesis unfolding controller_declarations by simp
qed

end
