(* ===== verification/UseCaseDiscovery.thy ===== *)
theory UseCaseDiscovery
  imports UseCaseRegistry
begin

text \<open>
  How the other side learns the use cases of a device (\<open>pkg/usecase/discovery.go\<close>): from the
  declarations in its \<open>useCases\<close> attribute, or by probing its endpoints. The properties join
  this with the evaluation by the device: what it declares is what is found, and what
  probing cannot find.
\<close>

section \<open>Reading a device\<close>

type_synonym 'e device_reader = "u8 \<Rightarrow> u8 \<Rightarrow> u16 list \<Rightarrow> 'e + (u16, any) gomap"

datatype 'e discovery_failure =
    ReadingDeviceInfo 'e
  | EndpointsNotArray any

definition FeatureDeviceInfo :: u8 where "FeatureDeviceInfo = 1"
definition FeatureEnergyControl :: u8 where "FeatureEnergyControl = 5"
definition DeviceInfoAttrEndpoints :: u16 where "DeviceInfoAttrEndpoints = 20"
definition DeviceInfoAttrUseCases :: u16 where "DeviceInfoAttrUseCases = 21"

text \<open>Status, Electrical, Measurement, EnergyControl and ChargingSession.\<close>

definition knownFeatureIDs :: "u8 list" where "knownFeatureIDs = [2, 3, 4, 5, 6]"

definition energyControlCapabilityAttrs :: "u16 list" where
  "energyControlCapabilityAttrs = [10, 11, 12, 13, 14, 15, 16]"

text \<open>The conversions of this package; they truncate and take other types than those of
  \<open>pkg/wire\<close>.\<close>

fun uc_toUint8 :: "any \<Rightarrow> u8 option" where
  "uc_toUint8 (AU8 n) = Some n"
| "uc_toUint8 (AU64 n) = Some (ucast n)"
| "uc_toUint8 (AI64 n) = Some (ucast n)"
| "uc_toUint8 (AU16 n) = Some (ucast n)"
| "uc_toUint8 (AU32 n) = Some (ucast n)"
| "uc_toUint8 (AInt n) = Some (ucast n)"
| "uc_toUint8 _ = None"

fun uc_toUint16 :: "any \<Rightarrow> u16 option" where
  "uc_toUint16 (AU16 n) = Some n"
| "uc_toUint16 (AU64 n) = Some (ucast n)"
| "uc_toUint16 (AI64 n) = Some (ucast n)"
| "uc_toUint16 (AU8 n) = Some (ucast n)"
| "uc_toUint16 (AU32 n) = Some (ucast n)"
| "uc_toUint16 (AInt n) = Some (ucast n)"
| "uc_toUint16 _ = None"

fun uc_toUint32 :: "any \<Rightarrow> u32 option" where
  "uc_toUint32 (AU32 n) = Some n"
| "uc_toUint32 (AU64 n) = Some (ucast n)"
| "uc_toUint32 (AI64 n) = Some (ucast n)"
| "uc_toUint32 (AInt n) = Some (ucast n)"
| "uc_toUint32 _ = None"

text \<open>\<open>if v, ok := m[uint64(k)]; ok \<dots>\<close>: the field keeps 0 when the key is missing or its value
  has another type.\<close>

definition field_of :: "(any \<Rightarrow> 'a::len word option) \<Rightarrow> (any \<times> any) list \<Rightarrow> u64 \<Rightarrow> 'a word" where
  "field_of conv m k = (case gm_get m (AU64 k) of None \<Rightarrow> 0 | Some v \<Rightarrow> or_zero (conv v))"

definition parse_decl :: "any \<Rightarrow> use_case_decl option" where
  "parse_decl item =
     (case item of
        AMap m \<Rightarrow>
          (let d = \<lparr>ucl_endpoint_id = field_of uc_toUint8 m 1, ucl_id = field_of uc_toUint16 m 2,
                    ucl_major = field_of uc_toUint8 m 3, ucl_minor = field_of uc_toUint8 m 4,
                    ucl_scenarios = field_of uc_toUint32 m 5\<rparr>
           in if ucl_id d \<noteq> 0 then Some d else None)
      | _ \<Rightarrow> None)"

definition parseUseCases :: "any \<Rightarrow> use_case_decl list option" where
  "parseUseCases raw =
     (case raw of ASlice items \<Rightarrow> Some (List.map_filter parse_decl items) | _ \<Rightarrow> None)"

definition parse_endpoint :: "any \<Rightarrow> (u8 \<times> string) option" where
  "parse_endpoint item =
     (case item of
        AMap m \<Rightarrow>
          (let i = field_of uc_toUint8 m 1;
               t = (case gm_get m (AU64 2) of
                      None \<Rightarrow> ''''
                    | Some v \<Rightarrow> (case uc_toUint8 v of None \<Rightarrow> '''' | Some n \<Rightarrow> endpoint_type_string n))
           in if i = 0 then None else Some (i, t))
      | _ \<Rightarrow> None)"

definition parseEndpoints :: "any \<Rightarrow> (u8 \<times> string) list option" where
  "parseEndpoints raw =
     (case raw of ASlice items \<Rightarrow> Some (List.map_filter parse_endpoint items) | _ \<Rightarrow> None)"

fun parseUint16List :: "any \<Rightarrow> u16 list" where
  "parseUint16List (ASlice vs) = List.map_filter uc_toUint16 vs"
| "parseUint16List _ = []"

fun parseUint8List :: "any \<Rightarrow> u8 list" where
  "parseUint8List (ASlice vs) = List.map_filter uc_toUint8 vs"
| "parseUint8List _ = []"

section \<open>Probing\<close>

text \<open>The feature is absent when its attribute list cannot be read; an error of a later read
  leaves its part of the profile empty.\<close>

definition probe_feature :: "'e device_reader \<Rightarrow> u8 \<Rightarrow> u8 \<Rightarrow> feature_profile option" where
  "probe_feature rd ep f =
     (case rd ep f [AttrIDAttributeList] of
        Inl _ \<Rightarrow> None
      | Inr attrs \<Rightarrow>
          Some \<lparr>fp_feature_id = f,
            fp_feature_map =
              (case rd ep f [AttrIDFeatureMap] of
                 Inl _ \<Rightarrow> 0
               | Inr m \<Rightarrow> (case gm_get m AttrIDFeatureMap of
                              None \<Rightarrow> 0 | Some v \<Rightarrow> or_zero (uc_toUint32 v))),
            fp_attribute_ids =
              (case gm_get attrs AttrIDAttributeList of None \<Rightarrow> [] | Some v \<Rightarrow> parseUint16List v),
            fp_command_ids =
              (case rd ep f [AttrIDCommandList] of
                 Inl _ \<Rightarrow> []
               | Inr m \<Rightarrow> (case gm_get m AttrIDCommandList of
                              None \<Rightarrow> [] | Some v \<Rightarrow> parseUint8List v)),
            fp_attributes =
              (if f = FeatureEnergyControl
               then (case rd ep f energyControlCapabilityAttrs of
                       Inl _ \<Rightarrow> []
                     | Inr m \<Rightarrow> foldl (\<lambda>a (i, v). gm_put i v a) [] m)
               else [])\<rparr>)"

definition discover_endpoint :: "'e device_reader \<Rightarrow> u8 \<Rightarrow> string \<Rightarrow> u8 list \<Rightarrow> endpoint_profile" where
  "discover_endpoint rd i t fs =
     \<lparr>epp_endpoint_id = i, epp_endpoint_type = t,
      epp_features = foldl (\<lambda>m f. case probe_feature rd i f of
                               None \<Rightarrow> m | Some fp \<Rightarrow> gm_put f fp m) [] fs\<rparr>"

definition probe_profile :: "'e device_reader \<Rightarrow> string \<Rightarrow> (u8 \<times> string) list \<Rightarrow> device_profile" where
  "probe_profile rd device_id eps =
     \<lparr>dp_device_id = device_id,
      dp_endpoints =
        foldl (\<lambda>m (i, t). gm_put i (discover_endpoint rd i t knownFeatureIDs) m) [] eps\<rparr>"

definition discover_device ::
  "'e device_reader \<Rightarrow> string \<Rightarrow> 'e discovery_failure + device_profile" where
  "discover_device rd device_id =
     (case rd 0 FeatureDeviceInfo [DeviceInfoAttrEndpoints] of
        Inl err \<Rightarrow> Inl (ReadingDeviceInfo err)
      | Inr attrs \<Rightarrow>
          (case parseEndpoints (any_at attrs DeviceInfoAttrEndpoints) of
             None \<Rightarrow> Inl (EndpointsNotArray (any_at attrs DeviceInfoAttrEndpoints))
           | Some eps \<Rightarrow> Inr (probe_profile rd device_id eps)))"

text \<open>\<open>fmt.Sprintf("0x%02X", d.ID)\<close> for an id that the tables do not know.\<close>

definition match_of_decl :: "use_case_decl \<Rightarrow> match_result" where
  "match_of_decl d =
     \<lparr>mr_use_case = (case gm_get IDToName (ucl_id d) of
                       Some n \<Rightarrow> n
                     | None \<Rightarrow> ''0x'' @ pad 2 (num_string 16 (unat (ucl_id d)))),
      mr_matched = True, mr_endpoint_id = ucl_endpoint_id d, mr_scenarios = ucl_scenarios d,
      mr_missing_required = [], mr_optional_missing = []\<rparr>"

definition build_from_declarations ::
  "string \<Rightarrow> use_case_decl list \<Rightarrow> (string, use_case_def) gomap \<Rightarrow> device_use_cases" where
  "build_from_declarations device_id decls registry =
     \<lparr>duc_device_id = device_id, duc_profile = None, duc_matches = map match_of_decl decls,
      duc_registry = registry\<rparr>"

definition discover_use_cases ::
  "'e device_reader \<Rightarrow> string \<Rightarrow> (string, use_case_def) gomap \<Rightarrow>
     'e discovery_failure + device_use_cases" where
  "discover_use_cases rd device_id registry =
     (case rd 0 FeatureDeviceInfo [DeviceInfoAttrEndpoints, DeviceInfoAttrUseCases] of
        Inl err \<Rightarrow> Inl (ReadingDeviceInfo err)
      | Inr attrs \<Rightarrow>
          (let probe =
             (case parseEndpoints (any_at attrs DeviceInfoAttrEndpoints) of
                None \<Rightarrow> Inl (EndpointsNotArray (any_at attrs DeviceInfoAttrEndpoints))
              | Some eps \<Rightarrow> Inr (match_all (probe_profile rd device_id eps) registry))
           in case gm_get attrs DeviceInfoAttrUseCases of
                None \<Rightarrow> probe
              | Some raw \<Rightarrow>
                  (case parseUseCases raw of
                     Some (d # ds) \<Rightarrow> Inr (build_from_declarations device_id (d # ds) registry)
                   | _ \<Rightarrow> probe)))"

section \<open>What is found\<close>

text \<open>The decoded form of a declaration: the CBOR map with the integer keys of the struct
  tags of \<open>UseCaseDecl\<close>, all unsigned integers of 64 bits.\<close>

definition decl_wire :: "use_case_decl \<Rightarrow> any" where
  "decl_wire d =
     AMap [(AU64 1, AU64 (ucast (ucl_endpoint_id d))), (AU64 2, AU64 (ucast (ucl_id d))),
           (AU64 3, AU64 (ucast (ucl_major d))), (AU64 4, AU64 (ucast (ucl_minor d))),
           (AU64 5, AU64 (ucast (ucl_scenarios d)))]"

lemma ucast_back_wide:
  "ucast (ucast (x :: u8) :: u64) = x" "ucast (ucast (y :: u16) :: u64) = y"
  "ucast (ucast (z :: u32) :: u64) = z"
  by (simp_all add: bit_eq_iff bit_ucast_iff)

lemma parse_decl_wire: "ucl_id d \<noteq> 0 \<Longrightarrow> parse_decl (decl_wire d) = Some d"
  by (cases d) (simp add: parse_decl_def decl_wire_def field_of_def ucast_back_wide Let_def)

lemma parse_decls_wire:
  "(\<forall>d\<in>set ds. ucl_id d \<noteq> 0) \<Longrightarrow> parseUseCases (ASlice (map decl_wire ds)) = Some ds"
  by (induction ds) (auto simp: parseUseCases_def List.map_filter_simps parse_decl_wire)
text \<open>A match that the device declares comes back unchanged.\<close>

lemma matched_shape:
  assumes "mr_matched (match_endpoint d ep)"
  shows "match_endpoint d ep =
    \<lparr>mr_use_case = ucd_name d, mr_matched = True, mr_endpoint_id = epp_endpoint_id ep,
     mr_scenarios = mr_scenarios (match_endpoint d ep), mr_missing_required = [],
     mr_optional_missing = []\<rparr>"
  using assms by (simp add: match_endpoint_def Let_def split: if_splits)

lemma registry_entry:
  assumes "(n, d) \<in> set Registry"
  shows "ucd_name d = n" "ucd_id d \<noteq> 0" "gm_get IDToName (ucd_id d) = Some n"
    "gm_get Registry n = Some d"
  using registry_coherent assms registry_wf
  by (auto simp: list_all_iff entry_coherent_def gm_get_in)

lemma declared_match:
  assumes "(n, d) \<in> set Registry" and "mr_matched (match_use_case n d profile)"
  obtains dcl where "decl_of_match Registry (match_use_case n d profile) = Some dcl"
    and "ucl_id dcl \<noteq> 0" and "match_of_decl dcl = match_use_case n d profile"
proof -
  let ?m = "match_use_case n d profile"
  from match_use_case_best(2) [OF refl assms(2)]
  obtain ep where m: "?m = match_endpoint d ep" by auto
  with assms(2) have shape: "?m = \<lparr>mr_use_case = n, mr_matched = True,
      mr_endpoint_id = mr_endpoint_id ?m, mr_scenarios = mr_scenarios ?m,
      mr_missing_required = [], mr_optional_missing = []\<rparr>"
    using matched_shape registry_entry(1) [OF assms(1)] by (metis match_endpoint_simps(2))
  define dcl where "dcl = \<lparr>ucl_endpoint_id = mr_endpoint_id ?m, ucl_id = ucd_id d,
      ucl_major = ucd_major d, ucl_minor = ucd_minor d, ucl_scenarios = mr_scenarios ?m\<rparr>"
  have "mr_use_case ?m = n" by (subst shape) simp
  then have "decl_of_match Registry ?m = Some dcl"
    using assms(2) registry_entry(4) [OF assms(1)] by (simp add: decl_of_match_def dcl_def)
  moreover have "match_of_decl dcl = \<lparr>mr_use_case = n, mr_matched = True,
      mr_endpoint_id = mr_endpoint_id ?m, mr_scenarios = mr_scenarios ?m,
      mr_missing_required = [], mr_optional_missing = []\<rparr>"
    by (simp add: match_of_decl_def dcl_def registry_entry(3) [OF assms(1)])
  then have "match_of_decl dcl = ?m" using shape by simp
  ultimately show thesis
    using that registry_entry(2) [OF assms(1)] by (simp add: dcl_def)
qed

lemma map_filter_back:
  assumes "\<And>m. m \<in> set ms \<Longrightarrow> mr_matched m \<Longrightarrow>
      \<exists>dcl. decl_of_match reg m = Some dcl \<and> ucl_id dcl \<noteq> 0 \<and> match_of_decl dcl = m"
  shows "map match_of_decl (List.map_filter (decl_of_match reg) ms) = filter mr_matched ms \<and>
    (\<forall>dcl\<in>set (List.map_filter (decl_of_match reg) ms). ucl_id dcl \<noteq> 0)"
  using assms
proof (induction ms)
  case Nil
  then show ?case by (simp add: List.map_filter_simps)
next
  case (Cons m ms)
  then have IH: "map match_of_decl (List.map_filter (decl_of_match reg) ms) = filter mr_matched ms"
    "\<forall>dcl\<in>set (List.map_filter (decl_of_match reg) ms). ucl_id dcl \<noteq> 0" by auto
  show ?case
  proof (cases "mr_matched m")
    case True
    with Cons.prems [of m] IH show ?thesis by (auto simp: List.map_filter_simps)
  next
    case False
    then have "decl_of_match reg m = None" by (simp add: decl_of_match_def)
    with False IH show ?thesis by (simp add: List.map_filter_simps)
  qed
qed

lemma device_declarations:
  "map match_of_decl (evaluate_device dv Registry)
     = filter mr_matched (duc_matches (match_all (build_local_profile dv) Registry)) \<and>
   (\<forall>dcl\<in>set (evaluate_device dv Registry). ucl_id dcl \<noteq> 0)"
  unfolding evaluate_device_def
proof (rule map_filter_back)
  fix m
  assume "m \<in> set (duc_matches (match_all (build_local_profile dv) Registry))" "mr_matched m"
  then obtain n d where "(n, d) \<in> set Registry" "m = match_use_case n d (build_local_profile dv)"
    by (auto simp: match_all_def)
  with \<open>mr_matched m\<close> show "\<exists>dcl. decl_of_match Registry m = Some dcl \<and> ucl_id dcl \<noteq> 0 \<and>
      match_of_decl dcl = m"
    by (metis declared_match)
qed

lemma commands_of_matched:
  "foldl (\<lambda>cmds m. if mr_matched m then g cmds m else cmds) acc (filter mr_matched ms) =
   foldl (\<lambda>cmds m. if mr_matched m then g cmds m else cmds) acc ms"
  by (induction ms arbitrary: acc) auto

lemma find_filter_matched:
  "find (matches_use_case n) (filter mr_matched ms) = find (matches_use_case n) ms"
  by (induction ms) (auto simp: matches_use_case_def)

text \<open>C7. A controller that reads the declarations of a device finds exactly the matches the device
  computed from its own model, with their endpoints, scenarios and commands. (With no match at
  all the attribute is an empty list and the controller probes.)\<close>

theorem declared_use_cases_discovered:
  assumes "rd 0 FeatureDeviceInfo [DeviceInfoAttrEndpoints, DeviceInfoAttrUseCases] = Inr attrs"
    and "gm_get attrs DeviceInfoAttrUseCases =
           Some (ASlice (map decl_wire (evaluate_device dv Registry)))"
    and "evaluate_device dv Registry \<noteq> []"
  shows "let own = match_all (build_local_profile dv) Registry in
     \<exists>du. discover_use_cases rd device_id Registry = Inr du \<and>
       duc_matches du = filter mr_matched (duc_matches own) \<and>
       supported_commands du = supported_commands own \<and>
       (\<forall>n. endpoint_for_use_case du n = endpoint_for_use_case own n \<and>
            scenarios_for_use_case du n = scenarios_for_use_case own n)"
proof -
  let ?ds = "evaluate_device dv Registry"
  let ?own = "match_all (build_local_profile dv) Registry"
  have same: "map match_of_decl ?ds = filter mr_matched (duc_matches ?own)"
    and ids: "\<forall>dcl\<in>set ?ds. ucl_id dcl \<noteq> 0"
    using device_declarations by blast+
  let ?du = "build_from_declarations device_id ?ds Registry"
  from parse_decls_wire [OF ids] assms
  have found: "discover_use_cases rd device_id Registry = Inr ?du"
    by (cases ?ds) (simp_all add: discover_use_cases_def Let_def)
  have matches: "duc_matches ?du = filter mr_matched (duc_matches ?own)"
    and reg: "duc_registry ?du = duc_registry ?own"
    by (simp_all add: build_from_declarations_def same match_all_def)
  have "supported_commands ?du = supported_commands ?own"
    unfolding supported_commands_def matches reg by (rule commands_of_matched)
  with found matches show ?thesis
    by (auto simp: Let_def endpoint_for_use_case_def scenarios_for_use_case_def matches
        find_filter_matched)
qed

text \<open>A wall box with EnergyControl, Electrical and Measurement, as its own model has it.\<close>

definition flag_attr :: "u16 \<Rightarrow> any \<Rightarrow> attribute" where
  "flag_attr i v = \<lparr>at_metadata = \<lparr>am_id = i, am_name = '''', am_type = DataTypeUnknown,
     am_access = AccessReadOnly, am_nullable = True, am_min_value = ANil, am_max_value = ANil,
     am_default = ANil, am_unit = '''', am_description = ''''\<rparr>, at_value = v, at_dirty = False\<rparr>"

definition feature_with :: "u8 \<Rightarrow> (u16 \<times> any) list \<Rightarrow> u8 list \<Rightarrow> feature" where
  "feature_with t attrs cmds =
     \<lparr>ft_type = t, ft_revision = 1, ft_feature_map = 0,
      ft_attributes = map (\<lambda>(i, v). (i, flag_attr i v)) attrs,
      ft_commands = map (\<lambda>c. (c, new_command \<lparr>cmm_id = c, cmm_name = '''',
         cmm_description = '''', cmm_parameters = [], cmm_response = []\<rparr> None)) cmds,
      ft_subscribers = [], ft_read_hook = None\<rparr>"

definition wall_box :: device where
  "wall_box = \<lparr>dv_device_id = ''box'', dv_vendor_id = 1, dv_product_id = 1,
     dv_serial_number = '''', dv_firmware_version = '''',
     dv_endpoints = [(0, new_endpoint 0 0 ''''),
       (1, \<lparr>ep_id = 1, ep_type = 5, ep_label = ''box'', ep_features =
          [(5, feature_with 5 [(10, ABool True), (70, ANil), (72, ANil), (73, ANil)] [1, 2]),
           (3, feature_with 3 [(10, ANil)] []), (4, feature_with 4 [] [])]\<rparr>)]\<rparr>"

lemma wall_box_declares:
  "map (\<lambda>d. (ucl_id d, ucl_endpoint_id d, ucl_scenarios d)) (evaluate_device wall_box Registry)
     = [(1, 1, 11), (2, 1, 1), (3, 1, 1)]"
  by code_simp

theorem declared_use_cases_discovered_witness:
  "\<exists>du. discover_use_cases (\<lambda>_ _ _. Inr [(DeviceInfoAttrUseCases,
        ASlice (map decl_wire (evaluate_device wall_box Registry)))]) ''box'' Registry
        = (Inr du :: string discovery_failure + device_use_cases) \<and>
      duc_matches du =
        filter mr_matched (duc_matches (match_all (build_local_profile wall_box) Registry))"
proof -
  have "evaluate_device wall_box Registry \<noteq> []" using wall_box_declares by auto
  from declared_use_cases_discovered [of "\<lambda>_ _ _. Inr [(DeviceInfoAttrUseCases,
      ASlice (map decl_wire (evaluate_device wall_box Registry)))]", OF refl _ this, of "''box''"]
  show ?thesis by (auto simp: Let_def)
qed

section \<open>What probing cannot find\<close>

lemma probed_features:
  "dom (gm_get (epp_features (discover_endpoint rd i t fs))) \<subseteq> set fs"
proof -
  have "dom (gm_get (foldl (\<lambda>m f. case probe_feature rd i f of
      None \<Rightarrow> m | Some fp \<Rightarrow> gm_put f fp m) m fs)) \<subseteq> dom (gm_get m) \<union> set fs" for m
    by (induction fs arbitrary: m) (fastforce simp: gomap_simps split: option.splits if_splits)+
  from this [of "[]"] show ?thesis by (simp add: discover_endpoint_def)
qed

lemma probed_endpoints:
  "(i, ep) \<in> set (dp_endpoints (probe_profile rd device_id eps)) \<Longrightarrow>
     \<exists>j t. ep = discover_endpoint rd j t knownFeatureIDs"
proof -
  have "(i, ep) \<in> set (foldl (\<lambda>m (i, t). gm_put i (discover_endpoint rd i t knownFeatureIDs) m) m eps) \<Longrightarrow>
      (i, ep) \<in> set m \<or> (\<exists>j t. ep = discover_endpoint rd j t knownFeatureIDs)" for m
    by (induction eps arbitrary: m) (use gm_set_put_subset in \<open>fastforce split: prod.splits\<close>)+
  from this [of "[]"] show "(i, ep) \<in> set (dp_endpoints (probe_profile rd device_id eps)) \<Longrightarrow>
      \<exists>j t. ep = discover_endpoint rd j t knownFeatureIDs"
    by (simp add: probe_profile_def)
qed

text \<open>The base scenario of these use cases has a feature that is not probed.\<close>

definition base_unprobed :: "use_case_def \<Rightarrow> bool" where
  "base_unprobed d =
     list_all (\<lambda>s. sd_bit s = 0 \<longrightarrow>
         list_ex (\<lambda>f. frq_feature_id f \<notin> set knownFeatureIDs) (sd_features s)) (ucd_scenarios d)"

lemma unprobed_not_matched:
  assumes "base_unprobed d"
  shows "\<not> mr_matched (match_endpoint d (discover_endpoint rd i t knownFeatureIDs))"
proof
  let ?ep = "discover_endpoint rd i t knownFeatureIDs"
  assume "mr_matched (match_endpoint d ?ep)"
  then have allowed: "type_allowed d ?ep" and "bit (mr_scenarios (match_endpoint d ?ep)) 0"
    by (simp_all add: match_endpoint_matched)
  then have "bit (matching_scenarios d ?ep) 0"
    using endpoint_match(2) [OF allowed] by (simp add: sub_scenarios_bits)
  then obtain s where s: "s \<in> set (ucd_scenarios d)" "scenario_available ?ep s" "unat (sd_bit s) = 0"
    by (auto simp: matching_scenarios_bit)
  from s(3) have "sd_bit s = 0" by (simp add: unat_eq_0)
  with assms s(1) obtain f where f: "f \<in> set (sd_features s)" "frq_feature_id f \<notin> set knownFeatureIDs"
    by (auto simp: base_unprobed_def list_all_iff list_ex_iff)
  with probed_features [of rd i t knownFeatureIDs]
  have "gm_get (epp_features ?ep) (frq_feature_id f) = None" by blast
  with s(2) f(1) show False
    by (auto simp: scenario_available_def match_scenario_features_def list_all_iff
        split: option.splits)
qed

lemma registry_unprobed:
  "map fst (filter (\<lambda>(n, d). base_unprobed d) Registry) = [''ITPCM'', ''POEN'', ''PODF'', ''TOUT'']"
  by code_simp

text \<open>A controller that probes a device, as \<open>DiscoverDevice\<close> with \<open>MatchAll\<close> and
  the fallback of \<open>DiscoverUseCases\<close> do, never finds the use cases ITPCM, POEN, PODF and TOUT,
  whatever the device has: their base scenarios need the features Signals, Plan or Tariff,
  which are not probed. The device itself declares them.\<close>

theorem probing_misses_planning_use_cases:
  assumes "discover_device rd device_id = Inr profile"
    and "n \<in> {''ITPCM'', ''POEN'', ''PODF'', ''TOUT''}"
  shows "\<not> has_use_case (match_all profile Registry) n"
proof
  assume "has_use_case (match_all profile Registry) n"
  then obtain n' d where e: "(n', d) \<in> set Registry" "mr_use_case (match_use_case n' d profile) = n"
    and matched: "mr_matched (match_use_case n' d profile)"
    by (auto simp: has_use_case_def list_ex_iff matches_use_case_def match_all_def)
  from match_use_case_best(2) [OF refl matched] obtain i ep
    where ep: "(i, ep) \<in> set (dp_endpoints profile)" "match_use_case n' d profile = match_endpoint d ep"
    by auto
  with e(2) registry_entry(1) [OF e(1)] have "n' = n" by simp
  have "n \<in> set (map fst (filter (\<lambda>(n, d). base_unprobed d) Registry))"
    unfolding registry_unprobed using assms(2) by simp
  then obtain d' where d': "(n, d') \<in> set Registry" "base_unprobed d'" by auto
  with e(1) registry_wf have "d' = d"
    unfolding \<open>n' = n\<close> by (metis gm_get_in option.inject)
  from assms(1) obtain eps where "profile = probe_profile rd device_id eps"
    by (auto simp: discover_device_def split: sum.splits option.splits)
  with ep(1) obtain j t where "ep = discover_endpoint rd j t knownFeatureIDs"
    using probed_endpoints by metis
  with unprobed_not_matched [OF d'(2)] ep(2) matched \<open>d' = d\<close> show False by metis
qed

text \<open>A device with tariffs and price signals declares TOUT; a reader that answers every read
  of it finds an endpoint but not TOUT.\<close>

definition meter :: device where
  "meter = \<lparr>dv_device_id = ''meter'', dv_vendor_id = 1, dv_product_id = 1,
     dv_serial_number = '''', dv_firmware_version = '''',
     dv_endpoints = [(1, \<lparr>ep_id = 1, ep_type = 1, ep_label = '''', ep_features =
       [(7, feature_with 7 [(2, AString ''EUR'')] [1]), (8, feature_with 8 [] [1, 4])]\<rparr>)]\<rparr>"

definition meter_reader :: "string device_reader" where
  "meter_reader i f attrs =
     (if f = 1 then Inr [(DeviceInfoAttrEndpoints, ASlice [AMap [(AU64 1, AU64 1), (AU64 2, AU64 1)]])]
      else if f = 7 \<or> f = 8 then Inr [(AttrIDAttributeList, ASlice [AU64 1])]
      else Inl ''NOT_FOUND'')"

theorem probing_misses_planning_use_cases_witness:
  "10 \<in> set (map ucl_id (evaluate_device meter Registry)) \<and>
   (\<exists>profile. discover_device meter_reader ''meter'' = Inr profile \<and>
      map fst (dp_endpoints profile) = [1] \<and>
      \<not> has_use_case (match_all profile Registry) ''TOUT'')"
proof -
  have "10 \<in> set (map ucl_id (evaluate_device meter Registry))" by code_simp
  moreover define profile where "profile = probe_profile meter_reader ''meter'' [(1, ''GRID_CONNECTION'')]"
  have "discover_device meter_reader ''meter'' = Inr profile"
    unfolding profile_def by code_simp
  moreover have "map fst (dp_endpoints profile) = [1]" unfolding profile_def by code_simp
  ultimately show ?thesis
    using probing_misses_planning_use_cases [of meter_reader "''meter''" profile "''TOUT''"] by simp
qed

end
