(* ===== verification/SpecManifest.thy ===== *)
theory SpecManifest
  imports UseCase
begin

text \<open>
  The manifest of a protocol version (\<open>pkg/version/spec.go\<close>): what a device of that version must
  have, the check of a device against it, and the resolution of the names in a use case
  definition to the ids of the manifest (\<open>pkg/usecase/resolve.go\<close>). The YAML files are read by
  a library; the function that loads the manifest of a version is an argument.
\<close>

section \<open>Manifests\<close>

record attr_def =
  ad_id :: u16
  ad_name :: string

record cmd_def =
  cd_id :: u8
  cd_name :: string

record attribute_spec =
  as_mandatory :: "attr_def list"
  as_optional :: "attr_def list"

record command_spec =
  cs_mandatory :: "cmd_def list"
  cs_optional :: "cmd_def list"

record feature_spec =
  fs_id :: u8
  fs_revision :: u16
  fs_mandatory :: bool
  fs_attributes :: attribute_spec
  fs_commands :: command_spec

record spec_manifest =
  sm_version :: string
  sm_description :: string
  sm_features :: "(string, feature_spec) gomap"

text \<open>\<open>sort.Strings\<close> orders strings by their bytes.\<close>

fun string_le :: "string \<Rightarrow> string \<Rightarrow> bool" where
  "string_le [] _ = True"
| "string_le (_ # _) [] = False"
| "string_le (c # cs) (d # ds) =
     (let m = (of_char c :: nat); n = of_char d in m < n \<or> m = n \<and> string_le cs ds)"

fun string_insert :: "string \<Rightarrow> string list \<Rightarrow> string list" where
  "string_insert s [] = [s]"
| "string_insert s (t # ts) = (if string_le s t then s # t # ts else t # string_insert s ts)"

definition sort_strings :: "string list \<Rightarrow> string list" where
  "sort_strings ss = foldr string_insert ss []"

definition mandatory_features :: "spec_manifest \<Rightarrow> string list" where
  "mandatory_features m = sort_strings (map fst (filter (\<lambda>(n, f). fs_mandatory f) (sm_features m)))"

definition feature_by_id :: "u8 \<Rightarrow> spec_manifest \<Rightarrow> (string \<times> feature_spec) option" where
  "feature_by_id i m = find (\<lambda>(n, f). fs_id f = i) (sm_features m)"

section \<open>Validation of a device\<close>

record feature_capabilities =
  fc_revision :: u16
  fc_attributes :: "u16 list"
  fc_commands :: "u8 list"

record device_capabilities =
  dc_spec_version :: string
  dc_features :: "(string, feature_capabilities) gomap"

record validation_result =
  vr_valid :: bool
  vr_errors :: "string list"
  vr_warnings :: "string list"

abbreviation dec :: "'a::len word \<Rightarrow> string" where
  "dec w \<equiv> num_string 10 (unat w)"

definition feature_errors :: "string \<Rightarrow> feature_spec \<Rightarrow> feature_capabilities \<Rightarrow> string list" where
  "feature_errors n fs fc =
     map (\<lambda>a. ''feature '' @ n @ '' missing mandatory attribute '' @ ad_name a @ '' (ID '' @
              dec (ad_id a) @ '')'')
       (filter (\<lambda>a. ad_id a \<notin> set (fc_attributes fc)) (as_mandatory (fs_attributes fs))) @
     map (\<lambda>c. ''feature '' @ n @ '' missing mandatory command '' @ cd_name c @ '' (ID '' @
              dec (cd_id c) @ '')'')
       (filter (\<lambda>c. cd_id c \<notin> set (fc_commands fc)) (cs_mandatory (fs_commands fs)))"

definition validate_feature ::
  "device_capabilities \<Rightarrow> validation_result \<Rightarrow> string \<times> feature_spec \<Rightarrow> validation_result" where
  "validate_feature dev = (\<lambda>r (n, fs).
     case gm_get (dc_features dev) n of
       None \<Rightarrow>
         if fs_mandatory fs
         then r\<lparr>vr_errors := vr_errors r @ [''mandatory feature '' @ n @ '' missing'']\<rparr>
         else r
     | Some fc \<Rightarrow>
         let r1 = (if fc_revision fc \<noteq> fs_revision fs
                   then r\<lparr>vr_warnings := vr_warnings r @
                     [''feature '' @ n @ '' revision mismatch: device has '' @ dec (fc_revision fc) @
                      '', spec expects '' @ dec (fs_revision fs)]\<rparr>
                   else r)
         in r1\<lparr>vr_errors := vr_errors r1 @ feature_errors n fs fc\<rparr>)"

definition validate_device :: "spec_manifest \<Rightarrow> device_capabilities \<Rightarrow> validation_result" where
  "validate_device m dev =
     (let r = foldl (validate_feature dev) \<lparr>vr_valid = False, vr_errors = [], vr_warnings = []\<rparr>
                (sm_features m)
      in r\<lparr>vr_valid := (vr_errors r = [])\<rparr>)"

text \<open>What a manifest asks of one of its features.\<close>

definition feature_satisfied :: "device_capabilities \<Rightarrow> string \<times> feature_spec \<Rightarrow> bool" where
  "feature_satisfied dev = (\<lambda>(n, fs).
     case gm_get (dc_features dev) n of
       None \<Rightarrow> \<not> fs_mandatory fs
     | Some fc \<Rightarrow>
         ad_id ` set (as_mandatory (fs_attributes fs)) \<subseteq> set (fc_attributes fc) \<and>
         cd_id ` set (cs_mandatory (fs_commands fs)) \<subseteq> set (fc_commands fc))"

definition revision_differs :: "device_capabilities \<Rightarrow> string \<times> feature_spec \<Rightarrow> bool" where
  "revision_differs dev = (\<lambda>(n, fs).
     case gm_get (dc_features dev) n of
       None \<Rightarrow> False
     | Some fc \<Rightarrow> fc_revision fc \<noteq> fs_revision fs)"

lemma feature_errors_none:
  "feature_errors n fs fc = [] \<longleftrightarrow>
     ad_id ` set (as_mandatory (fs_attributes fs)) \<subseteq> set (fc_attributes fc) \<and>
     cd_id ` set (cs_mandatory (fs_commands fs)) \<subseteq> set (fc_commands fc)"
  by (auto simp: feature_errors_def filter_empty_conv)

lemma validate_feature_errors:
  "vr_errors (validate_feature dev r e) = [] \<longleftrightarrow> vr_errors r = [] \<and> feature_satisfied dev e"
  by (cases e)
    (auto simp: validate_feature_def feature_satisfied_def Let_def feature_errors_none
       split: option.splits)

lemma validate_feature_warnings:
  "vr_warnings (validate_feature dev r e) = [] \<longleftrightarrow> vr_warnings r = [] \<and> \<not> revision_differs dev e"
  by (cases e) (auto simp: validate_feature_def revision_differs_def Let_def split: option.splits)

lemma validate_fold_errors:
  "vr_errors (foldl (validate_feature dev) r es) = [] \<longleftrightarrow>
     vr_errors r = [] \<and> list_all (feature_satisfied dev) es"
  by (induction es arbitrary: r) (auto simp: validate_feature_errors)

lemma validate_fold_warnings:
  "vr_warnings (foldl (validate_feature dev) r es) = [] \<longleftrightarrow>
     vr_warnings r = [] \<and> \<not> list_ex (revision_differs dev) es"
  by (induction es arbitrary: r) (auto simp: validate_feature_warnings)

text \<open>A device is valid for a manifest exactly when it has every mandatory feature, and of
  every feature it has all mandatory attributes and commands; other revisions of a feature
  only give warnings. The order of the map of features is irrelevant.\<close>

theorem valid_devices:
  "vr_valid (validate_device m dev) \<longleftrightarrow> (\<forall>e\<in>set (sm_features m). feature_satisfied dev e)"
  "vr_valid (validate_device m dev) \<longleftrightarrow> vr_errors (validate_device m dev) = []"
  "vr_warnings (validate_device m dev) = [] \<longleftrightarrow>
     (\<forall>e\<in>set (sm_features m). \<not> revision_differs dev e)"
  by (auto simp: validate_device_def Let_def validate_fold_errors validate_fold_warnings
      list_all_iff list_ex_iff)

section \<open>Resolution of use case definitions\<close>

record raw_attr_req =
  rar_name :: string
  rar_required_value :: "bool option"

record raw_feature_req =
  rfr_feature :: string
  rfr_required :: bool
  rfr_attributes :: "raw_attr_req list"
  rfr_commands :: "string list"
  rfr_subscribe :: string

record raw_scenario_def =
  rsd_bit :: u8
  rsd_name :: string
  rsd_description :: string
  rsd_requires :: "string list"
  rsd_requires_any :: "string list"
  rsd_endpoint_types :: "string list"
  rsd_features :: "raw_feature_req list"

record raw_use_case_def =
  rud_name :: string
  rud_id :: u16
  rud_full_name :: string
  rud_spec_version :: string
  rud_major :: u8
  rud_minor :: u8
  rud_description :: string
  rud_endpoint_types :: "string list"
  rud_scenarios :: "raw_scenario_def list"
  rud_features :: "raw_feature_req list"
  rud_commands :: "string list"

text \<open>The error with the names that the callers add in front.\<close>

datatype 'e resolve_error =
    LoadingSpec string 'e
  | UnknownFeature string
  | UnknownAttribute string string
  | UnknownCommand string string
  | InvalidSubscribe string string
  | InScenario string string "'e resolve_error"
  | InUseCase string "'e resolve_error"

definition build_attr_name_map :: "feature_spec \<Rightarrow> (string, u16) gomap" where
  "build_attr_name_map fs =
     foldl (\<lambda>m a. gm_put (ad_name a) (ad_id a) m) []
       (as_mandatory (fs_attributes fs) @ as_optional (fs_attributes fs))"

definition build_cmd_name_map :: "feature_spec \<Rightarrow> (string, u8) gomap" where
  "build_cmd_name_map fs =
     foldl (\<lambda>m c. gm_put (cd_name c) (cd_id c) m) []
       (cs_mandatory (fs_commands fs) @ cs_optional (fs_commands fs))"

text \<open>A loop that appends the converted elements and returns at the first error.\<close>

fun traverse :: "('a \<Rightarrow> 'e + 'b) \<Rightarrow> 'a list \<Rightarrow> 'e + 'b list" where
  "traverse f [] = Inr []"
| "traverse f (x # xs) =
     (case f x of
        Inl e \<Rightarrow> Inl e
      | Inr y \<Rightarrow> (case traverse f xs of Inl e \<Rightarrow> Inl e | Inr ys \<Rightarrow> Inr (y # ys)))"

definition resolve_attribute ::
  "string \<Rightarrow> (string, u16) gomap \<Rightarrow> raw_attr_req \<Rightarrow> 'e resolve_error + attribute_requirement" where
  "resolve_attribute feat ids ra =
     (case gm_get ids (rar_name ra) of
        None \<Rightarrow> Inl (UnknownAttribute feat (rar_name ra))
      | Some i \<Rightarrow> Inr \<lparr>arq_name = rar_name ra, arq_attr_id = i,
                       arq_required_value = rar_required_value ra\<rparr>)"

definition resolve_command ::
  "string \<Rightarrow> (string, u8) gomap \<Rightarrow> string \<Rightarrow> 'e resolve_error + command_requirement" where
  "resolve_command feat ids n =
     (case gm_get ids n of
        None \<Rightarrow> Inl (UnknownCommand feat n)
      | Some i \<Rightarrow> Inr \<lparr>crq_name = n, crq_command_id = i\<rparr>)"

definition resolve_feature_req ::
  "spec_manifest \<Rightarrow> raw_feature_req \<Rightarrow> 'e resolve_error + feature_requirement" where
  "resolve_feature_req m rf =
     (case gm_get (sm_features m) (rfr_feature rf) of
        None \<Rightarrow> Inl (UnknownFeature (rfr_feature rf))
      | Some fs \<Rightarrow>
          (case traverse (resolve_attribute (rfr_feature rf) (build_attr_name_map fs))
                  (rfr_attributes rf) of
             Inl e \<Rightarrow> Inl e
           | Inr attrs \<Rightarrow>
               (case traverse (resolve_command (rfr_feature rf) (build_cmd_name_map fs))
                       (rfr_commands rf) of
                  Inl e \<Rightarrow> Inl e
                | Inr cmds \<Rightarrow>
                    if rfr_subscribe rf = ''all'' \<or> rfr_subscribe rf = ''''
                    then Inr \<lparr>frq_feature_name = rfr_feature rf, frq_feature_id = fs_id fs,
                              frq_required = rfr_required rf, frq_attributes = attrs,
                              frq_commands = cmds,
                              frq_subscribe_all = (rfr_subscribe rf = ''all'')\<rparr>
                    else Inl (InvalidSubscribe (rfr_feature rf) (rfr_subscribe rf)))))"

definition wrap_error :: "('e \<Rightarrow> 'f) \<Rightarrow> 'e + 'a \<Rightarrow> 'f + 'a" where
  "wrap_error w r = (case r of Inl e \<Rightarrow> Inl (w e) | Inr x \<Rightarrow> Inr x)"

definition resolve_scenario ::
  "string \<Rightarrow> spec_manifest \<Rightarrow> raw_scenario_def \<Rightarrow> 'e resolve_error + scenario_def" where
  "resolve_scenario uc m rs =
     (case wrap_error (InScenario uc (rsd_name rs)) (traverse (resolve_feature_req m) (rsd_features rs)) of
        Inl e \<Rightarrow> Inl e
      | Inr fs \<Rightarrow>
          Inr \<lparr>sd_bit = rsd_bit rs, sd_name = rsd_name rs, sd_description = rsd_description rs,
               sd_requires = rsd_requires rs, sd_requires_any = rsd_requires_any rs,
               sd_endpoint_types = rsd_endpoint_types rs, sd_features = fs\<rparr>)"

definition resolve_use_case_def ::
  "string \<Rightarrow> (string \<Rightarrow> 'e + spec_manifest) \<Rightarrow> raw_use_case_def \<Rightarrow> 'e resolve_error + use_case_def" where
  "resolve_use_case_def current load_spec raw =
     (let ver = (if rud_spec_version raw = '''' then current else rud_spec_version raw) in
      case load_spec ver of
        Inl e \<Rightarrow> Inl (LoadingSpec ver e)
      | Inr m \<Rightarrow>
          (case
             (if rud_scenarios raw \<noteq> []
              then traverse (resolve_scenario (rud_name raw) m) (rud_scenarios raw)
              else if rud_features raw \<noteq> []
              then (case wrap_error (InUseCase (rud_name raw))
                           (traverse (resolve_feature_req m) (rud_features raw)) of
                      Inl e \<Rightarrow> Inl e
                    | Inr fs \<Rightarrow>
                        Inr [\<lparr>sd_bit = 0, sd_name = ''BASE'', sd_description = '''',
                              sd_requires = [], sd_requires_any = [], sd_endpoint_types = [],
                              sd_features = fs\<rparr>])
              else Inr []) of
             Inl e \<Rightarrow> Inl e
           | Inr ss \<Rightarrow>
               Inr \<lparr>ucd_name = rud_name raw, ucd_id = rud_id raw,
                    ucd_full_name = rud_full_name raw, ucd_description = rud_description raw,
                    ucd_spec_version = ver, ucd_major = rud_major raw, ucd_minor = rud_minor raw,
                    ucd_endpoint_types = rud_endpoint_types raw, ucd_scenarios = ss,
                    ucd_commands = rud_commands raw\<rparr>))"

lemma traverse_total: "(\<exists>ys. traverse f xs = Inr ys) \<longleftrightarrow> (\<forall>x\<in>set xs. \<exists>y. f x = Inr y)"
  by (induction xs) (auto split: sum.splits)

lemma wrap_error_Inr [simp]: "wrap_error w r = Inr x \<longleftrightarrow> r = Inr x"
  by (auto simp: wrap_error_def split: sum.splits)

lemma put_fold_source:
  "gm_get (foldl (\<lambda>m a. gm_put (key a) (val a) m) m0 xs) k = Some v \<Longrightarrow>
     gm_get m0 k = Some v \<or> (\<exists>a\<in>set xs. key a = k \<and> val a = v)"
proof (induction xs arbitrary: m0)
  case Nil
  then show ?case by simp
next
  case (Cons x xs)
  from Cons.IH [of "gm_put (key x) (val x) m0"] Cons.prems show ?case
    by (auto simp: gomap_simps split: if_splits)
qed

lemma put_fold_dom:
  "dom (gm_get (foldl (\<lambda>m a. gm_put (key a) (val a) m) m0 xs)) = dom (gm_get m0) \<union> key ` set xs"
  by (induction xs arbitrary: m0) (auto simp: gomap_simps)

text \<open>The names a feature requirement uses exist in the manifest.\<close>

definition all_attrs :: "feature_spec \<Rightarrow> attr_def list" where
  "all_attrs fs = as_mandatory (fs_attributes fs) @ as_optional (fs_attributes fs)"

definition all_cmds :: "feature_spec \<Rightarrow> cmd_def list" where
  "all_cmds fs = cs_mandatory (fs_commands fs) @ cs_optional (fs_commands fs)"

definition feature_req_known :: "spec_manifest \<Rightarrow> raw_feature_req \<Rightarrow> bool" where
  "feature_req_known m rf =
     (case gm_get (sm_features m) (rfr_feature rf) of
        None \<Rightarrow> False
      | Some fs \<Rightarrow>
          list_all (\<lambda>a. rar_name a \<in> ad_name ` set (all_attrs fs)) (rfr_attributes rf) \<and>
          list_all (\<lambda>c. c \<in> cd_name ` set (all_cmds fs)) (rfr_commands rf) \<and>
          rfr_subscribe rf \<in> {''all'', ''''})"

text \<open>A requirement whose ids are those the manifest gives to its names.\<close>

definition feature_req_resolved :: "spec_manifest \<Rightarrow> feature_requirement \<Rightarrow> bool" where
  "feature_req_resolved m f =
     (case gm_get (sm_features m) (frq_feature_name f) of
        None \<Rightarrow> False
      | Some fs \<Rightarrow>
          frq_feature_id f = fs_id fs \<and>
          list_all (\<lambda>a. \<lparr>ad_id = arq_attr_id a, ad_name = arq_name a\<rparr> \<in> set (all_attrs fs))
            (frq_attributes f) \<and>
          list_all (\<lambda>c. \<lparr>cd_id = crq_command_id c, cd_name = crq_name c\<rparr> \<in> set (all_cmds fs))
            (frq_commands f))"

lemma resolve_attribute_ok:
  "(\<exists>a. resolve_attribute n (build_attr_name_map fs) ra = Inr a) \<longleftrightarrow>
     rar_name ra \<in> ad_name ` set (all_attrs fs)"
  using put_fold_dom [of ad_name ad_id "[]" "all_attrs fs"]
  by (auto simp: resolve_attribute_def build_attr_name_map_def all_attrs_def domIff
      split: option.splits)

lemma resolve_command_ok:
  "(\<exists>c. resolve_command n (build_cmd_name_map fs) rc = Inr c) \<longleftrightarrow>
     rc \<in> cd_name ` set (all_cmds fs)"
  using put_fold_dom [of cd_name cd_id "[]" "all_cmds fs"]
  by (auto simp: resolve_command_def build_cmd_name_map_def all_cmds_def domIff
      split: option.splits)

lemma attr_name_lookup:
  assumes "gm_get (build_attr_name_map fs) n = Some i"
  shows "\<lparr>ad_id = i, ad_name = n\<rparr> \<in> set (all_attrs fs)"
proof -
  from put_fold_source [of ad_name ad_id "[]" "all_attrs fs" n i] assms
  obtain a where "a \<in> set (all_attrs fs)" "ad_name a = n" "ad_id a = i"
    by (auto simp: build_attr_name_map_def all_attrs_def)
  then show ?thesis by - (cases a, simp)
qed

lemma cmd_name_lookup:
  assumes "gm_get (build_cmd_name_map fs) n = Some i"
  shows "\<lparr>cd_id = i, cd_name = n\<rparr> \<in> set (all_cmds fs)"
proof -
  from put_fold_source [of cd_name cd_id "[]" "all_cmds fs" n i] assms
  obtain a where "a \<in> set (all_cmds fs)" "cd_name a = n" "cd_id a = i"
    by (auto simp: build_cmd_name_map_def all_cmds_def)
  then show ?thesis by - (cases a, simp)
qed

lemma resolve_attribute_sound:
  "resolve_attribute n (build_attr_name_map fs) ra = Inr a \<Longrightarrow>
     \<lparr>ad_id = arq_attr_id a, ad_name = arq_name a\<rparr> \<in> set (all_attrs fs)"
  by (auto simp: resolve_attribute_def attr_name_lookup split: option.splits)

lemma resolve_command_sound:
  "resolve_command n (build_cmd_name_map fs) rc = Inr c \<Longrightarrow>
     \<lparr>cd_id = crq_command_id c, cd_name = crq_name c\<rparr> \<in> set (all_cmds fs)"
  by (auto simp: resolve_command_def cmd_name_lookup split: option.splits)

lemma traverse_sound:
  "traverse f xs = Inr ys \<Longrightarrow> (\<And>x y. f x = Inr y \<Longrightarrow> P y) \<Longrightarrow> list_all P ys"
  by (induction xs arbitrary: ys) (auto split: sum.splits)

lemma resolve_feature_ok:
  "(\<exists>f. resolve_feature_req m rf = (Inr f :: 'e resolve_error + feature_requirement)) \<longleftrightarrow>
     feature_req_known m rf"
proof (cases "gm_get (sm_features m) (rfr_feature rf)")
  case None
  then show ?thesis by (simp add: resolve_feature_req_def feature_req_known_def)
next
  case (Some fs)
  let ?as = "traverse (resolve_attribute (rfr_feature rf) (build_attr_name_map fs)) (rfr_attributes rf)
      :: 'e resolve_error + attribute_requirement list"
  let ?cs = "traverse (resolve_command (rfr_feature rf) (build_cmd_name_map fs)) (rfr_commands rf)
      :: 'e resolve_error + command_requirement list"
  have "(\<exists>a. ?as = Inr a) \<longleftrightarrow> list_all (\<lambda>a. rar_name a \<in> ad_name ` set (all_attrs fs)) (rfr_attributes rf)"
    by (simp add: traverse_total resolve_attribute_ok list_all_iff)
  moreover have "(\<exists>c. ?cs = Inr c) \<longleftrightarrow> list_all (\<lambda>c. c \<in> cd_name ` set (all_cmds fs)) (rfr_commands rf)"
    by (simp add: traverse_total resolve_command_ok list_all_iff)
  moreover have "(resolve_feature_req m rf :: 'e resolve_error + feature_requirement) =
      (case ?as of Inl e \<Rightarrow> Inl e | Inr attrs \<Rightarrow> case ?cs of Inl e \<Rightarrow> Inl e | Inr cmds \<Rightarrow>
         if rfr_subscribe rf = ''all'' \<or> rfr_subscribe rf = ''''
         then Inr \<lparr>frq_feature_name = rfr_feature rf, frq_feature_id = fs_id fs,
                   frq_required = rfr_required rf, frq_attributes = attrs, frq_commands = cmds,
                   frq_subscribe_all = (rfr_subscribe rf = ''all'')\<rparr>
         else Inl (InvalidSubscribe (rfr_feature rf) (rfr_subscribe rf)))"
    by (simp add: resolve_feature_req_def Some)
  moreover have "feature_req_known m rf \<longleftrightarrow>
      (\<exists>a. ?as = Inr a) \<and> (\<exists>c. ?cs = Inr c) \<and> rfr_subscribe rf \<in> {''all'', ''''}"
    unfolding calculation(1,2) by (simp add: feature_req_known_def Some)
  ultimately show ?thesis
    by - (cases ?as; cases ?cs; simp)
qed

lemma resolve_feature_sound:
  assumes "resolve_feature_req m rf = Inr f"
  shows "feature_req_resolved m f"
proof -
  from assms obtain fs attrs cmds where
    fs: "gm_get (sm_features m) (rfr_feature rf) = Some fs"
    and attrs: "traverse (resolve_attribute (rfr_feature rf) (build_attr_name_map fs))
      (rfr_attributes rf) = (Inr attrs :: 'a resolve_error + _)"
    and cmds: "traverse (resolve_command (rfr_feature rf) (build_cmd_name_map fs))
      (rfr_commands rf) = (Inr cmds :: 'a resolve_error + _)"
    and f: "frq_feature_name f = rfr_feature rf" "frq_feature_id f = fs_id fs"
      "frq_attributes f = attrs" "frq_commands f = cmds"
    by (auto simp: resolve_feature_req_def split: option.splits sum.splits if_splits)
  show ?thesis
    unfolding feature_req_resolved_def f fs
    by (simp, intro conjI; rule traverse_sound [OF attrs] traverse_sound [OF cmds];
        erule resolve_attribute_sound resolve_command_sound)
qed

text \<open>The definition of a use case resolves exactly when the manifest of its version (the
  current one when it names none) has all features, attributes and commands it names; then
  every requirement has the ids that the manifest gives to its names.\<close>

definition raw_requirements :: "raw_use_case_def \<Rightarrow> raw_feature_req list" where
  "raw_requirements raw =
     (if rud_scenarios raw \<noteq> [] then concat (map rsd_features (rud_scenarios raw))
      else rud_features raw)"

lemma resolve_scenario_ok:
  "(\<exists>s. resolve_scenario uc m rs = (Inr s :: 'e resolve_error + scenario_def)) \<longleftrightarrow>
     (\<forall>rf\<in>set (rsd_features rs). feature_req_known m rf)"
proof -
  let ?t = "traverse (resolve_feature_req m) (rsd_features rs)
    :: 'e resolve_error + feature_requirement list"
  have "(\<exists>fs. ?t = Inr fs) \<longleftrightarrow> (\<forall>rf\<in>set (rsd_features rs). feature_req_known m rf)"
    by (simp add: traverse_total resolve_feature_ok)
  then show ?thesis
    by - (cases ?t; simp add: resolve_scenario_def wrap_error_def)
qed

lemma resolve_scenario_sound:
  "resolve_scenario uc m rs = Inr s \<Longrightarrow> list_all (feature_req_resolved m) (sd_features s)"
  by (auto simp: resolve_scenario_def intro: traverse_sound resolve_feature_sound
      split: sum.splits)


definition tiny_manifest :: spec_manifest where
  "tiny_manifest = \<lparr>sm_version = ''1.0'', sm_description = '''', sm_features =
     [(''Measurement'', \<lparr>fs_id = 4, fs_revision = 1, fs_mandatory = False,
        fs_attributes = \<lparr>as_mandatory = [], as_optional = [\<lparr>ad_id = 1, ad_name = ''acActivePower''\<rparr>]\<rparr>,
        fs_commands = \<lparr>cs_mandatory = [], cs_optional = []\<rparr>\<rparr>)]\<rparr>"

definition tiny_raw :: raw_use_case_def where
  "tiny_raw = \<lparr>rud_name = ''M'', rud_id = 1, rud_full_name = '''', rud_spec_version = '''',
     rud_major = 1, rud_minor = 0, rud_description = '''', rud_endpoint_types = [],
     rud_scenarios = [], rud_features = [\<lparr>rfr_feature = ''Measurement'', rfr_required = True,
       rfr_attributes = [\<lparr>rar_name = ''acActivePower'', rar_required_value = None\<rparr>],
       rfr_commands = [], rfr_subscribe = ''all''\<rparr>], rud_commands = []\<rparr>"


end
