(* ===== verification/DeviceService.thy ===== *)
theory DeviceService
  imports LimitResolver Failsafe DeviceModel
begin

text \<open>
  The zones of a device service: registration, connection, loss, failsafe and removal of
  zones (\<open>pkg/service/device_service_zone.go\<close>, \<open>device_service_failsafe.go\<close>), what survives a
  restart (\<open>device_service_persistence.go\<close>, \<open>pkg/persistence/state.go\<close>), the gate for
  commissioning with its epochs, and the admission of commissioning connections
  (\<open>device_service_commissioning.go\<close>, \<open>pase_tracker.go\<close>).

  One step is one section under the lock \<open>s.mu\<close> or \<open>connectionMu\<close>, with the calls that follow it
  when they depend on nothing else. Failsafe timers are objects: the map of the service holds
  their identity, and an object that was replaced keeps its runtime timers. Their callbacks wait
  for the lock before they run. Outside are the certificate store (the key ids of the zone
  certificate authorities are an argument), the listener and mDNS (whether they succeed is an
  argument) and the sockets.
\<close>

section \<open>State\<close>

datatype service_state = SvcIdle | SvcStarting | SvcRunning | SvcStopping | SvcStopped

record connected_zone =
  cz_id :: string
  cz_type :: zone_type
  cz_priority :: u8
  cz_connected :: bool
  cz_last_seen :: time
  cz_failsafe_active :: bool

datatype device_event =
    EvConnected string
  | EvDisconnected string
  | EvZoneRemoved string
  | EvZoneRestored string
  | EvFailsafeTriggered string
  | EvFailsafeCleared string
  | EvValueCleared string
  | EvCommissioningOpened
  | EvCommissioningClosed string
  | EvCommissioned string

datatype service_error =
    ErrNotStarted
  | ErrDeviceNotFound
  | ErrStartListener
  | ErrAdvertise
  | ErrDuration duration_error

text \<open>Failed attempts, and the delays of the four tiers.\<close>

record pase_tracker =
  pt_failed_attempts :: nat
  pt_tiers :: "duration \<times> duration \<times> duration \<times> duration"

record device_config =
  dcf_max_zones :: int
  dcf_failsafe_timeout :: duration
  dcf_test_enable_key :: string
  dcf_connection_cooldown :: duration
  dcf_handshake_timeout :: duration
  dcf_listen_pairing :: bool

record device_service =
  ds_config :: device_config
  ds_state :: service_state
  ds_zones :: "(string, connected_zone) gomap"
  ds_sessions :: "(string, nat) gomap"
  ds_closed_sessions :: "nat list"
  ds_failsafe_timers :: "(string, nat) gomap"
  ds_timer_objects :: "(string \<times> failsafe) list"
  ds_callbacks :: "string list"
  ds_durations :: "any dur_manager"
  ds_zone_index :: "(string, u8) gomap"
  ds_next_index :: u8
  ds_resolver :: "limit_resolver option"
  ds_listening :: bool
  ds_open :: bool
  ds_epoch :: u64
  ds_auto_reentry :: bool
  ds_holdoff :: duration
  ds_blocked_until :: time
  ds_reentry_timer :: "nat option"
  ds_reentry_calls :: nat
  ds_rt :: "unit runtime"
  ds_pairing_active :: bool
  ds_browser :: bool
  ds_conn_active :: bool
  ds_generation :: u64
  ds_last_attempt :: time
  ds_pase :: "pase_tracker option"
  ds_events :: "device_event list"

text \<open>Whether the listener starts and whether mDNS accepts the commands of a call.\<close>

record surroundings =
  su_listen_ok :: bool
  su_advertise_ok :: bool

definition defaultDisconnectReentryHoldoff :: duration where
  "defaultDisconnectReentryHoldoff = 3 * second"

definition new_device_service :: "device_config \<Rightarrow> pase_tracker option \<Rightarrow> bool \<Rightarrow> device_service" where
  "new_device_service cfg pt browser =
     \<lparr>ds_config = cfg, ds_state = SvcIdle, ds_zones = [], ds_sessions = [], ds_closed_sessions = [],
      ds_failsafe_timers = [], ds_timer_objects = [], ds_callbacks = [],
      ds_durations = dm_set_on_expiry True new_dur_manager, ds_zone_index = [], ds_next_index = 0,
      ds_resolver = None, ds_listening = False, ds_open = False, ds_epoch = 0,
      ds_auto_reentry = False, ds_holdoff = defaultDisconnectReentryHoldoff,
      ds_blocked_until = zero_time, ds_reentry_timer = None, ds_reentry_calls = 0,
      ds_rt = new_runtime, ds_pairing_active = False, ds_browser = browser,
      ds_conn_active = False, ds_generation = 0, ds_last_attempt = zero_time, ds_pase = pt,
      ds_events = []\<rparr>"

definition emit_event :: "device_event \<Rightarrow> device_service \<Rightarrow> device_service" where
  "emit_event e s = s\<lparr>ds_events := ds_events s @ [e]\<rparr>"

definition is_enable_key_valid :: "device_service \<Rightarrow> bool" where
  "is_enable_key_valid s \<longleftrightarrow>
     dcf_test_enable_key (ds_config s) \<noteq> '''' \<and>
     dcf_test_enable_key (ds_config s) \<noteq> replicate 32 CHR ''0''"

definition non_test_zone_count :: "device_service \<Rightarrow> nat" where
  "non_test_zone_count s = length (filter (\<lambda>(z, cz). cz_type cz \<noteq> ZoneTypeTest) (ds_zones s))"

definition is_zones_full :: "device_service \<Rightarrow> bool" where
  "is_zones_full s \<longleftrightarrow> int (non_test_zone_count s) \<ge> dcf_max_zones (ds_config s)"

definition has_zone_of_type :: "zone_type \<Rightarrow> device_service \<Rightarrow> bool" where
  "has_zone_of_type zt s \<longleftrightarrow> list_ex (\<lambda>(z, cz). cz_type cz = zt) (ds_zones s)"

definition all_disconnected :: "device_service \<Rightarrow> bool" where
  "all_disconnected s \<longleftrightarrow> list_all (\<lambda>(z, cz). \<not> cz_connected cz) (ds_zones s)"

definition connected_zone_count :: "device_service \<Rightarrow> nat" where
  "connected_zone_count s = length (filter (\<lambda>(z, cz). cz_connected cz) (ds_zones s))"

text \<open>The record of a zone is changed through its pointer.\<close>

definition change_zone :: "string \<Rightarrow> (connected_zone \<Rightarrow> connected_zone) \<Rightarrow> device_service \<Rightarrow> device_service" where
  "change_zone z f s =
     (case gm_get (ds_zones s) z of
        None \<Rightarrow> s
      | Some cz \<Rightarrow> s\<lparr>ds_zones := gm_put z (f cz) (ds_zones s)\<rparr>)"

definition change_timer :: "nat \<Rightarrow> (failsafe \<Rightarrow> failsafe) \<Rightarrow> device_service \<Rightarrow> device_service" where
  "change_timer i f s =
     (if i < length (ds_timer_objects s)
      then s\<lparr>ds_timer_objects := (ds_timer_objects s)[i := (fst (ds_timer_objects s ! i),
               f (snd (ds_timer_objects s ! i)))]\<rparr>
      else s)"

definition zone_timer :: "string \<Rightarrow> device_service \<Rightarrow> failsafe option" where
  "zone_timer z s =
     map_option (\<lambda>i. snd (ds_timer_objects s ! i)) (gm_get (ds_failsafe_timers s) z)"

section \<open>Backoff of failed attempts\<close>

definition new_pase_tracker :: "duration \<times> duration \<times> duration \<times> duration \<Rightarrow> pase_tracker" where
  "new_pase_tracker tiers = \<lparr>pt_failed_attempts = 0, pt_tiers = tiers\<rparr>"

definition pase_delay :: "pase_tracker \<Rightarrow> duration" where
  "pase_delay t =
     (let n = pt_failed_attempts t + 1 in
      case pt_tiers t of (d0, d1, d2, d3) \<Rightarrow>
        if n \<le> 3 then d0 else if n \<le> 6 then d1 else if n \<le> 10 then d2 else d3)"

definition record_failure :: "pase_tracker \<Rightarrow> pase_tracker" where
  "record_failure t = t\<lparr>pt_failed_attempts := pt_failed_attempts t + 1\<rparr>"

definition pase_reset :: "pase_tracker \<Rightarrow> pase_tracker" where
  "pase_reset t = t\<lparr>pt_failed_attempts := 0\<rparr>"

definition reset_pase_tracker :: "device_service \<Rightarrow> device_service" where
  "reset_pase_tracker s = s\<lparr>ds_pase := map_option pase_reset (ds_pase s)\<rparr>"

section \<open>The gate for commissioning\<close>

text \<open>\<open>EnterCommissioningMode\<close>: the part under the lock, then the listener and mDNS.\<close>

definition enter_begin :: "device_service \<Rightarrow> device_service" where
  "enter_begin s =
     (let s1 = reset_pase_tracker s
      in s1\<lparr>ds_rt := stop_opt (ds_reentry_timer s1) (ds_rt s1), ds_reentry_timer := None,
            ds_blocked_until := zero_time, ds_open := True, ds_epoch := ds_epoch s1 + 1\<rparr>)"

definition enter_finish :: "surroundings \<Rightarrow> device_service \<Rightarrow> device_service \<times> service_error option" where
  "enter_finish su s =
     (if \<not> ds_listening s \<and> \<not> su_listen_ok su then (s\<lparr>ds_open := False\<rparr>, Some ErrStartListener)
      else
        let s1 = s\<lparr>ds_listening := True\<rparr>
        in if \<not> su_advertise_ok su then (s1\<lparr>ds_open := False\<rparr>, Some ErrAdvertise)
           else (emit_event EvCommissioningOpened s1, None))"

definition enter_commissioning_mode ::
  "surroundings \<Rightarrow> device_service \<Rightarrow> device_service \<times> service_error option" where
  "enter_commissioning_mode su s =
     (if ds_state s \<noteq> SvcRunning then (s, Some ErrNotStarted)
      else enter_finish su (enter_begin s))"

text \<open>Both ways to close the gate end alike: no zones, no listener; then mDNS.\<close>

definition exit_finish :: "surroundings \<Rightarrow> device_service \<Rightarrow> device_service \<times> service_error option" where
  "exit_finish su s =
     (let s1 = (if ds_zones s = [] then s\<lparr>ds_listening := False\<rparr> else s)
      in if \<not> su_advertise_ok su then (s1, Some ErrAdvertise)
         else (emit_event (EvCommissioningClosed ''commissioned'') s1, None))"

definition exit_commissioning_mode ::
  "time \<Rightarrow> surroundings \<Rightarrow> device_service \<Rightarrow> device_service \<times> service_error option" where
  "exit_commissioning_mode now su s =
     exit_finish su ((reset_pase_tracker s)\<lparr>ds_blocked_until := now + ds_holdoff s, ds_open := False\<rparr>)"

definition exit_commissioning_for_epoch ::
  "time \<Rightarrow> surroundings \<Rightarrow> u64 \<Rightarrow> device_service \<Rightarrow> device_service \<times> service_error option" where
  "exit_commissioning_for_epoch now su epoch s =
     (if ds_epoch s \<noteq> epoch then (s, None)
      else exit_finish su
        ((reset_pase_tracker s)\<lparr>ds_open := False, ds_blocked_until := now + ds_holdoff s\<rparr>))"

text \<open>The callback of the discovery manager when the window times out.\<close>

definition commissioning_timeout :: "device_service \<Rightarrow> device_service" where
  "commissioning_timeout s =
     (let s1 = s\<lparr>ds_open := False\<rparr>;
          s2 = (if ds_zones s1 = [] then s1\<lparr>ds_listening := False\<rparr> else s1)
      in emit_event (EvCommissioningClosed ''timeout'') s2)"

text \<open>Commissioning is opened again when the last zone has gone; the caller is not told of an
  error.\<close>

definition schedule_disconnect_reentry :: "time \<Rightarrow> time \<Rightarrow> device_service \<Rightarrow> device_service" where
  "schedule_disconnect_reentry now until s =
     (if until - now \<le> 0 then s\<lparr>ds_reentry_calls := ds_reentry_calls s + 1\<rparr>
      else
        let (i, rt) = after_func now (until - now) () (stop_opt (ds_reentry_timer s) (ds_rt s))
        in s\<lparr>ds_reentry_timer := Some i, ds_rt := rt\<rparr>)"

definition reenter_or_wait :: "time \<Rightarrow> surroundings \<Rightarrow> device_service \<Rightarrow> device_service" where
  "reenter_or_wait now su s =
     (if ds_blocked_until s \<noteq> zero_time \<and> now < ds_blocked_until s
      then schedule_disconnect_reentry now (ds_blocked_until s) s
      else fst (enter_commissioning_mode su s))"

definition try_auto_reenter :: "time \<Rightarrow> surroundings \<Rightarrow> device_service \<Rightarrow> device_service" where
  "try_auto_reenter now su s =
     (let s1 = s\<lparr>ds_reentry_timer := None\<rparr>
      in if \<not> is_enable_key_valid s1 \<or> \<not> all_disconnected s1 then s1
         else reenter_or_wait now su s1)"

section \<open>Pairing requests\<close>

definition start_pairing_listening :: "device_service \<Rightarrow> device_service" where
  "start_pairing_listening s =
     (if ds_pairing_active s then s
      else if int (length (ds_zones s)) \<ge> dcf_max_zones (ds_config s) then s
      else if \<not> ds_browser s then s
      else s\<lparr>ds_pairing_active := True\<rparr>)"

definition stop_pairing_listening :: "device_service \<Rightarrow> device_service" where
  "stop_pairing_listening s = s\<lparr>ds_pairing_active := False\<rparr>"

text \<open>The context of the service exists once it was started.\<close>

definition update_pairing_listening :: "device_service \<Rightarrow> device_service" where
  "update_pairing_listening s =
     (if \<not> dcf_listen_pairing (ds_config s) then s
      else if is_zones_full s \<and> ds_pairing_active s then stop_pairing_listening s
      else if \<not> is_zones_full s \<and> \<not> ds_pairing_active s \<and> ds_state s \<noteq> SvcIdle
      then start_pairing_listening s
      else s)"

definition pairing_request_discovered ::
  "surroundings \<Rightarrow> bool \<Rightarrow> bool \<Rightarrow> device_service \<Rightarrow> device_service" where
  "pairing_request_discovered su same_discriminator window_open s =
     (if \<not> same_discriminator then s
      else if window_open then s
      else if is_zones_full s then s
      else fst (enter_commissioning_mode su s))"

section \<open>Zones come and go\<close>

definition assign_zone_index :: "string \<Rightarrow> device_service \<Rightarrow> device_service" where
  "assign_zone_index z s =
     (if gm_get (ds_zone_index s) z \<noteq> None then s
      else s\<lparr>ds_zone_index := gm_put z (ds_next_index s) (ds_zone_index s),
             ds_next_index := ds_next_index s + 1\<rparr>)"

text \<open>A new timer takes the place of the old one in the map, if the duration is allowed.\<close>

definition create_failsafe_timer :: "time \<Rightarrow> string \<Rightarrow> device_service \<Rightarrow> device_service" where
  "create_failsafe_timer now z s =
     (case fs_set_duration (dcf_failsafe_timeout (ds_config s)) fs_new_timer of
        (t, Some _) \<Rightarrow> s
      | (t, None) \<Rightarrow>
          s\<lparr>ds_timer_objects := ds_timer_objects s @
              [(z, fst (fs_start now (fs_set_callbacks False True False t)))],
            ds_failsafe_timers := gm_put z (length (ds_timer_objects s)) (ds_failsafe_timers s)\<rparr>)"

definition handle_zone_connect ::
  "time \<Rightarrow> string \<Rightarrow> zone_type \<Rightarrow> bool \<Rightarrow> device_service \<Rightarrow> device_service" where
  "handle_zone_connect now z zt online s =
     (if zt = ZoneTypeTest \<and> \<not> is_enable_key_valid s then s
      else
        let s1 = s\<lparr>ds_zones := gm_put z
              \<lparr>cz_id = z, cz_type = zt, cz_priority = zt_priority zt, cz_connected = online,
               cz_last_seen = now, cz_failsafe_active = False\<rparr> (ds_zones s)\<rparr>;
            s2 = create_failsafe_timer now z (assign_zone_index z s1);
            s3 = (if online then emit_event (EvConnected z) s2 else s2)
        in update_pairing_listening s3)"

definition register_zone_awaiting_connection ::
  "time \<Rightarrow> string \<Rightarrow> zone_type \<Rightarrow> device_service \<Rightarrow> device_service" where
  "register_zone_awaiting_connection now z zt s = handle_zone_connect now z zt False s"

definition handle_zone_disconnect ::
  "time \<Rightarrow> surroundings \<Rightarrow> string \<Rightarrow> device_service \<Rightarrow> device_service" where
  "handle_zone_disconnect now su z s =
     (let s1 = emit_event (EvDisconnected z)
            (change_zone z (\<lambda>cz. cz\<lparr>cz_connected := False, cz_last_seen := now\<rparr>) s)
      in if is_enable_key_valid s1 \<and> all_disconnected s1 then reenter_or_wait now su s1 else s1)"

text \<open>Only the session that is still mapped, or any one when the caller names none.\<close>

definition handle_zone_session_close ::
  "time \<Rightarrow> surroundings \<Rightarrow> string \<Rightarrow> nat option \<Rightarrow> device_service \<Rightarrow> device_service" where
  "handle_zone_session_close now su z closing s =
     (case gm_get (ds_sessions s) z of
        None \<Rightarrow> s
      | Some sid \<Rightarrow>
          if closing \<noteq> None \<and> closing \<noteq> Some sid then s
          else handle_zone_disconnect now su z
                 (s\<lparr>ds_sessions := gm_del z (ds_sessions s),
                    ds_closed_sessions := ds_closed_sessions s @ [sid]\<rparr>))"

section \<open>The operational connection of a controller\<close>

text \<open>The peer is known by the authority key id of its certificate, an empty one if it has
  none; \<open>ca\<close> gives the key id of the authority of a zone.\<close>

definition match_zone_by_peer_cert ::
  "(string \<Rightarrow> u8 list option) \<Rightarrow> bool \<Rightarrow> u8 list \<Rightarrow> device_service \<Rightarrow> string option" where
  "match_zone_by_peer_cert ca online peer s =
     (if peer = [] then None
      else map_option fst (find (\<lambda>(z, cz). cz_connected cz = online \<and> ca z = Some peer) (ds_zones s)))"

text \<open>The zone a connection is for, and whether it replaces the session of a zone that counts
  as connected.\<close>

definition identify_zone ::
  "(string \<Rightarrow> u8 list option) \<Rightarrow> u8 list list \<Rightarrow> device_service \<Rightarrow> (string \<times> bool) option" where
  "identify_zone ca peers s =
     (case (case peers of [] \<Rightarrow> None | p # ps \<Rightarrow> match_zone_by_peer_cert ca False p s) of
        Some z \<Rightarrow> Some (z, False)
      | None \<Rightarrow>
          (case find (\<lambda>(z, cz). \<not> cz_connected cz) (ds_zones s) of
             Some (z, cz) \<Rightarrow> Some (z, False)
           | None \<Rightarrow>
               (case (case peers of [] \<Rightarrow> None | p # ps \<Rightarrow> match_zone_by_peer_cert ca True p s) of
                  Some z \<Rightarrow> Some (z, True)
                | None \<Rightarrow> None)))"

definition mark_zone_connected :: "time \<Rightarrow> string \<Rightarrow> device_service \<Rightarrow> device_service" where
  "mark_zone_connected now z s =
     (let s1 = change_zone z (\<lambda>cz. cz\<lparr>cz_connected := True, cz_last_seen := now\<rparr>) s
      in case gm_get (ds_failsafe_timers s1) z of
           None \<Rightarrow> s1
         | Some i \<Rightarrow> change_timer i (\<lambda>t. fst (fs_start now (fst (fs_reset t)))) s1)"

definition consume_auto_reentry :: "surroundings \<Rightarrow> device_service \<Rightarrow> device_service" where
  "consume_auto_reentry su s =
     (if \<not> ds_auto_reentry s then s
      else
        let s1 = s\<lparr>ds_auto_reentry := False\<rparr>
        in if is_zones_full s1 then s1 else fst (enter_commissioning_mode su s1))"

text \<open>\<open>handleOperationalConnection\<close> up to the message loop, with the identity of the new
  session; the zone, or \<open>None\<close> when the connection is closed at once.\<close>

definition handle_operational_connection ::
  "time \<Rightarrow> surroundings \<Rightarrow> (string \<Rightarrow> u8 list option) \<Rightarrow> u8 list list \<Rightarrow> nat \<Rightarrow> device_service \<Rightarrow>
     device_service \<times> string option" where
  "handle_operational_connection now su ca peers sid s =
     (case identify_zone ca peers s of
        None \<Rightarrow> (s, None)
      | Some (z, replace) \<Rightarrow>
          let s1 = (if replace then handle_zone_session_close now su z None s else s);
              s2 = mark_zone_connected now z s1;
              s3 = s2\<lparr>ds_sessions := gm_put z sid (ds_sessions s2)\<rparr>
          in (consume_auto_reentry su (emit_event (EvConnected z) s3), Some z))"

section \<open>Failsafe and durations\<close>

text \<open>A zone that is no longer in the index map reads as index 0.\<close>

definition handle_failsafe :: "string \<Rightarrow> device_service \<Rightarrow> device_service" where
  "handle_failsafe z s =
     (let s1 = change_zone z (\<lambda>cz. cz\<lparr>cz_failsafe_active := True\<rparr>) s;
          idx = (case gm_get (ds_zone_index s1) z of None \<Rightarrow> 0 | Some i \<Rightarrow> i)
      in emit_event (EvFailsafeTriggered z)
           (s1\<lparr>ds_durations := dm_cancel_zone_timers idx (ds_durations s1)\<rparr>))"

definition handle_duration_expiry :: "u8 \<Rightarrow> device_service \<Rightarrow> device_service" where
  "handle_duration_expiry idx s =
     emit_event (EvValueCleared
       (case find (\<lambda>(z, i). i = idx) (ds_zone_index s) of None \<Rightarrow> '''' | Some (z, i) \<Rightarrow> z)) s"

definition refresh_failsafe ::
  "time \<Rightarrow> string \<Rightarrow> device_service \<Rightarrow> device_service \<times> service_error option" where
  "refresh_failsafe now z s =
     (case (gm_get (ds_zones s) z, gm_get (ds_failsafe_timers s) z) of
        (Some cz, Some i) \<Rightarrow>
          (let s1 = (if cz_failsafe_active cz
                     then emit_event (EvFailsafeCleared z)
                       (change_timer i (\<lambda>t. fst (fs_stop now t))
                         (change_zone z (\<lambda>cz. cz\<lparr>cz_failsafe_active := False\<rparr>) s))
                     else s)
           in (change_timer i (\<lambda>t. fst (fs_start now (fst (fs_reset t)))) s1, None))
      | _ \<Rightarrow> (s, Some ErrDeviceNotFound))"

definition set_duration_timer ::
  "time \<Rightarrow> string \<Rightarrow> command_type \<Rightarrow> duration \<Rightarrow> any \<Rightarrow> device_service \<Rightarrow>
     device_service \<times> service_error option" where
  "set_duration_timer now z c d v s =
     (case (gm_get (ds_zones s) z, gm_get (ds_zone_index s) z) of
        (Some _, Some i) \<Rightarrow>
          (case dm_set_timer now i c d v (ds_durations s) of
             (m, err) \<Rightarrow> (s\<lparr>ds_durations := m\<rparr>, map_option ErrDuration err))
      | _ \<Rightarrow> (s, Some ErrDeviceNotFound))"

definition cancel_duration_timer ::
  "string \<Rightarrow> command_type \<Rightarrow> device_service \<Rightarrow> device_service \<times> service_error option" where
  "cancel_duration_timer z c s =
     (case gm_get (ds_zone_index s) z of
        None \<Rightarrow> (s, Some ErrDeviceNotFound)
      | Some i \<Rightarrow>
          (case dm_cancel_timer i c (ds_durations s) of
             (m, err) \<Rightarrow> (s\<lparr>ds_durations := m\<rparr>, map_option ErrDuration err)))"

definition set_failsafe_timer :: "string \<Rightarrow> failsafe \<Rightarrow> device_service \<Rightarrow> device_service" where
  "set_failsafe_timer z t s =
     (let s1 = (case gm_get (ds_failsafe_timers s) z of
                  None \<Rightarrow> s
                | Some i \<Rightarrow> change_timer i (\<lambda>t. fst (fs_reset t)) s)
      in s1\<lparr>ds_timer_objects := ds_timer_objects s1 @ [(z, t\<lparr>fs_on_enter := True\<rparr>)],
            ds_failsafe_timers := gm_put z (length (ds_timer_objects s1)) (ds_failsafe_timers s1)\<rparr>)"

text \<open>The runtime fires a timer of an object; its function runs; the callback it makes waits
  for the lock of the service.\<close>

definition timer_fires :: "time \<Rightarrow> nat \<Rightarrow> nat \<Rightarrow> device_service \<Rightarrow> device_service" where
  "timer_fires now i j s = change_timer i (fs_fire now j) s"

definition timer_runs :: "nat \<Rightarrow> nat \<Rightarrow> device_service \<Rightarrow> device_service" where
  "timer_runs i j s =
     (if i < length (ds_timer_objects s)
      then case ds_timer_objects s ! i of (z, t) \<Rightarrow>
        (let (t', evs) = fs_run_fired j t
         in s\<lparr>ds_timer_objects := (ds_timer_objects s)[i := (z, t')],
              ds_callbacks := ds_callbacks s @
                (if list_ex (\<lambda>e. case e of FsEnter _ \<Rightarrow> True | _ \<Rightarrow> False) evs then [z] else [])\<rparr>)
      else s)"

definition failsafe_callback :: "nat \<Rightarrow> device_service \<Rightarrow> device_service" where
  "failsafe_callback n s =
     (if n < length (ds_callbacks s)
      then handle_failsafe (ds_callbacks s ! n)
             (s\<lparr>ds_callbacks := take n (ds_callbacks s) @ drop (Suc n) (ds_callbacks s)\<rparr>)
      else s)"

section \<open>Removal\<close>

text \<open>What \<open>RemoveZone\<close> does under the lock.\<close>

definition forget_zone :: "string \<Rightarrow> device_service \<Rightarrow> device_service" where
  "forget_zone z s =
     (let s1 = s\<lparr>ds_sessions := gm_del z (ds_sessions s)\<rparr>;
          s2 = (case gm_get (ds_failsafe_timers s1) z of
                  None \<Rightarrow> s1
                | Some i \<Rightarrow> (change_timer i (\<lambda>t. fst (fs_reset t)) s1)
                    \<lparr>ds_failsafe_timers := gm_del z (ds_failsafe_timers s1)\<rparr>);
          s3 = (case gm_get (ds_zone_index s2) z of
                  None \<Rightarrow> s2
                | Some i \<Rightarrow> s2\<lparr>ds_durations := dm_cancel_zone_timers i (ds_durations s2),
                               ds_zone_index := gm_del z (ds_zone_index s2)\<rparr>)
      in s3\<lparr>ds_zones := gm_del z (ds_zones s3)\<rparr>)"

text \<open>Then the resolver, the event, and the gate; the session is closed in the background.\<close>

definition device_remove_zone ::
  "time \<Rightarrow> surroundings \<Rightarrow> string \<Rightarrow> device_service \<Rightarrow> device_service \<times> service_error option" where
  "device_remove_zone now su z s =
     (case gm_get (ds_zones s) z of
        None \<Rightarrow> (s, Some ErrDeviceNotFound)
      | Some _ \<Rightarrow>
          let s1 = forget_zone z s;
              available = \<not> is_zones_full s1;
              s2 = s1\<lparr>ds_resolver := map_option (\<lambda>lr. fst (clear_zone now z lr)) (ds_resolver s1)\<rparr>;
              s3 = update_pairing_listening (emit_event (EvZoneRemoved z) s2);
              s4 = (if available then fst (enter_commissioning_mode su s3) else s3)
          in (s4\<lparr>ds_closed_sessions := ds_closed_sessions s4 @
                  (case gm_get (ds_sessions s) z of None \<Rightarrow> [] | Some sid \<Rightarrow> [sid])\<rparr>, None))"

definition evict_zones ::
  "(connected_zone \<Rightarrow> bool) \<Rightarrow> time \<Rightarrow> surroundings \<Rightarrow> device_service \<Rightarrow> device_service \<times> string" where
  "evict_zones P now su s =
     (let victims = map fst (filter (\<lambda>(z, cz). \<not> cz_connected cz \<and> P cz) (ds_zones s))
      in (foldl (\<lambda>s z. fst (device_remove_zone now su z s)) s victims,
          case victims of [] \<Rightarrow> '''' | z # zs \<Rightarrow> z))"

definition evict_disconnected_zone ::
  "time \<Rightarrow> surroundings \<Rightarrow> device_service \<Rightarrow> device_service \<times> string" where
  "evict_disconnected_zone = evict_zones (\<lambda>cz. cz_type cz \<noteq> ZoneTypeTest)"

definition evict_disconnected_zones_of_type ::
  "zone_type \<Rightarrow> time \<Rightarrow> surroundings \<Rightarrow> device_service \<Rightarrow> device_service \<times> string" where
  "evict_disconnected_zones_of_type zt = evict_zones (\<lambda>cz. cz_type cz = zt)"

section \<open>Restart\<close>

text \<open>The state file: its JSON form is written and read by the library; the durations, times and
  enumerations of the structs are read back as they were written.\<close>

record zone_membership =
  zm_zone_id :: string
  zm_zone_type :: zone_type
  zm_joined_at :: time

record device_state =
  dst_version :: int
  dst_saved_at :: time
  dst_zones :: "zone_membership list"
  dst_failsafe :: "(string, fs_snapshot) gomap"
  dst_zone_index :: "(string, u8) gomap"

definition StateVersion :: int where "StateVersion = 1"

text \<open>\<open>DeviceStateStore.Save\<close>: what the file holds afterwards.\<close>

definition store_save :: "time \<Rightarrow> device_state \<Rightarrow> device_state" where
  "store_save now st =
     st\<lparr>dst_version := StateVersion,
        dst_saved_at := (if dst_saved_at st = zero_time then now else dst_saved_at st)\<rparr>"

definition save_state :: "time \<Rightarrow> device_service \<Rightarrow> device_state" where
  "save_state now s =
     store_save now
       \<lparr>dst_version = 0, dst_saved_at = now,
        dst_zones = map (\<lambda>(z, cz). \<lparr>zm_zone_id = z, zm_zone_type = cz_type cz,
                                   zm_joined_at = cz_last_seen cz\<rparr>) (ds_zones s),
        dst_failsafe = foldl (\<lambda>m (z, i).
             gm_put z (fs_take_snapshot now (snd (ds_timer_objects s ! i))) m)
           [] (ds_failsafe_timers s),
        dst_zone_index = foldl (\<lambda>m (z, i). gm_put z i m) [] (ds_zone_index s)\<rparr>"

definition restore_index :: "device_service \<Rightarrow> string \<times> u8 \<Rightarrow> device_service" where
  "restore_index s = (\<lambda>(z, i).
     s\<lparr>ds_zone_index := gm_put z i (ds_zone_index s),
       ds_next_index := (if i \<ge> ds_next_index s then i + 1 else ds_next_index s)\<rparr>)"

definition restore_zone :: "zone_type \<Rightarrow> time \<Rightarrow> string \<Rightarrow> device_service \<Rightarrow> device_service" where
  "restore_zone zt seen z s =
     s\<lparr>ds_zones := gm_put z \<lparr>cz_id = z, cz_type = zt, cz_priority = zt_priority zt,
          cz_connected = False, cz_last_seen = seen, cz_failsafe_active = False\<rparr> (ds_zones s)\<rparr>"

text \<open>The old format of the file has no zones; they are taken from the index map as LOCAL.\<close>

definition restored_zones :: "device_state \<Rightarrow> zone_membership list" where
  "restored_zones st =
     (if dst_zones st \<noteq> [] then dst_zones st
      else map (\<lambda>(z, i). \<lparr>zm_zone_id = z, zm_zone_type = ZoneTypeLocal,
                         zm_joined_at = dst_saved_at st\<rparr>) (dst_zone_index st))"

text \<open>A timer whose time is over calls \<open>handleFailsafe\<close> from within \<open>Restore\<close>. It asks for the lock
  that \<open>LoadState\<close> holds, so nothing returns any more: \<open>None\<close>.\<close>

definition restore_timer ::
  "time \<Rightarrow> device_service option \<Rightarrow> string \<times> fs_snapshot \<Rightarrow> device_service option" where
  "restore_timer now so = (\<lambda>(z, snap).
     case so of
       None \<Rightarrow> None
     | Some s \<Rightarrow>
         if sn_state snap = StateNormal then Some s
         else
           (case fs_restore now (Some snap) (fs_set_callbacks False True False fs_new_timer) of
              (t, evs, err) \<Rightarrow>
                (if evs \<noteq> [] then None
                 else if err \<noteq> None then Some s
                 else Some (s\<lparr>ds_timer_objects := ds_timer_objects s @ [(z, t)],
                        ds_failsafe_timers :=
                          gm_put z (length (ds_timer_objects s)) (ds_failsafe_timers s)\<rparr>))))"

definition load_state :: "time \<Rightarrow> device_state option \<Rightarrow> device_service \<Rightarrow> device_service option" where
  "load_state now file s =
     (case file of
        None \<Rightarrow> Some s
      | Some st \<Rightarrow>
          let s1 = foldl restore_index s (dst_zone_index st);
              s2 = foldl (\<lambda>s m. restore_zone (zm_zone_type m) (zm_joined_at m) (zm_zone_id m) s)
                     s1 (restored_zones st)
          in map_option
               (\<lambda>s3. foldl (\<lambda>s m. emit_event (EvZoneRestored (zm_zone_id m)) s) s3 (restored_zones st))
               (foldl (restore_timer now) (Some s2) (dst_failsafe st)))"

section \<open>Commissioning connections\<close>

datatype reject_reason = RejectAlreadyInProgress | RejectCooldown | RejectZonesFull

definition cooldown_active :: "time \<Rightarrow> device_service \<Rightarrow> bool" where
  "cooldown_active now s \<longleftrightarrow>
     dcf_connection_cooldown (ds_config s) > 0 \<and>
     now - ds_last_attempt s < dcf_connection_cooldown (ds_config s)"

text \<open>With a valid enable key, zones without a connection give way first.\<close>

definition accept_commissioning_connection ::
  "time \<Rightarrow> surroundings \<Rightarrow> device_service \<Rightarrow> device_service \<times> (reject_reason + u64)" where
  "accept_commissioning_connection now su s =
     (if ds_conn_active s then (s, Inl RejectAlreadyInProgress)
      else if cooldown_active now s then (s, Inl RejectCooldown)
      else
        let s1 = (if is_enable_key_valid s then fst (evict_disconnected_zone now su s) else s)
        in if is_zones_full s1 \<and> \<not> is_enable_key_valid s then (s1, Inl RejectZonesFull)
           else if int (length (ds_zones s1)) > dcf_max_zones (ds_config s1)
           then (s1, Inl RejectZonesFull)
           else (s1\<lparr>ds_conn_active := True, ds_generation := ds_generation s1 + 1\<rparr>,
                 Inr (ds_generation s1 + 1)))"

definition release_commissioning_connection :: "time \<Rightarrow> u64 \<Rightarrow> device_service \<Rightarrow> device_service" where
  "release_commissioning_connection now gen s =
     (if ds_generation s \<noteq> gen then s
      else s\<lparr>ds_conn_active := False, ds_last_attempt := now\<rparr>)"

definition compute_busy_retry_after :: "time \<Rightarrow> device_service \<Rightarrow> u32" where
  "compute_busy_retry_after now s =
     (if cooldown_active now s
      then of_int ((dcf_connection_cooldown (ds_config s) - (now - ds_last_attempt s)) div millisecond)
      else if ds_conn_active s then of_int (dcf_handshake_timeout (ds_config s) div millisecond)
      else 0)"

definition record_pase_failure :: "device_service \<Rightarrow> device_service" where
  "record_pase_failure s = s\<lparr>ds_pase := map_option record_failure (ds_pase s)\<rparr>"

text \<open>The delay before a request is admitted.\<close>

definition backoff_delay :: "device_service \<Rightarrow> duration" where
  "backoff_delay s = (case ds_pase s of None \<Rightarrow> 0 | Some t \<Rightarrow> pase_delay t)"

text \<open>\<open>handleCommissioningConnection\<close> in its locked parts: the admission of a request; the failed
  handshake; the check of the zone in the certificate exchange; the registration.\<close>

definition commissioning_request ::
  "time \<Rightarrow> surroundings \<Rightarrow> device_service \<Rightarrow> device_service \<times> (reject_reason \<times> u32 + u64)" where
  "commissioning_request now su s =
     (case accept_commissioning_connection now su s of
        (s1, Inr gen) \<Rightarrow> (s1, Inr gen)
      | (s1, Inl reason) \<Rightarrow>
          let s2 = (if reason \<noteq> RejectAlreadyInProgress then record_pase_failure s1 else s1)
          in (s2, Inl (reason, compute_busy_retry_after now s2)))"

definition handshake_failed :: "time \<Rightarrow> u64 \<Rightarrow> device_service \<Rightarrow> device_service" where
  "handshake_failed now gen s = release_commissioning_connection now gen (record_pase_failure s)"

definition handshake_done :: "device_service \<Rightarrow> device_service" where
  "handshake_done s = reset_pase_tracker s"

datatype zone_rejection = TestZoneDisabled | ZoneTypeExists | ZoneSlotsFull

definition validate_zone ::
  "time \<Rightarrow> surroundings \<Rightarrow> zone_type \<Rightarrow> device_service \<Rightarrow> device_service \<times> zone_rejection option" where
  "validate_zone now su zt s =
     (if zt = ZoneTypeTest \<and> \<not> is_enable_key_valid s then (s, Some TestZoneDisabled)
      else
        let s1 = (if zt = ZoneTypeTest \<and> is_enable_key_valid s
                  then fst (evict_disconnected_zones_of_type ZoneTypeTest now su s) else s)
        in if has_zone_of_type zt s1 then (s1, Some ZoneTypeExists)
           else if zt \<noteq> ZoneTypeTest \<and> is_zones_full s1 then (s1, Some ZoneSlotsFull)
           else (s1, None))"

text \<open>From the capture of the epoch to the event. Other goroutines may run between the
  registration and the exit; that is what the epoch is for (see \<open>exit_commissioning_for_epoch\<close>).\<close>

definition commissioning_register ::
  "time \<Rightarrow> string \<Rightarrow> zone_type \<Rightarrow> device_service \<Rightarrow> device_service" where
  "commissioning_register now z zt s =
     (let s1 = register_zone_awaiting_connection now z zt s
      in if is_enable_key_valid s1 then s1\<lparr>ds_auto_reentry := True\<rparr> else s1)"

definition commissioning_finish ::
  "time \<Rightarrow> surroundings \<Rightarrow> u64 \<Rightarrow> u64 \<Rightarrow> string \<Rightarrow> device_service \<Rightarrow> device_service" where
  "commissioning_finish now su epoch gen z s =
     emit_event (EvCommissioned z)
       (release_commissioning_connection now gen
          (fst (exit_commissioning_for_epoch now su epoch s)))"

text \<open>The handler of the command RemoveZone of the device, in the form of the handlers of the device
  model: a zone may remove itself; a TEST zone any.\<close>

definition remove_zone_handler ::
  "time \<Rightarrow> surroundings \<Rightarrow> caller \<Rightarrow> params \<Rightarrow> device_service \<Rightarrow>
     device_service \<times> (invoke_error + params)" where
  "remove_zone_handler now su ctx ps s =
     (case gm_get ps ''zoneId'' of
        Some (AString z) \<Rightarrow>
          (if cl_zone_id ctx = '''' then (s, Inl (sentinel ErrCommandNotAllowed))
           else if z \<noteq> cl_zone_id ctx \<and> cl_zone_type ctx \<noteq> ZoneTypeTest
           then (s, Inl (sentinel ErrCommandNotAllowed))
           else case device_remove_zone now su z s of
                  (s1, None) \<Rightarrow> (s1, Inr [(''removed'', ABool True)])
                | (s1, Some _) \<Rightarrow>
                    (s1, Inl \<lparr>ie_command_error = None, ie_wraps = [], ie_text = ''device not found''\<rparr>))
      | _ \<Rightarrow> (s, Inl (sentinel ErrInvalidParameters)))"

text \<open>\<open>Stop\<close>: the failsafe timers of the map are reset.\<close>

definition service_stop :: "device_service \<Rightarrow> device_service \<times> service_error option" where
  "service_stop s =
     (if ds_state s \<noteq> SvcRunning then (s, Some ErrNotStarted)
      else
        let s1 = s\<lparr>ds_pairing_active := False, ds_listening := False,
                   ds_rt := stop_opt (ds_reentry_timer s) (ds_rt s), ds_reentry_timer := None\<rparr>;
            s2 = foldl (\<lambda>s (z, i). change_timer i (\<lambda>t. fst (fs_reset t)) s) s1 (ds_failsafe_timers s1)
        in (s2\<lparr>ds_state := SvcStopped\<rparr>, None))"

end
