(* ===== verification/DeviceZones.thy ===== *)
theory DeviceZones
  imports DeviceService
begin

text \<open>
  What holds of the zones of a device service (theory DeviceService): commissioning connections,
  the handlers and the timers as one machine whose steps interleave, and its invariant; what a
  removal leaves; the reconnection of controllers; failsafe; restarts.
\<close>

section \<open>What the operations leave alone\<close>

named_theorems service_frame \<open>fields that an operation does not change\<close>

lemma emit_frame [simp]:
  "ds_zones (emit_event e s) = ds_zones s" "ds_config (emit_event e s) = ds_config s"
  "ds_conn_active (emit_event e s) = ds_conn_active s"
  "ds_generation (emit_event e s) = ds_generation s"
  "ds_zone_index (emit_event e s) = ds_zone_index s" "ds_next_index (emit_event e s) = ds_next_index s"
  "ds_failsafe_timers (emit_event e s) = ds_failsafe_timers s"
  "ds_timer_objects (emit_event e s) = ds_timer_objects s"
  "ds_sessions (emit_event e s) = ds_sessions s" "ds_durations (emit_event e s) = ds_durations s"
  "ds_state (emit_event e s) = ds_state s" "ds_resolver (emit_event e s) = ds_resolver s"
  "ds_epoch (emit_event e s) = ds_epoch s" "ds_open (emit_event e s) = ds_open s"
  "ds_callbacks (emit_event e s) = ds_callbacks s"
  "ds_auto_reentry (emit_event e s) = ds_auto_reentry s"
  by (simp_all add: emit_event_def)

text \<open>Two states that agree on the zones and all that belongs to them; the operations of the
  gate and of the pairing requests relate them.\<close>

definition same_zones :: "device_service \<Rightarrow> device_service \<Rightarrow> bool" where
  "same_zones s s' \<longleftrightarrow>
     ds_zones s' = ds_zones s \<and> ds_config s' = ds_config s \<and>
     ds_conn_active s' = ds_conn_active s \<and> ds_generation s' = ds_generation s \<and>
     ds_zone_index s' = ds_zone_index s \<and> ds_next_index s' = ds_next_index s \<and>
     ds_failsafe_timers s' = ds_failsafe_timers s \<and> ds_timer_objects s' = ds_timer_objects s \<and>
     ds_sessions s' = ds_sessions s \<and> ds_durations s' = ds_durations s \<and>
     ds_resolver s' = ds_resolver s \<and> ds_state s' = ds_state s \<and>
     ds_callbacks s' = ds_callbacks s"

lemma same_zones_refl [simp]: "same_zones s s"
  by (simp add: same_zones_def)

lemma same_zones_trans: "same_zones s t \<Longrightarrow> same_zones t u \<Longrightarrow> same_zones s u"
  by (simp add: same_zones_def)

lemma same_zones_emit [service_frame]: "same_zones s (emit_event e s)"
  by (simp add: same_zones_def)

lemma same_zones_enter [service_frame]: "same_zones s (fst (enter_commissioning_mode su s))"
  by (simp add: same_zones_def enter_commissioning_mode_def enter_finish_def enter_begin_def
      reset_pase_tracker_def Let_def)

lemma same_zones_exit [service_frame]: "same_zones s (fst (exit_commissioning_mode now su s))"
  by (simp add: same_zones_def exit_commissioning_mode_def exit_finish_def reset_pase_tracker_def
      Let_def)

lemma same_zones_exit_epoch [service_frame]:
  "same_zones s (fst (exit_commissioning_for_epoch now su e s))"
  by (simp add: same_zones_def exit_commissioning_for_epoch_def exit_finish_def
      reset_pase_tracker_def Let_def)

lemma same_zones_timeout [service_frame]: "same_zones s (commissioning_timeout s)"
  by (simp add: same_zones_def commissioning_timeout_def Let_def)

lemma same_zones_schedule [service_frame]: "same_zones s (schedule_disconnect_reentry now until s)"
  by (simp add: same_zones_def schedule_disconnect_reentry_def split_beta)

lemma same_zones_reenter [service_frame]: "same_zones s (reenter_or_wait now su s)"
  by (simp add: reenter_or_wait_def service_frame)

lemma same_zones_auto [service_frame]: "same_zones s (try_auto_reenter now su s)"
proof -
  have "same_zones s (s\<lparr>ds_reentry_timer := None\<rparr>)" by (simp add: same_zones_def)
  then show ?thesis
    by (auto simp: try_auto_reenter_def Let_def intro: same_zones_trans service_frame)
qed

lemma same_zones_pairing [service_frame]: "same_zones s (update_pairing_listening s)"
  by (simp add: same_zones_def update_pairing_listening_def start_pairing_listening_def
      stop_pairing_listening_def)

lemma same_zones_discovered [service_frame]:
  "same_zones s (pairing_request_discovered su d w s)"
  by (simp add: pairing_request_discovered_def service_frame)

lemma same_zones_consume [service_frame]: "same_zones s (consume_auto_reentry su s)"
proof -
  have "same_zones s (s\<lparr>ds_auto_reentry := False\<rparr>)" by (simp add: same_zones_def)
  then show ?thesis
    by (auto simp: consume_auto_reentry_def Let_def intro: same_zones_trans service_frame)
qed

section \<open>Zones only get fewer\<close>

text \<open>Every operation but the registration of a zone keeps the types of the zones that stay.\<close>

definition zones_shrink :: "device_service \<Rightarrow> device_service \<Rightarrow> bool" where
  "zones_shrink s s' \<longleftrightarrow>
     (gm_wf (ds_zones s) \<longrightarrow> gm_wf (ds_zones s')) \<and>
     (\<forall>z cz'. gm_get (ds_zones s') z = Some cz' \<longrightarrow>
        (\<exists>cz. gm_get (ds_zones s) z = Some cz \<and> cz_type cz = cz_type cz')) \<and>
     ds_config s' = ds_config s \<and> ds_conn_active s' = ds_conn_active s \<and>
     ds_generation s' = ds_generation s"

lemma shrink_refl [simp]: "zones_shrink s s"
  by (simp add: zones_shrink_def)

lemma shrink_trans: "zones_shrink s t \<Longrightarrow> zones_shrink t u \<Longrightarrow> zones_shrink s u"
  unfolding zones_shrink_def by (metis (full_types))

lemma shrink_same: "same_zones s s' \<Longrightarrow> zones_shrink s s'"
  by (auto simp: same_zones_def zones_shrink_def)

lemma shrink_change_zone:
  "(\<And>cz. cz_type (f cz) = cz_type cz) \<Longrightarrow> zones_shrink s (change_zone z f s)"
  by (auto simp: change_zone_def zones_shrink_def gomap_simps split: option.split)

lemma shrink_change_timer: "zones_shrink s (change_timer i f s)"
  by (simp add: change_timer_def zones_shrink_def)

lemma shrink_disconnect: "zones_shrink s (handle_zone_disconnect now su z s)"
proof -
  let ?s1 = "emit_event (EvDisconnected z)
    (change_zone z (\<lambda>cz. cz\<lparr>cz_connected := False, cz_last_seen := now\<rparr>) s)"
  have one: "zones_shrink s ?s1"
    by (rule shrink_trans [OF shrink_change_zone shrink_same [OF same_zones_emit]]) simp
  have "zones_shrink ?s1 (reenter_or_wait now su ?s1)" by (intro shrink_same service_frame)
  with one show ?thesis
    by (auto simp: handle_zone_disconnect_def Let_def intro: shrink_trans)
qed

lemma shrink_session_close: "zones_shrink s (handle_zone_session_close now su z c s)"
proof (cases "gm_get (ds_sessions s) z")
  case None
  then show ?thesis by (simp add: handle_zone_session_close_def)
next
  case (Some sid)
  let ?t = "s\<lparr>ds_sessions := gm_del z (ds_sessions s), ds_closed_sessions := ds_closed_sessions s @ [sid]\<rparr>"
  have "zones_shrink s ?t" by (simp add: zones_shrink_def)
  from shrink_trans [OF this shrink_disconnect] Some show ?thesis
    by (simp add: handle_zone_session_close_def)
qed

lemma shrink_mark: "zones_shrink s (mark_zone_connected now z s)"
proof -
  let ?s1 = "change_zone z (\<lambda>cz. cz\<lparr>cz_connected := True, cz_last_seen := now\<rparr>) s"
  have one: "zones_shrink s ?s1" by (rule shrink_change_zone) simp
  from shrink_trans [OF one shrink_change_timer] one show ?thesis
    by (simp add: mark_zone_connected_def Let_def split: option.split)
qed

lemma shrink_operational:
  "zones_shrink s (fst (handle_operational_connection now su ca peers sid s))"
proof (cases "identify_zone ca peers s")
  case None
  then show ?thesis by (simp add: handle_operational_connection_def)
next
  case (Some e)
  obtain z replace where e: "e = (z, replace)" by fastforce
  define s1 where "s1 = (if replace then handle_zone_session_close now su z None s else s)"
  define s2 where "s2 = mark_zone_connected now z s1"
  define s3 where "s3 = emit_event (EvConnected z) (s2\<lparr>ds_sessions := gm_put z sid (ds_sessions s2)\<rparr>)"
  have "zones_shrink s s1" by (simp add: s1_def shrink_session_close)
  moreover have "zones_shrink s1 s2" unfolding s2_def by (rule shrink_mark)
  moreover have "zones_shrink s2 s3" by (simp add: s3_def zones_shrink_def)
  moreover have "zones_shrink s3 (consume_auto_reentry su s3)"
    by (intro shrink_same service_frame)
  ultimately have "zones_shrink s (consume_auto_reentry su s3)" by (meson shrink_trans)
  then show ?thesis
    by (simp add: handle_operational_connection_def Some e Let_def s1_def s2_def s3_def)
qed

lemma shrink_failsafe: "zones_shrink s (handle_failsafe z s)"
proof -
  let ?s1 = "change_zone z (\<lambda>cz. cz\<lparr>cz_failsafe_active := True\<rparr>) s"
  have "zones_shrink s ?s1" by (rule shrink_change_zone) simp
  moreover have "zones_shrink ?s1 (handle_failsafe z s)"
    by (simp add: handle_failsafe_def Let_def zones_shrink_def)
  ultimately show ?thesis by (rule shrink_trans)
qed

lemma shrink_callback: "zones_shrink s (failsafe_callback n s)"
proof -
  have "zones_shrink s (s\<lparr>ds_callbacks := c\<rparr>)" for c by (simp add: zones_shrink_def)
  from shrink_trans [OF this shrink_failsafe] show ?thesis by (simp add: failsafe_callback_def)
qed

lemma shrink_refresh: "zones_shrink s (fst (refresh_failsafe now z s))"
proof -
  have change: "zones_shrink t (change_timer i f t)" for t i f by (rule shrink_change_timer)
  have zone: "zones_shrink t (change_zone z (\<lambda>cz. cz\<lparr>cz_failsafe_active := False\<rparr>) t)" for t
    by (rule shrink_change_zone) simp
  have emit: "zones_shrink t (emit_event e t)" for t e by (intro shrink_same service_frame)
  show ?thesis
  proof (cases "gm_get (ds_zones s) z"; cases "gm_get (ds_failsafe_timers s) z")
    fix cz i
    assume z: "gm_get (ds_zones s) z = Some cz" "gm_get (ds_failsafe_timers s) z = Some i"
    show ?thesis
    proof (cases "cz_failsafe_active cz")
      case True
      then show ?thesis unfolding refresh_failsafe_def Let_def z
        by simp (rule shrink_trans [OF zone shrink_trans [OF change shrink_trans [OF emit change]]])
    next
      case False
      then show ?thesis unfolding refresh_failsafe_def Let_def z by (simp add: change)
    qed
  qed (simp_all add: refresh_failsafe_def)
qed

lemma forget_zone_zones: "ds_zones (forget_zone z s) = gm_del z (ds_zones s)"
  by (simp add: forget_zone_def Let_def change_timer_def split: option.split)

lemma forget_frame [simp]:
  "ds_config (forget_zone z s) = ds_config s"
  "ds_conn_active (forget_zone z s) = ds_conn_active s"
  "ds_generation (forget_zone z s) = ds_generation s"
  by (simp_all add: forget_zone_def Let_def change_timer_def split: option.split)

lemma shrink_forget: "zones_shrink s (forget_zone z s)"
  by (auto simp: zones_shrink_def forget_zone_zones gomap_simps)

lemma remove_zone_frame:
  assumes "gm_get (ds_zones s) z = Some cz"
  shows "same_zones (forget_zone z s) ((fst (device_remove_zone now su z s))
      \<lparr>ds_resolver := ds_resolver (forget_zone z s)\<rparr>)"
proof -
  define s1 where "s1 = forget_zone z s"
  define s3 where "s3 = update_pairing_listening (emit_event (EvZoneRemoved z)
      (s1\<lparr>ds_resolver := map_option (\<lambda>lr. fst (clear_zone now z lr)) (ds_resolver s1)\<rparr>))"
  define s4 where "s4 = (if \<not> is_zones_full s1 then fst (enter_commissioning_mode su s3) else s3)"
  have "same_zones (emit_event (EvZoneRemoved z)
      (s1\<lparr>ds_resolver := map_option (\<lambda>lr. fst (clear_zone now z lr)) (ds_resolver s1)\<rparr>)) s3"
    unfolding s3_def by (rule service_frame)
  moreover have "same_zones s3 s4" by (simp add: s4_def service_frame)
  moreover have "fst (device_remove_zone now su z s) = s4\<lparr>ds_closed_sessions := ds_closed_sessions s4 @
      (case gm_get (ds_sessions s) z of None \<Rightarrow> [] | Some sid \<Rightarrow> [sid])\<rparr>"
    by (simp add: device_remove_zone_def assms Let_def s1_def s3_def s4_def)
  ultimately show ?thesis unfolding s1_def [symmetric] by (auto simp: same_zones_def)
qed

lemma shrink_remove: "zones_shrink s (fst (device_remove_zone now su z s))"
proof (cases "gm_get (ds_zones s) z")
  case None
  then show ?thesis by (simp add: device_remove_zone_def)
next
  case (Some cz)
  from shrink_trans [OF shrink_forget shrink_same [OF remove_zone_frame [OF Some]]]
  show ?thesis by (simp add: zones_shrink_def)
qed

lemma shrink_evict: "zones_shrink s (fst (evict_zones P now su s))"
proof -
  have "zones_shrink s (foldl (\<lambda>s z. fst (device_remove_zone now su z s)) s zs)" for zs
    by (induction zs arbitrary: s) (auto intro: shrink_trans shrink_remove)
  then show ?thesis by (simp add: evict_zones_def Let_def)
qed
section \<open>Commissioning connections among the other steps\<close>

datatype service_op =
    SoEnter surroundings
  | SoExit time surroundings
  | SoWindowTimeout
  | SoReenter time surroundings
  | SoPairingRequest surroundings bool bool
  | SoOperational time surroundings "string \<Rightarrow> u8 list option" "u8 list list" nat
  | SoSessionClose time surroundings string "nat option"
  | SoRemoveZone time surroundings string
  | SoRefresh time string
  | SoSetDuration time string command_type duration any
  | SoCancelDuration string command_type
  | SoTimerFires time nat nat
  | SoTimerRuns nat nat
  | SoCallback nat

fun service_step :: "device_service \<Rightarrow> service_op \<Rightarrow> device_service" where
  "service_step s (SoEnter su) = fst (enter_commissioning_mode su s)"
| "service_step s (SoExit now su) = fst (exit_commissioning_mode now su s)"
| "service_step s SoWindowTimeout = commissioning_timeout s"
| "service_step s (SoReenter now su) = try_auto_reenter now su s"
| "service_step s (SoPairingRequest su d w) = pairing_request_discovered su d w s"
| "service_step s (SoOperational now su ca peers sid) =
     fst (handle_operational_connection now su ca peers sid s)"
| "service_step s (SoSessionClose now su z c) = handle_zone_session_close now su z c s"
| "service_step s (SoRemoveZone now su z) = fst (device_remove_zone now su z s)"
| "service_step s (SoRefresh now z) = fst (refresh_failsafe now z s)"
| "service_step s (SoSetDuration now z c d v) = fst (set_duration_timer now z c d v s)"
| "service_step s (SoCancelDuration z c) = fst (cancel_duration_timer z c s)"
| "service_step s (SoTimerFires now i j) = timer_fires now i j s"
| "service_step s (SoTimerRuns i j) = timer_runs i j s"
| "service_step s (SoCallback n) = failsafe_callback n s"

lemma shrink_service_step: "zones_shrink s (service_step s e)"
proof (cases e)
  case (SoSetDuration now z c d v)
  then show ?thesis
    by (auto simp: set_duration_timer_def zones_shrink_def split: option.split prod.split)
next
  case (SoCancelDuration z c)
  then show ?thesis
    by (auto simp: cancel_duration_timer_def zones_shrink_def split: option.split prod.split)
next
  case (SoTimerRuns i j)
  then show ?thesis by (simp add: timer_runs_def zones_shrink_def split: prod.split)
qed (simp_all add: shrink_same service_frame shrink_operational shrink_session_close shrink_remove
      shrink_refresh shrink_callback timer_fires_def shrink_change_timer)

text \<open>A commissioning connection after its first message: it holds the lock of its generation
  from its admission until it has finished or failed.\<close>

datatype comm_phase =
    CpAdmitted u64
  | CpValidated u64 zone_type
  | CpRegistered u64 u64 string
  | CpDone

record comm_world =
  cw_service :: device_service
  cw_procs :: "comm_phase list"

datatype world_op =
    WoService service_op
  | WoRequest time surroundings
  | WoHandshakeFails time nat
  | WoAborts time nat
  | WoValidate time surroundings zone_type nat
  | WoRegister time string nat
  | WoFinish time surroundings nat

definition set_proc :: "nat \<Rightarrow> comm_phase \<Rightarrow> device_service \<Rightarrow> comm_world \<Rightarrow> comm_world" where
  "set_proc i p s w = w\<lparr>cw_service := s, cw_procs := (cw_procs w)[i := p]\<rparr>"

definition proc_at :: "comm_world \<Rightarrow> nat \<Rightarrow> comm_phase" where
  "proc_at w i = (if i < length (cw_procs w) then cw_procs w ! i else CpDone)"

fun phase_gen :: "comm_phase \<Rightarrow> u64 option" where
  "phase_gen (CpAdmitted g) = Some g"
| "phase_gen (CpValidated g _) = Some g"
| "phase_gen (CpRegistered g _ _) = Some g"
| "phase_gen CpDone = None"

text \<open>A failed check ends the connection and gives the lock back.\<close>

fun world_step :: "comm_world \<Rightarrow> world_op \<Rightarrow> comm_world" where
  "world_step w (WoService e) = w\<lparr>cw_service := service_step (cw_service w) e\<rparr>"
| "world_step w (WoRequest now su) =
     (case commissioning_request now su (cw_service w) of
        (s, Inl _) \<Rightarrow> w\<lparr>cw_service := s\<rparr>
      | (s, Inr gen) \<Rightarrow> w\<lparr>cw_service := s, cw_procs := cw_procs w @ [CpAdmitted gen]\<rparr>)"
| "world_step w (WoHandshakeFails now i) =
     (case proc_at w i of
        CpAdmitted g \<Rightarrow> set_proc i CpDone (handshake_failed now g (cw_service w)) w
      | _ \<Rightarrow> w)"
| "world_step w (WoAborts now i) =
     (case proc_at w i of
        CpAdmitted g \<Rightarrow> set_proc i CpDone (release_commissioning_connection now g (cw_service w)) w
      | CpValidated g zt \<Rightarrow>
          set_proc i CpDone (release_commissioning_connection now g (cw_service w)) w
      | _ \<Rightarrow> w)"
| "world_step w (WoValidate now su zt i) =
     (case proc_at w i of
        CpAdmitted g \<Rightarrow>
          (case validate_zone now su zt (handshake_done (cw_service w)) of
             (s, None) \<Rightarrow> set_proc i (CpValidated g zt) s w
           | (s, Some _) \<Rightarrow> set_proc i CpDone (release_commissioning_connection now g s) w)
      | _ \<Rightarrow> w)"
| "world_step w (WoRegister now z i) =
     (case proc_at w i of
        CpValidated g zt \<Rightarrow>
          set_proc i (CpRegistered g (ds_epoch (cw_service w)) z)
            (commissioning_register now z zt (cw_service w)) w
      | _ \<Rightarrow> w)"
| "world_step w (WoFinish now su i) =
     (case proc_at w i of
        CpRegistered g epoch z \<Rightarrow>
          set_proc i CpDone (commissioning_finish now su epoch g z (cw_service w)) w
      | _ \<Rightarrow> w)"

text \<open>The invariant: one type per zone, no more zones than slots, one holder of the lock, and
  the zone that a holder has validated still fits.\<close>

definition zone_fits :: "zone_type \<Rightarrow> device_service \<Rightarrow> bool" where
  "zone_fits zt s \<longleftrightarrow> \<not> has_zone_of_type zt s \<and> (zt \<noteq> ZoneTypeTest \<longrightarrow> \<not> is_zones_full s)"

definition zones_ok :: "device_service \<Rightarrow> bool" where
  "zones_ok s \<longleftrightarrow>
     gm_wf (ds_zones s) \<and>
     (\<forall>z z' cz cz'. gm_get (ds_zones s) z = Some cz \<and> gm_get (ds_zones s) z' = Some cz' \<and>
        cz_type cz = cz_type cz' \<longrightarrow> z = z') \<and>
     int (non_test_zone_count s) \<le> dcf_max_zones (ds_config s)"

definition world_inv :: "comm_world \<Rightarrow> bool" where
  "world_inv w \<longleftrightarrow>
     zones_ok (cw_service w) \<and>
     (\<forall>i g. phase_gen (proc_at w i) = Some g \<longrightarrow>
        ds_conn_active (cw_service w) \<and> g = ds_generation (cw_service w)) \<and>
     (\<forall>i j. phase_gen (proc_at w i) \<noteq> None \<and> phase_gen (proc_at w j) \<noteq> None \<longrightarrow> i = j) \<and>
     (\<forall>i g zt. proc_at w i = CpValidated g zt \<longrightarrow> zone_fits zt (cw_service w))"

lemma non_test_count_card:
  "gm_wf (ds_zones s) \<Longrightarrow> non_test_zone_count s =
     card {z. \<exists>cz. gm_get (ds_zones s) z = Some cz \<and> cz_type cz \<noteq> ZoneTypeTest}"
proof -
  assume wf: "gm_wf (ds_zones s)"
  let ?l = "filter (\<lambda>(z, cz). cz_type cz \<noteq> ZoneTypeTest) (ds_zones s)"
  have "distinct (map fst ?l)" using gm_wf_filter [OF wf] by (simp add: gm_wf_def)
  then have "non_test_zone_count s = card (set (map fst ?l))"
    by (simp only: non_test_zone_count_def distinct_card length_map)
  moreover have "set (map fst ?l) =
      {z. \<exists>cz. gm_get (ds_zones s) z = Some cz \<and> cz_type cz \<noteq> ZoneTypeTest}"
    using wf by (force simp: gm_get_in)
  ultimately show ?thesis by simp
qed

lemma finite_zones: "finite {z. \<exists>cz. gm_get m z = Some cz \<and> P cz}"
  by (rule finite_subset [OF _ finite_dom_map_of [of m]]) auto

lemma shrink_count:
  assumes "zones_shrink s s'" and "gm_wf (ds_zones s)"
  shows "non_test_zone_count s' \<le> non_test_zone_count s"
proof -
  from assms have "gm_wf (ds_zones s')" by (simp add: zones_shrink_def)
  moreover have "{z. \<exists>cz. gm_get (ds_zones s') z = Some cz \<and> cz_type cz \<noteq> ZoneTypeTest} \<subseteq>
      {z. \<exists>cz. gm_get (ds_zones s) z = Some cz \<and> cz_type cz \<noteq> ZoneTypeTest}"
    using assms(1) unfolding zones_shrink_def by (smt (verit) Collect_mono)
  ultimately show ?thesis
    using assms(2) by (simp add: non_test_count_card card_mono finite_zones)
qed

lemma has_type_get:
  "gm_wf (ds_zones s) \<Longrightarrow>
     has_zone_of_type zt s \<longleftrightarrow> (\<exists>z cz. gm_get (ds_zones s) z = Some cz \<and> cz_type cz = zt)"
  by (auto simp: has_zone_of_type_def list_ex_iff gm_get_in)

lemma shrink_ok:
  assumes "zones_shrink s s'" and "zones_ok s"
  shows "zones_ok s'"
proof -
  have "z = z'" if "gm_get (ds_zones s') z = Some cz" "gm_get (ds_zones s') z' = Some cz'"
    "cz_type cz = cz_type cz'" for z z' cz cz'
    using assms that unfolding zones_shrink_def zones_ok_def by metis
  with assms shrink_count [of s s'] show ?thesis
    by (simp add: zones_ok_def zones_shrink_def)
qed

lemma shrink_fits:
  assumes "zones_shrink s s'" and "zones_ok s" and "zone_fits zt s"
  shows "zone_fits zt s'"
proof -
  from assms(2) have wf: "gm_wf (ds_zones s)" by (simp add: zones_ok_def)
  with assms(1) have wf': "gm_wf (ds_zones s')" and cfg: "ds_config s' = ds_config s"
    by (simp_all add: zones_shrink_def)
  have "\<not> has_zone_of_type zt s'"
    using assms(1,3) wf wf' unfolding zone_fits_def has_type_get [OF wf] has_type_get [OF wf']
      zones_shrink_def by metis
  with shrink_count [OF assms(1) wf] assms(3) cfg show ?thesis
    by (auto simp: zone_fits_def is_zones_full_def)
qed

text \<open>The parts of commissioning.\<close>

lemma shrink_pase:
  "zones_shrink s (record_pase_failure s)" "zones_shrink s (handshake_done s)"
  by (simp_all add: record_pase_failure_def handshake_done_def reset_pase_tracker_def
      zones_shrink_def)

lemma request_outcome:
  assumes "commissioning_request now su s = (s', r)"
  shows "(\<exists>e. r = Inl e) \<and> zones_shrink s s' \<or>
     (\<exists>t. r = Inr (ds_generation s') \<and> \<not> ds_conn_active s \<and> zones_shrink s t \<and>
        s' = t\<lparr>ds_conn_active := True, ds_generation := ds_generation t + 1\<rparr>)"
proof -
  obtain s1 a where acc: "accept_commissioning_connection now su s = (s1, a)" by fastforce
  define t where "t = (if is_enable_key_valid s then fst (evict_disconnected_zone now su s) else s)"
  have t: "zones_shrink s t" by (simp add: t_def evict_disconnected_zone_def shrink_evict)
  have accept: "(\<exists>e. a = Inl e) \<and> zones_shrink s s1 \<or>
      a = Inr (ds_generation t + 1) \<and> \<not> ds_conn_active s \<and>
      s1 = t\<lparr>ds_conn_active := True, ds_generation := ds_generation t + 1\<rparr>"
    using acc t
    by (auto simp: accept_commissioning_connection_def Let_def t_def [symmetric] split: if_splits)
  show ?thesis
  proof (cases a)
    case (Inl e)
    with accept have "zones_shrink s s1" by auto
    moreover have "zones_shrink s1 s'"
      using assms acc Inl by (auto simp: commissioning_request_def Let_def shrink_pase)
    ultimately have "zones_shrink s s'" by (rule shrink_trans)
    with assms acc Inl show ?thesis by (auto simp: commissioning_request_def Let_def)
  next
    case (Inr g)
    with assms acc have "s' = s1" "r = Inr g" by (simp_all add: commissioning_request_def)
    with accept Inr t show ?thesis by auto
  qed
qed

lemma validate_outcome:
  "zones_shrink s (fst (validate_zone now su zt s))"
  "snd (validate_zone now su zt s) = None \<Longrightarrow> zone_fits zt (fst (validate_zone now su zt s))"
proof -
  define s1 where "s1 = (if zt = ZoneTypeTest \<and> is_enable_key_valid s
      then fst (evict_disconnected_zones_of_type ZoneTypeTest now su s) else s)"
  have "zones_shrink s s1"
    by (simp add: s1_def evict_disconnected_zones_of_type_def shrink_evict)
  moreover have eq: "validate_zone now su zt s =
      (if zt = ZoneTypeTest \<and> \<not> is_enable_key_valid s then (s, Some TestZoneDisabled)
       else if has_zone_of_type zt s1 then (s1, Some ZoneTypeExists)
       else if zt \<noteq> ZoneTypeTest \<and> is_zones_full s1 then (s1, Some ZoneSlotsFull) else (s1, None))"
    by (simp add: validate_zone_def Let_def s1_def)
  ultimately show "zones_shrink s (fst (validate_zone now su zt s))" by simp
  show "snd (validate_zone now su zt s) = None \<Longrightarrow> zone_fits zt (fst (validate_zone now su zt s))"
    unfolding eq by (auto simp: zone_fits_def split: if_splits)
qed

text \<open>The registration of a zone that fits.\<close>

lemma create_timer_frame [simp]:
  "ds_zones (create_failsafe_timer now z s) = ds_zones s"
  "ds_config (create_failsafe_timer now z s) = ds_config s"
  "ds_conn_active (create_failsafe_timer now z s) = ds_conn_active s"
  "ds_generation (create_failsafe_timer now z s) = ds_generation s"
  "ds_zone_index (create_failsafe_timer now z s) = ds_zone_index s"
  "ds_next_index (create_failsafe_timer now z s) = ds_next_index s"
  by (simp_all add: create_failsafe_timer_def split: prod.split option.split)

lemma assign_index_frame [simp]:
  "ds_zones (assign_zone_index z s) = ds_zones s"
  "ds_config (assign_zone_index z s) = ds_config s"
  "ds_conn_active (assign_zone_index z s) = ds_conn_active s"
  "ds_generation (assign_zone_index z s) = ds_generation s"
  "ds_failsafe_timers (assign_zone_index z s) = ds_failsafe_timers s"
  "ds_timer_objects (assign_zone_index z s) = ds_timer_objects s"
  by (simp_all add: assign_zone_index_def)

lemma register_frame:
  "ds_config (commissioning_register now z zt s) = ds_config s"
  "ds_conn_active (commissioning_register now z zt s) = ds_conn_active s"
  "ds_generation (commissioning_register now z zt s) = ds_generation s"
  "\<exists>cz. cz_type cz = zt \<and>
     ds_zones (commissioning_register now z zt s) \<in> {ds_zones s, gm_put z cz (ds_zones s)}"
proof -
  let ?t = "register_zone_awaiting_connection now z zt s"
  define cz where "cz = \<lparr>cz_id = z, cz_type = zt, cz_priority = zt_priority zt, cz_connected = False,
      cz_last_seen = now, cz_failsafe_active = False\<rparr>"
  define u where "u = create_failsafe_timer now z (assign_zone_index z
      (s\<lparr>ds_zones := gm_put z cz (ds_zones s)\<rparr>))"
  have t: "?t = (if zt = ZoneTypeTest \<and> \<not> is_enable_key_valid s then s else update_pairing_listening u)"
    by (simp add: register_zone_awaiting_connection_def handle_zone_connect_def Let_def u_def cz_def)
  have "same_zones u (update_pairing_listening u)" by (rule service_frame)
  then have "ds_config ?t = ds_config s" "ds_conn_active ?t = ds_conn_active s"
    "ds_generation ?t = ds_generation s" "ds_zones ?t \<in> {ds_zones s, gm_put z cz (ds_zones s)}"
    by (auto simp: t same_zones_def u_def)
  then show "ds_config (commissioning_register now z zt s) = ds_config s"
    "ds_conn_active (commissioning_register now z zt s) = ds_conn_active s"
    "ds_generation (commissioning_register now z zt s) = ds_generation s"
    "\<exists>cz. cz_type cz = zt \<and>
       ds_zones (commissioning_register now z zt s) \<in> {ds_zones s, gm_put z cz (ds_zones s)}"
    by (auto simp: commissioning_register_def Let_def intro!: exI [of _ cz]) (simp_all add: cz_def)
qed

lemma register_ok:
  assumes "zones_ok s" and "zone_fits zt s"
  shows "zones_ok (commissioning_register now z zt s)"
proof -
  let ?t = "commissioning_register now z zt s"
  from register_frame(4) obtain cz where cz: "cz_type cz = zt"
    "ds_zones ?t = ds_zones s \<or> ds_zones ?t = gm_put z cz (ds_zones s)" by blast
  from assms have wf: "gm_wf (ds_zones s)" by (simp add: zones_ok_def)
  from assms(2) wf have fresh: "\<And>y cy. gm_get (ds_zones s) y = Some cy \<Longrightarrow> cz_type cy \<noteq> zt"
    by (auto simp: zone_fits_def has_type_get)
  show ?thesis
  proof (cases "ds_zones ?t = ds_zones s")
    case True
    with assms(1) register_frame(1) show ?thesis
      by (simp add: zones_ok_def non_test_zone_count_def)
  next
    case False
    with cz(2) have put: "ds_zones ?t = gm_put z cz (ds_zones s)" by simp
    then have wf': "gm_wf (ds_zones ?t)" using wf by simp
    have "y = y'" if "gm_get (ds_zones ?t) y = Some c" "gm_get (ds_zones ?t) y' = Some c'"
      "cz_type c = cz_type c'" for y y' c c'
      using that fresh cz(1) assms(1) unfolding put zones_ok_def
      by (auto simp: gomap_simps split: if_splits)
    moreover have "int (non_test_zone_count ?t) \<le> dcf_max_zones (ds_config s)"
    proof -
      let ?A = "{y. \<exists>c. gm_get (ds_zones s) y = Some c \<and> cz_type c \<noteq> ZoneTypeTest}"
      let ?B = "{y. \<exists>c. gm_get (ds_zones ?t) y = Some c \<and> cz_type c \<noteq> ZoneTypeTest}"
      have count: "non_test_zone_count s = card ?A" "non_test_zone_count ?t = card ?B"
        using wf wf' by (simp_all add: non_test_count_card)
      show ?thesis
      proof (cases "zt = ZoneTypeTest")
        case True
        with cz(1) have "?B \<subseteq> ?A" unfolding put by (auto simp: gomap_simps split: if_splits)
        then have "card ?B \<le> card ?A" by (rule card_mono [OF finite_zones])
        with count assms(1) show ?thesis by (simp add: zones_ok_def)
      next
        case False
        have "?B \<subseteq> insert z ?A" unfolding put by (auto simp: gomap_simps split: if_splits)
        then have "card ?B \<le> card (insert z ?A)" by (rule card_mono [rotated]) (simp add: finite_zones)
        also have "\<dots> \<le> Suc (card ?A)" by (rule card_insert_le_m1) simp_all
        finally show ?thesis
          using assms(2) False count by (simp add: zone_fits_def is_zones_full_def)
      qed
    qed
    ultimately show ?thesis using wf' register_frame(1) [of now z zt s] by (simp add: zones_ok_def)
  qed
qed

text \<open>The invariant of the machine.\<close>

lemma proc_at_set:
  "proc_at (set_proc i p s w) j =
     (if j = i \<and> i < length (cw_procs w) then p else proc_at w j)"
  by (simp add: proc_at_def set_proc_def nth_list_update)

lemma service_set [simp]: "cw_service (set_proc i p s w) = s"
  by (simp add: set_proc_def)

lemma proc_at_procs:
  "proc_at (w\<lparr>cw_service := s\<rparr>) = proc_at w"
  by (simp add: proc_at_def fun_eq_iff)

text \<open>A step that only takes zones away keeps the invariant, whatever becomes of the
  connections as long as they only leave the lock.\<close>

lemma world_inv_shrink:
  assumes "world_inv w" and "zones_shrink (cw_service w) s"
  shows "world_inv (w\<lparr>cw_service := s\<rparr>)"
  using assms shrink_ok [OF assms(2)] shrink_fits [OF assms(2)]
  unfolding world_inv_def proc_at_procs
  by (simp add: zones_shrink_def)

lemma release_frame:
  assumes "ds_generation s = g"
  shows "ds_zones (release_commissioning_connection now g s) = ds_zones s"
    "ds_config (release_commissioning_connection now g s) = ds_config s"
    "ds_generation (release_commissioning_connection now g s) = ds_generation s"
  using assms by (simp_all add: release_commissioning_connection_def)

lemma zones_ok_cong:
  "ds_zones s' = ds_zones s \<Longrightarrow> ds_config s' = ds_config s \<Longrightarrow> zones_ok s \<Longrightarrow> zones_ok s'"
  by (simp add: zones_ok_def non_test_zone_count_def)

lemma world_inv_done:
  assumes "world_inv w" and "phase_gen (proc_at w i) \<noteq> None"
    and "zones_ok s"
  shows "world_inv (set_proc i CpDone s w)"
proof -
  have "i < length (cw_procs w)" using assms(2) by (auto simp: proc_at_def split: if_splits)
  moreover have "phase_gen (proc_at w j) = None" if "j \<noteq> i" for j
    using assms(1,2) that unfolding world_inv_def by metis
  ultimately have "phase_gen (proc_at (set_proc i CpDone s w) j) = None" for j
    by (simp add: proc_at_set)
  then have "\<And>j. proc_at (set_proc i CpDone s w) j = CpDone"
    by (metis phase_gen.elims option.distinct(1))
  with assms(3) show ?thesis by (simp add: world_inv_def)
qed

lemma world_inv_next:
  assumes "world_inv w" and "phase_gen (proc_at w i) = Some g" and "phase_gen p = Some g"
    and "zones_ok s" and "ds_conn_active s = ds_conn_active (cw_service w)"
    and "ds_generation s = ds_generation (cw_service w)"
    and "\<And>g' zt. p = CpValidated g' zt \<Longrightarrow> zone_fits zt s"
  shows "world_inv (set_proc i p s w)"
proof -
  have i: "i < length (cw_procs w)" using assms(2) by (auto simp: proc_at_def split: if_splits)
  have other: "phase_gen (proc_at w j) = None" if "j \<noteq> i" for j
    using assms(1,2) that unfolding world_inv_def by (metis option.distinct(1))
  then have "proc_at w j = CpDone" if "j \<noteq> i" for j
    using that by (metis phase_gen.elims option.distinct(1))
  then have at: "proc_at (set_proc i p s w) = (\<lambda>j. if j = i then p else CpDone)"
    using i by (auto simp: proc_at_set fun_eq_iff)
  show ?thesis
    using assms unfolding world_inv_def at by auto
qed

lemma inv_zones_ok: "world_inv w \<Longrightarrow> zones_ok (cw_service w)"
  unfolding world_inv_def by blast

lemma holder_gen:
  "world_inv w \<Longrightarrow> phase_gen (proc_at w i) = Some g \<Longrightarrow> ds_generation (cw_service w) = g"
  unfolding world_inv_def by blast

lemma world_inv_step: "world_inv w \<Longrightarrow> world_inv (world_step w e)"
proof (cases e)
  case (WoService e')
  assume "world_inv w"
  from world_inv_shrink [OF this shrink_service_step] show ?thesis by (simp add: WoService)
next
  case (WoRequest now su)
  assume inv: "world_inv w"
  obtain s' r where req: "commissioning_request now su (cw_service w) = (s', r)" by fastforce
  from request_outcome [OF req] show ?thesis
  proof (elim disjE exE conjE)
    fix err
    assume "r = Inl err" "zones_shrink (cw_service w) s'"
    with world_inv_shrink [OF inv] req WoRequest show ?thesis by simp
  next
    fix t
    assume r: "r = Inr (ds_generation s')" "\<not> ds_conn_active (cw_service w)"
      and t: "zones_shrink (cw_service w) t"
        "s' = t\<lparr>ds_conn_active := True, ds_generation := ds_generation t + 1\<rparr>"
    from inv r(2) have "phase_gen (proc_at w i) = None" for i by (auto simp: world_inv_def)
    then have free: "proc_at w i = CpDone" for i by (metis phase_gen.elims option.distinct(1))
    let ?w = "w\<lparr>cw_service := s', cw_procs := cw_procs w @ [CpAdmitted (ds_generation s')]\<rparr>"
    have at: "proc_at ?w = (\<lambda>i. if i = length (cw_procs w) then CpAdmitted (ds_generation s') else CpDone)"
    proof
      fix i
      show "proc_at ?w i = (if i = length (cw_procs w) then CpAdmitted (ds_generation s') else CpDone)"
        using free [of i] by (cases "i < length (cw_procs w)") (simp_all add: proc_at_def nth_append)
    qed
    have "zones_ok t" by (rule shrink_ok [OF t(1) inv_zones_ok [OF inv]])
    then have "zones_ok s'" by (rule zones_ok_cong [rotated 2]) (simp_all add: t(2))
    then have "world_inv ?w" unfolding world_inv_def at by (simp add: t(2))
    then show ?thesis by (simp add: WoRequest req r(1))
  qed
next
  case (WoHandshakeFails now i)
  assume inv: "world_inv w"
  show ?thesis
  proof (cases "proc_at w i")
    case (CpAdmitted g)
    then have g: "ds_generation (cw_service w) = g" using holder_gen [OF inv, of i] by simp
    have "zones_ok (record_pase_failure (cw_service w))"
      by (rule shrink_ok [OF shrink_pase(1) inv_zones_ok [OF inv]])
    then have "zones_ok (handshake_failed now g (cw_service w))"
      unfolding handshake_failed_def
      by (rule zones_ok_cong [rotated 2]) (simp_all add: release_frame g record_pase_failure_def)
    from world_inv_done [OF inv _ this] CpAdmitted show ?thesis by (simp add: WoHandshakeFails)
  qed (use inv in \<open>simp_all add: WoHandshakeFails\<close>)
next
  case (WoAborts now i)
  assume inv: "world_inv w"
  have leaves: "world_inv (set_proc i CpDone (release_commissioning_connection now g (cw_service w)) w)"
    if g: "phase_gen (proc_at w i) = Some g" for g
  proof -
    from inv that have "ds_generation (cw_service w) = g" by (rule holder_gen)
    then have "zones_ok (release_commissioning_connection now g (cw_service w))"
      using zones_ok_cong [OF _ _ inv_zones_ok [OF inv]] by (simp add: release_frame)
    with g show ?thesis by (intro world_inv_done [OF inv]) simp_all
  qed
  show ?thesis
    using inv leaves by (cases "proc_at w i") (simp_all add: WoAborts)
next
  case (WoValidate now su zt i)
  assume inv: "world_inv w"
  show ?thesis
  proof (cases "proc_at w i")
    case (CpAdmitted g)
    then have g: "ds_generation (cw_service w) = g" using holder_gen [OF inv, of i] by simp
    obtain s r where v: "validate_zone now su zt (handshake_done (cw_service w)) = (s, r)" by fastforce
    have s: "zones_shrink (cw_service w) s"
      using shrink_trans [OF shrink_pase(2) validate_outcome(1)] v by (metis fst_conv)
    then have ok: "zones_ok s" by (rule shrink_ok [OF _ inv_zones_ok [OF inv]])
    from s have frame: "ds_conn_active s = ds_conn_active (cw_service w)"
      "ds_generation s = ds_generation (cw_service w)" by (simp_all add: zones_shrink_def)
    show ?thesis
    proof (cases r)
      case None
      with v validate_outcome(2) [of now su zt "handshake_done (cw_service w)"]
      have "zone_fits zt s" by simp
      with inv CpAdmitted ok frame have "world_inv (set_proc i (CpValidated g zt) s w)"
        by (intro world_inv_next [of w i g]) simp_all
      with None v CpAdmitted show ?thesis by (simp add: WoValidate)
    next
      case (Some err)
      have "zones_ok (release_commissioning_connection now g s)"
        by (rule zones_ok_cong [OF _ _ ok]) (simp_all add: release_frame frame g)
      from world_inv_done [OF inv _ this] Some v CpAdmitted show ?thesis by (simp add: WoValidate)
    qed
  qed (use inv in \<open>simp_all add: WoValidate\<close>)
next
  case (WoRegister now z i)
  assume inv: "world_inv w"
  show ?thesis
  proof (cases "proc_at w i")
    case (CpValidated g zt)
    with inv have "zone_fits zt (cw_service w)" unfolding world_inv_def by blast
    with inv have "zones_ok (commissioning_register now z zt (cw_service w))"
      by (intro register_ok) (simp_all add: inv_zones_ok)
    with inv CpValidated register_frame(2,3)
    have "world_inv (set_proc i (CpRegistered g (ds_epoch (cw_service w)) z)
        (commissioning_register now z zt (cw_service w)) w)"
      by (intro world_inv_next [of w i g]) simp_all
    with CpValidated show ?thesis by (simp add: WoRegister)
  qed (use inv in \<open>simp_all add: WoRegister\<close>)
next
  case (WoFinish now su i)
  assume inv: "world_inv w"
  show ?thesis
  proof (cases "proc_at w i")
    case (CpRegistered g epoch z)
    let ?t = "fst (exit_commissioning_for_epoch now su epoch (cw_service w))"
    from CpRegistered have g: "ds_generation (cw_service w) = g"
      using holder_gen [OF inv, of i] by simp
    have t: "same_zones (cw_service w) ?t" by (rule service_frame)
    have "zones_ok (commissioning_finish now su epoch g z (cw_service w))"
      by (rule zones_ok_cong [of _ "cw_service w"])
        (use inv_zones_ok [OF inv] t g in
          \<open>simp_all add: commissioning_finish_def release_frame same_zones_def\<close>)
    from world_inv_done [OF inv _ this] CpRegistered show ?thesis by (simp add: WoFinish)
  qed (use inv in \<open>simp_all add: WoFinish\<close>)
qed

interpretation comm_machine: invariant_machine world_step world_inv
  by unfold_locales (rule world_inv_step)

definition comm_start :: "device_service \<Rightarrow> comm_world" where
  "comm_start s = \<lparr>cw_service = s, cw_procs = []\<rparr>"

lemma comm_start_inv: "zones_ok s \<Longrightarrow> world_inv (comm_start s)"
  by (simp add: comm_start_def world_inv_def proc_at_def)

lemma comm_run_inv: "zones_ok s \<Longrightarrow> world_inv (foldl world_step (comm_start s) es)"
  by (rule comm_machine.run_inv [OF comm_start_inv])


definition two_slots :: device_config where
  "two_slots = \<lparr>dcf_max_zones = 2, dcf_failsafe_timeout = 2 * hour, dcf_test_enable_key = '''',
     dcf_connection_cooldown = 0, dcf_handshake_timeout = 85 * second, dcf_listen_pairing = False\<rparr>"

abbreviation all_fine :: surroundings where
  "all_fine \<equiv> \<lparr>su_listen_ok = True, su_advertise_ok = True\<rparr>"

definition running_service :: device_service where
  "running_service = (new_device_service two_slots None False)\<lparr>ds_state := SvcRunning\<rparr>"

lemma running_service_ok: "zones_ok running_service"
  by (simp add: zones_ok_def running_service_def new_device_service_def non_test_zone_count_def
      two_slots_def)

text \<open>Two connections at once; the second is admitted when the first is done, and its LOCAL
  zone is refused because the first made one.\<close>

definition busy_run :: "world_op list" where
  "busy_run =
     [WoRequest 1 all_fine, WoRequest 2 all_fine, WoValidate 3 all_fine 2 0, WoRegister 4 ''a'' 0,
      WoFinish 5 all_fine 0, WoRequest 6 all_fine, WoValidate 7 all_fine 2 1,
      WoRequest 8 all_fine, WoValidate 9 all_fine 1 2, WoRegister 10 ''b'' 2]"

lemma busy_run_zones:
  "map (\<lambda>(z, cz). (z, cz_type cz))
     (ds_zones (cw_service (foldl world_step (comm_start running_service) busy_run)))
   = [(''a'', 2), (''b'', 1)]"
  by code_simp


end
