(* ===== verification/ZoneLifecycle.thy ===== *)
theory ZoneLifecycle
  imports DeviceZones
begin

text \<open>
  What becomes of single zones of a device service: which zone the connection of a controller is
  given to, what a removal leaves, what survives a restart, and when the failsafe of a zone fires.
\<close>

section \<open>Reconnection\<close>

lemma find_zone:
  assumes "gm_wf m" and "find (\<lambda>(z, c). P z c) m = Some (z, c)"
  shows "gm_get m z = Some c \<and> P z c"
proof -
  from assms(2) have "(z, c) \<in> set m" and P: "P z c"
    by (auto simp: find_Some_iff in_set_conv_nth)
  with assms(1) show ?thesis by (simp add: gm_get_in)
qed

lemma find_zone_None:
  "gm_wf m \<Longrightarrow> find (\<lambda>(z, c). P z c) m = None \<longleftrightarrow> (\<forall>z c. gm_get m z = Some c \<longrightarrow> \<not> P z c)"
  by (force simp: find_None_iff gm_get_in)

lemma match_zone_Some:
  assumes "gm_wf (ds_zones s)" and "match_zone_by_peer_cert ca online p s = Some z"
  shows "\<exists>cz. gm_get (ds_zones s) z = Some cz \<and> cz_connected cz = online \<and> ca z = Some p \<and> p \<noteq> []"
proof -
  from assms(2) obtain cz where "p \<noteq> []" and
    f: "find (\<lambda>(z, cz). cz_connected cz = online \<and> ca z = Some p) (ds_zones s) = Some (z, cz)"
    by (auto simp: match_zone_by_peer_cert_def split: if_splits)
  with find_zone [OF assms(1) f] show ?thesis by blast
qed

lemma match_zone_None:
  assumes "gm_wf (ds_zones s)" and "p \<noteq> []"
  shows "match_zone_by_peer_cert ca online p s = None \<longleftrightarrow>
    (\<forall>z cz. gm_get (ds_zones s) z = Some cz \<longrightarrow> cz_connected cz = online \<longrightarrow> ca z \<noteq> Some p)"
  using find_zone_None [OF assms(1), of "\<lambda>z cz. cz_connected cz = online \<and> ca z = Some p"] assms(2)
  by (auto simp: match_zone_by_peer_cert_def)

lemma operational_result:
  "identify_zone ca peers s = Some (z, replace) \<Longrightarrow>
     snd (handle_operational_connection now su ca peers sid s) = Some z"
  "identify_zone ca peers s = None \<Longrightarrow>
     handle_operational_connection now su ca peers sid s = (s, None)"
  by (simp_all add: handle_operational_connection_def Let_def)

lemma sessions_mark [simp]: "ds_sessions (mark_zone_connected now z s) = ds_sessions s"
  by (simp add: mark_zone_connected_def change_zone_def change_timer_def Let_def split: option.split)

lemma operational_sessions:
  assumes "identify_zone ca peers s = Some (z, False)"
  shows "ds_sessions (fst (handle_operational_connection now su ca peers sid s))
    = gm_put z sid (ds_sessions s)"
proof -
  have "ds_sessions (consume_auto_reentry su t) = ds_sessions t" for t
    using same_zones_consume [of t su] by (simp add: same_zones_def)
  then show ?thesis by (simp add: handle_operational_connection_def assms Let_def)
qed

text \<open>A controller whose zone still counts as connected, because the device has not noticed the
  loss of its connection, comes back while some other zone is disconnected: the device gives it
  the session of a zone with another authority. The stale session of its own zone stays. The
  fallback for certificates without a key id comes before the connected zones are looked at.\<close>

theorem reconnect_takes_other_zone:
  assumes "gm_wf (ds_zones s)"
    and "gm_get (ds_zones s) a = Some ca_zone" and "cz_connected ca_zone" and "ca a = Some p" and "p \<noteq> []"
    and "\<And>z. ca z = Some p \<Longrightarrow> z = a"
    and "gm_get (ds_zones s) b = Some cb" and "\<not> cz_connected cb"
    and "handle_operational_connection now su ca [p] sid s = (s', r)"
  shows "\<exists>z cz. r = Some z \<and> gm_get (ds_zones s) z = Some cz \<and> \<not> cz_connected cz \<and> ca z \<noteq> Some p \<and>
    gm_get (ds_sessions s') z = Some sid \<and> gm_get (ds_sessions s') a = gm_get (ds_sessions s) a"
proof -
  have "match_zone_by_peer_cert ca False p s = None"
    unfolding match_zone_None [OF assms(1,5)] using assms(2,3,6) by fastforce
  moreover obtain z cz where f: "find (\<lambda>(z, cz). \<not> cz_connected cz) (ds_zones s) = Some (z, cz)"
    using find_zone_None [OF assms(1), of "\<lambda>z cz. \<not> cz_connected cz"] assms(7,8) by fastforce
  ultimately have id: "identify_zone ca [p] s = Some (z, False)" by (simp add: identify_zone_def)
  from find_zone [OF assms(1) f] have z: "gm_get (ds_zones s) z = Some cz" "\<not> cz_connected cz"
    by simp_all
  then have "z \<noteq> a" using assms(2,3) by auto
  then have "ca z \<noteq> Some p" using assms(6) by blast
  moreover have "r = Some z" using operational_result(1) [OF id, of now su sid] assms(9) by simp
  moreover have "ds_sessions s' = gm_put z sid (ds_sessions s)"
    using operational_sessions [OF id, of now su sid] assms(9) by simp
  ultimately show ?thesis using z \<open>z \<noteq> a\<close> by (auto simp: gomap_simps)
qed

text \<open>Where the own zone of the peer is not marked as connected, or no zone is disconnected, a
  peer whose key id one zone has gets that zone.\<close>

theorem reconnect_finds_own_zone:
  assumes "gm_wf (ds_zones s)" and "gm_get (ds_zones s) a = Some cz" and "ca a = Some p" and "p \<noteq> []"
    and "\<And>z. ca z = Some p \<Longrightarrow> z = a"
    and "cz_connected cz \<longrightarrow> (\<forall>z c. gm_get (ds_zones s) z = Some c \<longrightarrow> cz_connected c)"
  shows "snd (handle_operational_connection now su ca [p] sid s) = Some a"
proof -
  have matches: "match_zone_by_peer_cert ca (cz_connected cz) p s = Some a"
  proof (cases "match_zone_by_peer_cert ca (cz_connected cz) p s")
    case None
    with assms(2,3) show ?thesis unfolding match_zone_None [OF assms(1,4)] by blast
  next
    case (Some z)
    with match_zone_Some [OF assms(1) Some] assms(5) show ?thesis by blast
  qed
  have "\<exists>replace. identify_zone ca [p] s = Some (a, replace)"
  proof (cases "cz_connected cz")
    case True
    then have all: "\<forall>z c. gm_get (ds_zones s) z = Some c \<longrightarrow> cz_connected c" using assms(6) by simp
    then have "match_zone_by_peer_cert ca False p s = None"
      unfolding match_zone_None [OF assms(1,4)] by blast
    moreover have "find (\<lambda>(z, cz). \<not> cz_connected cz) (ds_zones s) = None"
      using find_zone_None [OF assms(1), of "\<lambda>z cz. \<not> cz_connected cz"] all by blast
    ultimately have "identify_zone ca [p] s = Some (a, True)"
      using matches True by (simp add: identify_zone_def)
    then show ?thesis by blast
  next
    case False
    with matches have "identify_zone ca [p] s = Some (a, False)" by (simp add: identify_zone_def)
    then show ?thesis by blast
  qed
  then show ?thesis using operational_result(1) by blast
qed

text \<open>Zone a is commissioned and connects; then zone b is commissioned, and before it connects
  the controller of zone a comes back.\<close>

definition key_of_zone :: "string \<Rightarrow> u8 list option" where
  "key_of_zone z = (if z = ''a'' then Some [1] else if z = ''b'' then Some [2] else None)"

lemma key_of_a: "key_of_zone ''a'' = Some [1]"
  by (simp add: key_of_zone_def)

lemma key_of_a_only: "key_of_zone z = Some [1] \<Longrightarrow> z = ''a''"
  by (simp add: key_of_zone_def split: if_splits)

definition two_zones :: device_service where
  "two_zones = cw_service (foldl world_step (comm_start running_service)
     [WoRequest 1 all_fine, WoValidate 2 all_fine 2 0, WoRegister 3 ''a'' 0, WoFinish 4 all_fine 0,
      WoService (SoOperational 5 all_fine key_of_zone [[1]] 7),
      WoRequest 8 all_fine, WoValidate 9 all_fine 1 1, WoRegister 10 ''b'' 1])"

lemma two_zones_zones:
  "map (\<lambda>(z, cz). (z, cz_connected cz)) (ds_zones two_zones) = [(''a'', True), (''b'', False)]"
  by code_simp

lemma two_zones_ok:
  "gm_wf (ds_zones two_zones)"
  "\<exists>cz. gm_get (ds_zones two_zones) ''a'' = Some cz \<and> cz_connected cz"
  "\<exists>cz. gm_get (ds_zones two_zones) ''b'' = Some cz \<and> \<not> cz_connected cz"
proof -
  from two_zones_zones obtain c1 c2 where z: "ds_zones two_zones = [(''a'', c1), (''b'', c2)]"
    and "cz_connected c1" "\<not> cz_connected c2"
    by (auto simp: map_eq_Cons_conv)
  then show "gm_wf (ds_zones two_zones)"
    "\<exists>cz. gm_get (ds_zones two_zones) ''a'' = Some cz \<and> cz_connected cz"
    "\<exists>cz. gm_get (ds_zones two_zones) ''b'' = Some cz \<and> \<not> cz_connected cz"
    by (simp_all add: gm_wf_def)
qed

theorem reconnect_takes_other_zone_witness:
  "snd (handle_operational_connection 11 all_fine key_of_zone [[1]] 8 two_zones) \<notin> {None, Some ''a''}"
proof -
  obtain s' r where h: "handle_operational_connection 11 all_fine key_of_zone [[1]] 8 two_zones = (s', r)"
    by fastforce
  from two_zones_ok(2,3) obtain c1 c2 where
    "gm_get (ds_zones two_zones) ''a'' = Some c1" "cz_connected c1"
    "gm_get (ds_zones two_zones) ''b'' = Some c2" "\<not> cz_connected c2" by blast
  note b = reconnect_takes_other_zone [OF two_zones_ok(1) this(1,2) key_of_a _ key_of_a_only this(3,4) h]
  then obtain z where "r = Some z" "key_of_zone z \<noteq> Some [1]" by blast
  with key_of_a show ?thesis by (auto simp: h)
qed

theorem reconnect_finds_own_zone_witness:
  "snd (handle_operational_connection 11 all_fine key_of_zone [[2]] 8 two_zones) = Some ''b''"
proof -
  from two_zones_ok(3) obtain c2 where
    c: "gm_get (ds_zones two_zones) ''b'' = Some c2" "\<not> cz_connected c2" by blast
  show ?thesis
    by (rule reconnect_finds_own_zone [OF two_zones_ok(1) c(1)])
      (use c(2) in \<open>auto simp: key_of_zone_def split: if_splits\<close>)
qed

lemma reconnect_result_b:
  "snd (handle_operational_connection 11 all_fine key_of_zone [[2]] 8 two_zones) = Some ''b''"
  by code_simp

section \<open>Removal\<close>

lemma remove_zone_result:
  assumes "gm_get (ds_zones s) z = Some cz"
  shows "snd (device_remove_zone now su z s) = None"
    and "ds_zones (fst (device_remove_zone now su z s)) = ds_zones (forget_zone z s)"
    and "ds_sessions (fst (device_remove_zone now su z s)) = ds_sessions (forget_zone z s)"
    and "ds_zone_index (fst (device_remove_zone now su z s)) = ds_zone_index (forget_zone z s)"
    and "ds_failsafe_timers (fst (device_remove_zone now su z s)) = ds_failsafe_timers (forget_zone z s)"
    and "ds_timer_objects (fst (device_remove_zone now su z s)) = ds_timer_objects (forget_zone z s)"
    and "ds_durations (fst (device_remove_zone now su z s)) = ds_durations (forget_zone z s)"
  using remove_zone_frame [OF assms, of now su] assms
  by (simp_all add: same_zones_def) (simp add: device_remove_zone_def Let_def)

lemma remove_zone_resolver:
  assumes "gm_get (ds_zones s) z = Some cz"
  shows "ds_resolver (fst (device_remove_zone now su z s)) =
    map_option (\<lambda>lr. fst (clear_zone now z lr)) (ds_resolver s)"
proof -
  have "ds_resolver (update_pairing_listening t) = ds_resolver t"
    "ds_resolver (fst (enter_commissioning_mode su t)) = ds_resolver t" for t
    using same_zones_pairing [of t] same_zones_enter [of t su] by (simp_all add: same_zones_def)
  moreover have "ds_resolver (forget_zone z s) = ds_resolver s"
    by (simp add: forget_zone_def change_timer_def Let_def split: option.split)
  ultimately show ?thesis by (simp add: device_remove_zone_def assms Let_def)
qed

lemma del_absent: "gm_get m k = None \<Longrightarrow> gm_del k m = m"
  by (simp add: delete_id map_of_eq_None_iff)

lemma forget_parts [simp]:
  "ds_sessions (forget_zone z s) = gm_del z (ds_sessions s)"
  "ds_failsafe_timers (forget_zone z s) = gm_del z (ds_failsafe_timers s)"
  "ds_zone_index (forget_zone z s) = gm_del z (ds_zone_index s)"
  "ds_durations (forget_zone z s) =
     (case gm_get (ds_zone_index s) z of
        None \<Rightarrow> ds_durations s | Some i \<Rightarrow> dm_cancel_zone_timers i (ds_durations s))"
  "ds_timer_objects (forget_zone z s) =
     (case gm_get (ds_failsafe_timers s) z of
        None \<Rightarrow> ds_timer_objects s
      | Some i \<Rightarrow> ds_timer_objects (change_timer i (\<lambda>t. fst (fs_reset t)) s))"
  by (cases "gm_get (ds_failsafe_timers s) z"; cases "gm_get (ds_zone_index s) z";
      simp add: forget_zone_def change_timer_def Let_def del_absent)+

lemma change_timer_at:
  "i < length (ds_timer_objects s) \<Longrightarrow>
     ds_timer_objects (change_timer i f s) ! i = (fst (ds_timer_objects s ! i), f (snd (ds_timer_objects s ! i)))"
  by (simp add: change_timer_def)

lemma cleared_zone_values:
  assumes "lr_inv lr"
  shows "mz_get (lr_consumption (fst (clear_zone now z lr))) z = None"
    and "mz_get (lr_production (fst (clear_zone now z lr))) z = None"
  using lr_invD(1,2) [OF assms] by (simp_all add: clear_zone_def Let_def resolve_limits_get values_ok_def)


text \<open>Zone b of the two zones is removed by the test command of a TEST zone, as an example.\<close>

definition plain_control :: energy_control where
  "plain_control = \<lparr>ec_control_state = ControlStateAutonomous, ec_effective_consumption = None,
     ec_effective_production = None\<rparr>"

definition two_zones_resolver :: device_service where
  "two_zones_resolver = two_zones\<lparr>ds_resolver := Some (new_limit_resolver plain_control)\<rparr>"

lemma two_zones_durations: "ds_durations two_zones = dm_set_on_expiry True new_dur_manager"
  by code_simp


section \<open>Failsafe\<close>

lemma reset_start_armed:
  assumes "fs_inv t"
  shows "\<exists>j. armed_at (fs_rt (fst (fs_start now (fst (fs_reset t))))) j
      = Some (now + fs_duration t, EnterFailsafe)"
    and "fs_state (fst (fs_start now (fst (fs_reset t)))) = StateTimerRunning"
    and "fs_on_enter (fst (fs_start now (fst (fs_reset t)))) = fs_on_enter t"
proof -
  have n: "fs_state (fst (fs_reset t)) \<in> {StateNormal, StateGracePeriod}" by (simp add: fs_reset_def)
  have d: "fs_duration (fst (fs_reset t)) = fs_duration t" "fs_on_enter (fst (fs_reset t)) = fs_on_enter t"
    by (simp_all add: fs_reset_def drop_grace_timer_def drop_failsafe_timer_def)
  show "\<exists>j. armed_at (fs_rt (fst (fs_start now (fst (fs_reset t))))) j
      = Some (now + fs_duration t, EnterFailsafe)"
    using fs_start_armed(2) [OF n, of now] d by auto
  show "fs_state (fst (fs_start now (fst (fs_reset t)))) = StateTimerRunning"
    by (rule fs_start_armed(1) [OF n])
  show "fs_on_enter (fst (fs_start now (fst (fs_reset t)))) = fs_on_enter t"
    using d by (simp add: fs_start_def Let_def split_beta)
qed

lemma same_zones_objects:
  "same_zones s t \<Longrightarrow> ds_timer_objects t = ds_timer_objects s \<and> ds_zones t = ds_zones s \<and>
     ds_failsafe_timers t = ds_failsafe_timers s"
  by (simp add: same_zones_def)

lemma disconnect_objects [simp]:
  "ds_timer_objects (handle_zone_disconnect now su z s) = ds_timer_objects s"
  "ds_failsafe_timers (handle_zone_disconnect now su z s) = ds_failsafe_timers s"
  "gm_get (ds_zones s) y = Some cz \<Longrightarrow> \<exists>c. gm_get (ds_zones (handle_zone_disconnect now su z s)) y = Some c"
proof -
  define u where "u = emit_event (EvDisconnected z)
    (change_zone z (\<lambda>cz. cz\<lparr>cz_connected := False, cz_last_seen := now\<rparr>) s)"
  have "ds_timer_objects u = ds_timer_objects s" "ds_failsafe_timers u = ds_failsafe_timers s"
    by (simp_all add: u_def change_zone_def split: option.split)
  moreover have "gm_get (ds_zones s) y = Some cz \<Longrightarrow> \<exists>c. gm_get (ds_zones u) y = Some c"
    by (simp add: u_def change_zone_def gomap_simps split: option.split)
  moreover have "same_zones u (handle_zone_disconnect now su z s)"
    by (simp add: handle_zone_disconnect_def Let_def service_frame flip: u_def)
  ultimately show "ds_timer_objects (handle_zone_disconnect now su z s) = ds_timer_objects s"
    "ds_failsafe_timers (handle_zone_disconnect now su z s) = ds_failsafe_timers s"
    "gm_get (ds_zones s) y = Some cz \<Longrightarrow> \<exists>c. gm_get (ds_zones (handle_zone_disconnect now su z s)) y = Some c"
    by (simp_all add: same_zones_objects)
qed

lemma session_close_objects [simp]:
  "ds_timer_objects (handle_zone_session_close now su z c s) = ds_timer_objects s"
  "ds_failsafe_timers (handle_zone_session_close now su z c s) = ds_failsafe_timers s"
  "gm_get (ds_zones s) y = Some cz \<Longrightarrow>
     \<exists>c'. gm_get (ds_zones (handle_zone_session_close now su z c s)) y = Some c'"
  by (simp_all add: handle_zone_session_close_def split: option.split)

lemma mark_connected_zone:
  "gm_get (ds_zones (mark_zone_connected now z s)) z =
     map_option (\<lambda>cz. cz\<lparr>cz_connected := True, cz_last_seen := now\<rparr>) (gm_get (ds_zones s) z)"
  by (simp add: mark_zone_connected_def change_zone_def change_timer_def Let_def gomap_simps
      split: option.split)

lemma operational_timer:
  assumes "handle_operational_connection now su ca peers sid s = (s', Some z)"
    and "gm_get (ds_failsafe_timers s) z = Some i" and "i < length (ds_timer_objects s)"
    and "t = snd (ds_timer_objects s ! i)"
  shows "ds_timer_objects s' ! i = (fst (ds_timer_objects s ! i), fst (fs_start now (fst (fs_reset t))))"
    and "length (ds_timer_objects s') = length (ds_timer_objects s)"
    and "gm_get (ds_zones s) z = Some cz \<Longrightarrow> \<exists>c. gm_get (ds_zones s') z = Some c \<and> cz_connected c"
proof -
  obtain r where id: "identify_zone ca peers s = Some (z, r)"
    using assms(1) by (cases "identify_zone ca peers s")
      (auto simp: handle_operational_connection_def Let_def)
  define s1 where "s1 = (if r then handle_zone_session_close now su z None s else s)"
  have s1: "ds_timer_objects s1 = ds_timer_objects s" "ds_failsafe_timers s1 = ds_failsafe_timers s"
    by (simp_all add: s1_def)
  define s2 where "s2 = mark_zone_connected now z s1"
  have "same_zones (s2\<lparr>ds_sessions := gm_put z sid (ds_sessions s2)\<rparr>) s'"
    using assms(1) by (auto simp: handle_operational_connection_def id Let_def s1_def s2_def
        intro: same_zones_trans [OF same_zones_emit same_zones_consume])
  then have s': "ds_timer_objects s' = ds_timer_objects s2" "ds_zones s' = ds_zones s2"
    by (simp_all add: same_zones_def)
  then show "ds_timer_objects s' ! i = (fst (ds_timer_objects s ! i), fst (fs_start now (fst (fs_reset t))))"
    "length (ds_timer_objects s') = length (ds_timer_objects s)"
    using assms(2-4) s1
    by (auto simp: s' s2_def mark_zone_connected_def Let_def change_timer_def change_zone_def
        split: option.split)
  assume "gm_get (ds_zones s) z = Some cz"
  then have "\<exists>c. gm_get (ds_zones s1) z = Some c" by (simp add: s1_def)
  then show "\<exists>c. gm_get (ds_zones s') z = Some c \<and> cz_connected c"
    by (auto simp: s' s2_def mark_connected_zone)
qed

lemma callback_waits:
  assumes "i < length (ds_timer_objects s)" and "ds_timer_objects s ! i = (z, t)"
    and "fs_state t = StateTimerRunning" and "fs_on_enter t"
    and "armed_at (fs_rt t) j = Some (deadline, EnterFailsafe)" and "deadline \<le> later"
  shows "ds_callbacks (timer_runs i j (timer_fires later i j s)) = ds_callbacks s @ [z]"
    and "ds_zones (timer_runs i j (timer_fires later i j s)) = ds_zones s"
proof -
  have "\<exists>rt. take_fired j (fs_rt (fs_fire later j t)) = Some (EnterFailsafe, rt)"
    using assms(5,6) by (simp add: take_fired_def fs_fire_def fire_timer_def gomap_simps)
  then obtain rt where "take_fired j (fs_rt (fs_fire later j t)) = Some (EnterFailsafe, rt)" ..
  then have "fs_run_fired j (fs_fire later j t) = fs_enter_failsafe ((fs_fire later j t)\<lparr>fs_rt := rt\<rparr>)"
    by (simp add: fs_run_fired_def)
  then have "FsEnter (fs_limits t) \<in> set (snd (fs_run_fired j (fs_fire later j t)))"
    using assms(3,4) by (simp add: fs_enter_failsafe_def fs_fire_def)
  then have "list_ex (\<lambda>e. case e of FsEnter _ \<Rightarrow> True | _ \<Rightarrow> False) (snd (fs_run_fired j (fs_fire later j t)))"
    unfolding list_ex_iff by (rule rev_bexI) simp
  moreover have "ds_timer_objects (timer_fires later i j s) ! i = (z, fs_fire later j t)"
    using assms(1,2) by (simp add: timer_fires_def change_timer_def)
  moreover have "i < length (ds_timer_objects (timer_fires later i j s))"
    "ds_callbacks (timer_fires later i j s) = ds_callbacks s"
    "ds_zones (timer_fires later i j s) = ds_zones s"
    using assms(1) by (simp_all add: timer_fires_def change_timer_def)
  ultimately show "ds_callbacks (timer_runs i j (timer_fires later i j s)) = ds_callbacks s @ [z]"
    "ds_zones (timer_runs i j (timer_fires later i j s)) = ds_zones s"
    by (simp_all add: timer_runs_def split_beta Let_def)
qed

text \<open>C24. The failsafe timer of a zone runs from its connection, not from the loss of it: nothing in
  the service stops or restarts it while the zone stays connected, so it fires after the configured
  time and the zone counts as in failsafe with its connection up.\<close>

theorem failsafe_while_connected:
  assumes "handle_operational_connection now su ca peers sid s = (s1, Some z)"
    and "gm_get (ds_zones s) z = Some cz" and "gm_get (ds_failsafe_timers s) z = Some i"
    and "i < length (ds_timer_objects s)" and "ds_timer_objects s ! i = (z, t)"
    and "fs_inv t" and "fs_on_enter t" and "ds_callbacks s1 = []"
    and "now + fs_duration t \<le> later"
  shows "\<exists>j c. let s2 = failsafe_callback 0 (timer_runs i j (timer_fires later i j s1))
     in gm_get (ds_zones s2) z = Some c \<and> cz_connected c \<and> cz_failsafe_active c \<and>
        EvFailsafeTriggered z \<in> set (ds_events s2)"
proof -
  note timer = operational_timer [OF assms(1,3,4) refl]
  note armed = reset_start_armed [OF assms(6), of now]
  from armed(1) obtain j where j: "armed_at (fs_rt (fst (fs_start now (fst (fs_reset t))))) j
      = Some (now + fs_duration t, EnterFailsafe)" ..
  let ?s = "timer_runs i j (timer_fires later i j s1)"
  have cb: "ds_callbacks ?s = [z]" "ds_zones ?s = ds_zones s1"
    using callback_waits [OF _ _ armed(2) _ j assms(9), of i s1 z] timer(1,2) assms(4,5,7,8) armed(3)
    by simp_all
  from timer(3) [OF assms(2)] obtain c where c: "gm_get (ds_zones s1) z = Some c" "cz_connected c"
    by blast
  have "gm_get (ds_zones (failsafe_callback 0 ?s)) z = Some (c\<lparr>cz_failsafe_active := True\<rparr>)"
    using c(1) cb by (simp add: failsafe_callback_def handle_failsafe_def Let_def change_zone_def
        gomap_simps)
  moreover have "EvFailsafeTriggered z \<in> set (ds_events (failsafe_callback 0 ?s))"
    using cb by (simp add: failsafe_callback_def handle_failsafe_def Let_def emit_event_def)
  ultimately show ?thesis using c(2) by (intro exI [of _ j]) (simp add: Let_def)
qed

text \<open>Zone b of the two zones, from its connection to its failsafe two hours later.\<close>

definition zone_b_timer :: failsafe where
  "zone_b_timer = fst (fs_start 10 (fs_set_callbacks False True False
     (fst (fs_set_duration (2 * hour) fs_new_timer))))"

lemma zone_b_timer_ok: "fs_inv zone_b_timer"
  unfolding zone_b_timer_def
  by (intro fs_inv_start) (simp add: fs_inv_def fs_set_callbacks_def fs_set_duration_def fs_new_timer_def
      new_failsafe_def)

lemma zone_b_facts:
  "gm_get (ds_failsafe_timers two_zones) ''b'' = Some 1"
  "ds_timer_objects two_zones ! 1 = (''b'', zone_b_timer)" "length (ds_timer_objects two_zones) = 2"
  "ds_callbacks (fst (handle_operational_connection 11 all_fine key_of_zone [[2]] 8 two_zones)) = []"
  "fs_on_enter zone_b_timer" "fs_duration zone_b_timer = 2 * hour"
  by code_simp+

theorem failsafe_while_connected_witness:
  "\<exists>s1 j c. s1 = fst (handle_operational_connection 11 all_fine key_of_zone [[2]] 8 two_zones) \<and>
     (let s2 = failsafe_callback 0 (timer_runs 1 j (timer_fires (11 + 2 * hour) 1 j s1))
      in gm_get (ds_zones s2) ''b'' = Some c \<and> cz_connected c \<and> cz_failsafe_active c)"
proof -
  obtain s1 r where h: "handle_operational_connection 11 all_fine key_of_zone [[2]] 8 two_zones = (s1, r)"
    by fastforce
  with reconnect_result_b have "r = Some ''b''" by simp
  with h have h': "handle_operational_connection 11 all_fine key_of_zone [[2]] 8 two_zones = (s1, Some ''b'')"
    by simp
  from two_zones_ok(3) obtain cz where b: "gm_get (ds_zones two_zones) ''b'' = Some cz" by blast
  have len: "1 < length (ds_timer_objects two_zones)" by (simp add: zone_b_facts)
  have cb: "ds_callbacks s1 = []" using zone_b_facts(4) h by simp
  have later: "11 + fs_duration zone_b_timer \<le> 11 + 2 * hour" by (simp add: zone_b_facts)
  from failsafe_while_connected [OF h' b zone_b_facts(1) len zone_b_facts(2) zone_b_timer_ok
      zone_b_facts(5) cb later] h show ?thesis by (auto simp: Let_def)
qed

section \<open>Restart\<close>

lemma put_fresh: "gm_get m k = None \<Longrightarrow> gm_put k v m = m @ [(k, v)]"
  by (induction m) (auto split: if_splits)

text \<open>Copying a map entry by entry.\<close>

lemma copy_map:
  assumes "gm_wf (acc @ map (\<lambda>(k, v). (k, f v)) m)"
  shows "foldl (\<lambda>a (k, v). gm_put k (f v) a) acc m = acc @ map (\<lambda>(k, v). (k, f v)) m"
  using assms
proof (induction m arbitrary: acc)
  case Nil
  then show ?case by simp
next
  case (Cons p m)
  obtain k v where p: "p = (k, v)" by fastforce
  with Cons.prems have "gm_get acc k = None"
    by (auto simp: gm_wf_def map_of_eq_None_iff)
  with Cons.IH [of "acc @ [(k, f v)]"] Cons.prems show ?case by (simp add: p put_fresh)
qed

lemma save_maps:
  assumes "gm_wf (ds_failsafe_timers s)" and "gm_wf (ds_zone_index s)"
  shows "dst_failsafe (save_state now s) =
      map (\<lambda>(z, i). (z, fs_take_snapshot now (snd (ds_timer_objects s ! i)))) (ds_failsafe_timers s)"
    and "dst_zone_index (save_state now s) = ds_zone_index s"
    and "dst_zones (save_state now s) = map (\<lambda>(z, cz). \<lparr>zm_zone_id = z, zm_zone_type = cz_type cz,
      zm_joined_at = cz_last_seen cz\<rparr>) (ds_zones s)"
proof -
  have wf: "gm_wf ([] @ map (\<lambda>(k, v). (k, f v)) m) = gm_wf m" for f :: "'b \<Rightarrow> 'c" and m :: "('a \<times> 'b) list"
    by (simp add: gm_wf_def comp_def split_beta)
  show "dst_failsafe (save_state now s) =
      map (\<lambda>(z, i). (z, fs_take_snapshot now (snd (ds_timer_objects s ! i)))) (ds_failsafe_timers s)"
    using copy_map [of "[]" "\<lambda>i. fs_take_snapshot now (snd (ds_timer_objects s ! i))" "ds_failsafe_timers s"]
      assms(1) by (simp add: save_state_def store_save_def wf del: append_Nil)
  show "dst_zone_index (save_state now s) = ds_zone_index s"
    using copy_map [of "[]" "\<lambda>i. i" "ds_zone_index s"] assms(2)
    by (simp add: save_state_def store_save_def)
  show "dst_zones (save_state now s) = map (\<lambda>(z, cz). \<lparr>zm_zone_id = z, zm_zone_type = cz_type cz,
      zm_joined_at = cz_last_seen cz\<rparr>) (ds_zones s)"
    by (simp add: save_state_def store_save_def)
qed

text \<open>A snapshot of a running timer whose time is over hangs the load.\<close>

definition hangs :: "time \<Rightarrow> fs_snapshot \<Rightarrow> bool" where
  "hangs now snap \<longleftrightarrow> sn_state snap = StateTimerRunning \<and> restore_remaining now snap \<le> 0"

abbreviation restored_timer :: "time \<Rightarrow> fs_snapshot \<Rightarrow> failsafe" where
  "restored_timer now snap \<equiv>
     fst (fs_restore now (Some snap) (fs_set_callbacks False True False fs_new_timer))"

lemma restore_timer_cases:
  "restore_timer now (Some s) (z, snap) =
     (if hangs now snap then None
      else if sn_state snap = StateNormal then Some s
      else Some (s\<lparr>ds_timer_objects := ds_timer_objects s @ [(z, restored_timer now snap)],
             ds_failsafe_timers := gm_put z (length (ds_timer_objects s)) (ds_failsafe_timers s)\<rparr>))"
  by (cases "sn_state snap")
    (auto simp: restore_timer_def hangs_def fs_restore_def Let_def split_beta fs_set_callbacks_def
      drop_grace_timer_def drop_failsafe_timer_def)

lemma restore_timer_None [simp]: "restore_timer now None e = None"
  by (simp add: restore_timer_def split: prod.split)

lemma restore_timers_None [simp]: "foldl (restore_timer now) None m = None"
  by (induction m) simp_all

lemma restore_timers_hang:
  "foldl (restore_timer now) (Some s) m = None \<longleftrightarrow> (\<exists>(z, snap) \<in> set m. hangs now snap)"
proof (induction m arbitrary: s)
  case Nil
  then show ?case by simp
next
  case (Cons e m)
  obtain z snap where e: "e = (z, snap)" by fastforce
  show ?case using Cons.IH by (cases "hangs now snap") (simp_all add: e restore_timer_cases)
qed

lemma load_hangs:
  "load_state now (Some st) s = None \<longleftrightarrow> (\<exists>(z, snap) \<in> set (dst_failsafe st). hangs now snap)"
  by (simp add: load_state_def Let_def restore_timers_hang)

lemma snapshot_hangs:
  assumes "now \<le> now'"
  shows "hangs now' (fs_take_snapshot now t) \<longleftrightarrow>
    fs_state t = StateTimerRunning \<and> fs_started_at t + fs_duration t \<le> now"
  using assms by (auto simp: hangs_def fs_take_snapshot_def restore_remaining_def Let_def)

text \<open>A device whose state is saved while a failsafe timer is due but has not got the lock yet does
  not come up again: the load of the file waits for a lock that it holds itself. In all other
  cases the load returns.\<close>

theorem due_failsafe_hangs_restart:
  assumes "gm_wf (ds_failsafe_timers s)" and "gm_wf (ds_zone_index s)" and "now \<le> now'"
  shows "load_state now' (Some (save_state now s)) s0 = None \<longleftrightarrow>
    (\<exists>z t. zone_timer z s = Some t \<and> fs_state t = StateTimerRunning \<and>
       fs_started_at t + fs_duration t \<le> now)"
proof -
  have "(\<exists>(z, snap) \<in> set (dst_failsafe (save_state now s)). hangs now' snap) \<longleftrightarrow>
      (\<exists>(z, i) \<in> set (ds_failsafe_timers s). hangs now' (fs_take_snapshot now (snd (ds_timer_objects s ! i))))"
    unfolding save_maps(1) [OF assms(1,2)] by force
  also have "\<dots> \<longleftrightarrow> (\<exists>z t. zone_timer z s = Some t \<and> fs_state t = StateTimerRunning \<and>
       fs_started_at t + fs_duration t \<le> now)"
    using gm_get_in [OF assms(1)] by (auto simp: snapshot_hangs [OF assms(3)] zone_timer_def)
  finally show ?thesis by (simp only: load_hangs)
qed

text \<open>Zone b, saved two hours after its registration, when its timer has fired.\<close>

lemma two_zones_maps:
  "map fst (ds_failsafe_timers two_zones) = [''a'', ''b'']"
  "ds_zone_index two_zones = [(''a'', 0), (''b'', 1)]"
  by code_simp+

lemma two_zones_wf: "gm_wf (ds_failsafe_timers two_zones)" "gm_wf (ds_zone_index two_zones)"
  by (simp_all add: gm_wf_def two_zones_maps)

lemma zone_b_due:
  "zone_timer ''b'' two_zones = Some zone_b_timer" "fs_state zone_b_timer = StateTimerRunning"
  "fs_started_at zone_b_timer = 10"
  by code_simp+

theorem due_failsafe_hangs_restart_witness:
  "load_state (10 + 3 * hour) (Some (save_state (10 + 2 * hour) two_zones)) running_service = None"
proof -
  have "\<exists>z t. zone_timer z two_zones = Some t \<and> fs_state t = StateTimerRunning \<and>
      fs_started_at t + fs_duration t \<le> 10 + 2 * hour"
    using zone_b_due zone_b_facts(6) by (intro exI [of _ "''b''"] exI [of _ zone_b_timer]) simp
  then show ?thesis
    using due_failsafe_hangs_restart [OF two_zones_wf, of "10 + 2 * hour" "10 + 3 * hour" running_service]
    by simp
qed

text \<open>What comes back.\<close>

lemma restore_timers_frame:
  "foldl (restore_timer now) (Some s) m = Some s' \<Longrightarrow>
     ds_zones s' = ds_zones s \<and> ds_zone_index s' = ds_zone_index s \<and> ds_next_index s' = ds_next_index s"
proof (induction m arbitrary: s)
  case (Cons e m)
  obtain z snap where e: "e = (z, snap)" by fastforce
  from Cons.prems obtain t where t: "restore_timer now (Some s) e = Some t"
    by (cases "restore_timer now (Some s) e") simp_all
  with Cons.prems have "foldl (restore_timer now) (Some t) m = Some s'" by simp
  from Cons.IH [OF this] t show ?case
    by (auto simp: e restore_timer_cases split: if_splits)
qed simp

lemma restore_timers_get:
  assumes "gm_wf m" and "foldl (restore_timer now) (Some s) m = Some s'"
    and "\<And>z i. gm_get (ds_failsafe_timers s) z = Some i \<Longrightarrow> i < length (ds_timer_objects s)"
  shows "zone_timer z s' =
    (case gm_get m z of
       Some snap \<Rightarrow> if sn_state snap = StateNormal then zone_timer z s else Some (restored_timer now snap)
     | None \<Rightarrow> zone_timer z s)"
  using assms
proof (induction m arbitrary: s)
  case Nil
  then show ?case by simp
next
  case (Cons e m)
  obtain y snap where e: "e = (y, snap)" by fastforce
  from Cons.prems(2) obtain t where t: "restore_timer now (Some s) (y, snap) = Some t"
    by (cases "restore_timer now (Some s) (y, snap)") (simp_all add: e)
  from Cons.prems(1) have wf: "gm_wf m" and y: "gm_get m y = None"
    by (auto simp: e gm_wf_def map_of_eq_None_iff)
  have bound: "gm_get (ds_failsafe_timers t) z = Some i \<Longrightarrow> i < length (ds_timer_objects t)" for z i
    using t Cons.prems(3) by (fastforce simp: restore_timer_cases gomap_simps split: if_splits)
  have run: "foldl (restore_timer now) (Some t) m = Some s'" using Cons.prems(2) t by (simp add: e)
  have at: "zone_timer z t = (if z = y \<and> sn_state snap \<noteq> StateNormal then Some (restored_timer now snap)
      else zone_timer z s)"
    using t Cons.prems(3) [of z]
    by (auto simp: restore_timer_cases zone_timer_def gomap_simps nth_append split: if_splits)
      (cases "gm_get (ds_failsafe_timers s) z"; simp)+
  show ?case using Cons.IH [OF wf run bound] y at by (auto simp: e split: option.split)
qed

lemma restored_zones_get:
  "gm_wf m \<Longrightarrow>
   gm_get (ds_zones (foldl (\<lambda>s m. restore_zone (zm_zone_type m) (zm_joined_at m) (zm_zone_id m) s) s
     (map (\<lambda>(z, cz). \<lparr>zm_zone_id = z, zm_zone_type = cz_type cz, zm_joined_at = cz_last_seen cz\<rparr>) m))) z
   = (case gm_get m z of
        None \<Rightarrow> gm_get (ds_zones s) z
      | Some cz \<Rightarrow> Some \<lparr>cz_id = z, cz_type = cz_type cz, cz_priority = zt_priority (cz_type cz),
          cz_connected = False, cz_last_seen = cz_last_seen cz, cz_failsafe_active = False\<rparr>)"
proof (induction m arbitrary: s)
  case (Cons e m)
  obtain y cy where e: "e = (y, cy)" by fastforce
  from Cons.prems have "gm_wf m" and "gm_get m y = None"
    by (auto simp: e gm_wf_def map_of_eq_None_iff)
  with Cons.IH show ?case by (auto simp: e restore_zone_def gomap_simps split: option.split)
qed simp

lemma restore_zones_frame:
  fixes ms :: "zone_membership list" and s
  defines "t \<equiv> foldl (\<lambda>s m. restore_zone (zm_zone_type m) (zm_joined_at m) (zm_zone_id m) s) s ms"
  shows "ds_zone_index t = ds_zone_index s" and "ds_next_index t = ds_next_index s"
    and "ds_failsafe_timers t = ds_failsafe_timers s" and "ds_timer_objects t = ds_timer_objects s"
  unfolding t_def by (induction ms arbitrary: s) (simp_all add: restore_zone_def)

lemma restore_index_frame:
  "ds_zones (foldl restore_index s m) = ds_zones s"
  "ds_failsafe_timers (foldl restore_index s m) = ds_failsafe_timers s"
  "ds_timer_objects (foldl restore_index s m) = ds_timer_objects s"
  by (induction m arbitrary: s) (simp_all add: restore_index_def split: prod.split)

lemma restored_index_get:
  "gm_wf m \<Longrightarrow> gm_get (ds_zone_index (foldl restore_index s m)) z =
     (case gm_get m z of None \<Rightarrow> gm_get (ds_zone_index s) z | Some i \<Rightarrow> Some i)"
proof (induction m arbitrary: s)
  case (Cons e m)
  obtain y i where e: "e = (y, i)" by fastforce
  from Cons.prems have "gm_wf m" and "gm_get m y = None"
    by (auto simp: e gm_wf_def map_of_eq_None_iff)
  with Cons.IH show ?case by (auto simp: e restore_index_def gomap_simps split: option.split)
qed simp

text \<open>The next index is above every index restored, unless one is the last of the eight bits.\<close>

lemma restored_next_index:
  "\<forall>(z, i) \<in> set m. i < 255 \<Longrightarrow> (z, i) \<in> set m \<Longrightarrow> i < ds_next_index (foldl restore_index s m)"
  "\<forall>(z, i) \<in> set m. i < 255 \<Longrightarrow> ds_next_index s \<le> ds_next_index (foldl restore_index s m)"
proof -
  have up: "i < i + 1" if "i < 255" for i :: u8
    using that by (simp add: word_less_nat_alt unat_word_ariths)
  have le: "ds_next_index s \<le> ds_next_index (foldl restore_index s m)"
    if "\<forall>(z, i) \<in> set m. i < 255" for s and m :: "(string \<times> u8) list"
    using that
  proof (induction m arbitrary: s)
    case (Cons e m)
    have "ds_next_index s \<le> ds_next_index (restore_index s e)"
      using Cons.prems up by (auto simp: restore_index_def split: prod.split)
        (meson less_imp_le order_trans)
    also have "\<dots> \<le> ds_next_index (foldl restore_index (restore_index s e) m)"
      using Cons.prems by (intro Cons.IH) simp
    finally show ?case by simp
  qed simp
  show "\<forall>(z, i) \<in> set m. i < 255 \<Longrightarrow> ds_next_index s \<le> ds_next_index (foldl restore_index s m)"
    by (rule le)
  show "\<forall>(z, i) \<in> set m. i < 255 \<Longrightarrow> (z, i) \<in> set m \<Longrightarrow> i < ds_next_index (foldl restore_index s m)"
  proof (induction m arbitrary: s)
    case (Cons e m)
    show ?case
    proof (cases "e = (z, i)")
      case True
      then have "i < ds_next_index (restore_index s e)"
        using Cons.prems(1) up [of i] by (auto simp: restore_index_def not_le)
      also have "\<dots> \<le> ds_next_index (foldl restore_index (restore_index s e) m)"
        using Cons.prems(1) by (intro le) simp
      finally show ?thesis by simp
    next
      case False
      with Cons show ?thesis by simp
    qed
  qed simp
qed



section \<open>The indices of zones\<close>

lemma del_put_fresh:
  assumes "gm_get m k = None" shows "gm_del k (gm_put k v m) = m"
proof -
  have "gm_del k (m @ [(k, v)]) = gm_del k m" by (simp add: AList.delete_eq)
  with assms show ?thesis by (simp add: put_fresh del_absent)
qed

lemma register_index:
  assumes "zt \<noteq> ZoneTypeTest" and "gm_get (ds_zone_index s) z = None"
  shows "ds_zone_index (register_zone_awaiting_connection now z zt s) = gm_put z (ds_next_index s) (ds_zone_index s)"
    and "ds_next_index (register_zone_awaiting_connection now z zt s) = ds_next_index s + 1"
    and "\<exists>cz. ds_zones (register_zone_awaiting_connection now z zt s) = gm_put z cz (ds_zones s)"
proof -
  define u where "u cz = create_failsafe_timer now z (assign_zone_index z (s\<lparr>ds_zones := gm_put z cz (ds_zones s)\<rparr>))" for cz
  obtain cz where "register_zone_awaiting_connection now z zt s = update_pairing_listening (u cz)"
    using assms(1) by (simp add: register_zone_awaiting_connection_def handle_zone_connect_def Let_def u_def)
  then have "same_zones (u cz) (register_zone_awaiting_connection now z zt s)"
    by (simp add: service_frame)
  moreover have "ds_zone_index (u cz) = gm_put z (ds_next_index s) (ds_zone_index s)"
    "ds_next_index (u cz) = ds_next_index s + 1" "ds_zones (u cz) = gm_put z cz (ds_zones s)"
    using assms(2) by (simp_all add: u_def assign_zone_index_def)
  ultimately show "ds_zone_index (register_zone_awaiting_connection now z zt s) = gm_put z (ds_next_index s) (ds_zone_index s)"
    "ds_next_index (register_zone_awaiting_connection now z zt s) = ds_next_index s + 1"
    "\<exists>cz. ds_zones (register_zone_awaiting_connection now z zt s) = gm_put z cz (ds_zones s)"
    by (simp_all add: same_zones_def) blast
qed

text \<open>A zone that is commissioned and removed again uses up one index.\<close>

definition come_and_go :: "time \<Rightarrow> surroundings \<Rightarrow> string \<Rightarrow> zone_type \<Rightarrow> device_service \<Rightarrow> device_service" where
  "come_and_go now su z zt s = fst (device_remove_zone now su z (register_zone_awaiting_connection now z zt s))"

lemma come_and_go:
  assumes "zt \<noteq> ZoneTypeTest" and "gm_get (ds_zone_index s) z = None"
  shows "ds_zone_index (come_and_go now su z zt s) = ds_zone_index s"
    and "ds_next_index (come_and_go now su z zt s) = ds_next_index s + 1"
proof -
  let ?t = "register_zone_awaiting_connection now z zt s"
  from register_index(3) [OF assms, of now] obtain cz where "ds_zones ?t = gm_put z cz (ds_zones s)" ..
  then have get: "gm_get (ds_zones ?t) z = Some cz" by (simp add: gomap_simps)
  show "ds_zone_index (come_and_go now su z zt s) = ds_zone_index s"
    using assms(2) by (simp add: come_and_go_def remove_zone_result [OF get] register_index [OF assms]
        del_put_fresh)
  have "ds_next_index (forget_zone z ?t) = ds_next_index ?t"
    by (simp add: forget_zone_def change_timer_def Let_def split: option.split)
  then show "ds_next_index (come_and_go now su z zt s) = ds_next_index s + 1"
    using remove_zone_frame [OF get, of now su] register_index(2) [OF assms]
    by (simp add: come_and_go_def same_zones_def)
qed

lemma come_and_go_often:
  assumes "zt \<noteq> ZoneTypeTest" and "gm_get (ds_zone_index s) z = None"
  shows "ds_zone_index ((come_and_go now su z zt ^^ n) s) = ds_zone_index s \<and>
    ds_next_index ((come_and_go now su z zt ^^ n) s) = ds_next_index s + of_nat n"
  by (induction n) (use assms in \<open>simp_all add: come_and_go\<close>)

text \<open>Indices are never given back and have eight bits: while a zone stays, enough others come and
  go, at most 255, and the next zone gets the index of the one that stayed. The failsafe of the
  new zone then cancels the duration timers of the old one.\<close>

theorem zone_index_wraps:
  assumes "gm_get (ds_zone_index s) a = Some i" and "z \<noteq> a" and "gm_get (ds_zone_index s) z = None"
    and "zt \<noteq> ZoneTypeTest" and "dm_inv (ds_durations s')"
    and "s' = register_zone_awaiting_connection now z zt
      ((come_and_go now su z zt ^^ unat (i - ds_next_index s)) s)"
  shows "gm_get (ds_zone_index s') a = Some i \<and> gm_get (ds_zone_index s') z = Some i \<and>
    gm_get (dm_timers (ds_durations (handle_failsafe z s'))) (i, c) = None"
proof -
  let ?u = "(come_and_go now su z zt ^^ unat (i - ds_next_index s)) s"
  have u: "ds_zone_index ?u = ds_zone_index s" "ds_next_index ?u = i"
    using come_and_go_often [OF assms(4,3), of "unat (i - ds_next_index s)" now su] by simp_all
  then have index: "ds_zone_index s' = gm_put z i (ds_zone_index s)"
    using register_index(1) [OF assms(4), of ?u z now] assms(3,6) by simp
  then have "gm_get (ds_zone_index s') a = Some i" "gm_get (ds_zone_index s') z = Some i"
    using assms(1,2) by (simp_all add: gomap_simps)
  moreover from this(2) have "gm_get (dm_timers (ds_durations (handle_failsafe z s'))) (i, c) = None"
    using dm_inv_wf(2) [OF assms(5)]
    by (simp add: handle_failsafe_def Let_def change_zone_def dm_get_cancel_zone split: option.split)
  ultimately show ?thesis by simp
qed

text \<open>Two zones, after 253 others: the next but one gets the index of zone a.\<close>

definition late_service :: device_service where
  "late_service = two_zones\<lparr>ds_next_index := 255\<rparr>"

definition late_third_zone :: device_service where
  "late_third_zone = register_zone_awaiting_connection 30 ''c'' 1
     ((come_and_go 30 all_fine ''c'' 1 ^^ 1) late_service)"

lemma late_durations: "ds_durations late_third_zone = dm_set_on_expiry True new_dur_manager"
  by code_simp

theorem zone_index_wraps_witness:
  "gm_get (ds_zone_index late_third_zone) ''a'' = Some 0 \<and>
   gm_get (ds_zone_index late_third_zone) ''c'' = Some 0"
proof -
  have a: "gm_get (ds_zone_index late_service) ''a'' = Some 0"
    and c: "gm_get (ds_zone_index late_service) ''c'' = None"
    by (simp_all add: late_service_def two_zones_maps)
  have one: "unat (0 - ds_next_index late_service) = 1"
    by (simp add: late_service_def)
  show ?thesis
    using zone_index_wraps [OF a _ c _ _ refl, where zt = 1 and now = 30 and su = all_fine,
        unfolded one, folded late_third_zone_def]
    by (simp add: late_durations dm_inv_set_on_expiry ZoneTypeTest_def)
qed

end
