(* ===== verification/DiscoveryManager.thy ===== *)
theory DiscoveryManager
  imports TxtRecords GoTime
begin

text \<open>
  The discovery state of a device (\<open>pkg/discovery/advertiser.go\<close>): when it advertises that it can
  be commissioned and which zones it advertises. The advertiser is an interface; whether a call
  succeeds is an argument, and what is advertised after a successful call is kept beside the state
  as the interface says. The only timer function is the end of the commissioning window.
\<close>

section \<open>Data\<close>

definition CommissioningWindowDuration :: duration where
  "CommissioningWindowDuration = 15 * minute"

datatype discovery_state =
    StateUnregistered
  | StateUncommissioned
  | StateCommissioningOpen
  | StateOperational
  | StateOperationalCommissioning

datatype manager_error =
    MgrMissingRequired
  | MgrNotFound
  | MgrAlreadyExists
  | MgrInvalidRequest discovery_error
  | MgrAdvertiser

datatype manager_event =
    MgrStateChange discovery_state discovery_state
  | MgrTimeout

text \<open>What the advertiser announces.\<close>

record advertised =
  ad_commissionable :: bool
  ad_operational :: "(string, operational_info) gomap"
  ad_commissioner :: "(string, commissioner_info) gomap"
  ad_pairing :: "(u16, pairing_request_info) gomap"

definition nothing_advertised :: advertised where
  "nothing_advertised = \<lparr>ad_commissionable = False, ad_operational = [], ad_commissioner = [],
     ad_pairing = []\<rparr>"

record discovery_manager =
  mg_state :: discovery_state
  mg_commissionable :: "commissionable_info option"
  mg_zones :: "(string, operational_info) gomap"
  mg_commissioners :: "(string, commissioner_info) gomap"
  mg_requests :: "(u16, pairing_request_info) gomap"
  mg_timer :: "nat option"
  mg_window :: duration
  mg_on_change :: bool
  mg_on_timeout :: bool
  mg_rt :: "unit runtime"
  mg_adv :: advertised

definition new_discovery_manager :: discovery_manager where
  "new_discovery_manager =
     \<lparr>mg_state = StateUnregistered, mg_commissionable = None, mg_zones = [], mg_commissioners = [],
      mg_requests = [], mg_timer = None, mg_window = 0, mg_on_change = False, mg_on_timeout = False,
      mg_rt = new_runtime, mg_adv = nothing_advertised\<rparr>"

definition is_commissioning_mode :: "discovery_manager \<Rightarrow> bool" where
  "is_commissioning_mode m \<longleftrightarrow> mg_state m \<in> {StateCommissioningOpen, StateOperationalCommissioning}"

definition state_change :: "discovery_manager \<Rightarrow> discovery_state \<Rightarrow> manager_event list" where
  "state_change m new =
     (if mg_on_change m \<and> mg_state m \<noteq> new then [MgrStateChange (mg_state m) new] else [])"

section \<open>The commissioning window\<close>

text \<open>Stop the timer if there is one and start another.\<close>

definition restart_window :: "time \<Rightarrow> duration \<Rightarrow> discovery_manager \<Rightarrow> discovery_manager" where
  "restart_window now d m =
     (case after_func now d () (stop_opt (mg_timer m) (mg_rt m)) of
        (i, rt) \<Rightarrow> m\<lparr>mg_timer := Some i, mg_rt := rt\<rparr>)"

definition set_window_duration :: "time \<Rightarrow> duration \<Rightarrow> discovery_manager \<Rightarrow> discovery_manager" where
  "set_window_duration now d m =
     (let m1 = m\<lparr>mg_window := d\<rparr>
      in if is_commissioning_mode m1 \<and> mg_timer m1 \<noteq> None then restart_window now d m1 else m1)"

definition set_commissionable_info ::
  "commissionable_info \<Rightarrow> discovery_manager \<Rightarrow> discovery_manager" where
  "set_commissionable_info info m = m\<lparr>mg_commissionable := Some info\<rparr>"

definition mg_set_callbacks :: "bool \<Rightarrow> bool \<Rightarrow> discovery_manager \<Rightarrow> discovery_manager" where
  "mg_set_callbacks c t m = m\<lparr>mg_on_change := c, mg_on_timeout := t\<rparr>"

definition window_duration :: "discovery_manager \<Rightarrow> duration" where
  "window_duration m = (if mg_window m \<le> 0 then CommissioningWindowDuration else mg_window m)"

definition manager_enter ::
  "time \<Rightarrow> bool \<Rightarrow> discovery_manager \<Rightarrow> discovery_manager \<times> manager_error option \<times> manager_event list" where
  "manager_enter now ok m =
     (if mg_commissionable m = None then (m, Some MgrMissingRequired, [])
      else if is_commissioning_mode m then (restart_window now (window_duration m) m, None, [])
      else if \<not> ok then (m, Some MgrAdvertiser, [])
      else
        let m1 = restart_window now (window_duration m)
              (m\<lparr>mg_adv := (mg_adv m)\<lparr>ad_commissionable := True\<rparr>\<rparr>);
            new = (if mg_zones m1 \<noteq> [] then StateOperationalCommissioning else StateCommissioningOpen)
        in (m1\<lparr>mg_state := new\<rparr>, None, state_change m1 new))"

text \<open>The timer is cancelled before the advertiser is asked.\<close>

definition exit_internal ::
  "bool \<Rightarrow> bool \<Rightarrow> discovery_manager \<Rightarrow> discovery_manager \<times> manager_error option \<times> manager_event list" where
  "exit_internal user ok m =
     (let m1 = m\<lparr>mg_timer := None, mg_rt := stop_opt (mg_timer m) (mg_rt m)\<rparr>
      in if \<not> ok then (m1, Some MgrAdvertiser, [])
         else
           let new = (if mg_zones m1 \<noteq> [] then StateOperational else StateUncommissioned)
           in (m1\<lparr>mg_state := new, mg_adv := (mg_adv m1)\<lparr>ad_commissionable := False\<rparr>\<rparr>, None,
               state_change m1 new @ (if \<not> user \<and> mg_on_timeout m1 then [MgrTimeout] else [])))"

definition manager_exit ::
  "bool \<Rightarrow> discovery_manager \<Rightarrow> discovery_manager \<times> manager_error option \<times> manager_event list" where
  "manager_exit ok m = exit_internal True ok m"

section \<open>Zones\<close>

definition manager_add_zone ::
  "bool \<Rightarrow> operational_info \<Rightarrow> discovery_manager \<Rightarrow>
     discovery_manager \<times> manager_error option \<times> manager_event list" where
  "manager_add_zone ok info m =
     (if oi_zone_id info = '''' \<or> oi_device_id info = '''' then (m, Some MgrMissingRequired, [])
      else if \<not> ok then (m, Some MgrAdvertiser, [])
      else
        let m1 = m\<lparr>mg_zones := gm_put (oi_zone_id info) info (mg_zones m),
                   mg_adv := (mg_adv m)\<lparr>ad_operational :=
                     gm_put (oi_zone_id info) info (ad_operational (mg_adv m))\<rparr>\<rparr>
        in if length (mg_zones m1) = 1 \<and> mg_state m1 = StateUncommissioned
           then (m1\<lparr>mg_state := StateOperational\<rparr>, None, state_change m1 StateOperational)
           else (m1, None, []))"

definition manager_update_zone ::
  "bool \<Rightarrow> operational_info \<Rightarrow> discovery_manager \<Rightarrow> discovery_manager \<times> manager_error option" where
  "manager_update_zone ok info m =
     (if gm_get (mg_zones m) (oi_zone_id info) = None then (m, Some MgrNotFound)
      else if \<not> ok then (m, Some MgrAdvertiser)
      else (m\<lparr>mg_zones := gm_put (oi_zone_id info) info (mg_zones m),
              mg_adv := (mg_adv m)\<lparr>ad_operational :=
                gm_put (oi_zone_id info) info (ad_operational (mg_adv m))\<rparr>\<rparr>, None))"

definition manager_remove_zone ::
  "bool \<Rightarrow> string \<Rightarrow> discovery_manager \<Rightarrow>
     discovery_manager \<times> manager_error option \<times> manager_event list" where
  "manager_remove_zone ok z m =
     (if gm_get (mg_zones m) z = None then (m, Some MgrNotFound, [])
      else if \<not> ok then (m, Some MgrAdvertiser, [])
      else
        let m1 = m\<lparr>mg_zones := gm_del z (mg_zones m),
                   mg_adv := (mg_adv m)\<lparr>ad_operational := gm_del z (ad_operational (mg_adv m))\<rparr>\<rparr>
        in if mg_zones m1 = []
           then let new = (case mg_state m1 of
                      StateOperational \<Rightarrow> StateUncommissioned
                    | StateOperationalCommissioning \<Rightarrow> StateCommissioningOpen
                    | st \<Rightarrow> st)
                in (m1\<lparr>mg_state := new\<rparr>, None, state_change m1 new)
           else (m1, None, []))"

definition add_commissioner_zone ::
  "bool \<Rightarrow> commissioner_info \<Rightarrow> discovery_manager \<Rightarrow> discovery_manager \<times> manager_error option" where
  "add_commissioner_zone ok info m =
     (if mi_zone_id info = '''' \<or> mi_zone_name info = '''' then (m, Some MgrMissingRequired)
      else if \<not> ok then (m, Some MgrAdvertiser)
      else (m\<lparr>mg_commissioners := gm_put (mi_zone_id info) info (mg_commissioners m),
              mg_adv := (mg_adv m)\<lparr>ad_commissioner :=
                gm_put (mi_zone_id info) info (ad_commissioner (mg_adv m))\<rparr>\<rparr>, None))"

definition update_commissioner_zone ::
  "bool \<Rightarrow> commissioner_info \<Rightarrow> discovery_manager \<Rightarrow> discovery_manager \<times> manager_error option" where
  "update_commissioner_zone ok info m =
     (if gm_get (mg_commissioners m) (mi_zone_id info) = None then (m, Some MgrNotFound)
      else if \<not> ok then (m, Some MgrAdvertiser)
      else (m\<lparr>mg_commissioners := gm_put (mi_zone_id info) info (mg_commissioners m),
              mg_adv := (mg_adv m)\<lparr>ad_commissioner :=
                gm_put (mi_zone_id info) info (ad_commissioner (mg_adv m))\<rparr>\<rparr>, None))"

definition remove_commissioner_zone ::
  "bool \<Rightarrow> string \<Rightarrow> discovery_manager \<Rightarrow> discovery_manager \<times> manager_error option" where
  "remove_commissioner_zone ok z m =
     (if gm_get (mg_commissioners m) z = None then (m, Some MgrNotFound)
      else if \<not> ok then (m, Some MgrAdvertiser)
      else (m\<lparr>mg_commissioners := gm_del z (mg_commissioners m),
              mg_adv := (mg_adv m)\<lparr>ad_commissioner := gm_del z (ad_commissioner (mg_adv m))\<rparr>\<rparr>, None))"

section \<open>Pairing requests and the end\<close>

definition announce_pairing_request ::
  "bool \<Rightarrow> pairing_request_info option \<Rightarrow> discovery_manager \<Rightarrow>
     discovery_manager \<times> manager_error option" where
  "announce_pairing_request ok oinfo m =
     (case oinfo of
        None \<Rightarrow> (m, Some MgrMissingRequired)
      | Some info \<Rightarrow>
          (case pairing_request_validate info of
             Some e \<Rightarrow> (m, Some (MgrInvalidRequest e))
           | None \<Rightarrow>
               if gm_get (mg_requests m) (pi_discriminator info) \<noteq> None
               then (m, Some MgrAlreadyExists)
               else if \<not> ok then (m, Some MgrAdvertiser)
               else (m\<lparr>mg_requests := gm_put (pi_discriminator info) info (mg_requests m),
                       mg_adv := (mg_adv m)\<lparr>ad_pairing :=
                         gm_put (pi_discriminator info) info (ad_pairing (mg_adv m))\<rparr>\<rparr>, None)))"

definition stop_pairing_request ::
  "bool \<Rightarrow> u16 \<Rightarrow> discovery_manager \<Rightarrow> discovery_manager \<times> manager_error option" where
  "stop_pairing_request ok d m =
     (if gm_get (mg_requests m) d = None then (m, Some MgrNotFound)
      else if \<not> ok then (m, Some MgrAdvertiser)
      else (m\<lparr>mg_requests := gm_del d (mg_requests m),
              mg_adv := (mg_adv m)\<lparr>ad_pairing := gm_del d (ad_pairing (mg_adv m))\<rparr>\<rparr>, None))"

definition manager_stop :: "discovery_manager \<Rightarrow> discovery_manager \<times> manager_event list" where
  "manager_stop m =
     (m\<lparr>mg_timer := None, mg_rt := stop_opt (mg_timer m) (mg_rt m), mg_adv := nothing_advertised,
        mg_zones := [], mg_commissioners := [], mg_requests := [], mg_state := StateUnregistered\<rparr>,
      state_change m StateUnregistered)"

section \<open>Runs\<close>

definition manager_fire :: "time \<Rightarrow> nat \<Rightarrow> discovery_manager \<Rightarrow> discovery_manager" where
  "manager_fire now i m = m\<lparr>mg_rt := fire_timer now i (mg_rt m)\<rparr>"

definition manager_run_fired ::
  "bool \<Rightarrow> nat \<Rightarrow> discovery_manager \<Rightarrow> discovery_manager \<times> manager_event list" where
  "manager_run_fired ok i m =
     (case take_fired i (mg_rt m) of
        None \<Rightarrow> (m, [])
      | Some (_, rt) \<Rightarrow> (case exit_internal False ok (m\<lparr>mg_rt := rt\<rparr>) of (m', _, evs) \<Rightarrow> (m', evs)))"

datatype manager_op =
    MgEnter time bool
  | MgExit bool
  | MgSetWindow time duration
  | MgSetInfo commissionable_info
  | MgSetCallbacks bool bool
  | MgAddZone bool operational_info
  | MgUpdateZone bool operational_info
  | MgRemoveZone bool string
  | MgAddCommissioner bool commissioner_info
  | MgUpdateCommissioner bool commissioner_info
  | MgRemoveCommissioner bool string
  | MgAnnounce bool "pairing_request_info option"
  | MgStopRequest bool u16
  | MgStop
  | MgTimerFires time nat
  | MgTimerRuns bool nat

fun manager_step :: "discovery_manager \<Rightarrow> manager_op \<Rightarrow> discovery_manager" where
  "manager_step m (MgEnter now ok) = fst (manager_enter now ok m)"
| "manager_step m (MgExit ok) = fst (manager_exit ok m)"
| "manager_step m (MgSetWindow now d) = set_window_duration now d m"
| "manager_step m (MgSetInfo info) = set_commissionable_info info m"
| "manager_step m (MgSetCallbacks c t) = mg_set_callbacks c t m"
| "manager_step m (MgAddZone ok info) = fst (manager_add_zone ok info m)"
| "manager_step m (MgUpdateZone ok info) = fst (manager_update_zone ok info m)"
| "manager_step m (MgRemoveZone ok z) = fst (manager_remove_zone ok z m)"
| "manager_step m (MgAddCommissioner ok info) = fst (add_commissioner_zone ok info m)"
| "manager_step m (MgUpdateCommissioner ok info) = fst (update_commissioner_zone ok info m)"
| "manager_step m (MgRemoveCommissioner ok z) = fst (remove_commissioner_zone ok z m)"
| "manager_step m (MgAnnounce ok info) = fst (announce_pairing_request ok info m)"
| "manager_step m (MgStopRequest ok d) = fst (stop_pairing_request ok d m)"
| "manager_step m MgStop = fst (manager_stop m)"
| "manager_step m (MgTimerFires now i) = manager_fire now i m"
| "manager_step m (MgTimerRuns ok i) = fst (manager_run_fired ok i m)"

section \<open>What is advertised\<close>

text \<open>The state says what the advertiser does.\<close>

definition manager_inv :: "discovery_manager \<Rightarrow> bool" where
  "manager_inv m \<longleftrightarrow>
     rt_wf (mg_rt m) \<and>
     (ad_commissionable (mg_adv m) \<longleftrightarrow> is_commissioning_mode m) \<and>
     ad_operational (mg_adv m) = mg_zones m \<and> ad_commissioner (mg_adv m) = mg_commissioners m \<and>
     ad_pairing (mg_adv m) = mg_requests m \<and>
     (mg_state m \<in> {StateOperational, StateOperationalCommissioning} \<longrightarrow> mg_zones m \<noteq> []) \<and>
     (mg_state m = StateUncommissioned \<longrightarrow> mg_zones m = [])"

lemma manager_inv_new [simp]: "manager_inv new_discovery_manager"
  by (simp add: manager_inv_def new_discovery_manager_def nothing_advertised_def is_commissioning_mode_def)

lemma restart_window_simps [simp]:
  "mg_state (restart_window now d m) = mg_state m"
  "mg_zones (restart_window now d m) = mg_zones m"
  "mg_commissioners (restart_window now d m) = mg_commissioners m"
  "mg_requests (restart_window now d m) = mg_requests m"
  "mg_adv (restart_window now d m) = mg_adv m"
  "mg_commissionable (restart_window now d m) = mg_commissionable m"
  "is_commissioning_mode (restart_window now d m) = is_commissioning_mode m"
  "rt_wf (mg_rt m) \<Longrightarrow> rt_wf (mg_rt (restart_window now d m))"
  by (simp_all add: restart_window_def split_beta is_commissioning_mode_def)

lemma put_not_empty [simp]: "gm_put k v m \<noteq> []"
  by (cases m) (auto simp: split_beta)

lemma manager_inv_exit: "manager_inv m \<Longrightarrow> manager_inv (fst (exit_internal user ok m))"
  by (auto simp: manager_inv_def exit_internal_def Let_def is_commissioning_mode_def)

lemma manager_inv_step: "manager_inv m \<Longrightarrow> manager_inv (manager_step m e)"
proof (cases e)
  case (MgEnter now ok)
  assume "manager_inv m"
  then show ?thesis
    by (auto simp: MgEnter manager_inv_def manager_enter_def Let_def) (auto simp: is_commissioning_mode_def)
next
  case (MgTimerRuns ok i)
  assume inv: "manager_inv m"
  show ?thesis
  proof (cases "take_fired i (mg_rt m)")
    case None
    with inv show ?thesis by (simp add: MgTimerRuns manager_run_fired_def)
  next
    case (Some p)
    then obtain rt where rt: "take_fired i (mg_rt m) = Some ((), rt)" by (cases p) simp
    have "manager_inv (m\<lparr>mg_rt := rt\<rparr>)"
      using inv rt_wf_take [OF _ rt] by (simp add: manager_inv_def is_commissioning_mode_def)
    from manager_inv_exit [OF this] show ?thesis
      by (simp add: MgTimerRuns manager_run_fired_def rt split_beta)
  qed
next
  case (MgRemoveZone ok z)
  assume "manager_inv m"
  then show ?thesis
    by (auto simp: MgRemoveZone manager_inv_def manager_remove_zone_def Let_def is_commissioning_mode_def
        split: discovery_state.split)
next
  case (MgSetWindow now d)
  assume "manager_inv m"
  then show ?thesis
    by (auto simp: MgSetWindow manager_inv_def set_window_duration_def Let_def)
      (auto simp: is_commissioning_mode_def)
next
  case (MgAnnounce ok info)
  assume "manager_inv m"
  then show ?thesis
    by (auto simp: MgAnnounce manager_inv_def announce_pairing_request_def is_commissioning_mode_def
        split: option.split)
next
  case (MgExit ok)
  assume "manager_inv m"
  then show ?thesis by (simp add: MgExit manager_exit_def manager_inv_exit)
qed (auto simp: manager_inv_def is_commissioning_mode_def
    set_commissionable_info_def mg_set_callbacks_def manager_add_zone_def manager_update_zone_def
    add_commissioner_zone_def update_commissioner_zone_def remove_commissioner_zone_def
    stop_pairing_request_def manager_stop_def nothing_advertised_def manager_fire_def Let_def)

interpretation discovery_machine: invariant_machine manager_step manager_inv
  by unfold_locales (rule manager_inv_step)


definition example_info :: commissionable_info where
  "example_info = \<lparr>ci_discriminator = 7, ci_categories = [], ci_serial = ''1'', ci_brand = ''b'',
     ci_model = ''m'', ci_device_name = ''d'', ci_port = 8443, ci_host = ''h''\<rparr>"

definition open_window_ops :: "manager_op list" where
  "open_window_ops = [MgSetInfo example_info, MgEnter 5 True]"

abbreviation open_manager :: discovery_manager where
  "open_manager \<equiv> foldl manager_step new_discovery_manager open_window_ops"

lemma open_manager_facts:
  "is_commissioning_mode open_manager" "mg_timer open_manager = Some 0"
  "mg_commissionable open_manager = Some example_info" "rt_next (mg_rt open_manager) = 1"
  by code_simp+

section \<open>The end of the window\<close>

text \<open>Only the timer that the manager knows is armed.\<close>

definition window_timer_inv :: "discovery_manager \<Rightarrow> bool" where
  "window_timer_inv m \<longleftrightarrow>
     manager_inv m \<and> (\<forall>i. armed_at (mg_rt m) i \<noteq> None \<longrightarrow> mg_timer m = Some i)"

lemma only_timer_restart:
  "\<forall>i. armed_at (mg_rt m) i \<noteq> None \<longrightarrow> mg_timer m = Some i \<Longrightarrow>
     armed_at (mg_rt (restart_window now d m)) i \<noteq> None \<Longrightarrow> mg_timer (restart_window now d m) = Some i"
  by (auto simp: restart_window_def split_beta rt_simps split: option.splits if_splits)

lemma only_timer_exit:
  "\<forall>i. armed_at (mg_rt m) i \<noteq> None \<longrightarrow> mg_timer m = Some i \<Longrightarrow>
     armed_at (mg_rt (fst (exit_internal user ok m))) i = None"
  by (cases "armed_at (mg_rt m) i") (auto simp: exit_internal_def Let_def rt_simps split: option.split)

lemma armed_take:
  "take_fired i rt = Some (k, rt') \<Longrightarrow> rt_armed rt' = rt_armed rt"
  by (auto simp: take_fired_def split: option.splits)

lemma window_timer_step: "window_timer_inv m \<Longrightarrow> window_timer_inv (manager_step m e)"
proof -
  assume inv: "window_timer_inv m"
  then have only: "\<forall>i. armed_at (mg_rt m) i \<noteq> None \<longrightarrow> mg_timer m = Some i"
    by (simp add: window_timer_inv_def)
  have "\<forall>i. armed_at (mg_rt (manager_step m e)) i \<noteq> None \<longrightarrow> mg_timer (manager_step m e) = Some i"
  proof (cases e)
    case (MgEnter now ok)
    have "\<forall>i. armed_at (mg_rt (m\<lparr>mg_adv := a\<rparr>)) i \<noteq> None \<longrightarrow> mg_timer (m\<lparr>mg_adv := a\<rparr>) = Some i" for a
      using only by simp
    from only_timer_restart [OF this] only_timer_restart [OF only] only show ?thesis
      by (simp add: MgEnter manager_enter_def Let_def)
  next
    case (MgExit ok)
    with only_timer_exit [OF only] show ?thesis by (simp add: manager_exit_def)
  next
    case (MgSetWindow now d)
    have "\<forall>i. armed_at (mg_rt (m\<lparr>mg_window := d\<rparr>)) i \<noteq> None \<longrightarrow> mg_timer (m\<lparr>mg_window := d\<rparr>) = Some i"
      using only by simp
    from only_timer_restart [OF this] only show ?thesis
      by (simp add: MgSetWindow set_window_duration_def Let_def)
  next
    case (MgTimerFires now i)
    with only show ?thesis
      by (auto simp: manager_fire_def fire_timer_def gomap_simps split: option.split if_splits)
  next
    case (MgTimerRuns ok i)
    show ?thesis
    proof (cases "take_fired i (mg_rt m)")
      case None
      with only show ?thesis by (simp add: MgTimerRuns manager_run_fired_def)
    next
      case (Some p)
      then obtain rt where rt: "take_fired i (mg_rt m) = Some ((), rt)" by (cases p) simp
      have "\<forall>i. armed_at (mg_rt (m\<lparr>mg_rt := rt\<rparr>)) i \<noteq> None \<longrightarrow> mg_timer (m\<lparr>mg_rt := rt\<rparr>) = Some i"
        using only armed_take [OF rt] by simp
      from only_timer_exit [OF this] show ?thesis
        by (simp add: MgTimerRuns manager_run_fired_def rt split_beta)
    qed
  next
    case MgStop
    with only show ?thesis by (auto simp: manager_stop_def rt_simps split: option.split)
  qed (use only in \<open>auto simp: set_commissionable_info_def mg_set_callbacks_def manager_add_zone_def
      manager_update_zone_def manager_remove_zone_def add_commissioner_zone_def
      update_commissioner_zone_def remove_commissioner_zone_def announce_pairing_request_def
      stop_pairing_request_def Let_def split: option.split\<close>)
  with manager_inv_step inv show ?thesis by (simp add: window_timer_inv_def)
qed

interpretation window_timers: invariant_machine manager_step window_timer_inv
  by unfold_locales (rule window_timer_step)

lemma window_timer_new [simp]: "window_timer_inv new_discovery_manager"
  by (simp add: window_timer_inv_def) (simp add: new_discovery_manager_def new_runtime_def)

text \<open>As long as the advertiser stops when it is told to, commissioning mode has a timer that has
  not run yet.\<close>

fun stop_succeeds :: "manager_op \<Rightarrow> bool" where
  "stop_succeeds (MgExit ok) = ok"
| "stop_succeeds (MgTimerRuns ok i) = ok"
| "stop_succeeds _ = True"

definition window_pends :: "discovery_manager \<Rightarrow> bool" where
  "window_pends m \<longleftrightarrow> (is_commissioning_mode m \<longrightarrow>
     (\<exists>i. mg_timer m = Some i \<and> (armed_at (mg_rt m) i \<noteq> None \<or> fired_at (mg_rt m) i \<noteq> None)))"

lemma restart_pends:
  "\<exists>i. mg_timer (restart_window now d m) = Some i \<and> armed_at (mg_rt (restart_window now d m)) i \<noteq> None"
  by (simp add: restart_window_def split_beta rt_simps)

lemma exit_mode:
  "is_commissioning_mode (fst (exit_internal user True m)) = False"
  by (simp add: exit_internal_def Let_def is_commissioning_mode_def)

lemma window_pends_step:
  assumes "window_pends m" and "stop_succeeds e"
  shows "window_pends (manager_step m e)"
proof (cases e)
  case (MgEnter now ok)
  with restart_pends [of now "window_duration m"] assms(1) show ?thesis
    by (fastforce simp: MgEnter manager_enter_def window_pends_def is_commissioning_mode_def
        restart_window_def split_beta Let_def rt_simps)
next
  case (MgSetWindow now d)
  with restart_pends [of now d "m\<lparr>mg_window := d\<rparr>"] assms(1) show ?thesis
    by (fastforce simp: set_window_duration_def window_pends_def is_commissioning_mode_def
        restart_window_def split_beta Let_def rt_simps)
next
  case (MgExit ok)
  with assms(2) exit_mode show ?thesis by (simp add: manager_exit_def window_pends_def)
next
  case (MgTimerFires now i)
  with assms(1) show ?thesis
    by (auto simp: window_pends_def is_commissioning_mode_def manager_fire_def fire_timer_def
        gomap_simps split: option.split)
next
  case (MgTimerRuns ok i)
  with assms exit_mode show ?thesis
    by (auto simp: manager_run_fired_def window_pends_def split: option.split prod.split)
      (metis (no_types, lifting) exit_mode fst_conv)+
qed (use assms(1) in \<open>auto simp: window_pends_def is_commissioning_mode_def set_commissionable_info_def
    mg_set_callbacks_def manager_add_zone_def manager_update_zone_def manager_remove_zone_def
    add_commissioner_zone_def update_commissioner_zone_def remove_commissioner_zone_def
    announce_pairing_request_def stop_pairing_request_def manager_stop_def Let_def
    split: option.split discovery_state.splits\<close>)

lemma window_pends_run:
  "window_pends m \<Longrightarrow> list_all stop_succeeds ops \<Longrightarrow> window_pends (foldl manager_step m ops)"
  by (induction ops arbitrary: m) (simp_all add: window_pends_step)

text \<open>A window ends: in commissioning mode a timer waits for its deadline, or its function waits for
  the lock and takes the device out of commissioning mode. This needs an advertiser that obeys.\<close>

theorem commissioning_window_ends:
  assumes "list_all stop_succeeds ops" and "m = foldl manager_step new_discovery_manager ops"
    and "is_commissioning_mode m"
  shows "\<exists>i. mg_timer m = Some i \<and> (armed_at (mg_rt m) i \<noteq> None \<or>
    \<not> is_commissioning_mode (manager_step m (MgTimerRuns True i)))"
proof -
  have "window_pends new_discovery_manager"
    by (simp add: window_pends_def is_commissioning_mode_def new_discovery_manager_def)
  from window_pends_run [OF this assms(1)] assms(2,3) obtain i
    where i: "mg_timer m = Some i" "armed_at (mg_rt m) i \<noteq> None \<or> fired_at (mg_rt m) i \<noteq> None"
    by (auto simp: window_pends_def)
  have "\<not> is_commissioning_mode (manager_step m (MgTimerRuns True i))" if "fired_at (mg_rt m) i = Some ()"
    using that exit_mode [of False] by (simp add: manager_run_fired_def take_fired_def split_beta)
  with i show ?thesis by auto
qed

text \<open>C20. When the advertiser refuses to stop, the timer is gone but the mode stays: the window of the
  device then has no end, and a new duration does not give it one.\<close>

theorem refused_stop_leaves_window_open:
  assumes "m = foldl manager_step new_discovery_manager ops" and "is_commissioning_mode m"
    and "exit_internal user False m = (m1, e, evs)" and "m2 = set_window_duration now d m1"
  shows "e = Some MgrAdvertiser \<and> is_commissioning_mode m2 \<and> ad_commissionable (mg_adv m2) \<and>
    mg_timer m2 = None \<and> (\<forall>i. armed_at (mg_rt m2) i = None)"
proof -
  have inv: "window_timer_inv m"
    unfolding assms(1) by (rule window_timers.run_inv [OF window_timer_new])
  then have only: "\<forall>i. armed_at (mg_rt m) i \<noteq> None \<longrightarrow> mg_timer m = Some i"
    and adv: "ad_commissionable (mg_adv m)"
    using assms(2) by (simp_all add: window_timer_inv_def manager_inv_def)
  have m1: "m1 = fst (exit_internal user False m)" "e = Some MgrAdvertiser"
    using assms(3) by (auto simp: exit_internal_def Let_def)
  then have "mg_timer m1 = None" "is_commissioning_mode m1" "ad_commissionable (mg_adv m1)"
    using assms(2) adv by (simp_all add: exit_internal_def Let_def is_commissioning_mode_def)
  moreover from this have "m2 = m1\<lparr>mg_window := d\<rparr>" by (simp add: assms(4) set_window_duration_def Let_def)
  ultimately show ?thesis
    using only_timer_exit [OF only, of user False] m1 by (simp add: is_commissioning_mode_def)
qed

text \<open>The window is closed by the function of an older timer: it has fired, the window is renewed
  before the function gets the lock, and the function ends the renewed window.\<close>

theorem stale_timeout_closes_renewed_window:
  assumes "is_commissioning_mode m" and "mg_commissionable m \<noteq> None" and "fired_at (mg_rt m) i = Some ()"
  shows "let m1 = manager_step m (MgEnter now ok); m2 = manager_step m1 (MgTimerRuns True i)
    in is_commissioning_mode m1 \<and> armed_at (mg_rt m1) (rt_next (mg_rt m)) = Some (now + window_duration m, ()) \<and>
       \<not> is_commissioning_mode m2 \<and> \<not> ad_commissionable (mg_adv m2)"
proof -
  let ?m1 = "restart_window now (window_duration m) m"
  have "rt_fired (mg_rt ?m1) = rt_fired (mg_rt m)"
    "armed_at (mg_rt ?m1) (rt_next (mg_rt m)) = Some (now + window_duration m, ())"
    by (simp_all add: restart_window_def split_beta rt_simps)
  moreover from this(1) assms(3) obtain rt where "take_fired i (mg_rt ?m1) = Some ((), rt)"
    by (auto simp: take_fired_def)
  moreover have "manager_step m (MgEnter now ok) = ?m1"
    using assms(1,2) by (auto simp: manager_enter_def)
  ultimately show ?thesis
    using assms(1) exit_mode [of False "?m1\<lparr>mg_rt := rt\<rparr>"]
    by (simp add: Let_def manager_run_fired_def split_beta) (simp add: exit_internal_def Let_def)
qed

text \<open>Zero stands for the default where a window is opened, but a window that is open when zero is
  set ends at once.\<close>

theorem zero_duration_ends_window:
  assumes "is_commissioning_mode m" and "mg_timer m = Some t" and "rt_wf (mg_rt m)"
  shows "let m1 = set_window_duration now 0 m; i = rt_next (mg_rt m)
    in window_duration m1 = CommissioningWindowDuration \<and>
       \<not> is_commissioning_mode (foldl manager_step m1 [MgTimerFires now i, MgTimerRuns True i])"
proof -
  let ?m1 = "restart_window now 0 (m\<lparr>mg_window := 0\<rparr>)" and ?i = "rt_next (mg_rt m)"
  have armed: "armed_at (mg_rt ?m1) ?i = Some (now, ())"
    by (simp add: restart_window_def split_beta rt_simps)
  then have "fired_at (mg_rt (manager_fire now ?i ?m1)) ?i = Some ()"
    by (simp add: manager_fire_def fire_timer_def gomap_simps)
  then obtain rt where rt: "take_fired ?i (mg_rt (manager_fire now ?i ?m1)) = Some ((), rt)"
    by (auto simp: take_fired_def)
  have "set_window_duration now 0 m = ?m1"
    using assms(1,2) by (simp add: set_window_duration_def Let_def is_commissioning_mode_def)
  moreover have "window_duration ?m1 = CommissioningWindowDuration"
    by (simp add: window_duration_def restart_window_def split_beta)
  ultimately show ?thesis
    using exit_mode [of False] by (simp add: Let_def manager_run_fired_def rt split_beta)
qed

section \<open>Examples\<close>


theorem commissioning_window_ends_witness:
  "\<exists>i. mg_timer open_manager = Some i \<and> (armed_at (mg_rt open_manager) i \<noteq> None \<or>
    \<not> is_commissioning_mode (manager_step open_manager (MgTimerRuns True i)))"
  by (rule commissioning_window_ends [OF _ refl open_manager_facts(1)])
    (simp add: open_window_ops_def)

theorem refused_stop_leaves_window_open_witness:
  "is_commissioning_mode (set_window_duration 9 minute (fst (exit_internal True False open_manager))) \<and>
   mg_timer (set_window_duration 9 minute (fst (exit_internal True False open_manager))) = None"
proof -
  obtain m1 e evs where x: "exit_internal True False open_manager = (m1, e, evs)" by (rule prod_cases3)
  from refused_stop_leaves_window_open [OF refl open_manager_facts(1) x refl, of 9 minute] x
  show ?thesis by simp
qed

lemma fired_window: "fired_at (mg_rt (manager_step open_manager (MgTimerFires (5 + 15 * minute) 0))) 0 = Some ()"
  by code_simp

theorem stale_timeout_closes_renewed_window_witness:
  "let m = manager_step open_manager (MgTimerFires (5 + 15 * minute) 0)
   in \<not> is_commissioning_mode (foldl manager_step m [MgEnter (6 + 15 * minute) True, MgTimerRuns True 0])"
proof -
  let ?m = "manager_step open_manager (MgTimerFires (5 + 15 * minute) 0)"
  have "is_commissioning_mode ?m" "mg_commissionable ?m \<noteq> None"
    using open_manager_facts by (simp_all add: manager_fire_def is_commissioning_mode_def)
  from stale_timeout_closes_renewed_window [OF this fired_window, of "6 + 15 * minute" True]
  show ?thesis by (simp add: Let_def)
qed

theorem zero_duration_ends_window_witness:
  "\<not> is_commissioning_mode (foldl manager_step (set_window_duration 9 0 open_manager)
     [MgTimerFires 9 1, MgTimerRuns True 1])"
proof -
  have "rt_wf (mg_rt open_manager)"
    using window_timers.run_inv [OF window_timer_new, of open_window_ops]
    by (simp add: window_timer_inv_def manager_inv_def)
  from zero_duration_ends_window [OF open_manager_facts(1,2) this, of 9] show ?thesis
    by (simp add: Let_def open_manager_facts)
qed

end
