(* ===== verification/Admission.thy ===== *)
theory Admission
  imports DeviceService
begin

text \<open>
  How a device admits connections (\<open>pkg/service/device_service_lifecycle.go\<close>, \<open>conn_tracker.go\<close>): the
  cap on connections that are not operational yet, the tracker with its reaper, the choice of the
  TLS configuration, and the check of a controller's certificate with its tolerance for clocks
  that differ. Also the delay of error responses (\<open>device_service_commissioning.go\<close>).

  The verification of a certificate chain at a time is an argument; what a property needs of it,
  that it accepts no certificate outside its validity, is a hypothesis.
\<close>

section \<open>The connection tracker\<close>

type_synonym conn_tracker = "(nat, time) gomap"

definition tracker_add :: "time \<Rightarrow> nat \<Rightarrow> conn_tracker \<Rightarrow> conn_tracker" where
  "tracker_add now c ct = gm_put c now ct"

definition tracker_remove :: "nat \<Rightarrow> conn_tracker \<Rightarrow> conn_tracker" where
  "tracker_remove c ct = gm_del c ct"

text \<open>The connections that are closed, and the rest.\<close>

definition close_stale :: "time \<Rightarrow> duration \<Rightarrow> conn_tracker \<Rightarrow> nat list \<times> conn_tracker" where
  "close_stale now max_age ct =
     (map fst (filter (\<lambda>(c, added). added < now - max_age) ct),
      gm_purge (\<lambda>c added. added < now - max_age) ct)"

definition close_all :: "conn_tracker \<Rightarrow> nat list \<times> conn_tracker" where
  "close_all ct = (map fst ct, [])"

definition tracker_len :: "conn_tracker \<Rightarrow> nat" where
  "tracker_len ct = length ct"

section \<open>Connections before they are operational\<close>

text \<open>The goroutine of a connection is in the TLS handshake, in the handler for commissioning or
  for operation, in the message loop of its zone, or at its end. It gives its slot back before the
  message loop, or by the deferred function at its end.\<close>

datatype conn_phase = CnHandshake | CnCommissioning | CnOperational | CnLoop | CnGone

fun holds_slot :: "conn_phase \<Rightarrow> bool" where
  "holds_slot CnHandshake = True"
| "holds_slot CnCommissioning = True"
| "holds_slot CnOperational = True"
| "holds_slot CnLoop = False"
| "holds_slot CnGone = False"

record acceptor =
  ac_max_zones :: nat
  ac_active :: int
  ac_tracker :: conn_tracker
  ac_conns :: "conn_phase list"
  ac_reaped :: "nat list"

definition new_acceptor :: "nat \<Rightarrow> acceptor" where
  "new_acceptor n = \<lparr>ac_max_zones = n, ac_active = 0, ac_tracker = [], ac_conns = [], ac_reaped = []\<rparr>"

datatype acceptor_op =
    AcAccept time
  | AcHandshakeFails nat
  | AcCommissioning nat
  | AcOperational nat
  | AcRefused nat
  | AcCommissioned nat
  | AcMessageLoop nat
  | AcLoopEnds nat
  | AcReap time duration

definition conn_phase_at :: "acceptor \<Rightarrow> nat \<Rightarrow> conn_phase" where
  "conn_phase_at a c = (if c < length (ac_conns a) then ac_conns a ! c else CnGone)"

definition move_conn :: "nat \<Rightarrow> conn_phase \<Rightarrow> acceptor \<Rightarrow> acceptor" where
  "move_conn c p a = a\<lparr>ac_conns := (ac_conns a)[c := p]\<rparr>"

text \<open>\<open>releaseActiveConn\<close> and \<open>connTracker.Remove\<close>, whether deferred or called.\<close>

definition give_back :: "nat \<Rightarrow> acceptor \<Rightarrow> acceptor" where
  "give_back c a = a\<lparr>ac_active := ac_active a - 1, ac_tracker := tracker_remove c (ac_tracker a)\<rparr>"

fun acceptor_step :: "acceptor \<Rightarrow> acceptor_op \<Rightarrow> acceptor" where
  "acceptor_step a (AcAccept now) =
     (if ac_active a \<ge> int (ac_max_zones a) + 1 then a
      else a\<lparr>ac_active := ac_active a + 1,
             ac_tracker := tracker_add now (length (ac_conns a)) (ac_tracker a),
             ac_conns := ac_conns a @ [CnHandshake]\<rparr>)"
| "acceptor_step a (AcHandshakeFails c) =
     (if conn_phase_at a c = CnHandshake then move_conn c CnGone (give_back c a) else a)"
| "acceptor_step a (AcCommissioning c) =
     (if conn_phase_at a c = CnHandshake then move_conn c CnCommissioning a else a)"
| "acceptor_step a (AcOperational c) =
     (if conn_phase_at a c = CnHandshake then move_conn c CnOperational a else a)"
| "acceptor_step a (AcRefused c) =
     (if conn_phase_at a c \<in> {CnCommissioning, CnOperational}
      then move_conn c CnGone (give_back c a) else a)"
| "acceptor_step a (AcCommissioned c) =
     (if conn_phase_at a c = CnCommissioning then move_conn c CnGone (give_back c a) else a)"
| "acceptor_step a (AcMessageLoop c) =
     (if conn_phase_at a c = CnOperational then move_conn c CnLoop (give_back c a) else a)"
| "acceptor_step a (AcLoopEnds c) =
     (if conn_phase_at a c = CnLoop
      then move_conn c CnGone (a\<lparr>ac_tracker := tracker_remove c (ac_tracker a)\<rparr>) else a)"
| "acceptor_step a (AcReap now max_age) =
     (case close_stale now max_age (ac_tracker a) of
        (stale, ct) \<Rightarrow> a\<lparr>ac_tracker := ct, ac_reaped := ac_reaped a @ stale\<rparr>)"

text \<open>The counter is the number of connections that hold a slot, it stays within the cap, and only
  such connections are tracked.\<close>

definition slot_holders :: "acceptor \<Rightarrow> nat set" where
  "slot_holders a = {c. holds_slot (conn_phase_at a c)}"

definition acceptor_inv :: "acceptor \<Rightarrow> bool" where
  "acceptor_inv a \<longleftrightarrow>
     ac_active a = int (card (slot_holders a)) \<and> ac_active a \<le> int (ac_max_zones a) + 1 \<and>
     gm_wf (ac_tracker a) \<and>
     (\<forall>c. gm_get (ac_tracker a) c \<noteq> None \<longrightarrow> c \<in> slot_holders a)"

lemma acceptor_inv_new: "acceptor_inv (new_acceptor n)"
  by (simp add: acceptor_inv_def new_acceptor_def slot_holders_def conn_phase_at_def)

lemma slot_holders_bound: "c \<in> slot_holders a \<Longrightarrow> c < length (ac_conns a)"
  by (auto simp: slot_holders_def conn_phase_at_def split: if_splits)

lemma finite_slot_holders [simp]: "finite (slot_holders a)"
  by (rule finite_subset [of _ "{..<length (ac_conns a)}"]) (auto dest: slot_holders_bound)

lemma phase_moved:
  "conn_phase_at (move_conn c p a) d =
     (if d = c \<and> c < length (ac_conns a) then p else conn_phase_at a d)"
  by (simp add: conn_phase_at_def move_conn_def nth_list_update)

lemma phase_frame [simp]:
  "conn_phase_at (give_back c a) = conn_phase_at a"
  "conn_phase_at (a\<lparr>ac_tracker := t\<rparr>) = conn_phase_at a"
  "conn_phase_at (a\<lparr>ac_tracker := t, ac_reaped := r\<rparr>) = conn_phase_at a"
  by (simp_all add: give_back_def conn_phase_at_def fun_eq_iff)

lemma conns_give_back [simp]: "ac_conns (give_back c a) = ac_conns a"
  by (simp add: give_back_def)

lemma holders_moved:
  assumes "conn_phase_at a c \<noteq> CnGone"
  shows "slot_holders (move_conn c p a) =
    (if holds_slot p then insert c (slot_holders a) else slot_holders a - {c})"
proof -
  have "c < length (ac_conns a)" using assms by (simp add: conn_phase_at_def split: if_splits)
  then show ?thesis by (auto simp: slot_holders_def phase_moved)
qed

lemma acceptor_inv_leaves:
  assumes "acceptor_inv a" and "holds_slot (conn_phase_at a c)" and "\<not> holds_slot p"
  shows "acceptor_inv (move_conn c p (give_back c a))"
proof -
  have c: "c \<in> slot_holders a" using assms(2) by (simp add: slot_holders_def)
  then have "card (slot_holders a - {c}) = card (slot_holders a) - 1" "card (slot_holders a) > 0"
    using card_gt_0_iff [of "slot_holders a"] by auto
  moreover have "conn_phase_at (give_back c a) c \<noteq> CnGone" using assms(2) by auto
  moreover from this have "slot_holders (move_conn c p (give_back c a)) = slot_holders a - {c}"
    using holders_moved [of "give_back c a" c p] assms(3) by (simp add: slot_holders_def)
  ultimately show ?thesis
    using assms(1) by (auto simp: acceptor_inv_def move_conn_def give_back_def tracker_remove_def
        gomap_simps split: if_splits)
qed

lemma acceptor_inv_moves:
  assumes "acceptor_inv a" and "holds_slot (conn_phase_at a c)" and "holds_slot p"
  shows "acceptor_inv (move_conn c p a)"
proof -
  have "conn_phase_at a c \<noteq> CnGone" using assms(2) by auto
  moreover have "c \<in> slot_holders a" using assms(2) by (simp add: slot_holders_def)
  ultimately have "slot_holders (move_conn c p a) = slot_holders a"
    using holders_moved [of a c p] assms(3) by auto
  with assms(1) show ?thesis by (simp add: acceptor_inv_def move_conn_def)
qed

lemma acceptor_inv_step: "acceptor_inv a \<Longrightarrow> acceptor_inv (acceptor_step a e)"
proof (cases e)
  case (AcAccept now)
  assume inv: "acceptor_inv a"
  let ?n = "length (ac_conns a)"
  let ?a = "a\<lparr>ac_active := ac_active a + 1, ac_tracker := tracker_add now ?n (ac_tracker a),
     ac_conns := ac_conns a @ [CnHandshake]\<rparr>"
  have "slot_holders ?a = insert ?n (slot_holders a)"
    by (auto simp: slot_holders_def conn_phase_at_def nth_append)
  moreover have "?n \<notin> slot_holders a" using slot_holders_bound by blast
  ultimately have "acceptor_inv ?a" if "ac_active a < int (ac_max_zones a) + 1"
    using inv that by (auto simp: acceptor_inv_def tracker_add_def gomap_simps split: if_splits)
  with inv show ?thesis by (simp add: AcAccept)
next
  case (AcLoopEnds c)
  assume inv: "acceptor_inv a"
  let ?a = "a\<lparr>ac_tracker := tracker_remove c (ac_tracker a)\<rparr>"
  have "acceptor_inv (move_conn c CnGone ?a)" if l: "conn_phase_at a c = CnLoop"
  proof -
    have "slot_holders (move_conn c CnGone ?a) = slot_holders a"
      using holders_moved [of ?a c CnGone] l by (auto simp: slot_holders_def)
    with inv show ?thesis by (auto simp: acceptor_inv_def move_conn_def tracker_remove_def gomap_simps)
  qed
  with inv show ?thesis by (simp add: AcLoopEnds)
next
  case (AcReap now max_age)
  assume "acceptor_inv a"
  then show ?thesis
    by (auto simp: AcReap acceptor_inv_def close_stale_def slot_holders_def gm_get_purge
        split: option.splits if_splits)
qed (auto simp: acceptor_inv_leaves acceptor_inv_moves)

interpretation acceptor_machine: invariant_machine acceptor_step acceptor_inv
  by unfold_locales (rule acceptor_inv_step)

text \<open>C21. A device never has more connections before their message loop than zones and one, the counter
  is exact, and the reaper only closes such connections, and only when they are old enough.\<close>

theorem connection_cap:
  "let a = foldl acceptor_step (new_acceptor n) ops; (stale, ct) = close_stale now max_age (ac_tracker a)
   in ac_active a = int (card (slot_holders a)) \<and> card (slot_holders a) \<le> n + 1 \<and>
      (\<forall>c \<in> set stale. holds_slot (conn_phase_at a c) \<and>
         (\<exists>added. gm_get (ac_tracker a) c = Some added \<and> added + max_age < now))"
proof -
  let ?a = "foldl acceptor_step (new_acceptor n) ops"
  have inv: "acceptor_inv ?a" by (rule acceptor_machine.run_inv [OF acceptor_inv_new])
  have "ac_max_zones (acceptor_step a e) = ac_max_zones a" for a e
    by (cases e) (auto simp: move_conn_def give_back_def close_stale_def)
  then have "ac_max_zones (foldl acceptor_step a es) = ac_max_zones a" for a es
    by (induction es arbitrary: a) simp_all
  then have "ac_max_zones ?a = n" by (simp add: new_acceptor_def)
  moreover have "holds_slot (conn_phase_at ?a c) \<and> gm_get (ac_tracker ?a) c = Some added"
    if "(c, added) \<in> set (ac_tracker ?a)" for c added
    using inv that gm_get_in [of "ac_tracker ?a" c added] by (auto simp: acceptor_inv_def slot_holders_def)
  ultimately show ?thesis using inv by (fastforce simp: Let_def close_stale_def acceptor_inv_def)
qed

definition capped_ops :: "acceptor_op list" where
  "capped_ops = [AcAccept 1, AcAccept 2, AcAccept 3, AcOperational 0, AcMessageLoop 0]"

definition capped_run :: acceptor where
  "capped_run = foldl acceptor_step (new_acceptor 1) capped_ops"

lemma capped_run_facts: "ac_active capped_run = 1" "close_stale 100 50 (ac_tracker capped_run) = ([1], [])"
  by code_simp+

theorem connection_cap_witness:
  "card (slot_holders capped_run) \<le> 2 \<and> holds_slot (conn_phase_at capped_run 1)"
  using connection_cap [of 1 capped_ops 100 50, folded capped_run_def]
  by (simp add: capped_run_facts Let_def)

section \<open>The choice of the TLS configuration\<close>

datatype tls_choice = TlsCommissioning | TlsOperational | TlsRefused string

text \<open>\<open>getConfigForClient\<close>: the protocols a client offers, the state of the gate, and whether there
  is an operational configuration.\<close>

definition ALPNCommissioningProtocol :: string where "ALPNCommissioningProtocol = ''mash-comm/1''"

definition get_config_for_client :: "string list \<Rightarrow> bool \<Rightarrow> bool \<Rightarrow> tls_choice" where
  "get_config_for_client protos gate has_config =
     (if ALPNCommissioningProtocol \<in> set protos
      then if \<not> gate then TlsRefused ''commissioning not active'' else TlsCommissioning
      else if \<not> has_config then TlsRefused ''device not commissioned'' else TlsOperational)"

section \<open>The certificate of a controller\<close>

record peer_cert =
  pc_not_before :: time
  pc_not_after :: time
  pc_is_ca :: bool

definition clockSkewTolerance :: duration where
  "clockSkewTolerance = 300 * second"

text \<open>What the configuration adds to the check of the TLS library.\<close>

definition verify_peer_certificate :: "time \<Rightarrow> peer_cert \<Rightarrow> bool" where
  "verify_peer_certificate now c \<longleftrightarrow>
     \<not> pc_is_ca c \<and>
     \<not> (now < pc_not_before c \<and> pc_not_before c - now > clockSkewTolerance) \<and>
     \<not> (pc_not_after c < now \<and> now - pc_not_after c > clockSkewTolerance)"

text \<open>\<open>verifyClientCert\<close>; \<open>verify\<close> checks a certificate against the zone authorities at a time.\<close>

definition verify_client_cert :: "bool \<Rightarrow> (peer_cert \<Rightarrow> time \<Rightarrow> bool) \<Rightarrow> time \<Rightarrow> peer_cert \<Rightarrow> bool" where
  "verify_client_cert found_ca verify now c \<longleftrightarrow>
     \<not> found_ca \<or> verify c now \<or>
     (now < pc_not_before c \<and> pc_not_before c - now \<le> clockSkewTolerance \<and> verify c (pc_not_before c)) \<or>
     (pc_not_after c < now \<and> now - pc_not_after c \<le> clockSkewTolerance \<and> verify c (pc_not_after c))"

text \<open>The operational path of a connection: the TLS library with \<open>RequireAndVerifyClientCert\<close> (at the
  clock of the system), the function of the configuration, and the checks of
  \<open>handleIncomingConnection\<close>, the latter two at the clock with the offset that tests set.\<close>

definition operational_connection_accepted ::
  "(peer_cert \<Rightarrow> time \<Rightarrow> bool) \<Rightarrow> bool \<Rightarrow> time \<Rightarrow> duration \<Rightarrow> peer_cert list \<Rightarrow> bool" where
  "operational_connection_accepted verify found_ca now offset peers \<longleftrightarrow>
     (case peers of
        [] \<Rightarrow> False
      | c # cs \<Rightarrow>
          verify c now \<and> verify_peer_certificate (now + offset) c \<and> length (c # cs) \<le> 2 \<and>
          verify_client_cert found_ca verify (now + offset) c)"

text \<open>A certificate that has expired, or is not valid yet, by the clock of the device is never
  accepted: the library rejects it first. The tolerance of 300 seconds that the two checks grant
  is without effect.\<close>

theorem clock_skew_not_tolerated:
  assumes "\<And>c t. verify c t \<Longrightarrow> pc_not_before c \<le> t \<and> t \<le> pc_not_after c"
    and "operational_connection_accepted verify found_ca now offset (c # cs)"
  shows "pc_not_before c \<le> now \<and> now \<le> pc_not_after c"
  using assms by (simp add: operational_connection_accepted_def)

text \<open>By themselves the two checks accept a certificate that is 300 seconds early or late.\<close>

theorem skew_checks_tolerate:
  assumes "\<And>t. verify c t \<longleftrightarrow> pc_not_before c \<le> t \<and> t \<le> pc_not_after c"
    and "\<not> pc_is_ca c" and "pc_not_before c \<le> pc_not_after c"
  shows "verify_peer_certificate now c \<and> verify_client_cert True verify now c \<longleftrightarrow>
    pc_not_before c - clockSkewTolerance \<le> now \<and> now \<le> pc_not_after c + clockSkewTolerance"
proof -
  have "0 < clockSkewTolerance" by (simp add: clockSkewTolerance_def)
  then show ?thesis
    using assms(2,3) unfolding verify_peer_certificate_def verify_client_cert_def assms(1) by presburger
qed

section \<open>The delay of error responses\<close>

text \<open>The eight random bytes are put together in a signed integer of 64 bits; the remainder of Go
  has the sign of the dividend.\<close>

definition go_rem :: "int \<Rightarrow> int \<Rightarrow> int" where
  "go_rem a b = sgn a * (abs a mod abs b)"

definition random_offset :: "u8 list \<Rightarrow> 64 word" where
  "random_offset bs = foldl (\<lambda>o1 b. (push_bit 8 o1) OR ucast b) 0 bs"

definition random_error_delay :: "bool \<Rightarrow> duration \<Rightarrow> duration \<Rightarrow> u8 list \<Rightarrow> duration" where
  "random_error_delay generic dmin dmax bs =
     (if \<not> generic then 0
      else if dmin \<ge> dmax then dmin
      else dmin + go_rem (sint (random_offset bs)) (dmax - dmin + 1))"

text \<open>Half of the random values are negative, and the delay is then below the minimum: it lies
  between the minimum and the maximum only when the first of the eight bytes is below 128.\<close>

theorem error_delay_range:
  assumes "dmin < dmax" and "d = random_error_delay True dmin dmax bs"
  shows "2 * dmin - dmax \<le> d \<and> d \<le> dmax \<and>
    (0 \<le> sint (random_offset bs) \<longrightarrow> dmin \<le> d) \<and> (sint (random_offset bs) \<le> 0 \<longrightarrow> d \<le> dmin)"
proof -
  let ?x = "sint (random_offset bs)" and ?m = "dmax - dmin + 1"
  have m: "abs ?m = ?m" "?m > 0" using assms(1) by simp_all
  have r: "0 \<le> abs ?x mod ?m" "abs ?x mod ?m \<le> dmax - dmin"
    using pos_mod_sign [OF m(2)] pos_mod_bound [OF m(2), of "abs ?x"] by simp_all
  have "d = dmin + sgn ?x * (abs ?x mod ?m)"
    using assms by (simp add: random_error_delay_def go_rem_def m(1))
  then show ?thesis using r by (cases "?x = 0"; cases "?x > 0") (auto simp: sgn_if)
qed

theorem clock_skew_not_tolerated_witness:
  "operational_connection_accepted (\<lambda>c t. pc_not_before c \<le> t \<and> t \<le> pc_not_after c) True 150 0
     [\<lparr>pc_not_before = 100, pc_not_after = 200, pc_is_ca = False\<rparr>] \<and> (100::int) \<le> 150 \<and> (150::int) \<le> 200"
proof -
  let ?c = "\<lparr>pc_not_before = 100, pc_not_after = 200, pc_is_ca = False\<rparr>"
  let ?v = "\<lambda>c t. pc_not_before c \<le> t \<and> t \<le> pc_not_after c"
  have a: "operational_connection_accepted ?v True 150 0 [?c]"
    by (simp add: operational_connection_accepted_def verify_peer_certificate_def verify_client_cert_def)
  have "pc_not_before ?c \<le> 150 \<and> 150 \<le> pc_not_after ?c"
    by (rule clock_skew_not_tolerated [OF _ a]) simp
  with a show ?thesis by simp
qed

theorem skew_checks_tolerate_witness:
  "let c = \<lparr>pc_not_before = 0, pc_not_after = 10, pc_is_ca = False\<rparr>;
       v = (\<lambda>c t. pc_not_before c \<le> t \<and> t \<le> pc_not_after c)
   in verify_peer_certificate (10 + 300 * second) c \<and> verify_client_cert True v (10 + 300 * second) c"
proof -
  let ?c = "\<lparr>pc_not_before = 0, pc_not_after = 10, pc_is_ca = False\<rparr>"
  let ?v = "\<lambda>c t. pc_not_before c \<le> t \<and> t \<le> pc_not_after c"
  have "verify_peer_certificate (10 + 300 * second) ?c \<and> verify_client_cert True ?v (10 + 300 * second) ?c"
    using skew_checks_tolerate [of ?v ?c "10 + 300 * second"]
    by (simp add: clockSkewTolerance_def)
  then show ?thesis by (simp add: Let_def)
qed

text \<open>The defaults are 100 and 500 milliseconds; here a delay of nearly minus 300.\<close>

theorem error_delay_range_witness:
  "random_error_delay True (100 * millisecond) (500 * millisecond) [255, 255, 255, 255, 238, 30, 93, 0]
     < 0 \<and>
   2 * (100 * millisecond) - 500 * millisecond
     \<le> random_error_delay True (100 * millisecond) (500 * millisecond) [255, 255, 255, 255, 238, 30, 93, 0]"
proof -
  have "random_error_delay True (100 * millisecond) (500 * millisecond) [255, 255, 255, 255, 238, 30, 93, 0] < 0"
    by code_simp
  then show ?thesis
    using error_delay_range [OF _ refl, of "100 * millisecond" "500 * millisecond"
        "[255, 255, 255, 255, 238, 30, 93, 0]"] by simp
qed

end
