(* ===== verification/InteractionServer.thy ===== *)
theory InteractionServer
  imports Dispatch
begin

text \<open>
  The request handler of \<open>pkg/interaction\<close> (\<open>server.go\<close>, \<open>subscription.go\<close>): the second server of
  the repository, which keeps subscriptions for one client and notifies it after its writes.

  A \<open>Subscription\<close> is an object that the map of the server and the list of subscribers of a feature
  both point to: here it is a cell of a store, and its address names it among the subscribers. The
  server's own subscriptions have the even names; an odd name is a subscriber of somebody else, and
  its calls are outputs. A request reads the clock once.
\<close>

section \<open>Subscriptions\<close>

record server_sub =
  vs_id :: u32
  vs_endpoint_id :: u8
  vs_feature_id :: u8
  vs_attribute_ids :: "u16 list"
  vs_min_interval :: duration
  vs_max_interval :: duration
  vs_last_notify :: time
  vs_values :: "(u16, any) gomap"
  vs_pending :: "(u16, any) gomap option"

definition is_subscribed_to :: "u16 \<Rightarrow> server_sub \<Rightarrow> bool" where
  "is_subscribed_to attr v \<longleftrightarrow> vs_attribute_ids v = [] \<or> attr \<in> set (vs_attribute_ids v)"

definition can_notify :: "time \<Rightarrow> server_sub \<Rightarrow> bool" where
  "can_notify now v \<longleftrightarrow> now - vs_last_notify v \<ge> vs_min_interval v"

definition heartbeat_due :: "time \<Rightarrow> server_sub \<Rightarrow> bool" where
  "heartbeat_due now v \<longleftrightarrow> now - vs_last_notify v \<ge> vs_max_interval v"

definition mark_notified :: "time \<Rightarrow> server_sub \<Rightarrow> server_sub" where
  "mark_notified now v = v\<lparr>vs_last_notify := now, vs_pending := None\<rparr>"

definition vs_record_change :: "u16 \<Rightarrow> any \<Rightarrow> server_sub \<Rightarrow> server_sub" where
  "vs_record_change attr value v =
     v\<lparr>vs_pending := Some (gm_put attr value (case vs_pending v of None \<Rightarrow> [] | Some p \<Rightarrow> p)),
       vs_values := gm_put attr value (vs_values v)\<rparr>"

definition get_pending_changes :: "server_sub \<Rightarrow> (u16, any) gomap option" where
  "get_pending_changes v = vs_pending v"

definition get_current_values :: "server_sub \<Rightarrow> (u16, any) gomap" where
  "get_current_values v = vs_values v"

definition on_attribute_changed :: "u16 \<Rightarrow> any \<Rightarrow> server_sub \<Rightarrow> server_sub" where
  "on_attribute_changed attr value v =
     (if \<not> is_subscribed_to attr v then v else vs_record_change attr value v)"

definition time_since_last_notify :: "time \<Rightarrow> server_sub \<Rightarrow> duration" where
  "time_since_last_notify now v = now - vs_last_notify v"

section \<open>The server\<close>

record server =
  sv_device :: device
  sv_subscriptions :: "(u32, nat) gomap"
  sv_objects :: "server_sub list"
  sv_next_sub_id :: u32
  sv_notifies :: bool

definition new_server :: "device \<Rightarrow> server" where
  "new_server d = \<lparr>sv_device = d, sv_subscriptions = [], sv_objects = [], sv_next_sub_id = 1,
     sv_notifies = False\<rparr>"

definition sv_set_notification_handler :: "bool \<Rightarrow> server \<Rightarrow> server" where
  "sv_set_notification_handler b s = s\<lparr>sv_notifies := b\<rparr>"

datatype server_output = SvNotify notification | SvForeign change

definition own_name :: "nat \<Rightarrow> nat" where "own_name a = 2 * a"

text \<open>What a feature's call of its subscribers does.\<close>

definition at_object :: "nat \<Rightarrow> (server_sub \<Rightarrow> server_sub) \<Rightarrow> server_sub list \<Rightarrow> server_sub list" where
  "at_object a g os = (if a < length os then os[a := g (os ! a)] else os)"

definition deliver_change :: "server_sub list \<Rightarrow> change \<Rightarrow> server_sub list" where
  "deliver_change os c =
     (if even (ch_subscriber c)
      then at_object (ch_subscriber c div 2) (on_attribute_changed (ch_attr_id c) (ch_value c)) os
      else os)"

definition foreign_calls :: "change list \<Rightarrow> server_output list" where
  "foreign_calls cs = map SvForeign (filter (\<lambda>c. odd (ch_subscriber c)) cs)"

text \<open>Every handler begins with the feature of the request.\<close>

definition sv_error :: "request \<Rightarrow> status \<Rightarrow> string \<Rightarrow> response" where
  "sv_error rq st msg =
     \<lparr>rp_message_id = rq_message_id rq, rp_status = st, rp_payload = AErrorPayload msg\<rparr>"

definition feature_error :: "request \<Rightarrow> model_error \<Rightarrow> response" where
  "feature_error rq err =
     (if err = ErrEndpointNotFound then sv_error rq StatusInvalidEndpoint ''endpoint not found''
      else sv_error rq StatusInvalidFeature ''feature not found'')"

definition sv_success :: "request \<Rightarrow> any \<Rightarrow> response" where
  "sv_success rq p =
     \<lparr>rp_message_id = rq_message_id rq, rp_status = StatusSuccess, rp_payload = p\<rparr>"

section \<open>Read\<close>

text \<open>The elements of a decoded slice; one of another type leaves the zero of \<open>make\<close>.\<close>

fun slice_id :: "any \<Rightarrow> u16" where
  "slice_id (AU16 n) = n"
| "slice_id (AU64 n) = ucast n"
| "slice_id (AI64 n) = ucast n"
| "slice_id _ = 0"

fun slice_id_u64 :: "any \<Rightarrow> u16" where
  "slice_id_u64 (AU64 n) = ucast n"
| "slice_id_u64 _ = 0"

fun sv_read_ids :: "any \<Rightarrow> u16 list" where
  "sv_read_ids (AReadPayload ids) = ids"
| "sv_read_ids (AU16s ids) = ids"
| "sv_read_ids (ASlice vs) = map slice_id vs"
| "sv_read_ids (AMapString m) = map slice_id_u64 (any_slice (any_at m ''1''))"
| "sv_read_ids _ = []"

text \<open>The values of the attributes that can be read; all of them when none is asked for.\<close>

definition sv_values :: "u16 list \<Rightarrow> feature \<Rightarrow> (u16, any) gomap" where
  "sv_values ids f =
     (if ids = [] then read_all_attributes f
      else foldl (\<lambda>acc i. case read_attribute i f of Inl _ \<Rightarrow> acc | Inr v \<Rightarrow> gm_put i v acc) [] ids)"

definition sv_handle_read :: "request \<Rightarrow> server \<Rightarrow> response" where
  "sv_handle_read rq s =
     (case device_get_feature (rq_endpoint_id rq) (rq_feature_id rq) (sv_device s) of
        Inl err \<Rightarrow> feature_error rq err
      | Inr f \<Rightarrow> sv_success rq (AMapU16 (sv_values (sv_read_ids (rq_payload rq)) f)))"

section \<open>Notifications\<close>

definition sub_changes :: "server_sub \<Rightarrow> (u16, any) gomap \<Rightarrow> (u16, any) gomap" where
  "sub_changes v changes = filter (\<lambda>(i, x). is_subscribed_to i v) changes"

definition sv_notify_one ::
  "time \<Rightarrow> u8 \<Rightarrow> u8 \<Rightarrow> (u16, any) gomap \<Rightarrow> server_sub list \<times> server_output list \<Rightarrow> u32 \<times> nat \<Rightarrow>
     server_sub list \<times> server_output list" where
  "sv_notify_one now ep fid changes st e =
     (let v = fst st ! snd e
      in if snd e \<ge> length (fst st) then st
         else if vs_endpoint_id v \<noteq> ep \<or> vs_feature_id v \<noteq> fid then st
         else if sub_changes v changes = [] then st
         else if \<not> can_notify now v then st
         else (at_object (snd e) (mark_notified now) (fst st),
               snd st @ [SvNotify \<lparr>nt_subscription_id = vs_id v, nt_endpoint_id = ep,
                 nt_feature_id = fid, nt_changes = sub_changes v changes\<rparr>]))"

definition sv_notify_changes ::
  "time \<Rightarrow> u8 \<Rightarrow> u8 \<Rightarrow> (u16, any) gomap \<Rightarrow> server \<Rightarrow> server \<times> server_output list" where
  "sv_notify_changes now ep fid changes s =
     (if \<not> sv_notifies s then (s, [])
      else case foldl (sv_notify_one now ep fid changes) (sv_objects s, []) (sv_subscriptions s) of
        (os, out) \<Rightarrow> (s\<lparr>sv_objects := os\<rparr>, out))"

section \<open>Write\<close>

fun sv_key :: "any \<Rightarrow> u16 option" where
  "sv_key (AU16 n) = Some n"
| "sv_key (AU64 n) = Some (ucast n)"
| "sv_key (AI64 n) = Some (ucast n)"
| "sv_key _ = None"

definition sv_put_entry :: "(u16, any) gomap \<Rightarrow> any \<times> any \<Rightarrow> (u16, any) gomap" where
  "sv_put_entry acc e = (case sv_key (fst e) of None \<Rightarrow> acc | Some k \<Rightarrow> gm_put k (snd e) acc)"

fun sv_write_payload :: "any \<Rightarrow> (u16, any) gomap option" where
  "sv_write_payload (AMapU16 m) = Some m"
| "sv_write_payload (AMap m) = Some (foldl sv_put_entry [] m)"
| "sv_write_payload _ = None"

text \<open>The variables of the loop over the attributes.\<close>

record sv_write_state =
  sw_feature :: feature
  sw_changes :: "change list"
  sw_results :: "(u16, any) gomap"
  sw_error :: "model_error option"

definition sv_write_one :: "sv_write_state \<Rightarrow> u16 \<times> any \<Rightarrow> sv_write_state" where
  "sv_write_one w e =
     (case write_attribute (fst e) (snd e) (sw_feature w) of
        (f', cs, Some err) \<Rightarrow>
          w\<lparr>sw_feature := f', sw_changes := sw_changes w @ cs, sw_error := Some err\<rparr>
      | (f', cs, None) \<Rightarrow>
          w\<lparr>sw_feature := f', sw_changes := sw_changes w @ cs,
            sw_results := gm_put (fst e)
              (case read_attribute (fst e) f' of Inr actual \<Rightarrow> actual | Inl _ \<Rightarrow> snd e)
              (sw_results w)\<rparr>)"

definition sv_write_all :: "(u16, any) gomap \<Rightarrow> feature \<Rightarrow> sv_write_state" where
  "sv_write_all m f = foldl sv_write_one
     \<lparr>sw_feature = f, sw_changes = [], sw_results = [], sw_error = None\<rparr> m"

definition sv_handle_write ::
  "(any \<Rightarrow> string) \<Rightarrow> time \<Rightarrow> request \<Rightarrow> server \<Rightarrow> server \<times> server_output list \<times> response" where
  "sv_handle_write fmt now rq s =
     (case device_get_feature (rq_endpoint_id rq) (rq_feature_id rq) (sv_device s) of
        Inl err \<Rightarrow> (s, [], feature_error rq err)
      | Inr f \<Rightarrow>
     (case sv_write_payload (rq_payload rq) of
        None \<Rightarrow> (s, [], sv_error rq StatusInvalidParameter ''invalid payload format'')
      | Some [] \<Rightarrow> (s, [], sv_error rq StatusInvalidParameter ''no attributes to write'')
      | Some m \<Rightarrow>
     (let w = sv_write_all m f;
          s1 = s\<lparr>sv_device :=
                   put_feature (rq_endpoint_id rq) (rq_feature_id rq) (sw_feature w) (sv_device s),
                 sv_objects := foldl deliver_change (sv_objects s) (sw_changes w)\<rparr>;
          calls = foreign_calls (sw_changes w)
      in case (sw_error w, sw_results w) of
           (Some err, []) \<Rightarrow> (s1, calls, sv_error rq StatusConstraintError (error_text fmt err))
         | _ \<Rightarrow>
             (case sv_notify_changes now (rq_endpoint_id rq) (rq_feature_id rq) (sw_results w) s1 of
                (s2, out) \<Rightarrow> (s2, calls @ out, sv_success rq (AMapU16 (sw_results w)))))))"
section \<open>Subscribe and unsubscribe\<close>

definition server_milliseconds :: "u32 \<Rightarrow> duration" where
  "server_milliseconds n = uint n * millisecond"

text \<open>The attribute ids and the two intervals, from the defaults. A decoded map may set an interval
  to zero, a typed payload may not.\<close>

definition positive_or :: "u32 \<Rightarrow> u32 \<Rightarrow> u32" where
  "positive_or n d = (if n > 0 then n else d)"

fun interval_at :: "any \<Rightarrow> u32 \<Rightarrow> u32" where
  "interval_at (AU64 n) _ = ucast n"
| "interval_at _ d = d"

fun sv_subscribe_payload :: "any \<Rightarrow> u16 list \<times> u32 \<times> u32" where
  "sv_subscribe_payload (ASubscribePayload ids mn mx) = (ids, positive_or mn 1000, positive_or mx 60000)"
| "sv_subscribe_payload (AMap m) =
     (map slice_id_u64 (any_slice (any_at m (AU64 1))),
      interval_at (any_at m (AU64 2)) 1000, interval_at (any_at m (AU64 3)) 60000)"
| "sv_subscribe_payload _ = ([], 1000, 60000)"

fun sv_unsubscribe_id :: "any \<Rightarrow> u32 option" where
  "sv_unsubscribe_id (AUnsubscribePayload i) = Some i"
| "sv_unsubscribe_id (AMap m) = Some (interval_at (any_at m (AU64 1)) 0)"
| "sv_unsubscribe_id _ = None"

text \<open>\<open>feature.Unsubscribe(sub)\<close> when the feature of a subscription still exists.\<close>

definition drop_subscriber :: "nat \<Rightarrow> server_sub list \<Rightarrow> device \<Rightarrow> device" where
  "drop_subscriber a os d =
     (let v = os ! a
      in case device_get_feature (vs_endpoint_id v) (vs_feature_id v) d of
           Inl _ \<Rightarrow> d
         | Inr f \<Rightarrow> put_feature (vs_endpoint_id v) (vs_feature_id v)
                      (feature_unsubscribe (own_name a) f) d)"

definition sv_handle_unsubscribe :: "request \<Rightarrow> server \<Rightarrow> server \<times> response" where
  "sv_handle_unsubscribe rq s =
     (case sv_unsubscribe_id (rq_payload rq) of
        None \<Rightarrow> (s, sv_error rq StatusInvalidParameter ''invalid unsubscribe payload'')
      | Some i \<Rightarrow>
          (case gm_get (sv_subscriptions s) i of
             None \<Rightarrow> (s, sv_error rq StatusInvalidParameter ''subscription not found'')
           | Some a \<Rightarrow>
               (s\<lparr>sv_subscriptions := gm_del i (sv_subscriptions s),
                  sv_device := drop_subscriber a (sv_objects s) (sv_device s)\<rparr>,
                sv_success rq ANil)))"

definition sv_handle_subscribe :: "time \<Rightarrow> request \<Rightarrow> server \<Rightarrow> server \<times> response" where
  "sv_handle_subscribe now rq s =
     (if rq_endpoint_id rq = 0 \<and> rq_feature_id rq = 0 then sv_handle_unsubscribe rq s
      else case device_get_feature (rq_endpoint_id rq) (rq_feature_id rq) (sv_device s) of
        Inl err \<Rightarrow> (s, feature_error rq err)
      | Inr f \<Rightarrow>
     (case sv_subscribe_payload (rq_payload rq) of
        (ids, mn, mx) \<Rightarrow>
     (let i = sv_next_sub_id s;
          a = length (sv_objects s);
          current = sv_values ids f;
          v = \<lparr>vs_id = i, vs_endpoint_id = rq_endpoint_id rq, vs_feature_id = rq_feature_id rq,
               vs_attribute_ids = ids, vs_min_interval = server_milliseconds mn,
               vs_max_interval = server_milliseconds mx, vs_last_notify = now, vs_values = current,
               vs_pending = None\<rparr>
      in (s\<lparr>sv_next_sub_id := i + 1, sv_objects := sv_objects s @ [v],
            sv_subscriptions := gm_put i a (sv_subscriptions s),
            sv_device := put_feature (rq_endpoint_id rq) (rq_feature_id rq)
              (feature_subscribe (own_name a) f) (sv_device s)\<rparr>,
          sv_success rq (ASubscribeResponse i current)))))"

section \<open>Invoke\<close>

fun map_string_params :: "any \<Rightarrow> params" where
  "map_string_params (AMapString m) = m"
| "map_string_params _ = []"

fun map_any_params :: "any \<Rightarrow> params" where
  "map_any_params (AMap m) = string_entries m"
| "map_any_params _ = []"

fun sv_invoke_payload :: "any \<Rightarrow> (u8 \<times> params) option" where
  "sv_invoke_payload (AInvokePayload c p) = Some (c, map_string_params p)"
| "sv_invoke_payload (AMap m) = Some (command_of (any_at m (AU64 1)), map_any_params (any_at m (AU64 2)))"
| "sv_invoke_payload _ = None"

text \<open>The errors are compared by identity, so an error that only wraps a sentinel is another one.\<close>

definition sv_invoke_status :: "invoke_error \<Rightarrow> status" where
  "sv_invoke_status err =
     (if err = sentinel ErrCommandNotFound then StatusInvalidCommand
      else if err = sentinel ErrInvalidParameters then StatusInvalidParameter
      else StatusConstraintError)"

definition sv_invoke_text :: "invoke_error \<Rightarrow> string" where
  "sv_invoke_text err =
     (if err = sentinel ErrCommandNotFound then ''command not found'' else ie_text err)"

definition sv_handle_invoke ::
  "server handlers \<Rightarrow> caller \<Rightarrow> request \<Rightarrow> server \<Rightarrow> server \<times> response" where
  "sv_handle_invoke hs ctx rq s =
     (case device_get_feature (rq_endpoint_id rq) (rq_feature_id rq) (sv_device s) of
        Inl err \<Rightarrow> (s, feature_error rq err)
      | Inr f \<Rightarrow>
     (case sv_invoke_payload (rq_payload rq) of
        None \<Rightarrow> (s, sv_error rq StatusInvalidParameter ''invalid invoke payload'')
      | Some (c, ps) \<Rightarrow>
     (case invoke_command hs ctx c ps f s of
        (s', Inl err) \<Rightarrow> (s', sv_error rq (sv_invoke_status err) (sv_invoke_text err))
      | (s', Inr result) \<Rightarrow> (s', sv_success rq (AMapString result)))))"

section \<open>Requests and the life of the server\<close>

record server_env =
  se_commands :: "server handlers"
  se_format :: "any \<Rightarrow> string"

definition sv_handle_request ::
  "server_env \<Rightarrow> caller \<Rightarrow> time \<Rightarrow> request \<Rightarrow> server \<Rightarrow> server \<times> server_output list \<times> response" where
  "sv_handle_request en ctx now rq s =
     (if rq_operation rq = OpRead then (s, [], sv_handle_read rq s)
      else if rq_operation rq = OpWrite then sv_handle_write (se_format en) now rq s
      else if rq_operation rq = OpSubscribe
      then (case sv_handle_subscribe now rq s of (s', rp) \<Rightarrow> (s', [], rp))
      else if rq_operation rq = OpInvoke
      then (case sv_handle_invoke (se_commands en) ctx rq s of (s', rp) \<Rightarrow> (s', [], rp))
      else (s, [], sv_error rq StatusUnsupported ''unknown operation''))"

definition sv_cancel_one :: "server \<Rightarrow> u32 \<times> nat \<Rightarrow> server" where
  "sv_cancel_one s e =
     s\<lparr>sv_device := drop_subscriber (snd e) (sv_objects s) (sv_device s),
       sv_subscriptions := gm_del (fst e) (sv_subscriptions s)\<rparr>"

definition sv_cancel_all :: "server \<Rightarrow> server" where
  "sv_cancel_all s = foldl sv_cancel_one s (sv_subscriptions s)"

definition sv_get_subscription :: "u32 \<Rightarrow> server \<Rightarrow> server_sub option" where
  "sv_get_subscription i s = map_option (\<lambda>a. sv_objects s ! a) (gm_get (sv_subscriptions s) i)"

definition sv_subscription_count :: "server \<Rightarrow> nat" where
  "sv_subscription_count s = length (sv_subscriptions s)"

text \<open>The device's own code sets an attribute.\<close>

definition sv_device_sets :: "u8 \<Rightarrow> u8 \<Rightarrow> u16 \<Rightarrow> any \<Rightarrow> server \<Rightarrow> server \<times> server_output list" where
  "sv_device_sets ep fid attr value s =
     (case device_get_feature ep fid (sv_device s) of
        Inl _ \<Rightarrow> (s, [])
      | Inr f \<Rightarrow>
          (case set_attribute_internal attr value f of
             (f', cs, _) \<Rightarrow>
               (s\<lparr>sv_device := put_feature ep fid f' (sv_device s),
                  sv_objects := foldl deliver_change (sv_objects s) cs\<rparr>, foreign_calls cs)))"

datatype server_op =
    SvRequest caller time request
  | SvDeviceSets u8 u8 u16 any
  | SvCancelAll
  | SvSetHandler bool

fun server_step_out :: "server_env \<Rightarrow> server \<Rightarrow> server_op \<Rightarrow> server \<times> server_output list" where
  "server_step_out en s (SvRequest ctx now rq) =
     (case sv_handle_request en ctx now rq s of (s', out, _) \<Rightarrow> (s', out))"
| "server_step_out en s (SvDeviceSets ep fid attr value) = sv_device_sets ep fid attr value s"
| "server_step_out en s SvCancelAll = (sv_cancel_all s, [])"
| "server_step_out en s (SvSetHandler b) = (sv_set_notification_handler b s, [])"

definition server_step :: "server_env \<Rightarrow> server \<Rightarrow> server_op \<Rightarrow> server" where
  "server_step en s p = fst (server_step_out en s p)"

section \<open>Lemmas\<close>

subsection \<open>Objects\<close>

text \<open>What no operation changes about a subscription, and besides what only notifying changes.\<close>

definition vs_static :: "server_sub \<Rightarrow> server_sub \<Rightarrow> bool" where
  "vs_static v w \<longleftrightarrow> vs_id v = vs_id w \<and> vs_endpoint_id v = vs_endpoint_id w \<and>
     vs_feature_id v = vs_feature_id w \<and> vs_attribute_ids v = vs_attribute_ids w"

lemma vs_static_refl [simp]: "vs_static v v"
  by (simp add: vs_static_def)

lemma vs_static_trans: "vs_static u v \<Longrightarrow> vs_static v w \<Longrightarrow> vs_static u w"
  by (simp add: vs_static_def)

lemma vs_static_subscribed: "vs_static v w \<Longrightarrow> is_subscribed_to i v = is_subscribed_to i w"
  by (simp add: vs_static_def is_subscribed_to_def)

lemma length_at_object [simp]: "length (at_object a g os) = length os"
  by (simp add: at_object_def)

lemma nth_at_object: "b < length os \<Longrightarrow> at_object a g os ! b = (if a = b then g (os ! b) else os ! b)"
  by (simp add: at_object_def nth_list_update)

lemma changed_static: "vs_static (on_attribute_changed i x v) v"
  by (simp add: vs_static_def on_attribute_changed_def vs_record_change_def)

lemma changed_values:
  "gm_get (vs_values (on_attribute_changed i x v)) =
     (if is_subscribed_to i v then (gm_get (vs_values v))(i \<mapsto> x) else gm_get (vs_values v))"
  by (simp add: on_attribute_changed_def vs_record_change_def gomap_simps)

lemma own_name_simps [simp]:
  "even (own_name a)" "own_name a div 2 = a" "own_name a = own_name b \<longleftrightarrow> a = b"
  by (simp_all add: own_name_def)

lemma own_name_even: "even s \<Longrightarrow> own_name a = s \<longleftrightarrow> a = s div 2"
  by (auto simp: own_name_def)

lemma own_name_odd: "odd s \<Longrightarrow> own_name a \<noteq> s"
  by (auto simp: own_name_def)

lemma length_deliver [simp]: "length (deliver_change os c) = length os"
  by (simp add: deliver_change_def)

lemma length_deliver_all [simp]: "length (foldl deliver_change os cs) = length os"
  by (induction cs arbitrary: os) simp_all

lemma deliver_static:
  "a < length os \<Longrightarrow> vs_static (deliver_change os c ! a) (os ! a)"
  by (simp add: deliver_change_def nth_at_object changed_static)

lemma deliver_all_static:
  "a < length os \<Longrightarrow> vs_static (foldl deliver_change os cs ! a) (os ! a)"
proof (induction cs arbitrary: os)
  case (Cons c cs)
  then have "vs_static (foldl deliver_change (deliver_change os c) cs ! a) (deliver_change os c ! a)"
    by simp
  then show ?case using vs_static_trans deliver_static [OF Cons.prems] by auto
qed simp

lemma deliver_all_values:
  assumes "a < length os" and "\<forall>c \<in> set cs. ch_attr_id c = i \<and> ch_value c = x"
  shows "gm_get (vs_values (foldl deliver_change os cs ! a)) =
    (if own_name a \<in> ch_subscriber ` set cs \<and> is_subscribed_to i (os ! a)
     then (gm_get (vs_values (os ! a)))(i \<mapsto> x) else gm_get (vs_values (os ! a)))"
  using assms
proof (induction cs arbitrary: os)
  case Nil
  then show ?case by simp
next
  case (Cons c cs)
  have sub: "is_subscribed_to i (deliver_change os c ! a) = is_subscribed_to i (os ! a)"
    using deliver_static [OF Cons.prems(1)] by (rule vs_static_subscribed)
  have "gm_get (vs_values (deliver_change os c ! a)) =
    (if own_name a = ch_subscriber c \<and> is_subscribed_to i (os ! a)
     then (gm_get (vs_values (os ! a)))(i \<mapsto> x) else gm_get (vs_values (os ! a)))"
    using Cons.prems by (auto simp: deliver_change_def nth_at_object changed_values own_name_even own_name_odd)
  with Cons.IH [of "deliver_change os c"] Cons.prems sub show ?case by auto
qed

lemma deliver_one_other:
  assumes "ch_subscriber c \<noteq> own_name a"
  shows "deliver_change os c ! a = os ! a"
proof (cases "even (ch_subscriber c)")
  case True
  then have "ch_subscriber c div 2 \<noteq> a" using own_name_even [OF True, of a] assms by simp
  then show ?thesis by (simp add: deliver_change_def at_object_def)
qed (simp add: deliver_change_def)

lemma deliver_other:
  "\<forall>c \<in> set cs. ch_subscriber c \<noteq> own_name a \<Longrightarrow> foldl deliver_change os cs ! a = os ! a"
  by (induction cs arbitrary: os) (simp_all add: deliver_one_other)

lemma mark_notified_same [simp]:
  "vs_static (mark_notified now v) v" "vs_values (mark_notified now v) = vs_values v"
  by (simp_all add: mark_notified_def vs_static_def)

lemma notify_one_same:
  "length (fst (sv_notify_one now ep fid m st e)) = length (fst st) \<and>
   (a < length (fst st) \<longrightarrow> vs_static (fst (sv_notify_one now ep fid m st e) ! a) (fst st ! a) \<and>
      vs_values (fst (sv_notify_one now ep fid m st e) ! a) = vs_values (fst st ! a))"
  by (simp add: sv_notify_one_def Let_def nth_at_object)

lemma notify_all_same:
  "length (fst (foldl (sv_notify_one now ep fid m) st es)) = length (fst st) \<and>
   (a < length (fst st) \<longrightarrow> vs_static (fst (foldl (sv_notify_one now ep fid m) st es) ! a) (fst st ! a) \<and>
      vs_values (fst (foldl (sv_notify_one now ep fid m) st es) ! a) = vs_values (fst st ! a))"
proof (induction es arbitrary: st)
  case Nil
  then show ?case by simp
next
  case (Cons e es)
  from Cons [of "sv_notify_one now ep fid m st e"] notify_one_same [of now ep fid m st e a]
  show ?case by (auto intro: vs_static_trans)
qed

subsection \<open>The invariant\<close>

text \<open>The subscriptions of the server on a feature; each is registered with the feature once, no
  other object of the server is, and the values it has are those of the readable attributes.\<close>

definition live_at :: "(u32, nat) gomap \<Rightarrow> server_sub list \<Rightarrow> u8 \<Rightarrow> u8 \<Rightarrow> nat set" where
  "live_at subs os ep fid =
     {a. \<exists>i. gm_get subs i = Some a \<and> vs_endpoint_id (os ! a) = ep \<and> vs_feature_id (os ! a) = fid}"

definition registered :: "(u32, nat) gomap \<Rightarrow> server_sub list \<Rightarrow> u8 \<Rightarrow> u8 \<Rightarrow> feature \<Rightarrow> bool" where
  "registered subs os ep fid f \<longleftrightarrow>
     (\<forall>a. count_list (ft_subscribers f) (own_name a) = (if a \<in> live_at subs os ep fid then 1 else 0))"

definition values_current :: "(u32, nat) gomap \<Rightarrow> server_sub list \<Rightarrow> u8 \<Rightarrow> u8 \<Rightarrow> feature \<Rightarrow> bool" where
  "values_current subs os ep fid f \<longleftrightarrow>
     (\<forall>a \<in> live_at subs os ep fid. \<forall>i x. i < 0xFFF0 \<longrightarrow> is_subscribed_to i (os ! a) \<longrightarrow>
        gm_get (ft_attributes f) i = Some x \<longrightarrow> can_read (am_access (at_metadata x)) \<longrightarrow>
        gm_get (vs_values (os ! a)) i = Some (at_value x))"

definition sv_ok :: "server \<Rightarrow> bool" where
  "sv_ok s \<longleftrightarrow> gm_wf (sv_subscriptions s) \<and>
     (\<forall>i a. gm_get (sv_subscriptions s) i = Some a \<longrightarrow>
        a < length (sv_objects s) \<and> vs_id (sv_objects s ! a) = i \<and> i < sv_next_sub_id s) \<and>
     (\<forall>ep fid f. device_get_feature ep fid (sv_device s) = Inr f \<longrightarrow>
        gm_wf (ft_attributes f) \<and> registered (sv_subscriptions s) (sv_objects s) ep fid f \<and>
        values_current (sv_subscriptions s) (sv_objects s) ep fid f)"

lemma live_at_static:
  assumes "\<And>i a. gm_get subs i = Some a \<Longrightarrow> vs_static (os' ! a) (os ! a)"
  shows "live_at subs os' ep fid = live_at subs os ep fid"
  using assms unfolding live_at_def vs_static_def by (metis (no_types, lifting))

text \<open>Objects whose identity and values are the same.\<close>

lemma sv_ok_same_objects:
  assumes "sv_ok s" and "length os' = length (sv_objects s)"
    and same: "\<And>a. a < length (sv_objects s) \<Longrightarrow>
      vs_static (os' ! a) (sv_objects s ! a) \<and> vs_values (os' ! a) = vs_values (sv_objects s ! a)"
  shows "sv_ok (s\<lparr>sv_objects := os'\<rparr>)"
proof -
  let ?subs = "sv_subscriptions s" and ?os = "sv_objects s"
  have st: "vs_static (os' ! a) (?os ! a)" "vs_values (os' ! a) = vs_values (?os ! a)"
    if "gm_get ?subs i = Some a" for i a
    using assms(1) that same [of a] by (auto simp: sv_ok_def)
  have live: "live_at ?subs os' ep fid = live_at ?subs ?os ep fid" for ep fid
    by (rule live_at_static) (rule st(1))
  have "is_subscribed_to i (os' ! a) = is_subscribed_to i (?os ! a) \<and>
      vs_values (os' ! a) = vs_values (?os ! a)" if l: "a \<in> live_at ?subs ?os ep fid" for i a ep fid
  proof -
    obtain j where "gm_get ?subs j = Some a" using l by (auto simp: live_at_def)
    then show ?thesis using st vs_static_subscribed by blast
  qed
  then have "values_current ?subs os' ep fid f = values_current ?subs ?os ep fid f" for ep fid f
    unfolding values_current_def live by auto
  moreover have "registered ?subs os' ep fid f = registered ?subs ?os ep fid f" for ep fid f
    by (simp add: registered_def live)
  moreover have "vs_id (os' ! a) = i" if "gm_get ?subs i = Some a" for i a
    using assms(1) st(1) [OF that] that by (auto simp: sv_ok_def vs_static_def)
  ultimately show ?thesis using assms(1,2) by (simp add: sv_ok_def)
qed

subsection \<open>Setting attributes\<close>

text \<open>What both ways to store a value do with a feature.\<close>

definition stores :: "u16 \<Rightarrow> any \<Rightarrow> feature \<Rightarrow> feature \<times> change list \<times> model_error option \<Rightarrow> bool" where
  "stores i v f r \<longleftrightarrow> (case r of (f', cs, err) \<Rightarrow>
     ft_subscribers f' = ft_subscribers f \<and> (gm_wf (ft_attributes f) \<longrightarrow> gm_wf (ft_attributes f')) \<and>
     (if err = None
      then cs = notify_attribute_changed i v f \<and>
        (\<exists>a a'. gm_get (ft_attributes f) i = Some a \<and>
           gm_get (ft_attributes f') = (gm_get (ft_attributes f))(i \<mapsto> a') \<and>
           at_value a' = v \<and> at_metadata a' = at_metadata a)
      else cs = [] \<and> gm_get (ft_attributes f') = gm_get (ft_attributes f)))"

lemma store_attribute_stores:
  assumes "\<And>a. snd (setter v a) = None \<Longrightarrow> at_value (fst (setter v a)) = v"
    and "\<And>a. snd (setter v a) \<noteq> None \<Longrightarrow> fst (setter v a) = a"
    and "\<And>a. at_metadata (fst (setter v a)) = at_metadata a"
  shows "stores i v f (store_attribute setter i v f)"
proof (cases "gm_get (ft_attributes f) i")
  case None
  then show ?thesis by (simp add: stores_def store_attribute_def get_attribute_def)
next
  case (Some a)
  then show ?thesis using assms [of a]
    by (cases "setter v a")
      (auto simp: stores_def store_attribute_def get_attribute_def put_attribute_def gomap_simps
        fun_upd_idem split: option.splits)
qed

lemma write_attribute_stores: "stores i v f (write_attribute i v f)"
  unfolding write_attribute_def
  by (rule store_attribute_stores) (simp_all add: set_value_value rejected_unchanged)

lemma set_attribute_internal_stores: "stores i v f (set_attribute_internal i v f)"
  unfolding set_attribute_internal_def
  by (rule store_attribute_stores) (simp_all add: set_value_internal_value rejected_unchanged)

lemma count_positive: "0 < count_list xs x \<longleftrightarrow> x \<in> set xs"
  by (metis count_list_0_iff gr0I not_gr_zero)

lemma registered_iff:
  "registered subs os ep fid f \<Longrightarrow> own_name a \<in> set (ft_subscribers f) \<longleftrightarrow> a \<in> live_at subs os ep fid"
  by (simp add: registered_def flip: count_positive)

lemma sv_ok_store:
  assumes ok: "sv_ok s" and f: "device_get_feature ep fid (sv_device s) = Inr f"
    and st: "stores i v f (f', cs, err)"
    and look: "\<And>ep' fid'. device_get_feature ep' fid' d =
      (if ep' = ep \<and> fid' = fid then Inr f' else device_get_feature ep' fid' (sv_device s))"
  shows "sv_ok (s\<lparr>sv_device := d, sv_objects := foldl deliver_change (sv_objects s) cs\<rparr>)"
proof -
  let ?subs = "sv_subscriptions s" and ?os = "sv_objects s"
  let ?os' = "foldl deliver_change ?os cs"
  have len: "a < length ?os" if "gm_get ?subs j = Some a" for j a using ok that by (simp add: sv_ok_def)
  have static: "vs_static (?os' ! a) (?os ! a)" if "gm_get ?subs j = Some a" for j a
    by (rule deliver_all_static [OF len [OF that]])
  have live: "live_at ?subs ?os' e x = live_at ?subs ?os e x" for e x
    by (rule live_at_static) (rule static)
  have reg: "registered ?subs ?os ep fid f" and cur: "values_current ?subs ?os ep fid f"
    and wf: "gm_wf (ft_attributes f)" using ok f by (auto simp: sv_ok_def)
  have subs: "ft_subscribers f' = ft_subscribers f" "gm_wf (ft_attributes f')"
    using st wf by (auto simp: stores_def)
  have of_f: "ch_subscriber c \<in> set (ft_subscribers f) \<and> ch_attr_id c = i \<and> ch_value c = v" if "c \<in> set cs" for c
    using st that by (auto simp: stores_def notify_attribute_changed_def split: if_splits)
  have keep: "vs_values (?os' ! a) = vs_values (?os ! a)"
    if "own_name a \<notin> set (ft_subscribers f)" "a < length ?os" for a
  proof -
    have "\<forall>c \<in> set cs. ch_subscriber c \<noteq> own_name a" using of_f that(1) by metis
    then show ?thesis by (simp add: deliver_other)
  qed
  have new: "gm_get (vs_values (?os' ! a)) =
      (if own_name a \<in> ch_subscriber ` set cs \<and> is_subscribed_to i (?os ! a)
       then (gm_get (vs_values (?os ! a)))(i \<mapsto> v) else gm_get (vs_values (?os ! a)))"
    if "a < length ?os" for a
    by (rule deliver_all_values [OF that]) (use of_f in blast)
  have cur': "values_current ?subs ?os' ep fid f'"
    unfolding values_current_def live
  proof (intro ballI allI impI)
    fix a j x
    assume a: "a \<in> live_at ?subs ?os ep fid" and j: "j < 0xFFF0" "is_subscribed_to j (?os' ! a)"
      and x: "gm_get (ft_attributes f') j = Some x" "can_read (am_access (at_metadata x))"
    obtain k where k: "gm_get ?subs k = Some a" using a by (auto simp: live_at_def)
    have sub: "is_subscribed_to j (?os ! a)" using j(2) vs_static_subscribed [OF static [OF k]] by simp
    have old: "gm_get (vs_values (?os ! a)) j = Some (at_value y)"
      if "gm_get (ft_attributes f) j = Some y" "can_read (am_access (at_metadata y))" for y
      using cur a j(1) sub that by (auto simp: values_current_def)
    show "gm_get (vs_values (?os' ! a)) j = Some (at_value x)"
    proof (cases "err = None")
      case False
      then have "cs = []" "gm_get (ft_attributes f') = gm_get (ft_attributes f)"
        using st by (auto simp: stores_def)
      then show ?thesis using old x by simp
    next
      case True
      then obtain b b' where b: "gm_get (ft_attributes f) i = Some b" "at_metadata b' = at_metadata b"
        "gm_get (ft_attributes f') = (gm_get (ft_attributes f))(i \<mapsto> b')" "at_value b' = v"
        and cs: "cs = notify_attribute_changed i v f" using st by (auto simp: stores_def)
      have "own_name a \<in> set (ft_subscribers f)" using registered_iff [OF reg] a by simp
      then have "own_name a \<in> ch_subscriber ` set cs"
        by (simp add: cs notify_attribute_changed_def image_image)
      then show ?thesis using new [OF len [OF k]] b x old sub by (auto split: if_splits)
    qed
  qed
  have other: "values_current ?subs ?os' e x g"
    if g: "device_get_feature e x (sv_device s) = Inr g" and ne: "\<not> (e = ep \<and> x = fid)" for e x g
  proof -
    have "vs_values (?os' ! a) = vs_values (?os ! a)" if "a \<in> live_at ?subs ?os e x" for a
    proof (rule keep)
      have "a \<notin> live_at ?subs ?os ep fid" using that ne by (auto simp: live_at_def)
      then show "own_name a \<notin> set (ft_subscribers f)" using registered_iff [OF reg] by simp
      show "a < length ?os" using that len by (auto simp: live_at_def)
    qed
    moreover have "is_subscribed_to j (?os' ! a) = is_subscribed_to j (?os ! a)"
      if "a \<in> live_at ?subs ?os e x" for a j
      using that by (auto simp: live_at_def dest!: static vs_static_subscribed)
    moreover have "values_current ?subs ?os e x g" using ok g by (simp add: sv_ok_def)
    ultimately show ?thesis by (auto simp: values_current_def live)
  qed
  have "registered ?subs ?os' e x g" if "registered ?subs ?os e x g" for e x g
    using that by (simp add: registered_def live)
  moreover have "registered ?subs ?os' ep fid f'"
    using reg by (simp add: registered_def live subs(1))
  moreover have "vs_id (?os' ! a) = j" if "gm_get ?subs j = Some a" for j a
    using ok static [OF that] that by (auto simp: sv_ok_def vs_static_def)
  ultimately show ?thesis using ok cur' other subs(2) by (auto simp: sv_ok_def look split: if_splits)
qed

subsection \<open>The operations keep the invariant\<close>

lemma sv_write_one_simps:
  "sw_feature (sv_write_one w e) = fst (write_attribute (fst e) (snd e) (sw_feature w))"
  "sw_changes (sv_write_one w e) =
     sw_changes w @ fst (snd (write_attribute (fst e) (snd e) (sw_feature w)))"
  by (simp_all add: sv_write_one_def split: prod.splits option.splits)

lemma sv_ok_writes:
  assumes "sv_ok s" and f: "device_get_feature ep fid (sv_device s) = Inr f"
  shows "sv_ok (s\<lparr>sv_device := put_feature ep fid (sw_feature (sv_write_all m f)) (sv_device s),
    sv_objects := foldl deliver_change (sv_objects s) (sw_changes (sv_write_all m f))\<rparr>)"
proof (induction m rule: rev_induct)
  case Nil
  have "sv_ok (s\<lparr>sv_device := put_feature ep fid f (sv_device s),
     sv_objects := foldl deliver_change (sv_objects s) []\<rparr>)"
    by (rule sv_ok_store [OF assms, of 0 ANil f "[]" "Some ErrAttributeNotFound"])
      (auto simp: stores_def device_get_put_feature [OF f])
  then show ?case by (simp add: sv_write_all_def)
next
  case (snoc e m)
  let ?w = "sv_write_all m f"
  let ?s = "s\<lparr>sv_device := put_feature ep fid (sw_feature ?w) (sv_device s),
    sv_objects := foldl deliver_change (sv_objects s) (sw_changes ?w)\<rparr>"
  obtain f' cs err where r: "write_attribute (fst e) (snd e) (sw_feature ?w) = (f', cs, err)"
    by (cases "write_attribute (fst e) (snd e) (sw_feature ?w)")
  have w': "sv_write_all (m @ [e]) f = sv_write_one ?w e" by (simp add: sv_write_all_def)
  have "sv_ok (?s\<lparr>sv_device := put_feature ep fid f' (sv_device s),
     sv_objects := foldl deliver_change (sv_objects ?s) cs\<rparr>)"
  proof (rule sv_ok_store [OF snoc])
    show "device_get_feature ep fid (sv_device ?s) = Inr (sw_feature ?w)"
      by (simp add: device_get_put_feature [OF f])
    show "stores (fst e) (snd e) (sw_feature ?w) (f', cs, err)"
      using write_attribute_stores [of "fst e" "snd e" "sw_feature ?w"] by (simp add: r)
  qed (simp add: device_get_put_feature [OF f])
  then show ?case unfolding w' by (simp add: sv_write_one_simps r)
qed

lemma sv_ok_notify: "sv_ok s \<Longrightarrow> sv_ok (fst (sv_notify_changes now ep fid m s))"
  using notify_all_same [of now ep fid m "(sv_objects s, [])" "sv_subscriptions s"]
  by (auto simp: sv_notify_changes_def split: prod.splits intro!: sv_ok_same_objects)

lemma sv_ok_notified:
  "sv_notify_changes now ep fid m s = (s', out) \<Longrightarrow> sv_ok s \<Longrightarrow> sv_ok s'"
  using sv_ok_notify [of s now ep fid m] by simp

lemma sv_ok_write: "sv_ok s \<Longrightarrow> sv_ok (fst (sv_handle_write fmt now rq s))"
  by (auto simp: sv_handle_write_def Let_def sv_ok_writes
      split: sum.splits option.splits list.splits prod.splits
      intro: sv_ok_notified [OF _ sv_ok_writes])

lemma sv_ok_device_sets: "sv_ok s \<Longrightarrow> sv_ok (fst (sv_device_sets ep fid i v s))"
proof (cases "device_get_feature ep fid (sv_device s)")
  case (Inr f)
  assume ok: "sv_ok s"
  obtain f' cs err where r: "set_attribute_internal i v f = (f', cs, err)"
    by (cases "set_attribute_internal i v f")
  have "stores i v f (f', cs, err)" using set_attribute_internal_stores [of i v f] by (simp add: r)
  from sv_ok_store [OF ok Inr this, of "put_feature ep fid f' (sv_device s)"]
  show ?thesis by (simp add: sv_device_sets_def Inr r device_get_put_feature)
qed (simp add: sv_device_sets_def)

lemma sv_values_get:
  assumes "gm_wf (ft_attributes f)" and "i < 0xFFF0" and "ids = [] \<or> i \<in> set ids"
    and "gm_get (ft_attributes f) i = Some x" and "can_read (am_access (at_metadata x))"
  shows "gm_get (sv_values ids f) i = Some (at_value x)"
proof (cases "ids = []")
  case True
  have "i \<noteq> AttrIDAttributeList" "i \<noteq> AttrIDCommandList" using assms(2) by (auto simp: attr_id_defs)
  then show ?thesis
    using fold_put_if_get [OF assms(1), of "\<lambda>i a. can_read (am_access (at_metadata a))"
        "\<lambda>i a. if i = AttrIDAttributeList then AU16s (attribute_list f)
           else if i = AttrIDCommandList then ABytes (command_list f) else at_value a" "[]" i]
    by (simp add: True sv_values_def read_all_attributes_def assms(4,5))
next
  case False
  have read: "read_attribute i f = Inr (at_value x)"
    using assms by (auto simp: read_attribute_def get_attribute_def attr_id_defs)
  have "gm_get (foldl (\<lambda>acc i. case read_attribute i f of Inl _ \<Rightarrow> acc | Inr v \<Rightarrow> gm_put i v acc) acc is) i =
      (if i \<in> set is then Some (at_value x) else gm_get acc i)" for acc "is"
    by (induction "is" arbitrary: acc) (auto simp: read gomap_simps split: sum.splits)
  with False assms(3) show ?thesis by (simp add: sv_values_def)
qed

lemma count_remove1:
  "count_list (remove1 x xs) y = count_list xs y - (if x = y then 1 else 0)"
  by (induction xs) auto

lemma live_at_del:
  assumes "sv_ok s" and "gm_get (sv_subscriptions s) i = Some a"
  shows "live_at (gm_del i (sv_subscriptions s)) (sv_objects s) ep fid =
    live_at (sv_subscriptions s) (sv_objects s) ep fid - {a}"
proof -
  have ids: "vs_id (sv_objects s ! b) = j" if "gm_get (sv_subscriptions s) j = Some b" for j b
    using assms(1) that unfolding sv_ok_def by blast
  have other: "b \<noteq> a" if "gm_get (sv_subscriptions s) j = Some b" "j \<noteq> i" for j b
    using ids [OF that(1)] ids [OF assms(2)] that(2) by metis
  have get: "gm_get (gm_del i (sv_subscriptions s)) j = Some b \<longleftrightarrow>
      j \<noteq> i \<and> gm_get (sv_subscriptions s) j = Some b" for j b
    by (simp add: gomap_simps)
  have "b \<noteq> a \<and> gm_get (sv_subscriptions s) j = Some b \<longleftrightarrow>
      j \<noteq> i \<and> gm_get (sv_subscriptions s) j = Some b" for j b
    using other [of j b] assms(2) by (cases "j = i") auto
  then show ?thesis unfolding live_at_def get by blast
qed

lemma sv_ok_drop:
  assumes ok: "sv_ok s" and a: "gm_get (sv_subscriptions s) i = Some a"
    and s': "sv_device s' = drop_subscriber a (sv_objects s) (sv_device s)"
      "sv_subscriptions s' = gm_del i (sv_subscriptions s)" "sv_objects s' = sv_objects s"
      "sv_next_sub_id s' = sv_next_sub_id s"
  shows "sv_ok s'"
proof -
  let ?subs = "sv_subscriptions s" and ?os = "sv_objects s"
  let ?d = "drop_subscriber a ?os (sv_device s)" and ?v = "?os ! a"
  have "gm_wf (ft_attributes f') \<and> registered (gm_del i ?subs) ?os ep fid f' \<and>
      values_current (gm_del i ?subs) ?os ep fid f'"
    if f': "device_get_feature ep fid ?d = Inr f'" for ep fid f'
  proof -
    obtain f where f: "device_get_feature ep fid (sv_device s) = Inr f"
      and same: "ft_attributes f' = ft_attributes f"
        "ft_subscribers f' = (if vs_endpoint_id ?v = ep \<and> vs_feature_id ?v = fid
           then remove1 (own_name a) (ft_subscribers f) else ft_subscribers f)"
    proof (cases "device_get_feature (vs_endpoint_id ?v) (vs_feature_id ?v) (sv_device s)")
      case (Inl err)
      then have d: "?d = sv_device s" by (simp add: drop_subscriber_def)
      show ?thesis by (rule that [of f']) (use f' Inl d in auto)
    next
      case (Inr g)
      then have "device_get_feature ep fid ?d =
          (if ep = vs_endpoint_id ?v \<and> fid = vs_feature_id ?v
           then Inr (feature_unsubscribe (own_name a) g) else device_get_feature ep fid (sv_device s))"
        by (simp add: drop_subscriber_def Let_def device_get_put_feature)
      with f' Inr that show ?thesis by (auto simp: feature_unsubscribe_def split: if_splits)
    qed
    have "a \<in> live_at ?subs ?os ep fid \<longleftrightarrow> vs_endpoint_id ?v = ep \<and> vs_feature_id ?v = fid"
      using a by (auto simp: live_at_def)
    then show ?thesis using ok f same
      by (auto simp: sv_ok_def registered_def values_current_def live_at_del [OF ok a] count_remove1)
  qed
  with ok show ?thesis by (auto simp: sv_ok_def gomap_simps s')
qed

lemma sv_ok_unsubscribe: "sv_ok s \<Longrightarrow> sv_ok (fst (sv_handle_unsubscribe rq s))"
  using sv_ok_drop by (auto simp: sv_handle_unsubscribe_def split: option.splits)

lemma sv_ok_subscribe:
  assumes ok: "sv_ok s" and "sv_next_sub_id s < sv_next_sub_id s + 1"
  shows "sv_ok (fst (sv_handle_subscribe now rq s))"
proof (cases "rq_endpoint_id rq = 0 \<and> rq_feature_id rq = 0")
  case True
  then show ?thesis by (simp add: sv_handle_subscribe_def sv_ok_unsubscribe [OF ok])
next
  case False
  let ?ep = "rq_endpoint_id rq" and ?fid = "rq_feature_id rq"
  let ?subs = "sv_subscriptions s" and ?os = "sv_objects s" and ?i = "sv_next_sub_id s"
  obtain ids mn mx where p: "sv_subscribe_payload (rq_payload rq) = (ids, mn, mx)"
    by (cases "sv_subscribe_payload (rq_payload rq)")
  show ?thesis
  proof (cases "device_get_feature ?ep ?fid (sv_device s)")
    case (Inl err)
    with False ok show ?thesis unfolding sv_handle_subscribe_def if_not_P [OF False] by simp
  next
    case (Inr f)
    define v where "v = \<lparr>vs_id = ?i, vs_endpoint_id = ?ep, vs_feature_id = ?fid,
      vs_attribute_ids = ids, vs_min_interval = server_milliseconds mn, vs_max_interval = server_milliseconds mx,
      vs_last_notify = now, vs_values = sv_values ids f, vs_pending = None\<rparr>"
    let ?s' = "s\<lparr>sv_next_sub_id := ?i + 1, sv_objects := ?os @ [v],
      sv_subscriptions := gm_put ?i (length ?os) ?subs,
      sv_device := put_feature ?ep ?fid (feature_subscribe (own_name (length ?os)) f) (sv_device s)\<rparr>"
    have res: "fst (sv_handle_subscribe now rq s) = ?s'"
      unfolding sv_handle_subscribe_def if_not_P [OF False] by (simp add: Inr p v_def Let_def)
    have old: "a < length ?os \<and> j < ?i" if "gm_get ?subs j = Some a" for j a
      using ok that by (auto simp: sv_ok_def)
    have live: "live_at (gm_put ?i (length ?os) ?subs) (?os @ [v]) ep fid =
        (if ep = ?ep \<and> fid = ?fid then insert (length ?os) (live_at ?subs ?os ep fid)
         else live_at ?subs ?os ep fid)" for ep fid
    proof -
      have get: "gm_get (gm_put ?i (length ?os) ?subs) j = Some b \<longleftrightarrow>
          j = ?i \<and> b = length ?os \<or> gm_get ?subs j = Some b" for j b
        using old [of j b] by (cases "j = ?i") (auto simp: gomap_simps)
      have "(?os @ [v]) ! b = ?os ! b" if "gm_get ?subs j = Some b" for j b
        using old [OF that] by (simp add: nth_append)
      then have "b \<in> live_at (gm_put ?i (length ?os) ?subs) (?os @ [v]) ep fid \<longleftrightarrow>
          b = length ?os \<and> ?ep = ep \<and> ?fid = fid \<or> b \<in> live_at ?subs ?os ep fid" for b
        unfolding live_at_def get by (auto simp: v_def)
      then show ?thesis by auto
    qed
    have fresh: "length ?os \<notin> live_at ?subs ?os ep fid" for ep fid
      using old by (auto simp: live_at_def)
    have bound: "a < length ?os" if "a \<in> live_at ?subs ?os ep fid" for a ep fid
      using that old by (auto simp: live_at_def)
    have "gm_wf (ft_attributes g) \<and> registered (gm_put ?i (length ?os) ?subs) (?os @ [v]) ep fid g \<and>
        values_current (gm_put ?i (length ?os) ?subs) (?os @ [v]) ep fid g"
      if g: "device_get_feature ep fid (sv_device ?s') = Inr g" for ep fid g
    proof -
      obtain h where h: "device_get_feature ep fid (sv_device s) = Inr h"
        and same: "ft_attributes g = ft_attributes h"
          "ft_subscribers g = (if ep = ?ep \<and> fid = ?fid
             then ft_subscribers h @ [own_name (length ?os)] else ft_subscribers h)"
        and new: "ep = ?ep \<and> fid = ?fid \<Longrightarrow> h = f"
        using g Inr by (auto simp: device_get_put_feature feature_subscribe_def split: if_splits)
      have wf: "gm_wf (ft_attributes h)" and reg: "registered ?subs ?os ep fid h"
        and cur: "values_current ?subs ?os ep fid h" using ok h by (auto simp: sv_ok_def)
      have "registered (gm_put ?i (length ?os) ?subs) (?os @ [v]) ep fid g"
        using reg fresh by (auto simp: registered_def live same count_list_append)
      moreover have "values_current (gm_put ?i (length ?os) ?subs) (?os @ [v]) ep fid g"
        unfolding values_current_def live same
      proof (intro ballI allI impI)
        fix a j x
        assume a: "a \<in> (if ep = ?ep \<and> fid = ?fid then insert (length ?os) (live_at ?subs ?os ep fid)
            else live_at ?subs ?os ep fid)"
          and j: "j < 0xFFF0" "is_subscribed_to j ((?os @ [v]) ! a)"
            "gm_get (ft_attributes h) j = Some x" "can_read (am_access (at_metadata x))"
        show "gm_get (vs_values ((?os @ [v]) ! a)) j = Some (at_value x)"
        proof (cases "a = length ?os")
          case True
          then have "ep = ?ep \<and> fid = ?fid" using a bound by (auto split: if_splits)
          with new j True show ?thesis
            using sv_values_get [OF wf j(1), of ids x] by (simp add: v_def is_subscribed_to_def)
        next
          case False
          then have "a \<in> live_at ?subs ?os ep fid" using a by (auto split: if_splits)
          with cur j bound [OF this] show ?thesis by (auto simp: values_current_def nth_append)
        qed
      qed
      ultimately show ?thesis using wf same by simp
    qed
    moreover have "a < length (?os @ [v]) \<and> vs_id ((?os @ [v]) ! a) = j \<and> j < ?i + 1"
      if "gm_get (gm_put ?i (length ?os) ?subs) j = Some a" for j a
      using that old [of j a] ok less_trans [OF _ assms(2), of j]
      by (auto simp: sv_ok_def gomap_simps nth_append v_def split: if_splits intro: assms(2))
    ultimately show ?thesis using ok unfolding res by (simp add: sv_ok_def)
  qed
qed

lemma sv_cancel_ok:
  assumes "sv_ok s" and "distinct (map fst es)"
    and "\<forall>e \<in> set es. gm_get (sv_subscriptions s) (fst e) = Some (snd e)"
  shows "sv_ok (foldl sv_cancel_one s es) \<and>
    sv_next_sub_id (foldl sv_cancel_one s es) = sv_next_sub_id s \<and>
    gm_get (sv_subscriptions (foldl sv_cancel_one s es)) i =
      (if i \<in> fst ` set es then None else gm_get (sv_subscriptions s) i)"
  using assms
proof (induction es arbitrary: s)
  case Nil
  then show ?case by simp
next
  case (Cons e es)
  let ?s = "sv_cancel_one s e"
  have "sv_ok ?s"
    by (rule sv_ok_drop [of s "fst e" "snd e"]) (use Cons.prems in \<open>simp_all add: sv_cancel_one_def\<close>)
  moreover have get: "gm_get (sv_subscriptions ?s) j =
      (if j = fst e then None else gm_get (sv_subscriptions s) j)" for j
    by (simp add: sv_cancel_one_def gomap_simps)
  moreover have "\<forall>x \<in> set es. gm_get (sv_subscriptions ?s) (fst x) = Some (snd x)"
    using Cons.prems(2,3) by (auto simp: get image_iff)
  moreover have "sv_next_sub_id ?s = sv_next_sub_id s" by (simp add: sv_cancel_one_def)
  ultimately show ?case using Cons.IH [of ?s] Cons.prems(2) by auto
qed

lemma sv_cancel_all_ok:
  assumes "sv_ok s"
  shows "sv_ok (sv_cancel_all s) \<and> sv_next_sub_id (sv_cancel_all s) = sv_next_sub_id s \<and>
    sv_subscriptions (sv_cancel_all s) = []"
proof -
  let ?m = "sv_subscriptions s"
  have wf: "gm_wf ?m" using assms by (simp add: sv_ok_def)
  then have c: "sv_ok (sv_cancel_all s) \<and> sv_next_sub_id (sv_cancel_all s) = sv_next_sub_id s \<and>
      gm_get (sv_subscriptions (sv_cancel_all s)) i = (if i \<in> fst ` set ?m then None else gm_get ?m i)" for i
    unfolding sv_cancel_all_def
    by (intro sv_cancel_ok [OF assms]) (auto simp: gm_wf_def)
  then have "gm_get (sv_subscriptions (sv_cancel_all s)) i = None" for i
    by (auto simp: map_of_eq_None_iff)
  then have "gm_get (sv_subscriptions (sv_cancel_all s)) = Map.empty" by (rule ext)
  then show ?thesis using c by simp
qed

text \<open>The handlers of commands change the device by setting attributes. What they do besides is not
  part of the server.\<close>

definition apply_sets :: "server \<Rightarrow> (u8 \<times> u8 \<times> u16 \<times> any) list \<Rightarrow> server" where
  "apply_sets s sets = foldl (\<lambda>s (ep, fid, i, v). fst (sv_device_sets ep fid i v s)) s sets"

definition commands_set_attributes :: "server_env \<Rightarrow> bool" where
  "commands_set_attributes en \<longleftrightarrow>
     (\<forall>h ctx ps s. \<exists>sets. fst (se_commands en h ctx ps s) = apply_sets s sets)"

lemma device_sets_frame:
  "sv_next_sub_id (fst (sv_device_sets ep fid i v s)) = sv_next_sub_id s"
  "sv_subscriptions (fst (sv_device_sets ep fid i v s)) = sv_subscriptions s"
  by (simp_all add: sv_device_sets_def split: sum.splits prod.splits)

lemma apply_sets_ok:
  "(sv_ok s \<longrightarrow> sv_ok (apply_sets s sets)) \<and> sv_next_sub_id (apply_sets s sets) = sv_next_sub_id s"
  by (induction sets arbitrary: s)
    (auto simp: apply_sets_def sv_ok_device_sets device_sets_frame)

lemma command_invoke_sets:
  assumes "commands_set_attributes en"
  shows "\<exists>sets. fst (invoke_command (se_commands en) ctx c ps f s) = apply_sets s sets"
proof -
  have none: "\<exists>sets. s = apply_sets s sets" by (rule exI [of _ "[]"]) (simp add: apply_sets_def)
  show ?thesis using assms none
    by (auto simp: invoke_command_def command_invoke_def commands_set_attributes_def
        split: sum.splits option.splits)
qed

lemma sv_invoke_ok:
  assumes "commands_set_attributes en"
  shows "(sv_ok s \<longrightarrow> sv_ok (fst (sv_handle_invoke (se_commands en) ctx rq s))) \<and>
    sv_next_sub_id (fst (sv_handle_invoke (se_commands en) ctx rq s)) = sv_next_sub_id s"
proof -
  have "(sv_ok s \<longrightarrow> sv_ok s') \<and> sv_next_sub_id s' = sv_next_sub_id s"
    if "invoke_command (se_commands en) ctx c ps f s = (s', r)" for c ps f s' r
    using command_invoke_sets [OF assms, of ctx c ps f s] apply_sets_ok that by auto
  then show ?thesis
    by (auto simp: sv_handle_invoke_def split: sum.splits option.splits prod.splits)
qed

lemma write_next_id: "sv_next_sub_id (fst (sv_handle_write fmt now rq s)) = sv_next_sub_id s"
proof -
  have "sv_notify_changes now ep fid m t = (t', out) \<Longrightarrow> sv_next_sub_id t' = sv_next_sub_id t"
    for ep fid m t t' out
    by (auto simp: sv_notify_changes_def split: prod.splits if_splits)
  then show ?thesis
    by (fastforce simp: sv_handle_write_def Let_def
        split: sum.splits option.splits list.splits prod.splits)
qed

lemma subscribe_next_id:
  "sv_next_sub_id (fst (sv_handle_subscribe now rq s)) = sv_next_sub_id s \<or>
   sv_next_sub_id (fst (sv_handle_subscribe now rq s)) = sv_next_sub_id s + 1"
  by (auto simp: sv_handle_subscribe_def sv_handle_unsubscribe_def Let_def
      split: sum.splits option.splits prod.splits)

definition sv_within :: "nat \<Rightarrow> server \<Rightarrow> bool" where
  "sv_within n s \<longleftrightarrow> sv_ok s \<and> unat (sv_next_sub_id s) \<le> Suc n"

lemma sv_within_step:
  assumes en: "commands_set_attributes en" and s: "sv_within n s" and n: "n < 2 ^ 32 - 2"
  shows "sv_within (Suc n) (server_step en s p)"
proof -
  have ok: "sv_ok s" and le: "unat (sv_next_sub_id s) \<le> Suc n" using s by (simp_all add: sv_within_def)
  have suc: "unat (sv_next_sub_id s + 1) = Suc (unat (sv_next_sub_id s))"
    using le n by (simp add: unat_word_ariths(1))
  then have less: "sv_next_sub_id s < sv_next_sub_id s + 1" by (simp add: word_less_nat_alt)
  show ?thesis
  proof (cases p)
    case (SvRequest ctx now rq)
    have "sv_ok (fst (sv_handle_request en ctx now rq s)) \<and>
        unat (sv_next_sub_id (fst (sv_handle_request en ctx now rq s))) \<le> Suc (Suc n)"
      using sv_ok_write [OF ok] write_next_id sv_ok_subscribe [OF ok less, of now rq]
        subscribe_next_id [of now rq s] sv_invoke_ok [OF en, of s ctx rq] ok le suc
      by (auto simp: sv_handle_request_def split: prod.splits)
    then show ?thesis
      by (simp add: SvRequest sv_within_def server_step_def split: prod.splits)
        (metis fst_conv)
  next
    case (SvDeviceSets ep fid i v)
    then show ?thesis using ok le
      by (simp add: sv_within_def server_step_def sv_ok_device_sets device_sets_frame)
  next
    case SvCancelAll
    then show ?thesis using sv_cancel_all_ok [OF ok] le by (simp add: sv_within_def server_step_def)
  next
    case (SvSetHandler b)
    then show ?thesis using ok le
      by (simp add: sv_within_def server_step_def sv_set_notification_handler_def sv_ok_def)
  qed
qed

text \<open>A server with the commands of the claim, as a machine that allocates ids.\<close>

definition guarded_step :: "server_env \<times> server \<Rightarrow> server_op \<Rightarrow> server_env \<times> server" where
  "guarded_step es p = (fst es, server_step (fst es) (snd es) p)"

interpretation server_machine: supply_machine guarded_step
  "\<lambda>n es. commands_set_attributes (fst es) \<and> sv_within n (snd es)" "2 ^ 32 - 2"
  by unfold_locales (simp add: guarded_step_def sv_within_step)

lemma guarded_run: "foldl guarded_step (en, s) ops = (en, foldl (server_step en) s ops)"
  by (induction ops arbitrary: s) (simp_all add: guarded_step_def)

text \<open>A device on which nobody has subscribed yet.\<close>

definition quiet_device :: "device \<Rightarrow> bool" where
  "quiet_device d \<longleftrightarrow>
     (\<forall>ep fid f. device_get_feature ep fid d = Inr f \<longrightarrow>
        gm_wf (ft_attributes f) \<and> ft_subscribers f = [])"

lemma sv_within_new: "quiet_device d \<Longrightarrow> sv_within 0 (new_server d)"
  by (simp add: sv_within_def sv_ok_def new_server_def quiet_device_def registered_def
      values_current_def live_at_def)

lemma server_run:
  assumes "quiet_device d" and "commands_set_attributes en" and "length ops \<le> 2 ^ 32 - 2"
  shows "sv_ok (foldl (server_step en) (new_server d) ops)"
  using server_machine.run_within [where n = 0 and s = "(en, new_server d)" and es = ops] assms sv_within_new [OF assms(1)]
  by (simp add: guarded_run sv_within_def)

section \<open>Properties\<close>


text \<open>After \<open>CancelAllSubscriptions\<close> no feature of the device calls a subscription of the server any
  more, and the server has none.\<close>

theorem cancel_leaves_no_subscriber:
  assumes "quiet_device d" and "commands_set_attributes en" and "length ops \<le> 2 ^ 32 - 2"
    and "s = sv_cancel_all (foldl (server_step en) (new_server d) ops)"
    and "device_get_feature ep fid (sv_device s) = Inr f"
  shows "own_name a \<notin> set (ft_subscribers f) \<and> sv_subscription_count s = 0"
proof -
  have ok: "sv_ok s" "sv_subscriptions s = []"
    using sv_cancel_all_ok [OF server_run [OF assms(1-3)]] by (simp_all add: assms(4))
  then have "registered [] (sv_objects s) ep fid f" using assms(5) by (auto simp: sv_ok_def)
  then show ?thesis using ok(2) by (simp add: registered_iff live_at_def sv_subscription_count_def)
qed

subsection \<open>What is notified\<close>

fun server_outputs :: "server_env \<Rightarrow> server \<Rightarrow> server_op list \<Rightarrow> server_output list" where
  "server_outputs en s [] = []"
| "server_outputs en s (p # ps) =
     (case server_step_out en s p of (s', out) \<Rightarrow> out @ server_outputs en s' ps)"

text \<open>A request that writes an attribute.\<close>

fun writes_attribute :: "u8 \<Rightarrow> u8 \<Rightarrow> u16 \<Rightarrow> server_op \<Rightarrow> bool" where
  "writes_attribute ep fid attr (SvRequest ctx now rq) =
     (rq_operation rq = OpWrite \<and> rq_endpoint_id rq = ep \<and> rq_feature_id rq = fid \<and>
      (case sv_write_payload (rq_payload rq) of None \<Rightarrow> False | Some m \<Rightarrow> attr \<in> fst ` set m))"
| "writes_attribute ep fid attr _ = False"

definition notified :: "server_output list \<Rightarrow> u8 \<Rightarrow> u8 \<Rightarrow> u16 \<Rightarrow> bool" where
  "notified out ep fid attr \<longleftrightarrow>
     (\<exists>n. SvNotify n \<in> set out \<and> nt_endpoint_id n = ep \<and> nt_feature_id n = fid \<and>
        attr \<in> fst ` set (nt_changes n))"

lemma notified_append [simp]:
  "notified (xs @ ys) ep fid attr \<longleftrightarrow> notified xs ep fid attr \<or> notified ys ep fid attr"
  "\<not> notified [] ep fid attr" "\<not> notified (foreign_calls cs) ep fid attr"
  by (auto simp: notified_def foreign_calls_def)

lemma notify_all_keys:
  "notified (snd (foldl (sv_notify_one now ep' fid' m) st es)) ep fid attr \<Longrightarrow>
   notified (snd st) ep fid attr \<or> ep = ep' \<and> fid = fid' \<and> attr \<in> fst ` set m"
proof (induction es arbitrary: st)
  case (Cons e es)
  have "notified (snd (sv_notify_one now ep' fid' m st e)) ep fid attr \<Longrightarrow>
      notified (snd st) ep fid attr \<or> ep = ep' \<and> fid = fid' \<and> attr \<in> fst ` set m"
    by (auto simp: sv_notify_one_def Let_def notified_def sub_changes_def split: if_splits)
  with Cons.IH [of "sv_notify_one now ep' fid' m st e"] Cons.prems show ?case by auto
qed simp

lemma notify_changes_keys:
  "sv_notify_changes now ep' fid' m s = (s', out) \<Longrightarrow> notified out ep fid attr \<Longrightarrow>
   ep = ep' \<and> fid = fid' \<and> attr \<in> fst ` set m"
  using notify_all_keys [of now ep' fid' m "(sv_objects s, [])" "sv_subscriptions s" ep fid attr]
  by (auto simp: sv_notify_changes_def split: if_splits prod.splits)

lemma results_keys: "fst ` set (sw_results (sv_write_all m f)) \<subseteq> fst ` set m"
proof (induction m rule: rev_induct)
  case Nil
  then show ?case by (simp add: sv_write_all_def)
next
  case (snoc e m)
  have "sv_write_all (m @ [e]) f = sv_write_one (sv_write_all m f) e" by (simp add: sv_write_all_def)
  moreover have "fst ` set (sw_results (sv_write_one w e)) \<subseteq> insert (fst e) (fst ` set (sw_results w))" for w
    using gm_set_put_subset by (fastforce simp: sv_write_one_def split: prod.splits option.splits)
  ultimately show ?case using snoc by auto
qed

lemma step_notified:
  assumes "notified (snd (server_step_out en s p)) ep fid attr"
  shows "writes_attribute ep fid attr p"
proof (cases p)
  case (SvRequest ctx now rq)
  have "rq_operation rq = OpWrite"
    using assms by (auto simp: SvRequest sv_handle_request_def split: if_splits prod.splits)
  moreover from this have "notified (fst (snd (sv_handle_write (se_format en) now rq s))) ep fid attr"
    using assms by (auto simp: SvRequest sv_handle_request_def op_defs split: prod.splits)
  then obtain f m s1 s2 out where f: "device_get_feature (rq_endpoint_id rq) (rq_feature_id rq) (sv_device s) = Inr f"
    and m: "sv_write_payload (rq_payload rq) = Some m"
    and n: "sv_notify_changes now (rq_endpoint_id rq) (rq_feature_id rq)
        (sw_results (sv_write_all m f)) s1 = (s2, out)" "notified out ep fid attr"
    by (auto simp: sv_handle_write_def Let_def split: sum.splits option.splits list.splits prod.splits)
  ultimately show ?thesis
    using notify_changes_keys [OF n] results_keys [of m f] by (auto simp: SvRequest)
next
  case (SvDeviceSets e x i v)
  have "\<not> notified (snd (sv_device_sets e x i v s)) ep fid attr"
    by (simp add: sv_device_sets_def split: sum.splits prod.splits)
  with assms show ?thesis by (simp add: SvDeviceSets)
qed (use assms in simp_all)

lemma outputs_notified:
  "notified (server_outputs en s ops) ep fid attr \<Longrightarrow> \<exists>p \<in> set ops. writes_attribute ep fid attr p"
proof (induction ops arbitrary: s)
  case (Cons p ps)
  then show ?case using step_notified [of en s p ep fid attr] by (auto split: prod.splits)
qed simp

text \<open>A notification reports nothing but what the request that causes it writes. What the device
  itself sets, and a change that came too early after the last notification, is recorded as pending
  and never sent: an attribute that no request writes from some time on is in no notification from
  then on.\<close>

theorem only_written_attributes_notified:
  assumes "notified (server_outputs en s ops) ep fid attr"
  shows "\<exists>p \<in> set ops. writes_attribute ep fid attr p"
  by (rule outputs_notified [OF assms])

text \<open>Whether a subscription may be notified is not changed by the delivery of changes or by the
  notification of others.\<close>

definition throttled :: "time \<Rightarrow> server_sub \<Rightarrow> bool" where
  "throttled now v \<longleftrightarrow> \<not> can_notify now v"

lemma throttled_deliver:
  "throttled now (foldl deliver_change os cs ! a) = throttled now (os ! a)"
proof (induction cs arbitrary: os)
  case (Cons c cs)
  have "throttled now (deliver_change os c ! a) = throttled now (os ! a)"
    by (auto simp: deliver_change_def at_object_def on_attribute_changed_def vs_record_change_def
        throttled_def can_notify_def nth_list_update)
  with Cons show ?case by simp
qed simp

lemma notify_all_throttled:
  assumes "throttled now (fst st ! a)" and "\<forall>e \<in> set es. vs_id (fst st ! snd e) = fst e"
    and "\<forall>e \<in> set es. fst e = i \<longrightarrow> snd e = a" and "SvNotify n \<in> set (snd (foldl (sv_notify_one now ep fid m) st es))"
    and "nt_subscription_id n = i"
  shows "SvNotify n \<in> set (snd st)"
  using assms(1-4)
proof (induction es arbitrary: st)
  case Nil
  then show ?case by simp
next
  case (Cons e es)
  let ?st = "sv_notify_one now ep fid m st e"
  have ids: "vs_id (fst ?st ! b) = vs_id (fst st ! b)" for b
    by (simp add: sv_notify_one_def Let_def at_object_def nth_list_update mark_notified_def)
  have "throttled now (fst ?st ! a)" using Cons.prems(1)
    by (auto simp: sv_notify_one_def Let_def at_object_def nth_list_update throttled_def)
  then have "SvNotify n \<in> set (snd ?st)"
    using Cons.IH [of ?st] Cons.prems by (auto simp: ids)
  then show ?case using Cons.prems(1,2,3) assms(5)
    by (auto simp: sv_notify_one_def Let_def throttled_def split: if_splits)
qed

definition written_state :: "request \<Rightarrow> (u16, any) gomap \<Rightarrow> feature \<Rightarrow> server \<Rightarrow> server" where
  "written_state rq m f s = s\<lparr>sv_device := put_feature (rq_endpoint_id rq) (rq_feature_id rq)
       (sw_feature (sv_write_all m f)) (sv_device s),
     sv_objects := foldl deliver_change (sv_objects s) (sw_changes (sv_write_all m f))\<rparr>"

lemma sv_handle_write_split:
  assumes "device_get_feature (rq_endpoint_id rq) (rq_feature_id rq) (sv_device s) = Inr f"
    and "sv_write_payload (rq_payload rq) = Some m" and "m \<noteq> []" and "w = sv_write_all m f"
    and "r = sv_notify_changes now (rq_endpoint_id rq) (rq_feature_id rq) (sw_results w) (written_state rq m f s)"
  shows "sv_handle_write fmt now rq s =
    (if sw_error w \<noteq> None \<and> sw_results w = []
     then (written_state rq m f s, foreign_calls (sw_changes w),
           sv_error rq StatusConstraintError (error_text fmt (the (sw_error w))))
     else (fst r, foreign_calls (sw_changes w) @ snd r, sv_success rq (AMapU16 (sw_results w))))"
  using assms(3)
  by (cases m) (auto simp: sv_handle_write_def assms(1,2,4,5) written_state_def Let_def
      split: list.splits option.splits prod.splits)

lemma write_notifies:
  assumes "SvNotify n \<in> set (fst (snd (sv_handle_write fmt now rq s)))"
  shows "\<exists>f m. device_get_feature (rq_endpoint_id rq) (rq_feature_id rq) (sv_device s) = Inr f \<and>
    SvNotify n \<in> set (snd (sv_notify_changes now (rq_endpoint_id rq) (rq_feature_id rq)
      (sw_results (sv_write_all m f)) (written_state rq m f s)))"
proof -
  obtain f where f: "device_get_feature (rq_endpoint_id rq) (rq_feature_id rq) (sv_device s) = Inr f"
    using assms by (auto simp: sv_handle_write_def split: sum.splits)
  obtain m where m: "sv_write_payload (rq_payload rq) = Some m" "m \<noteq> []"
    using assms f by (auto simp: sv_handle_write_def split: option.splits list.splits)
  have "SvNotify n \<notin> set (foreign_calls cs)" for cs by (auto simp: foreign_calls_def)
  then show ?thesis
    using assms sv_handle_write_split [OF f m refl refl, of fmt now] f by (auto split: if_splits)
qed

text \<open>C32. A change written while a subscription is throttled is lost for it: the write itself is not
  notified, and no later notification carries the attribute before another request writes it.\<close>

theorem throttled_change_lost:
  assumes "quiet_device d" and "commands_set_attributes en" and "length ops \<le> 2 ^ 32 - 2"
    and "s = foldl (server_step en) (new_server d) ops" and "sv_get_subscription i s = Some v"
    and "now - vs_last_notify v < vs_min_interval v"
    and "\<forall>p \<in> set later. \<not> writes_attribute ep fid attr p"
    and "SvNotify n \<in> set (server_outputs en s (SvRequest ctx now rq # later))"
    and "nt_subscription_id n = i" and "nt_endpoint_id n = ep \<and> nt_feature_id n = fid"
  shows "attr \<notin> fst ` set (nt_changes n)"
proof
  assume attr: "attr \<in> fst ` set (nt_changes n)"
  have ok: "sv_ok s" using server_run [OF assms(1-3)] assms(4) by simp
  obtain a where a: "gm_get (sv_subscriptions s) i = Some a" "v = sv_objects s ! a"
    using assms(5) by (auto simp: sv_get_subscription_def)
  have th: "throttled now (sv_objects s ! a)"
    using assms(6) a(2) by (simp add: throttled_def can_notify_def)
  obtain s' out where st: "server_step_out en s (SvRequest ctx now rq) = (s', out)"
    by (cases "server_step_out en s (SvRequest ctx now rq)")
  have "SvNotify n \<notin> set (server_outputs en s' later)"
    using outputs_notified [of en s' later ep fid attr] attr assms(7,10) by (auto simp: notified_def)
  then have "SvNotify n \<in> set out" using assms(8) st by (auto split: prod.splits)
  then have "SvNotify n \<in> set (fst (snd (sv_handle_write (se_format en) now rq s)))"
    using st by (auto simp: sv_handle_request_def split: if_splits prod.splits)
  then obtain f m where "SvNotify n \<in> set (snd (sv_notify_changes now (rq_endpoint_id rq)
      (rq_feature_id rq) (sw_results (sv_write_all m f)) (written_state rq m f s)))"
    using write_notifies by blast
  let ?os = "foldl deliver_change (sv_objects s) (sw_changes (sv_write_all m f))"
  have out: "SvNotify n \<in> set (snd (foldl (sv_notify_one now (rq_endpoint_id rq) (rq_feature_id rq)
      (sw_results (sv_write_all m f))) (?os, []) (sv_subscriptions s)))"
    using \<open>SvNotify n \<in> set (snd (sv_notify_changes _ _ _ _ _))\<close>
    by (auto simp: sv_notify_changes_def written_state_def split: if_splits prod.splits)
  have entry: "gm_get (sv_subscriptions s) (fst e) = Some (snd e)"
    if "e \<in> set (sv_subscriptions s)" for e
    using ok that by (cases e) (simp add: sv_ok_def gm_get_in)
  have ids: "vs_id (?os ! snd e) = fst e" if "e \<in> set (sv_subscriptions s)" for e
  proof -
    have "snd e < length (sv_objects s) \<and> vs_id (sv_objects s ! snd e) = fst e"
      using ok entry [OF that] unfolding sv_ok_def by blast
    then show ?thesis using deliver_all_static by (auto simp: vs_static_def)
  qed
  have addr: "snd e = a" if "e \<in> set (sv_subscriptions s)" "fst e = i" for e
    using entry [OF that(1)] a(1) that(2) by simp
  have "SvNotify n \<in> set (snd (?os, []))"
  proof (rule notify_all_throttled [OF _ _ _ out assms(9)])
    show "throttled now (fst (?os, []) ! a)" by (simp add: throttled_deliver th)
    show "\<forall>e \<in> set (sv_subscriptions s). vs_id (fst (?os, []) ! snd e) = fst e" using ids by simp
    show "\<forall>e \<in> set (sv_subscriptions s). fst e = i \<longrightarrow> snd e = a" using addr by blast
  qed
  then show False by simp
qed

subsection \<open>The two servers\<close>

lemma both_write_features:
  "ws_feature w = sw_feature u \<Longrightarrow> ws_feature (foldl write_entry w m) = sw_feature (foldl sv_write_one u m)"
  by (induction m arbitrary: w u) (simp_all add: sv_write_one_simps)

lemma write_one_outcome:
  "sw_results (sv_write_one w e) = [] \<longleftrightarrow>
     sw_results w = [] \<and> write_refusal (sw_feature w) (fst e) (snd e) \<noteq> None"
  "sw_error (sv_write_one w e) = None \<longleftrightarrow>
     sw_error w = None \<and> write_refusal (sw_feature w) (fst e) (snd e) = None"
proof -
  obtain f' cs err where r: "write_attribute (fst e) (snd e) (sw_feature w) = (f', cs, err)"
    by (cases "write_attribute (fst e) (snd e) (sw_feature w)")
  then have "write_refusal (sw_feature w) (fst e) (snd e) = err"
    using write_attribute_error [of "fst e" "snd e" "sw_feature w"] by simp
  moreover have "gm_put k x m \<noteq> []" for k x and m :: "(u16, any) gomap" by (cases m) auto
  ultimately show "sw_results (sv_write_one w e) = [] \<longleftrightarrow>
      sw_results w = [] \<and> write_refusal (sw_feature w) (fst e) (snd e) \<noteq> None"
    "sw_error (sv_write_one w e) = None \<longleftrightarrow>
      sw_error w = None \<and> write_refusal (sw_feature w) (fst e) (snd e) = None"
    by (cases err; simp add: sv_write_one_def r)+
qed

lemma write_all_outcome:
  assumes "gm_wf m"
  shows "(sw_results (foldl sv_write_one w m) = [] \<longleftrightarrow>
      sw_results w = [] \<and> (\<forall>(i, v) \<in> set m. write_refusal (sw_feature w) i v \<noteq> None)) \<and>
    (sw_error (foldl sv_write_one w m) = None \<longleftrightarrow>
      sw_error w = None \<and> (\<forall>(i, v) \<in> set m. write_refusal (sw_feature w) i v = None))"
  using assms
proof (induction m arbitrary: w)
  case Nil
  then show ?case by simp
next
  case (Cons e m)
  obtain k u where e: "e = (k, u)" by (cases e)
  from Cons.prems have wf: "gm_wf m" and fresh: "\<And>i v. (i, v) \<in> set m \<Longrightarrow> i \<noteq> k"
    by (auto simp: e gm_wf_def rev_image_eqI)
  have "write_refusal (sw_feature (sv_write_one w e)) i v = write_refusal (sw_feature w) i v"
    if "(i, v) \<in> set m" for i v
    by (rule write_refusal_local)
      (use fresh [OF that] in \<open>simp add: e sv_write_one_simps write_attribute_get\<close>)
  then have "(\<forall>(i, v) \<in> set m. write_refusal (sw_feature (sv_write_one w e)) i v \<noteq> None) =
        (\<forall>(i, v) \<in> set m. write_refusal (sw_feature w) i v \<noteq> None)"
      "(\<forall>(i, v) \<in> set m. write_refusal (sw_feature (sv_write_one w e)) i v = None) =
        (\<forall>(i, v) \<in> set m. write_refusal (sw_feature w) i v = None)" by fastforce+
  then show ?case using Cons.IH [OF wf, of "sv_write_one w e"] by (simp add: e write_one_outcome)
qed

lemma wire_write_payload:
  assumes "gm_wf m" and "m \<noteq> []"
  shows "sv_write_payload (write_payload_wire m) = Some m"
    and "ExtractWritePayload (write_payload_wire m) = Some m"
proof -
  have "foldl sv_put_entry acc (map (\<lambda>(k :: u16, v). (AU64 (ucast k), v)) xs)
      = foldl put_entry acc (map (\<lambda>(k, v). (AU64 (ucast k), v)) xs)" for acc xs
    by (induction xs arbitrary: acc) (auto simp: sv_put_entry_def put_entry_def)
  then show "sv_write_payload (write_payload_wire m) = Some m"
      "ExtractWritePayload (write_payload_wire m) = Some m"
    using write_wire_fold [of "[]" m] assms by (simp_all add: write_payload_wire_def)
qed

lemma write_error_status_error: "write_error_status err \<noteq> StatusSuccess"
  by (cases err) (simp_all add: status_defs)

text \<open>C34. A write request changes the device in the same way whether the \<open>ProtocolHandler\<close> or this
  server handles it, but they answer differently: the handler tells an error when an entry is
  refused, the server only when all are.\<close>

theorem both_servers_write_alike:
  assumes "device_get_feature (rq_endpoint_id rq) (rq_feature_id rq) (sv_device s) = Inr f"
    and "ph_device h = sv_device s" and "rq_payload rq = write_payload_wire m"
    and "gm_wf m" and "m \<noteq> []"
  shows "sv_device (fst (sv_handle_write fmt now rq s)) = ph_device (fst (handle_write en rq h)) \<and>
    (rp_status (snd (snd (handle_write en rq h))) = StatusSuccess \<longleftrightarrow>
       (\<forall>(i, v) \<in> set m. write_refusal f i v = None)) \<and>
    (rp_status (snd (snd (sv_handle_write fmt now rq s))) = StatusSuccess \<longleftrightarrow>
       (\<exists>(i, v) \<in> set m. write_refusal f i v = None))"
proof -
  let ?w = "sv_write_all m f" and ?u = "write_entries m f"
  have "device_get_feature (rq_endpoint_id rq) (rq_feature_id rq) (ph_device h) = Inr f"
    using assms(1,2) by simp
  then obtain e where e: "get_endpoint (rq_endpoint_id rq) (ph_device h) = Inr e"
    "get_feature (rq_feature_id rq) e = Inr f" by (auto simp: device_get_feature_iff)
  note payload = wire_write_payload [OF assms(4,5), folded assms(3)]
  have feature: "ws_feature ?u = sw_feature ?w"
    unfolding write_entries_def sv_write_all_def by (rule both_write_features) simp
  have out: "sw_results ?w = [] \<longleftrightarrow> (\<forall>(i, v) \<in> set m. write_refusal f i v \<noteq> None)"
    "sw_error ?w = None \<longleftrightarrow> (\<forall>(i, v) \<in> set m. write_refusal f i v = None)"
    using write_all_outcome [OF assms(4),
        of "\<lparr>sw_feature = f, sw_changes = [], sw_results = [], sw_error = None\<rparr>"]
    by (simp_all add: sv_write_all_def)
  have fold: "ws_first_error ?u = (case filter (\<lambda>(i, v). write_refusal f i v \<noteq> None) m of
      [] \<Rightarrow> None | e # _ \<Rightarrow> write_refusal f (fst e) (snd e))"
    using fold_write_error [OF assms(4),
        of "\<lparr>ws_feature = f, ws_changes = [], ws_result = [], ws_first_error = None\<rparr>"]
    by (simp add: write_entries_def cong: list.case_cong)
  have first: "ws_first_error ?u = None \<longleftrightarrow> (\<forall>(i, v) \<in> set m. write_refusal f i v = None)"
  proof (cases "filter (\<lambda>(i, v). write_refusal f i v \<noteq> None) m")
    case Nil
    then have "\<forall>x \<in> set m. \<not> (\<lambda>(i, v). write_refusal f i v \<noteq> None) x"
      unfolding filter_empty_conv .
    with Nil show ?thesis unfolding fold by (simp add: case_prod_unfold)
  next
    case (Cons e es)
    then have "e \<in> set (filter (\<lambda>(i, v). write_refusal f i v \<noteq> None) m)" by simp
    then have "e \<in> set m" "write_refusal f (fst e) (snd e) \<noteq> None" by auto
    with Cons show ?thesis unfolding fold by (auto simp: case_prod_unfold)
  qed
  have notify: "sv_device (fst (sv_notify_changes now ep fid c t)) = sv_device t" for ep fid c t
    by (simp add: sv_notify_changes_def split: prod.splits)
  have err: "StatusConstraintError \<noteq> StatusSuccess" by (simp add: status_defs)
  have sv: "sv_device (fst (sv_handle_write fmt now rq s)) = sv_device (written_state rq m f s) \<and>
      (rp_status (snd (snd (sv_handle_write fmt now rq s))) = StatusSuccess \<longleftrightarrow>
         \<not> (sw_error ?w \<noteq> None \<and> sw_results ?w = []))"
    using sv_handle_write_split [OF assms(1) payload(1) assms(5) refl refl, of fmt now]
    by (auto simp: notify sv_error_def sv_success_def err)
  have ph: "ph_device (fst (handle_write en rq h)) =
        put_feature (rq_endpoint_id rq) (rq_feature_id rq) (ws_feature ?u) (ph_device h) \<and>
      (rp_status (snd (snd (handle_write en rq h))) = StatusSuccess \<longleftrightarrow> ws_first_error ?u = None)"
    by (simp add: handle_write_def e payload(2) Let_def error_response_def success_response_def
        write_error_status_error split: option.splits)
  have "(sw_error ?w \<noteq> None \<and> sw_results ?w = []) \<longleftrightarrow> \<not> (\<exists>(i, v) \<in> set m. write_refusal f i v = None)"
    using out assms(5) by (cases m) auto
  then show ?thesis using sv ph first feature assms(2) by (simp add: written_state_def)
qed

text \<open>Unsubscribing from a new subscription leaves every feature as it was before.\<close>

theorem unsubscribe_undoes_subscribe:
  assumes "quiet_device d" and "commands_set_attributes en" and "length ops \<le> 2 ^ 32 - 2"
    and "s = foldl (server_step en) (new_server d) ops"
    and "device_get_feature (rq_endpoint_id rq) (rq_feature_id rq) (sv_device s) = Inr f"
    and "\<not> (rq_endpoint_id rq = 0 \<and> rq_feature_id rq = 0)"
    and "s1 = fst (sv_handle_subscribe now rq s)" and "rq_payload rq' = AUnsubscribePayload (sv_next_sub_id s)"
    and "s2 = fst (sv_handle_unsubscribe rq' s1)"
  shows "device_get_feature ep fid (sv_device s2) = device_get_feature ep fid (sv_device s) \<and>
    gm_get (sv_subscriptions s2) = gm_get (sv_subscriptions s)"
proof -
  let ?ep = "rq_endpoint_id rq" and ?fid = "rq_feature_id rq"
  let ?a = "length (sv_objects s)" and ?i = "sv_next_sub_id s"
  have ok: "sv_ok s" using server_run [OF assms(1-3)] assms(4) by simp
  have old: "gm_get (sv_subscriptions s) ?i = None"
  proof (cases "gm_get (sv_subscriptions s) ?i")
    case (Some a)
    then have "?i < ?i" using ok unfolding sv_ok_def by blast
    then show ?thesis by simp
  qed simp
  obtain ids mn mx where p: "sv_subscribe_payload (rq_payload rq) = (ids, mn, mx)"
    by (cases "sv_subscribe_payload (rq_payload rq)")
  have s1: "gm_get (sv_subscriptions s1) ?i = Some ?a"
    "sv_subscriptions s1 = gm_put ?i ?a (sv_subscriptions s)"
    "vs_endpoint_id (sv_objects s1 ! ?a) = ?ep" "vs_feature_id (sv_objects s1 ! ?a) = ?fid"
    "sv_device s1 = put_feature ?ep ?fid (feature_subscribe (own_name ?a) f) (sv_device s)"
    unfolding assms(7) sv_handle_subscribe_def if_not_P [OF assms(6)]
    by (simp_all add: assms(5) p Let_def gomap_simps)
  have "?a \<notin> live_at (sv_subscriptions s) (sv_objects s) ?ep ?fid"
  proof
    assume "?a \<in> live_at (sv_subscriptions s) (sv_objects s) ?ep ?fid"
    then obtain j where "gm_get (sv_subscriptions s) j = Some ?a" by (auto simp: live_at_def)
    then have "?a < ?a" using ok unfolding sv_ok_def by blast
    then show False by simp
  qed
  moreover have "registered (sv_subscriptions s) (sv_objects s) ?ep ?fid f"
    using ok assms(5) by (simp add: sv_ok_def)
  ultimately have "own_name ?a \<notin> set (ft_subscribers f)" by (simp add: registered_iff)
  then have undo: "feature_unsubscribe (own_name ?a) (feature_subscribe (own_name ?a) f) = f"
    by (simp add: feature_unsubscribe_def feature_subscribe_def remove1_append)
  have s2: "s2 = s1\<lparr>sv_subscriptions := gm_del ?i (sv_subscriptions s1),
      sv_device := drop_subscriber ?a (sv_objects s1) (sv_device s1)\<rparr>"
    by (simp add: assms(8,9) sv_handle_unsubscribe_def s1(1))
  have got: "device_get_feature ?ep ?fid (sv_device s1) = Inr (feature_subscribe (own_name ?a) f)"
    by (simp add: s1(5) device_get_put_feature [OF assms(5)])
  have "device_get_feature ep fid (drop_subscriber ?a (sv_objects s1) (sv_device s1)) =
      (if ep = ?ep \<and> fid = ?fid then Inr f else device_get_feature ep fid (sv_device s1))"
    by (simp add: drop_subscriber_def Let_def s1(3,4) got device_get_put_feature [OF got] undo)
  moreover have "device_get_feature ep fid (sv_device s1) = device_get_feature ep fid (sv_device s)"
    if "\<not> (ep = ?ep \<and> fid = ?fid)"
    using that by (auto simp: s1(5) device_get_put_feature [OF assms(5)])
  moreover have "gm_get (gm_del ?i (gm_put ?i ?a (sv_subscriptions s))) = gm_get (sv_subscriptions s)"
    using old by (simp add: gomap_simps fun_upd_idem)
  ultimately show ?thesis using assms(5) by (auto simp: s2 s1(2))
qed

subsection \<open>Witnesses\<close>

definition quiet_lists :: "device \<Rightarrow> bool" where
  "quiet_lists d \<longleftrightarrow> list_all (\<lambda>(i, e). list_all (\<lambda>(ft, f).
     distinct (map fst (ft_attributes f)) \<and> ft_subscribers f = []) (ep_features e)) (dv_endpoints d)"

lemma quiet_lists: "quiet_lists d \<Longrightarrow> quiet_device d"
  by (fastforce simp: quiet_lists_def quiet_device_def device_get_feature_def get_endpoint_def
      get_feature_def list_all_iff gm_wf_def split: option.splits dest!: map_of_SomeD)

definition server_demo_env :: server_env where
  "server_demo_env = \<lparr>se_commands = (\<lambda>_ _ _ s. (s, Inr [])), se_format = (\<lambda>_. '''')\<rparr>"

lemma demo_commands: "commands_set_attributes server_demo_env"
  by (auto simp: commands_set_attributes_def server_demo_env_def apply_sets_def intro!: exI [of _ "[]"])

lemma demo_quiet: "quiet_device demo_device"
  by (rule quiet_lists) code_simp

definition demo_caller :: caller where "demo_caller = \<lparr>cl_zone_id = ''z'', cl_zone_type = 1\<rparr>"

definition demo_server_ops :: "server_op list" where
  "demo_server_ops = [SvSetHandler True,
     SvRequest demo_caller 1000000000 (demo_request OpSubscribe (ASubscribePayload [] 0 0)),
     SvRequest demo_caller 1500000000 (demo_request OpWrite (AMapU16 [(21, AI64 5)])),
     SvDeviceSets 0 5 22 (AI64 9)]"

definition demo_server :: server where
  "demo_server = foldl (server_step server_demo_env) (new_server demo_device) demo_server_ops"

definition demo_sub :: server_sub where "demo_sub = sv_objects demo_server ! 0"

lemma demo_sub_facts:
  "sv_get_subscription 1 demo_server = Some demo_sub" "vs_attribute_ids demo_sub = []"
  "vs_endpoint_id demo_sub = 0" "vs_feature_id demo_sub = 5"
  "vs_last_notify demo_sub = 1000000000" "vs_min_interval demo_sub = 1000000000"
  "sv_next_sub_id demo_server = 2"
  by code_simp+


theorem cancel_leaves_no_subscriber_witness:
  "\<exists>f. device_get_feature 0 5 (sv_device (sv_cancel_all demo_server)) = Inr f \<and>
     own_name 0 \<notin> set (ft_subscribers f)"
proof -
  obtain f where f: "device_get_feature 0 5 (sv_device (sv_cancel_all demo_server)) = Inr f"
    by (rule that [of "projr (device_get_feature 0 5 (sv_device (sv_cancel_all demo_server)))"]) code_simp
  have "own_name 0 \<notin> set (ft_subscribers f) \<and> sv_subscription_count (sv_cancel_all demo_server) = 0"
    by (rule cancel_leaves_no_subscriber [OF demo_quiet demo_commands _ _ f, of demo_server_ops])
      (simp_all add: demo_server_ops_def demo_server_def)
  with f show ?thesis by blast
qed

theorem only_written_attributes_notified_witness:
  "\<exists>p \<in> set [SvDeviceSets 0 5 22 (AI64 1),
      SvRequest demo_caller 3000000000 (demo_request OpWrite (AMapU16 [(21, AI64 6)]))].
     writes_attribute 0 5 21 p"
proof -
  let ?n = "\<lparr>nt_subscription_id = 1, nt_endpoint_id = 0, nt_feature_id = 5, nt_changes = [(21, AI64 6)]\<rparr>"
  have "SvNotify ?n \<in> set (server_outputs server_demo_env demo_server [SvDeviceSets 0 5 22 (AI64 1),
      SvRequest demo_caller 3000000000 (demo_request OpWrite (AMapU16 [(21, AI64 6)]))])"
    by code_simp
  then have "notified (server_outputs server_demo_env demo_server [SvDeviceSets 0 5 22 (AI64 1),
      SvRequest demo_caller 3000000000 (demo_request OpWrite (AMapU16 [(21, AI64 6)]))]) 0 5 21"
    unfolding notified_def by (intro exI [of _ ?n]) simp
  then show ?thesis by (rule only_written_attributes_notified)
qed

text \<open>The write of 21 after 0.6 seconds is lost; the next notification, for the write of another
  attribute that may be written, does not have it.\<close>

definition two_limits :: device where
  "two_limits =
     (let f = foldl feature_step (new_feature 5 1)
          [FtAddAttribute limit_metadata, FtAddAttribute (limit_metadata\<lparr>am_id := 23\<rparr>)];
          d = new_device ''dev'' 1 1
      in d\<lparr>dv_endpoints := [(0, add_feature f (new_endpoint 0 EndpointDeviceRoot ''''))]\<rparr>)"

definition lost_ops :: "server_op list" where
  "lost_ops = [SvSetHandler True,
     SvRequest demo_caller 1000000000 (demo_request OpSubscribe (ASubscribePayload [] 0 0))]"

definition lost_server :: server where
  "lost_server = foldl (server_step server_demo_env) (new_server two_limits) lost_ops"

definition lost_later :: "server_op list" where
  "lost_later = [SvRequest demo_caller 3000000000 (demo_request OpWrite (AMapU16 [(23, AI64 8)]))]"

definition lost_note :: notification where
  "lost_note = \<lparr>nt_subscription_id = 1, nt_endpoint_id = 0, nt_feature_id = 5, nt_changes = [(23, AI64 8)]\<rparr>"

lemma lost_facts:
  "sv_get_subscription 1 lost_server = Some (sv_objects lost_server ! 0)"
  "vs_last_notify (sv_objects lost_server ! 0) = 1000000000"
  "vs_min_interval (sv_objects lost_server ! 0) = 1000000000"
  "quiet_lists two_limits"
  "server_outputs server_demo_env lost_server
     (SvRequest demo_caller 1600000000 (demo_request OpWrite (AMapU16 [(21, AI64 5)])) # lost_later)
   = [SvNotify lost_note]"
  by code_simp+

theorem throttled_change_lost_witness:
  "SvNotify lost_note \<in> set (server_outputs server_demo_env lost_server
     (SvRequest demo_caller 1600000000 (demo_request OpWrite (AMapU16 [(21, AI64 5)])) # lost_later)) \<and>
   21 \<notin> fst ` set (nt_changes lost_note)"
proof -
  have "21 \<notin> fst ` set (nt_changes lost_note)"
  proof (rule throttled_change_lost [where d = two_limits and en = server_demo_env and ops = lost_ops
        and s = lost_server and i = 1 and now = 1600000000 and later = lost_later and ep = 0 and fid = 5
        and ctx = demo_caller and rq = "demo_request OpWrite (AMapU16 [(21, AI64 5)])"])
    show "quiet_device two_limits" by (rule quiet_lists) (rule lost_facts(4))
    show "sv_get_subscription 1 lost_server = Some (sv_objects lost_server ! 0)" by (rule lost_facts(1))
    show "\<forall>p \<in> set lost_later. \<not> writes_attribute 0 5 21 p"
      by (simp add: lost_later_def demo_request_simps)
    show "lost_server = foldl (server_step server_demo_env) (new_server two_limits) lost_ops"
      by (rule lost_server_def)
    show "SvNotify lost_note \<in> set (server_outputs server_demo_env lost_server (SvRequest demo_caller
        1600000000 (demo_request OpWrite (AMapU16 [(21, AI64 5)])) # lost_later))"
      unfolding lost_facts(5) by simp
  qed (simp_all add: demo_commands lost_facts(2,3) lost_ops_def lost_note_def)
  then show ?thesis unfolding lost_facts(5) by simp
qed

theorem both_servers_write_alike_witness:
  "let rq = demo_request OpWrite (write_payload_wire [(21, AI64 7), (22, AI64 1)])
   in rp_status (snd (snd (handle_write demo_env rq demo_handler))) \<noteq> StatusSuccess \<and>
      rp_status (snd (snd (sv_handle_write (\<lambda>_. '''') 0 rq (new_server demo_device)))) = StatusSuccess"
proof -
  let ?m = "[(21, AI64 7), (22, AI64 1)] :: (u16, any) gomap"
  let ?rq = "demo_request OpWrite (write_payload_wire ?m)"
  obtain f where f: "device_get_feature 0 5 demo_device = Inr f"
    and w: "write_refusal f 21 (AI64 7) = None" "write_refusal f 22 (AI64 1) \<noteq> None"
    by (rule that [of "projr (device_get_feature 0 5 demo_device)"]) code_simp+
  have "ph_device demo_handler = demo_device"
    by (simp add: demo_handler_def set_on_write_def new_handler_with_send_def new_handler_def)
  then show ?thesis
    using both_servers_write_alike [of ?rq "new_server demo_device" f demo_handler ?m "\<lambda>_. ''''" 0 demo_env] f w
    by (simp add: demo_request_simps new_server_def gm_wf_def)
qed

theorem unsubscribe_undoes_subscribe_witness:
  "let s1 = fst (sv_handle_subscribe 5 (demo_request OpSubscribe ANil) demo_server);
       s2 = fst (sv_handle_unsubscribe (demo_request OpSubscribe (AUnsubscribePayload 2)) s1)
   in gm_get (sv_subscriptions s1) 2 \<noteq> None \<and>
      gm_get (sv_subscriptions s2) = gm_get (sv_subscriptions demo_server)"
proof -
  let ?rq = "demo_request OpSubscribe ANil" and ?rq' = "demo_request OpSubscribe (AUnsubscribePayload 2)"
  obtain f where f: "device_get_feature 0 5 (sv_device demo_server) = Inr f"
    by (rule that [of "projr (device_get_feature 0 5 (sv_device demo_server))"]) code_simp
  have "gm_get (sv_subscriptions (fst (sv_handle_subscribe 5 ?rq demo_server))) 2 \<noteq> None" by code_simp
  then show ?thesis
    using unsubscribe_undoes_subscribe [OF demo_quiet demo_commands _ demo_server_def, of ?rq f _ 5 ?rq' _ 0 5] f
    by (simp add: demo_server_ops_def demo_request_simps demo_sub_facts Let_def)
qed

end
