(* ===== verification/FeatureAccess.thy ===== *)
theory FeatureAccess
  imports Dispatch
begin

text \<open>
  The pattern of the generated feature files (\<open>pkg/features/*_gen.go\<close>): a constructor that adds
  attributes and commands to a feature, a getter, a setter and perhaps a clearing function per
  attribute, and a handler per command that reads its parameters and calls a function of the
  application. A generated function is here a row of a table (theory FeatureTables), and this
  theory says what a row of each form does, statement by statement of the template.

  A getter and a setter are typed: their argument or result is a value of one Go type. Texts that
  describe attributes for display are left out.
\<close>

section \<open>Go types of attributes\<close>

text \<open>Enumerations are stored as \<open>uint8\<close>; a map keyed by an enumeration has the name of its type.\<close>

datatype kind =
    KBool | KInt16 | KInt32 | KInt64 | KUint8 | KUint16 | KUint32 | KUint64 | KString
  | KNamedMap string | KStringMap | KSlice

text \<open>The type assertion \<open>v.(T)\<close>.\<close>

fun kind_of :: "any \<Rightarrow> kind option" where
  "kind_of (ABool _) = Some KBool"
| "kind_of (AI16 _) = Some KInt16"
| "kind_of (AI32 _) = Some KInt32"
| "kind_of (AI64 _) = Some KInt64"
| "kind_of (AU8 _) = Some KUint8"
| "kind_of (AU16 _) = Some KUint16"
| "kind_of (AU32 _) = Some KUint32"
| "kind_of (AU64 _) = Some KUint64"
| "kind_of (AString _) = Some KString"
| "kind_of (AMapNamed t _) = Some (KNamedMap t)"
| "kind_of (AMapString _) = Some KStringMap"
| "kind_of (ASlice _) = Some KSlice"
| "kind_of _ = None"

definition has_kind :: "kind \<Rightarrow> any \<Rightarrow> bool" where
  "has_kind k v \<longleftrightarrow> kind_of v = Some k"

fun zero_of :: "kind \<Rightarrow> any" where
  "zero_of KBool = ABool False"
| "zero_of KInt16 = AI16 0"
| "zero_of KInt32 = AI32 0"
| "zero_of KInt64 = AI64 0"
| "zero_of KUint8 = AU8 0"
| "zero_of KUint16 = AU16 0"
| "zero_of KUint32 = AU32 0"
| "zero_of KUint64 = AU64 0"
| "zero_of KString = AString ''''"
| "zero_of _ = ANil"

section \<open>Attributes of a constructor\<close>

text \<open>The fields of the metadata a constructor sets: id, name, type, writable, nullable, minimum,
  maximum, default, unit.\<close>

definition attr_row ::
  "u16 \<Rightarrow> string \<Rightarrow> data_type \<Rightarrow> bool \<Rightarrow> bool \<Rightarrow> any \<Rightarrow> any \<Rightarrow> any \<Rightarrow> string \<Rightarrow> attribute_metadata" where
  "attr_row i n ty writable nullable lo hi dflt unit =
     \<lparr>am_id = i, am_name = n, am_type = ty,
      am_access = (if writable then AccessReadWrite else AccessReadOnly), am_nullable = nullable,
      am_min_value = lo, am_max_value = hi, am_default = dflt, am_unit = unit, am_description = ''''\<rparr>"

section \<open>Getters\<close>

text \<open>With a default (one result), with \<open>ok\<close> (two results), of a slice of structs (the fields with
  their types) and of a slice of enumeration values.\<close>

datatype getter_form = GOr any | GOpt | GStructs "(string \<times> kind) list" | GItems kind

record getter =
  gt_name :: string
  gt_attr :: u16
  gt_kind :: kind
  gt_form :: getter_form

definition getter_row :: "string \<Rightarrow> u16 \<Rightarrow> kind \<Rightarrow> getter_form \<Rightarrow> getter" where
  "getter_row n i k form = \<lparr>gt_name = n, gt_attr = i, gt_kind = k, gt_form = form\<rparr>"

text \<open>One element of a slice of structs; another type is skipped, a field of another type keeps the
  zero of its type.\<close>

fun struct_entry :: "(string \<times> kind) list \<Rightarrow> any \<Rightarrow> any list" where
  "struct_entry fds (AMapString m) =
     [AMapString (map (\<lambda>(n, k). (n, if has_kind k (any_at m n) then any_at m n else zero_of k)) fds)]"
| "struct_entry fds _ = []"

fun read_slice :: "getter_form \<Rightarrow> any \<Rightarrow> any option" where
  "read_slice (GStructs fds) (ASlice raw) = Some (ASlice (concat (map (struct_entry fds) raw)))"
| "read_slice (GItems k) (ASlice raw) = Some (ASlice (filter (has_kind k) raw))"
| "read_slice _ _ = None"

definition run_getter :: "getter \<Rightarrow> feature \<Rightarrow> any option" where
  "run_getter g f =
     (let r = read_attribute (gt_attr g) f
      in case gt_form g of
           GOr d \<Rightarrow>
             (case r of Inr v \<Rightarrow> Some (if has_kind (gt_kind g) v then v else d) | Inl _ \<Rightarrow> Some d)
         | GOpt \<Rightarrow>
             (case r of Inr v \<Rightarrow> if v = ANil then None else if has_kind (gt_kind g) v then Some v else None
                | Inl _ \<Rightarrow> None)
         | form \<Rightarrow> (case r of Inr v \<Rightarrow> if v = ANil then None else read_slice form v | Inl _ \<Rightarrow> None))"

section \<open>Setters\<close>

text \<open>\<open>SetX\<close> of a value, of a slice of structs (stored as maps with the names of the fields), of a
  slice of enumeration values (stored as \<open>[]uint8\<close>); and whether there are \<open>ClearX\<close> and \<open>SetXPtr\<close>.\<close>

datatype setter_form = SValue | SStructs "(string \<times> kind) list" | SBytes

record setter =
  st_name :: string
  st_attr :: u16
  st_kind :: kind
  st_form :: setter_form
  st_clear :: bool
  st_ptr :: bool

definition setter_row :: "string \<Rightarrow> u16 \<Rightarrow> kind \<Rightarrow> setter_form \<Rightarrow> bool \<Rightarrow> bool \<Rightarrow> setter" where
  "setter_row n i k form c p =
     \<lparr>st_name = n, st_attr = i, st_kind = k, st_form = form, st_clear = c, st_ptr = p\<rparr>"

text \<open>\<open>GetAttribute\<close> and \<open>SetValueInternal\<close> on it: unlike \<open>SetAttributeInternal\<close> of the feature this
  calls no subscriber.\<close>

definition set_quietly :: "u16 \<Rightarrow> any \<Rightarrow> feature \<Rightarrow> feature \<times> model_error option" where
  "set_quietly i v f =
     (case get_attribute i f of
        Inl err \<Rightarrow> (f, Some err)
      | Inr a \<Rightarrow> (case set_value_internal v a of (a', err) \<Rightarrow> (put_attribute i a' f, err)))"

fun byte_of :: "any \<Rightarrow> u8" where
  "byte_of (AU8 b) = b"
| "byte_of _ = 0"

fun struct_map :: "(string \<times> kind) list \<Rightarrow> any \<Rightarrow> any" where
  "struct_map fds (AMapString m) = AMapString (map (\<lambda>(n, k). (n, any_at m n)) fds)"
| "struct_map fds v = v"

fun stored_form :: "setter_form \<Rightarrow> any \<Rightarrow> any" where
  "stored_form (SStructs fds) (ASlice xs) = ASlice (map (struct_map fds) xs)"
| "stored_form SBytes (ASlice xs) = ABytes (map byte_of xs)"
| "stored_form SBytes _ = ABytes []"
| "stored_form _ v = v"

definition run_setter :: "setter \<Rightarrow> any \<Rightarrow> feature \<Rightarrow> feature \<times> model_error option" where
  "run_setter s v f = set_quietly (st_attr s) (stored_form (st_form s) v) f"

definition run_clear :: "setter \<Rightarrow> feature \<Rightarrow> feature \<times> model_error option" where
  "run_clear s f = set_quietly (st_attr s) ANil f"

text \<open>The pointer is nil or points to a value.\<close>

definition run_set_ptr :: "setter \<Rightarrow> any option \<Rightarrow> feature \<Rightarrow> feature \<times> model_error option" where
  "run_set_ptr s p f = (case p of None \<Rightarrow> run_clear s f | Some v \<Rightarrow> run_setter s v f)"

section \<open>Commands\<close>

text \<open>How a handler reads a parameter: with a numeric conversion of the wire package, or with a type
  assertion.\<close>

datatype conv = CvInt64 | CvUint32 | CvUint8 | CvAs kind

fun convert :: "conv \<Rightarrow> any \<Rightarrow> any option" where
  "convert CvInt64 v = map_option AI64 (ToInt64 v)"
| "convert CvUint32 v = map_option AU32 (ToUint32 v)"
| "convert CvUint8 v = map_option AU8 (ToUint8Public v)"
| "convert (CvAs k) v = (if has_kind k v then Some v else None)"

fun conv_kind :: "conv \<Rightarrow> kind" where
  "conv_kind CvInt64 = KInt64"
| "conv_kind CvUint32 = KUint32"
| "conv_kind CvUint8 = KUint8"
| "conv_kind (CvAs k) = k"

record generated_command =
  cs_id :: u8
  cs_name :: string
  cs_parameters :: "(string \<times> data_type \<times> bool) list"
  cs_fields :: "(string \<times> conv \<times> bool) list"
  cs_missing :: string
  cs_reply :: "(string \<times> kind \<times> bool) list"

definition command_row ::
  "u8 \<Rightarrow> string \<Rightarrow> (string \<times> data_type \<times> bool) list \<Rightarrow> (string \<times> conv \<times> bool) list \<Rightarrow> string \<Rightarrow>
     (string \<times> kind \<times> bool) list \<Rightarrow> generated_command" where
  "command_row i n ps fs missing reply =
     \<lparr>cs_id = i, cs_name = n, cs_parameters = ps, cs_fields = fs, cs_missing = missing, cs_reply = reply\<rparr>"

text \<open>A request: its fields; an optional field (a pointer) may be nil, another one keeps its zero.\<close>

type_synonym cmd_request = "(string \<times> any) list"

definition request_field :: "params \<Rightarrow> string \<times> conv \<times> bool \<Rightarrow> string \<times> any" where
  "request_field ps fd = (case fd of (n, cv, optional) \<Rightarrow>
     (n, case (case gm_get ps n of None \<Rightarrow> None | Some raw \<Rightarrow> convert cv raw) of
           Some v \<Rightarrow> v
         | None \<Rightarrow> if optional then ANil else zero_of (conv_kind cv)))"

definition parse_request :: "generated_command \<Rightarrow> params \<Rightarrow> cmd_request" where
  "parse_request cs ps = map (request_field ps) (cs_fields cs)"

text \<open>The reply with the fields of the response, an optional one only when it is set; a command
  without a response replies that it succeeded.\<close>

definition reply_of :: "generated_command \<Rightarrow> params \<Rightarrow> params" where
  "reply_of cs resp =
     (if cs_reply cs = [] then [(''success'', ABool True)]
      else concat (map (\<lambda>(n, k, optional).
        case gm_get resp n of
          Some v \<Rightarrow> [(n, v)]
        | None \<Rightarrow> if optional then [] else [(n, zero_of k)]) (cs_reply cs)))"

text \<open>The function of the application, if one is set, on the request.\<close>

type_synonym 's command_function = "caller \<Rightarrow> cmd_request \<Rightarrow> 's \<Rightarrow> 's \<times> (invoke_error + params)"

definition generated_handler ::
  "generated_command \<Rightarrow> 's command_function option \<Rightarrow> caller \<Rightarrow> params \<Rightarrow> 's \<Rightarrow> 's \<times> (invoke_error + params)" where
  "generated_handler cs h ctx ps s =
     (case h of
        None \<Rightarrow> (s, Inr [(cs_missing cs, ABool False)])
      | Some g \<Rightarrow>
          (case g ctx (parse_request cs ps) s of
             (s', Inl err) \<Rightarrow> (s', Inl err)
           | (s', Inr resp) \<Rightarrow> (s', Inr (reply_of cs resp))))"

section \<open>Constructors\<close>

record feature_table =
  tb_type :: u8
  tb_revision :: u16
  tb_attributes :: "attribute_metadata list"
  tb_getters :: "getter list"
  tb_setters :: "setter list"
  tb_commands :: "generated_command list"

definition command_metadata_of :: "generated_command \<Rightarrow> command_metadata" where
  "command_metadata_of cs =
     \<lparr>cmm_id = cs_id cs, cmm_name = cs_name cs, cmm_description = '''',
      cmm_parameters = map (\<lambda>(n, ty, required).
        \<lparr>pm_name = n, pm_type = ty, pm_required = required, pm_description = ''''\<rparr>) (cs_parameters cs),
      cmm_response = []\<rparr>"

text \<open>\<open>NewX\<close>; the handlers get names: the \<open>n\<close>-th command of the table has the handler \<open>base + n\<close>.\<close>

definition construct :: "nat \<Rightarrow> feature_table \<Rightarrow> feature" where
  "construct base t =
     foldl (\<lambda>f (n, cs). add_command (new_command (command_metadata_of cs) (Some (base + n))) f)
       (foldl (\<lambda>f meta. add_attribute (new_attribute meta) f)
          (new_feature (tb_type t) (tb_revision t)) (tb_attributes t))
       (enumerate 0 (tb_commands t))"

end
