(* ===== verification/FeatureTables.thy ===== *)
theory FeatureTables
  imports FeatureAccess
begin

text \<open>
  The ten features of \<open>pkg/features/*_gen.go\<close> as tables: the attributes that the constructor adds,
  the getters, the setters and the commands, row by row in the order of the files. What a row does
  is in the theory FeatureAccess. A long list is cut into parts.
\<close>

definition device_info_attributes :: "attribute_metadata list" where
  "device_info_attributes = [
     attr_row 1 ''deviceId'' DataTypeString False False ANil ANil ANil '''',
     attr_row 2 ''vendorName'' DataTypeString False False ANil ANil ANil '''',
     attr_row 3 ''productName'' DataTypeString False False ANil ANil ANil '''',
     attr_row 4 ''serialNumber'' DataTypeString False False ANil ANil ANil '''',
     attr_row 5 ''vendorId'' DataTypeUint32 False True ANil ANil ANil '''',
     attr_row 6 ''productId'' DataTypeUint16 False True ANil ANil ANil '''',
     attr_row 10 ''softwareVersion'' DataTypeString False False ANil ANil ANil '''',
     attr_row 11 ''hardwareVersion'' DataTypeString False True ANil ANil ANil '''',
     attr_row 12 ''specVersion'' DataTypeString False False ANil ANil (AString ''1.0'') '''',
     attr_row 20 ''endpoints'' DataTypeArray False False ANil ANil ANil '''',
     attr_row 21 ''useCases'' DataTypeArray False False ANil ANil ANil '''',
     attr_row 30 ''location'' DataTypeString True True ANil ANil ANil '''',
     attr_row 31 ''label'' DataTypeString True True ANil ANil ANil '''',
     attr_row 32 ''zoneCount'' DataTypeUint8 False False ANil ANil ANil '''']"

definition device_info_getters :: "getter list" where
  "device_info_getters = [
     getter_row ''DeviceID'' 1 KString (GOr (AString '''')),
     getter_row ''VendorName'' 2 KString (GOr (AString '''')),
     getter_row ''ProductName'' 3 KString (GOr (AString '''')),
     getter_row ''SerialNumber'' 4 KString (GOr (AString '''')),
     getter_row ''VendorID'' 5 KUint32 GOpt,
     getter_row ''ProductID'' 6 KUint16 GOpt,
     getter_row ''SoftwareVersion'' 10 KString (GOr (AString '''')),
     getter_row ''HardwareVersion'' 11 KString GOpt,
     getter_row ''SpecVersion'' 12 KString (GOr (AString ''1.0'')),
     getter_row ''Location'' 30 KString GOpt,
     getter_row ''Label'' 31 KString GOpt,
     getter_row ''ZoneCount'' 32 KUint8 (GOr (AU8 0))]"

definition device_info_setters_1 :: "setter list" where
  "device_info_setters_1 = [
     setter_row ''SetDeviceID'' 1 KString SValue False False,
     setter_row ''SetVendorName'' 2 KString SValue False False,
     setter_row ''SetProductName'' 3 KString SValue False False,
     setter_row ''SetSerialNumber'' 4 KString SValue False False,
     setter_row ''SetVendorID'' 5 KUint32 SValue True True,
     setter_row ''SetProductID'' 6 KUint16 SValue True True,
     setter_row ''SetSoftwareVersion'' 10 KString SValue False False,
     setter_row ''SetHardwareVersion'' 11 KString SValue True True,
     setter_row ''SetSpecVersion'' 12 KString SValue False False]"

definition device_info_setters_2 :: "setter list" where
  "device_info_setters_2 = [
     setter_row ''SetLocation'' 30 KString SValue True True,
     setter_row ''SetLabel'' 31 KString SValue True True,
     setter_row ''SetZoneCount'' 32 KUint8 SValue False False]"

definition device_info_commands :: "generated_command list" where
  "device_info_commands = [
     command_row 16 ''removeZone'' [(''zoneId'', DataTypeString, True)] [(''zoneId'', (CvAs KString), False)] ''success'' [(''removed'', KBool, False)]]"

definition device_info_table :: feature_table where
  "device_info_table = \<lparr>tb_type = 1, tb_revision = 1, tb_attributes = device_info_attributes,
     tb_getters = device_info_getters,
     tb_setters = device_info_setters_1 @ device_info_setters_2,
     tb_commands = device_info_commands\<rparr>"

definition status_attributes :: "attribute_metadata list" where
  "status_attributes = [
     attr_row 1 ''operatingState'' DataTypeUint8 False False ANil ANil (AU8 0) '''',
     attr_row 2 ''stateDetail'' DataTypeUint32 False True ANil ANil ANil '''',
     attr_row 3 ''faultCode'' DataTypeUint32 False True ANil ANil ANil '''',
     attr_row 4 ''faultMessage'' DataTypeString False True ANil ANil ANil '''']"

definition status_getters :: "getter list" where
  "status_getters = [
     getter_row ''OperatingState'' 1 KUint8 (GOr (AU8 0)),
     getter_row ''StateDetail'' 2 KUint32 GOpt,
     getter_row ''FaultCode'' 3 KUint32 GOpt,
     getter_row ''FaultMessage'' 4 KString GOpt]"

definition status_setters :: "setter list" where
  "status_setters = [
     setter_row ''SetOperatingState'' 1 KUint8 SValue False False,
     setter_row ''SetStateDetail'' 2 KUint32 SValue True True,
     setter_row ''SetFaultCode'' 3 KUint32 SValue True True,
     setter_row ''SetFaultMessage'' 4 KString SValue True True]"

definition status_table :: feature_table where
  "status_table = \<lparr>tb_type = 2, tb_revision = 1, tb_attributes = status_attributes,
     tb_getters = status_getters,
     tb_setters = status_setters,
     tb_commands = []\<rparr>"

definition electrical_attributes :: "attribute_metadata list" where
  "electrical_attributes = [
     attr_row 1 ''phaseCount'' DataTypeUint8 False False (AU8 1) (AU8 3) (AU8 1) '''',
     attr_row 2 ''phaseMapping'' DataTypeMap False False ANil ANil ANil '''',
     attr_row 3 ''nominalVoltage'' DataTypeUint16 False False (AU16 85) (AU16 600) (AU16 230) ''V'',
     attr_row 4 ''nominalFrequency'' DataTypeUint8 False False (AU8 45) (AU8 65) (AU8 50) ''Hz'',
     attr_row 5 ''supportedDirections'' DataTypeUint8 False False ANil ANil (AU8 0) '''',
     attr_row 10 ''nominalMaxConsumption'' DataTypeInt64 False False ANil ANil (AI64 0) ''mW'',
     attr_row 11 ''nominalMaxProduction'' DataTypeInt64 False False ANil ANil (AI64 0) ''mW'',
     attr_row 12 ''nominalMinPower'' DataTypeInt64 False False ANil ANil (AI64 0) ''mW'',
     attr_row 13 ''maxCurrentPerPhase'' DataTypeInt64 False False ANil ANil (AI64 0) ''mA'',
     attr_row 14 ''minCurrentPerPhase'' DataTypeInt64 False False ANil ANil (AI64 0) ''mA'',
     attr_row 15 ''supportsAsymmetric'' DataTypeUint8 False False ANil ANil (AU8 0) '''',
     attr_row 20 ''energyCapacity'' DataTypeInt64 False False ANil ANil (AI64 0) ''mWh'']"

definition electrical_getters :: "getter list" where
  "electrical_getters = [
     getter_row ''PhaseCount'' 1 KUint8 (GOr (AU8 1)),
     getter_row ''PhaseMapping'' 2 (KNamedMap ''map[Phase]GridPhase'') GOpt,
     getter_row ''NominalVoltage'' 3 KUint16 (GOr (AU16 230)),
     getter_row ''NominalFrequency'' 4 KUint8 (GOr (AU8 50)),
     getter_row ''SupportedDirections'' 5 KUint8 (GOr (AU8 0)),
     getter_row ''NominalMaxConsumption'' 10 KInt64 (GOr (AI64 0)),
     getter_row ''NominalMaxProduction'' 11 KInt64 (GOr (AI64 0)),
     getter_row ''NominalMinPower'' 12 KInt64 (GOr (AI64 0)),
     getter_row ''MaxCurrentPerPhase'' 13 KInt64 (GOr (AI64 0)),
     getter_row ''MinCurrentPerPhase'' 14 KInt64 (GOr (AI64 0)),
     getter_row ''SupportsAsymmetric'' 15 KUint8 (GOr (AU8 0)),
     getter_row ''EnergyCapacity'' 20 KInt64 (GOr (AI64 0))]"

definition electrical_setters :: "setter list" where
  "electrical_setters = [
     setter_row ''SetPhaseCount'' 1 KUint8 SValue False False,
     setter_row ''SetPhaseMapping'' 2 (KNamedMap ''map[Phase]GridPhase'') SValue False False,
     setter_row ''SetNominalVoltage'' 3 KUint16 SValue False False,
     setter_row ''SetNominalFrequency'' 4 KUint8 SValue False False,
     setter_row ''SetSupportedDirections'' 5 KUint8 SValue False False,
     setter_row ''SetNominalMaxConsumption'' 10 KInt64 SValue False False,
     setter_row ''SetNominalMaxProduction'' 11 KInt64 SValue False False,
     setter_row ''SetNominalMinPower'' 12 KInt64 SValue False False,
     setter_row ''SetMaxCurrentPerPhase'' 13 KInt64 SValue False False,
     setter_row ''SetMinCurrentPerPhase'' 14 KInt64 SValue False False,
     setter_row ''SetSupportsAsymmetric'' 15 KUint8 SValue False False,
     setter_row ''SetEnergyCapacity'' 20 KInt64 SValue False False]"

definition electrical_table :: feature_table where
  "electrical_table = \<lparr>tb_type = 3, tb_revision = 1, tb_attributes = electrical_attributes,
     tb_getters = electrical_getters,
     tb_setters = electrical_setters,
     tb_commands = []\<rparr>"

definition measurement_attributes_1 :: "attribute_metadata list" where
  "measurement_attributes_1 = [
     attr_row 1 ''acActivePower'' DataTypeInt64 False True ANil ANil ANil ''mW'',
     attr_row 2 ''acReactivePower'' DataTypeInt64 False True ANil ANil ANil ''mVAR'',
     attr_row 3 ''acApparentPower'' DataTypeUint64 False True ANil ANil ANil ''mVA'',
     attr_row 10 ''acActivePowerPerPhase'' DataTypeMap False True ANil ANil ANil '''',
     attr_row 11 ''acReactivePowerPerPhase'' DataTypeMap False True ANil ANil ANil '''',
     attr_row 12 ''acApparentPowerPerPhase'' DataTypeMap False True ANil ANil ANil '''',
     attr_row 20 ''acCurrentPerPhase'' DataTypeMap False True ANil ANil ANil '''',
     attr_row 21 ''acVoltagePerPhase'' DataTypeMap False True ANil ANil ANil '''',
     attr_row 22 ''acVoltagePhaseToPhasePair'' DataTypeMap False True ANil ANil ANil '''',
     attr_row 23 ''acFrequency'' DataTypeUint32 False True (AU32 45000) (AU32 65000) ANil ''mHz'',
     attr_row 24 ''powerFactor'' DataTypeInt16 False True (AI16 (- 1000)) (AI16 1000) ANil '''',
     attr_row 30 ''acEnergyConsumed'' DataTypeUint64 False True ANil ANil ANil ''mWh'',
     attr_row 31 ''acEnergyProduced'' DataTypeUint64 False True ANil ANil ANil ''mWh'',
     attr_row 40 ''dcPower'' DataTypeInt64 False True ANil ANil ANil ''mW'',
     attr_row 41 ''dcCurrent'' DataTypeInt64 False True ANil ANil ANil ''mA'']"

definition measurement_attributes_2 :: "attribute_metadata list" where
  "measurement_attributes_2 = [
     attr_row 42 ''dcVoltage'' DataTypeUint32 False True ANil ANil ANil ''mV'',
     attr_row 43 ''dcEnergyIn'' DataTypeUint64 False True ANil ANil ANil ''mWh'',
     attr_row 44 ''dcEnergyOut'' DataTypeUint64 False True ANil ANil ANil ''mWh'',
     attr_row 50 ''stateOfCharge'' DataTypeUint8 False True (AU8 0) (AU8 100) ANil ''%'',
     attr_row 51 ''stateOfHealth'' DataTypeUint8 False True (AU8 0) (AU8 100) ANil ''%'',
     attr_row 52 ''stateOfEnergy'' DataTypeUint64 False True ANil ANil ANil ''mWh'',
     attr_row 53 ''useableCapacity'' DataTypeUint64 False True ANil ANil ANil ''mWh'',
     attr_row 54 ''cycleCount'' DataTypeUint32 False True ANil ANil ANil '''',
     attr_row 60 ''temperature'' DataTypeInt16 False True ANil ANil ANil ''centi-C'']"

definition measurement_getters_1 :: "getter list" where
  "measurement_getters_1 = [
     getter_row ''ACActivePower'' 1 KInt64 GOpt,
     getter_row ''ACReactivePower'' 2 KInt64 GOpt,
     getter_row ''ACApparentPower'' 3 KUint64 GOpt,
     getter_row ''ACActivePowerPerPhase'' 10 (KNamedMap ''map[Phase]int64'') GOpt,
     getter_row ''ACReactivePowerPerPhase'' 11 (KNamedMap ''map[Phase]int64'') GOpt,
     getter_row ''ACApparentPowerPerPhase'' 12 (KNamedMap ''map[Phase]uint64'') GOpt,
     getter_row ''ACCurrentPerPhase'' 20 (KNamedMap ''map[Phase]int64'') GOpt,
     getter_row ''ACVoltagePerPhase'' 21 (KNamedMap ''map[Phase]uint32'') GOpt,
     getter_row ''ACVoltagePhaseToPhasePair'' 22 (KNamedMap ''map[PhasePair]uint32'') GOpt,
     getter_row ''ACFrequency'' 23 KUint32 GOpt,
     getter_row ''PowerFactor'' 24 KInt16 GOpt,
     getter_row ''ACEnergyConsumed'' 30 KUint64 GOpt]"

definition measurement_getters_2 :: "getter list" where
  "measurement_getters_2 = [
     getter_row ''ACEnergyProduced'' 31 KUint64 GOpt,
     getter_row ''DCPower'' 40 KInt64 GOpt,
     getter_row ''DCCurrent'' 41 KInt64 GOpt,
     getter_row ''DCVoltage'' 42 KUint32 GOpt,
     getter_row ''DCEnergyIn'' 43 KUint64 GOpt,
     getter_row ''DCEnergyOut'' 44 KUint64 GOpt,
     getter_row ''StateOfCharge'' 50 KUint8 GOpt,
     getter_row ''StateOfHealth'' 51 KUint8 GOpt,
     getter_row ''StateOfEnergy'' 52 KUint64 GOpt,
     getter_row ''UseableCapacity'' 53 KUint64 GOpt,
     getter_row ''CycleCount'' 54 KUint32 GOpt,
     getter_row ''Temperature'' 60 KInt16 GOpt]"

definition measurement_setters_1 :: "setter list" where
  "measurement_setters_1 = [
     setter_row ''SetACActivePower'' 1 KInt64 SValue True True,
     setter_row ''SetACReactivePower'' 2 KInt64 SValue True True,
     setter_row ''SetACApparentPower'' 3 KUint64 SValue True True,
     setter_row ''SetACActivePowerPerPhase'' 10 (KNamedMap ''map[Phase]int64'') SValue True True,
     setter_row ''SetACReactivePowerPerPhase'' 11 (KNamedMap ''map[Phase]int64'') SValue True True]"

definition measurement_setters_2 :: "setter list" where
  "measurement_setters_2 = [
     setter_row ''SetACApparentPowerPerPhase'' 12 (KNamedMap ''map[Phase]uint64'') SValue True True,
     setter_row ''SetACCurrentPerPhase'' 20 (KNamedMap ''map[Phase]int64'') SValue True True,
     setter_row ''SetACVoltagePerPhase'' 21 (KNamedMap ''map[Phase]uint32'') SValue True True,
     setter_row ''SetACVoltagePhaseToPhasePair'' 22 (KNamedMap ''map[PhasePair]uint32'') SValue True True,
     setter_row ''SetACFrequency'' 23 KUint32 SValue True True]"

definition measurement_setters_3 :: "setter list" where
  "measurement_setters_3 = [
     setter_row ''SetPowerFactor'' 24 KInt16 SValue True True,
     setter_row ''SetACEnergyConsumed'' 30 KUint64 SValue True True,
     setter_row ''SetACEnergyProduced'' 31 KUint64 SValue True True,
     setter_row ''SetDCPower'' 40 KInt64 SValue True True,
     setter_row ''SetDCCurrent'' 41 KInt64 SValue True True]"

definition measurement_setters_4 :: "setter list" where
  "measurement_setters_4 = [
     setter_row ''SetDCVoltage'' 42 KUint32 SValue True True,
     setter_row ''SetDCEnergyIn'' 43 KUint64 SValue True True,
     setter_row ''SetDCEnergyOut'' 44 KUint64 SValue True True,
     setter_row ''SetStateOfCharge'' 50 KUint8 SValue True True,
     setter_row ''SetStateOfHealth'' 51 KUint8 SValue True True]"

definition measurement_setters_5 :: "setter list" where
  "measurement_setters_5 = [
     setter_row ''SetStateOfEnergy'' 52 KUint64 SValue True True,
     setter_row ''SetUseableCapacity'' 53 KUint64 SValue True True,
     setter_row ''SetCycleCount'' 54 KUint32 SValue True True,
     setter_row ''SetTemperature'' 60 KInt16 SValue True True]"

definition measurement_table :: feature_table where
  "measurement_table = \<lparr>tb_type = 4, tb_revision = 1, tb_attributes = measurement_attributes_1 @ measurement_attributes_2,
     tb_getters = measurement_getters_1 @ measurement_getters_2,
     tb_setters = measurement_setters_1 @ measurement_setters_2 @ measurement_setters_3 @ measurement_setters_4 @ measurement_setters_5,
     tb_commands = []\<rparr>"

definition energy_control_attributes_1 :: "attribute_metadata list" where
  "energy_control_attributes_1 = [
     attr_row 1 ''deviceType'' DataTypeUint8 False False ANil ANil (AU8 255) '''',
     attr_row 2 ''controlState'' DataTypeUint8 False False ANil ANil (AU8 0) '''',
     attr_row 3 ''optOutState'' DataTypeUint8 True False ANil ANil (AU8 0) '''',
     attr_row 10 ''acceptsLimits'' DataTypeBool False False ANil ANil (ABool False) '''',
     attr_row 11 ''acceptsCurrentLimits'' DataTypeBool False False ANil ANil (ABool False) '''',
     attr_row 12 ''acceptsSetpoints'' DataTypeBool False False ANil ANil (ABool False) '''',
     attr_row 13 ''acceptsCurrentSetpoints'' DataTypeBool False False ANil ANil (ABool False) '''',
     attr_row 14 ''isPausable'' DataTypeBool False False ANil ANil (ABool False) '''',
     attr_row 15 ''isShiftable'' DataTypeBool False False ANil ANil (ABool False) '''',
     attr_row 16 ''isStoppable'' DataTypeBool False False ANil ANil (ABool False) '''',
     attr_row 20 ''effectiveConsumptionLimit'' DataTypeInt64 False True ANil ANil ANil ''mW'',
     attr_row 21 ''myConsumptionLimit'' DataTypeInt64 True True ANil ANil ANil ''mW'',
     attr_row 22 ''effectiveProductionLimit'' DataTypeInt64 False True ANil ANil ANil ''mW'',
     attr_row 23 ''myProductionLimit'' DataTypeInt64 True True ANil ANil ANil ''mW'',
     attr_row 30 ''effectiveCurrentLimitsConsumption'' DataTypeMap False True ANil ANil ANil '''',
     attr_row 31 ''myCurrentLimitsConsumption'' DataTypeMap False True ANil ANil ANil '''']"

definition energy_control_attributes_2 :: "attribute_metadata list" where
  "energy_control_attributes_2 = [
     attr_row 32 ''effectiveCurrentLimitsProduction'' DataTypeMap False True ANil ANil ANil '''',
     attr_row 33 ''myCurrentLimitsProduction'' DataTypeMap False True ANil ANil ANil '''',
     attr_row 40 ''effectiveConsumptionSetpoint'' DataTypeInt64 False True ANil ANil ANil ''mW'',
     attr_row 41 ''myConsumptionSetpoint'' DataTypeInt64 True True ANil ANil ANil ''mW'',
     attr_row 42 ''effectiveProductionSetpoint'' DataTypeInt64 False True ANil ANil ANil ''mW'',
     attr_row 43 ''myProductionSetpoint'' DataTypeInt64 True True ANil ANil ANil ''mW'',
     attr_row 50 ''effectiveCurrentSetpointsConsumption'' DataTypeMap False True ANil ANil ANil '''',
     attr_row 51 ''myCurrentSetpointsConsumption'' DataTypeMap False True ANil ANil ANil '''',
     attr_row 52 ''effectiveCurrentSetpointsProduction'' DataTypeMap False True ANil ANil ANil '''',
     attr_row 53 ''myCurrentSetpointsProduction'' DataTypeMap False True ANil ANil ANil '''',
     attr_row 70 ''failsafeConsumptionLimit'' DataTypeInt64 True True ANil ANil ANil ''mW'',
     attr_row 71 ''failsafeProductionLimit'' DataTypeInt64 True True ANil ANil ANil ''mW'',
     attr_row 72 ''failsafeDuration'' DataTypeUint32 True False (AU32 7200) (AU32 86400) (AU32 7200) ''s'',
     attr_row 73 ''contractualConsumptionMax'' DataTypeInt64 False True ANil ANil ANil ''mW'',
     attr_row 74 ''contractualProductionMax'' DataTypeInt64 False True ANil ANil ANil ''mW'']"

definition energy_control_attributes_3 :: "attribute_metadata list" where
  "energy_control_attributes_3 = [
     attr_row 75 ''overrideReason'' DataTypeUint8 False True ANil ANil ANil '''',
     attr_row 76 ''overrideDirection'' DataTypeUint8 False True ANil ANil ANil '''',
     attr_row 80 ''processState'' DataTypeUint8 False False ANil ANil (AU8 0) '''',
     attr_row 81 ''optionalProcess'' DataTypeBool False False ANil ANil (ABool False) '''',
     attr_row 82 ''minRunDuration'' DataTypeUint32 False True ANil ANil ANil ''s'',
     attr_row 83 ''minPauseDuration'' DataTypeUint32 False True ANil ANil ANil ''s'',
     attr_row 84 ''maxRunDuration'' DataTypeUint32 False True ANil ANil ANil ''s'',
     attr_row 85 ''maxPauseDuration'' DataTypeUint32 False True ANil ANil ANil ''s'',
     attr_row 86 ''optionalProcessPower'' DataTypeInt64 False True ANil ANil ANil ''mW'',
     attr_row 87 ''controlMode'' DataTypeUint8 True True ANil ANil ANil '''']"

definition energy_control_getters_1 :: "getter list" where
  "energy_control_getters_1 = [
     getter_row ''DeviceType'' 1 KUint8 (GOr (AU8 255)),
     getter_row ''ControlState'' 2 KUint8 (GOr (AU8 0)),
     getter_row ''OptOutState'' 3 KUint8 (GOr (AU8 0)),
     getter_row ''AcceptsLimits'' 10 KBool (GOr (ABool False)),
     getter_row ''AcceptsCurrentLimits'' 11 KBool (GOr (ABool False)),
     getter_row ''AcceptsSetpoints'' 12 KBool (GOr (ABool False)),
     getter_row ''AcceptsCurrentSetpoints'' 13 KBool (GOr (ABool False)),
     getter_row ''IsPausable'' 14 KBool (GOr (ABool False)),
     getter_row ''IsShiftable'' 15 KBool (GOr (ABool False)),
     getter_row ''IsStoppable'' 16 KBool (GOr (ABool False)),
     getter_row ''EffectiveConsumptionLimit'' 20 KInt64 GOpt,
     getter_row ''MyConsumptionLimit'' 21 KInt64 GOpt,
     getter_row ''EffectiveProductionLimit'' 22 KInt64 GOpt,
     getter_row ''MyProductionLimit'' 23 KInt64 GOpt,
     getter_row ''EffectiveCurrentLimitsConsumption'' 30 (KNamedMap ''map[Phase]int64'') GOpt]"

definition energy_control_getters_2 :: "getter list" where
  "energy_control_getters_2 = [
     getter_row ''MyCurrentLimitsConsumption'' 31 (KNamedMap ''map[Phase]int64'') GOpt,
     getter_row ''EffectiveCurrentLimitsProduction'' 32 (KNamedMap ''map[Phase]int64'') GOpt,
     getter_row ''MyCurrentLimitsProduction'' 33 (KNamedMap ''map[Phase]int64'') GOpt,
     getter_row ''EffectiveConsumptionSetpoint'' 40 KInt64 GOpt,
     getter_row ''MyConsumptionSetpoint'' 41 KInt64 GOpt,
     getter_row ''EffectiveProductionSetpoint'' 42 KInt64 GOpt,
     getter_row ''MyProductionSetpoint'' 43 KInt64 GOpt,
     getter_row ''EffectiveCurrentSetpointsConsumption'' 50 (KNamedMap ''map[Phase]int64'') GOpt,
     getter_row ''MyCurrentSetpointsConsumption'' 51 (KNamedMap ''map[Phase]int64'') GOpt,
     getter_row ''EffectiveCurrentSetpointsProduction'' 52 (KNamedMap ''map[Phase]int64'') GOpt,
     getter_row ''MyCurrentSetpointsProduction'' 53 (KNamedMap ''map[Phase]int64'') GOpt,
     getter_row ''FailsafeConsumptionLimit'' 70 KInt64 GOpt]"

definition energy_control_getters_3 :: "getter list" where
  "energy_control_getters_3 = [
     getter_row ''FailsafeProductionLimit'' 71 KInt64 GOpt,
     getter_row ''FailsafeDuration'' 72 KUint32 (GOr (AU32 7200)),
     getter_row ''ContractualConsumptionMax'' 73 KInt64 GOpt,
     getter_row ''ContractualProductionMax'' 74 KInt64 GOpt,
     getter_row ''OverrideReason'' 75 KUint8 GOpt,
     getter_row ''OverrideDirection'' 76 KUint8 GOpt,
     getter_row ''ProcessState'' 80 KUint8 (GOr (AU8 0)),
     getter_row ''OptionalProcess'' 81 KBool (GOr (ABool False)),
     getter_row ''MinRunDuration'' 82 KUint32 GOpt,
     getter_row ''MinPauseDuration'' 83 KUint32 GOpt,
     getter_row ''MaxRunDuration'' 84 KUint32 GOpt,
     getter_row ''MaxPauseDuration'' 85 KUint32 GOpt,
     getter_row ''OptionalProcessPower'' 86 KInt64 GOpt]"

definition energy_control_getters_4 :: "getter list" where
  "energy_control_getters_4 = [
     getter_row ''ControlMode'' 87 KUint8 GOpt]"

definition energy_control_setters_1 :: "setter list" where
  "energy_control_setters_1 = [
     setter_row ''SetDeviceType'' 1 KUint8 SValue False False,
     setter_row ''SetControlState'' 2 KUint8 SValue False False,
     setter_row ''SetOptOutState'' 3 KUint8 SValue False False,
     setter_row ''SetAcceptsLimits'' 10 KBool SValue False False,
     setter_row ''SetAcceptsCurrentLimits'' 11 KBool SValue False False,
     setter_row ''SetAcceptsSetpoints'' 12 KBool SValue False False,
     setter_row ''SetAcceptsCurrentSetpoints'' 13 KBool SValue False False,
     setter_row ''SetIsPausable'' 14 KBool SValue False False,
     setter_row ''SetIsShiftable'' 15 KBool SValue False False,
     setter_row ''SetIsStoppable'' 16 KBool SValue False False,
     setter_row ''SetEffectiveConsumptionLimit'' 20 KInt64 SValue True True,
     setter_row ''SetMyConsumptionLimit'' 21 KInt64 SValue True True]"

definition energy_control_setters_2 :: "setter list" where
  "energy_control_setters_2 = [
     setter_row ''SetEffectiveProductionLimit'' 22 KInt64 SValue True True,
     setter_row ''SetMyProductionLimit'' 23 KInt64 SValue True True,
     setter_row ''SetEffectiveCurrentLimitsConsumption'' 30 (KNamedMap ''map[Phase]int64'') SValue True True,
     setter_row ''SetMyCurrentLimitsConsumption'' 31 (KNamedMap ''map[Phase]int64'') SValue True True,
     setter_row ''SetEffectiveCurrentLimitsProduction'' 32 (KNamedMap ''map[Phase]int64'') SValue True True]"

definition energy_control_setters_3 :: "setter list" where
  "energy_control_setters_3 = [
     setter_row ''SetMyCurrentLimitsProduction'' 33 (KNamedMap ''map[Phase]int64'') SValue True True,
     setter_row ''SetEffectiveConsumptionSetpoint'' 40 KInt64 SValue True True,
     setter_row ''SetMyConsumptionSetpoint'' 41 KInt64 SValue True True,
     setter_row ''SetEffectiveProductionSetpoint'' 42 KInt64 SValue True True,
     setter_row ''SetMyProductionSetpoint'' 43 KInt64 SValue True True]"

definition energy_control_setters_4 :: "setter list" where
  "energy_control_setters_4 = [
     setter_row ''SetEffectiveCurrentSetpointsConsumption'' 50 (KNamedMap ''map[Phase]int64'') SValue True True,
     setter_row ''SetMyCurrentSetpointsConsumption'' 51 (KNamedMap ''map[Phase]int64'') SValue True True,
     setter_row ''SetEffectiveCurrentSetpointsProduction'' 52 (KNamedMap ''map[Phase]int64'') SValue True True,
     setter_row ''SetMyCurrentSetpointsProduction'' 53 (KNamedMap ''map[Phase]int64'') SValue True True,
     setter_row ''SetFailsafeConsumptionLimit'' 70 KInt64 SValue True True]"

definition energy_control_setters_5 :: "setter list" where
  "energy_control_setters_5 = [
     setter_row ''SetFailsafeProductionLimit'' 71 KInt64 SValue True True,
     setter_row ''SetFailsafeDuration'' 72 KUint32 SValue False False,
     setter_row ''SetContractualConsumptionMax'' 73 KInt64 SValue True True,
     setter_row ''SetContractualProductionMax'' 74 KInt64 SValue True True,
     setter_row ''SetOverrideReason'' 75 KUint8 SValue True True,
     setter_row ''SetOverrideDirection'' 76 KUint8 SValue True True,
     setter_row ''SetProcessState'' 80 KUint8 SValue False False]"

definition energy_control_setters_6 :: "setter list" where
  "energy_control_setters_6 = [
     setter_row ''SetOptionalProcess'' 81 KBool SValue False False,
     setter_row ''SetMinRunDuration'' 82 KUint32 SValue True True,
     setter_row ''SetMinPauseDuration'' 83 KUint32 SValue True True,
     setter_row ''SetMaxRunDuration'' 84 KUint32 SValue True True,
     setter_row ''SetMaxPauseDuration'' 85 KUint32 SValue True True,
     setter_row ''SetOptionalProcessPower'' 86 KInt64 SValue True True]"

definition energy_control_setters_7 :: "setter list" where
  "energy_control_setters_7 = [
     setter_row ''SetControlMode'' 87 KUint8 SValue True True]"

definition energy_control_commands_1 :: "generated_command list" where
  "energy_control_commands_1 = [
     command_row 1 ''setLimit'' [(''consumptionLimit'', DataTypeInt64, False), (''productionLimit'', DataTypeInt64, False), (''duration'', DataTypeUint32, False), (''cause'', DataTypeUint8, True)] [(''consumptionLimit'', CvInt64, True), (''productionLimit'', CvInt64, True), (''duration'', CvUint32, True), (''cause'', CvUint8, False)] ''applied'' [(''applied'', KBool, False), (''controlState'', KUint8, False), (''effectiveConsumptionLimit'', KInt64, True), (''effectiveProductionLimit'', KInt64, True), (''rejectReason'', KUint8, True)],
     command_row 2 ''clearLimit'' [(''direction'', DataTypeUint8, False)] [(''direction'', CvUint8, True)] ''success'' [],
     command_row 3 ''setCurrentLimits'' [(''phases'', DataTypeMap, True), (''direction'', DataTypeUint8, True), (''duration'', DataTypeUint32, False), (''cause'', DataTypeUint8, True)] [(''phases'', (CvAs KStringMap), False), (''direction'', CvUint8, False), (''duration'', CvUint32, True), (''cause'', CvUint8, False)] ''success'' [],
     command_row 4 ''clearCurrentLimits'' [(''direction'', DataTypeUint8, False)] [(''direction'', CvUint8, True)] ''success'' [],
     command_row 5 ''setSetpoint'' [(''consumptionSetpoint'', DataTypeInt64, False), (''productionSetpoint'', DataTypeInt64, False), (''duration'', DataTypeUint32, False), (''cause'', DataTypeUint8, True)] [(''consumptionSetpoint'', CvInt64, True), (''productionSetpoint'', CvInt64, True), (''duration'', CvUint32, True), (''cause'', CvUint8, False)] ''success'' []]"

definition energy_control_commands_2 :: "generated_command list" where
  "energy_control_commands_2 = [
     command_row 6 ''clearSetpoint'' [(''direction'', DataTypeUint8, False)] [(''direction'', CvUint8, True)] ''success'' [],
     command_row 7 ''setCurrentSetpoints'' [(''phases'', DataTypeMap, True), (''direction'', DataTypeUint8, True), (''duration'', DataTypeUint32, False), (''cause'', DataTypeUint8, True)] [(''phases'', (CvAs KStringMap), False), (''direction'', CvUint8, False), (''duration'', CvUint32, True), (''cause'', CvUint8, False)] ''success'' [],
     command_row 8 ''clearCurrentSetpoints'' [(''direction'', DataTypeUint8, False)] [(''direction'', CvUint8, True)] ''success'' [],
     command_row 9 ''pause'' [(''duration'', DataTypeUint32, False)] [(''duration'', CvUint32, True)] ''success'' [],
     command_row 10 ''resume'' [] [] ''success'' [],
     command_row 11 ''stop'' [] [] ''success'' []]"

definition energy_control_table :: feature_table where
  "energy_control_table = \<lparr>tb_type = 5, tb_revision = 1, tb_attributes = energy_control_attributes_1 @ energy_control_attributes_2 @ energy_control_attributes_3,
     tb_getters = energy_control_getters_1 @ energy_control_getters_2 @ energy_control_getters_3 @ energy_control_getters_4,
     tb_setters = energy_control_setters_1 @ energy_control_setters_2 @ energy_control_setters_3 @ energy_control_setters_4 @ energy_control_setters_5 @ energy_control_setters_6 @ energy_control_setters_7,
     tb_commands = energy_control_commands_1 @ energy_control_commands_2\<rparr>"

definition charging_session_attributes_1 :: "attribute_metadata list" where
  "charging_session_attributes_1 = [
     attr_row 1 ''state'' DataTypeUint8 False False ANil ANil (AU8 0) '''',
     attr_row 3 ''sessionStartTime'' DataTypeUint64 False True ANil ANil ANil '''',
     attr_row 4 ''sessionEndTime'' DataTypeUint64 False True ANil ANil ANil '''',
     attr_row 10 ''sessionEnergyCharged'' DataTypeUint64 False False ANil ANil (AU64 0) ''mWh'',
     attr_row 11 ''sessionEnergyDischarged'' DataTypeUint64 False False ANil ANil (AU64 0) ''mWh'',
     attr_row 20 ''evIdentifications'' DataTypeArray False True ANil ANil ANil '''',
     attr_row 30 ''evStateOfCharge'' DataTypeUint8 False True (AU8 0) (AU8 100) ANil ''%'',
     attr_row 31 ''evBatteryCapacity'' DataTypeUint64 False True ANil ANil ANil ''mWh'',
     attr_row 32 ''evMinStateOfCharge'' DataTypeUint8 False True (AU8 0) (AU8 100) ANil ''%'',
     attr_row 33 ''evTargetStateOfCharge'' DataTypeUint8 False True (AU8 0) (AU8 100) ANil ''%'',
     attr_row 40 ''evDemandMode'' DataTypeUint8 False False ANil ANil (AU8 0) '''',
     attr_row 41 ''evMinEnergyRequest'' DataTypeInt64 False True ANil ANil ANil ''mWh'',
     attr_row 42 ''evMaxEnergyRequest'' DataTypeInt64 False True ANil ANil ANil ''mWh'',
     attr_row 43 ''evTargetEnergyRequest'' DataTypeInt64 False True ANil ANil ANil ''mWh'',
     attr_row 44 ''evDepartureTime'' DataTypeUint64 False True ANil ANil ANil '''']"

definition charging_session_attributes_2 :: "attribute_metadata list" where
  "charging_session_attributes_2 = [
     attr_row 50 ''evMinDischargingRequest'' DataTypeInt64 False True ANil ANil ANil ''mWh'',
     attr_row 51 ''evMaxDischargingRequest'' DataTypeInt64 False True ANil ANil ANil ''mWh'',
     attr_row 52 ''evDischargeBelowTargetPermitted'' DataTypeBool False True ANil ANil ANil '''',
     attr_row 60 ''estimatedTimeToMinSoC'' DataTypeUint32 False True ANil ANil ANil ''s'',
     attr_row 61 ''estimatedTimeToTargetSoC'' DataTypeUint32 False True ANil ANil ANil ''s'',
     attr_row 62 ''estimatedTimeToFullSoC'' DataTypeUint32 False True ANil ANil ANil ''s'',
     attr_row 70 ''chargingMode'' DataTypeUint8 False False ANil ANil (AU8 0) '''',
     attr_row 71 ''supportedChargingModes'' DataTypeArray False False ANil ANil ANil '''',
     attr_row 72 ''surplusThreshold'' DataTypeInt64 False True ANil ANil ANil ''mW'',
     attr_row 80 ''startDelay'' DataTypeUint32 False False ANil ANil (AU32 0) ''s'',
     attr_row 81 ''stopDelay'' DataTypeUint32 False False ANil ANil (AU32 0) ''s'']"

definition charging_session_getters_1 :: "getter list" where
  "charging_session_getters_1 = [
     getter_row ''State'' 1 KUint8 (GOr (AU8 0)),
     getter_row ''SessionStartTime'' 3 KUint64 GOpt,
     getter_row ''SessionEndTime'' 4 KUint64 GOpt,
     getter_row ''SessionEnergyCharged'' 10 KUint64 (GOr (AU64 0)),
     getter_row ''SessionEnergyDischarged'' 11 KUint64 (GOr (AU64 0)),
     getter_row ''EVIdentifications'' 20 KSlice (GStructs [(''type'', KUint8), (''value'', KString)]),
     getter_row ''EVStateOfCharge'' 30 KUint8 GOpt,
     getter_row ''EVBatteryCapacity'' 31 KUint64 GOpt,
     getter_row ''EVMinStateOfCharge'' 32 KUint8 GOpt,
     getter_row ''EVTargetStateOfCharge'' 33 KUint8 GOpt,
     getter_row ''EVDemandMode'' 40 KUint8 (GOr (AU8 0))]"

definition charging_session_getters_2 :: "getter list" where
  "charging_session_getters_2 = [
     getter_row ''EVMinEnergyRequest'' 41 KInt64 GOpt,
     getter_row ''EVMaxEnergyRequest'' 42 KInt64 GOpt,
     getter_row ''EVTargetEnergyRequest'' 43 KInt64 GOpt,
     getter_row ''EVDepartureTime'' 44 KUint64 GOpt,
     getter_row ''EVMinDischargingRequest'' 50 KInt64 GOpt,
     getter_row ''EVMaxDischargingRequest'' 51 KInt64 GOpt,
     getter_row ''EVDischargeBelowTargetPermitted'' 52 KBool GOpt,
     getter_row ''EstimatedTimeToMinSoC'' 60 KUint32 GOpt,
     getter_row ''EstimatedTimeToTargetSoC'' 61 KUint32 GOpt,
     getter_row ''EstimatedTimeToFullSoC'' 62 KUint32 GOpt,
     getter_row ''ChargingMode'' 70 KUint8 (GOr (AU8 0)),
     getter_row ''SupportedChargingModes'' 71 KSlice (GItems KUint8)]"

definition charging_session_getters_3 :: "getter list" where
  "charging_session_getters_3 = [
     getter_row ''SurplusThreshold'' 72 KInt64 GOpt,
     getter_row ''StartDelay'' 80 KUint32 (GOr (AU32 0)),
     getter_row ''StopDelay'' 81 KUint32 (GOr (AU32 0))]"

definition charging_session_setters_1 :: "setter list" where
  "charging_session_setters_1 = [
     setter_row ''SetState'' 1 KUint8 SValue False False,
     setter_row ''SetSessionStartTime'' 3 KUint64 SValue True True,
     setter_row ''SetSessionEndTime'' 4 KUint64 SValue True True,
     setter_row ''SetSessionEnergyCharged'' 10 KUint64 SValue False False,
     setter_row ''SetSessionEnergyDischarged'' 11 KUint64 SValue False False,
     setter_row ''SetEVIdentifications'' 20 KSlice (SStructs [(''type'', KUint8), (''value'', KString)]) True False,
     setter_row ''SetEVStateOfCharge'' 30 KUint8 SValue True True]"

definition charging_session_setters_2 :: "setter list" where
  "charging_session_setters_2 = [
     setter_row ''SetEVBatteryCapacity'' 31 KUint64 SValue True True,
     setter_row ''SetEVMinStateOfCharge'' 32 KUint8 SValue True True,
     setter_row ''SetEVTargetStateOfCharge'' 33 KUint8 SValue True True,
     setter_row ''SetEVDemandMode'' 40 KUint8 SValue False False,
     setter_row ''SetEVMinEnergyRequest'' 41 KInt64 SValue True True,
     setter_row ''SetEVMaxEnergyRequest'' 42 KInt64 SValue True True]"

definition charging_session_setters_3 :: "setter list" where
  "charging_session_setters_3 = [
     setter_row ''SetEVTargetEnergyRequest'' 43 KInt64 SValue True True,
     setter_row ''SetEVDepartureTime'' 44 KUint64 SValue True True,
     setter_row ''SetEVMinDischargingRequest'' 50 KInt64 SValue True True,
     setter_row ''SetEVMaxDischargingRequest'' 51 KInt64 SValue True True,
     setter_row ''SetEVDischargeBelowTargetPermitted'' 52 KBool SValue True True]"

definition charging_session_setters_4 :: "setter list" where
  "charging_session_setters_4 = [
     setter_row ''SetEstimatedTimeToMinSoC'' 60 KUint32 SValue True True,
     setter_row ''SetEstimatedTimeToTargetSoC'' 61 KUint32 SValue True True,
     setter_row ''SetEstimatedTimeToFullSoC'' 62 KUint32 SValue True True,
     setter_row ''SetChargingMode'' 70 KUint8 SValue False False,
     setter_row ''SetSupportedChargingModes'' 71 KUint8 SBytes False False,
     setter_row ''SetSurplusThreshold'' 72 KInt64 SValue True True,
     setter_row ''SetStartDelay'' 80 KUint32 SValue False False,
     setter_row ''SetStopDelay'' 81 KUint32 SValue False False]"

definition charging_session_commands :: "generated_command list" where
  "charging_session_commands = [
     command_row 1 ''setChargingMode'' [(''mode'', DataTypeUint8, True), (''surplusThreshold'', DataTypeInt64, False), (''startDelay'', DataTypeUint32, False), (''stopDelay'', DataTypeUint32, False)] [(''mode'', CvUint8, False), (''surplusThreshold'', CvInt64, True), (''startDelay'', CvUint32, True), (''stopDelay'', CvUint32, True)] ''success'' []]"

definition charging_session_table :: feature_table where
  "charging_session_table = \<lparr>tb_type = 6, tb_revision = 1, tb_attributes = charging_session_attributes_1 @ charging_session_attributes_2,
     tb_getters = charging_session_getters_1 @ charging_session_getters_2 @ charging_session_getters_3,
     tb_setters = charging_session_setters_1 @ charging_session_setters_2 @ charging_session_setters_3 @ charging_session_setters_4,
     tb_commands = charging_session_commands\<rparr>"

definition tariff_attributes :: "attribute_metadata list" where
  "tariff_attributes = [
     attr_row 1 ''tariffId'' DataTypeUint32 False False ANil ANil (AU32 0) '''',
     attr_row 2 ''currency'' DataTypeString False False ANil ANil ANil '''',
     attr_row 3 ''priceUnit'' DataTypeUint8 False False ANil ANil (AU8 0) '''',
     attr_row 4 ''tariffDescription'' DataTypeString False True ANil ANil ANil '''']"

definition tariff_getters :: "getter list" where
  "tariff_getters = [
     getter_row ''TariffID'' 1 KUint32 (GOr (AU32 0)),
     getter_row ''Currency'' 2 KString (GOr (AString '''')),
     getter_row ''PriceUnit'' 3 KUint8 (GOr (AU8 0)),
     getter_row ''TariffDescription'' 4 KString GOpt]"

definition tariff_setters :: "setter list" where
  "tariff_setters = [
     setter_row ''SetTariffID'' 1 KUint32 SValue False False,
     setter_row ''SetCurrency'' 2 KString SValue False False,
     setter_row ''SetPriceUnit'' 3 KUint8 SValue False False,
     setter_row ''SetTariffDescription'' 4 KString SValue True True]"

definition tariff_commands :: "generated_command list" where
  "tariff_commands = [
     command_row 1 ''setTariff'' [(''tariffId'', DataTypeUint32, True), (''currency'', DataTypeString, True), (''priceUnit'', DataTypeUint8, False), (''description'', DataTypeString, False)] [(''tariffId'', CvUint32, False), (''currency'', (CvAs KString), False), (''priceUnit'', CvUint8, True), (''description'', (CvAs KString), True)] ''success'' []]"

definition tariff_table :: feature_table where
  "tariff_table = \<lparr>tb_type = 7, tb_revision = 1, tb_attributes = tariff_attributes,
     tb_getters = tariff_getters,
     tb_setters = tariff_setters,
     tb_commands = tariff_commands\<rparr>"

definition signals_attributes :: "attribute_metadata list" where
  "signals_attributes = [
     attr_row 1 ''signalSource'' DataTypeUint8 False True ANil ANil ANil '''',
     attr_row 2 ''startTime'' DataTypeUint64 False True ANil ANil ANil '''',
     attr_row 3 ''validUntil'' DataTypeUint64 False True ANil ANil ANil '''',
     attr_row 10 ''priceSlots'' DataTypeArray False True ANil ANil ANil '''',
     attr_row 20 ''constraintSlots'' DataTypeArray False True ANil ANil ANil '''',
     attr_row 30 ''forecastSlots'' DataTypeArray False True ANil ANil ANil '''']"

definition signals_getters_1 :: "getter list" where
  "signals_getters_1 = [
     getter_row ''SignalSource'' 1 KUint8 GOpt,
     getter_row ''StartTime'' 2 KUint64 GOpt,
     getter_row ''ValidUntil'' 3 KUint64 GOpt,
     getter_row ''PriceSlots'' 10 KSlice (GStructs [(''duration'', KUint32), (''price'', KInt32), (''priceLevel'', KUint8), (''renewablePercent'', KUint8), (''co2Intensity'', KUint16)]),
     getter_row ''ConstraintSlots'' 20 KSlice (GStructs [(''duration'', KUint32), (''consumptionMax'', KInt64), (''consumptionMin'', KInt64), (''productionMax'', KInt64), (''productionMin'', KInt64)])]"

definition signals_getters_2 :: "getter list" where
  "signals_getters_2 = [
     getter_row ''ForecastSlots'' 30 KSlice (GStructs [(''duration'', KUint32), (''forecastPower'', KInt64), (''forecastEnergy'', KInt64)])]"

definition signals_setters_1 :: "setter list" where
  "signals_setters_1 = [
     setter_row ''SetSignalSource'' 1 KUint8 SValue True True,
     setter_row ''SetStartTime'' 2 KUint64 SValue True True,
     setter_row ''SetValidUntil'' 3 KUint64 SValue True True,
     setter_row ''SetPriceSlots'' 10 KSlice (SStructs [(''duration'', KUint32), (''price'', KInt32), (''priceLevel'', KUint8), (''renewablePercent'', KUint8), (''co2Intensity'', KUint16)]) True False,
     setter_row ''SetConstraintSlots'' 20 KSlice (SStructs [(''duration'', KUint32), (''consumptionMax'', KInt64), (''consumptionMin'', KInt64), (''productionMax'', KInt64), (''productionMin'', KInt64)]) True False]"

definition signals_setters_2 :: "setter list" where
  "signals_setters_2 = [
     setter_row ''SetForecastSlots'' 30 KSlice (SStructs [(''duration'', KUint32), (''forecastPower'', KInt64), (''forecastEnergy'', KInt64)]) True False]"

definition signals_commands :: "generated_command list" where
  "signals_commands = [
     command_row 1 ''sendPriceSignal'' [(''source'', DataTypeUint8, True), (''startTime'', DataTypeUint64, True), (''validUntil'', DataTypeUint64, False), (''slots'', DataTypeArray, True)] [(''source'', CvUint8, False), (''startTime'', (CvAs KUint64), False), (''validUntil'', (CvAs KUint64), True), (''slots'', (CvAs KSlice), False)] ''success'' [],
     command_row 2 ''sendConstraintSignal'' [(''source'', DataTypeUint8, True), (''startTime'', DataTypeUint64, True), (''validUntil'', DataTypeUint64, False), (''slots'', DataTypeArray, True)] [(''source'', CvUint8, False), (''startTime'', (CvAs KUint64), False), (''validUntil'', (CvAs KUint64), True), (''slots'', (CvAs KSlice), False)] ''success'' [],
     command_row 3 ''sendForecastSignal'' [(''source'', DataTypeUint8, True), (''startTime'', DataTypeUint64, True), (''validUntil'', DataTypeUint64, False), (''slots'', DataTypeArray, True)] [(''source'', CvUint8, False), (''startTime'', (CvAs KUint64), False), (''validUntil'', (CvAs KUint64), True), (''slots'', (CvAs KSlice), False)] ''success'' [],
     command_row 4 ''clearSignals'' [(''signalType'', DataTypeString, False)] [(''signalType'', (CvAs KString), True)] ''success'' [(''cleared'', KUint8, False)]]"

definition signals_table :: feature_table where
  "signals_table = \<lparr>tb_type = 8, tb_revision = 1, tb_attributes = signals_attributes,
     tb_getters = signals_getters_1 @ signals_getters_2,
     tb_setters = signals_setters_1 @ signals_setters_2,
     tb_commands = signals_commands\<rparr>"

definition plan_attributes :: "attribute_metadata list" where
  "plan_attributes = [
     attr_row 1 ''planId'' DataTypeUint32 False False ANil ANil (AU32 0) '''',
     attr_row 2 ''planVersion'' DataTypeUint32 False False ANil ANil (AU32 0) '''',
     attr_row 3 ''commitment'' DataTypeUint8 False False ANil ANil (AU8 0) '''',
     attr_row 10 ''startTime'' DataTypeUint64 False True ANil ANil ANil '''',
     attr_row 11 ''endTime'' DataTypeUint64 False True ANil ANil ANil '''',
     attr_row 20 ''totalEnergyPlanned'' DataTypeInt64 False True ANil ANil ANil ''mWh'',
     attr_row 40 ''slots'' DataTypeArray False True ANil ANil ANil '''']"

definition plan_getters :: "getter list" where
  "plan_getters = [
     getter_row ''PlanID'' 1 KUint32 (GOr (AU32 0)),
     getter_row ''PlanVersion'' 2 KUint32 (GOr (AU32 0)),
     getter_row ''Commitment'' 3 KUint8 (GOr (AU8 0)),
     getter_row ''StartTime'' 10 KUint64 GOpt,
     getter_row ''EndTime'' 11 KUint64 GOpt,
     getter_row ''TotalEnergyPlanned'' 20 KInt64 GOpt,
     getter_row ''Slots'' 40 KSlice (GStructs [(''duration'', KUint32), (''plannedPower'', KInt64), (''minPower'', KInt64), (''maxPower'', KInt64)])]"

definition plan_setters :: "setter list" where
  "plan_setters = [
     setter_row ''SetPlanID'' 1 KUint32 SValue False False,
     setter_row ''SetPlanVersion'' 2 KUint32 SValue False False,
     setter_row ''SetCommitment'' 3 KUint8 SValue False False,
     setter_row ''SetStartTime'' 10 KUint64 SValue True True,
     setter_row ''SetEndTime'' 11 KUint64 SValue True True,
     setter_row ''SetTotalEnergyPlanned'' 20 KInt64 SValue True True,
     setter_row ''SetSlots'' 40 KSlice (SStructs [(''duration'', KUint32), (''plannedPower'', KInt64), (''minPower'', KInt64), (''maxPower'', KInt64)]) True False]"

definition plan_commands :: "generated_command list" where
  "plan_commands = [
     command_row 1 ''requestPlan'' [(''startTime'', DataTypeUint64, False), (''duration'', DataTypeUint32, False)] [(''startTime'', (CvAs KUint64), True), (''duration'', CvUint32, True)] ''success'' [(''planId'', KUint32, False)],
     command_row 2 ''acceptPlan'' [(''planId'', DataTypeUint32, True), (''planVersion'', DataTypeUint32, True)] [(''planId'', CvUint32, False), (''planVersion'', CvUint32, False)] ''success'' [(''newCommitment'', KUint8, False)]]"

definition plan_table :: feature_table where
  "plan_table = \<lparr>tb_type = 9, tb_revision = 1, tb_attributes = plan_attributes,
     tb_getters = plan_getters,
     tb_setters = plan_setters,
     tb_commands = plan_commands\<rparr>"

definition test_control_attributes :: "attribute_metadata list" where
  "test_control_attributes = [
     attr_row 1 ''testEventTriggersEnabled'' DataTypeBool False False ANil ANil (ABool False) '''']"

definition test_control_getters :: "getter list" where
  "test_control_getters = [
     getter_row ''TestEventTriggersEnabled'' 1 KBool (GOr (ABool False))]"

definition test_control_setters :: "setter list" where
  "test_control_setters = [
     setter_row ''SetTestEventTriggersEnabled'' 1 KBool SValue False False]"

definition test_control_commands :: "generated_command list" where
  "test_control_commands = [
     command_row 1 ''triggerTestEvent'' [(''enableKey'', DataTypeString, True), (''eventTrigger'', DataTypeUint64, True)] [(''enableKey'', (CvAs KString), False), (''eventTrigger'', (CvAs KUint64), False)] ''success'' [],
     command_row 2 ''setCommissioningWindowDuration'' [(''enableKey'', DataTypeString, True), (''durationSeconds'', DataTypeUint32, True)] [(''enableKey'', (CvAs KString), False), (''durationSeconds'', CvUint32, False)] ''success'' []]"

definition test_control_table :: feature_table where
  "test_control_table = \<lparr>tb_type = 10, tb_revision = 1, tb_attributes = test_control_attributes,
     tb_getters = test_control_getters,
     tb_setters = test_control_setters,
     tb_commands = test_control_commands\<rparr>"

definition all_tables :: "feature_table list" where
  "all_tables = [device_info_table, status_table, electrical_table, measurement_table, energy_control_table, charging_session_table, tariff_table, signals_table, plan_table, test_control_table]"

lemmas feature_table_defs = device_info_attributes_def device_info_getters_def device_info_setters_1_def device_info_setters_2_def device_info_commands_def device_info_table_def status_attributes_def status_getters_def status_setters_def status_table_def electrical_attributes_def electrical_getters_def electrical_setters_def electrical_table_def measurement_attributes_1_def measurement_attributes_2_def measurement_getters_1_def measurement_getters_2_def measurement_setters_1_def measurement_setters_2_def measurement_setters_3_def measurement_setters_4_def measurement_setters_5_def measurement_table_def energy_control_attributes_1_def energy_control_attributes_2_def energy_control_attributes_3_def energy_control_getters_1_def energy_control_getters_2_def energy_control_getters_3_def energy_control_getters_4_def energy_control_setters_1_def energy_control_setters_2_def energy_control_setters_3_def energy_control_setters_4_def energy_control_setters_5_def energy_control_setters_6_def energy_control_setters_7_def energy_control_commands_1_def energy_control_commands_2_def energy_control_table_def charging_session_attributes_1_def charging_session_attributes_2_def charging_session_getters_1_def charging_session_getters_2_def charging_session_getters_3_def charging_session_setters_1_def charging_session_setters_2_def charging_session_setters_3_def charging_session_setters_4_def charging_session_commands_def charging_session_table_def tariff_attributes_def tariff_getters_def tariff_setters_def tariff_commands_def tariff_table_def signals_attributes_def signals_getters_1_def signals_getters_2_def signals_setters_1_def signals_setters_2_def signals_commands_def signals_table_def plan_attributes_def plan_getters_def plan_setters_def plan_commands_def plan_table_def test_control_attributes_def test_control_getters_def test_control_setters_def test_control_commands_def test_control_table_def all_tables_def

text \<open>The enumerations with their values and names; \<open>String\<close> is \<open>enum_string\<close> of a table.\<close>

definition enum_string :: "(u8 \<times> string) list \<Rightarrow> u8 \<Rightarrow> string" where
  "enum_string names v = (case gm_get names v of None \<Rightarrow> ''UNKNOWN'' | Some n \<Rightarrow> n)"

definition Phase_names :: "(u8 \<times> string) list" where
  "Phase_names = [(0, ''A''), (1, ''B''), (2, ''C'')]"

definition GridPhase_names :: "(u8 \<times> string) list" where
  "GridPhase_names = [(0, ''L1''), (1, ''L2''), (2, ''L3'')]"

definition PhasePair_names :: "(u8 \<times> string) list" where
  "PhasePair_names = [(0, ''AB''), (1, ''BC''), (2, ''CA'')]"

definition Direction_names :: "(u8 \<times> string) list" where
  "Direction_names = [(0, ''CONSUMPTION''), (1, ''PRODUCTION''), (2, ''BIDIRECTIONAL'')]"

definition AsymmetricSupport_names :: "(u8 \<times> string) list" where
  "AsymmetricSupport_names = [(0, ''NONE''), (1, ''CONSUMPTION''), (2, ''PRODUCTION''), (3, ''BIDIRECTIONAL'')]"

definition OperatingState_names :: "(u8 \<times> string) list" where
  "OperatingState_names = [(0, ''UNKNOWN''), (1, ''OFFLINE''), (2, ''STANDBY''), (3, ''STARTING''),
     (4, ''RUNNING''), (5, ''PAUSED''), (6, ''SHUTTING_DOWN''), (7, ''FAULT''),
     (8, ''MAINTENANCE'')]"

definition DeviceType_names :: "(u8 \<times> string) list" where
  "DeviceType_names = [(0, ''EVSE''), (1, ''HEAT_PUMP''), (2, ''WATER_HEATER''), (3, ''BATTERY''),
     (4, ''INVERTER''), (5, ''FLEXIBLE_LOAD''), (255, ''OTHER'')]"

definition ControlState_names :: "(u8 \<times> string) list" where
  "ControlState_names = [(0, ''AUTONOMOUS''), (1, ''CONTROLLED''), (2, ''LIMITED''), (3, ''FAILSAFE''),
     (4, ''OVERRIDE'')]"

definition ProcessState_names :: "(u8 \<times> string) list" where
  "ProcessState_names = [(0, ''NONE''), (1, ''AVAILABLE''), (2, ''SCHEDULED''), (3, ''RUNNING''),
     (4, ''PAUSED''), (5, ''COMPLETED''), (6, ''ABORTED'')]"

definition OptOutState_names :: "(u8 \<times> string) list" where
  "OptOutState_names = [(0, ''NONE''), (1, ''LOCAL''), (2, ''GRID''), (3, ''ALL'')]"

definition LimitCause_names :: "(u8 \<times> string) list" where
  "LimitCause_names = [(0, ''GRID_EMERGENCY''), (1, ''GRID_OPTIMIZATION''), (2, ''LOCAL_PROTECTION''), (3, ''LOCAL_OPTIMIZATION''),
     (4, ''USER_PREFERENCE'')]"

definition SetpointCause_names :: "(u8 \<times> string) list" where
  "SetpointCause_names = [(0, ''GRID_REQUEST''), (1, ''SELF_CONSUMPTION''), (2, ''PRICE_OPTIMIZATION''), (3, ''PHASE_BALANCING''),
     (4, ''USER_PREFERENCE'')]"

definition OverrideReason_names :: "(u8 \<times> string) list" where
  "OverrideReason_names = [(0, ''SELF_PROTECTION''), (1, ''SAFETY''), (2, ''LEGAL_REQUIREMENT''), (3, ''UNCONTROLLED_LOAD''),
     (4, ''UNCONTROLLED_PRODUCER'')]"

definition LimitRejectReason_names :: "(u8 \<times> string) list" where
  "LimitRejectReason_names = [(0, ''BELOW_MINIMUM''), (1, ''ABOVE_CONTRACTUAL''), (2, ''INVALID_VALUE''), (3, ''DEVICE_OVERRIDE''),
     (4, ''NOT_SUPPORTED'')]"

definition ControlMode_names :: "(u8 \<times> string) list" where
  "ControlMode_names = [(0, ''DIRECT''), (1, ''PCC''), (2, ''AUTO'')]"

definition ChargingState_names :: "(u8 \<times> string) list" where
  "ChargingState_names = [(0, ''NOT_PLUGGED_IN''), (1, ''PLUGGED_IN_NO_DEMAND''), (2, ''PLUGGED_IN_DEMAND''), (3, ''PLUGGED_IN_CHARGING''),
     (4, ''PLUGGED_IN_DISCHARGING''), (5, ''SESSION_COMPLETE''), (6, ''FAULT'')]"

definition EVDemandMode_names :: "(u8 \<times> string) list" where
  "EVDemandMode_names = [(0, ''NONE''), (1, ''SINGLE_DEMAND''), (2, ''SCHEDULED''), (3, ''DYNAMIC''),
     (4, ''DYNAMIC_BIDIRECTIONAL'')]"

definition EVIDType_names :: "(u8 \<times> string) list" where
  "EVIDType_names = [(0, ''PCID''), (1, ''MAC_EUI48''), (2, ''MAC_EUI64''), (3, ''RFID''),
     (4, ''VIN''), (5, ''CONTRACT_ID''), (6, ''EVCC_ID''), (255, ''OTHER'')]"

definition ChargingMode_names :: "(u8 \<times> string) list" where
  "ChargingMode_names = [(0, ''OFF''), (1, ''PV_SURPLUS_ONLY''), (2, ''PV_SURPLUS_THRESHOLD''), (3, ''PRICE_OPTIMIZED''),
     (4, ''SCHEDULED'')]"

definition PriceUnit_names :: "(u8 \<times> string) list" where
  "PriceUnit_names = [(0, ''PER_KWH''), (1, ''PER_KVAH'')]"

definition SignalSource_names :: "(u8 \<times> string) list" where
  "SignalSource_names = [(0, ''GRID''), (1, ''ENERGY_SUPPLIER''), (2, ''AGGREGATOR''), (3, ''LOCAL_EMS'')]"

definition Commitment_names :: "(u8 \<times> string) list" where
  "Commitment_names = [(0, ''PRELIMINARY''), (1, ''TENTATIVE''), (2, ''COMMITTED''), (3, ''EXECUTING'')]"

definition enum_tables :: "(u8 \<times> string) list list" where
  "enum_tables = [Phase_names, GridPhase_names, PhasePair_names, Direction_names,
     AsymmetricSupport_names, OperatingState_names, DeviceType_names, ControlState_names,
     ProcessState_names, OptOutState_names, LimitCause_names, SetpointCause_names,
     OverrideReason_names, LimitRejectReason_names, ControlMode_names, ChargingState_names,
     EVDemandMode_names, EVIDType_names, ChargingMode_names, PriceUnit_names,
     SignalSource_names, Commitment_names]"

end
