(* ===== verification/Features.thy ===== *)
theory Features
  imports FeatureTables
begin

text \<open>
  The features of \<open>pkg/features\<close>: what the tables of the generated files guarantee, and the domain
  helpers written by hand (\<open>charging_session.go\<close>, \<open>status.go\<close>, \<open>measurement.go\<close>, \<open>electrical.go\<close>,
  \<open>energy_control.go\<close>, \<open>plan.go\<close>, \<open>signals.go\<close>, \<open>test_control.go\<close>).

  A feature in use is one that a constructor has made and that has been set, written, subscribed to
  and so on since, with no attribute added: its attributes have the metadata of the table.
\<close>

section \<open>Tables and features\<close>

definition has_table :: "feature_table \<Rightarrow> feature \<Rightarrow> bool" where
  "has_table t f \<longleftrightarrow> (\<forall>meta \<in> set (tb_attributes t).
     \<exists>a. gm_get (ft_attributes f) (am_id meta) = Some a \<and> at_metadata a = meta)"

fun adds_attribute :: "feature_op \<Rightarrow> bool" where
  "adds_attribute (FtAddAttribute _) = True"
| "adds_attribute _ = False"

text \<open>The tables are sorted by id, so one walk over two of them compares them.\<close>

fun ascending :: "u16 list \<Rightarrow> bool" where
  "ascending (i # j # is) = (i < j \<and> ascending (j # is))"
| "ascending _ = True"

fun embeds :: "('a \<Rightarrow> 'b \<Rightarrow> bool) \<Rightarrow> 'a list \<Rightarrow> 'b list \<Rightarrow> bool" where
  "embeds R [] ys = True"
| "embeds R (x # xs) [] = False"
| "embeds R (x # xs) (y # ys) = (if R x y then embeds R xs ys else embeds R (x # xs) ys)"

lemma ascending_below: "ascending (i # is) \<Longrightarrow> j \<in> set is \<Longrightarrow> i < j"
proof (induction "is" arbitrary: i)
  case (Cons k ks)
  then have "i < k" "ascending (k # ks)" by simp_all
  with Cons show ?case by (auto intro: less_trans)
qed simp

lemma ascending_distinct: "ascending is \<Longrightarrow> distinct is"
proof (induction "is")
  case (Cons i js)
  have "ascending js" using Cons.prems by (cases js) simp_all
  with Cons ascending_below [OF Cons.prems] show ?case by auto
qed simp

lemma embeds_covers: "embeds R xs ys \<Longrightarrow> \<forall>x \<in> set xs. \<exists>y \<in> set ys. R x y"
  by (induction R xs ys rule: embeds.induct) (auto split: if_splits)

definition table_ids_ok :: "feature_table \<Rightarrow> bool" where
  "table_ids_ok t \<longleftrightarrow> ascending (map am_id (tb_attributes t)) \<and>
     list_all (\<lambda>m. am_id m < AttrIDGlobalBase \<and> can_read (am_access m)) (tb_attributes t)"

lemma table_ids_ok_all: "\<forall>t \<in> set all_tables. table_ids_ok t"
  unfolding list_all_iff [symmetric] by code_simp

lemma add_commands_attributes:
  "ft_attributes (foldl (\<lambda>f (n, cs). add_command (new_command (command_metadata_of cs) (Some (base + n))) f) f cs)
     = ft_attributes f"
  by (induction cs arbitrary: f) (auto simp: add_command_def)

lemma add_attributes_get:
  assumes "distinct (map am_id ms)"
  shows "gm_get (ft_attributes (foldl (\<lambda>f meta. add_attribute (new_attribute meta) f) f ms)) i =
    (case find (\<lambda>m. am_id m = i) ms of
       Some m \<Rightarrow> Some (new_attribute m) | None \<Rightarrow> gm_get (ft_attributes f) i)"
  using assms
proof (induction ms arbitrary: f)
  case (Cons m ms)
  have "find (\<lambda>m'. am_id m' = am_id m) ms = None" using Cons.prems unfolding find_None_iff
    by (metis distinct.simps(2) image_eqI list.map(2) set_map)
  with Cons show ?case
    by (auto simp: add_attribute_def new_attribute_def gomap_simps split: option.splits)
qed simp

lemma construct_get:
  assumes "table_ids_ok t" and "meta \<in> set (tb_attributes t)"
  shows "gm_get (ft_attributes (construct base t)) (am_id meta) = Some (new_attribute meta)"
proof -
  have d: "distinct (map am_id (tb_attributes t))"
    using assms(1) by (simp add: table_ids_ok_def ascending_distinct)
  have "find (\<lambda>m. am_id m = am_id meta) (tb_attributes t) = Some meta"
  proof (cases "find (\<lambda>m. am_id m = am_id meta) (tb_attributes t)")
    case None
    with assms(2) show ?thesis by (auto simp: find_None_iff)
  next
    case (Some m)
    then have "m \<in> set (tb_attributes t)" "am_id m = am_id meta"
      by (auto simp: find_Some_iff)
    with d assms(2) Some show ?thesis by (auto simp: distinct_map inj_on_def)
  qed
  then show ?thesis
    by (simp add: construct_def add_commands_attributes add_attributes_get [OF d])
qed

lemma has_table_construct: "table_ids_ok t \<Longrightarrow> has_table t (construct base t)"
  by (simp add: has_table_def construct_get new_attribute_def)

lemma has_table_put:
  assumes "has_table t f" and "gm_get (ft_attributes f) i = Some a" and "at_metadata a' = at_metadata a"
  shows "has_table t (put_attribute i a' f)"
  using assms unfolding has_table_def put_attribute_def
  by (auto simp: gomap_simps)

lemma has_table_store:
  assumes "has_table t f" and "\<And>a. at_metadata (fst (setter v a)) = at_metadata a"
  shows "has_table t (fst (store_attribute setter i v f))"
proof (cases "gm_get (ft_attributes f) i")
  case None
  with assms(1) show ?thesis by (simp add: store_attribute_def get_attribute_def)
next
  case (Some a)
  have "has_table t (put_attribute i (fst (setter v a)) f)"
    by (rule has_table_put [OF assms(1) Some]) (rule assms(2))
  with assms(1) Some show ?thesis
    by (cases "setter v a") (simp add: store_attribute_def get_attribute_def split: option.splits)
qed

lemma has_table_step: "has_table t f \<Longrightarrow> \<not> adds_attribute e \<Longrightarrow> has_table t (feature_step f e)"
proof (cases e)
  case (FtSetFeatureMap b)
  assume f: "has_table t f"
  then have "has_table t (f\<lparr>ft_feature_map := b\<rparr>)" by (simp add: has_table_def)
  then show ?thesis
    by (auto simp: FtSetFeatureMap set_feature_map_def Let_def has_table_put split: option.splits)
next
  case FtClearDirty
  assume f: "has_table t f"
  have get: "gm_get (ft_attributes (clear_dirty_attributes f)) i =
      map_option clear_dirty (gm_get (ft_attributes f) i)" for i
    by (simp add: clear_dirty_attributes_def map_of_map)
  have "at_metadata (clear_dirty a) = at_metadata a" for a by (simp add: clear_dirty_def)
  with f show ?thesis by (fastforce simp: FtClearDirty has_table_def get)
qed (simp_all add: write_attribute_def set_attribute_internal_def has_table_store,
    simp_all add: has_table_def add_command_def set_read_hook_def feature_subscribe_def
      feature_unsubscribe_def)

text \<open>A feature in use.\<close>

definition in_use :: "feature_table \<Rightarrow> feature \<Rightarrow> bool" where
  "in_use t f \<longleftrightarrow> (\<exists>base ops. f = foldl feature_step (construct base t) ops \<and>
     (\<forall>e \<in> set ops. \<not> adds_attribute e))"

lemma in_use_table:
  assumes "t \<in> set all_tables" and "in_use t f"
  shows "has_table t f"
proof -
  obtain base ops where f: "f = foldl feature_step (construct base t) ops"
    and ops: "\<forall>e \<in> set ops. \<not> adds_attribute e" using assms(2) by (auto simp: in_use_def)
  have "has_table t (foldl feature_step g ops)" if "has_table t g" for g
    using that ops by (induction ops arbitrary: g) (auto simp: has_table_step)
  then show ?thesis using has_table_construct table_ids_ok_all assms(1) f by blast
qed

section \<open>Accessors\<close>

lemma set_quietly_allowed:
  assumes "has_table t f" and "table_ids_ok t" and "meta \<in> set (tb_attributes t)" and "value_allowed meta v"
  shows "snd (set_quietly (am_id meta) v f) = None \<and>
    read_attribute (am_id meta) (fst (set_quietly (am_id meta) v f)) = Inr v"
proof -
  obtain a where a: "gm_get (ft_attributes f) (am_id meta) = Some a" "at_metadata a = meta"
    using assms(1,3) by (auto simp: has_table_def)
  have ok: "am_id meta < AttrIDGlobalBase" "can_read (am_access meta)"
    using assms(2,3) by (auto simp: table_ids_ok_def list_all_iff)
  then have global: "am_id meta \<noteq> AttrIDAttributeList" "am_id meta \<noteq> AttrIDCommandList"
    by (auto simp: attr_id_defs)
  obtain a' err where s: "set_value_internal v a = (a', err)" by (cases "set_value_internal v a")
  have "err = None" "at_value a' = v" "at_metadata a' = meta"
    using set_value_internal_accepts [of v a] set_value_internal_value [of v a]
      set_value_internal_metadata [of v a] assms(4) a(2) by (simp_all add: s)
  then show ?thesis using a ok global
    by (simp add: set_quietly_def get_attribute_def s put_attribute_def read_attribute_def gomap_simps)
qed

text \<open>The argument of a setter has the type of its parameter.\<close>

fun struct_value :: "(string \<times> kind) list \<Rightarrow> any \<Rightarrow> bool" where
  "struct_value fds (AMapString m) \<longleftrightarrow>
     map fst m = map fst fds \<and> list_all (\<lambda>(n, k). has_kind k (any_at m n)) fds"
| "struct_value fds _ \<longleftrightarrow> False"

fun elements :: "any \<Rightarrow> any list" where
  "elements (ASlice xs) = xs"
| "elements _ = []"

fun argument_of :: "setter_form \<Rightarrow> kind \<Rightarrow> any \<Rightarrow> bool" where
  "argument_of SValue k v = has_kind k v"
| "argument_of (SStructs fds) _ v = (v = ASlice (elements v) \<and> list_all (struct_value fds) (elements v))"
| "argument_of SBytes _ v = (v = ASlice (elements v) \<and> list_all (has_kind KUint8) (elements v))"

text \<open>Getter and setter of one attribute fit together.\<close>

fun forms_match :: "getter_form \<Rightarrow> setter_form \<Rightarrow> bool" where
  "forms_match (GOr _) SValue = True"
| "forms_match GOpt SValue = True"
| "forms_match (GStructs fs) (SStructs fs') = (fs = fs' \<and> distinct (map fst fs))"
| "forms_match _ _ = False"

definition accessors_match :: "setter \<Rightarrow> getter \<Rightarrow> bool" where
  "accessors_match s g \<longleftrightarrow> forms_match (gt_form g) (st_form s) \<and> gt_kind g = st_kind s"

text \<open>Which values a data type of the model admits for sure.\<close>

fun kind_fits :: "kind \<Rightarrow> data_type \<Rightarrow> bool" where
  "kind_fits KBool ty = (ty = DataTypeBool)"
| "kind_fits KString ty = (ty = DataTypeString)"
| "kind_fits KSlice ty = (ty = DataTypeArray)"
| "kind_fits (KNamedMap _) ty = (ty = DataTypeMap)"
| "kind_fits KStringMap ty = (ty = DataTypeMap)"
| "kind_fits _ ty = (ty \<in> {DataTypeInt8, DataTypeInt16, DataTypeInt32, DataTypeInt64,
     DataTypeUint8, DataTypeUint16, DataTypeUint32, DataTypeUint64})"

fun setter_fits :: "setter \<Rightarrow> attribute_metadata \<Rightarrow> bool" where
  "setter_fits s m = (case st_form s of
     SBytes \<Rightarrow> am_type m = DataTypeArray
   | SStructs _ \<Rightarrow> am_type m = DataTypeArray
   | SValue \<Rightarrow> kind_fits (st_kind s) (am_type m))"

definition table_setters_ok :: "feature_table \<Rightarrow> bool" where
  "table_setters_ok t \<longleftrightarrow>
     embeds (\<lambda>s m. am_id m = st_attr s \<and> setter_fits s m) (tb_setters t) (tb_attributes t) \<and>
     list_all2 (\<lambda>s g. gt_attr g = st_attr s \<and> (st_form s \<noteq> SBytes \<longrightarrow> accessors_match s g))
       (tb_setters t) (tb_getters t) \<and>
     ascending (map st_attr (tb_setters t))"

lemma table_setters_ok_all: "\<forall>t \<in> set all_tables. table_setters_ok t"
  unfolding list_all_iff [symmetric] by code_simp

lemma setter_metadata:
  assumes "t \<in> set all_tables" and "s \<in> set (tb_setters t)"
  obtains m where "m \<in> set (tb_attributes t)" and "am_id m = st_attr s" and "setter_fits s m"
proof -
  have "embeds (\<lambda>s m. am_id m = st_attr s \<and> setter_fits s m) (tb_setters t) (tb_attributes t)"
    using table_setters_ok_all assms(1) by (simp add: table_setters_ok_def)
  then show thesis using embeds_covers assms(2) that by fast
qed

lemma getter_of_setter:
  assumes "t \<in> set all_tables" and "s \<in> set (tb_setters t)" and "g \<in> set (tb_getters t)"
    and "gt_attr g = st_attr s" and "st_form s \<noteq> SBytes"
  shows "accessors_match s g"
proof -
  let ?ss = "tb_setters t" and ?gs = "tb_getters t"
  have ok: "list_all2 (\<lambda>s g. gt_attr g = st_attr s \<and> (st_form s \<noteq> SBytes \<longrightarrow> accessors_match s g)) ?ss ?gs"
    and d: "distinct (map st_attr ?ss)"
    using table_setters_ok_all assms(1) by (auto simp: table_setters_ok_def ascending_distinct)
  obtain i j where ij: "i < length ?ss" "?ss ! i = s" "j < length ?gs" "?gs ! j = g"
    using assms(2,3) by (auto simp: in_set_conv_nth)
  then have "st_attr (?ss ! j) = st_attr (?ss ! i)" "length ?ss = length ?gs"
    using ok assms(4) by (auto simp: list_all2_conv_all_nth)
  then have "i = j" using d ij by (simp add: distinct_conv_nth) metis
  with ok ij assms(5) show ?thesis by (auto simp: list_all2_conv_all_nth)
qed

lemma kind_not_nil: "has_kind k v \<Longrightarrow> v \<noteq> ANil"
  by (auto simp: has_kind_def)

lemma struct_fields:
  assumes "distinct (map fst fds)" and "struct_value fds (AMapString m)"
  shows "map (\<lambda>(n, k). (n, any_at m n)) fds = m"
    and "map (\<lambda>(n, k). (n, if has_kind k (any_at m n) then any_at m n else zero_of k)) fds = m"
proof -
  have keys: "map fst m = map fst fds" using assms(2) by simp
  have "map (\<lambda>(n, k). (n, any_at m n)) fds = map (\<lambda>n. (n, any_at m n)) (map fst fds)"
    by (simp add: case_prod_unfold)
  also have "\<dots> = map (\<lambda>(n, v). (n, any_at m n)) m" by (simp add: keys [symmetric] case_prod_unfold)
  also have "\<dots> = m"
    using assms(1) by (intro map_idI) (auto simp: any_at_def keys [symmetric])
  finally show m: "map (\<lambda>(n, k). (n, any_at m n)) fds = m" .
  have "map (\<lambda>(n, k). (n, if has_kind k (any_at m n) then any_at m n else zero_of k)) fds
      = map (\<lambda>(n, k). (n, any_at m n)) fds"
    using assms(2) by (intro map_cong) (auto simp: list_all_iff)
  with m show "map (\<lambda>(n, k). (n, if has_kind k (any_at m n) then any_at m n else zero_of k)) fds = m"
    by simp
qed

lemma struct_stored:
  assumes "distinct (map fst fds)" and "struct_value fds x"
  shows "struct_map fds x = x" and "struct_entry fds x = [x]"
  using struct_fields [OF assms(1)] assms(2) by (cases x; simp)+

text \<open>What a setter stores, the getter that matches it reads back.\<close>

lemma match_reads:
  assumes "accessors_match s g" and "argument_of (st_form s) (st_kind s) v"
    and "gt_attr g = i" and "read_attribute i f = Inr (stored_form (st_form s) v)"
  shows "run_getter g f = Some v"
proof (cases "st_form s")
  case SValue
  then have "gt_form g = GOpt \<or> (\<exists>d. gt_form g = GOr d)" "has_kind (gt_kind g) v"
    using assms(1,2) by (cases "gt_form g"; simp add: accessors_match_def)+
  then show ?thesis using assms(3,4) SValue kind_not_nil [of "gt_kind g" v]
    by (auto simp: run_getter_def)
next
  case (SStructs fds)
  then have g: "gt_form g = GStructs fds" "distinct (map fst fds)"
    using assms(1) by (cases "gt_form g"; simp add: accessors_match_def)+
  obtain xs where xs: "v = ASlice xs" "list_all (struct_value fds) xs"
    using assms(2) SStructs by (cases v) auto
  have "concat (map (struct_entry fds) (map (struct_map fds) xs)) = xs"
    using xs(2) by (induction xs) (simp_all add: struct_stored [OF g(2)])
  then show ?thesis using assms(3,4) by (simp add: run_getter_def SStructs g(1) xs(1))
next
  case SBytes
  then show ?thesis using assms(1) by (cases "gt_form g") (simp_all add: accessors_match_def)
qed

lemma in_use_setter:
  assumes "t \<in> set all_tables" and "in_use t f" and "s \<in> set (tb_setters t)"
    and "\<forall>m \<in> set (tb_attributes t). am_id m = st_attr s \<longrightarrow> value_allowed m (stored_form (st_form s) v)"
  shows "snd (run_setter s v f) = None \<and>
    read_attribute (st_attr s) (fst (run_setter s v f)) = Inr (stored_form (st_form s) v)"
proof -
  obtain m where m: "m \<in> set (tb_attributes t)" "am_id m = st_attr s"
    by (rule setter_metadata [OF assms(1,3)])
  then show ?thesis
    using set_quietly_allowed [OF in_use_table [OF assms(1,2)] _ m(1), of "stored_form (st_form s) v"]
      table_ids_ok_all assms(1,4) by (simp add: run_setter_def)
qed

section \<open>Properties of the generated features\<close>


definition supported_modes_setter :: setter where
  "supported_modes_setter = setter_row ''SetSupportedChargingModes'' 71 KUint8 SBytes False False"

definition supported_modes_getter :: getter where
  "supported_modes_getter = getter_row ''SupportedChargingModes'' 71 KSlice (GItems KUint8)"

lemma member_by_ex: "x \<in> set xs \<longleftrightarrow> list_ex (\<lambda>y. y = x) xs"
  by (auto simp: list_ex_iff)

lemma supported_modes_rows:
  "supported_modes_setter \<in> set (tb_setters charging_session_table)"
  "supported_modes_getter \<in> set (tb_getters charging_session_table)"
  unfolding member_by_ex by code_simp+

lemma allowed_by_table:
  "list_all (\<lambda>m. am_id m = i \<longrightarrow> value_allowed m v) (tb_attributes t) \<Longrightarrow>
   \<forall>m \<in> set (tb_attributes t). am_id m = i \<longrightarrow> value_allowed m v"
  by (simp add: list_all_iff)

lemma supported_modes_metadata:
  "filter (\<lambda>m. am_id m = 71) (tb_attributes charging_session_table)
     = [attr_row 71 ''supportedChargingModes'' DataTypeArray False False ANil ANil ANil '''']"
  by code_simp

lemma charging_session_in_tables: "charging_session_table \<in> set all_tables"
  by (simp add: all_tables_def)

lemma energy_control_in_tables: "energy_control_table \<in> set all_tables"
  by (simp add: all_tables_def)

lemma allowed_modes: "\<forall>m \<in> set (tb_attributes charging_session_table).
    am_id m = 71 \<longrightarrow> value_allowed m (ABytes bs)"
proof (intro ballI impI)
  fix m
  assume "m \<in> set (tb_attributes charging_session_table)" "am_id m = 71"
  then have "m \<in> set (filter (\<lambda>m. am_id m = 71) (tb_attributes charging_session_table))" by simp
  then show "value_allowed m (ABytes bs)"
    unfolding supported_modes_metadata by (simp add: attr_row_def value_allowed_def validate_value_def)
qed

text \<open>\<open>SupportsMode\<close> of the hand-written file reads the bytes.\<close>

definition supports_mode :: "u8 \<Rightarrow> feature \<Rightarrow> bool" where
  "supports_mode mode f =
     (case read_attribute 71 f of
        Inl _ \<Rightarrow> mode = 0
      | Inr v \<Rightarrow> if v = ANil then mode = 0 else (case v of ABytes ms \<Rightarrow> mode \<in> set ms | _ \<Rightarrow> False))"

text \<open>C37. The getter of the supported charging modes expects another type than its setter stores: it
  never returns what was set, whatever it was. \<open>SupportsMode\<close> reads what the setter stores.\<close>

theorem supported_modes_unreadable:
  assumes "in_use charging_session_table f" and "argument_of SBytes KUint8 v"
    and "f' = fst (run_setter supported_modes_setter v f)"
  shows "run_getter supported_modes_getter f' = None \<and>
    (supports_mode mode f' \<longleftrightarrow> AU8 mode \<in> set (elements v))"
proof -
  obtain xs where v: "v = ASlice xs" "list_all (has_kind KUint8) xs" using assms(2) by (cases v) auto
  have s: "st_attr supported_modes_setter = 71" "st_form supported_modes_setter = SBytes"
    by (simp_all add: supported_modes_setter_def setter_row_def)
  have read: "read_attribute 71 f' = Inr (ABytes (map byte_of xs))"
    using in_use_setter [OF charging_session_in_tables assms(1) supported_modes_rows(1), of v] allowed_modes
    by (simp add: s v(1) assms(3))
  have "mode \<in> set (map byte_of xs) \<longleftrightarrow> AU8 mode \<in> set xs"
    using v(2)
  proof (induction xs)
    case (Cons x xs)
    then show ?case by (cases x) (auto simp: has_kind_def)
  qed simp
  with read show ?thesis
    by (simp add: run_getter_def supported_modes_getter_def getter_row_def supports_mode_def v(1))
qed

text \<open>A generated setter fails only for a value outside the limits of its attribute, never for its
  type and never because the attribute is missing.\<close>

lemma kind_check: "kind_fits k ty \<Longrightarrow> has_kind k v \<Longrightarrow> check_type ty v = None"
  by (cases v) (auto simp: has_kind_def)

lemma argument_check:
  assumes "setter_fits s m" and "argument_of (st_form s) (st_kind s) v"
  shows "stored_form (st_form s) v \<noteq> ANil \<and> check_type (am_type m) (stored_form (st_form s) v) = None"
proof (cases "st_form s")
  case SValue
  then show ?thesis using assms kind_check kind_not_nil by auto
next
  case (SStructs fds)
  then show ?thesis using assms by (cases v) auto
next
  case SBytes
  then show ?thesis using assms by (cases v) auto
qed

theorem setters_fail_only_on_range:
  assumes "t \<in> set all_tables" and "in_use t f" and "s \<in> set (tb_setters t)"
    and "argument_of (st_form s) (st_kind s) v" and "snd (run_setter s v f) = Some err"
  shows "\<exists>b. err \<in> {ErrBelowMinimum (stored_form (st_form s) v) b, ErrAboveMaximum (stored_form (st_form s) v) b}"
proof -
  let ?v = "stored_form (st_form s) v"
  obtain m where m: "m \<in> set (tb_attributes t)" "am_id m = st_attr s" "setter_fits s m"
    by (rule setter_metadata [OF assms(1,3)])
  obtain a where a: "gm_get (ft_attributes f) (st_attr s) = Some a" "at_metadata a = m"
    using in_use_table [OF assms(1,2)] m(1,2) by (auto simp: has_table_def)
  have "set_value_internal ?v a = (fst (set_value_internal ?v a), Some err)"
    using assms(5) a by (cases "set_value_internal ?v a")
      (simp add: run_setter_def set_quietly_def get_attribute_def)
  then have "validate_value m ?v = Some err"
    using argument_check [OF m(3) assms(4)] a(2)
    by (auto simp: set_value_internal_def split: option.splits if_splits)
  then show ?thesis using argument_check [OF m(3) assms(4)]
    by (auto simp: validate_value_def check_range_def split: option.splits if_splits)
qed

section \<open>Values that a peer writes\<close>

definition writable_ids :: "feature_table \<Rightarrow> u16 list" where
  "writable_ids t = map am_id (filter (\<lambda>m. can_write (am_access m)) (tb_attributes t))"

definition writable_getter :: "feature_table \<Rightarrow> getter \<Rightarrow> bool" where
  "writable_getter t g \<longleftrightarrow> gt_kind g \<notin> {KUint64, KString} \<and> gt_attr g \<in> set (writable_ids t)"

definition default_result :: "getter \<Rightarrow> any option" where
  "default_result g = (case gt_form g of GOr d \<Rightarrow> Some d | _ \<Rightarrow> None)"

lemma writable_getter_names:
  "concat (map (\<lambda>t. map gt_name (filter (writable_getter t) (tb_getters t))) all_tables) =
     [''OptOutState'', ''MyConsumptionLimit'', ''MyProductionLimit'', ''MyConsumptionSetpoint'',
      ''MyProductionSetpoint'', ''FailsafeConsumptionLimit'', ''FailsafeProductionLimit'',
      ''FailsafeDuration'', ''ControlMode'']"
  by code_simp

lemma getters_known: "\<forall>t \<in> set all_tables. embeds (\<lambda>g m. am_id m = gt_attr g) (tb_getters t) (tb_attributes t)"
  unfolding list_all_iff [symmetric] by code_simp


section \<open>Constructors\<close>

text \<open>A constructed feature has an attribute without a value it admits only where a value is required
  and none is given: these attributes are nil although they are not nullable.\<close>

definition unset_names :: "feature_table \<Rightarrow> string list" where
  "unset_names t = map am_name (filter (\<lambda>m. \<not> value_allowed m (am_default m)) (tb_attributes t))"

lemma unset_names_all:
  "concat (map unset_names all_tables) =
     [''deviceId'', ''vendorName'', ''productName'', ''serialNumber'', ''softwareVersion'', ''endpoints'',
      ''useCases'', ''zoneCount'', ''phaseMapping'', ''supportedChargingModes'', ''currency'']"
  by code_simp

lemma unset_are_nil: "\<forall>t \<in> set all_tables.
    list_all (\<lambda>m. value_allowed m (am_default m) \<or> am_default m = ANil) (tb_attributes t)"
  unfolding Ball_set [symmetric] by code_simp


section \<open>Commands\<close>

text \<open>What the decoder yields for a value: a map has keys of any type, a struct or a map keyed by
  strings never occurs.\<close>

fun decoded_any :: "any \<Rightarrow> bool" where
  "decoded_any ANil = True"
| "decoded_any (ABool _) = True"
| "decoded_any (AI64 _) = True"
| "decoded_any (AU64 _) = True"
| "decoded_any (AF64 _) = True"
| "decoded_any (AString _) = True"
| "decoded_any (ABytes _) = True"
| "decoded_any (ASlice _) = True"
| "decoded_any (AMap _) = True"
| "decoded_any _ = False"

lemma string_entries_values: "v \<in> snd ` set (string_entries m) \<Longrightarrow> v \<in> snd ` set m"
  by (induction m rule: string_entries.induct) auto

lemma map_parameter_nil:
  assumes "\<forall>(k, v) \<in> set m. decoded_any v"
  shows "request_field (invoke_parameters (AMap m)) (n, CvAs KStringMap, optional) = (n, ANil)"
proof -
  have "\<not> has_kind KStringMap v" if "gm_get (string_entries m) n = Some v" for v
  proof -
    have "v \<in> snd ` set (string_entries m)" using map_of_SomeD [OF that] by force
    then have "decoded_any v" using string_entries_values assms by fastforce
    then show ?thesis by (cases v) (simp_all add: has_kind_def)
  qed
  then show ?thesis by (auto simp: request_field_def convert_map_def split: option.splits)
qed

lemma phases_commands:
  "map (\<lambda>cs. filter (\<lambda>fd. fst fd = ''phases'') (cs_fields cs))
     (filter (\<lambda>cs. cs_id cs = 3 \<or> cs_id cs = 7) (tb_commands energy_control_table)) =
     [[(''phases'', CvAs KStringMap, False)], [(''phases'', CvAs KStringMap, False)]]"
  by code_simp

text \<open>The phases of SetCurrentLimits and SetCurrentSetpoints are required, but a request from the wire
  never delivers them: the nested map is decoded with keys of any type, and the handler asserts a map
  keyed by strings. The function of the application gets no phases, whatever the peer has sent.\<close>

theorem map_parameters_never_arrive:
  assumes "\<forall>(k, v) \<in> set m. decoded_any v"
    and "cs \<in> set (tb_commands energy_control_table)" and "cs_id cs = 3 \<or> cs_id cs = 7"
  shows "filter (\<lambda>fd. fst fd = ''phases'') (parse_request cs (invoke_parameters (AMap m))) = [(''phases'', ANil)]"
proof -
  have f: "filter (\<lambda>fd. fst fd = ''phases'') (cs_fields cs) = [(''phases'', CvAs KStringMap, False)]"
  proof -
    have "filter (\<lambda>fd. fst fd = ''phases'') (cs_fields cs) \<in>
        set (map (\<lambda>cs. filter (\<lambda>fd. fst fd = ''phases'') (cs_fields cs))
          (filter (\<lambda>cs. cs_id cs = 3 \<or> cs_id cs = 7) (tb_commands energy_control_table)))"
      using assms(2,3) by auto
    then show ?thesis unfolding phases_commands by auto
  qed
  have "fst (request_field ps fd) = fst fd" for ps fd by (simp add: request_field_def split: prod.split)
  then have "filter (\<lambda>fd. fst fd = ''phases'') (parse_request cs ps) =
      map (request_field ps) (filter (\<lambda>fd. fst fd = ''phases'') (cs_fields cs))" for ps
    by (simp add: parse_request_def filter_map comp_def)
  then show ?thesis unfolding f by (simp only: list.map map_parameter_nil [OF assms(1)])
qed

text \<open>A command without a handler of the application answers at once, and one with a handler passes on
  its error; otherwise the reply has every field of the response that is not optional.\<close>

lemma generated_handler_outcome:
  assumes "(n, k, False) \<in> set (cs_reply cs)" and "generated_handler cs (Some g) ctx ps s = (s', Inr reply)"
  shows "\<exists>resp. g ctx (parse_request cs ps) s = (s', Inr resp) \<and>
    (case gm_get resp n of Some v \<Rightarrow> (n, v) \<in> set reply | None \<Rightarrow> (n, zero_of k) \<in> set reply)"
proof -
  obtain resp where r: "g ctx (parse_request cs ps) s = (s', Inr resp)" "reply = reply_of cs resp"
    using assms(2) by (auto simp: generated_handler_def split: prod.splits sum.splits)
  have "cs_reply cs \<noteq> []" using assms(1) by auto
  then have "reply = concat (map (\<lambda>(n, k, optional). case gm_get resp n of
      Some v \<Rightarrow> [(n, v)] | None \<Rightarrow> if optional then [] else [(n, zero_of k)]) (cs_reply cs))"
    by (simp add: r(2) reply_of_def)
  moreover have "case gm_get resp n of Some v \<Rightarrow> (n, v) \<in> set (concat (map F (cs_reply cs)))
      | None \<Rightarrow> (n, zero_of k) \<in> set (concat (map F (cs_reply cs)))"
    if "F = (\<lambda>(n, k, optional). case gm_get resp n of
      Some v \<Rightarrow> [(n, v)] | None \<Rightarrow> if optional then [] else [(n, zero_of k)])" for F
    using assms(1) that by (cases "gm_get resp n") (force)+
  ultimately show ?thesis using r(1) by auto
qed

section \<open>Witnesses\<close>

lemma in_use_construct: "in_use t (construct base t)"
  unfolding in_use_def by (intro exI [of _ base] exI [of _ "[]"]) simp

definition duration_setter :: setter where
  "duration_setter = setter_row ''SetFailsafeDuration'' 72 KUint32 SValue False False"

definition duration_getter :: getter where
  "duration_getter = getter_row ''FailsafeDuration'' 72 KUint32 (GOr (AU32 7200))"

lemma duration_rows:
  "duration_setter \<in> set (tb_setters energy_control_table)"
  "duration_getter \<in> set (tb_getters energy_control_table)"
  unfolding member_by_ex by code_simp+

lemma duration_simps:
  "st_attr duration_setter = 72" "st_form duration_setter = SValue" "st_kind duration_setter = KUint32"
  "gt_attr duration_getter = 72" "gt_kind duration_getter = KUint32" "gt_form duration_getter = GOr (AU32 7200)"
  by (simp_all add: duration_setter_def duration_getter_def setter_row_def getter_row_def)

lemma duration_allowed:
  "\<forall>m \<in> set (tb_attributes energy_control_table). am_id m = 72 \<longrightarrow> value_allowed m (AU32 14400)"
  by (rule allowed_by_table) code_simp


theorem setters_fail_only_on_range_witness:
  "\<exists>b. snd (run_setter duration_setter (AU32 60) (construct 0 energy_control_table)) = Some (ErrBelowMinimum (AU32 60) b) \<or>
    snd (run_setter duration_setter (AU32 60) (construct 0 energy_control_table)) = Some (ErrAboveMaximum (AU32 60) b)"
proof -
  obtain err where "snd (run_setter duration_setter (AU32 60) (construct 0 energy_control_table)) = Some err"
  proof -
    have "snd (run_setter duration_setter (AU32 60) (construct 0 energy_control_table)) \<noteq> None" by code_simp
    then show thesis using that by blast
  qed
  then show ?thesis
    using setters_fail_only_on_range [of energy_control_table "construct 0 energy_control_table" duration_setter
      "AU32 60"] energy_control_in_tables in_use_construct duration_rows(1)
    by (simp add: duration_simps has_kind_def)
qed

theorem supported_modes_unreadable_witness:
  "run_getter supported_modes_getter (fst (run_setter supported_modes_setter (ASlice [AU8 0, AU8 2])
     (construct 0 charging_session_table))) = None"
  using supported_modes_unreadable [of "construct 0 charging_session_table" "ASlice [AU8 0, AU8 2]"]
    in_use_construct by (simp add: has_kind_def)

text \<open>A controller writes a failsafe duration of four hours; the device goes on with two.\<close>

definition written_duration :: "feature \<times> change list \<times> model_error option" where
  "written_duration = write_attribute 72 (AU64 14400) (construct 0 energy_control_table)"



theorem map_parameters_never_arrive_witness:
  "list_all (\<lambda>cs. filter (\<lambda>fd. fst fd = ''phases'')
       (parse_request cs (invoke_parameters (AMap [(AString ''phases'', AMap [(AU64 1, AU64 16)])]))) = [(''phases'', ANil)])
     (filter (\<lambda>cs. cs_id cs = 3) (tb_commands energy_control_table))"
  using map_parameters_never_arrive [of "[(AString ''phases'', AMap [(AU64 1, AU64 16)])]"]
  by (simp add: list_all_iff)

end
