(* ===== verification/FeatureHelpers.thy ===== *)
theory FeatureHelpers
  imports Features
begin

text \<open>
  The domain helpers that \<open>pkg/features\<close> adds to the generated code by hand (\<open>charging_session.go\<close>,
  \<open>status.go\<close>, \<open>measurement.go\<close>, \<open>electrical.go\<close>, \<open>energy_control.go\<close>, \<open>plan.go\<close>, \<open>signals.go\<close>,
  \<open>device_info.go\<close>): short sequences of generated accessors. Left out: the power in kW, a floating
  point number, and the accessors of slices of pointers in \<open>device_info.go\<close>.
\<close>

text \<open>Accessors by name.\<close>

definition setter_named :: "feature_table \<Rightarrow> string \<Rightarrow> setter" where
  "setter_named t n = the (find (\<lambda>s. st_name s = n) (tb_setters t))"

definition getter_named :: "feature_table \<Rightarrow> string \<Rightarrow> getter" where
  "getter_named t n = the (find (\<lambda>g. gt_name g = n) (tb_getters t))"

text \<open>The steps of a helper, up to the first error.\<close>

fun helper_steps :: "(feature \<Rightarrow> feature \<times> model_error option) list \<Rightarrow> feature \<Rightarrow> feature \<times> model_error option" where
  "helper_steps [] f = (f, None)"
| "helper_steps (h # hs) f =
     (case h f of (f', Some err) \<Rightarrow> (f', Some err) | (f', None) \<Rightarrow> helper_steps hs f')"

definition ignore_error :: "(feature \<Rightarrow> feature \<times> model_error option) \<Rightarrow> feature \<Rightarrow> feature \<times> model_error option" where
  "ignore_error h f = (fst (h f), None)"

subsection \<open>ChargingSession\<close>

abbreviation cs_set :: "string \<Rightarrow> any \<Rightarrow> feature \<Rightarrow> feature \<times> model_error option" where
  "cs_set n \<equiv> run_setter (setter_named charging_session_table n)"

abbreviation cs_set_ptr :: "string \<Rightarrow> any option \<Rightarrow> feature \<Rightarrow> feature \<times> model_error option" where
  "cs_set_ptr n \<equiv> run_set_ptr (setter_named charging_session_table n)"

definition set_ev_energy_requests ::
  "any option \<Rightarrow> any option \<Rightarrow> any option \<Rightarrow> feature \<Rightarrow> feature \<times> model_error option" where
  "set_ev_energy_requests lo hi target = helper_steps
     [cs_set_ptr ''SetEVMinEnergyRequest'' lo, cs_set_ptr ''SetEVMaxEnergyRequest'' hi,
      cs_set_ptr ''SetEVTargetEnergyRequest'' target]"

definition set_ev_discharge_constraints ::
  "any option \<Rightarrow> any option \<Rightarrow> any option \<Rightarrow> feature \<Rightarrow> feature \<times> model_error option" where
  "set_ev_discharge_constraints lo hi permitted = helper_steps
     [cs_set_ptr ''SetEVMinDischargingRequest'' lo, cs_set_ptr ''SetEVMaxDischargingRequest'' hi,
      cs_set_ptr ''SetEVDischargeBelowTargetPermitted'' permitted]"

definition set_estimated_times ::
  "any option \<Rightarrow> any option \<Rightarrow> any option \<Rightarrow> feature \<Rightarrow> feature \<times> model_error option" where
  "set_estimated_times to_min to_target to_full = helper_steps
     [cs_set_ptr ''SetEstimatedTimeToMinSoC'' to_min, cs_set_ptr ''SetEstimatedTimeToTargetSoC'' to_target,
      cs_set_ptr ''SetEstimatedTimeToFullSoC'' to_full]"

definition charging_state :: "feature \<Rightarrow> any option" where
  "charging_state = run_getter (getter_named charging_session_table ''State'')"

definition is_plugged_in :: "feature \<Rightarrow> bool" where
  "is_plugged_in f \<longleftrightarrow> charging_state f \<noteq> Some (AU8 0)"

definition is_charging :: "feature \<Rightarrow> bool" where
  "is_charging f \<longleftrightarrow> charging_state f = Some (AU8 3)"

definition is_discharging :: "feature \<Rightarrow> bool" where
  "is_discharging f \<longleftrightarrow> charging_state f = Some (AU8 4)"

definition value_of :: "u16 \<Rightarrow> feature \<Rightarrow> any" where
  "value_of i f = (case read_attribute i f of Inl _ \<Rightarrow> ANil | Inr v \<Rightarrow> v)"

definition can_discharge :: "feature \<Rightarrow> bool" where
  "can_discharge f =
     (case value_of 50 f of
        AI64 lo \<Rightarrow>
          if sint lo \<ge> 0 then False
          else (case value_of 51 f of
             AI64 hi \<Rightarrow>
               if sint hi < 0 then False
               else if (case value_of 43 f of AI64 target \<Rightarrow> sint target \<le> 0 | _ \<Rightarrow> False) then True
               else (case value_of 52 f of ABool b \<Rightarrow> b | _ \<Rightarrow> False)
           | _ \<Rightarrow> False)
      | _ \<Rightarrow> False)"

definition start_session :: "u64 \<Rightarrow> feature \<Rightarrow> feature \<times> model_error option" where
  "start_session t = helper_steps
     [cs_set ''SetSessionStartTime'' (AU64 t),
      run_clear (setter_named charging_session_table ''SetSessionEndTime''),
      cs_set ''SetSessionEnergyCharged'' (AU64 0), cs_set ''SetSessionEnergyDischarged'' (AU64 0),
      cs_set ''SetState'' (AU8 1)]"

definition end_session :: "u64 \<Rightarrow> feature \<Rightarrow> feature \<times> model_error option" where
  "end_session t = helper_steps [cs_set ''SetSessionEndTime'' (AU64 t), cs_set ''SetState'' (AU8 0)]"

subsection \<open>Status\<close>

abbreviation status_set :: "string \<Rightarrow> any \<Rightarrow> feature \<Rightarrow> feature \<times> model_error option" where
  "status_set n \<equiv> run_setter (setter_named status_table n)"

definition set_fault :: "u32 \<Rightarrow> string \<Rightarrow> feature \<Rightarrow> feature \<times> model_error option" where
  "set_fault code message = helper_steps
     [status_set ''SetOperatingState'' (AU8 7),
      ignore_error (status_set ''SetFaultCode'' (AU32 code)),
      ignore_error (status_set ''SetFaultMessage'' (AString message))]"

definition clear_fault :: "feature \<Rightarrow> feature \<times> model_error option" where
  "clear_fault = helper_steps
     [ignore_error (run_clear (setter_named status_table ''SetFaultCode'')),
      ignore_error (run_clear (setter_named status_table ''SetFaultMessage''))]"

definition operating_state :: "feature \<Rightarrow> any option" where
  "operating_state = run_getter (getter_named status_table ''OperatingState'')"

definition is_faulted :: "feature \<Rightarrow> bool" where
  "is_faulted f \<longleftrightarrow> operating_state f = Some (AU8 7)"

definition is_running :: "feature \<Rightarrow> bool" where
  "is_running f \<longleftrightarrow> operating_state f = Some (AU8 4)"

definition is_ready :: "feature \<Rightarrow> bool" where
  "is_ready f \<longleftrightarrow> operating_state f = Some (AU8 2) \<or> operating_state f = Some (AU8 4)"

definition is_offline :: "feature \<Rightarrow> bool" where
  "is_offline f \<longleftrightarrow> operating_state f = Some (AU8 1)"

subsection \<open>Measurement, Electrical\<close>

definition ac_active_power :: "feature \<Rightarrow> any option" where
  "ac_active_power = run_getter (getter_named measurement_table ''ACActivePower'')"

definition is_consuming :: "feature \<Rightarrow> bool" where
  "is_consuming f = (case ac_active_power f of Some (AI64 p) \<Rightarrow> sint p > 0 | _ \<Rightarrow> False)"

definition is_producing :: "feature \<Rightarrow> bool" where
  "is_producing f = (case ac_active_power f of Some (AI64 p) \<Rightarrow> sint p < 0 | _ \<Rightarrow> False)"

definition supported_directions :: "feature \<Rightarrow> any option" where
  "supported_directions = run_getter (getter_named electrical_table ''SupportedDirections'')"

definition is_bidirectional :: "feature \<Rightarrow> bool" where
  "is_bidirectional f \<longleftrightarrow> supported_directions f = Some (AU8 2)"

definition can_consume :: "feature \<Rightarrow> bool" where
  "can_consume f \<longleftrightarrow> supported_directions f = Some (AU8 0) \<or> supported_directions f = Some (AU8 2)"

definition can_produce :: "feature \<Rightarrow> bool" where
  "can_produce f \<longleftrightarrow> supported_directions f = Some (AU8 1) \<or> supported_directions f = Some (AU8 2)"

subsection \<open>EnergyControl\<close>

abbreviation ec_flag :: "string \<Rightarrow> bool \<Rightarrow> feature \<Rightarrow> feature \<times> model_error option" where
  "ec_flag n b \<equiv> ignore_error (run_setter (setter_named energy_control_table n) (ABool b))"

definition set_capabilities ::
  "bool \<Rightarrow> bool \<Rightarrow> bool \<Rightarrow> bool \<Rightarrow> bool \<Rightarrow> bool \<Rightarrow> bool \<Rightarrow> feature \<Rightarrow> feature" where
  "set_capabilities limits current_limits setpoints current_setpoints pausable shiftable stoppable f =
     fst (helper_steps
       [ec_flag ''SetAcceptsLimits'' limits, ec_flag ''SetAcceptsCurrentLimits'' current_limits,
        ec_flag ''SetAcceptsSetpoints'' setpoints, ec_flag ''SetAcceptsCurrentSetpoints'' current_setpoints,
        ec_flag ''SetIsPausable'' pausable, ec_flag ''SetIsShiftable'' shiftable,
        ec_flag ''SetIsStoppable'' stoppable] f)"

definition ec_control_state :: "feature \<Rightarrow> any option" where
  "ec_control_state = run_getter (getter_named energy_control_table ''ControlState'')"

definition is_limited :: "feature \<Rightarrow> bool" where
  "is_limited f \<longleftrightarrow> ec_control_state f = Some (AU8 2)"

definition is_failsafe :: "feature \<Rightarrow> bool" where
  "is_failsafe f \<longleftrightarrow> ec_control_state f = Some (AU8 3)"

definition is_override :: "feature \<Rightarrow> bool" where
  "is_override f \<longleftrightarrow> ec_control_state f = Some (AU8 4)"

subsection \<open>Plan, Signals, DeviceInfo\<close>

definition commitment :: "feature \<Rightarrow> any option" where
  "commitment = run_getter (getter_named plan_table ''Commitment'')"

definition is_committed :: "feature \<Rightarrow> bool" where
  "is_committed f = (case commitment f of Some (AU8 c) \<Rightarrow> c \<ge> 2 | _ \<Rightarrow> False)"

definition is_executing :: "feature \<Rightarrow> bool" where
  "is_executing f \<longleftrightarrow> commitment f = Some (AU8 3)"

definition has_active_price_signal :: "feature \<Rightarrow> bool" where
  "has_active_price_signal f \<longleftrightarrow> run_getter (getter_named signals_table ''PriceSlots'') f \<noteq> None"

definition has_active_constraints :: "feature \<Rightarrow> bool" where
  "has_active_constraints f \<longleftrightarrow> run_getter (getter_named signals_table ''ConstraintSlots'') f \<noteq> None"

definition write_location :: "string \<Rightarrow> feature \<Rightarrow> feature \<times> change list \<times> model_error option" where
  "write_location l = write_attribute 30 (AString l)"

definition write_label :: "string \<Rightarrow> feature \<Rightarrow> feature \<times> change list \<times> model_error option" where
  "write_label l = write_attribute 31 (AString l)"

section \<open>Sequences of setters\<close>

text \<open>A step that sets an attribute, with or without regard to the error.\<close>

definition quiet_step :: "bool \<times> u16 \<times> any \<Rightarrow> feature \<Rightarrow> feature \<times> model_error option" where
  "quiet_step w = (case w of (ignored, i, v) \<Rightarrow>
     if ignored then ignore_error (set_quietly i v) else set_quietly i v)"

definition admits_writes :: "feature_table \<Rightarrow> (bool \<times> u16 \<times> any) list \<Rightarrow> bool" where
  "admits_writes t ws \<longleftrightarrow>
     list_all (\<lambda>(ignored, i, v). list_ex (\<lambda>m. am_id m = i \<and> value_allowed m v) (tb_attributes t)) ws"

lemma set_quietly_table:
  assumes "has_table t f"
  shows "has_table t (fst (set_quietly i v f))"
proof (cases "gm_get (ft_attributes f) i")
  case None
  then show ?thesis using assms by (simp add: set_quietly_def get_attribute_def)
next
  case (Some a)
  have "has_table t (put_attribute i (fst (set_value_internal v a)) f)"
    by (rule has_table_put [OF assms Some]) simp
  then show ?thesis using Some
    by (cases "set_value_internal v a") (simp add: set_quietly_def get_attribute_def)
qed

lemma set_quietly_other:
  assumes "j \<noteq> i" and "j < AttrIDGlobalBase"
  shows "read_attribute j (fst (set_quietly i v f)) = read_attribute j f"
proof -
  have "j \<noteq> AttrIDAttributeList" "j \<noteq> AttrIDCommandList" using assms(2) by (auto simp: attr_id_defs)
  then show ?thesis using assms(1)
    by (auto simp: set_quietly_def get_attribute_def read_attribute_def put_attribute_def gomap_simps
        split: option.splits prod.splits)
qed

definition later_read :: "(bool \<times> u16 \<times> any) list \<Rightarrow> feature \<Rightarrow> u16 \<Rightarrow> model_error + any" where
  "later_read ws f j = (case find (\<lambda>(ignored, i, v). i = j) (rev ws) of
     Some (ignored, i, v) \<Rightarrow> Inr v | None \<Rightarrow> read_attribute j f)"

lemma find_append: "find P (xs @ ys) = (case find P xs of None \<Rightarrow> find P ys | Some x \<Rightarrow> Some x)"
  by (induction xs) simp_all

text \<open>After a sequence of admitted steps there is no error, and an attribute has the value of the last
  step that set it.\<close>

lemma quiet_steps:
  assumes "t \<in> set all_tables" and "has_table t f" and "admits_writes t ws"
  shows "\<exists>f'. helper_steps (map quiet_step ws) f = (f', None) \<and> has_table t f' \<and>
    (\<forall>j < AttrIDGlobalBase. read_attribute j f' = later_read ws f j)"
  using assms(2,3)
proof (induction ws arbitrary: f)
  case Nil
  then show ?case by (simp add: later_read_def)
next
  case (Cons w ws)
  obtain ig i v where w: "w = (ig, i, v)" by (cases w)
  obtain m where m: "m \<in> set (tb_attributes t)" "am_id m = i" "value_allowed m v"
    using Cons.prems(2) by (auto simp: admits_writes_def w list_ex_iff)
  define g where "g = fst (set_quietly i v f)"
  have ok: "table_ids_ok t" using table_ids_ok_all assms(1) by simp
  have set: "snd (set_quietly i v f) = None" "read_attribute i g = Inr v"
    using set_quietly_allowed [OF Cons.prems(1) ok m(1,3)] m(2) by (simp_all add: g_def)
  then have step: "quiet_step w f = (g, None)"
    by (simp add: w quiet_step_def ignore_error_def g_def prod_eq_iff)
  have "has_table t g" unfolding g_def by (rule set_quietly_table [OF Cons.prems(1)])
  moreover have "admits_writes t ws" using Cons.prems(2) by (simp add: admits_writes_def)
  ultimately obtain f' where f': "helper_steps (map quiet_step ws) g = (f', None)" "has_table t f'"
    "\<forall>j < AttrIDGlobalBase. read_attribute j f' = later_read ws g j"
    using Cons.IH by blast
  have "later_read ws g j = later_read (w # ws) f j" if "j < AttrIDGlobalBase" for j
    using set(2) set_quietly_other [OF _ that, of i v f]
    by (cases "j = i") (auto simp: later_read_def w g_def find_append split: option.splits)
  with f' step show ?case by simp
qed

lemma run_setter_value: "st_form s = SValue \<Longrightarrow> run_setter s v = set_quietly (st_attr s) v"
  by (simp add: fun_eq_iff run_setter_def)

lemma run_set_ptr_value:
  "st_form s = SValue \<Longrightarrow> run_set_ptr s p = set_quietly (st_attr s) (case p of None \<Rightarrow> ANil | Some v \<Rightarrow> v)"
  by (auto simp: fun_eq_iff run_set_ptr_def run_setter_def run_clear_def split: option.split)

lemma run_clear_value: "run_clear s = set_quietly (st_attr s) ANil"
  by (simp add: fun_eq_iff run_clear_def)

section \<open>Charging sessions\<close>

lemma session_rows:
  "setter_named charging_session_table ''SetState'' = setter_row ''SetState'' 1 KUint8 SValue False False"
  "setter_named charging_session_table ''SetSessionStartTime'' = setter_row ''SetSessionStartTime'' 3 KUint64 SValue True True"
  "setter_named charging_session_table ''SetSessionEndTime'' = setter_row ''SetSessionEndTime'' 4 KUint64 SValue True True"
  "setter_named charging_session_table ''SetSessionEnergyCharged'' = setter_row ''SetSessionEnergyCharged'' 10 KUint64 SValue False False"
  "setter_named charging_session_table ''SetSessionEnergyDischarged'' = setter_row ''SetSessionEnergyDischarged'' 11 KUint64 SValue False False"
  "getter_named charging_session_table ''State'' = getter_row ''State'' 1 KUint8 (GOr (AU8 0))"
  by code_simp+

lemma discharge_rows:
  "setter_named charging_session_table ''SetEVMinEnergyRequest'' = setter_row ''SetEVMinEnergyRequest'' 41 KInt64 SValue True True"
  "setter_named charging_session_table ''SetEVMaxEnergyRequest'' = setter_row ''SetEVMaxEnergyRequest'' 42 KInt64 SValue True True"
  "setter_named charging_session_table ''SetEVTargetEnergyRequest'' = setter_row ''SetEVTargetEnergyRequest'' 43 KInt64 SValue True True"
  "setter_named charging_session_table ''SetEVMinDischargingRequest'' = setter_row ''SetEVMinDischargingRequest'' 50 KInt64 SValue True True"
  "setter_named charging_session_table ''SetEVMaxDischargingRequest'' = setter_row ''SetEVMaxDischargingRequest'' 51 KInt64 SValue True True"
  "setter_named charging_session_table ''SetEVDischargeBelowTargetPermitted'' = setter_row ''SetEVDischargeBelowTargetPermitted'' 52 KBool SValue True True"
  by code_simp+

lemma session_metadata:
  "filter (\<lambda>m. am_id m \<in> {1, 3, 4, 10, 11}) (tb_attributes charging_session_table) =
    [attr_row 1 ''state'' DataTypeUint8 False False ANil ANil (AU8 0) '''',
     attr_row 3 ''sessionStartTime'' DataTypeUint64 False True ANil ANil ANil '''',
     attr_row 4 ''sessionEndTime'' DataTypeUint64 False True ANil ANil ANil '''',
     attr_row 10 ''sessionEnergyCharged'' DataTypeUint64 False False ANil ANil (AU64 0) ''mWh'',
     attr_row 11 ''sessionEnergyDischarged'' DataTypeUint64 False False ANil ANil (AU64 0) ''mWh'']"
  "filter (\<lambda>m. am_id m \<in> {41, 42, 43, 50, 51, 52}) (tb_attributes charging_session_table) =
    [attr_row 41 ''evMinEnergyRequest'' DataTypeInt64 False True ANil ANil ANil ''mWh'',
     attr_row 42 ''evMaxEnergyRequest'' DataTypeInt64 False True ANil ANil ANil ''mWh'',
     attr_row 43 ''evTargetEnergyRequest'' DataTypeInt64 False True ANil ANil ANil ''mWh'',
     attr_row 50 ''evMinDischargingRequest'' DataTypeInt64 False True ANil ANil ANil ''mWh'',
     attr_row 51 ''evMaxDischargingRequest'' DataTypeInt64 False True ANil ANil ANil ''mWh'',
     attr_row 52 ''evDischargeBelowTargetPermitted'' DataTypeBool False True ANil ANil ANil '''']"
  by code_simp+

lemma admits_by_filter:
  assumes "filter P (tb_attributes t) = ms"
    and "list_all (\<lambda>(ignored, i, v). list_ex (\<lambda>m. am_id m = i \<and> value_allowed m v) ms) ws"
  shows "admits_writes t ws"
  using assms(2) unfolding assms(1) [symmetric] admits_writes_def list_all_iff list_ex_iff by fastforce

lemmas value_allowed_row = attr_row_def value_allowed_def validate_value_def

lemma start_session_steps:
  "start_session t = helper_steps (map quiet_step
     [(False, 3, AU64 t), (False, 4, ANil), (False, 10, AU64 0), (False, 11, AU64 0), (False, 1, AU8 1)])"
  by (simp add: start_session_def session_rows setter_row_def run_setter_value run_clear_value quiet_step_def)

lemma end_session_steps:
  "end_session t = helper_steps (map quiet_step [(False, 4, AU64 t), (False, 1, AU8 0)])"
  by (simp add: end_session_def session_rows setter_row_def run_setter_value quiet_step_def)

lemma state_read:
  "read_attribute 1 f = Inr (AU8 n) \<Longrightarrow> charging_state f = Some (AU8 n)"
  by (simp add: charging_state_def session_rows getter_row_def run_getter_def has_kind_def)

text \<open>On a feature in use a session starts without error: it has its start time, no end time and
  counters at zero, and the car counts as plugged in and not charging. Its end sets the end time,
  keeps the start and the counters, and the car counts as unplugged.\<close>

theorem session_lifecycle:
  assumes "in_use charging_session_table f"
    and "start_session t f = (f1, err1)" and "end_session t' f1 = (f2, err2)"
  shows "err1 = None \<and> err2 = None \<and>
    map (\<lambda>i. value_of i f1) [3, 4, 10, 11] = [AU64 t, ANil, AU64 0, AU64 0] \<and>
    is_plugged_in f1 \<and> \<not> is_charging f1 \<and>
    map (\<lambda>i. value_of i f2) [3, 4, 10, 11] = [AU64 t, AU64 t', AU64 0, AU64 0] \<and>
    \<not> is_plugged_in f2"
proof -
  note c = charging_session_in_tables
  have table: "has_table charging_session_table f" by (rule in_use_table [OF c assms(1)])
  let ?ws = "[(False, 3, AU64 t), (False, 4, ANil), (False, 10, AU64 0), (False, 11, AU64 0), (False, 1, AU8 1)]"
  let ?ws' = "[(False, 4, AU64 t'), (False, 1, AU8 0)]"
  have "admits_writes charging_session_table ?ws" "admits_writes charging_session_table ?ws'"
    by (rule admits_by_filter [OF session_metadata(1)], simp add: value_allowed_row)+
  with quiet_steps [OF c table, of ?ws] quiet_steps [OF c, of f1 ?ws'] assms(2,3)
  have e: "err1 = None" "err2 = None"
    and r1: "\<And>j. j < AttrIDGlobalBase \<Longrightarrow> read_attribute j f1 = later_read ?ws f j"
    and r2: "\<And>j. j < AttrIDGlobalBase \<Longrightarrow> read_attribute j f2 = later_read ?ws' f1 j"
    unfolding start_session_steps end_session_steps by auto
  have r: "read_attribute 1 f1 = Inr (AU8 1)" "read_attribute 1 f2 = Inr (AU8 0)"
    "read_attribute 3 f1 = Inr (AU64 t)" "read_attribute 4 f1 = Inr ANil"
    "read_attribute 10 f1 = Inr (AU64 0)" "read_attribute 11 f1 = Inr (AU64 0)"
    by (simp_all add: r1 r2 attr_id_defs later_read_def)
  then have "read_attribute 3 f2 = Inr (AU64 t)" "read_attribute 4 f2 = Inr (AU64 t')"
    "read_attribute 10 f2 = Inr (AU64 0)" "read_attribute 11 f2 = Inr (AU64 0)"
    by (simp_all add: r2 attr_id_defs later_read_def)
  then show ?thesis using e r
    by (simp add: value_of_def is_plugged_in_def is_charging_def state_read)
qed

theorem session_lifecycle_witness:
  "is_plugged_in (fst (start_session 100 (construct 0 charging_session_table))) \<and>
   \<not> is_plugged_in (fst (end_session 160 (fst (start_session 100 (construct 0 charging_session_table)))))"
  using session_lifecycle [OF in_use_construct prod.collapse [symmetric] prod.collapse [symmetric], of 100 0 160]
  by simp

section \<open>Discharging\<close>

text \<open>An optional argument, as the pointer the helpers take.\<close>

definition int_arg :: "64 word option \<Rightarrow> any option" where
  "int_arg = map_option AI64"

definition bool_arg :: "bool option \<Rightarrow> any option" where
  "bool_arg = map_option ABool"

lemma set_ev_energy_requests_steps:
  "set_ev_energy_requests lo hi target = helper_steps (map quiet_step
     [(False, 41, case lo of None \<Rightarrow> ANil | Some v \<Rightarrow> v), (False, 42, case hi of None \<Rightarrow> ANil | Some v \<Rightarrow> v),
      (False, 43, case target of None \<Rightarrow> ANil | Some v \<Rightarrow> v)])"
  by (simp add: set_ev_energy_requests_def discharge_rows setter_row_def run_set_ptr_value quiet_step_def)

lemma set_ev_discharge_constraints_steps:
  "set_ev_discharge_constraints lo hi permitted = helper_steps (map quiet_step
     [(False, 50, case lo of None \<Rightarrow> ANil | Some v \<Rightarrow> v), (False, 51, case hi of None \<Rightarrow> ANil | Some v \<Rightarrow> v),
      (False, 52, case permitted of None \<Rightarrow> ANil | Some v \<Rightarrow> v)])"
  by (simp add: set_ev_discharge_constraints_def discharge_rows setter_row_def run_set_ptr_value quiet_step_def)



section \<open>Faults\<close>

lemma status_in_tables: "status_table \<in> set all_tables"
  by (simp add: all_tables_def)

lemma fault_rows:
  "setter_named status_table ''SetOperatingState'' = setter_row ''SetOperatingState'' 1 KUint8 SValue False False"
  "setter_named status_table ''SetFaultCode'' = setter_row ''SetFaultCode'' 3 KUint32 SValue True True"
  "setter_named status_table ''SetFaultMessage'' = setter_row ''SetFaultMessage'' 4 KString SValue True True"
  "getter_named status_table ''OperatingState'' = getter_row ''OperatingState'' 1 KUint8 (GOr (AU8 0))"
  by code_simp+

lemma fault_metadata:
  "filter (\<lambda>m. am_id m \<in> {1, 3, 4}) (tb_attributes status_table) =
    [attr_row 1 ''operatingState'' DataTypeUint8 False False ANil ANil (AU8 0) '''',
     attr_row 3 ''faultCode'' DataTypeUint32 False True ANil ANil ANil '''',
     attr_row 4 ''faultMessage'' DataTypeString False True ANil ANil ANil '''']"
  by code_simp

lemma set_fault_steps:
  "set_fault code message = helper_steps (map quiet_step
     [(False, 1, AU8 7), (True, 3, AU32 code), (True, 4, AString message)])"
  by (simp add: set_fault_def fault_rows setter_row_def run_setter_value quiet_step_def)

lemma clear_fault_steps:
  "clear_fault = helper_steps (map quiet_step [(True, 3, ANil), (True, 4, ANil)])"
  by (simp add: clear_fault_def fault_rows setter_row_def run_clear_value quiet_step_def)

text \<open>\<open>ClearFault\<close> says that it clears the fault state, but it clears only the code and the message: on
  a feature in use the operating state remains FAULT, and the device counts as faulted and not as
  ready.\<close>

theorem cleared_fault_remains:
  assumes "in_use status_table f"
    and "set_fault code message f = (f1, err1)" and "clear_fault f1 = (f2, err2)"
  shows "err1 = None \<and> err2 = None \<and> is_faulted f1 \<and> is_faulted f2 \<and> \<not> is_ready f2 \<and>
    map (\<lambda>i. value_of i f1) [3, 4] = [AU32 code, AString message] \<and>
    map (\<lambda>i. value_of i f2) [3, 4] = [ANil, ANil]"
proof -
  note c = status_in_tables
  have table: "has_table status_table f" by (rule in_use_table [OF c assms(1)])
  let ?ws = "[(False, 1, AU8 7), (True, 3, AU32 code), (True, 4, AString message)]"
  let ?ws' = "[(True, 3, ANil), (True, 4, ANil)]"
  have "admits_writes status_table ?ws" "admits_writes status_table ?ws'"
    by (rule admits_by_filter [OF fault_metadata], simp add: value_allowed_row)+
  with quiet_steps [OF c table, of ?ws] quiet_steps [OF c, of f1 ?ws'] assms(2,3)
  have e: "err1 = None" "err2 = None"
    and r1: "\<And>j. j < AttrIDGlobalBase \<Longrightarrow> read_attribute j f1 = later_read ?ws f j"
    and r2: "\<And>j. j < AttrIDGlobalBase \<Longrightarrow> read_attribute j f2 = later_read ?ws' f1 j"
    unfolding set_fault_steps clear_fault_steps by auto
  have "read_attribute 1 f1 = Inr (AU8 7)" "read_attribute 1 f2 = Inr (AU8 7)"
    "read_attribute 3 f1 = Inr (AU32 code)" "read_attribute 4 f1 = Inr (AString message)"
    "read_attribute 3 f2 = Inr ANil" "read_attribute 4 f2 = Inr ANil"
    by (simp_all add: r1 r2 attr_id_defs later_read_def)
  then show ?thesis using e
    by (simp add: value_of_def is_faulted_def is_ready_def operating_state_def fault_rows getter_row_def
        run_getter_def has_kind_def)
qed

theorem cleared_fault_remains_witness:
  "is_faulted (fst (clear_fault (fst (set_fault 9 ''hot'' (construct 0 status_table)))))"
  using cleared_fault_remains [OF in_use_construct prod.collapse [symmetric] prod.collapse [symmetric], of 9 "''hot''" 0]
  by simp

end
