(* ===== verification/TestTriggers.thy ===== *)
theory TestTriggers
  imports FeatureHelpers Admission DeviceZones Subscription
begin

text \<open>
  The test triggers of a device (\<open>pkg/service/test_event_handler.go\<close>): the handlers of the commands of
  TestControl, the dispatch of a trigger by its domain, the triggers that set attributes, and the reset
  between tests, which goes through the device model, the zones, the limit resolver, the gate, the
  failsafe timers, the tracked connections and the subscriptions.

  Left out: the command that returns a snapshot of the state for diagnostics. The discovery manager
  appears with the window duration it was last told. \<open>time.Now().Unix()\<close> is an argument.
\<close>

section \<open>State\<close>

datatype trigger_error =
    TeCommand command_error
  | TeText string
  | TeService service_error
  | TeModel model_error

record trigger_state =
  ts_service :: device_service
  ts_device :: device
  ts_clock_offset :: duration
  ts_window :: duration
  ts_default_window :: duration
  ts_tracker :: conn_tracker
  ts_session_subscriptions :: "(string, nat list) gomap"
  ts_subscriptions :: sub_manager
  ts_changes :: "change list"

text \<open>\<open>%016x\<close>.\<close>

definition hex16 :: "u64 \<Rightarrow> string" where
  "hex16 n = map (\<lambda>k. hex_digit (unat n div 16 ^ k)) (rev [0 ..< 16])"

section \<open>Triggers that set attributes\<close>

definition trigger_domain :: "u64 \<Rightarrow> u16" where
  "trigger_domain trigger = ucast (drop_bit 48 trigger)"

text \<open>What a trigger sets on the feature: first values whose errors are ignored, then perhaps one whose
  error is returned.\<close>

type_synonym trigger_action = "(u16 \<times> any) list \<times> (u16 \<times> any) option"

definition status_action :: "u64 \<Rightarrow> trigger_action option" where
  "status_action trigger =
     (if trigger = 0x0002000000000001
      then Some ([(1, AU8 7), (3, AU32 1), (4, AString ''Test trigger fault'')], None)
      else if trigger = 0x0002000000000002 then Some ([(1, AU8 4), (3, AU32 0), (4, AString '''')], None)
      else if trigger = 0x0002000000000003 then Some ([], Some (1, AU8 2))
      else if trigger = 0x0002000000000004 then Some ([], Some (1, AU8 4))
      else None)"

definition measurement_action :: "u64 \<Rightarrow> trigger_action option" where
  "measurement_action trigger =
     (if trigger = 0x0004000000000001 then Some ([], Some (1, AI64 100000))
      else if trigger = 0x0004000000000002 then Some ([], Some (1, AI64 1000000))
      else if trigger = 0x0004000000000003 then Some ([], Some (1, AI64 0))
      else if trigger = 0x0004000000000010 then Some ([], Some (50, AU8 50))
      else if trigger = 0x0004000000000011 then Some ([], Some (50, AU8 100))
      else if and trigger 0xFFFFFFFF00000000 = 0x0004000100000000
      then Some ([], Some (1, AI64 (scast (ucast (and trigger 0xFFFFFFFF) :: 32 word))))
      else None)"

definition charging_action :: "u64 \<Rightarrow> u64 \<Rightarrow> trigger_action option" where
  "charging_action now trigger =
     (if trigger = 0x0006000000000001 then Some ([(3, AU64 now)], Some (1, AU8 1))
      else if trigger = 0x0006000000000002 then Some ([(4, AU64 now)], Some (1, AU8 0))
      else if trigger = 0x0006000000000003 then Some ([], Some (1, AU8 2))
      else None)"

text \<open>The five states of control, then the seven states of the process.\<close>

definition energy_control_action :: "u64 \<Rightarrow> trigger_action option" where
  "energy_control_action trigger =
     (if 0x0005000000000001 \<le> trigger \<and> trigger \<le> 0x0005000000000005
      then Some ([], Some (2, AU8 (ucast (trigger - 0x0005000000000001))))
      else if 0x0005000000000010 \<le> trigger \<and> trigger \<le> 0x0005000000000016
      then Some ([], Some (80, AU8 (ucast (trigger - 0x0005000000000010))))
      else None)"

text \<open>The first endpoint with the feature, in the order of the map.\<close>

fun endpoint_with :: "u8 \<Rightarrow> (u8, endpoint) gomap \<Rightarrow> u8 option" where
  "endpoint_with ft [] = None"
| "endpoint_with ft ((i, e) # es) = (if has_feature ft e then Some i else endpoint_with ft es)"

text \<open>\<open>SetAttributeInternal\<close> on a feature of the device, with the calls of its subscribers.\<close>

definition device_set_internal ::
  "u8 \<Rightarrow> u8 \<Rightarrow> u16 \<times> any \<Rightarrow> device \<Rightarrow> device \<times> change list \<times> model_error option" where
  "device_set_internal i ft av d =
     (case device_get_feature i ft d of
        Inl err \<Rightarrow> (d, [], Some err)
      | Inr f \<Rightarrow> (case set_attribute_internal (fst av) (snd av) f of
          (f', changes, err) \<Rightarrow> (put_feature i ft f' d, changes, err)))"

fun set_all :: "u8 \<Rightarrow> u8 \<Rightarrow> (u16 \<times> any) list \<Rightarrow> device \<Rightarrow> device \<times> change list" where
  "set_all i ft [] d = (d, [])"
| "set_all i ft (av # avs) d =
     (case device_set_internal i ft av d of (d', changes, _) \<Rightarrow>
       (case set_all i ft avs d' of (d'', changes') \<Rightarrow> (d'', changes @ changes')))"

definition feature_trigger ::
  "u8 \<Rightarrow> string \<Rightarrow> string \<Rightarrow> trigger_action option \<Rightarrow> u64 \<Rightarrow> device \<Rightarrow>
     device \<times> change list \<times> trigger_error option" where
  "feature_trigger ft feature domain action trigger d =
     (case endpoint_with ft (dv_endpoints d) of
        None \<Rightarrow> (d, [], Some (TeText (''no '' @ feature @ '' feature found on any endpoint'')))
      | Some i \<Rightarrow>
          (case action of
             None \<Rightarrow> (d, [], Some (TeText (''unknown '' @ domain @ '' trigger: 0x'' @ hex16 trigger)))
           | Some (ignored, last_one) \<Rightarrow>
               (case set_all i ft ignored d of (d1, changes1) \<Rightarrow>
                 (case last_one of
                    None \<Rightarrow> (d1, changes1, None)
                  | Some av \<Rightarrow>
                      (case device_set_internal i ft av d1 of (d2, changes2, err) \<Rightarrow>
                        (d2, changes1 @ changes2, map_option TeModel err))))))"

definition handle_status_trigger :: "u64 \<Rightarrow> device \<Rightarrow> device \<times> change list \<times> trigger_error option" where
  "handle_status_trigger trigger = feature_trigger 2 ''Status'' ''status'' (status_action trigger) trigger"

definition handle_measurement_trigger ::
  "u64 \<Rightarrow> device \<Rightarrow> device \<times> change list \<times> trigger_error option" where
  "handle_measurement_trigger trigger =
     feature_trigger 4 ''Measurement'' ''measurement'' (measurement_action trigger) trigger"

definition handle_charging_session_trigger ::
  "u64 \<Rightarrow> u64 \<Rightarrow> device \<Rightarrow> device \<times> change list \<times> trigger_error option" where
  "handle_charging_session_trigger now trigger =
     feature_trigger 6 ''ChargingSession'' ''charging session'' (charging_action now trigger) trigger"

definition handle_energy_control_trigger ::
  "u64 \<Rightarrow> device \<Rightarrow> device \<times> change list \<times> trigger_error option" where
  "handle_energy_control_trigger trigger =
     feature_trigger 5 ''EnergyControl'' ''energy control'' (energy_control_action trigger) trigger"

section \<open>Triggers for the service\<close>

definition reset_values :: "(u8 \<times> (u16 \<times> any) list) list" where
  "reset_values =
     [(2, [(1, AU8 2), (3, AU32 0), (4, AString '''')]), (4, [(1, AI64 0)]), (6, [(1, AU8 0)]),
      (5, [(2, AU8 0), (80, AU8 0)])]"

text \<open>On every endpoint; a feature the endpoint does not have is skipped.\<close>

fun set_features :: "(u8 \<times> u8 \<times> (u16 \<times> any) list) list \<Rightarrow> device \<Rightarrow> device \<times> change list" where
  "set_features [] d = (d, [])"
| "set_features ((i, ft, avs) # sets) d =
     (case set_all i ft avs d of (d', changes) \<Rightarrow>
       (case set_features sets d' of (d'', changes') \<Rightarrow> (d'', changes @ changes')))"

definition reset_features :: "device \<Rightarrow> device \<times> change list" where
  "reset_features d =
     set_features (concat (map (\<lambda>(i, e). map (\<lambda>(ft, avs). (i, ft, avs)) reset_values) (dv_endpoints d))) d"

text \<open>The zones the reset removes: no TEST zone, and no session or not connected.\<close>

definition stale_zones :: "device_service \<Rightarrow> string list" where
  "stale_zones s = map fst (filter (\<lambda>(z, cz). cz_type cz \<noteq> ZoneTypeTest \<and>
     (gm_get (ds_sessions s) z = None \<or> \<not> cz_connected cz)) (ds_zones s))"

definition remove_zones :: "time \<Rightarrow> surroundings \<Rightarrow> string list \<Rightarrow> device_service \<Rightarrow> device_service" where
  "remove_zones now su zs s = foldl (\<lambda>s z. fst (device_remove_zone now su z s)) s zs"

definition reset_failsafes :: "device_service \<Rightarrow> device_service" where
  "reset_failsafes s =
     foldl (\<lambda>s (z, i). change_timer i (\<lambda>t. fst (fs_reset t)) s) s (ds_failsafe_timers s)"

definition restart_pairing :: "device_service \<Rightarrow> device_service" where
  "restart_pairing s =
     (let s1 = stop_pairing_listening s
      in if dcf_listen_pairing (ds_config s1) \<and> ds_state s1 \<noteq> SvcIdle then start_pairing_listening s1 else s1)"

text \<open>\<open>TriggerResetTestState\<close> on the service, then on the rest of the state.\<close>

definition reset_service :: "time \<Rightarrow> surroundings \<Rightarrow> device_service \<Rightarrow> device_service" where
  "reset_service now su s =
     (let s1 = remove_zones now su (stale_zones s) s;
          s2 = s1\<lparr>ds_resolver := map_option (\<lambda>lr. fst (reset_all now lr)) (ds_resolver s1)\<rparr>;
          s3 = fst (exit_commissioning_mode now su s2);
          s4 = reset_pase_tracker (fst (enter_commissioning_mode su s3));
          s5 = s4\<lparr>ds_last_attempt := zero_time, ds_conn_active := False, ds_generation := ds_generation s4 + 1\<rparr>;
          s6 = (reset_failsafes s5)\<lparr>ds_auto_reentry := False\<rparr>
      in restart_pairing s6)"

definition reset_test_state :: "time \<Rightarrow> surroundings \<Rightarrow> trigger_state \<Rightarrow> trigger_state" where
  "reset_test_state now su ts =
     (case reset_features (ts_device ts) of (d, changes) \<Rightarrow>
       ts\<lparr>ts_device := d, ts_changes := ts_changes ts @ changes,
          ts_service := reset_service now su (ts_service ts), ts_clock_offset := 0,
          ts_window := (if ts_default_window ts > 0 then ts_default_window ts else ts_window ts),
          ts_tracker := snd (close_all (ts_tracker ts)),
          ts_session_subscriptions := map (\<lambda>(z, subs). (z, [])) (ts_session_subscriptions ts),
          ts_subscriptions := sub_clear_all (ts_subscriptions ts)\<rparr>)"

definition on_service ::
  "(device_service \<Rightarrow> device_service \<times> service_error option) \<Rightarrow> trigger_state \<Rightarrow> trigger_state \<times> trigger_error option" where
  "on_service g ts = (case g (ts_service ts) of (s, err) \<Rightarrow> (ts\<lparr>ts_service := s\<rparr>, map_option TeService err))"

definition on_device ::
  "(device \<Rightarrow> device \<times> change list \<times> trigger_error option) \<Rightarrow> trigger_state \<Rightarrow> trigger_state \<times> trigger_error option" where
  "on_device g ts = (case g (ts_device ts) of (d, changes, err) \<Rightarrow>
     (ts\<lparr>ts_device := d, ts_changes := ts_changes ts @ changes\<rparr>, err))"

definition handle_commissioning_trigger ::
  "time \<Rightarrow> surroundings \<Rightarrow> u64 \<Rightarrow> trigger_state \<Rightarrow> trigger_state \<times> trigger_error option" where
  "handle_commissioning_trigger now su trigger ts =
     (if trigger = 0x0001000000000001 then on_service (enter_commissioning_mode su) ts
      else if trigger = 0x0001000000000002 then on_service (exit_commissioning_mode now su) ts
      else if trigger = 0x0001000000000003
      then on_service (\<lambda>s. (remove_zones now su (map fst (ds_zones s)) s, None)) ts
      else if trigger = 0x0001000000000004 then (reset_test_state now su ts, None)
      else if and trigger 0xFFFFFFFF00000000 = 0x0001000100000000
      then (ts\<lparr>ts_clock_offset := sint (ucast (and trigger 0xFFFFFFFF) :: 32 word) * second\<rparr>, None)
      else (ts, Some (TeText (''unknown commissioning trigger: 0x'' @ hex16 trigger))))"

definition dispatch_trigger ::
  "time \<Rightarrow> surroundings \<Rightarrow> u64 \<Rightarrow> u64 \<Rightarrow> trigger_state \<Rightarrow> trigger_state \<times> trigger_error option" where
  "dispatch_trigger now su unix trigger ts =
     (let domain = trigger_domain trigger
      in if domain = 1 then handle_commissioning_trigger now su trigger ts
         else if domain = 2 then on_device (handle_status_trigger trigger) ts
         else if domain = 4 then on_device (handle_measurement_trigger trigger) ts
         else if domain = 6 then on_device (handle_charging_session_trigger unix trigger) ts
         else if domain = 5 then on_device (handle_energy_control_trigger trigger) ts
         else (ts, Some (TeText (''unknown trigger domain: 0x'' @ hex4 domain))))"

section \<open>The commands of TestControl\<close>

definition require_test_zone :: "caller \<Rightarrow> trigger_error option" where
  "require_test_zone ctx =
     (if cl_zone_type ctx \<noteq> ZoneTypeTest
      then Some (TeCommand \<lparr>ce_status = StatusNotAuthorized,
             ce_message = ''TestControl commands require a TEST zone''\<rparr>)
      else None)"

text \<open>The checks that both handlers make first.\<close>

definition test_command_refusal :: "caller \<Rightarrow> any \<Rightarrow> trigger_state \<Rightarrow> trigger_error option" where
  "test_command_refusal ctx key ts =
     (case require_test_zone ctx of
        Some err \<Rightarrow> Some err
      | None \<Rightarrow> if key \<noteq> AString (dcf_test_enable_key (ds_config (ts_service ts)))
                then Some (TeText ''invalid enable key'') else None)"

fun u64_of :: "any \<Rightarrow> u64" where
  "u64_of (AU64 n) = n"
| "u64_of _ = 0"

fun u32_of :: "any \<Rightarrow> u32" where
  "u32_of (AU32 n) = n"
| "u32_of _ = 0"

definition on_trigger_test_event ::
  "time \<Rightarrow> surroundings \<Rightarrow> u64 \<Rightarrow> caller \<Rightarrow> cmd_request \<Rightarrow> trigger_state \<Rightarrow> trigger_state \<times> trigger_error option" where
  "on_trigger_test_event now su unix ctx req ts =
     (case test_command_refusal ctx (any_at req ''enableKey'') ts of
        Some err \<Rightarrow> (ts, Some err)
      | None \<Rightarrow> dispatch_trigger now su unix (u64_of (any_at req ''eventTrigger'')) ts)"

definition clamped_seconds :: "u32 \<Rightarrow> u32" where
  "clamped_seconds n = (let d = (if n < 3 then 3 else n) in if d > 10800 then 10800 else d)"

definition on_set_commissioning_window_duration ::
  "caller \<Rightarrow> cmd_request \<Rightarrow> trigger_state \<Rightarrow> trigger_state \<times> trigger_error option" where
  "on_set_commissioning_window_duration ctx req ts =
     (case test_command_refusal ctx (any_at req ''enableKey'') ts of
        Some err \<Rightarrow> (ts, Some err)
      | None \<Rightarrow> (ts\<lparr>ts_window := uint (clamped_seconds (u32_of (any_at req ''durationSeconds''))) * second\<rparr>, None))"

section \<open>The reset of the service\<close>

text \<open>What the removal of some zones keeps.\<close>

definition zones_removed :: "string list \<Rightarrow> device_service \<Rightarrow> device_service \<Rightarrow> bool" where
  "zones_removed zs s s' \<longleftrightarrow>
     (\<forall>z. gm_get (ds_zones s') z = (if z \<in> set zs then None else gm_get (ds_zones s) z)) \<and>
     (\<forall>z. z \<notin> set zs \<longrightarrow> gm_get (ds_sessions s') z = gm_get (ds_sessions s) z) \<and>
     (\<forall>z i. gm_get (ds_failsafe_timers s') z = Some i \<longrightarrow> gm_get (ds_failsafe_timers s) z = Some i) \<and>
     length (ds_timer_objects s') = length (ds_timer_objects s) \<and>
     ds_state s' = ds_state s \<and> ds_config s' = ds_config s \<and> ds_generation s' = ds_generation s"

lemma zones_removed_one: "zones_removed [z] s (fst (device_remove_zone now su z s))"
proof (cases "gm_get (ds_zones s) z")
  case None
  then show ?thesis by (auto simp: zones_removed_def device_remove_zone_def)
next
  case (Some cz)
  have "zones_removed [z] s (forget_zone z s)"
    by (cases "gm_get (ds_failsafe_timers s) z"; cases "gm_get (ds_zone_index s) z")
      (simp_all add: zones_removed_def forget_zone_def Let_def change_timer_def gomap_simps)
  with remove_zone_frame [OF Some, of now su] show ?thesis
    by (simp add: zones_removed_def same_zones_def)
qed

lemma zones_removed_many: "zones_removed zs s (remove_zones now su zs s)"
proof (induction zs arbitrary: s)
  case Nil
  then show ?case by (simp add: zones_removed_def remove_zones_def)
next
  case (Cons z zs)
  define s1 where "s1 = fst (device_remove_zone now su z s)"
  have "remove_zones now su (z # zs) s = remove_zones now su zs s1"
    by (simp add: remove_zones_def s1_def)
  moreover have "zones_removed [z] s s1" unfolding s1_def by (rule zones_removed_one)
  ultimately show ?case using Cons.IH [of s1] by (auto simp: zones_removed_def)
qed

lemma reset_failsafes_frame:
  "ds_zones (reset_failsafes s) = ds_zones s" "ds_sessions (reset_failsafes s) = ds_sessions s"
  "ds_failsafe_timers (reset_failsafes s) = ds_failsafe_timers s" "ds_open (reset_failsafes s) = ds_open s"
  "ds_conn_active (reset_failsafes s) = ds_conn_active s" "ds_generation (reset_failsafes s) = ds_generation s"
proof -
  have "ds_zones t = ds_zones s \<and> ds_sessions t = ds_sessions s \<and> ds_failsafe_timers t = ds_failsafe_timers s \<and>
      ds_open t = ds_open s \<and> ds_conn_active t = ds_conn_active s \<and> ds_generation t = ds_generation s"
    if "t = foldl (\<lambda>s (z, i). change_timer i (\<lambda>t. fst (fs_reset t)) s) s m" for m t
    using that by (induction m arbitrary: s) (auto simp: change_timer_def split: if_splits)
  then show "ds_zones (reset_failsafes s) = ds_zones s" "ds_sessions (reset_failsafes s) = ds_sessions s"
    "ds_failsafe_timers (reset_failsafes s) = ds_failsafe_timers s" "ds_open (reset_failsafes s) = ds_open s"
    "ds_conn_active (reset_failsafes s) = ds_conn_active s" "ds_generation (reset_failsafes s) = ds_generation s"
    unfolding reset_failsafes_def by blast+
qed

lemma reset_failsafes_normal:
  assumes "(z, i) \<in> set (ds_failsafe_timers s)" and "i < length (ds_timer_objects s)"
  shows "fs_state (snd (ds_timer_objects (reset_failsafes s) ! i)) = StateNormal"
proof -
  have keep: "fs_state (snd (ds_timer_objects (foldl (\<lambda>s (z, i). change_timer i (\<lambda>t. fst (fs_reset t)) s) s m) ! i)) = StateNormal"
    if "fs_state (snd (ds_timer_objects s ! i)) = StateNormal" for m s
    using that
    by (induction m arbitrary: s) (auto simp: change_timer_def fs_reset_def nth_list_update)
  have "fs_state (snd (ds_timer_objects (foldl (\<lambda>s (z, i). change_timer i (\<lambda>t. fst (fs_reset t)) s) s m) ! i)) = StateNormal"
    if "(z, i) \<in> set m" "i < length (ds_timer_objects s)" for m
    using that
  proof (induction m arbitrary: s)
    case (Cons e m)
    let ?s1 = "change_timer (snd e) (\<lambda>t. fst (fs_reset t)) s"
    have len: "length (ds_timer_objects ?s1) = length (ds_timer_objects s)" by (simp add: change_timer_def)
    show ?case
    proof (cases "e = (z, i)")
      case True
      then have "fs_state (snd (ds_timer_objects ?s1 ! i)) = StateNormal"
        using Cons.prems(2) by (simp add: change_timer_def fs_reset_def)
      from keep [OF this] show ?thesis by (simp add: True)
    next
      case False
      with Cons len show ?thesis by (cases e) auto
    qed
  qed simp
  with assms show ?thesis by (simp add: reset_failsafes_def)
qed

lemma restart_pairing_frame:
  "restart_pairing s = s\<lparr>ds_pairing_active := ds_pairing_active (restart_pairing s)\<rparr>"
  by (simp add: restart_pairing_def start_pairing_listening_def stop_pairing_listening_def Let_def)

text \<open>C39. The reset leaves the gate open with no commissioning under way and every failsafe timer stopped;
  every zone that is left is a TEST zone or connected with a session, and is as it was before, with the
  mark of its failsafe: a zone that was in failsafe is still marked although its timer is not.\<close>

theorem reset_leaves_clean_service:
  assumes "ds_state s = SvcRunning" and "su_listen_ok su" and "su_advertise_ok su"
    and "gm_wf (ds_zones s)" and "\<forall>z i. gm_get (ds_failsafe_timers s) z = Some i \<longrightarrow> i < length (ds_timer_objects s)"
    and "s' = reset_service now su s"
  shows "ds_open s' \<and> \<not> ds_conn_active s' \<and> \<not> ds_auto_reentry s' \<and> ds_generation s' = ds_generation s + 1 \<and>
    (\<forall>z. gm_get (ds_zones s') z = (case gm_get (ds_zones s) z of None \<Rightarrow> None | Some cz \<Rightarrow>
       if cz_type cz = ZoneTypeTest \<or> gm_get (ds_sessions s) z \<noteq> None \<and> cz_connected cz then Some cz else None)) \<and>
    (\<forall>z t. zone_timer z s' = Some t \<longrightarrow> fs_state t = StateNormal)"
proof -
  define s1 where "s1 = remove_zones now su (stale_zones s) s"
  define s2 where "s2 = s1\<lparr>ds_resolver := map_option (\<lambda>lr. fst (reset_all now lr)) (ds_resolver s1)\<rparr>"
  define s3 where "s3 = fst (exit_commissioning_mode now su s2)"
  define s4 where "s4 = reset_pase_tracker (fst (enter_commissioning_mode su s3))"
  define s5 where "s5 = s4\<lparr>ds_last_attempt := zero_time, ds_conn_active := False, ds_generation := ds_generation s4 + 1\<rparr>"
  define s6 where "s6 = (reset_failsafes s5)\<lparr>ds_auto_reentry := False\<rparr>"
  have s': "s' = s6\<lparr>ds_pairing_active := ds_pairing_active s'\<rparr>"
    unfolding assms(6) reset_service_def Let_def s1_def [symmetric] s2_def [symmetric] s3_def [symmetric]
      s4_def [symmetric] s5_def [symmetric] s6_def [symmetric] by (rule restart_pairing_frame)
  have removed: "zones_removed (stale_zones s) s s1" unfolding s1_def by (rule zones_removed_many)
  have same: "same_zones s2 s3" unfolding s3_def by (rule service_frame)
  have same': "same_zones s3 s4" unfolding s4_def
    using same_zones_enter [of s3 su] by (simp add: same_zones_def reset_pase_tracker_def)
  have run: "ds_state s3 = SvcRunning"
    using removed same assms(1) by (simp add: zones_removed_def same_zones_def s2_def)
  then have open_gate: "ds_open s4" using assms(2,3)
    by (simp add: s4_def enter_commissioning_mode_def enter_finish_def enter_begin_def reset_pase_tracker_def Let_def
        emit_event_def)
  have f5: "ds_zones s5 = ds_zones s1" "ds_sessions s5 = ds_sessions s1"
    "ds_failsafe_timers s5 = ds_failsafe_timers s1" "length (ds_timer_objects s5) = length (ds_timer_objects s)"
    "ds_generation s5 = ds_generation s + 1"
    using removed same same' by (simp_all add: zones_removed_def same_zones_def s2_def s5_def)
  have stale: "z \<in> set (stale_zones s) \<longleftrightarrow> (\<exists>cz. gm_get (ds_zones s) z = Some cz \<and> cz_type cz \<noteq> ZoneTypeTest \<and>
      (gm_get (ds_sessions s) z = None \<or> \<not> cz_connected cz))" for z
    using assms(4) by (force simp: stale_zones_def gm_get_in)
  have "gm_get (ds_zones s') z = (case gm_get (ds_zones s) z of None \<Rightarrow> None | Some cz \<Rightarrow>
      if cz_type cz = ZoneTypeTest \<or> gm_get (ds_sessions s) z \<noteq> None \<and> cz_connected cz then Some cz else None)" for z
    using removed stale [of z]
    by (subst s') (auto simp: s6_def reset_failsafes_frame f5 zones_removed_def split: option.splits)
  moreover have "fs_state t = StateNormal" if "zone_timer z s' = Some t" for z t
  proof -
    have timers: "ds_failsafe_timers s' = ds_failsafe_timers s5" "ds_timer_objects s' = ds_timer_objects (reset_failsafes s5)"
      by (subst s', simp add: s6_def reset_failsafes_frame)+
    from that obtain i where i: "gm_get (ds_failsafe_timers s5) z = Some i"
      "t = snd (ds_timer_objects (reset_failsafes s5) ! i)"
      by (auto simp: zone_timer_def timers)
    then have "i < length (ds_timer_objects s5)"
      using removed assms(5) f5 by (metis zones_removed_def)
    moreover have "(z, i) \<in> set (ds_failsafe_timers s5)" using i(1) by (rule map_of_SomeD)
    ultimately show ?thesis using reset_failsafes_normal i(2) by blast
  qed
  moreover have "ds_open s'" "\<not> ds_conn_active s'" "\<not> ds_auto_reentry s'" "ds_generation s' = ds_generation s + 1"
    using open_gate f5 by (subst s', simp add: s6_def reset_failsafes_frame s5_def)+
  ultimately show ?thesis by blast
qed

theorem reset_leaves_clean_service_witness:
  "ds_open (reset_service 5 all_fine running_service) \<and> \<not> ds_conn_active (reset_service 5 all_fine running_service)"
  using reset_leaves_clean_service [of running_service all_fine "reset_service 5 all_fine running_service" 5]
  by (simp add: running_service_def new_device_service_def)

section \<open>Setting attributes of a device\<close>

lemma put_feature_get:
  assumes "device_get_feature i ft d = Inr f"
  shows "device_get_feature j ft' (put_feature i ft f' d) =
    (if j = i \<and> ft' = ft then Inr f' else device_get_feature j ft' d)"
  using assms
  by (auto simp: device_get_feature_def get_endpoint_def get_feature_def put_feature_def gomap_simps
      split: option.splits)

lemma set_internal_quietly:
  "a < AttrIDGlobalBase \<Longrightarrow> fst (set_attribute_internal a v f) = fst (set_quietly a v f)"
  by (auto simp: set_attribute_internal_def store_attribute_def set_quietly_def split: sum.splits option.splits prod.splits)

definition writes :: "(u16 \<times> any) list \<Rightarrow> (bool \<times> u16 \<times> any) list" where
  "writes avs = map (\<lambda>(a, v). (True, a, v)) avs"

lemma device_set_internal_get:
  assumes "fst av < AttrIDGlobalBase"
  shows "device_get_feature j ft' (fst (device_set_internal i ft av d)) =
    (if j = i \<and> ft' = ft then map_sum id (\<lambda>f. fst (set_quietly (fst av) (snd av) f)) (device_get_feature i ft d)
     else device_get_feature j ft' d)"
proof (cases "device_get_feature i ft d")
  case (Inr f)
  obtain f' cs err where r: "set_attribute_internal (fst av) (snd av) f = (f', cs, err)"
    by (cases "set_attribute_internal (fst av) (snd av) f")
  then have "f' = fst (set_quietly (fst av) (snd av) f)"
    using set_internal_quietly [OF assms, of "snd av" f] by simp
  with Inr r show ?thesis by (simp add: device_set_internal_def put_feature_get [OF Inr])
qed (auto simp: device_set_internal_def)

text \<open>A sequence of sets on one feature changes it like the setters do, and no other feature.\<close>

lemma set_all_get:
  assumes "\<forall>(a, v) \<in> set avs. a < AttrIDGlobalBase"
  shows "device_get_feature j ft' (fst (set_all i ft avs d)) =
    (if j = i \<and> ft' = ft
     then map_sum id (\<lambda>f. fst (helper_steps (map quiet_step (writes avs)) f)) (device_get_feature i ft d)
     else device_get_feature j ft' d)"
  using assms
proof (induction avs arbitrary: d)
  case Nil
  then show ?case by (cases "device_get_feature i ft d") (auto simp: writes_def)
next
  case (Cons av avs)
  define d1 where "d1 = fst (device_set_internal i ft av d)"
  have head: "fst av < AttrIDGlobalBase" using Cons.prems by (cases av) auto
  have step: "fst (helper_steps (map quiet_step (writes (av # avs))) f) =
      fst (helper_steps (map quiet_step (writes avs)) (fst (set_quietly (fst av) (snd av) f)))" for f
    by (cases av) (simp add: writes_def quiet_step_def ignore_error_def)
  have "fst (set_all i ft (av # avs) d) = fst (set_all i ft avs d1)"
    by (simp add: d1_def split: prod.splits)
  moreover have "\<forall>(a, v) \<in> set avs. a < AttrIDGlobalBase" using Cons.prems by simp
  ultimately show ?case
    using Cons.IH [of d1] device_set_internal_get [OF head, of _ _ i ft d] step
    by (cases "device_get_feature i ft d") (simp_all add: d1_def)
qed

lemma set_all_endpoints:
  "endpoint_with ft' (dv_endpoints (fst (set_all i ft avs d))) = endpoint_with ft' (dv_endpoints d)"
proof -
  have put: "endpoint_with ft' (gm_put i e' m) = endpoint_with ft' m"
    if "gm_get m i = Some e" "has_feature ft' e' = has_feature ft' e" for m :: "(u8, endpoint) gomap" and e e'
    using that by (induction m) (auto split: if_splits)
  have "endpoint_with ft' (dv_endpoints (put_feature i ft f' d)) = endpoint_with ft' (dv_endpoints d)"
    if "device_get_feature i ft d = Inr f" for f f' d
    using that
    by (auto simp: put_feature_def device_get_feature_def get_endpoint_def get_feature_def has_feature_def
        gomap_simps split: option.splits if_splits intro!: put)
  then have "endpoint_with ft' (dv_endpoints (fst (device_set_internal i ft av d))) = endpoint_with ft' (dv_endpoints d)"
    for av d
    by (auto simp: device_set_internal_def split: sum.splits prod.splits)
  then show ?thesis by (induction avs arbitrary: d) (auto split: prod.splits, metis fst_conv)
qed

lemma set_features_other:
  assumes "\<forall>(j, ft', avs) \<in> set sets. (j, ft') \<noteq> (i, ft)" and "\<forall>(j, ft', avs) \<in> set sets. \<forall>(a, v) \<in> set avs. a < AttrIDGlobalBase"
  shows "device_get_feature i ft (fst (set_features sets d)) = device_get_feature i ft d"
  using assms
proof (induction sets arbitrary: d)
  case (Cons e sets)
  obtain j ft' avs where e: "e = (j, ft', avs)" by (cases e)
  have "fst (set_features (e # sets) d) = fst (set_features sets (fst (set_all j ft' avs d)))"
    by (simp add: e split: prod.splits)
  with Cons set_all_get [of avs i ft j ft' d] show ?case by (auto simp: e)
qed simp

lemma set_features_at:
  assumes "distinct (map (\<lambda>(j, ft', avs). (j, ft')) sets)" and "(i, ft, avs) \<in> set sets"
    and "\<forall>(j, ft', avs) \<in> set sets. \<forall>(a, v) \<in> set avs. a < AttrIDGlobalBase"
  shows "device_get_feature i ft (fst (set_features sets d)) =
    map_sum id (\<lambda>f. fst (helper_steps (map quiet_step (writes avs)) f)) (device_get_feature i ft d)"
  using assms
proof (induction sets arbitrary: d)
  case (Cons e sets)
  obtain j ft' avs' where e: "e = (j, ft', avs')" by (cases e)
  have step: "fst (set_features (e # sets) d) = fst (set_features sets (fst (set_all j ft' avs' d)))"
    by (simp add: e split: prod.splits)
  have ok: "\<forall>(a, v) \<in> set avs'. a < AttrIDGlobalBase"
    "\<forall>(j, ft', avs) \<in> set sets. \<forall>(a, v) \<in> set avs. a < AttrIDGlobalBase"
    using Cons.prems(3) by (auto simp: e)
  show ?case
  proof (cases "(j, ft') = (i, ft)")
    case True
    have "\<forall>(j, ft', avs) \<in> set sets. (j, ft') \<noteq> (i, ft)"
      using Cons.prems(1) True by (force simp: e)
    moreover from this have "avs' = avs" using Cons.prems(2) True by (auto simp: e)
    ultimately show ?thesis using set_features_other [OF _ ok(2), of i ft] set_all_get [OF ok(1), of i ft i ft d] True
      unfolding step by (simp add: id_def)
  next
    case False
    then have "(i, ft, avs) \<in> set sets" "distinct (map (\<lambda>(j, ft', avs). (j, ft')) sets)"
      using Cons.prems(1,2) by (auto simp: e)
    then show ?thesis using Cons.IH [OF _ _ ok(2)] set_all_get [OF ok(1), of i ft j ft' d] False
      unfolding step by auto
  qed
qed simp

section \<open>The reset of the features\<close>

lemma reset_sets_keys:
  "map (\<lambda>(j, ft', avs). (j, ft')) (concat (map (\<lambda>(i, e). map (\<lambda>(ft, avs). (i, ft, avs)) reset_values) m))
     = concat (map (\<lambda>i. map (Pair i) [2, 4, 6, 5]) (map fst m))"
  by (induction m) (auto simp: reset_values_def)

lemma pairs_distinct:
  assumes "distinct xs" and "distinct ys"
  shows "distinct (concat (map (\<lambda>x. map (Pair x) ys) xs))"
  using assms(1) by (induction xs) (auto simp: distinct_map assms(2) inj_on_def)

lemma reset_sets_distinct:
  assumes "distinct (map fst m)"
  shows "distinct (map (\<lambda>(j, ft', avs). (j, ft'))
    (concat (map (\<lambda>(i, e). map (\<lambda>(ft, avs). (i, ft, avs)) reset_values) m)))"
  unfolding reset_sets_keys by (rule pairs_distinct [OF assms]) simp

lemma reset_features_get:
  assumes "gm_wf (dv_endpoints d)" and "device_get_feature i ft d = Inr f" and "(ft, avs) \<in> set reset_values"
  shows "device_get_feature i ft (fst (reset_features d)) = Inr (fst (helper_steps (map quiet_step (writes avs)) f))"
proof -
  let ?sets = "concat (map (\<lambda>(i, e). map (\<lambda>(ft, avs). (i, ft, avs)) reset_values) (dv_endpoints d))"
  have "gm_get (dv_endpoints d) i \<noteq> None"
    using assms(2) by (auto simp: device_get_feature_def get_endpoint_def split: option.splits)
  then obtain e where "(i, e) \<in> set (dv_endpoints d)" using map_of_SomeD by fast
  then have "(i, ft, avs) \<in> set ?sets" using assms(3) by force
  moreover have "distinct (map (\<lambda>(j, ft', avs). (j, ft')) ?sets)"
    by (rule reset_sets_distinct) (use assms(1) in \<open>simp add: gm_wf_def\<close>)
  moreover have "\<forall>(j, ft', avs) \<in> set ?sets. \<forall>(a, v) \<in> set avs. a < AttrIDGlobalBase"
    by (auto simp: reset_values_def attr_id_defs)
  ultimately show ?thesis
    using set_features_at [of ?sets i ft avs d] assms(2) by (simp add: reset_features_def)
qed

lemma measurement_in_tables: "measurement_table \<in> set all_tables"
  by (simp add: all_tables_def)

lemma measurement_metadata:
  "filter (\<lambda>m. am_id m \<in> {1, 50}) (tb_attributes measurement_table) =
    [attr_row 1 ''acActivePower'' DataTypeInt64 False True ANil ANil ANil ''mW'',
     attr_row 50 ''stateOfCharge'' DataTypeUint8 False True (AU8 0) (AU8 100) ANil ''%'']"
  by code_simp

text \<open>The reset makes every measured power zero and every status STANDBY without a fault, on all
  endpoints. It forgets the state of charge, which triggers set as well: that stays what an earlier test
  has made it.\<close>

theorem reset_keeps_state_of_charge:
  assumes "gm_wf (dv_endpoints d)" and "device_get_feature i 4 d = Inr f" and "in_use measurement_table f"
    and "device_get_feature j 2 d = Inr g" and "in_use status_table g"
  shows "\<exists>f' g'. device_get_feature i 4 (fst (reset_features d)) = Inr f' \<and> value_of 1 f' = AI64 0 \<and>
    value_of 50 f' = value_of 50 f \<and>
    device_get_feature j 2 (fst (reset_features d)) = Inr g' \<and> is_ready g' \<and> \<not> is_faulted g' \<and>
    map (\<lambda>i. value_of i g') [3, 4] = [AU32 0, AString '''']"
proof -
  let ?ws = "writes [(1, AI64 0)]" and ?ws' = "writes [(1, AU8 2), (3, AU32 0), (4, AString '''')]"
  have "(4, [(1, AI64 0)]) \<in> set reset_values" "(2, [(1, AU8 2), (3, AU32 0), (4, AString '''')]) \<in> set reset_values"
    by (simp_all add: reset_values_def)
  note get = reset_features_get [OF assms(1,2) this(1)] reset_features_get [OF assms(1,4) this(2)]
  have "admits_writes measurement_table ?ws"
    by (rule admits_by_filter [OF measurement_metadata]) (simp add: writes_def value_allowed_row)
  with quiet_steps [OF measurement_in_tables in_use_table [OF measurement_in_tables assms(3)]] obtain f' where
    f': "fst (helper_steps (map quiet_step ?ws) f) = f'"
    "\<And>j. j < AttrIDGlobalBase \<Longrightarrow> read_attribute j f' = later_read ?ws f j" by fastforce
  have "admits_writes status_table ?ws'"
    by (rule admits_by_filter [OF fault_metadata]) (simp add: writes_def value_allowed_row)
  with quiet_steps [OF status_in_tables in_use_table [OF status_in_tables assms(5)]] obtain g' where
    g': "fst (helper_steps (map quiet_step ?ws') g) = g'"
    "\<And>j. j < AttrIDGlobalBase \<Longrightarrow> read_attribute j g' = later_read ?ws' g j" by fastforce
  have "read_attribute 1 g' = Inr (AU8 2)" "read_attribute 3 g' = Inr (AU32 0)" "read_attribute 4 g' = Inr (AString '''')"
    by (simp_all add: g' attr_id_defs later_read_def writes_def)
  then have "is_ready g' \<and> \<not> is_faulted g' \<and> map (\<lambda>i. value_of i g') [3, 4] = [AU32 0, AString '''']"
    by (simp add: value_of_def is_faulted_def is_ready_def operating_state_def fault_rows getter_row_def
        run_getter_def has_kind_def)
  moreover have "value_of 1 f' = AI64 0" "value_of 50 f' = value_of 50 f"
    by (simp_all add: value_of_def f' attr_id_defs later_read_def writes_def)
  ultimately show ?thesis using get f'(1) g'(1) by auto
qed

text \<open>A device with one endpoint that has both features.\<close>

definition charger_device :: device where
  "charger_device = (new_device ''d'' 1 1)\<lparr>dv_endpoints := [(1, add_feature (construct 0 measurement_table)
     (add_feature (construct 0 status_table) (new_endpoint 1 5 '''')))]\<rparr>"

lemma charger_features:
  "gm_wf (dv_endpoints charger_device)"
  "device_get_feature 1 4 charger_device = Inr (construct 0 measurement_table)"
  "device_get_feature 1 2 charger_device = Inr (construct 0 status_table)"
  "endpoint_with 4 (dv_endpoints charger_device) = Some 1"
  "endpoint_with 2 (dv_endpoints charger_device) = Some 1"
proof -
  have ty: "ft_type (construct 0 measurement_table) = 4" "ft_type (construct 0 status_table) = 2" by code_simp+
  show "gm_wf (dv_endpoints charger_device)" by (simp add: charger_device_def gm_wf_def)
  show "device_get_feature 1 4 charger_device = Inr (construct 0 measurement_table)"
    "device_get_feature 1 2 charger_device = Inr (construct 0 status_table)"
    "endpoint_with 4 (dv_endpoints charger_device) = Some 1"
    "endpoint_with 2 (dv_endpoints charger_device) = Some 1"
    by (simp_all add: charger_device_def device_get_feature_def get_endpoint_def get_feature_def add_feature_def
        new_endpoint_def has_feature_def ty)
qed

theorem reset_keeps_state_of_charge_witness:
  "\<exists>f'. device_get_feature 1 4 (fst (reset_features charger_device)) = Inr f' \<and> value_of 1 f' = AI64 0"
  using reset_keeps_state_of_charge [OF charger_features(1,2) in_use_construct charger_features(3) in_use_construct]
  by blast

section \<open>Single triggers\<close>

lemma feature_trigger_get:
  assumes "endpoint_with ft (dv_endpoints d) = Some i" and "device_get_feature i ft d = Inr f"
    and "\<forall>(a, v) \<in> set ignored. a < AttrIDGlobalBase"
  shows "feature_trigger ft n m (Some (ignored, None)) trigger d = (d', cs, err) \<Longrightarrow>
    err = None \<and> device_get_feature i ft d' = Inr (fst (helper_steps (map quiet_step (writes ignored)) f))"
  using set_all_get [OF assms(3), of i ft i ft d] assms(1,2)
  by (auto simp: feature_trigger_def split: prod.splits)

text \<open>The fault trigger puts the first status into FAULT, and unlike \<open>ClearFault\<close> the trigger that clears
  a fault lets the device run again.\<close>

theorem fault_triggers:
  assumes "endpoint_with 2 (dv_endpoints d) = Some i" and "device_get_feature i 2 d = Inr f"
    and "in_use status_table f"
    and "handle_status_trigger 0x0002000000000001 d = (d1, cs1, err1)"
    and "handle_status_trigger 0x0002000000000002 d1 = (d2, cs2, err2)"
  shows "err1 = None \<and> err2 = None \<and>
    (\<exists>f1 f2. device_get_feature i 2 d1 = Inr f1 \<and> is_faulted f1 \<and> value_of 3 f1 = AU32 1 \<and>
       device_get_feature i 2 d2 = Inr f2 \<and> \<not> is_faulted f2 \<and> is_running f2 \<and> value_of 3 f2 = AU32 0)"
proof -
  let ?avs = "[(1, AU8 7), (3, AU32 1), (4, AString ''Test trigger fault'')]"
  let ?avs' = "[(1, AU8 4), (3, AU32 0), (4, AString '''')]"
  have base: "\<forall>(a, v) \<in> set ?avs. a < AttrIDGlobalBase" "\<forall>(a, v) \<in> set ?avs'. a < AttrIDGlobalBase"
    by (auto simp: attr_id_defs)
  have "admits_writes status_table (writes ?avs)" "admits_writes status_table (writes ?avs')"
    by (rule admits_by_filter [OF fault_metadata], simp add: writes_def value_allowed_row)+
  note steps = quiet_steps [OF status_in_tables _ this(1)] quiet_steps [OF status_in_tables _ this(2)]
  obtain f1 where f1: "fst (helper_steps (map quiet_step (writes ?avs)) f) = f1" "has_table status_table f1"
    "\<And>j. j < AttrIDGlobalBase \<Longrightarrow> read_attribute j f1 = later_read (writes ?avs) f j"
    using steps(1) [OF in_use_table [OF status_in_tables assms(3)]] by fastforce
  obtain f2 where f2: "fst (helper_steps (map quiet_step (writes ?avs')) f1) = f2"
    "\<And>j. j < AttrIDGlobalBase \<Longrightarrow> read_attribute j f2 = later_read (writes ?avs') f1 j"
    using steps(2) [OF f1(2)] by fastforce
  have one: "err1 = None \<and> device_get_feature i 2 d1 = Inr f1"
    using feature_trigger_get [OF assms(1,2) base(1)] assms(4) f1(1)
    by (simp add: handle_status_trigger_def status_action_def)
  have "d1 = fst (set_all i 2 ?avs d)" using assms(1,4)
    by (simp add: handle_status_trigger_def status_action_def feature_trigger_def del: set_all.simps split: prod.splits)
  then have "endpoint_with 2 (dv_endpoints d1) = Some i" by (simp only: set_all_endpoints assms(1))
  then have two: "err2 = None \<and> device_get_feature i 2 d2 = Inr f2"
    using feature_trigger_get [OF _ _ base(2)] assms(5) f2(1) one
    by (simp add: handle_status_trigger_def status_action_def)
  have "read_attribute 1 f1 = Inr (AU8 7)" "read_attribute 3 f1 = Inr (AU32 1)"
    "read_attribute 1 f2 = Inr (AU8 4)" "read_attribute 3 f2 = Inr (AU32 0)"
    by (simp_all add: f1(3) f2(2) attr_id_defs later_read_def writes_def)
  then have "is_faulted f1 \<and> value_of 3 f1 = AU32 1 \<and> \<not> is_faulted f2 \<and> is_running f2 \<and> value_of 3 f2 = AU32 0"
    by (simp add: value_of_def is_faulted_def is_running_def operating_state_def fault_rows getter_row_def
        run_getter_def has_kind_def)
  with one two show ?thesis by blast
qed

theorem fault_triggers_witness:
  "snd (snd (handle_status_trigger 0x0002000000000001 charger_device)) = None"
proof -
  obtain d1 cs1 err1 where one: "handle_status_trigger 0x0002000000000001 charger_device = (d1, cs1, err1)"
    using prod_cases3 by blast
  obtain d2 cs2 err2 where two: "handle_status_trigger 0x0002000000000002 d1 = (d2, cs2, err2)"
    using prod_cases3 by blast
  from fault_triggers [OF charger_features(5,3) in_use_construct one two] one show ?thesis by simp
qed

text \<open>A trigger for a power carries the 32 bits of a signed number.\<close>

definition custom_power_trigger :: "u32 \<Rightarrow> u64" where
  "custom_power_trigger mw = or 0x0004000100000000 (ucast mw)"

lemma custom_power_parts:
  "and (custom_power_trigger mw) 0xFFFFFFFF00000000 = 0x0004000100000000"
  "ucast (and (custom_power_trigger mw) 0xFFFFFFFF) = mw"
  "trigger_domain (custom_power_trigger mw) = 4"
proof -
  have hi: "and (ucast mw :: u64) 0xFFFFFFFF00000000 = 0"
  proof (rule bit_word_eqI)
    fix n :: nat assume n: "n < LENGTH(64)"
    have "n < 32 \<Longrightarrow> \<not> bit (0xFFFFFFFF00000000 :: u64) n"
    proof -
      assume "n < 32"
      have "(0xFFFFFFFF00000000 :: u64) = push_bit 32 0xFFFFFFFF" by simp
      with \<open>n < 32\<close> show ?thesis by (simp only: bit_push_bit_iff) simp
    qed
    moreover have "n \<ge> 32 \<Longrightarrow> \<not> bit (ucast mw :: u64) n" by (auto simp: bit_ucast_iff dest: bit_imp_le_length)
    ultimately show "bit (and (ucast mw :: u64) 0xFFFFFFFF00000000) n = bit (0 :: u64) n"
      by (cases "n < 32") (simp_all add: bit_and_iff)
  qed
  have "and (custom_power_trigger mw) 0xFFFFFFFF00000000 =
      or (and 0x0004000100000000 0xFFFFFFFF00000000) (and (ucast mw) 0xFFFFFFFF00000000)"
    by (simp only: custom_power_trigger_def bit.conj_disj_distrib2)
  then show "and (custom_power_trigger mw) 0xFFFFFFFF00000000 = 0x0004000100000000"
    by (simp only: hi) simp
  have mask: "(0xFFFFFFFF :: u64) = mask 32" by (simp add: mask_eq_exp_minus_1)
  have low: "and (custom_power_trigger mw) 0xFFFFFFFF = ucast mw"
  proof -
    have "and (custom_power_trigger mw) 0xFFFFFFFF = or (and 0x0004000100000000 0xFFFFFFFF) (and (ucast mw) 0xFFFFFFFF)"
      by (simp only: custom_power_trigger_def bit.conj_disj_distrib2)
    also have "\<dots> = and (ucast mw) 0xFFFFFFFF" by simp
    also have "\<dots> = ucast mw" unfolding mask
      by (rule bit_word_eqI) (auto simp: bit_and_iff bit_mask_iff bit_ucast_iff dest: bit_imp_le_length)
    finally show ?thesis .
  qed
  show "ucast (and (custom_power_trigger mw) 0xFFFFFFFF) = mw"
    unfolding low by (rule bit_word_eqI) (simp add: bit_ucast_iff)
  have "drop_bit 48 (custom_power_trigger mw) = or (drop_bit 48 0x0004000100000000) (drop_bit 48 (ucast mw))"
    by (simp only: custom_power_trigger_def drop_bit_or)
  moreover have "drop_bit 48 (ucast mw :: u64) = 0"
    by (rule bit_word_eqI) (auto simp: bit_drop_bit_eq bit_ucast_iff dest: bit_imp_le_length)
  ultimately show "trigger_domain (custom_power_trigger mw) = 4"
    by (simp add: trigger_domain_def drop_bit_eq_div)
qed

lemma custom_power_action:
  "measurement_action (custom_power_trigger mw) = Some ([], Some (1, AI64 (scast mw)))"
proof -
  have other: "custom_power_trigger mw \<noteq> n" if "and n 0xFFFFFFFF00000000 \<noteq> 0x0004000100000000" for n
    using that custom_power_parts(1) by metis
  show ?thesis
    by (simp add: measurement_action_def other custom_power_parts(1,2))
qed

text \<open>The trigger for a power sets exactly that power, negative numbers included: the device then counts
  as producing or consuming by the sign, and nothing else of the state changes.\<close>

theorem custom_power_signed:
  assumes "endpoint_with 4 (dv_endpoints (ts_device ts)) = Some i"
    and "device_get_feature i 4 (ts_device ts) = Inr f" and "in_use measurement_table f"
    and "dispatch_trigger now su unix (custom_power_trigger mw) ts = (ts', err)"
  shows "err = None \<and> ts_service ts' = ts_service ts \<and>
    (\<exists>f'. device_get_feature i 4 (ts_device ts') = Inr f' \<and> ac_active_power f' = Some (AI64 (scast mw)) \<and>
      (is_producing f' \<longleftrightarrow> sint mw < 0) \<and> (is_consuming f' \<longleftrightarrow> 0 < sint mw))"
proof -
  define f' where "f' = fst (set_quietly 1 (AI64 (scast mw)) f)"
  have m: "attr_row 1 ''acActivePower'' DataTypeInt64 False True ANil ANil ANil ''mW'' \<in> set (tb_attributes measurement_table)"
    using arg_cong [OF measurement_metadata, of set] by auto
  have "snd (set_quietly 1 (AI64 (scast mw)) f) = None \<and> read_attribute 1 f' = Inr (AI64 (scast mw))"
    using set_quietly_allowed [OF in_use_table [OF measurement_in_tables assms(3)] _ m, of "AI64 (scast mw)"]
      table_ids_ok_all measurement_in_tables by (simp add: f'_def value_allowed_row)
  then have set: "snd (set_quietly 1 (AI64 (scast mw)) f) = None" "read_attribute 1 f' = Inr (AI64 (scast mw))" by auto
  obtain cs err' where r: "set_attribute_internal 1 (AI64 (scast mw)) f = (f', cs, err')"
    using set_internal_quietly [of 1 "AI64 (scast mw)" f]
    by (cases "set_attribute_internal 1 (AI64 (scast mw)) f") (simp add: attr_id_defs f'_def)
  have "(1 :: u16) < AttrIDGlobalBase" by (simp add: attr_id_defs)
  then have below: "\<not> AttrIDGlobalBase \<le> 1" by (simp only: not_le)
  have "err' = None" using r set(1)
    by (auto simp: set_attribute_internal_def store_attribute_def set_quietly_def below
        split: sum.splits option.splits prod.splits)
  then have "handle_measurement_trigger (custom_power_trigger mw) (ts_device ts) =
      (put_feature i 4 f' (ts_device ts), cs, None)"
    by (simp add: handle_measurement_trigger_def feature_trigger_def custom_power_action assms(1,2)
        device_set_internal_def r)
  then have "ts' = ts\<lparr>ts_device := put_feature i 4 f' (ts_device ts), ts_changes := ts_changes ts @ cs\<rparr> \<and> err = None"
    using assms(4) by (simp add: dispatch_trigger_def custom_power_parts(3) on_device_def)
  moreover have "device_get_feature i 4 (put_feature i 4 f' (ts_device ts)) = Inr f'"
    by (simp add: put_feature_get [OF assms(2)])
  moreover have row: "getter_named measurement_table ''ACActivePower'' = getter_row ''ACActivePower'' 1 KInt64 GOpt"
    by code_simp
  then have "ac_active_power f' = Some (AI64 (scast mw))"
    using set(2) by (simp add: ac_active_power_def run_getter_def getter_row_def has_kind_def)
  moreover have "sint (scast mw :: 64 word) = sint mw" by (simp add: sint_up_scast is_up)
  ultimately show ?thesis by (simp add: is_producing_def is_consuming_def)
qed

definition idle_triggers :: trigger_state where
  "idle_triggers = \<lparr>ts_service = running_service, ts_device = charger_device, ts_clock_offset = 0, ts_window = 0,
     ts_default_window = 0, ts_tracker = [], ts_session_subscriptions = [],
     ts_subscriptions = new_sub_manager DefaultConfig, ts_changes = []\<rparr>"

theorem custom_power_signed_witness:
  "snd (dispatch_trigger 0 all_fine 0 (custom_power_trigger (-5000)) idle_triggers) = None"
  using custom_power_signed [of idle_triggers 1 "construct 0 measurement_table" 0 all_fine 0 "-5000"
      "fst (dispatch_trigger 0 all_fine 0 (custom_power_trigger (-5000)) idle_triggers)"
      "snd (dispatch_trigger 0 all_fine 0 (custom_power_trigger (-5000)) idle_triggers)"]
  by (simp add: idle_triggers_def charger_features in_use_construct)

text \<open>The commands act only for a caller of a TEST zone with the enable key.\<close>

lemma test_commands_refused:
  assumes "cl_zone_type ctx \<noteq> ZoneTypeTest \<or> any_at req ''enableKey'' \<noteq> AString (dcf_test_enable_key (ds_config (ts_service ts)))"
  shows "\<exists>err. on_trigger_test_event now su unix ctx req ts = (ts, Some err) \<and>
    on_set_commissioning_window_duration ctx req ts = (ts, Some err)"
  using assms by (auto simp: on_trigger_test_event_def on_set_commissioning_window_duration_def
      test_command_refusal_def require_test_zone_def)

end
