(* ===== verification/Spec2Isabelle.thy ===== *)
theory Spec2Isabelle
  imports Prelude GoTime Zone DurationTimer GoAny Wire LimitResolver Failsafe Framing Connection
    Subscription PaseWindow Tracker DeviceModel Dispatch Text SetupCodes TxtRecords KeepAlive
    Client Dispatcher Renewal Session UseCase UseCaseRegistry UseCaseDiscovery SpecManifest
    DeviceService DeviceZones ZoneLifecycle DiscoveryManager Admission
    InteractionServer FeatureAccess FeatureTables Features FeatureHelpers TestTriggers
begin

text \<open>
  MASH (Minimal Application-layer Smart Home protocol): the reference implementation in Go.
  Energy devices (wall boxes, inverters, heat pumps) are controlled by up to three zones
  (grid, building, home), each with a controller. This development models the logic that is
  the same on every connection, from the bytes of a frame to the attribute that changes, and
  the safety functions of a device (resolution of limits, duration timers, failsafe,
  commissioning window). All paths are below \<open>src/mash-go\<close>.

  HOW THE PARTS INTERACT. A connection delivers frames (Framing). A session of the device
  (\<open>pkg/service/zone_session.go\<close>) or of the controller (\<open>device_session.go\<close>) classifies the
  frame by the CBOR keys it has (Wire) and hands it to the request handler (Dispatch), to the
  client that waits for a response (Client), to the renewal handler (Renewal) or to the
  application (Session). The request handler works on the device model (DeviceModel) and keeps
  the subscriptions of the session (Tracker); device-wide subscriptions with coalescing and
  heartbeats (Subscription) are routed to the connections by the notification dispatcher
  (Dispatcher). The command handlers of EnergyControl use the limit resolver (LimitResolver),
  which keeps one value per zone (Zone) and a duration timer per zone (DurationTimer). Losing
  the controller starts the failsafe timer (Failsafe); a reconnecting manager restores the
  connection (Connection), a keep-alive monitor detects the loss (KeepAlive). A device is found
  and commissioned with setup codes, QR codes and TXT records (Text, SetupCodes, TxtRecords)
  while its commissioning window is open (PaseWindow); the device service (DeviceService,
  DeviceZones, ZoneLifecycle) admits the commissioning connection, registers the zone and gives
  later connections to their zones. The discovery manager (DiscoveryManager) advertises a device
  or its zones on the network; the acceptor (Admission) limits the connections that are not yet
  in their message loop and checks certificates. The features themselves are generated: tables of
  attributes, accessors and commands over the device model (FeatureAccess, FeatureTables, Features),
  with a few helpers (FeatureHelpers); test triggers drive them and reset the service (TestTriggers). A
  second server (InteractionServer) handles requests and notifies one client without the services.
  What a device can do follows from its use cases (UseCase,
  UseCaseRegistry, UseCaseDiscovery), defined against a manifest (SpecManifest).

  THE THEORIES.
  \<^item> Prelude: Go's integers, time and maps; the locales \<open>map_store\<close> (what a lookup returns after a
    put or a delete), \<open>invariant_machine\<close> (a step function that keeps an invariant, and so does
    every run) and its extensions \<open>supply_machine\<close> and \<open>counter_machine\<close> (runs that are shorter
    than a supply of ids); the collections of lemmas. GoTime: \<open>time.AfterFunc\<close> and \<open>Timer.Stop\<close>,
    with the locale \<open>timer_service\<close>. GoAny: Go's \<open>any\<close>, as messages and attributes use it. Text:
    strings as lists of bytes, \<open>strconv\<close>, \<open>strings\<close>.
  \<^item> Zone: \<open>pkg/cert/types.go\<close> (zone types), \<open>pkg/zone/zone.go\<close> (MultiZoneValue, ResolveLimits,
    ResolveSetpoints), \<open>pkg/zone/manager.go\<close> (Manager). Shown: what the resolutions return, that
    the order of a \<open>range\<close> over the map is irrelevant, the bounds on memberships.
  \<^item> DurationTimer: \<open>pkg/duration/timer.go\<close>; every tracked timer is pending or about to run.
  \<^item> LimitResolver: \<open>pkg/features/limit_resolver.go\<close>; the feature's effective limits are at
    every time the minimum over the zones' stored limits; every branch of HandleSetLimit.
  \<^item> Failsafe: \<open>pkg/failsafe/timer.go\<close>; the armed timers of each state, entry and exit,
    persistence. PaseWindow: \<open>pkg/pase/window.go\<close>; an open window will close.
  \<^item> Framing: \<open>pkg/transport/framing.go\<close> and writeMessage, readMessage of
    \<open>pkg/commissioning/session.go\<close>; outcome of a read on every stream, round trip.
    KeepAlive: \<open>pkg/transport/keepalive.go\<close>; detection of a silent peer. Connection:
    \<open>pkg/connection\<close>; backoff delays, and that a reconnecting manager is attended to.
  \<^item> Wire: \<open>pkg/wire\<close> (message.go, status.go, operation.go, codec.go): message records, their
    wire form, validation, payload extraction, PeekMessageType.
  \<^item> DeviceModel: \<open>pkg/model\<close>; stored values satisfy their metadata. Tracker and Dispatch:
    \<open>pkg/service/dispatch\<close> (session_subscription_tracker.go, protocol_handler.go); what each
    request does to the device, on every branch, and what a peer cannot do.
  \<^item> Subscription: \<open>pkg/subscription\<close>; coalescing, heartbeats, the feature index. Dispatcher:
    \<open>pkg/service/dispatch/notification_dispatcher.go\<close> with the specification \<open>fan_out\<close> it refines.
  \<^item> Client: \<open>pkg/interaction/client.go\<close> as a step relation of concurrent calls, deliveries,
    timeouts and Close. Renewal: \<open>pkg/commissioning/renewal_messages.go\<close>,
    \<open>pkg/service/device_renewal.go\<close>, \<open>controller_renewal.go\<close>. Session: the message handling of
    the sessions and of the device's message loop, and the end-to-end properties.
  \<^item> SetupCodes: \<open>pkg/version/version.go\<close>, \<open>pkg/service/version_check.go\<close>,
    \<open>pkg/commissioning/setupcode.go\<close>, \<open>pkg/discovery/qrcode.go\<close>. TxtRecords:
    \<open>pkg/discovery/txtrecord.go\<close>, \<open>types.go\<close>.

  \<^item> DeviceService: \<open>pkg/service/device_service_zone.go\<close>, \<open>device_service_failsafe.go\<close>,
    \<open>device_service_persistence.go\<close>, \<open>device_service_commissioning.go\<close>, \<open>pase_tracker.go\<close>,
    \<open>remove_zone_handler.go\<close>, \<open>pkg/persistence/state.go\<close>. DeviceZones: commissioning connections,
    handlers and timers as one machine (\<open>world_step\<close>); one zone per type, no more than the slots.
    ZoneLifecycle: removal, reconnection, failsafe and restart of a zone.
  \<^item> DiscoveryManager: \<open>pkg/discovery/advertiser.go\<close>; what is advertised agrees with the state of
    the manager, and the timer of the commissioning window. Admission:
    \<open>pkg/service/conn_tracker.go\<close>, the accept loop and the certificate checks of
    \<open>device_service.go\<close>, the delay of errors; the cap on connections.
  \<^item> InteractionServer: \<open>pkg/interaction/server.go\<close>, \<open>subscription.go\<close>; the values a subscription keeps,
    which changes are notified and which are lost, agreement with the protocol handler on writes.
  \<^item> FeatureAccess: what a generated constructor, getter, setter and command handler does, by the
    form of its row. FeatureTables: the rows of \<open>pkg/features/*_gen.go\<close>, in the order of the files.
    Features: getters and setters fit together, what a controller's write does to a getter, initial
    values. FeatureHelpers: the hand-written files of \<open>pkg/features\<close>. TestTriggers:
    \<open>pkg/service/test_event_handler.go\<close>; single triggers, and what the reset leaves.
  \<^item> UseCase: \<open>pkg/usecase/types.go\<close>, \<open>matcher.go\<close>, \<open>evaluate.go\<close>; the loop over the constraints
    ends with the largest consistent set of scenarios. UseCaseRegistry: the generated table
    \<open>definitions_gen.go\<close>. UseCaseDiscovery: \<open>discovery.go\<close>; a controller finds what the device
    declared, and what it misses by probing. SpecManifest: \<open>pkg/version/spec.go\<close>,
    \<open>pkg/usecase/resolve.go\<close>; validation of a device and resolution of names.

  CONVENTIONS. A mutex makes each method one step; where the code gives the lock up inside a
  method (Subscribe of the dispatcher, HandleResponse and sendRequest of the client, the
  reconnection loop) the parts are steps of their own and may be interleaved. A clock reading
  is an argument, one per call. A function that the application registers is called by
  returning it as an output. Functions of the runtime timers run as separate events, so a
  timer that has fired may wait for the lock. Errors are values of a datatype. Machine
  integers are words where they can wrap. CBOR encoding and decoding, the connect function,
  hashing, keys and certificates are arguments of the definitions that use them; what a
  property needs of them is a named hypothesis (\<open>codec_ok\<close>) and its witness gives
  a function with it. Go maps are association lists in the order a \<open>range\<close> visits them.

  BOUNDS. Loops over finite data are structural recursions and need no fuel. Ids of
  subscriptions and messages are 32 bit counters: properties that need distinct ids hold for
  runs with fewer than 2^32 - 1 allocations (\<open>supply_machine\<close>). The retry loops (nextMessageID,
  GenerateSetupCode) take fuel; nextMessageID is shown to return with fuel 2 for each counter.
  Floats occur as numbers of a decoded message only and are rationals, integers being rounded
  to 53 bits where the code converts them.

  NOT MODELLED. The commands below \<open>cmd\<close> and the printing and inspection they use (\<open>internal/inspect\<close>,
  \<open>internal/pics\<close>, \<open>internal/specparse\<close>): tools around the protocol. \<open>internal/testharness\<close>
  and \<open>internal/examples\<close>: tests. Of the generated features the texts for display, the registration
  of handlers and the power in kW (a float); of the test triggers the snapshot of the state. The
  controller service as a whole (\<open>pkg/service/controller_service.go\<close>): its session, subscriptions and
  renewal are modelled. X.509
  certificates, TLS and sockets (\<open>pkg/cert\<close>, \<open>pkg/transport/tls.go\<close>, client.go, server.go), mDNS
  (\<open>pkg/discovery/mdns.go\<close>, \<open>browser.go\<close>) and the elliptic-curve arithmetic of SPAKE2+: the code calls a library.
  \<open>pkg/log\<close>: output. The findings in the manifest name what the model showed of the code.
\<close>

end
